(* ===== verification/Prelude.thy ===== *)
theory Prelude
  imports Complex_Main "HOL-Library.AList" "HOL-Library.Char_ord" "HOL-Library.List_Lexorder"
begin

text \<open>
  Shared vocabulary of the development: exceptions as values (a Python call that may
  raise returns \<open>error + 'a\<close>, with \<open>Inl\<close> for the raised exception), Python dictionaries
  as insertion-ordered association lists, POSIX paths as component lists, clock readings,
  and the lemma collections the component theories extend.
\<close>

section \<open>Lemma collections\<close>

named_theorems err_simps \<open>equations of the exception sequencing operators\<close>
named_theorems dict_simps \<open>equations of the dictionary operations\<close>
named_theorems inv_intros \<open>preservation of component invariants\<close>

section \<open>Types shared by the components\<close>

type_synonym time = real
type_synonym path = "string list"

section \<open>Exceptions as values\<close>

text \<open>\<open>ebind r f\<close> is "run \<open>r\<close>, an exception skips the rest".\<close>

definition ebind :: "'e + 'a \<Rightarrow> ('a \<Rightarrow> 'e + 'b) \<Rightarrow> 'e + 'b" where
  "ebind r f = (case r of Inl e \<Rightarrow> Inl e | Inr a \<Rightarrow> f a)"

text \<open>\<open>require c e\<close> is "if not c: raise e".\<close>

definition require :: "bool \<Rightarrow> 'e \<Rightarrow> 'e + unit" where
  "require c e = (if c then Inr () else Inl e)"

lemma ebind_Inl [simp, err_simps]: "ebind (Inl e) f = Inl e"
  by (simp add: ebind_def)

lemma ebind_Inr [simp, err_simps]: "ebind (Inr a) f = f a"
  by (simp add: ebind_def)

lemma require_True [simp, err_simps]: "require True e = Inr ()"
  by (simp add: require_def)

lemma require_False [simp, err_simps]: "require False e = Inl e"
  by (simp add: require_def)

lemma ebind_eq_Inr [err_simps]: "ebind r f = Inr b \<longleftrightarrow> (\<exists>a. r = Inr a \<and> f a = Inr b)"
  by (simp add: ebind_def split: sum.splits)

lemma ebind_eq_Inl [err_simps]:
  "ebind r f = Inl e \<longleftrightarrow> r = Inl e \<or> (\<exists>a. r = Inr a \<and> f a = Inl e)"
  by (auto simp: ebind_def split: sum.splits)

lemma require_eq_Inr [err_simps]: "require c e = Inr u \<longleftrightarrow> c"
  by (simp add: require_def)

lemma require_eq_Inl [err_simps]: "require c e = Inl e' \<longleftrightarrow> \<not> c \<and> e = e'"
  by (auto simp: require_def)

lemma ebind_cong [fundef_cong]:
  assumes "r = r'" and "\<And>a. r' = Inr a \<Longrightarrow> f a = g a"
  shows "ebind r f = ebind r' g"
  using assms by (simp add: ebind_def split: sum.splits)

text \<open>A loop that parses every element and stops at the first exception.\<close>

fun emap :: "('a \<Rightarrow> 'e + 'b) \<Rightarrow> 'a list \<Rightarrow> 'e + 'b list" where
  "emap f [] = Inr []"
| "emap f (x # xs) = ebind (f x) (\<lambda>y. ebind (emap f xs) (\<lambda>ys. Inr (y # ys)))"

lemma emap_Inr_iff:
  "emap f xs = Inr ys \<longleftrightarrow> list_all2 (\<lambda>x y. f x = Inr y) xs ys"
  by (induction xs arbitrary: ys) (auto simp: err_simps list_all2_Cons1)

lemma emap_preimage: "emap f xs = Inr ys \<Longrightarrow> y \<in> set ys \<Longrightarrow> \<exists>x \<in> set xs. f x = Inr y"
  by (induction xs arbitrary: ys) (auto simp: err_simps)

lemma emap_image: "emap f xs = Inr ys \<Longrightarrow> x \<in> set xs \<Longrightarrow> \<exists>y \<in> set ys. f x = Inr y"
  by (induction xs arbitrary: ys) (auto simp: err_simps)

lemma emap_cong [fundef_cong]:
  assumes "xs = ys" and "\<And>x. x \<in> set ys \<Longrightarrow> f x = g x"
  shows "emap f xs = emap g ys"
proof -
  have "(\<And>x. x \<in> set ys \<Longrightarrow> f x = g x) \<Longrightarrow> emap f ys = emap g ys"
    by (induction ys) auto
  with assms show ?thesis by simp
qed

lemma emap_total:
  assumes "\<And>x. x \<in> set xs \<Longrightarrow> \<exists>y. f x = Inr y"
  shows "\<exists>ys. emap f xs = Inr ys"
  using assms
proof (induction xs)
  case Nil
  then show ?case by simp
next
  case (Cons x xs)
  then obtain y ys where "f x = Inr y" and "emap f xs = Inr ys" by fastforce
  then show ?case by simp
qed

definition the_right :: "'e + 'a \<Rightarrow> 'a" where
  "the_right r = (case r of Inr a \<Rightarrow> a)"

lemma the_right_Inr [simp, err_simps]: "the_right (Inr a) = a"
  by (simp add: the_right_def)

section \<open>Exceptions and state\<close>

text \<open>
  A step of code that mutates objects and may raise: the state keeps the changes made before the
  exception. \<open>sfor\<close> is a loop over a list with an accumulator; \<open>keeps P m\<close> says that \<open>P\<close>
  survives \<open>m\<close>, whether it returns or raises.
\<close>

type_synonym ('e, 's, 'a) step = "'s \<Rightarrow> ('e + 'a) \<times> 's"

definition sret :: "'a \<Rightarrow> ('e, 's, 'a) step" where
  "sret a = (\<lambda>s. (Inr a, s))"

definition slift :: "'e + 'a \<Rightarrow> ('e, 's, 'a) step" where
  "slift r = (\<lambda>s. (r, s))"

definition sget :: "('s \<Rightarrow> 'a) \<Rightarrow> ('e, 's, 'a) step" where
  "sget f = (\<lambda>s. (Inr (f s), s))"

definition smodify :: "('s \<Rightarrow> 's) \<Rightarrow> ('e, 's, unit) step" where
  "smodify f = (\<lambda>s. (Inr (), f s))"

definition sbind :: "('e, 's, 'a) step \<Rightarrow> ('a \<Rightarrow> ('e, 's, 'b) step) \<Rightarrow> ('e, 's, 'b) step" where
  "sbind m f = (\<lambda>s. case m s of (Inl e, s') \<Rightarrow> (Inl e, s') | (Inr a, s') \<Rightarrow> f a s')"

fun sfor :: "('a \<Rightarrow> 'b \<Rightarrow> ('e, 's, 'b) step) \<Rightarrow> 'a list \<Rightarrow> 'b \<Rightarrow> ('e, 's, 'b) step" where
  "sfor f [] acc = sret acc"
| "sfor f (x # xs) acc = sbind (f x acc) (sfor f xs)"

definition keeps :: "('s \<Rightarrow> bool) \<Rightarrow> ('e, 's, 'a) step \<Rightarrow> bool" where
  "keeps P m \<longleftrightarrow> (\<forall>s. P s \<longrightarrow> P (snd (m s)))"

lemmas step_defs = sret_def slift_def sget_def smodify_def sbind_def

named_theorems keeps_intros \<open>preservation by the state-and-exception combinators\<close>

lemma keepsD: "keeps P m \<Longrightarrow> P s \<Longrightarrow> P (snd (m s))"
  by (simp add: keeps_def)

lemma keeps_pure [keeps_intros]: "keeps P (sret a)" "keeps P (slift r)" "keeps P (sget f)"
  by (simp_all add: keeps_def step_defs)

lemma keeps_smodify [keeps_intros]: "(\<And>s. P s \<Longrightarrow> P (f s)) \<Longrightarrow> keeps P (smodify f)"
  by (simp add: keeps_def step_defs)

lemma keeps_sbind [keeps_intros]:
  "keeps P m \<Longrightarrow> (\<And>a. keeps P (f a)) \<Longrightarrow> keeps P (sbind m f)"
  unfolding keeps_def sbind_def by (fastforce split: prod.splits sum.splits)

lemma keeps_sfor [keeps_intros]:
  "(\<And>x acc. keeps P (f x acc)) \<Longrightarrow> keeps P (sfor f xs acc)"
  by (induction xs arbitrary: acc) (auto intro: keeps_intros)

lemma keeps_if [keeps_intros]: "(c \<Longrightarrow> keeps P a) \<Longrightarrow> (\<not> c \<Longrightarrow> keeps P b) \<Longrightarrow> keeps P (if c then a else b)"
  by simp

section \<open>Dictionaries\<close>

text \<open>
  A Python \<open>dict\<close> keeps insertion order, which the code observes when it iterates; an
  assignment to a present key keeps its position (\<open>AList.update\<close>), to an absent key
  appends.
\<close>

definition ddistinct :: "('k \<times> 'v) list \<Rightarrow> bool" where
  "ddistinct d \<longleftrightarrow> distinct (map fst d)"

lemma ddistinct_empty [simp, dict_simps]: "ddistinct []"
  by (simp add: ddistinct_def)

lemma ddistinct_update [simp, dict_simps]: "ddistinct d \<Longrightarrow> ddistinct (AList.update k v d)"
  by (simp add: ddistinct_def distinct_update)

lemma map_of_update [simp, dict_simps]: "map_of (AList.update k v d) = (map_of d)(k \<mapsto> v)"
  by (rule update_conv')

lemma keys_update [dict_simps]: "fst ` set (AList.update k v d) = insert k (fst ` set d)"
  by (simp add: dom_update)

lemma map_of_delete [simp, dict_simps]: "map_of (AList.delete k d) = (map_of d)(k := None)"
  by (rule delete_conv')

lemma ddistinct_delete [simp, dict_simps]: "ddistinct d \<Longrightarrow> ddistinct (AList.delete k d)"
  by (simp add: ddistinct_def distinct_delete)

lemma set_update_subset: "set (AList.update k v d) \<subseteq> insert (k, v) (set d)"
  by (induction d) auto

section \<open>Lists and options\<close>

lemma map_of_filter_key [dict_simps]:
  "map_of (filter (\<lambda>(k, _). k \<noteq> k0) d) k = (if k = k0 then None else map_of d k)"
  by (induction d) auto

lemma map_of_distinct_SomeI: "ddistinct d \<Longrightarrow> (k, v) \<in> set d \<Longrightarrow> map_of d k = Some v"
  by (simp add: ddistinct_def)

text \<open>The \<open>max(0, int(x * 1000))\<close> of the code: truncation towards zero, then clamping.\<close>

definition clamp_ms :: "time \<Rightarrow> int" where
  "clamp_ms seconds = max 0 \<lfloor>seconds * 1000\<rfloor>"

lemma clamp_ms_nonneg [simp]: "0 \<le> clamp_ms s"
  by (simp add: clamp_ms_def)

section \<open>Strings\<close>

text \<open>\<open>s.split(c)\<close>: the pieces between the separators, at least one.\<close>

fun split_on :: "char \<Rightarrow> string \<Rightarrow> string list" where
  "split_on c [] = [[]]"
| "split_on c (x # xs) =
     (if x = c then [] # split_on c xs
      else case split_on c xs of [] \<Rightarrow> [[x]] | y # ys \<Rightarrow> (x # y) # ys)"

lemma split_on_not_Nil [simp]: "split_on c s \<noteq> []"
  by (induction s) (auto split: list.splits)

lemma split_on_no_sep: "x \<in> set (split_on c s) \<Longrightarrow> c \<notin> set x"
  by (induction s arbitrary: x) (auto split: if_splits list.splits)

lemma split_on_append:
  "c \<notin> set xs \<Longrightarrow> split_on c (xs @ ys) = (xs @ hd (split_on c ys)) # tl (split_on c ys)"
  by (induction xs) (auto split: list.splits)

lemma split_on_no: "c \<notin> set xs \<Longrightarrow> split_on c xs = [xs]"
  using split_on_append [of c xs "[]"] by simp

lemma split_on_at: "c \<notin> set xs \<Longrightarrow> split_on c (xs @ c # ys) = xs # split_on c ys"
  by (simp add: split_on_append)

end
