(* ===== verification/Durations.thy ===== *)
theory Durations
  imports Prelude
begin

text \<open>
  \<open>scripts/durations.py\<close>: the parser of unit-suffixed durations (\<open>5m\<close>, \<open>1.5h\<close>) into whole
  milliseconds, the \<open>decimal.Decimal\<close> arithmetic it uses (a product is rounded to the
  28 significant digits of the default context, half to even), and the validation of the
  warning/restart pair. Strings are sequences of ASCII characters; exponents beyond the
  decimal context's limits (strings of about a million digits) are not modelled.
\<close>

section \<open>Decimal numbers\<close>

text \<open>A non-negative finite \<open>Decimal\<close>: coefficient and exponent, \<open>coef * 10 ^ expo\<close>.\<close>

record decimal =
  coef :: nat
  expo :: int

definition is_digit :: "char \<Rightarrow> bool" where
  "is_digit c \<longleftrightarrow> CHR ''0'' \<le> c \<and> c \<le> CHR ''9''"

definition digit_value :: "char \<Rightarrow> nat" where
  "digit_value c = of_char c - 48"

definition nat_of_digits :: "string \<Rightarrow> nat" where
  "nat_of_digits ds = foldl (\<lambda>n c. 10 * n + digit_value c) 0 ds"

fun digit_count :: "nat \<Rightarrow> nat" where
  "digit_count n = (if n < 10 then 1 else Suc (digit_count (n div 10)))"

declare digit_count.simps [simp del]

definition decimal_prec :: nat where
  "decimal_prec = 28"

definition round_half_even :: "nat \<Rightarrow> nat \<Rightarrow> nat" where
  "round_half_even c m =
     (let q = c div m; r = c mod m
      in if 2 * r > m \<or> (2 * r = m \<and> odd q) then q + 1 else q)"

definition decimal_round :: "decimal \<Rightarrow> decimal" where
  "decimal_round x =
     (let n = digit_count (coef x)
      in if n \<le> decimal_prec then x
         else let d = n - decimal_prec
              in \<lparr>coef = round_half_even (coef x) (10 ^ d), expo = expo x + int d\<rparr>)"

definition decimal_mult :: "decimal \<Rightarrow> decimal \<Rightarrow> decimal" where
  "decimal_mult x y = decimal_round \<lparr>coef = coef x * coef y, expo = expo x + expo y\<rparr>"

definition to_integral :: "decimal \<Rightarrow> nat" where
  "to_integral x =
     (if expo x \<ge> 0 then coef x * 10 ^ nat (expo x)
      else round_half_even (coef x) (10 ^ nat (- expo x)))"

definition decimal_eq_nat :: "decimal \<Rightarrow> nat \<Rightarrow> bool" where
  "decimal_eq_nat x n \<longleftrightarrow>
     (if expo x \<ge> 0 then coef x * 10 ^ nat (expo x) = n
      else coef x = n * 10 ^ nat (- expo x))"

section \<open>Parsing\<close>

datatype duration_reason = FORMAT | POSITIVE | WHOLE_MILLISECONDS

record duration_error =
  raw :: string
  reason :: duration_reason

text \<open>
  The pattern \<open>(0|[1-9]\d*)(\.\d+)?\<close> followed by one of \<open>smh\<close>, matched against the whole
  string: integer digits, fraction digits (empty when there is no fraction) and the unit.
\<close>

definition match_duration :: "string \<Rightarrow> (string \<times> string \<times> char) option" where
  "match_duration s =
     (if s = [] \<or> last s \<notin> set ''smh'' then None
      else let body = butlast s;
               whole = takeWhile (\<lambda>c. c \<noteq> CHR ''.'') body;
               rest = dropWhile (\<lambda>c. c \<noteq> CHR ''.'') body
           in if list_all is_digit whole \<and> whole \<noteq> [] \<and>
                 (whole = ''0'' \<or> hd whole \<noteq> CHR ''0'') \<and>
                 (rest = [] \<or> tl rest \<noteq> [] \<and> list_all is_digit (tl rest))
              then Some (whole, (if rest = [] then [] else tl rest), last s)
              else None)"

definition unit_milliseconds :: "char \<Rightarrow> nat" where
  "unit_milliseconds u =
     (if u = CHR ''s'' then 1000 else if u = CHR ''m'' then 60000 else 3600000)"

definition decimal_of :: "string \<Rightarrow> string \<Rightarrow> decimal" where
  "decimal_of whole fdigits = \<lparr>coef = nat_of_digits (whole @ fdigits), expo = - int (length fdigits)\<rparr>"

definition parse_duration_ms :: "string \<Rightarrow> duration_error + int" where
  "parse_duration_ms s =
     (case match_duration s of
        None \<Rightarrow> Inl \<lparr>raw = s, reason = FORMAT\<rparr>
      | Some (whole, fdigits, u) \<Rightarrow>
          let ms = decimal_mult (decimal_of whole fdigits) \<lparr>coef = unit_milliseconds u, expo = 0\<rparr>
          in if coef ms = 0 then Inl \<lparr>raw = s, reason = POSITIVE\<rparr>
             else if \<not> decimal_eq_nat ms (to_integral ms)
             then Inl \<lparr>raw = s, reason = WHOLE_MILLISECONDS\<rparr>
             else Inr (int (to_integral ms)))"

section \<open>Threshold pairs\<close>

definition MAX_THRESHOLD_MS :: int where
  "MAX_THRESHOLD_MS = 604800000"

datatype threshold_error = ThresholdValueError int int | ThresholdOrderError int int

record ms_thresholds =
  warning_after_ms :: int
  restart_after_ms :: int

definition validate_thresholds :: "int \<Rightarrow> int \<Rightarrow> threshold_error + ms_thresholds" where
  "validate_thresholds warning restart =
     (if warning \<le> 0 \<or> restart \<le> 0 then Inl (ThresholdValueError warning restart)
      else if restart \<le> warning then Inl (ThresholdOrderError warning restart)
      else Inr \<lparr>warning_after_ms = warning, restart_after_ms = restart\<rparr>)"

section \<open>Lemmas\<close>

lemma validate_thresholds_Inr [err_simps]:
  "validate_thresholds w r = Inr t \<longleftrightarrow>
     0 < w \<and> w < r \<and> t = \<lparr>warning_after_ms = w, restart_after_ms = r\<rparr>"
  by (auto simp: validate_thresholds_def)

lemma digit_count_le: "n < 10 ^ k \<Longrightarrow> 0 < k \<Longrightarrow> digit_count n \<le> k"
proof (induction n arbitrary: k rule: digit_count.induct)
  case (1 n)
  show ?case
  proof (cases "n < 10")
    case True
    with "1.prems" show ?thesis by (simp add: digit_count.simps [of n])
  next
    case False
    with "1.prems" obtain k' where k: "k = Suc k'" "0 < k'"
      by (metis One_nat_def gr0_conv_Suc neq0_conv power_one_right)
    with "1.prems" have "n div 10 < 10 ^ k'" by (simp add: less_mult_imp_div_less mult.commute)
    with "1.IH" False k show ?thesis by (simp add: digit_count.simps [of n])
  qed
qed

lemma decimal_mult_exact:
  assumes "coef x * coef y < 10 ^ decimal_prec"
  shows "decimal_mult x y = \<lparr>coef = coef x * coef y, expo = expo x + expo y\<rparr>"
proof -
  have "digit_count (coef x * coef y) \<le> decimal_prec"
    using assms by (intro digit_count_le) (simp_all add: decimal_prec_def)
  then show ?thesis by (simp add: decimal_mult_def decimal_round_def)
qed

lemma round_half_even_exact: "0 < m \<Longrightarrow> round_half_even (n * m) m = n"
  by (simp add: round_half_even_def)

text \<open>A decimal equals its rounding to an integer exactly when it denotes an integer.\<close>

lemma decimal_eq_to_integral:
  "decimal_eq_nat x (to_integral x) \<longleftrightarrow> expo x \<ge> 0 \<or> 10 ^ nat (- expo x) dvd coef x"
proof (cases "expo x \<ge> 0")
  case True
  then show ?thesis by (simp add: decimal_eq_nat_def to_integral_def)
next
  case False
  let ?m = "10 ^ nat (- expo x) :: nat"
  have "coef x = round_half_even (coef x) ?m * ?m" if "?m dvd coef x"
    using that by (auto simp: round_half_even_exact mult.commute elim!: dvdE)
  moreover have "?m dvd coef x" if "coef x = round_half_even (coef x) ?m * ?m"
    using that by (metis dvd_triv_right)
  ultimately show ?thesis
    using False by (auto simp: decimal_eq_nat_def to_integral_def)
qed

lemma nat_of_digits_append:
  "nat_of_digits (xs @ [c]) = 10 * nat_of_digits xs + digit_value c"
  by (simp add: nat_of_digits_def)

text \<open>The canonical decimal rendering of a natural number, and its round trip.\<close>

definition digit_char :: "nat \<Rightarrow> char" where
  "digit_char d = char_of (48 + d)"

fun show_nat :: "nat \<Rightarrow> string" where
  "show_nat n = (if n < 10 then [digit_char n] else show_nat (n div 10) @ [digit_char (n mod 10)])"

declare show_nat.simps [simp del]

lemma of_char_digit_char: "d < 10 \<Longrightarrow> (of_char (digit_char d) :: nat) = 48 + d"
  by (simp add: digit_char_def of_char_of)

lemma digit_value_digit_char [simp]: "d < 10 \<Longrightarrow> digit_value (digit_char d) = d"
  by (simp add: digit_value_def of_char_digit_char)

lemma is_digit_digit_char [simp]: "d < 10 \<Longrightarrow> is_digit (digit_char d)"
  by (simp add: is_digit_def less_eq_char_def of_char_digit_char)

lemma show_nat_digits: "list_all is_digit (show_nat n) \<and> show_nat n \<noteq> []"
  by (induction n rule: show_nat.induct) (subst show_nat.simps, auto simp: show_nat.simps)

lemma nat_of_digits_show_nat [simp]: "nat_of_digits (show_nat n) = n"
proof (induction n rule: show_nat.induct)
  case (1 n)
  then show ?case
    by (cases "n < 10")
      (simp_all add: show_nat.simps [of n] nat_of_digits_append, simp add: nat_of_digits_def)
qed

lemma hd_show_nat: "0 < n \<Longrightarrow> hd (show_nat n) \<noteq> CHR ''0''"
proof (induction n rule: show_nat.induct)
  case (1 n)
  show ?case
  proof (cases "n < 10")
    case True
    with "1.prems" have "(of_char (digit_char n) :: nat) \<noteq> of_char CHR ''0''"
      by (simp add: of_char_digit_char)
    then have "digit_char n \<noteq> CHR ''0''" by metis
    with True show ?thesis by (simp add: show_nat.simps [of n])
  next
    case False
    with 1 have "hd (show_nat (n div 10)) \<noteq> CHR ''0''" by simp
    with False show ?thesis by (simp add: show_nat.simps [of n] show_nat_digits hd_append)
  qed
qed

lemma dot_not_digit: "list_all is_digit ds \<Longrightarrow> CHR ''.'' \<notin> set ds"
  by (auto simp: list_all_iff is_digit_def less_eq_char_def)

lemma match_show_nat:
  assumes "0 < n" and "u \<in> set ''smh''"
  shows "match_duration (show_nat n @ [u]) = Some (show_nat n, [], u)"
proof -
  have dot: "\<forall>c \<in> set (show_nat n). c \<noteq> CHR ''.''"
    using dot_not_digit show_nat_digits by blast
  then have split: "takeWhile (\<lambda>c. c \<noteq> CHR ''.'') (show_nat n) = show_nat n"
    "dropWhile (\<lambda>c. c \<noteq> CHR ''.'') (show_nat n) = []"
    by (simp_all add: takeWhile_eq_all_conv)
  have "list_all is_digit (show_nat n)" "show_nat n \<noteq> []" "hd (show_nat n) \<noteq> CHR ''0''"
    using assms(1) by (simp_all add: show_nat_digits hd_show_nat)
  then show ?thesis
    using assms(2) dot by (auto simp: match_duration_def Let_def butlast_append split)
qed

lemma parse_duration_exact_aux:
  assumes "match_duration s = Some (w, f, u)"
    and "nat_of_digits (w @ f) * unit_milliseconds u < 10 ^ 28"
  shows "parse_duration_ms s =
    (let c = nat_of_digits (w @ f) * unit_milliseconds u
     in if c = 0 then Inl \<lparr>raw = s, reason = POSITIVE\<rparr>
        else if \<not> 10 ^ length f dvd c then Inl \<lparr>raw = s, reason = WHOLE_MILLISECONDS\<rparr>
        else Inr (int (c div 10 ^ length f)))"
proof -
  let ?c = "nat_of_digits (w @ f) * unit_milliseconds u"
  let ?x = "\<lparr>coef = ?c, expo = - int (length f)\<rparr>"
  have prod: "decimal_mult (decimal_of w f) \<lparr>coef = unit_milliseconds u, expo = 0\<rparr> = ?x"
    using assms(2) by (subst decimal_mult_exact) (simp_all add: decimal_of_def decimal_prec_def)
  have whole: "decimal_eq_nat ?x (to_integral ?x) \<longleftrightarrow> 10 ^ length f dvd ?c"
    by (auto simp: decimal_eq_to_integral)
  have val: "to_integral ?x = ?c div 10 ^ length f" if "10 ^ length f dvd ?c"
    using that by (auto simp: to_integral_def elim!: dvdE simp: mult.commute round_half_even_exact)
  show ?thesis
    using assms(1) whole val by (simp add: parse_duration_ms_def prod Let_def)
qed

section \<open>Properties\<close>

text \<open>
  Within the 28 digits of the decimal context the parser is exact: a matched duration with
  digits \<open>w.f\<close> and unit \<open>u\<close> yields exactly the product \<open>w.f * u\<close> in milliseconds, is rejected as
  non-positive exactly when that product is zero, and as fractional exactly when it is not whole.
\<close>

theorem parse_duration_exact:
  assumes "match_duration s = Some (w, f, u)"
    and "nat_of_digits (w @ f) * unit_milliseconds u < 10 ^ 28"
  shows "parse_duration_ms s =
    (let c = nat_of_digits (w @ f) * unit_milliseconds u
     in if c = 0 then Inl \<lparr>raw = s, reason = POSITIVE\<rparr>
        else if \<not> 10 ^ length f dvd c then Inl \<lparr>raw = s, reason = WHOLE_MILLISECONDS\<rparr>
        else Inr (int (c div 10 ^ length f)))"
  using assms by (rule parse_duration_exact_aux)

theorem parse_duration_exact_witness:
  "parse_duration_ms ''1.5m'' = Inr 90000 \<and>
   parse_duration_ms ''0.0s'' = Inl \<lparr>raw = ''0.0s'', reason = POSITIVE\<rparr> \<and>
   parse_duration_ms ''0.0001s'' = Inl \<lparr>raw = ''0.0001s'', reason = WHOLE_MILLISECONDS\<rparr>"
proof -
  have "match_duration ''1.5m'' = Some (''1'', ''5'', CHR ''m'')"
    "match_duration ''0.0s'' = Some (''0'', ''0'', CHR ''s'')"
    "match_duration ''0.0001s'' = Some (''0'', ''0001'', CHR ''s'')"
    by (simp_all add: match_duration_def is_digit_def less_eq_char_def Let_def)
  then show ?thesis
    by (simp add: parse_duration_exact nat_of_digits_def digit_value_def unit_milliseconds_def)
qed

text \<open>
  Round trip: the decimal rendering of a positive count followed by a unit letter parses to
  exactly that many units, for every count whose product stays within the decimal precision.
\<close>

theorem parse_duration_roundtrip:
  assumes "0 < n" and "u \<in> set ''smh''" and "n * unit_milliseconds u < 10 ^ 28"
  shows "parse_duration_ms (show_nat n @ [u]) = Inr (int (n * unit_milliseconds u))"
proof -
  have "0 < unit_milliseconds u" by (simp add: unit_milliseconds_def)
  moreover have "match_duration (show_nat n @ [u]) = Some (show_nat n, [], u)"
    using assms(1,2) by (rule match_show_nat)
  ultimately show ?thesis
    using assms parse_duration_exact_aux [of _ "show_nat n" "[]" u] by simp
qed

theorem parse_duration_roundtrip_witness:
  "parse_duration_ms (show_nat 15 @ ''m'') = Inr 900000"
  using parse_duration_roundtrip [of 15 "CHR ''m''"] by (simp add: unit_milliseconds_def)

text \<open>
  Beyond the precision of the decimal context the parser is not exact: the product is rounded
  before the whole-millisecond test, so a duration that is not a whole number of milliseconds
  (\<open>1000.0000000000000000000000001\<close> of them) is accepted as 1000.
\<close>

theorem parse_duration_inexact:
  "parse_duration_ms ''1.0000000000000000000000000001s'' = Inr 1000 \<and>
   \<not> (10 :: nat) ^ 28 dvd nat_of_digits ''10000000000000000000000000001'' * 1000"
proof -
  let ?s = "''1.0000000000000000000000000001s''"
  have m: "match_duration ?s = Some (''1'', ''0000000000000000000000000001'', CHR ''s'')"
    by (simp add: match_duration_def is_digit_def less_eq_char_def Let_def)
  have v: "nat_of_digits ''10000000000000000000000000001'' = 10000000000000000000000000001"
    by (simp add: nat_of_digits_def digit_value_def)
  have n: "digit_count 10000000000000000000000000001000 = 32"
    by (simp add: digit_count.simps)
  show ?thesis
    by (simp add: parse_duration_ms_def m v n decimal_of_def unit_milliseconds_def
        decimal_mult_def decimal_round_def decimal_prec_def round_half_even_def
        decimal_eq_nat_def to_integral_def Let_def)
qed

end
