(* ===== verification/OncePerInterval.thy ===== *)
theory OncePerInterval
  imports Prelude
begin

text \<open>
  The contract both silence detectors share with the watcher: a deterministic machine that
  emits actions, whose states carry an interval number (\<open>epoch\<close>) and sticky "already
  emitted" flags. A machine that keeps the three laws of \<open>once_per_interval\<close> emits the
  action at most once per interval, over any run; \<open>escalation\<close> adds a second action that is
  only emitted after the first. The detectors interpret both locales.
\<close>

section \<open>Runs of an emitting machine\<close>

fun run_steps :: "('s \<Rightarrow> 'i \<Rightarrow> 's \<times> 'a) \<Rightarrow> 's \<Rightarrow> 'i list \<Rightarrow> 's \<times> 'a list" where
  "run_steps step s [] = (s, [])"
| "run_steps step s (i # is) =
     (let (s1, a) = step s i; (s2, as) = run_steps step s1 is in (s2, a # as))"

lemma run_steps_Cons [simp]:
  "fst (run_steps step s (i # is)) = fst (run_steps step (fst (step s i)) is)"
  "snd (run_steps step s (i # is)) =
     snd (step s i) # snd (run_steps step (fst (step s i)) is)"
  by (simp_all add: split_beta Let_def)

declare run_steps.simps(2) [simp del]

lemma run_steps_inv:
  assumes "P s" and "\<And>s i. P s \<Longrightarrow> P (fst (step s i))"
  shows "P (fst (run_steps step s is))"
  using assms(1)
proof (induction "is" arbitrary: s)
  case Nil
  then show ?case by simp
next
  case (Cons i "is")
  from assms(2) [OF Cons.prems] show ?case by (simp add: Cons.IH)
qed

lemma run_steps_append:
  "run_steps step s (xs @ ys) =
     (fst (run_steps step (fst (run_steps step s xs)) ys),
      snd (run_steps step s xs) @ snd (run_steps step (fst (run_steps step s xs)) ys))"
  by (induction xs arbitrary: s) (auto simp: prod_eq_iff)

lemma count_list_Cons: "count_list (x # xs) y = of_bool (x = y) + count_list xs y"
  by simp

section \<open>At most one emission per interval\<close>

locale once_per_interval =
  fixes step :: "'s \<Rightarrow> 'i \<Rightarrow> 's \<times> 'a"
    and epoch :: "'s \<Rightarrow> nat"
    and emitted :: "'s \<Rightarrow> bool"
    and act :: "'a"
    and ok :: "'s \<Rightarrow> bool"
  assumes ok_step: "ok s \<Longrightarrow> ok (fst (step s i))"
    and epoch_mono: "epoch s \<le> epoch (fst (step s i))"
    and emit_fresh: "ok s \<Longrightarrow> snd (step s i) = act \<Longrightarrow>
      \<not> emitted s \<and> emitted (fst (step s i)) \<and> epoch (fst (step s i)) = epoch s"
    and emit_sticky: "emitted s \<Longrightarrow> epoch (fst (step s i)) = epoch s \<Longrightarrow>
      emitted (fst (step s i))"
begin

lemma run_epoch_mono: "epoch s \<le> epoch (fst (run_steps step s is))"
proof (induction "is" arbitrary: s)
  case Nil
  then show ?case by simp
next
  case (Cons i "is")
  from epoch_mono [of s i] Cons.IH [of "fst (step s i)"] show ?case by simp
qed

lemma step_credit:
  "ok s \<Longrightarrow> of_bool (snd (step s i) = act) + epoch s + of_bool (emitted s) \<le>
     epoch (fst (step s i)) + of_bool (emitted (fst (step s i)))"
  using epoch_mono [of s i] emit_fresh [of s i] emit_sticky [of s i]
  by (cases "snd (step s i) = act"; cases "epoch (fst (step s i)) = epoch s";
      cases "emitted s") auto

lemma emissions_bounded:
  assumes "ok s"
  shows "count_list (snd (run_steps step s is)) act + epoch s + of_bool (emitted s)
    \<le> epoch (fst (run_steps step s is)) + of_bool (emitted (fst (run_steps step s is)))"
  using assms
proof (induction "is" arbitrary: s)
  case Nil
  then show ?case by simp
next
  case (Cons i "is")
  from step_credit [OF Cons.prems, of i] Cons.IH [OF ok_step [OF Cons.prems], of i]
  show ?case unfolding run_steps_Cons count_list_Cons by linarith
qed

lemma silent_while_emitted:
  assumes "ok s" and "emitted s"
    and "epoch (fst (run_steps step s is)) = epoch s"
  shows "act \<notin> set (snd (run_steps step s is))"
proof -
  have "count_list (snd (run_steps step s is)) act = 0"
    using emissions_bounded [OF assms(1), of "is"] assms(2,3)
    by (simp add: of_bool_def split: if_splits)
  then show ?thesis by (simp add: count_list_0_iff)
qed

end

section \<open>A second action that follows the first\<close>

locale escalation = once_per_interval step epoch emitted act ok
  for step :: "'s \<Rightarrow> 'i \<Rightarrow> 's \<times> 'a" and epoch emitted act ok +
  fixes emitted2 :: "'s \<Rightarrow> bool" and act2 :: "'a"
  assumes distinct_acts: "act \<noteq> act2"
    and second_fresh: "ok s \<Longrightarrow> snd (step s i) = act2 \<Longrightarrow>
      emitted s \<and> \<not> emitted2 s \<and> emitted2 (fst (step s i)) \<and> epoch (fst (step s i)) = epoch s"
    and second_sticky: "emitted2 s \<Longrightarrow> epoch (fst (step s i)) = epoch s \<Longrightarrow>
      emitted2 (fst (step s i))"
    and first_needed: "ok s \<Longrightarrow> emitted2 s \<Longrightarrow> emitted s"
    and first_silent: "ok s \<Longrightarrow> emitted (fst (step s i)) \<Longrightarrow>
      snd (step s i) = act \<or> emitted s"
    and reset_together: "emitted2 s \<Longrightarrow> emitted (fst (step s i)) \<Longrightarrow>
      emitted2 (fst (step s i))"
begin

sublocale second: once_per_interval step epoch emitted2 act2 ok
  by unfold_locales (use ok_step epoch_mono second_fresh second_sticky in blast)+

lemma step_escalates:
  "ok s \<Longrightarrow>
     of_bool (snd (step s i) = act2) + of_bool (emitted (fst (step s i))) + of_bool (emitted2 s)
     \<le> (of_bool (snd (step s i) = act) + of_bool (emitted s)
        + of_bool (emitted2 (fst (step s i))) :: nat)"
  using second_fresh [of s i] first_needed [of s] first_silent [of s i] distinct_acts
    reset_together [of s i] emit_fresh [of s i] epoch_mono [of s i]
    first_needed [OF ok_step [of s i]]
  by (cases "emitted2 s"; cases "emitted s"; cases "snd (step s i) = act2";
      cases "snd (step s i) = act"; cases "emitted (fst (step s i))";
      cases "emitted2 (fst (step s i))") auto

lemma second_needs_first:
  assumes "ok s"
  shows "count_list (snd (run_steps step s is)) act2 + of_bool (emitted2 s)
    \<le> count_list (snd (run_steps step s is)) act + of_bool (emitted s)"
proof -
  have "count_list (snd (run_steps step s is)) act2
      + of_bool (emitted (fst (run_steps step s is))) + of_bool (emitted2 s)
    \<le> count_list (snd (run_steps step s is)) act + of_bool (emitted s)
      + of_bool (emitted2 (fst (run_steps step s is)))"
    using assms
  proof (induction "is" arbitrary: s)
    case Nil
    then show ?case by simp
  next
    case (Cons i "is")
    from step_escalates [OF Cons.prems, of i] Cons.IH [OF ok_step [OF Cons.prems], of i]
    show ?case unfolding run_steps_Cons count_list_Cons by linarith
  qed
  moreover have "ok (fst (run_steps step s is))"
    using assms by (rule run_steps_inv) (rule ok_step)
  ultimately show ?thesis
    using first_needed [of "fst (run_steps step s is)"]
    by (cases "emitted2 (fst (run_steps step s is))"; simp)
qed

end

end
