(* ===== verification/StallDetector.thy ===== *)
theory StallDetector
  imports OncePerInterval
begin

text \<open>
  \<open>scripts/stall_detector.py\<close>: the deterministic warning / critical-stall detector. Clock
  readings are finite, so they are reals (floating-point rounding is not modelled); only the
  threshold constructor sees non-finite floats. The identity \<open>f"{sequence}:{float(at).hex()}"\<close>
  of a silence interval is kept as the pair of the two values it renders.
\<close>

section \<open>Data\<close>

datatype progress_kind = ITEM | DELTA | TOOL_RESULT

datatype monitor_phase = HEALTHY | PAUSED | SILENT_WARNED | CRITICAL_PHASE | TERMINAL

datatype stall_action = NONE | WARNING | CRITICAL | STOP

datatype value_error = ValueError

text \<open>Floats as the constructor meets them: \<open>isfinite\<close> is \<open>Fin\<close>.\<close>

datatype pyfloat = Fin real | PosInf | NegInf | NaN

record thresholds =
  warning :: time
  critical :: time

definition mk_thresholds :: "pyfloat \<Rightarrow> pyfloat \<Rightarrow> value_error + thresholds" where
  "mk_thresholds w c =
     (case (w, c) of
        (Fin w', Fin c') \<Rightarrow>
          if w' \<le> 0 \<or> c' \<le> w' then Inl ValueError
          else Inr \<lparr>warning = w', critical = c'\<rparr>
      | _ \<Rightarrow> Inl ValueError)"

record wait_state =
  open_tool_count :: int
  waiting_for_approval :: bool
  waiting_for_user :: bool
  child_terminal :: bool
  parent_complete :: bool

definition mk_wait_state :: "int \<Rightarrow> bool \<Rightarrow> bool \<Rightarrow> bool \<Rightarrow> bool \<Rightarrow> value_error + wait_state" where
  "mk_wait_state n approval user child parent =
     (if n < 0 then Inl ValueError
      else Inr \<lparr>open_tool_count = n, waiting_for_approval = approval, waiting_for_user = user,
                child_terminal = child, parent_complete = parent\<rparr>)"

definition no_waits :: wait_state where
  "no_waits = \<lparr>open_tool_count = 0, waiting_for_approval = False, waiting_for_user = False,
               child_terminal = False, parent_complete = False\<rparr>"

definition wait_terminal :: "wait_state \<Rightarrow> bool" where
  "wait_terminal w \<longleftrightarrow> child_terminal w \<or> parent_complete w"

definition wait_paused :: "wait_state \<Rightarrow> bool" where
  "wait_paused w \<longleftrightarrow>
     \<not> wait_terminal w \<and> (open_tool_count w > 0 \<or> waiting_for_approval w \<or> waiting_for_user w)"

record silence_state =
  phase :: monitor_phase
  silence_id :: "nat \<times> time"
  silence_sequence :: nat
  silence_started_at :: time
  waits :: wait_state
  item_at :: "time option"
  delta_at :: "time option"
  tool_result_at :: "time option"
  warning_emitted :: bool
  critical_emitted :: bool

section \<open>Operations\<close>

definition initial_state :: "time \<Rightarrow> silence_state" where
  "initial_state t =
     \<lparr>phase = HEALTHY, silence_id = (0, t), silence_sequence = 0, silence_started_at = t,
      waits = no_waits, item_at = None, delta_at = None, tool_result_at = None,
      warning_emitted = False, critical_emitted = False\<rparr>"

fun later_of :: "time \<Rightarrow> time option \<Rightarrow> time" where
  "later_of t None = t"
| "later_of t (Some u) = max t u"

definition latest_progress_at :: "silence_state \<Rightarrow> time" where
  "latest_progress_at s =
     later_of (later_of (later_of (silence_started_at s) (item_at s)) (delta_at s))
       (tool_result_at s)"

definition next_interval :: "silence_state \<Rightarrow> time \<Rightarrow> silence_state" where
  "next_interval s t =
     (let sequence = silence_sequence s + 1
      in s\<lparr>phase := (if wait_paused (waits s) then PAUSED else HEALTHY),
           silence_id := (sequence, t),
           silence_sequence := sequence,
           warning_emitted := False,
           critical_emitted := False\<rparr>)"

definition record_progress :: "silence_state \<Rightarrow> progress_kind \<Rightarrow> time \<Rightarrow> silence_state" where
  "record_progress s kind t =
     (if wait_terminal (waits s) \<or> t < latest_progress_at s then s
      else next_interval
        (case kind of
           ITEM \<Rightarrow> s\<lparr>silence_started_at := t, item_at := Some t\<rparr>
         | DELTA \<Rightarrow> s\<lparr>silence_started_at := t, delta_at := Some t\<rparr>
         | TOOL_RESULT \<Rightarrow> s\<lparr>silence_started_at := t, tool_result_at := Some t\<rparr>) t)"

definition set_wait_state ::
  "silence_state \<Rightarrow> wait_state \<Rightarrow> time \<Rightarrow> bool \<Rightarrow> silence_state" where
  "set_wait_state s w t resume_confirmed =
     (if wait_terminal w then s\<lparr>phase := TERMINAL, waits := w\<rparr>
      else if wait_paused w then s\<lparr>phase := PAUSED, waits := w\<rparr>
      else if wait_paused (waits s) \<and> \<not> resume_confirmed then s\<lparr>phase := PAUSED\<rparr>
      else s\<lparr>phase := (if wait_paused (waits s) then HEALTHY else phase s), waits := w\<rparr>)"

definition evaluate ::
  "silence_state \<Rightarrow> time \<Rightarrow> thresholds \<Rightarrow> silence_state \<times> stall_action" where
  "evaluate s now th =
     (let elapsed = now - latest_progress_at s
      in if wait_terminal (waits s) then (s\<lparr>phase := TERMINAL\<rparr>, STOP)
         else if wait_paused (waits s) then (s\<lparr>phase := PAUSED\<rparr>, NONE)
         else if elapsed < warning th then (s\<lparr>phase := HEALTHY\<rparr>, NONE)
         else if \<not> warning_emitted s
         then (s\<lparr>phase := SILENT_WARNED, warning_emitted := True\<rparr>, WARNING)
         else if elapsed < critical th then (s\<lparr>phase := SILENT_WARNED\<rparr>, NONE)
         else if \<not> critical_emitted s
         then (s\<lparr>phase := CRITICAL_PHASE, critical_emitted := True\<rparr>, CRITICAL)
         else (s, NONE))"

section \<open>Runs of the detector\<close>

text \<open>One call of the module's three state-changing operations, on a fixed threshold pair.\<close>

datatype detector_input =
    Progress progress_kind time
  | Waits wait_state time bool
  | Tick time

fun detector_step ::
  "thresholds \<Rightarrow> silence_state \<Rightarrow> detector_input \<Rightarrow> silence_state \<times> stall_action" where
  "detector_step th s (Progress k t) = (record_progress s k t, NONE)"
| "detector_step th s (Waits w t resume) = (set_wait_state s w t resume, NONE)"
| "detector_step th s (Tick now) = evaluate s now th"

section \<open>Lemmas\<close>

lemma mk_thresholds_Inr [err_simps]:
  "mk_thresholds w c = Inr th \<longleftrightarrow>
     (\<exists>w' c'. w = Fin w' \<and> c = Fin c' \<and> 0 < w' \<and> w' < c' \<and> th = \<lparr>warning = w', critical = c'\<rparr>)"
  by (auto simp: mk_thresholds_def split: pyfloat.splits)

definition anchored :: "silence_state \<Rightarrow> bool" where
  "anchored s \<longleftrightarrow> latest_progress_at s = silence_started_at s \<and>
     (critical_emitted s \<longrightarrow> warning_emitted s)"

lemma later_of_ge [simp]: "t \<le> later_of t x"
  by (cases x) auto

lemma later_of_le: "later_of t x \<le> u \<longleftrightarrow> t \<le> u \<and> (\<forall>v. x = Some v \<longrightarrow> v \<le> u)"
  by (cases x) auto

lemma latest_progress_at_le:
  "latest_progress_at s \<le> t \<longleftrightarrow>
     silence_started_at s \<le> t \<and> (\<forall>u. item_at s = Some u \<longrightarrow> u \<le> t) \<and>
     (\<forall>u. delta_at s = Some u \<longrightarrow> u \<le> t) \<and> (\<forall>u. tool_result_at s = Some u \<longrightarrow> u \<le> t)"
  by (simp add: latest_progress_at_def later_of_le)

lemma latest_progress_at_ge: "silence_started_at s \<le> latest_progress_at s"
  using latest_progress_at_le [of s "latest_progress_at s"] by simp

lemma latest_progress_at_cong:
  "silence_started_at s = silence_started_at s' \<Longrightarrow> item_at s = item_at s' \<Longrightarrow>
   delta_at s = delta_at s' \<Longrightarrow> tool_result_at s = tool_result_at s' \<Longrightarrow>
   latest_progress_at s = latest_progress_at s'"
  by (simp add: latest_progress_at_def)

lemma latest_progress_at_phase [simp]: "latest_progress_at (s\<lparr>phase := p\<rparr>) = latest_progress_at s"
  by (rule latest_progress_at_cong) simp_all

lemma latest_progress_record:
  assumes "\<not> wait_terminal (waits s)" and "latest_progress_at s \<le> t"
  shows "latest_progress_at (record_progress s k t) = t"
proof (rule antisym)
  show "latest_progress_at (record_progress s k t) \<le> t"
    using assms
    by (cases k)
      (auto simp: record_progress_def next_interval_def latest_progress_at_le Let_def)
  have "silence_started_at (record_progress s k t) = t"
    using assms by (cases k) (auto simp: record_progress_def next_interval_def Let_def)
  then show "t \<le> latest_progress_at (record_progress s k t)"
    using latest_progress_at_ge [of "record_progress s k t"] by simp
qed

lemma set_wait_state_clock [simp]:
  "latest_progress_at (set_wait_state s w t r) = latest_progress_at s"
  "silence_started_at (set_wait_state s w t r) = silence_started_at s"
  "silence_sequence (set_wait_state s w t r) = silence_sequence s"
  "warning_emitted (set_wait_state s w t r) = warning_emitted s"
  "critical_emitted (set_wait_state s w t r) = critical_emitted s"
  by (auto simp: set_wait_state_def intro: latest_progress_at_cong)

lemma evaluate_clock [simp]:
  "latest_progress_at (fst (evaluate s now th)) = latest_progress_at s"
  "silence_started_at (fst (evaluate s now th)) = silence_started_at s"
  "silence_sequence (fst (evaluate s now th)) = silence_sequence s"
  "waits (fst (evaluate s now th)) = waits s"
  by (auto simp: evaluate_def Let_def intro: latest_progress_at_cong)

lemma record_progress_sequence:
  "silence_sequence (record_progress s k t) =
     (if wait_terminal (waits s) \<or> t < latest_progress_at s then silence_sequence s
      else Suc (silence_sequence s))"
  by (auto simp: record_progress_def next_interval_def Let_def split: progress_kind.splits)

lemma record_progress_noop:
  "wait_terminal (waits s) \<or> t < latest_progress_at s \<Longrightarrow> record_progress s k t = s"
  by (simp add: record_progress_def)

lemma record_progress_flags:
  "record_progress s k t = s \<or>
   \<not> warning_emitted (record_progress s k t) \<and> \<not> critical_emitted (record_progress s k t) \<and>
   silence_sequence (record_progress s k t) = Suc (silence_sequence s)"
  by (auto simp: record_progress_def next_interval_def Let_def split: progress_kind.splits)

lemma record_progress_waits [simp]: "waits (record_progress s k t) = waits s"
  by (auto simp: record_progress_def next_interval_def Let_def split: progress_kind.splits)

lemma evaluate_WARNING:
  "snd (evaluate s now th) = WARNING \<longleftrightarrow>
     \<not> wait_terminal (waits s) \<and> \<not> wait_paused (waits s) \<and> \<not> warning_emitted s \<and>
     warning th \<le> now - latest_progress_at s"
  by (auto simp: evaluate_def Let_def)

lemma evaluate_CRITICAL:
  "snd (evaluate s now th) = CRITICAL \<longleftrightarrow>
     \<not> wait_terminal (waits s) \<and> \<not> wait_paused (waits s) \<and> warning_emitted s \<and>
     \<not> critical_emitted s \<and> warning th \<le> now - latest_progress_at s \<and>
     critical th \<le> now - latest_progress_at s"
  by (auto simp: evaluate_def Let_def)

lemma evaluate_STOP: "snd (evaluate s now th) = STOP \<longleftrightarrow> wait_terminal (waits s)"
  by (auto simp: evaluate_def Let_def)

lemma evaluate_flags:
  "warning_emitted (fst (evaluate s now th)) \<longleftrightarrow>
     warning_emitted s \<or> snd (evaluate s now th) = WARNING"
  "critical_emitted (fst (evaluate s now th)) \<longleftrightarrow>
     critical_emitted s \<or> snd (evaluate s now th) = CRITICAL"
  by (auto simp: evaluate_def Let_def)

lemma anchored_initial [inv_intros]: "anchored (initial_state t)"
  by (simp add: anchored_def initial_state_def latest_progress_at_def)

lemma anchored_step [inv_intros]: "anchored s \<Longrightarrow> anchored (fst (detector_step th s i))"
proof (cases i)
  case (Progress k t)
  assume a: "anchored s"
  show ?thesis
  proof (cases "record_progress s k t = s")
    case True
    with a Progress show ?thesis by simp
  next
    case False
    then have "\<not> wait_terminal (waits s)" and "latest_progress_at s \<le> t"
      using record_progress_noop [of s t k] by force+
    moreover from this have "silence_started_at (record_progress s k t) = t"
      by (cases k) (auto simp: record_progress_def next_interval_def Let_def)
    ultimately show ?thesis
      using False record_progress_flags [of s k t] Progress
      by (auto simp: anchored_def latest_progress_record)
  qed
next
  case (Waits w t r)
  then show "anchored s \<Longrightarrow> ?thesis" by (simp add: anchored_def)
next
  case (Tick now)
  then show "anchored s \<Longrightarrow> ?thesis"
    by (auto simp: anchored_def evaluate_flags evaluate_CRITICAL)
qed

lemmas evaluate_actions = evaluate_WARNING evaluate_CRITICAL evaluate_STOP evaluate_flags

interpretation stall: escalation "detector_step th" silence_sequence warning_emitted WARNING
  anchored critical_emitted CRITICAL for th
proof (unfold_locales, goal_cases)
  case (1 s i)
  then show ?case by (rule anchored_step)
next
  case (2 s i)
  then show ?case by (cases i) (auto simp: record_progress_sequence)
next
  case (3 s i)
  then show ?case by (cases i) (auto simp: evaluate_actions)
next
  case (4 s i)
  then show ?case
    by (cases i) (use record_progress_flags [of s] in \<open>auto simp: evaluate_flags\<close>, metis n_not_Suc_n)
next
  case 5
  show ?case by simp
next
  case (6 s i)
  then show ?case by (cases i) (auto simp: evaluate_actions)
next
  case (7 s i)
  then show ?case
    by (cases i) (use record_progress_flags [of s] in \<open>auto simp: evaluate_flags\<close>, metis n_not_Suc_n)
next
  case (8 s)
  then show ?case by (simp add: anchored_def)
next
  case (9 s i)
  then show ?case
    by (cases i) (use record_progress_flags [of s] in \<open>auto simp: evaluate_flags\<close>, metis)
next
  case (10 s i)
  then show ?case
    by (cases i) (use record_progress_flags [of s] in \<open>auto simp: evaluate_flags\<close>, metis)
qed

lemma run_ticks_quiet:
  assumes "\<And>s' now. P s' \<Longrightarrow> P (fst (evaluate s' now th)) \<and> snd (evaluate s' now th) = NONE"
    and "P s"
  shows "P (fst (run_steps (detector_step th) s (map Tick ts))) \<and>
    snd (run_steps (detector_step th) s (map Tick ts)) = replicate (length ts) NONE"
  using assms(2) by (induction ts arbitrary: s) (auto dest: assms(1))

lemma evaluate_spent:
  "\<not> wait_terminal (waits s) \<Longrightarrow> warning_emitted s \<Longrightarrow> critical_emitted s \<Longrightarrow>
   snd (evaluate s now th) = NONE"
  by (simp add: evaluate_def Let_def)

lemma evaluate_paused:
  "wait_paused (waits s) \<Longrightarrow> evaluate s now th = (s\<lparr>phase := PAUSED\<rparr>, NONE)"
  by (simp add: evaluate_def wait_paused_def)

section \<open>Properties\<close>

text \<open>
  C15: over any sequence of progress reports, wait changes and evaluations of a fresh detector,
  with any clock readings, at most one warning is emitted per silence interval (the sequence
  number counts the intervals opened by progress), and criticals never outnumber warnings.
\<close>

theorem detector_alerts_bounded:
  "let r = run_steps (detector_step th) (initial_state t0) inputs
   in count_list (snd r) WARNING \<le> silence_sequence (fst r) + 1 \<and>
      count_list (snd r) CRITICAL \<le> count_list (snd r) WARNING"
  using stall.emissions_bounded [OF anchored_initial, of th t0 inputs]
    stall.second_needs_first [OF anchored_initial, of th t0 inputs]
  by (simp add: Let_def initial_state_def of_bool_def split: if_splits)

text \<open>
  Escalation: on a target that is neither waiting nor terminal and whose interval has emitted
  nothing, an evaluation past the warning threshold warns, the next one past the critical
  threshold reports the critical stall, and every further evaluation is silent until progress.
\<close>

theorem detector_escalates_once:
  assumes "mk_thresholds w c = Inr th"
    and "\<not> wait_terminal (waits s)" and "\<not> wait_paused (waits s)"
    and "\<not> warning_emitted s" and "\<not> critical_emitted s"
    and "warning th \<le> t1 - latest_progress_at s"
    and "critical th \<le> t2 - latest_progress_at s"
  shows "snd (run_steps (detector_step th) s (Tick t1 # Tick t2 # map Tick ts)) =
    WARNING # CRITICAL # replicate (length ts) NONE"
proof -
  let ?s1 = "fst (evaluate s t1 th)" and ?s2 = "fst (evaluate (fst (evaluate s t1 th)) t2 th)"
  have th: "warning th < critical th" using assms(1) by (auto simp: err_simps)
  have 1: "snd (evaluate s t1 th) = WARNING" using assms by (simp add: evaluate_actions)
  then have 2: "snd (evaluate ?s1 t2 th) = CRITICAL"
    using assms th by (simp add: evaluate_actions)
  let ?P = "\<lambda>s'. \<not> wait_terminal (waits s') \<and> warning_emitted s' \<and> critical_emitted s'"
  have "?P ?s2" using assms 1 2 by (simp add: evaluate_flags)
  then have "snd (run_steps (detector_step th) ?s2 (map Tick ts)) = replicate (length ts) NONE"
    using run_ticks_quiet [of ?P th ?s2 ts] by (simp add: evaluate_flags evaluate_spent)
  with 1 2 show ?thesis by simp
qed

theorem detector_escalates_once_witness:
  "snd (run_steps (detector_step \<lparr>warning = 300, critical = 600\<rparr>) (initial_state 10)
     (Tick 310 # Tick 700 # map Tick [701, 5])) = [WARNING, CRITICAL, NONE, NONE]"
proof -
  have "mk_thresholds (Fin 300) (Fin 600) = Inr \<lparr>warning = 300, critical = 600\<rparr>"
    by (simp add: mk_thresholds_def)
  from detector_escalates_once [OF this, of "initial_state 10" 310 700 "[701, 5]"]
  show ?thesis
    by (simp add: initial_state_def no_waits_def wait_terminal_def wait_paused_def
        latest_progress_at_def numeral_2_eq_2)
qed

text \<open>
  A confirmed wait silences the detector for as long as it lasts, but does not move the silence
  clock: after the resume, an evaluation warns exactly when the warning threshold has passed since
  the last progress before the wait.
\<close>

theorem wait_does_not_reanchor:
  assumes "wait_paused w" and "\<not> wait_paused w'" and "\<not> wait_terminal w'"
    and "\<not> warning_emitted s"
  shows "snd (run_steps (detector_step th) s
      (Waits w t r # map Tick ts @ [Waits w' t' True, Tick now])) =
    NONE # replicate (length ts) NONE @
      [NONE, if warning th \<le> now - latest_progress_at s then WARNING else NONE]"
proof -
  let ?s1 = "set_wait_state s w t r"
  let ?P = "\<lambda>s'. wait_paused (waits s') \<and> \<not> warning_emitted s' \<and>
    latest_progress_at s' = latest_progress_at s"
  have "waits ?s1 = w" using assms(1) by (simp add: set_wait_state_def)
  with assms have "?P ?s1" by simp
  moreover have "?P (fst (evaluate s' u th)) \<and> snd (evaluate s' u th) = NONE" if "?P s'" for s' u
    using that by (auto simp: evaluate_paused evaluate_flags)
  ultimately obtain s2 where run: "run_steps (detector_step th) ?s1 (map Tick ts) =
      (s2, replicate (length ts) NONE)" and P: "?P s2"
    using run_ticks_quiet [of ?P th ?s1 ts] by (metis prod.collapse)
  let ?s3 = "set_wait_state s2 w' t' True"
  have w3: "waits ?s3 = w'" using assms(2,3) by (simp add: set_wait_state_def)
  have "snd (evaluate ?s3 now th) =
      (if warning th \<le> now - latest_progress_at s then WARNING else NONE)"
    using P w3 assms(2,3) by (auto simp: evaluate_def Let_def)
  with run show ?thesis by (simp add: run_steps_append)
qed

theorem wait_does_not_reanchor_witness:
  "snd (run_steps (detector_step \<lparr>warning = 300, critical = 600\<rparr>) (initial_state 0)
     (Waits (no_waits\<lparr>waiting_for_user := True\<rparr>) 1 False # map Tick [400] @
      [Waits no_waits 500 True, Tick 500])) = [NONE, NONE, NONE, WARNING]"
  using wait_does_not_reanchor
    [of "no_waits\<lparr>waiting_for_user := True\<rparr>" no_waits "initial_state 0"
      "\<lparr>warning = 300, critical = 600\<rparr>" 1 False "[400]" 500 500]
  by (simp add: initial_state_def no_waits_def wait_terminal_def wait_paused_def
      latest_progress_at_def)

end
