(* ===== verification/Silence.thy ===== *)
theory Silence
  imports StallDetector
begin

text \<open>
  \<open>scripts/silence.py\<close>: the restart-capable detector behind the managed mode. It shares the
  progress kinds and the wait state with \<open>StallDetector\<close> (the two modules declare them
  identically) and differs in its second stage, which asks a restart gate whether to restart
  or only to report, and in that a confirmed resume opens a fresh silence interval.
\<close>

section \<open>Data\<close>

datatype restart_phase =
  R_HEALTHY | R_PAUSED | R_SILENT_WARNED | R_RESTART_ELIGIBLE | R_RESTARTED | R_TERMINAL

datatype restart_action = R_NONE | R_WARNING | R_RESTART_LIMITED | R_AUTO_RESTART | R_STOP

record restart_thresholds =
  r_warning :: time
  r_restart :: time

definition mk_restart_thresholds :: "pyfloat \<Rightarrow> pyfloat \<Rightarrow> value_error + restart_thresholds" where
  "mk_restart_thresholds w c =
     (case (w, c) of
        (Fin w', Fin c') \<Rightarrow>
          if w' \<le> 0 \<or> c' \<le> w' then Inl ValueError
          else Inr \<lparr>r_warning = w', r_restart = c'\<rparr>
      | _ \<Rightarrow> Inl ValueError)"

record restart_gate =
  requested_by_user :: bool
  capability_ready :: bool
  latest_event_check_passed :: bool
  target_generation_verified :: bool
  clock_reliable :: bool
  restart_eligible_siblings :: int

definition gate_effective :: "restart_gate \<Rightarrow> bool" where
  "gate_effective g \<longleftrightarrow>
     requested_by_user g \<and> capability_ready g \<and> latest_event_check_passed g \<and>
     target_generation_verified g \<and> clock_reliable g \<and> restart_eligible_siblings g = 1"

record restart_state =
  r_phase :: restart_phase
  r_silence_id :: "nat \<times> time"
  r_sequence :: nat
  r_started_at :: time
  r_waits :: wait_state
  r_item_at :: "time option"
  r_delta_at :: "time option"
  r_tool_result_at :: "time option"
  r_warning_emitted :: bool
  restart_eligibility_emitted :: bool

section \<open>Operations\<close>

definition r_initial_state :: "time \<Rightarrow> restart_state" where
  "r_initial_state t =
     \<lparr>r_phase = R_HEALTHY, r_silence_id = (0, t), r_sequence = 0, r_started_at = t,
      r_waits = no_waits, r_item_at = None, r_delta_at = None, r_tool_result_at = None,
      r_warning_emitted = False, restart_eligibility_emitted = False\<rparr>"

definition r_latest_progress_at :: "restart_state \<Rightarrow> time" where
  "r_latest_progress_at s =
     later_of (later_of (later_of (r_started_at s) (r_item_at s)) (r_delta_at s))
       (r_tool_result_at s)"

definition r_next_interval :: "restart_state \<Rightarrow> time \<Rightarrow> restart_state" where
  "r_next_interval s t =
     (let sequence = r_sequence s + 1
      in s\<lparr>r_phase := (if wait_paused (r_waits s) then R_PAUSED else R_HEALTHY),
           r_silence_id := (sequence, t),
           r_sequence := sequence,
           r_warning_emitted := False,
           restart_eligibility_emitted := False\<rparr>)"

definition r_record_progress :: "restart_state \<Rightarrow> progress_kind \<Rightarrow> time \<Rightarrow> restart_state" where
  "r_record_progress s kind t =
     (if wait_terminal (r_waits s) \<or> t < r_latest_progress_at s then s
      else r_next_interval
        (case kind of
           ITEM \<Rightarrow> s\<lparr>r_started_at := t, r_item_at := Some t\<rparr>
         | DELTA \<Rightarrow> s\<lparr>r_started_at := t, r_delta_at := Some t\<rparr>
         | TOOL_RESULT \<Rightarrow> s\<lparr>r_started_at := t, r_tool_result_at := Some t\<rparr>) t)"

definition rearm_cancelled_restart :: "restart_state \<Rightarrow> time \<Rightarrow> restart_state" where
  "rearm_cancelled_restart s t =
     (if r_phase s \<noteq> R_RESTARTED \<or> wait_terminal (r_waits s) then s
      else r_next_interval (s\<lparr>r_started_at := t\<rparr>) t)"

definition record_tool_started :: "restart_state \<Rightarrow> time \<Rightarrow> restart_state" where
  "record_tool_started s t =
     r_record_progress
       (s\<lparr>r_waits := (r_waits s)\<lparr>open_tool_count := open_tool_count (r_waits s) + 1\<rparr>\<rparr>) ITEM t"

definition record_tool_result :: "restart_state \<Rightarrow> time \<Rightarrow> restart_state" where
  "record_tool_result s t =
     r_record_progress
       (s\<lparr>r_waits := (r_waits s)\<lparr>open_tool_count := max 0 (open_tool_count (r_waits s) - 1)\<rparr>\<rparr>)
       TOOL_RESULT t"

definition r_set_wait_state ::
  "restart_state \<Rightarrow> wait_state \<Rightarrow> time \<Rightarrow> bool \<Rightarrow> restart_state" where
  "r_set_wait_state s w t resume_confirmed =
     (if wait_terminal w then s\<lparr>r_phase := R_TERMINAL, r_waits := w\<rparr>
      else if wait_paused w then s\<lparr>r_phase := R_PAUSED, r_waits := w\<rparr>
      else if wait_paused (r_waits s) \<and> \<not> resume_confirmed then s\<lparr>r_phase := R_PAUSED\<rparr>
      else if \<not> wait_paused (r_waits s) then s\<lparr>r_waits := w\<rparr>
      else r_next_interval (s\<lparr>r_waits := w, r_started_at := t\<rparr>) t)"

definition r_evaluate ::
  "restart_state \<Rightarrow> time \<Rightarrow> restart_thresholds \<Rightarrow> restart_gate \<Rightarrow> restart_state \<times> restart_action"
where
  "r_evaluate s now th gate =
     (let elapsed = now - r_latest_progress_at s
      in if wait_terminal (r_waits s) then (s\<lparr>r_phase := R_TERMINAL\<rparr>, R_STOP)
         else if wait_paused (r_waits s) then (s\<lparr>r_phase := R_PAUSED\<rparr>, R_NONE)
         else if elapsed < r_warning th then (s\<lparr>r_phase := R_HEALTHY\<rparr>, R_NONE)
         else if \<not> r_warning_emitted s
         then (s\<lparr>r_phase := R_SILENT_WARNED, r_warning_emitted := True\<rparr>, R_WARNING)
         else if elapsed < r_restart th then (s\<lparr>r_phase := R_SILENT_WARNED\<rparr>, R_NONE)
         else if gate_effective gate \<and> r_phase s \<noteq> R_RESTARTED
         then (s\<lparr>r_phase := R_RESTARTED, restart_eligibility_emitted := True\<rparr>, R_AUTO_RESTART)
         else if \<not> restart_eligibility_emitted s
         then (s\<lparr>r_phase := R_RESTART_ELIGIBLE, restart_eligibility_emitted := True\<rparr>,
               R_RESTART_LIMITED)
         else (s, R_NONE))"

section \<open>Runs\<close>

datatype restart_input =
    RProgress progress_kind time
  | RToolStarted time
  | RToolResult time
  | RWaits wait_state time bool
  | RRearm time
  | RTick time restart_gate

fun restart_step ::
  "restart_thresholds \<Rightarrow> restart_state \<Rightarrow> restart_input \<Rightarrow> restart_state \<times> restart_action" where
  "restart_step th s (RProgress k t) = (r_record_progress s k t, R_NONE)"
| "restart_step th s (RToolStarted t) = (record_tool_started s t, R_NONE)"
| "restart_step th s (RToolResult t) = (record_tool_result s t, R_NONE)"
| "restart_step th s (RWaits w t resume) = (r_set_wait_state s w t resume, R_NONE)"
| "restart_step th s (RRearm t) = (rearm_cancelled_restart s t, R_NONE)"
| "restart_step th s (RTick now gate) = r_evaluate s now th gate"

section \<open>Lemmas\<close>

definition flags_ordered :: "restart_state \<Rightarrow> bool" where
  "flags_ordered s \<longleftrightarrow> (restart_eligibility_emitted s \<longrightarrow> r_warning_emitted s)"

text \<open>
  A state change of the detector either leaves the interval number and both flags alone or
  opens the next interval with both flags down.
\<close>

definition same_or_next :: "restart_state \<Rightarrow> restart_state \<Rightarrow> bool" where
  "same_or_next s s' \<longleftrightarrow>
     r_sequence s' = r_sequence s \<and> r_warning_emitted s' = r_warning_emitted s \<and>
       restart_eligibility_emitted s' = restart_eligibility_emitted s \<or>
     r_sequence s' = Suc (r_sequence s) \<and> \<not> r_warning_emitted s' \<and>
       \<not> restart_eligibility_emitted s'"

lemmas restart_defs = r_record_progress_def record_tool_started_def record_tool_result_def
  rearm_cancelled_restart_def r_set_wait_state_def r_next_interval_def

lemma same_or_next_step:
  "(\<forall>now gate. i \<noteq> RTick now gate) \<Longrightarrow> same_or_next s (fst (restart_step th s i))"
  by (cases i) (auto simp: same_or_next_def restart_defs Let_def split: progress_kind.splits)

lemma r_evaluate_frame [simp]:
  "r_sequence (fst (r_evaluate s now th g)) = r_sequence s"
  "r_waits (fst (r_evaluate s now th g)) = r_waits s"
  "r_latest_progress_at (fst (r_evaluate s now th g)) = r_latest_progress_at s"
  by (auto simp: r_evaluate_def Let_def r_latest_progress_at_def)

lemma r_evaluate_WARNING:
  "snd (r_evaluate s now th g) = R_WARNING \<longleftrightarrow>
     \<not> wait_terminal (r_waits s) \<and> \<not> wait_paused (r_waits s) \<and> \<not> r_warning_emitted s \<and>
     r_warning th \<le> now - r_latest_progress_at s"
  by (auto simp: r_evaluate_def Let_def)

lemma r_evaluate_second:
  "snd (r_evaluate s now th g) = R_AUTO_RESTART \<Longrightarrow>
     \<not> wait_terminal (r_waits s) \<and> \<not> wait_paused (r_waits s) \<and> r_warning_emitted s \<and>
     r_warning th \<le> now - r_latest_progress_at s \<and> r_restart th \<le> now - r_latest_progress_at s"
  "snd (r_evaluate s now th g) = R_RESTART_LIMITED \<Longrightarrow>
     \<not> wait_terminal (r_waits s) \<and> \<not> wait_paused (r_waits s) \<and> r_warning_emitted s \<and>
     r_warning th \<le> now - r_latest_progress_at s \<and> r_restart th \<le> now - r_latest_progress_at s"
  by (auto simp: r_evaluate_def Let_def split: if_splits)

lemma r_evaluate_AUTO:
  "snd (r_evaluate s now th g) = R_AUTO_RESTART \<Longrightarrow> gate_effective g \<and> r_phase s \<noteq> R_RESTARTED"
  by (auto simp: r_evaluate_def Let_def split: if_splits)

lemma r_evaluate_LIMITED:
  "snd (r_evaluate s now th g) = R_RESTART_LIMITED \<Longrightarrow> \<not> restart_eligibility_emitted s"
  by (auto simp: r_evaluate_def Let_def split: if_splits)

lemma r_evaluate_flags:
  "r_warning_emitted (fst (r_evaluate s now th g)) \<longleftrightarrow>
     r_warning_emitted s \<or> snd (r_evaluate s now th g) = R_WARNING"
  "restart_eligibility_emitted (fst (r_evaluate s now th g)) \<longleftrightarrow>
     restart_eligibility_emitted s \<or>
     snd (r_evaluate s now th g) \<in> {R_AUTO_RESTART, R_RESTART_LIMITED}"
  by (auto simp: r_evaluate_def Let_def)

lemma flags_ordered_initial [inv_intros]: "flags_ordered (r_initial_state t)"
  by (simp add: flags_ordered_def r_initial_state_def)

lemma flags_ordered_step [inv_intros]:
  assumes "flags_ordered s"
  shows "flags_ordered (fst (restart_step th s i))"
proof (cases "\<exists>now g. i = RTick now g")
  case True
  with assms show ?thesis
    by (auto simp: flags_ordered_def r_evaluate_flags dest: r_evaluate_second)
next
  case False
  then have "same_or_next s (fst (restart_step th s i))"
    by (intro same_or_next_step) blast
  with assms show ?thesis by (auto simp: flags_ordered_def same_or_next_def)
qed

lemma non_tick_silent: "(\<forall>now g. i \<noteq> RTick now g) \<Longrightarrow> snd (restart_step th s i) = R_NONE"
  by (cases i) auto

interpretation restart: escalation "restart_step th" r_sequence r_warning_emitted R_WARNING
  flags_ordered restart_eligibility_emitted R_RESTART_LIMITED for th
proof (unfold_locales, goal_cases)
  case (1 s i)
  then show ?case by (rule flags_ordered_step)
next
  case (2 s i)
  then show ?case
    by (cases "\<exists>now g. i = RTick now g")
      (use same_or_next_step [of i s th] in \<open>auto simp: same_or_next_def\<close>)
next
  case (3 s i)
  then show ?case
    by (cases "\<exists>now g. i = RTick now g")
      (use non_tick_silent [of i th s] in \<open>auto simp: r_evaluate_flags r_evaluate_WARNING\<close>)
next
  case (4 s i)
  then show ?case
    by (cases "\<exists>now g. i = RTick now g")
      (use same_or_next_step [of i s th] in \<open>auto simp: same_or_next_def r_evaluate_flags\<close>)
next
  case 5
  show ?case by simp
next
  case (6 s i)
  then show ?case
    by (cases "\<exists>now g. i = RTick now g")
      (use non_tick_silent [of i th s] in
        \<open>auto simp: r_evaluate_flags dest: r_evaluate_second r_evaluate_LIMITED\<close>)
next
  case (7 s i)
  then show ?case
    by (cases "\<exists>now g. i = RTick now g")
      (use same_or_next_step [of i s th] in \<open>auto simp: same_or_next_def r_evaluate_flags\<close>)
next
  case (8 s)
  then show ?case by (simp add: flags_ordered_def)
next
  case (9 s i)
  then show ?case
    by (cases "\<exists>now g. i = RTick now g")
      (use same_or_next_step [of i s th] in \<open>auto simp: same_or_next_def r_evaluate_flags\<close>)
next
  case (10 s i)
  then show ?case
    by (cases "\<exists>now g. i = RTick now g")
      (use same_or_next_step [of i s th] in \<open>auto simp: same_or_next_def r_evaluate_flags\<close>)
qed

text \<open>A raised warning flag means a warning was emitted earlier in the run.\<close>

lemma warned_by_run:
  "r_warning_emitted (fst (run_steps (restart_step th) s is)) \<Longrightarrow> \<not> r_warning_emitted s \<Longrightarrow>
   R_WARNING \<in> set (snd (run_steps (restart_step th) s is))"
proof (induction "is" arbitrary: s)
  case Nil
  then show ?case by simp
next
  case (Cons i "is")
  show ?case
  proof (cases "r_warning_emitted (fst (restart_step th s i))")
    case True
    then have "snd (restart_step th s i) = R_WARNING"
      using Cons.prems(2)
      by (cases "\<exists>now g. i = RTick now g")
        (use same_or_next_step [of i s th] in \<open>auto simp: same_or_next_def r_evaluate_flags\<close>)
    then show ?thesis by simp
  next
    case False
    with Cons show ?thesis by simp
  qed
qed

section \<open>Properties\<close>

text \<open>
  An automatic restart is never the detector's first reaction: in every run of a fresh
  detector, whatever the clock does, an evaluation that requests a restart sees an effective gate
  (every prerequisite verified, exactly one eligible sibling), silence past both thresholds and no
  wait, and a warning was emitted earlier in the same run.
\<close>

theorem auto_restart_is_gated:
  assumes "run_steps (restart_step th) (r_initial_state t0) is = (s, as)"
    and "snd (r_evaluate s now th gate) = R_AUTO_RESTART"
  shows "gate_effective gate \<and> \<not> wait_terminal (r_waits s) \<and> \<not> wait_paused (r_waits s) \<and>
    max (r_warning th) (r_restart th) \<le> now - r_latest_progress_at s \<and> R_WARNING \<in> set as"
proof -
  from assms(2) have "r_warning_emitted s" by (auto dest: r_evaluate_second)
  moreover have "\<not> r_warning_emitted (r_initial_state t0)" by (simp add: r_initial_state_def)
  ultimately have "R_WARNING \<in> set as" using warned_by_run [of th _ "is"] assms(1) by force
  with assms(2) show ?thesis by (auto dest: r_evaluate_second r_evaluate_AUTO)
qed

definition open_gate :: restart_gate where
  "open_gate = \<lparr>requested_by_user = True, capability_ready = True,
     latest_event_check_passed = True, target_generation_verified = True,
     clock_reliable = True, restart_eligible_siblings = 1\<rparr>"

lemmas restart_eval = r_evaluate_def r_initial_state_def r_latest_progress_at_def no_waits_def
  wait_terminal_def wait_paused_def gate_effective_def open_gate_def

theorem auto_restart_is_gated_witness:
  "gate_effective open_gate \<and>
   R_WARNING \<in> set (snd (run_steps (restart_step \<lparr>r_warning = 5, r_restart = 10\<rparr>)
      (r_initial_state 0) [RTick 6 open_gate]))"
  using auto_restart_is_gated [of "\<lparr>r_warning = 5, r_restart = 10\<rparr>" 0 "[RTick 6 open_gate]"
      "fst (r_evaluate (r_initial_state 0) 6 \<lparr>r_warning = 5, r_restart = 10\<rparr> open_gate)"
      "[R_WARNING]" 12 open_gate]
  by (simp add: restart_eval run_steps.simps(2))

text \<open>
  In any run of a fresh restart detector there is at most one warning per silence interval
  and the reports of a restart the gate refused never outnumber the warnings.
\<close>

theorem restart_reports_bounded:
  "let r = run_steps (restart_step th) (r_initial_state t0) inputs
   in count_list (snd r) R_WARNING \<le> r_sequence (fst r) + 1 \<and>
      count_list (snd r) R_RESTART_LIMITED \<le> count_list (snd r) R_WARNING"
  using restart.emissions_bounded [OF flags_ordered_initial, of th t0 inputs]
    restart.second_needs_first [OF flags_ordered_initial, of th t0 inputs]
  by (simp add: Let_def r_initial_state_def of_bool_def split: if_splits)

end
