(* ===== verification/Json.thy ===== *)
theory Json
  imports Prelude
begin

text \<open>
  Decoded JSON values (the \<open>JsonValue\<close> type of \<open>scripts/state_io.py\<close>) and the dictionary
  reads and writes the state code performs on them. \<open>values.get(key)\<close> does not tell a
  missing key from \<open>null\<close>, so \<open>dget\<close> returns \<open>JNull\<close> for both; \<open>type(x) is int\<close> excludes
  Booleans, so \<open>JBool\<close> and \<open>JInt\<close> are separate constructors and Python's \<open>==\<close>, which
  identifies \<open>True\<close> with \<open>1\<close>, is the separate function \<open>py_eq\<close>.
\<close>

datatype json =
    JNull
  | JBool bool
  | JInt int
  | JFloat real
  | JStr string
  | JList "json list"
  | JObj "(string \<times> json) list"

type_synonym dict = "(string \<times> json) list"

definition dget :: "dict \<Rightarrow> string \<Rightarrow> json" where
  "dget d k = (case map_of d k of None \<Rightarrow> JNull | Some v \<Rightarrow> v)"

text \<open>\<open>values.get(key, default)\<close>: the default replaces a missing key only, not \<open>null\<close>.\<close>

definition dget_or :: "dict \<Rightarrow> string \<Rightarrow> json \<Rightarrow> json" where
  "dget_or d k v0 = (case map_of d k of None \<Rightarrow> v0 | Some v \<Rightarrow> v)"

abbreviation dset :: "string \<Rightarrow> json \<Rightarrow> dict \<Rightarrow> dict" where
  "dset k v d \<equiv> AList.update k v d"

abbreviation dhas :: "dict \<Rightarrow> string \<Rightarrow> bool" where
  "dhas d k \<equiv> map_of d k \<noteq> None"

lemma dget_update [simp, dict_simps]: "dget (dset k v d) k' = (if k' = k then v else dget d k')"
  by (simp add: dget_def)

lemma dget_or_update [simp, dict_simps]:
  "dget_or (dset k v d) k' w = (if k' = k then v else dget_or d k' w)"
  by (simp add: dget_or_def)

lemma dget_Nil [simp, dict_simps]: "dget [] k = JNull"
  by (simp add: dget_def)

lemma dget_Cons [simp, dict_simps]: "dget ((k, v) # d) k' = (if k' = k then v else dget d k')"
  by (simp add: dget_def)

lemma dget_or_Nil [simp, dict_simps]: "dget_or [] k w = w"
  by (simp add: dget_or_def)

lemma dget_or_Cons [simp, dict_simps]:
  "dget_or ((k, v) # d) k' w = (if k' = k then v else dget_or d k' w)"
  by (simp add: dget_or_def)

fun str_of :: "json \<Rightarrow> string option" where
  "str_of (JStr s) = Some s"
| "str_of _ = None"

fun int_of_json :: "json \<Rightarrow> int option" where
  "int_of_json (JInt i) = Some i"
| "int_of_json _ = None"

fun obj_of :: "json \<Rightarrow> dict option" where
  "obj_of (JObj d) = Some d"
| "obj_of _ = None"

lemma str_of_eq_Some [simp]: "str_of v = Some s \<longleftrightarrow> v = JStr s"
  by (cases v) auto

lemma int_of_json_eq_Some [simp]: "int_of_json v = Some i \<longleftrightarrow> v = JInt i"
  by (cases v) auto

lemma obj_of_eq_Some [simp]: "obj_of v = Some d \<longleftrightarrow> v = JObj d"
  by (cases v) auto

section \<open>Python equality of JSON values\<close>

text \<open>
  \<open>==\<close> compares Booleans, integers and floats numerically and dictionaries regardless of
  their order.
\<close>

fun num_of :: "json \<Rightarrow> real option" where
  "num_of (JBool b) = Some (of_bool b)"
| "num_of (JInt i) = Some (of_int i)"
| "num_of (JFloat r) = Some r"
| "num_of _ = None"

lemma size_snd_mem [termination_simp]:
  "(k, v) \<in> set d \<Longrightarrow> size (v :: json) < Suc (size_list (size_prod (\<lambda>_. 0) size) d)"
  by (induction d) auto

lemma size_zip_mem [termination_simp]:
  "(x, y) \<in> set (zip xs ys) \<Longrightarrow> size (x :: json) < Suc (size_list size xs)"
  by (drule set_zip_leftD) (simp add: less_Suc_eq_le size_list_estimation')

fun py_eq :: "json \<Rightarrow> json \<Rightarrow> bool" where
  "py_eq (JList xs) (JList ys) =
     (length xs = length ys \<and> list_all (\<lambda>(x, y). py_eq x y) (zip xs ys))"
| "py_eq (JObj a) (JObj b) =
     (length a = length b \<and>
      list_all (\<lambda>(k, v). case map_of b k of None \<Rightarrow> False | Some w \<Rightarrow> py_eq v w) a)"
| "py_eq (JStr s) (JStr t) = (s = t)"
| "py_eq JNull JNull = True"
| "py_eq u v = (case (num_of u, num_of v) of (Some x, Some y) \<Rightarrow> x = y | _ \<Rightarrow> False)"

abbreviation dict_eq :: "dict \<Rightarrow> dict \<Rightarrow> bool" where
  "dict_eq a b \<equiv> py_eq (JObj a) (JObj b)"

text \<open>Well-formed values have no repeated key at any depth, as every decoded value has.\<close>

fun wf_json :: "json \<Rightarrow> bool" where
  "wf_json (JList xs) = list_all wf_json xs"
| "wf_json (JObj d) = (ddistinct d \<and> list_all (\<lambda>(k, v). wf_json v) d)"
| "wf_json _ = True"

lemma wf_json_dget: "wf_json (JObj d) \<Longrightarrow> wf_json (dget d k)"
  by (auto simp: dget_def list_all_iff split: option.splits dest!: map_of_SomeD)

lemma wf_json_dset: "wf_json (JObj d) \<Longrightarrow> wf_json v \<Longrightarrow> wf_json (JObj (dset k v d))"
  using set_update_subset [of k v d] by (auto simp: list_all_iff)

lemma wf_json_dget_obj: "wf_json (JObj d) \<Longrightarrow> dget d k = JObj d' \<Longrightarrow> wf_json (JObj d')"
  by (metis wf_json_dget)

lemma wf_json_ddistinct: "wf_json (JObj d) \<Longrightarrow> ddistinct d"
  by simp

lemma py_eq_refl: "wf_json v \<Longrightarrow> py_eq v v"
proof (induction v rule: wf_json.induct)
  case (1 xs)
  then show ?case by (auto simp: list_all_iff zip_same_conv_map)
next
  case (2 d)
  then show ?case
    by (auto simp: list_all_iff map_of_distinct_SomeI split: option.splits)
qed auto

end
