(* ===== verification/EventSource.thy ===== *)
theory EventSource
  imports Json
begin

text \<open>
  \<open>scripts/event_source.py\<close>: classification of decoded rollout records into privacy-safe
  events. Only allowlisted identifiers enter an event. \<open>datetime.fromisoformat(...).astimezone(UTC)\<close>
  is the parameter \<open>isoparse\<close> (\<open>None\<close> for \<open>ValueError\<close>).
\<close>

section \<open>Data\<close>

datatype event_kind =
    SESSION_METADATA | TURN_STARTED | TURN_COMPLETED | TURN_ABORTED
  | ITEM_EVENT | DELTA_EVENT | TOOL_STARTED | TOOL_RESULT_EVENT

datatype pause_transition = PAUSE_NONE | PAUSE_START | PAUSE_END

record observed_event =
  kind :: event_kind
  occurred_at :: time
  ev_session_id :: "string option"
  ev_parent_thread_id :: "string option"
  ev_turn_id :: "string option"
  ev_item_id :: "string option"
  ev_child_id :: "string option"
  ev_call_id :: "string option"
  ev_terminal :: bool
  pause :: pause_transition
  fallback_tool_result :: bool

section \<open>Classification\<close>

definition ITEM_PROGRESS :: "string set" where
  "ITEM_PROGRESS = {''reasoning'', ''agent_message''}"

definition TOOL_CALLS :: "string set" where
  "TOOL_CALLS = {''function_call'', ''custom_tool_call'', ''tool_search_call''}"

definition TOOL_OUTPUTS :: "string set" where
  "TOOL_OUTPUTS = {''function_call_output'', ''custom_tool_call_output'', ''tool_search_output''}"

definition DELTAS :: "string set" where
  "DELTAS = {''agent_message_delta'', ''agent_reasoning_delta'', ''reasoning_delta'',
             ''sub_agent_activity''}"

definition OTHER_PROGRESS :: "string set" where
  "OTHER_PROGRESS = {''context_compacted'', ''thread_rolled_back''}"

definition FALLBACK_TOOL_ENDS :: "string set" where
  "FALLBACK_TOOL_ENDS = {''mcp_tool_call_end'', ''patch_apply_end'', ''web_search_end'',
                         ''image_generation_end''}"

definition text_of :: "dict \<Rightarrow> string \<Rightarrow> string option" where
  "text_of d key = str_of (dget d key)"

definition payload_of :: "dict \<Rightarrow> dict option" where
  "payload_of raw = obj_of (dget raw ''payload'')"

definition timestamp_of :: "(string \<Rightarrow> time option) \<Rightarrow> dict \<Rightarrow> time option" where
  "timestamp_of isoparse raw =
     (case text_of raw ''timestamp'' of
        None \<Rightarrow> None
      | Some v \<Rightarrow> if v = [] \<or> last v \<noteq> CHR ''Z'' then None else isoparse (butlast v @ ''+00:00''))"

definition is_completed :: "dict \<Rightarrow> bool" where
  "is_completed d \<longleftrightarrow>
     text_of d ''status'' = Some ''completed'' \<or> dget d ''completed'' = JBool True"

definition response_item_kind :: "dict \<Rightarrow> event_kind option" where
  "response_item_kind d =
     (case text_of d ''type'' of
        None \<Rightarrow> None
      | Some ty \<Rightarrow>
          if ty \<in> ITEM_PROGRESS then Some ITEM_EVENT
          else if ty = ''message'' then
            (if text_of d ''role'' = Some ''assistant'' \<and>
                text_of d ''phase'' \<in> {Some ''commentary'', Some ''final_answer''}
             then Some ITEM_EVENT else None)
          else if ty \<in> TOOL_CALLS then Some TOOL_STARTED
          else if ty \<in> TOOL_OUTPUTS then Some TOOL_RESULT_EVENT
          else if ty \<in> {''web_search_call'', ''image_generation_call''}
          then Some (if is_completed d then TOOL_RESULT_EVENT else TOOL_STARTED)
          else None)"

definition event_message_kind :: "dict \<Rightarrow> (event_kind \<times> bool) option" where
  "event_message_kind d =
     (case text_of d ''type'' of
        None \<Rightarrow> None
      | Some ty \<Rightarrow>
          if ty = ''task_started'' then Some (TURN_STARTED, False)
          else if ty = ''task_complete'' then Some (TURN_COMPLETED, False)
          else if ty = ''turn_aborted'' then Some (TURN_ABORTED, False)
          else if ty \<in> DELTAS then Some (DELTA_EVENT, False)
          else if ty \<in> OTHER_PROGRESS then Some (ITEM_EVENT, False)
          else if ty \<in> FALLBACK_TOOL_ENDS then Some (TOOL_RESULT_EVENT, True)
          else None)"

definition pause_for :: "event_kind \<Rightarrow> pause_transition" where
  "pause_for k =
     (if k = TOOL_STARTED then PAUSE_START
      else if k = TOOL_RESULT_EVENT then PAUSE_END else PAUSE_NONE)"

text \<open>\<open>a or b\<close> on optional texts: the second when the first is missing or empty.\<close>

definition text_or :: "string option \<Rightarrow> string option \<Rightarrow> string option" where
  "text_or a b = (case a of Some (c # cs) \<Rightarrow> a | _ \<Rightarrow> b)"

definition observed :: "event_kind \<Rightarrow> time \<Rightarrow> dict \<Rightarrow> bool \<Rightarrow> observed_event" where
  "observed k t d fallback =
     \<lparr>kind = k, occurred_at = t,
      ev_session_id = text_of d ''session_id'',
      ev_parent_thread_id = text_of d ''parent_thread_id'',
      ev_turn_id = text_of d ''turn_id'',
      ev_item_id = text_or (text_of d ''item_id'') (text_of d ''id''),
      ev_child_id = text_or (text_of d ''agent_thread_id'') (text_of d ''agent_id''),
      ev_call_id = text_of d ''call_id'',
      ev_terminal = (k \<in> {TURN_COMPLETED, TURN_ABORTED}),
      pause = pause_for k,
      fallback_tool_result = fallback\<rparr>"

definition parse_rollout_event ::
  "(string \<Rightarrow> time option) \<Rightarrow> dict \<Rightarrow> observed_event option" where
  "parse_rollout_event isoparse raw =
     (case (payload_of raw, timestamp_of isoparse raw, text_of raw ''type'') of
        (Some payload, Some t, Some record_type) \<Rightarrow>
          if record_type = ''session_meta'' then
            Some \<lparr>kind = SESSION_METADATA, occurred_at = t,
                  ev_session_id = text_of payload ''id'',
                  ev_parent_thread_id = text_of payload ''parent_thread_id'',
                  ev_turn_id = None, ev_item_id = None, ev_child_id = None, ev_call_id = None,
                  ev_terminal = False, pause = PAUSE_NONE, fallback_tool_result = False\<rparr>
          else if record_type = ''response_item'' then
            (case response_item_kind payload of
               None \<Rightarrow> None
             | Some k \<Rightarrow> Some (observed k t payload False))
          else if record_type = ''event_msg'' then
            (case event_message_kind payload of
               None \<Rightarrow> None
             | Some (k, fallback) \<Rightarrow> Some (observed k t payload fallback))
          else None
      | _ \<Rightarrow> None)"

section \<open>Lemmas\<close>

definition wf_event :: "observed_event \<Rightarrow> bool" where
  "wf_event e \<longleftrightarrow>
     (ev_terminal e \<longleftrightarrow> kind e \<in> {TURN_COMPLETED, TURN_ABORTED}) \<and>
     pause e = pause_for (kind e) \<and> (fallback_tool_result e \<longrightarrow> kind e = TOOL_RESULT_EVENT)"

lemma wf_observed: "wf_event (observed k t d fb) \<longleftrightarrow> (fb \<longrightarrow> k = TOOL_RESULT_EVENT)"
  by (simp add: wf_event_def observed_def)

lemma occurred_at_observed [simp]: "occurred_at (observed k t d fb) = t"
  by (simp add: observed_def)

lemma event_message_fallback: "event_message_kind d = Some (k, True) \<Longrightarrow> k = TOOL_RESULT_EVENT"
  by (simp add: event_message_kind_def split: option.splits if_splits)

lemma parsed_event_wf: "parse_rollout_event isoparse raw = Some e \<Longrightarrow> wf_event e"
  by (auto simp: parse_rollout_event_def wf_observed event_message_fallback
      split: option.splits if_splits) (simp_all add: wf_event_def pause_for_def)

text \<open>The payload keys an event may be computed from.\<close>

definition ALLOWED_KEYS :: "string set" where
  "ALLOWED_KEYS = {''type'', ''role'', ''phase'', ''status'', ''completed'', ''session_id'',
     ''parent_thread_id'', ''turn_id'', ''item_id'', ''id'', ''agent_thread_id'', ''agent_id'',
     ''call_id''}"

lemma classify_cong:
  assumes "\<forall>k \<in> ALLOWED_KEYS. dget d k = dget d' k"
  shows "response_item_kind d = response_item_kind d'"
    and "event_message_kind d = event_message_kind d'"
    and "observed kd u d fb = observed kd u d' fb"
proof -
  have t: "text_of d k = text_of d' k" if "k \<in> ALLOWED_KEYS" for k
    using assms that by (simp add: text_of_def)
  have c: "is_completed d = is_completed d'"
    using assms by (simp add: is_completed_def t ALLOWED_KEYS_def)
  show "response_item_kind d = response_item_kind d'"
    unfolding response_item_kind_def by (simp only: t c ALLOWED_KEYS_def insert_iff simp_thms)
  show "event_message_kind d = event_message_kind d'"
    unfolding event_message_kind_def by (simp only: t ALLOWED_KEYS_def insert_iff simp_thms)
  show "observed kd u d fb = observed kd u d' fb"
    unfolding observed_def by (simp only: t ALLOWED_KEYS_def insert_iff simp_thms)
qed

section \<open>Properties\<close>

text \<open>
  Privacy by construction: an event depends on its record only through the envelope's type and
  timestamp and an allowlist of identifier and classification fields of the payload; any other
  content (prompts, responses, tool bodies), at any depth, can be changed without changing the event.
\<close>

theorem event_ignores_content:
  assumes "dget raw ''type'' = dget raw' ''type''"
    and "dget raw ''timestamp'' = dget raw' ''timestamp''"
    and "dget raw ''payload'' = JObj payload" and "dget raw' ''payload'' = JObj payload'"
    and "\<forall>k \<in> ALLOWED_KEYS. dget payload k = dget payload' k"
  shows "parse_rollout_event isoparse raw = parse_rollout_event isoparse raw'"
proof -
  have "text_of payload ''id'' = text_of payload' ''id''"
    and "text_of payload ''parent_thread_id'' = text_of payload' ''parent_thread_id''"
    using assms(5) by (simp_all add: ALLOWED_KEYS_def text_of_def)
  moreover have "payload_of raw = Some payload" and "payload_of raw' = Some payload'"
    using assms(3,4) by (simp_all add: payload_of_def)
  moreover have "timestamp_of isoparse raw = timestamp_of isoparse raw'"
    and "text_of raw ''type'' = text_of raw' ''type''"
    using assms(1,2) by (simp_all add: timestamp_of_def text_of_def)
  ultimately show ?thesis
    by (simp add: parse_rollout_event_def classify_cong [OF assms(5)] split: option.split)
qed

theorem event_ignores_content_witness:
  "parse_rollout_event (\<lambda>s. Some 0) [(''type'', JStr ''event_msg''), (''timestamp'', JStr ''1Z''),
       (''payload'', JObj [(''type'', JStr ''task_complete''), (''message'', JStr ''secret'')])] =
   parse_rollout_event (\<lambda>s. Some 0) [(''type'', JStr ''event_msg''), (''timestamp'', JStr ''1Z''),
       (''payload'', JObj [(''type'', JStr ''task_complete'')])]"
  by (rule event_ignores_content [where
        payload = "[(''type'', JStr ''task_complete''), (''message'', JStr ''secret'')]" and
        payload' = "[(''type'', JStr ''task_complete'')]"]) (simp_all add: ALLOWED_KEYS_def)



end
