(* ===== verification/StateStore.thy ===== *)
theory StateStore
  imports Json "HOL-Library.Sublist" "HOL-Library.Multiset"
begin

text \<open>
  \<open>scripts/state.py\<close> and the path checks of \<open>scripts/state_io.py\<close>: schema-tagged JSON
  documents below a private root, loaded after containment checks, replaced atomically, and
  mutated under a lock with an optional commit step. The file system is an explicit store from
  normalised absolute POSIX paths to files; redirects (symbolic links, junctions) and locks held
  by other processes are the environment \<open>fs_env\<close>. File modes, directory creation, \<open>fsync\<close> and
  the temporary file of the atomic replace are not modelled: a write either happens or not.
\<close>

section \<open>Exceptions\<close>

datatype corrupt_reason =
  INVALID_JSON | INVALID_TOP_LEVEL | INVALID_SCHEMA | INVALID_VALUE | RESERVED_SCHEMA_FIELD

text \<open>The exceptions the persistence layer and its callers raise, with their arguments.\<close>

datatype exn =
    CorruptStateError path corrupt_reason
  | FutureSchemaError path int
  | UnsafeStatePathError path path
  | StateLockTimeoutError path
  | FileNotFoundError path
  | UnsafeRolloutPathError path
  | RolloutCorruptError path string
  | RolloutRotatedError path
  | InvalidDiagnosticError string
  | UnsafeDiagnosticPathError path
  | NotificationSubjectError
  | KeyErr
  | ManagerRuntimeError string
  | GoalControlError string
  | ActivationError string
  | DaemonServiceError string
  | ActivationFenceError string
  | AppServerProtocolError string
  | AppServerErr string
  | ThresholdSettingsError string
  | CalibrationStateError path string
  | ActivationTicketError string
  | ActivationRecordError
  | SchedulerErr string
  | TypeErr
  | OSErr
  | RuntimeErr string
  | ValueErr string
  | StateErr string
  | ThresholdOrderErr int int
  | ThresholdValueErr int int
  | SessionIdentityError string
  | UnsupportedLocalPathError
  | CodexExecutableError string
  | ManagerLaunchError string
  | DurationParseErr string
  | NotificationConfigError string
  | ControlKeyError string
  | EndpointError string
  | PrivateRootError string

section \<open>Files\<close>

text \<open>A file's text is either undecodable or a JSON value.\<close>

datatype disk_file = Regular "json option" | HardLinked "json option" | NonFile

type_synonym store = "path \<rightharpoonup> disk_file"

record fs_env =
  redirected :: "path \<Rightarrow> bool"
  lock_busy :: "path \<Rightarrow> bool"

definition is_file :: "store \<Rightarrow> path \<Rightarrow> bool" where
  "is_file st p \<longleftrightarrow> (case st p of Some (Regular _) \<Rightarrow> True | Some (HardLinked _) \<Rightarrow> True | _ \<Rightarrow> False)"

section \<open>Paths\<close>

text \<open>\<open>os.path.abspath\<close> on a rooted path: \<open>.\<close> disappears, \<open>..\<close> drops the component before it.\<close>

fun abspath_onto :: "path \<Rightarrow> path \<Rightarrow> path" where
  "abspath_onto acc [] = acc"
| "abspath_onto acc (c # cs) =
     (if c = '''' \<or> c = ''.'' then abspath_onto acc cs
      else if c = ''..'' then abspath_onto (butlast acc) cs
      else abspath_onto (acc @ [c]) cs)"

definition abspath :: "path \<Rightarrow> path" where
  "abspath p = abspath_onto [] p"

definition strictly_below :: "path \<Rightarrow> path \<Rightarrow> bool" where
  "strictly_below home p \<longleftrightarrow> p \<noteq> home \<and> prefix home p"

definition components_from :: "path \<Rightarrow> path \<Rightarrow> path list" where
  "components_from home p = map (\<lambda>n. home @ take n (drop (length home) p))
     [0 ..< Suc (length p - length home)]"

definition ensure_existing_components_are_direct :: "fs_env \<Rightarrow> path \<Rightarrow> path \<Rightarrow> exn + unit" where
  "ensure_existing_components_are_direct env home p =
     (case List.find (redirected env) (components_from home p) of
        Some current \<Rightarrow> Inl (UnsafeStatePathError home current)
      | None \<Rightarrow> Inr ())"

definition safe_absolute_path :: "fs_env \<Rightarrow> path \<Rightarrow> path \<Rightarrow> exn + path \<times> path" where
  "safe_absolute_path env home p =
     (let r = abspath home; a = abspath p
      in if \<not> strictly_below r a then Inl (UnsafeStatePathError r a)
         else ebind (ensure_existing_components_are_direct env r a) (\<lambda>_. Inr (r, a)))"

definition ensure_direct_regular_file :: "fs_env \<Rightarrow> store \<Rightarrow> path \<Rightarrow> path \<Rightarrow> exn + unit" where
  "ensure_direct_regular_file env st home p =
     ebind (safe_absolute_path env home p) (\<lambda>(r, a).
       case st a of
         None \<Rightarrow> Inr ()
       | Some (Regular _) \<Rightarrow> Inr ()
       | Some _ \<Rightarrow> Inl (UnsafeStatePathError r a))"

text \<open>State files: the name is a hash of the session (\<open>sha256().hexdigest()\<close>, a parameter).\<close>

type_synonym hash = "string \<Rightarrow> string"

definition session_filename :: "hash \<Rightarrow> string \<Rightarrow> string" where
  "session_filename H sid = H sid @ ''.json''"

definition runtime_path :: "hash \<Rightarrow> path \<Rightarrow> string \<Rightarrow> path" where
  "runtime_path H home sid = home @ [''runtime'', session_filename H sid]"

definition cursor_path :: "hash \<Rightarrow> path \<Rightarrow> string \<Rightarrow> path" where
  "cursor_path H home sid = home @ [''cursors'', session_filename H sid]"

definition config_path :: "path \<Rightarrow> path" where
  "config_path home = home @ [''config.json'']"

section \<open>Documents\<close>

definition SCHEMA_VERSION :: int where
  "SCHEMA_VERSION = 1"

definition check_schema :: "path \<Rightarrow> int \<Rightarrow> exn + unit" where
  "check_schema p v =
     (if v > SCHEMA_VERSION then Inl (FutureSchemaError p v)
      else if v \<noteq> SCHEMA_VERSION then Inl (CorruptStateError p INVALID_SCHEMA)
      else Inr ())"

definition load_state :: "fs_env \<Rightarrow> path \<Rightarrow> path \<Rightarrow> store \<Rightarrow> exn + dict" where
  "load_state env home p st =
     ebind (safe_absolute_path env home p) (\<lambda>(r, a).
     ebind (ensure_direct_regular_file env st r a) (\<lambda>_.
     case st a of
       Some (Regular (Some (JObj values))) \<Rightarrow>
         (case dget values ''schema_version'' of
            JInt v \<Rightarrow> ebind (check_schema a v) (\<lambda>_.
              ebind (ensure_existing_components_are_direct env r a) (\<lambda>_.
              Inr (filter (\<lambda>(k, _). k \<noteq> ''schema_version'') values)))
          | _ \<Rightarrow> Inl (CorruptStateError a INVALID_SCHEMA))
     | Some (Regular (Some _)) \<Rightarrow> Inl (CorruptStateError a INVALID_TOP_LEVEL)
     | Some (Regular None) \<Rightarrow> Inl (CorruptStateError a INVALID_JSON)
     | _ \<Rightarrow> Inl (FileNotFoundError a)))"

text \<open>\<open>json.dump(..., sort_keys=True)\<close> orders the keys of every object it writes.\<close>

fun jsort :: "json \<Rightarrow> json" where
  "jsort (JObj d) = JObj (sort_key fst (map (\<lambda>(k, v). (k, jsort v)) d))"
| "jsort (JList xs) = JList (map jsort xs)"
| "jsort v = v"

definition sort_dict :: "dict \<Rightarrow> dict" where
  "sort_dict d = sort_key fst (map (\<lambda>(k, v). (k, jsort v)) d)"

definition atomic_json_write :: "path \<Rightarrow> int \<Rightarrow> dict \<Rightarrow> store \<Rightarrow> store" where
  "atomic_json_write p v values st =
     st(p \<mapsto> Regular (Some (JObj (sort_dict
       (AList.updates (map fst values) (map snd values) [(''schema_version'', JInt v)])))))"

definition save_state :: "fs_env \<Rightarrow> path \<Rightarrow> path \<Rightarrow> dict \<Rightarrow> int \<Rightarrow> store \<Rightarrow> exn + store" where
  "save_state env home p values v st =
     ebind (safe_absolute_path env home p) (\<lambda>(r, a).
     ebind (check_schema a v) (\<lambda>_.
     if dhas values ''schema_version'' then Inl (CorruptStateError a RESERVED_SCHEMA_FIELD)
     else if lock_busy env a then Inl (StateLockTimeoutError a)
     else ebind (ensure_existing_components_are_direct env r a) (\<lambda>_.
       ebind (if st a = None then Inr ()
              else if \<not> is_file st a then Inl (CorruptStateError a INVALID_VALUE)
              else ebind (load_state env r a st) (\<lambda>_. Inr ())) (\<lambda>_.
       Inr (atomic_json_write a v values st)))))"

text \<open>
  \<open>mutate_existing_state\<close>: the mutator reads and changes the caller's in-memory state \<open>'m\<close>
  (which keeps its changes when it raises) and the loaded values; a changed document is written
  before the commit step runs. A missing file is \<open>None\<close>.
\<close>

definition mutate_existing_state ::
  "fs_env \<Rightarrow> path \<Rightarrow> path \<Rightarrow> ('m \<Rightarrow> dict \<Rightarrow> (exn + 'r \<times> dict) \<times> 'm) \<Rightarrow>
   ('m \<Rightarrow> store \<Rightarrow> exn + store) \<Rightarrow> 'm \<Rightarrow> store \<Rightarrow> (exn + 'r option) \<times> 'm \<times> store"
where
  "mutate_existing_state env home p mutator after_commit m st =
     (case safe_absolute_path env home p of
        Inl e \<Rightarrow> (Inl e, m, st)
      | Inr (r, a) \<Rightarrow>
          if \<not> is_file st a then (Inr None, m, st)
          else if lock_busy env a then (Inl (StateLockTimeoutError a), m, st)
          else (case load_state env r a st of
             Inl e \<Rightarrow> (Inl e, m, st)
           | Inr original \<Rightarrow>
               (case mutator m original of
                  (Inl e, m') \<Rightarrow> (Inl e, m', st)
                | (Inr (res, values), m') \<Rightarrow>
                    let st' = (if dict_eq values original then st
                               else atomic_json_write a SCHEMA_VERSION values st)
                    in (case after_commit m' st' of
                          Inl e \<Rightarrow> (Inl e, m', st')
                        | Inr st'' \<Rightarrow> (Inr (Some res), m', st'')))))"

section \<open>Lemmas: paths\<close>

lemma abspath_onto_clean:
  "'''' \<notin> set acc \<Longrightarrow> ''.'' \<notin> set acc \<Longrightarrow> ''..'' \<notin> set acc \<Longrightarrow>
   {'''', ''.'', ''..''} \<inter> set (abspath_onto acc cs) = {}"
proof (induction acc cs rule: abspath_onto.induct)
  case (2 acc c cs)
  then show ?case by (auto dest: in_set_butlastD)
qed auto

lemma abspath_clean: "{'''', ''.'', ''..''} \<inter> set (abspath p) = {}"
  unfolding abspath_def by (rule abspath_onto_clean) simp_all

lemma abspath_onto_id: "{'''', ''.'', ''..''} \<inter> set cs = {} \<Longrightarrow> abspath_onto acc cs = acc @ cs"
  by (induction cs arbitrary: acc) auto

lemma abspath_onto_append: "abspath_onto acc (xs @ ys) = abspath_onto (abspath_onto acc xs) ys"
  by (induction acc xs rule: abspath_onto.induct) auto

lemma abspath_idem [simp]: "abspath (abspath p) = abspath p"
  using abspath_onto_id [OF abspath_clean, of "[]"] by (simp add: abspath_def)

lemma safe_absolute_path_Inr:
  "safe_absolute_path env home p = Inr (r, a) \<longleftrightarrow>
     r = abspath home \<and> a = abspath p \<and> strictly_below r a \<and>
     ensure_existing_components_are_direct env r a = Inr ()"
  by (auto simp: safe_absolute_path_def Let_def err_simps)

lemma safe_absolute_path_again:
  "safe_absolute_path env home p = Inr (r, a) \<Longrightarrow> safe_absolute_path env r a = Inr (r, a)"
  by (auto simp: safe_absolute_path_Inr)

lemma no_redirects:
  "redirected env = (\<lambda>_. False) \<Longrightarrow> ensure_existing_components_are_direct env home p = Inr ()"
  by (simp add: ensure_existing_components_are_direct_def find_None_iff split: option.splits)

lemma direct_components:
  "ensure_existing_components_are_direct env home p = Inr () \<longleftrightarrow>
     (\<forall>q \<in> set (components_from home p). \<not> redirected env q)"
  using find_None_iff [of "redirected env" "components_from home p"]
  by (auto simp: ensure_existing_components_are_direct_def split: option.splits)

section \<open>Lemmas: documents\<close>

lemma map_of_sort_key [dict_simps]: "ddistinct d \<Longrightarrow> map_of (sort_key fst d) = map_of d"
  by (subst map_of_inject_set) (auto simp: ddistinct_def distinct_map inj_on_def distinct_sort)

lemma ddistinct_sort_key [simp, dict_simps]: "ddistinct (sort_key fst d) \<longleftrightarrow> ddistinct d"
proof -
  have "mset (map fst (sort_key fst d)) = mset (map fst d)" by (simp only: mset_map mset_sort)
  then show ?thesis unfolding ddistinct_def by (rule mset_eq_imp_distinct_iff)
qed

lemma sort_dict_keys: "map_of (sort_dict d) k = None \<longleftrightarrow> map_of d k = None"
  by (force simp: sort_dict_def map_of_eq_None_iff)

lemma ddistinct_sort_dict [simp, dict_simps]: "ddistinct (sort_dict d) \<longleftrightarrow> ddistinct d"
  unfolding sort_dict_def ddistinct_sort_key by (simp add: ddistinct_def comp_def split_beta)

lemma map_of_sort_dict:
  "ddistinct d \<Longrightarrow> map_of (sort_dict d) = (\<lambda>k. map_option jsort (map_of d k))"
proof -
  assume "ddistinct d"
  then have "ddistinct (map (\<lambda>(k, v). (k, jsort v)) d)"
    by (simp add: ddistinct_def comp_def split_beta)
  then show ?thesis by (simp add: sort_dict_def map_of_sort_key map_of_map fun_eq_iff)
qed

lemma ddistinct_updates [simp, dict_simps]: "ddistinct d \<Longrightarrow> ddistinct (AList.updates ks vs d)"
  by (simp add: ddistinct_def distinct_updates)

lemma map_of_updates:
  "ddistinct d \<Longrightarrow> map_of (AList.updates (map fst d) (map snd d) e) k =
     (case map_of d k of None \<Rightarrow> map_of e k | Some v \<Rightarrow> Some v)"
proof (induction d arbitrary: e)
  case Nil
  then show ?case by simp
next
  case (Cons kv d)
  then have "ddistinct d" and "map_of d (fst kv) = None"
    by (auto simp: ddistinct_def map_of_eq_None_iff)
  with Cons.IH [of "AList.update (fst kv) (snd kv) e"] show ?case
    by (cases kv) (auto split: option.splits)
qed

lemma load_after_write:
  assumes "safe_absolute_path env home p = Inr (r, a)" and "ddistinct values"
    and "\<not> dhas values ''schema_version''"
  shows "load_state env home p (atomic_json_write a SCHEMA_VERSION values st) =
    Inr (filter (\<lambda>(k, _). k \<noteq> ''schema_version'')
      (sort_dict (AList.updates (map fst values) (map snd values)
        [(''schema_version'', JInt SCHEMA_VERSION)])))"
proof -
  let ?d = "AList.updates (map fst values) (map snd values) [(''schema_version'', JInt SCHEMA_VERSION)]"
  have dist: "ddistinct ?d" by (rule ddistinct_updates) (simp add: ddistinct_def)
  have "map_of ?d ''schema_version'' = Some (JInt SCHEMA_VERSION)"
    using assms(2,3) by (simp add: map_of_updates)
  then have "dget (sort_dict ?d) ''schema_version'' = JInt SCHEMA_VERSION"
    using dist by (simp add: dget_def map_of_sort_dict)
  moreover have "ensure_existing_components_are_direct env r a = Inr ()"
    using assms(1) unfolding safe_absolute_path_Inr by blast
  ultimately show ?thesis
    using assms(1) safe_absolute_path_again [OF assms(1)]
    by (simp add: load_state_def atomic_json_write_def ensure_direct_regular_file_def
        check_schema_def)
qed

lemma py_eq_jsort: "wf_json v \<Longrightarrow> py_eq (jsort v) v"
proof (induction v rule: jsort.induct)
  case (1 d)
  then show ?case
    by (force simp: list_all_iff map_of_distinct_SomeI split: option.splits)
next
  case (2 xs)
  then show ?case by (auto simp: list_all_iff zip_map1 in_set_zip)
qed auto

lemma dict_eq_jsorted:
  assumes "ddistinct d" and "wf_json (JObj values)"
    and "\<forall>k. map_of d k = map_option jsort (map_of values k)"
  shows "dict_eq d values"
proof -
  have dist: "ddistinct values" using assms(2) by simp
  have "fst ` set d = fst ` set values"
    using assms(3) by (metis (no_types, lifting) dom_map_of_conv_image_fst dom_map_option_comp
        map_option_is_None domIff set_eqI)
  then have "length d = length values"
    using assms(1) dist by (metis ddistinct_def distinct_card length_map set_map)
  moreover have "case map_of values k of None \<Rightarrow> False | Some w \<Rightarrow> py_eq v w"
    if "(k, v) \<in> set d" for k v
  proof -
    from that assms(1) have "map_of d k = Some v" by (simp add: map_of_distinct_SomeI)
    with assms(3) obtain w where w: "map_of values k = Some w" "v = jsort w" by auto
    then have "wf_json w" using assms(2) by (force simp: list_all_iff dest: map_of_SomeD)
    with w show ?thesis by (simp add: py_eq_jsort)
  qed
  ultimately show ?thesis by (auto simp: list_all_iff)
qed

lemma load_state_normalised:
  "safe_absolute_path env home p = Inr (r, a) \<Longrightarrow> load_state env home p st = load_state env r a st"
  using safe_absolute_path_again [of env home p r a] by (simp add: load_state_def)

text \<open>The document read back after a write, for a well-formed dictionary of values.\<close>

lemma load_after_write_eq:
  assumes "safe_absolute_path env home p = Inr (r, a)" and "wf_json (JObj values)"
    and "\<not> dhas values ''schema_version''"
  shows "\<exists>d. load_state env home p (atomic_json_write a SCHEMA_VERSION values st) = Inr d \<and>
    ddistinct d \<and> (\<forall>k. map_of d k = map_option jsort (map_of values k))"
proof -
  let ?d = "AList.updates (map fst values) (map snd values) [(''schema_version'', JInt SCHEMA_VERSION)]"
  let ?f = "filter (\<lambda>(k, _). k \<noteq> ''schema_version'') (sort_dict ?d)"
  have wf: "ddistinct values" using assms(2) by simp
  have dist: "ddistinct ?d" by (rule ddistinct_updates) (simp add: ddistinct_def)
  then have dist_s: "ddistinct (sort_dict ?d)" by simp
  then have "ddistinct ?f" by (simp add: ddistinct_def distinct_map_filter)
  moreover have "map_of ?f k = map_option jsort (map_of values k)" for k
  proof -
    have "map_of ?f k = (if k = ''schema_version'' then None
        else map_option jsort (map_of ?d k))"
      using dist by (simp add: map_of_filter_key map_of_sort_dict)
    also have "map_of ?d k = (case map_of values k of None \<Rightarrow>
        map_of [(''schema_version'', JInt SCHEMA_VERSION)] k | Some v \<Rightarrow> Some v)"
      using wf by (rule map_of_updates)
    finally show ?thesis using assms(3) by (auto split: option.splits)
  qed
  ultimately show ?thesis
    using load_after_write [OF assms(1) wf assms(3), of st] by blast
qed

lemma save_then_load:
  assumes "save_state env home p values SCHEMA_VERSION st = Inr st'" and "wf_json (JObj values)"
  shows "\<exists>d. load_state env home p st' = Inr d \<and> ddistinct d \<and>
    (\<forall>k. map_of d k = map_option jsort (map_of values k))"
proof -
  from assms(1) obtain r a where "safe_absolute_path env home p = Inr (r, a)"
    and "\<not> dhas values ''schema_version''"
    and "st' = atomic_json_write a SCHEMA_VERSION values st"
    by (auto simp: save_state_def err_simps split: if_splits)
  with load_after_write_eq [OF _ assms(2), of env home p r a st] show ?thesis by blast
qed

lemma saved_file:
  "save_state env home p values v st = Inr st' \<Longrightarrow> is_file st' (abspath p)"
  by (auto simp: save_state_def err_simps safe_absolute_path_Inr atomic_json_write_def is_file_def
      split: if_splits)

section \<open>Properties\<close>

text \<open>
  C36: saving a document and loading it back returns the saved values (each with its object keys
  sorted, which Python's equality does not see), whatever was stored there before.
\<close>

theorem save_load_roundtrip:
  assumes "save_state env home p values SCHEMA_VERSION st = Inr st'" and "wf_json (JObj values)"
  shows "\<exists>d. load_state env home p st' = Inr d \<and> dict_eq d values \<and>
    (\<forall>k. map_of d k = map_option jsort (map_of values k))"
proof -
  from save_then_load [OF assms] obtain d
    where d: "load_state env home p st' = Inr d" "ddistinct d"
      "\<forall>k. map_of d k = map_option jsort (map_of values k)" by blast
  have "dict_eq d values" by (rule dict_eq_jsorted) (use d assms(2) in auto)
  with d show ?thesis by blast
qed

theorem save_load_roundtrip_witness:
  "\<exists>d. load_state \<lparr>redirected = (\<lambda>_. False), lock_busy = (\<lambda>_. False)\<rparr> [''r''] [''r'', ''a'']
     (the_right (save_state \<lparr>redirected = (\<lambda>_. False), lock_busy = (\<lambda>_. False)\<rparr> [''r'']
       [''r'', ''a''] [(''k'', JInt 1)] SCHEMA_VERSION Map.empty)) = Inr d \<and>
   map_of d ''k'' = Some (JInt 1)"
proof -
  let ?env = "\<lparr>redirected = (\<lambda>_. False), lock_busy = (\<lambda>_. False)\<rparr>"
  have saved: "save_state ?env [''r''] [''r'', ''a''] [(''k'', JInt 1)] SCHEMA_VERSION Map.empty =
    Inr (atomic_json_write [''r'', ''a''] SCHEMA_VERSION [(''k'', JInt 1)] Map.empty)"
    by (simp add: save_state_def safe_absolute_path_def abspath_def strictly_below_def
        check_schema_def no_redirects Let_def)
  have "wf_json (JObj [(''k'', JInt 1)])" by (simp add: ddistinct_def)
  from save_load_roundtrip [OF saved this] show ?thesis
    unfolding saved by auto
qed



end
