(* ===== verification/MonitorState.thy ===== *)
theory MonitorState
  imports StateStore StallDetector
begin

text \<open>
  \<open>scripts/monitor_state.py\<close>, \<open>monitor_target.py\<close> and \<open>activity_epoch.py\<close>: the strict reader of
  a persisted session document (every field checked, a wrong one is \<open>CorruptStateError\<close>), and the
  field updates the watcher performs on it. \<open>resolve_rollout_path\<close> of \<open>watcher_source.py\<close> is
  here because the reader calls it. Wall-clock instants are reals (seconds); parsing and printing
  ISO-8601 text (\<open>datetime.fromisoformat\<close>, \<open>isoformat\<close>) and SHA-256 are the parameters of
  \<open>pylib\<close>. Quotients \<open>ms / 1000\<close> are exact (no floating-point rounding).
\<close>

section \<open>Standard library parameters\<close>

record pylib =
  sha :: hash
  fromiso :: "string \<Rightarrow> time option"
  toiso :: "time \<Rightarrow> string"

section \<open>Targets\<close>

record monitor_target =
  target_id :: "string option"
  generation :: int
  mt_terminal :: bool
  mt_open_tool_count :: int
  mt_waiting_for_approval :: bool
  mt_waiting_for_user :: bool
  progress_epoch :: int
  started_at :: "time option"

record runtime_target =
  session_id :: string
  runtime_file :: path
  rollout_file :: path
  parent_turn_id :: "string option"
  rt_parent_complete :: bool
  rt_thresholds :: thresholds
  turn_activity :: int
  revision :: int
  rt_parent :: "monitor_target option"
  rt_children :: "monitor_target list"

definition targets :: "runtime_target \<Rightarrow> monitor_target list" where
  "targets t = (case rt_parent t of None \<Rightarrow> rt_children t | Some m \<Rightarrow> m # rt_children t)"

section \<open>Field readers\<close>

definition bad_value :: "path \<Rightarrow> exn" where
  "bad_value p = CorruptStateError p INVALID_VALUE"

definition get_string :: "dict \<Rightarrow> string \<Rightarrow> path \<Rightarrow> exn + string" where
  "get_string values key p =
     (case dget values key of
        JStr s \<Rightarrow> if s = [] then Inl (bad_value p) else Inr s
      | _ \<Rightarrow> Inl (bad_value p))"

definition get_boolean :: "dict \<Rightarrow> string \<Rightarrow> path \<Rightarrow> exn + bool" where
  "get_boolean values key p =
     (case dget values key of JBool b \<Rightarrow> Inr b | _ \<Rightarrow> Inl (bad_value p))"

definition get_optional_integer :: "dict \<Rightarrow> string \<Rightarrow> path \<Rightarrow> int \<Rightarrow> exn + int" where
  "get_optional_integer values key p dflt =
     (case dget_or values key (JInt dflt) of
        JInt i \<Rightarrow> if i < 0 then Inl (bad_value p) else Inr i
      | _ \<Rightarrow> Inl (bad_value p))"

definition get_integer :: "dict \<Rightarrow> string \<Rightarrow> path \<Rightarrow> int \<Rightarrow> exn + int" where
  "get_integer values key p minimum =
     (case dget values key of
        JInt i \<Rightarrow> if i < minimum then Inl (bad_value p) else Inr i
      | _ \<Rightarrow> Inl (bad_value p))"

definition get_optional_datetime :: "pylib \<Rightarrow> dict \<Rightarrow> string \<Rightarrow> path \<Rightarrow> exn + time option" where
  "get_optional_datetime lib values key p =
     (case dget values key of
        JNull \<Rightarrow> Inr None
      | JStr s \<Rightarrow> (case fromiso lib s of None \<Rightarrow> Inl (bad_value p) | Some t \<Rightarrow> Inr (Some t))
      | _ \<Rightarrow> Inl (bad_value p))"

definition target_monitor ::
  "pylib \<Rightarrow> dict \<Rightarrow> string option \<Rightarrow> path \<Rightarrow> exn + monitor_target" where
  "target_monitor lib values tid p =
     ebind (get_string values ''status'' p) (\<lambda>status.
     if status \<notin> {''running'', ''terminal''} then Inl (bad_value p)
     else
       ebind (get_integer values ''generation'' p 1) (\<lambda>gen.
       ebind (get_integer values ''open_tool_count'' p 0) (\<lambda>tools.
       ebind (get_boolean values ''waiting_for_approval'' p) (\<lambda>approval.
       ebind (get_boolean values ''waiting_for_user'' p) (\<lambda>user.
       ebind (get_optional_integer values ''progress_epoch'' p 0) (\<lambda>ep.
       ebind (get_optional_datetime lib values ''silence_started_at'' p) (\<lambda>since.
       Inr \<lparr>target_id = tid, generation = gen, mt_terminal = (status = ''terminal''),
            mt_open_tool_count = tools, mt_waiting_for_approval = approval,
            mt_waiting_for_user = user, progress_epoch = ep, started_at = since\<rparr>)))))))"

definition target_parent :: "pylib \<Rightarrow> dict \<Rightarrow> path \<Rightarrow> exn + monitor_target option" where
  "target_parent lib values p =
     (case dget values ''parent'' of
        JNull \<Rightarrow> Inr None
      | JObj d \<Rightarrow> ebind (target_monitor lib d None p) (\<lambda>m. Inr (Some m))
      | _ \<Rightarrow> Inl (bad_value p))"

definition target_child :: "pylib \<Rightarrow> path \<Rightarrow> string \<times> json \<Rightarrow> exn + monitor_target" where
  "target_child lib p kv =
     (case kv of
        (k, JObj d) \<Rightarrow> if k = [] then Inl (bad_value p) else target_monitor lib d (Some k) p
      | _ \<Rightarrow> Inl (bad_value p))"

definition target_children :: "pylib \<Rightarrow> dict \<Rightarrow> path \<Rightarrow> exn + monitor_target list" where
  "target_children lib values p =
     (case dget values ''children'' of
        JObj d \<Rightarrow> emap (target_child lib p) d
      | _ \<Rightarrow> Inl (bad_value p))"

section \<open>Rollout containment\<close>

definition posix_parts :: "string \<Rightarrow> path" where
  "posix_parts s = filter (\<lambda>c. c \<noteq> '''' \<and> c \<noteq> ''.'') (split_on (CHR ''/'') s)"

definition is_absolute :: "string \<Rightarrow> bool" where
  "is_absolute s \<longleftrightarrow> s \<noteq> [] \<and> hd s = CHR ''/''"

definition resolve_rollout_path :: "fs_env \<Rightarrow> path \<Rightarrow> string \<Rightarrow> exn + path" where
  "resolve_rollout_path env home stored =
     (let codex_home = abspath (butlast home)
      in if is_absolute stored then Inl (UnsafeRolloutPathError [stored])
         else
           let absolute = abspath (codex_home @ posix_parts stored)
           in if \<not> strictly_below codex_home absolute
              then Inl (UnsafeRolloutPathError absolute)
              else (case List.find (redirected env) (tl (components_from codex_home absolute)) of
                      Some current \<Rightarrow> Inl (UnsafeRolloutPathError current)
                    | None \<Rightarrow> Inr absolute))"

section \<open>The reader\<close>

definition critical_ms :: "dict \<Rightarrow> path \<Rightarrow> exn + int" where
  "critical_ms values p =
     (let v = (if dget values ''critical_after_ms'' = JNull
               then dget values ''restart_after_ms'' else dget values ''critical_after_ms'')
      in case v of
           JInt i \<Rightarrow> if i < 1 then Inl (bad_value p) else Inr i
         | _ \<Rightarrow> Inl (bad_value p))"

definition parse_thresholds :: "int \<Rightarrow> int \<Rightarrow> path \<Rightarrow> exn + thresholds" where
  "parse_thresholds warning_ms critical_value p =
     (case mk_thresholds (Fin (real_of_int warning_ms / 1000))
             (Fin (real_of_int critical_value / 1000)) of
        Inl _ \<Rightarrow> Inl (bad_value p)
      | Inr th \<Rightarrow> Inr th)"

definition parse_parent_turn :: "dict \<Rightarrow> path \<Rightarrow> exn + string option" where
  "parse_parent_turn values p =
     (case dget values ''parent_turn_id'' of
        JNull \<Rightarrow> Inr None | JStr s \<Rightarrow> Inr (Some s) | _ \<Rightarrow> Inl (bad_value p))"

definition runtime_target_from_values ::
  "pylib \<Rightarrow> fs_env \<Rightarrow> path \<Rightarrow> path \<Rightarrow> dict \<Rightarrow> exn + runtime_target" where
  "runtime_target_from_values lib env home p values =
     ebind (get_string values ''session_id'' p) (\<lambda>sid.
     if runtime_path (sha lib) home sid \<noteq> p then Inl (bad_value p)
     else
       ebind (get_string values ''transcript_path'' p) (\<lambda>transcript.
       ebind (parse_parent_turn values p) (\<lambda>turn.
       ebind (get_integer values ''warning_after_ms'' p 1) (\<lambda>warning_ms.
       ebind (critical_ms values p) (\<lambda>critical_value.
       ebind (parse_thresholds warning_ms critical_value p) (\<lambda>th.
           ebind (resolve_rollout_path env home transcript) (\<lambda>rollout.
           ebind (get_boolean values ''parent_complete'' p) (\<lambda>complete.
           ebind (get_optional_integer values ''turn_activity_epoch'' p 0) (\<lambda>activity.
           ebind (get_optional_integer values ''revision'' p 0) (\<lambda>rev.
           ebind (target_parent lib values p) (\<lambda>parent.
           ebind (target_children lib values p) (\<lambda>kids.
           Inr \<lparr>session_id = sid, runtime_file = p, rollout_file = rollout,
                parent_turn_id = turn, rt_parent_complete = complete, rt_thresholds = th,
                turn_activity = activity, revision = rev, rt_parent = parent,
                rt_children = kids\<rparr>))))))))))))"

section \<open>Updates\<close>

definition claim_completion :: "dict \<Rightarrow> string \<Rightarrow> path \<Rightarrow> exn + bool \<times> dict" where
  "claim_completion values event p =
     (case dget values ''completion_event_id'' of
        JNull \<Rightarrow> Inr (True, dset ''completion_event_id'' (JStr event) values)
      | JStr s \<Rightarrow> if s = event then Inr (False, values)
                  else Inr (True, dset ''completion_event_id'' (JStr event) values)
      | _ \<Rightarrow> Inl (bad_value p))"

text \<open>The monitor of a target, as both update functions look it up, and its replacement.\<close>

definition raw_target :: "dict \<Rightarrow> string option \<Rightarrow> path \<Rightarrow> exn + dict" where
  "raw_target values tid p =
     (case tid of
        None \<Rightarrow> (case dget values ''parent'' of JObj d \<Rightarrow> Inr d | _ \<Rightarrow> Inl (bad_value p))
      | Some k \<Rightarrow>
          (case dget values ''children'' of
             JObj cs \<Rightarrow> (case dget cs k of JObj d \<Rightarrow> Inr d | _ \<Rightarrow> Inl (bad_value p))
           | _ \<Rightarrow> Inl (bad_value p)))"

definition put_target :: "dict \<Rightarrow> string option \<Rightarrow> dict \<Rightarrow> dict" where
  "put_target values tid m =
     (case tid of
        None \<Rightarrow> dset ''parent'' (JObj m) values
      | Some k \<Rightarrow>
          (case dget values ''children'' of
             JObj cs \<Rightarrow> dset ''children'' (JObj (dset k (JObj m) cs)) values
           | _ \<Rightarrow> values))"

definition mark_target_terminal :: "dict \<Rightarrow> string option \<Rightarrow> path \<Rightarrow> exn + bool \<times> dict" where
  "mark_target_terminal values tid p =
     ebind (raw_target values tid p) (\<lambda>m.
     if dget m ''status'' = JStr ''terminal'' then Inr (False, values)
     else if dget m ''status'' \<noteq> JStr ''running'' then Inl (bad_value p)
     else Inr (True, put_target values tid (dset ''status'' (JStr ''terminal'') m)))"

definition advance_target_progress_epoch ::
  "pylib \<Rightarrow> dict \<Rightarrow> string option \<Rightarrow> path \<Rightarrow> time \<Rightarrow> exn + dict" where
  "advance_target_progress_epoch lib values tid p observed_at =
     ebind (raw_target values tid p) (\<lambda>m.
     ebind (get_optional_integer m ''progress_epoch'' p 0) (\<lambda>epoch.
     Inr (put_target values tid
       (dset ''silence_started_at'' (JStr (toiso lib observed_at))
         (dset ''progress_epoch'' (JInt (epoch + 1)) m)))))"

definition mark_parent_complete :: "dict \<Rightarrow> path \<Rightarrow> exn + bool \<times> dict" where
  "mark_parent_complete values p =
     ebind (get_boolean values ''parent_complete'' p) (\<lambda>completed.
     if completed then Inr (False, values)
     else Inr (True, dset ''parent_complete'' (JBool True) values))"

text \<open>\<open>scripts/activity_epoch.py\<close>\<close>

definition turn_activity_epoch :: "dict \<Rightarrow> path \<Rightarrow> exn + int" where
  "turn_activity_epoch values p = get_optional_integer values ''turn_activity_epoch'' p 0"

definition advance_turn_activity_epoch :: "dict \<Rightarrow> path \<Rightarrow> exn + dict" where
  "advance_turn_activity_epoch values p =
     ebind (turn_activity_epoch values p) (\<lambda>epoch.
     Inr (dset ''turn_activity_epoch'' (JInt (epoch + 1)) values))"

definition persist_turn_activity :: "dict \<Rightarrow> path \<Rightarrow> bool \<Rightarrow> exn + dict" where
  "persist_turn_activity values p observed =
     (if observed then advance_turn_activity_epoch values p else Inr values)"

definition advance_monitor_progress_epoch :: "dict \<Rightarrow> path \<Rightarrow> exn + dict" where
  "advance_monitor_progress_epoch m p =
     ebind (get_optional_integer m ''progress_epoch'' p 0) (\<lambda>epoch.
     Inr (dset ''progress_epoch'' (JInt (epoch + 1)) m))"

section \<open>Frame lemmas of the readers\<close>

lemma get_frame [simp, dict_simps]:
  "key \<noteq> k \<Longrightarrow> get_string (dset k v d) key p = get_string d key p"
  "key \<noteq> k \<Longrightarrow> get_boolean (dset k v d) key p = get_boolean d key p"
  "key \<noteq> k \<Longrightarrow> get_integer (dset k v d) key p n = get_integer d key p n"
  "key \<noteq> k \<Longrightarrow> get_optional_integer (dset k v d) key p n = get_optional_integer d key p n"
  "key \<noteq> k \<Longrightarrow> get_optional_datetime lib (dset k v d) key p = get_optional_datetime lib d key p"
  by (simp_all add: get_string_def get_boolean_def get_integer_def get_optional_integer_def
      get_optional_datetime_def)

lemma get_updated [simp, dict_simps]:
  "get_string (dset k (JStr s) d) k p = (if s = [] then Inl (bad_value p) else Inr s)"
  "get_boolean (dset k (JBool b) d) k p = Inr b"
  "get_integer (dset k (JInt i) d) k p n = (if i < n then Inl (bad_value p) else Inr i)"
  "get_optional_integer (dset k (JInt i) d) k p n = (if i < 0 then Inl (bad_value p) else Inr i)"
  by (simp_all add: get_string_def get_boolean_def get_integer_def get_optional_integer_def)

lemma other_frame [simp, dict_simps]:
  "k \<noteq> ''parent'' \<Longrightarrow> target_parent lib (dset k v d) p = target_parent lib d p"
  "k \<noteq> ''children'' \<Longrightarrow> target_children lib (dset k v d) p = target_children lib d p"
  "k \<noteq> ''critical_after_ms'' \<Longrightarrow> k \<noteq> ''restart_after_ms'' \<Longrightarrow>
     critical_ms (dset k v d) p = critical_ms d p"
  "k \<noteq> ''parent_turn_id'' \<Longrightarrow> parse_parent_turn (dset k v d) p = parse_parent_turn d p"
  by (simp_all add: target_parent_def target_children_def critical_ms_def parse_parent_turn_def)

lemma get_optional_integer_Inr:
  "get_optional_integer d k p n = Inr i \<Longrightarrow> 0 \<le> i"
  by (auto simp: get_optional_integer_def split: json.splits if_splits)

section \<open>Reading a changed document\<close>

definition on_monitor ::
  "string option \<Rightarrow> (monitor_target \<Rightarrow> monitor_target) \<Rightarrow> runtime_target \<Rightarrow> runtime_target" where
  "on_monitor tid f t =
     (case tid of
        None \<Rightarrow> t\<lparr>rt_parent := map_option f (rt_parent t)\<rparr>
      | Some k \<Rightarrow>
          t\<lparr>rt_children := map (\<lambda>m. if target_id m = Some k then f m else m) (rt_children t)\<rparr>)"

text \<open>A document is readable as \<open>t\<close> exactly when each field reads as the field of \<open>t\<close>.\<close>

lemma runtime_target_iff:
  "runtime_target_from_values lib env home p values = Inr t \<longleftrightarrow>
     get_string values ''session_id'' p = Inr (session_id t) \<and>
     runtime_path (sha lib) home (session_id t) = p \<and> runtime_file t = p \<and>
     (\<exists>tr. get_string values ''transcript_path'' p = Inr tr \<and>
        resolve_rollout_path env home tr = Inr (rollout_file t)) \<and>
     parse_parent_turn values p = Inr (parent_turn_id t) \<and>
     (\<exists>w c. get_integer values ''warning_after_ms'' p 1 = Inr w \<and> critical_ms values p = Inr c \<and>
        parse_thresholds w c p = Inr (rt_thresholds t)) \<and>
     get_boolean values ''parent_complete'' p = Inr (rt_parent_complete t) \<and>
     get_optional_integer values ''turn_activity_epoch'' p 0 = Inr (turn_activity t) \<and>
     get_optional_integer values ''revision'' p 0 = Inr (revision t) \<and>
     target_parent lib values p = Inr (rt_parent t) \<and>
     target_children lib values p = Inr (rt_children t)"
  by (cases t) (auto simp: runtime_target_from_values_def err_simps)

lemma target_monitor_id: "target_monitor lib d tid p = Inr m \<Longrightarrow> target_id m = tid"
  by (auto simp: target_monitor_def err_simps split: if_splits)

lemma target_child_id: "target_child lib p (k, v) = Inr m \<Longrightarrow> target_id m = Some k"
  by (auto simp: target_child_def split: json.splits if_splits dest: target_monitor_id)

lemma emap_child_update:
  assumes "emap (target_child lib p) d = Inr ms" and "ddistinct d" and "k \<in> fst ` set d"
    and "target_child lib p (k, v) = Inr m"
  shows "emap (target_child lib p) (dset k v d) =
    Inr (map (\<lambda>x. if target_id x = Some k then m else x) ms)"
  using assms(1-3)
proof (induction d arbitrary: ms)
  case Nil
  then show ?case by simp
next
  case (Cons kv d)
  obtain k' v' where kv: "kv = (k', v')" by (cases kv)
  from Cons.prems(1) obtain x xs where x: "target_child lib p kv = Inr x"
    and xs: "emap (target_child lib p) d = Inr xs" and ms: "ms = x # xs"
    by (auto simp: err_simps)
  have id: "target_id x = Some k'" using x kv by (simp add: target_child_id)
  show ?case
  proof (cases "k' = k")
    case True
    have "target_id y \<noteq> Some k" if "y \<in> set xs" for y
    proof -
      from emap_preimage [OF xs that] obtain kv'
        where "kv' \<in> set d" "target_child lib p kv' = Inr y" by blast
      then have "target_id y = Some (fst kv')" by (metis prod.collapse target_child_id)
      with \<open>kv' \<in> set d\<close> Cons.prems(2) kv True show ?thesis
        by (auto simp: ddistinct_def)
    qed
    then have "map (\<lambda>x. if target_id x = Some k then m else x) xs = xs"
      by (simp add: map_idI)
    with True kv ms id xs assms(4) show ?thesis by simp
  next
    case False
    with Cons.IH [OF xs] Cons.prems kv x ms id show ?thesis
      by (auto simp: ddistinct_def)
  qed
qed

lemma raw_target_of:
  assumes "runtime_target_from_values lib env home p values = Inr t"
    and "wf_json (JObj values)" and "m \<in> set (targets t)"
  shows "\<exists>d. raw_target values (target_id m) p = Inr d \<and>
    target_monitor lib d (target_id m) p = Inr m"
proof -
  from assms(1) have par: "target_parent lib values p = Inr (rt_parent t)"
    and kids: "target_children lib values p = Inr (rt_children t)"
    by (simp_all add: runtime_target_iff)
  from assms(3) consider (parent) "rt_parent t = Some m" | (child) "m \<in> set (rt_children t)"
    by (auto simp: targets_def split: option.splits)
  then show ?thesis
  proof cases
    case parent
    with par show ?thesis
      by (auto simp: target_parent_def raw_target_def err_simps target_monitor_id
          split: json.splits)
  next
    case child
    from kids obtain cs where cs: "dget values ''children'' = JObj cs"
      and em: "emap (target_child lib p) cs = Inr (rt_children t)"
      by (auto simp: target_children_def split: json.splits)
    from emap_preimage [OF em child] obtain k v
      where kv: "(k, v) \<in> set cs" "target_child lib p (k, v) = Inr m" by auto
    have "ddistinct cs"
      using wf_json_dget_obj [OF assms(2) cs] by simp
    with kv have "map_of cs k = Some v" by (simp add: map_of_distinct_SomeI)
    with kv cs show ?thesis
      by (auto simp: raw_target_def dget_def target_child_id target_child_def
          split: json.splits if_splits)
  qed
qed

lemma put_target_parse:
  assumes "runtime_target_from_values lib env home p values = Inr t"
    and "wf_json (JObj values)" and "raw_target values tid p = Inr d0"
    and "target_monitor lib d tid p = Inr m"
  shows "runtime_target_from_values lib env home p (put_target values tid d) =
    Inr (on_monitor tid (\<lambda>_. m) t)"
proof (cases tid)
  case None
  with assms(1,3,4) show ?thesis
    by (cases "rt_parent t")
      (auto simp: runtime_target_iff put_target_def on_monitor_def raw_target_def
        target_parent_def err_simps split: json.splits)
next
  case (Some k)
  with assms(3) obtain cs where cs: "dget values ''children'' = JObj cs"
    and k: "dget cs k = JObj d0"
    by (auto simp: raw_target_def split: json.splits)
  from assms(1) cs have kids: "emap (target_child lib p) cs = Inr (rt_children t)"
    by (simp add: runtime_target_iff target_children_def)
  have "ddistinct cs"
    using wf_json_dget_obj [OF assms(2) cs] by simp
  moreover have kin: "k \<in> fst ` set cs"
    using k by (auto simp: dget_def split: option.splits dest: map_of_SomeD intro: rev_image_eqI)
  moreover have "k \<noteq> []"
  proof
    assume "k = []"
    with kin obtain v where "([], v) \<in> set cs" by auto
    with emap_image [OF kids] show False
      by (force simp: target_child_def split: json.splits)
  qed
  then have "target_child lib p (k, JObj d) = Inr m"
    using assms(4) Some by (simp add: target_child_def)
  ultimately have "emap (target_child lib p) (dset k (JObj d) cs) =
      Inr (map (\<lambda>x. if target_id x = Some k then m else x) (rt_children t))"
    using kids by (intro emap_child_update)
  with assms(1) Some cs show ?thesis
    by (auto simp: runtime_target_iff put_target_def on_monitor_def target_children_def)
qed

lemma target_monitor_iff:
  "target_monitor lib d tid p = Inr m \<longleftrightarrow>
     (\<exists>status. get_string d ''status'' p = Inr status \<and> status \<in> {''running'', ''terminal''} \<and>
        mt_terminal m = (status = ''terminal'')) \<and>
     target_id m = tid \<and> get_integer d ''generation'' p 1 = Inr (generation m) \<and>
     get_integer d ''open_tool_count'' p 0 = Inr (mt_open_tool_count m) \<and>
     get_boolean d ''waiting_for_approval'' p = Inr (mt_waiting_for_approval m) \<and>
     get_boolean d ''waiting_for_user'' p = Inr (mt_waiting_for_user m) \<and>
     get_optional_integer d ''progress_epoch'' p 0 = Inr (progress_epoch m) \<and>
     get_optional_datetime lib d ''silence_started_at'' p = Inr (started_at m)"
  by (cases m) (auto simp: target_monitor_def err_simps)

lemma target_monitor_terminal:
  "target_monitor lib d tid p = Inr m \<Longrightarrow>
   target_monitor lib (dset ''status'' (JStr ''terminal'') d) tid p = Inr (m\<lparr>mt_terminal := True\<rparr>)"
  by (auto simp: target_monitor_iff)

lemma target_monitor_status:
  "target_monitor lib d tid p = Inr m \<Longrightarrow>
   dget d ''status'' = JStr (if mt_terminal m then ''terminal'' else ''running'')"
  by (auto simp: target_monitor_iff get_string_def split: json.splits if_splits)

lemma target_monitor_progress:
  assumes "target_monitor lib d tid p = Inr m" and "fromiso lib (toiso lib t) = Some t"
  shows "get_optional_integer d ''progress_epoch'' p 0 = Inr (progress_epoch m)"
    and "target_monitor lib (dset ''silence_started_at'' (JStr (toiso lib t))
      (dset ''progress_epoch'' (JInt (progress_epoch m + 1)) d)) tid p =
      Inr (m\<lparr>progress_epoch := progress_epoch m + 1, started_at := Some t\<rparr>)"
proof -
  show "get_optional_integer d ''progress_epoch'' p 0 = Inr (progress_epoch m)"
    using assms(1) by (simp add: target_monitor_iff)
  then have "0 \<le> progress_epoch m" by (rule get_optional_integer_Inr)
  with assms show "target_monitor lib (dset ''silence_started_at'' (JStr (toiso lib t))
      (dset ''progress_epoch'' (JInt (progress_epoch m + 1)) d)) tid p =
      Inr (m\<lparr>progress_epoch := progress_epoch m + 1, started_at := Some t\<rparr>)"
    by (auto simp: target_monitor_iff get_optional_datetime_def)
qed

lemma resolved_rollout:
  assumes "resolve_rollout_path env home stored = Inr q"
  shows "strictly_below (abspath (butlast home)) q"
    and "q = abspath (abspath (butlast home) @ posix_parts stored)"
    and "\<forall>c \<in> set (tl (components_from (abspath (butlast home)) q)). \<not> redirected env c"
  using assms
    find_None_iff [of "redirected env" "tl (components_from (abspath (butlast home)) q)"]
  by (auto simp: resolve_rollout_path_def Let_def split: if_splits option.splits)

lemma strict_prefix_component:
  assumes "strict_prefix h c" and "prefix c q"
  shows "c \<in> set (tl (components_from h q))"
proof -
  from assms obtain x xs ys where c: "c = h @ x # xs" and q: "q = c @ ys"
    by (metis prefix_def strict_prefixE')
  have 1: "c = (\<lambda>n. h @ take n (drop (length h) q)) (Suc (length xs))" using c q by simp
  have 2: "Suc (length xs) \<in> set [Suc 0 ..< Suc (length q - length h)]"
    using c q by (simp del: upt_Suc)
  have 3: "tl (components_from h q) =
      map (\<lambda>n. h @ take n (drop (length h) q)) [Suc 0 ..< Suc (length q - length h)]"
    unfolding components_from_def by (subst upt_conv_Cons) simp_all
  show ?thesis unfolding 3 set_map using 1 2 by (rule image_eqI)
qed

section \<open>Properties\<close>

text \<open>
  A persisted transcript path never leads the watcher outside the Codex home: a resolved rollout
  path lies strictly below it, contains no \<open>..\<close> or empty component, and no directory between the
  home and the file (nor the file) is a symbolic link or junction.
\<close>

theorem rollout_stays_below_home:
  assumes "resolve_rollout_path env home stored = Inr q"
  shows "strict_prefix (abspath (butlast home)) q \<and> {'''', ''.'', ''..''} \<inter> set q = {} \<and>
    (\<forall>c. strict_prefix (abspath (butlast home)) c \<and> prefix c q \<longrightarrow> \<not> redirected env c)"
  using resolved_rollout [OF assms] abspath_clean strict_prefix_component
  by (metis strictly_below_def strict_prefixI)

theorem rollout_stays_below_home_witness:
  "resolve_rollout_path \<lparr>redirected = (\<lambda>_. False), lock_busy = (\<lambda>_. False)\<rparr> [''h'', ''c'', ''p'']
     ''s/../t/x.jsonl'' = Inr [''h'', ''c'', ''t'', ''x.jsonl''] \<and>
   strict_prefix [''h'', ''c''] [''h'', ''c'', ''t'', ''x.jsonl'']"
proof -
  have r: "resolve_rollout_path \<lparr>redirected = (\<lambda>_. False), lock_busy = (\<lambda>_. False)\<rparr>
      [''h'', ''c'', ''p''] ''s/../t/x.jsonl'' = Inr [''h'', ''c'', ''t'', ''x.jsonl'']"
    by (simp add: resolve_rollout_path_def is_absolute_def abspath_def posix_parts_def
        strictly_below_def components_from_def numeral_2_eq_2 Let_def)
  from rollout_stays_below_home [OF r] r show ?thesis by (simp add: abspath_def)
qed

text \<open>
  Marking a target terminal in the persisted document is exactly the abstract update on the
  parsed session: it succeeds for every target of a readable document, reports whether the target
  was running, and the document it leaves is readable as the same session with that target terminal.
\<close>

theorem mark_terminal_refines:
  assumes "runtime_target_from_values lib env home p values = Inr t"
    and "wf_json (JObj values)" and "m \<in> set (targets t)"
  shows "\<exists>values'. mark_target_terminal values (target_id m) p = Inr (\<not> mt_terminal m, values') \<and>
    runtime_target_from_values lib env home p values' =
      Inr (if mt_terminal m then t
           else on_monitor (target_id m) (\<lambda>_. m\<lparr>mt_terminal := True\<rparr>) t)"
proof -
  from raw_target_of [OF assms] obtain d where d: "raw_target values (target_id m) p = Inr d"
    and tm: "target_monitor lib d (target_id m) p = Inr m" by blast
  show ?thesis
    using assms(1) d target_monitor_status [OF tm]
      put_target_parse [OF assms(1,2) d target_monitor_terminal [OF tm]]
    by (cases "mt_terminal m") (simp_all add: mark_target_terminal_def)
qed

text \<open>
  Recording rollout progress for a target succeeds on every target of a readable document and
  leaves the same session with that target's progress epoch advanced by one and its silence anchored
  at the observation time (printing and parsing an instant are inverse, as for ISO text).
\<close>

theorem advance_progress_refines:
  assumes "runtime_target_from_values lib env home p values = Inr t"
    and "wf_json (JObj values)" and "m \<in> set (targets t)"
    and "fromiso lib (toiso lib seen) = Some seen"
  shows "\<exists>values'. advance_target_progress_epoch lib values (target_id m) p seen = Inr values' \<and>
    runtime_target_from_values lib env home p values' =
      Inr (on_monitor (target_id m)
        (\<lambda>_. m\<lparr>progress_epoch := progress_epoch m + 1, started_at := Some seen\<rparr>) t)"
proof -
  from raw_target_of [OF assms(1-3)] obtain d where d: "raw_target values (target_id m) p = Inr d"
    and tm: "target_monitor lib d (target_id m) p = Inr m" by blast
  show ?thesis
    using d target_monitor_progress [OF tm assms(4)] put_target_parse [OF assms(1,2) d]
    by (simp add: advance_target_progress_epoch_def)
qed

section \<open>A concrete session\<close>

definition ex_lib :: pylib where
  "ex_lib = \<lparr>sha = (\<lambda>s. s), fromiso = (\<lambda>s. Some (real (length s))),
             toiso = (\<lambda>t. replicate (nat \<lfloor>t\<rfloor>) (CHR ''0''))\<rparr>"

definition ex_env :: fs_env where
  "ex_env = \<lparr>redirected = (\<lambda>_. False), lock_busy = (\<lambda>_. False)\<rparr>"

definition ex_monitor :: dict where
  "ex_monitor = [(''status'', JStr ''running''), (''generation'', JInt 1),
     (''open_tool_count'', JInt 0), (''waiting_for_approval'', JBool False),
     (''waiting_for_user'', JBool False), (''progress_epoch'', JInt 0)]"

definition ex_values :: dict where
  "ex_values = [(''session_id'', JStr ''s''), (''enabled'', JBool True),
     (''transcript_path'', JStr ''t.jsonl''), (''parent_turn_id'', JStr ''u''),
     (''warning_after_ms'', JInt 300000), (''critical_after_ms'', JInt 600000),
     (''parent_complete'', JBool False), (''revision'', JInt 3),
     (''parent'', JObj ex_monitor), (''children'', JObj [(''c'', JObj ex_monitor)])]"

definition ex_target_monitor :: "string option \<Rightarrow> monitor_target" where
  "ex_target_monitor tid = \<lparr>target_id = tid, generation = 1, mt_terminal = False,
     mt_open_tool_count = 0, mt_waiting_for_approval = False, mt_waiting_for_user = False,
     progress_epoch = 0, started_at = None\<rparr>"

definition ex_target :: runtime_target where
  "ex_target = \<lparr>session_id = ''s'', runtime_file = [''h'', ''p'', ''runtime'', ''s.json''],
     rollout_file = [''h'', ''t.jsonl''], parent_turn_id = Some ''u'', rt_parent_complete = False,
     rt_thresholds = \<lparr>warning = 300, critical = 600\<rparr>, turn_activity = 0, revision = 3,
     rt_parent = Some (ex_target_monitor None), rt_children = [ex_target_monitor (Some ''c'')]\<rparr>"

lemma ex_monitor_parse: "target_monitor ex_lib ex_monitor tid p = Inr (ex_target_monitor tid)"
  by (simp add: target_monitor_def ex_monitor_def ex_target_monitor_def get_string_def
      get_integer_def get_boolean_def get_optional_integer_def get_optional_datetime_def)

lemma ex_parse:
  "runtime_target_from_values ex_lib ex_env [''h'', ''p''] [''h'', ''p'', ''runtime'', ''s.json'']
     ex_values = Inr ex_target"
  unfolding runtime_target_iff
  by (simp add: ex_values_def ex_target_def get_string_def get_integer_def get_boolean_def
      get_optional_integer_def parse_parent_turn_def critical_ms_def parse_thresholds_def
      mk_thresholds_def target_parent_def target_children_def target_child_def ex_monitor_parse
      runtime_path_def session_filename_def resolve_rollout_path_def is_absolute_def abspath_def
      posix_parts_def strictly_below_def components_from_def ex_env_def Let_def)
    (simp add: ex_lib_def)

lemma ex_wf: "wf_json (JObj ex_values)"
  by (simp add: ex_values_def ex_monitor_def ddistinct_def)

theorem mark_terminal_refines_witness:
  "\<exists>values'. mark_target_terminal ex_values (Some ''c'') [''h'', ''p'', ''runtime'', ''s.json''] =
     Inr (True, values')"
  using mark_terminal_refines [OF ex_parse ex_wf, of "ex_target_monitor (Some ''c'')"]
  by (auto simp: ex_target_def targets_def ex_target_monitor_def)

theorem advance_progress_refines_witness:
  "\<exists>values'. advance_target_progress_epoch ex_lib ex_values None
     [''h'', ''p'', ''runtime'', ''s.json''] 7 = Inr values' \<and>
   runtime_target_from_values ex_lib ex_env [''h'', ''p''] [''h'', ''p'', ''runtime'', ''s.json'']
     values' = Inr (ex_target\<lparr>rt_parent :=
       Some ((ex_target_monitor None)\<lparr>progress_epoch := 1, started_at := Some 7\<rparr>)\<rparr>)"
  using advance_progress_refines [OF ex_parse ex_wf, of "ex_target_monitor None" 7]
  by (simp add: ex_target_def targets_def ex_target_monitor_def on_monitor_def ex_lib_def)

end
