(* ===== verification/Diagnostics.thy ===== *)
theory Diagnostics
  imports MonitorState Durations
begin

text \<open>
  \<open>scripts/monitor_diagnostics.py\<close> and \<open>watcher_diagnostics.py\<close>: the bounded, rotated,
  deduplicating diagnostic log and the stable event identities. The log is three files of
  ASCII text; a record's text is produced exactly as \<open>json.dumps\<close> with sorted keys and compact
  separators does for this fixed schema. Instants are always time-zone aware in the model.
\<close>

section \<open>Data\<close>

text \<open>
  \<open>scripts/diagnostics.py\<close>, the log of the manager, is the same module with four more codes (and
  without \<open>BOTTLENECK_CRITICAL\<close>); the model has one type with the codes of both.
\<close>

datatype diagnostic_code =
    WATCHER_STARTED | HEARTBEAT_ACTIVE | WATCHER_COMPLETED | OBSERVABLE_PROGRESS_SILENCE
  | BOTTLENECK_CRITICAL | PROGRESS_RECOVERED | DISCORD_NOTIFICATION_FAILED
  | ROLLOUT_CORRUPT | ROLLOUT_ROTATED | STATE_UNAVAILABLE
  | RESTART_REQUESTED | RESTART_PERFORMED | RESTART_UNAVAILABLE | MANAGER_FAILED

fun code_value :: "diagnostic_code \<Rightarrow> string" where
  "code_value WATCHER_STARTED = ''watcher_started''"
| "code_value HEARTBEAT_ACTIVE = ''heartbeat_active''"
| "code_value WATCHER_COMPLETED = ''watcher_completed''"
| "code_value OBSERVABLE_PROGRESS_SILENCE = ''observable_progress_silence''"
| "code_value BOTTLENECK_CRITICAL = ''bottleneck_critical''"
| "code_value PROGRESS_RECOVERED = ''progress_recovered''"
| "code_value DISCORD_NOTIFICATION_FAILED = ''discord_notification_failed''"
| "code_value ROLLOUT_CORRUPT = ''rollout_corrupt''"
| "code_value ROLLOUT_ROTATED = ''rollout_rotated''"
| "code_value STATE_UNAVAILABLE = ''state_unavailable''"
| "code_value RESTART_REQUESTED = ''restart_requested''"
| "code_value RESTART_PERFORMED = ''restart_performed''"
| "code_value RESTART_UNAVAILABLE = ''restart_unavailable''"
| "code_value MANAGER_FAILED = ''manager_failed''"

datatype monitor_status = ACTIVE | PAUSED_STATE | COMPLETED | FAILED_CLOSED

fun status_value :: "monitor_status \<Rightarrow> string" where
  "status_value ACTIVE = ''active''"
| "status_value PAUSED_STATE = ''paused''"
| "status_value COMPLETED = ''completed''"
| "status_value FAILED_CLOSED = ''failed_closed''"

record diagnostic_event =
  dg_occurred_at :: time
  dg_code :: diagnostic_code
  dg_state :: monitor_status
  session_hash :: string
  child_hash :: "string option"
  dg_elapsed_ms :: "int option"
  dg_event_id :: "string option"

definition is_sha256 :: "string \<Rightarrow> bool" where
  "is_sha256 s \<longleftrightarrow> length s = 64 \<and> list_all (\<lambda>c. c \<in> set ''0123456789abcdef'') s"

definition opt_ok :: "('a \<Rightarrow> bool) \<Rightarrow> 'a option \<Rightarrow> bool" where
  "opt_ok P x = (case x of None \<Rightarrow> True | Some v \<Rightarrow> P v)"

text \<open>\<open>DiagnosticEvent.__post_init__\<close>\<close>

definition check_event :: "diagnostic_event \<Rightarrow> exn + diagnostic_event" where
  "check_event e =
     (if \<not> is_sha256 (session_hash e) then Inl (InvalidDiagnosticError ''session_hash_invalid'')
      else if \<not> opt_ok is_sha256 (child_hash e)
      then Inl (InvalidDiagnosticError ''child_hash_invalid'')
      else if \<not> opt_ok (\<lambda>ms. 0 \<le> ms) (dg_elapsed_ms e)
      then Inl (InvalidDiagnosticError ''elapsed_ms_invalid'')
      else if \<not> opt_ok is_sha256 (dg_event_id e)
      then Inl (InvalidDiagnosticError ''event_id_invalid'')
      else Inr e)"

section \<open>Encoding\<close>

text \<open>\<open>isoformat().replace("+00:00", "Z")\<close>\<close>

function zulu :: "string \<Rightarrow> string" where
  "zulu s = (if take 6 s = ''+00:00'' then CHR ''Z'' # zulu (drop 6 s)
             else case s of [] \<Rightarrow> [] | c # cs \<Rightarrow> c # zulu cs)"
  by pat_completeness auto
termination
proof (relation "measure length", goal_cases)
  case (2 s)
  then show ?case by (cases s) auto
qed auto

declare zulu.simps [simp del]

definition show_int :: "int \<Rightarrow> string" where
  "show_int i = (if i < 0 then CHR ''-'' # show_nat (nat (- i)) else show_nat (nat i))"

definition quoted :: "string \<Rightarrow> string" where
  "quoted s = CHR 0x22 # s @ [CHR 0x22]"

definition opt_text :: "string option \<Rightarrow> string" where
  "opt_text x = (case x of None \<Rightarrow> ''null'' | Some s \<Rightarrow> quoted s)"

definition opt_num :: "int option \<Rightarrow> string" where
  "opt_num x = (case x of None \<Rightarrow> ''null'' | Some i \<Rightarrow> show_int i)"

definition member_text :: "string \<Rightarrow> string \<Rightarrow> string" where
  "member_text key v = quoted key @ '':'' @ v"

definition encode_event :: "pylib \<Rightarrow> diagnostic_event \<Rightarrow> string" where
  "encode_event lib e =
     ''{'' @ member_text ''child_hash'' (opt_text (child_hash e)) @
     '','' @ member_text ''code'' (quoted (code_value (dg_code e))) @
     '','' @ member_text ''elapsed_ms'' (opt_num (dg_elapsed_ms e)) @
     '','' @ member_text ''event_id'' (opt_text (dg_event_id e)) @
     '','' @ member_text ''schema_version'' ''1'' @
     '','' @ member_text ''session_hash'' (quoted (session_hash e)) @
     '','' @ member_text ''state'' (quoted (status_value (dg_state e))) @
     '','' @ member_text ''timestamp'' (quoted (zulu (toiso lib (dg_occurred_at e)))) @ ''}'' @
     [CHR 0x0A]"

section \<open>The log\<close>

definition MAX_LOG_BYTES :: nat where
  "MAX_LOG_BYTES = 1048576"

record diag_log =
  log_current :: "string option"
  log_1 :: "string option"
  log_2 :: "string option"

definition log_path :: "path \<Rightarrow> path" where
  "log_path home = abspath home @ [''logs'', ''diagnostic.jsonl'']"

text \<open>The redirect checks of \<open>_diagnostic_path\<close> on the root, the directory and the file.\<close>

definition diagnostic_path :: "fs_env \<Rightarrow> path \<Rightarrow> exn + unit" where
  "diagnostic_path env home =
     (case List.find (redirected env)
        [abspath home, abspath home @ [''logs''], log_path home] of
        Some c \<Rightarrow> Inl (UnsafeDiagnosticPathError c)
      | None \<Rightarrow> Inr ())"

definition complete_bytes :: "string option \<Rightarrow> nat \<Rightarrow> exn + string" where
  "complete_bytes content max_bytes =
     (case content of
        None \<Rightarrow> Inr []
      | Some s \<Rightarrow>
          if length s > max_bytes then Inl (InvalidDiagnosticError ''log_size_invalid'')
          else if s \<noteq> [] \<and> last s = CHR 0x0A then Inr s
          else Inr (rev (dropWhile (\<lambda>c. c \<noteq> CHR 0x0A) (rev s))))"

definition needle_of :: "string \<Rightarrow> string" where
  "needle_of eid = member_text ''event_id'' (quoted eid)"

fun any_contains :: "string \<Rightarrow> string option list \<Rightarrow> exn + bool" where
  "any_contains needle [] = Inr False"
| "any_contains needle (f # fs) =
     ebind (complete_bytes f MAX_LOG_BYTES) (\<lambda>bytes.
     if sublist needle bytes then Inr True else any_contains needle fs)"

definition contains_event_id :: "diag_log \<Rightarrow> string \<Rightarrow> exn + bool" where
  "contains_event_id lg eid = any_contains (needle_of eid) [log_current lg, log_1 lg, log_2 lg]"

definition rotate_log :: "diag_log \<Rightarrow> diag_log" where
  "rotate_log lg = \<lparr>log_current = None, log_1 = log_current lg, log_2 = log_1 lg\<rparr>"

definition append_diagnostic_once ::
  "pylib \<Rightarrow> fs_env \<Rightarrow> path \<Rightarrow> diagnostic_event \<Rightarrow> nat \<Rightarrow> diag_log \<Rightarrow> exn + bool \<times> diag_log" where
  "append_diagnostic_once lib env home e max_bytes lg =
     (if max_bytes < 1 then Inl (InvalidDiagnosticError ''max_bytes_invalid'')
      else
        ebind (diagnostic_path env home) (\<lambda>_.
        let encoded = encode_event lib e
        in if length encoded > max_bytes
           then Inl (InvalidDiagnosticError ''record_exceeds_limit'')
           else
             ebind (case dg_event_id e of None \<Rightarrow> Inr False | Some eid \<Rightarrow> contains_event_id lg eid)
               (\<lambda>dup. if dup then Inr (False, lg)
                else
                  ebind (complete_bytes (log_current lg) max_bytes) (\<lambda>existing.
                  if length existing + length encoded > max_bytes
                  then Inr (True, (rotate_log lg)\<lparr>log_current := Some encoded\<rparr>)
                  else Inr (True, lg\<lparr>log_current := Some (existing @ encoded)\<rparr>)))))"

definition diagnostic_event_exists ::
  "fs_env \<Rightarrow> path \<Rightarrow> diag_log \<Rightarrow> string \<Rightarrow> exn + bool" where
  "diagnostic_event_exists env home lg eid =
     (if \<not> is_sha256 eid then Inl (InvalidDiagnosticError ''event_id_invalid'')
      else ebind (diagnostic_path env home) (\<lambda>_. contains_event_id lg eid))"

section \<open>Target diagnostics\<close>

record target_diagnostic =
  td_occurred_at :: time
  td_code :: diagnostic_code
  td_target :: "monitor_target option"
  td_state :: monitor_status
  td_elapsed_ms :: "int option"
  td_event_id :: "string option"

definition td_child_hash :: "hash \<Rightarrow> target_diagnostic \<Rightarrow> string option" where
  "td_child_hash H d =
     (case td_target d of
        None \<Rightarrow> None
      | Some m \<Rightarrow> (case target_id m of None \<Rightarrow> None | Some tid \<Rightarrow> Some (H tid)))"

definition append_target_diagnostic_once ::
  "pylib \<Rightarrow> fs_env \<Rightarrow> path \<Rightarrow> runtime_target \<Rightarrow> target_diagnostic \<Rightarrow> diag_log \<Rightarrow>
   exn + bool \<times> diag_log" where
  "append_target_diagnostic_once lib env home t d lg =
     ebind (check_event
       \<lparr>dg_occurred_at = td_occurred_at d, dg_code = td_code d, dg_state = td_state d,
        session_hash = sha lib (session_id t), child_hash = td_child_hash (sha lib) d,
        dg_elapsed_ms = td_elapsed_ms d, dg_event_id = td_event_id d\<rparr>) (\<lambda>e.
     append_diagnostic_once lib env home e MAX_LOG_BYTES lg)"

definition append_target_diagnostic ::
  "pylib \<Rightarrow> fs_env \<Rightarrow> path \<Rightarrow> runtime_target \<Rightarrow> target_diagnostic \<Rightarrow> diag_log \<Rightarrow> exn + diag_log" where
  "append_target_diagnostic lib env home t d lg =
     ebind (append_target_diagnostic_once lib env home t d lg) (\<lambda>(_, lg'). Inr lg')"

definition nul :: string where
  "nul = [CHR 0x00]"

definition opt_or_empty :: "string option \<Rightarrow> string" where
  "opt_or_empty x = (case x of None \<Rightarrow> [] | Some s \<Rightarrow> s)"

definition completion_event_id :: "hash \<Rightarrow> runtime_target \<Rightarrow> string" where
  "completion_event_id H t =
     H (''watcher_completed'' @ nul @ session_id t @ nul @ opt_or_empty (parent_turn_id t))"

definition lifecycle_event_id ::
  "hash \<Rightarrow> diagnostic_code \<Rightarrow> runtime_target \<Rightarrow> monitor_target \<Rightarrow> string" where
  "lifecycle_event_id H code t m =
     H (code_value code @ nul @ session_id t @ nul @ opt_or_empty (parent_turn_id t) @ nul @
        opt_or_empty (target_id m) @ nul @ show_int (generation m) @ nul @
        show_int (progress_epoch m))"

definition lifecycle_event_exists :: "fs_env \<Rightarrow> path \<Rightarrow> diag_log \<Rightarrow> string \<Rightarrow> exn + bool" where
  "lifecycle_event_exists env home lg eid = diagnostic_event_exists env home lg eid"

definition notification_failure_event_id :: "hash \<Rightarrow> string \<Rightarrow> string" where
  "notification_failure_event_id H eid = H (''discord_notification_failed'' @ nul @ eid)"

section \<open>Lemmas\<close>

text \<open>A log whose files are bounded and made of complete lines.\<close>

definition file_ok :: "nat \<Rightarrow> string option \<Rightarrow> bool" where
  "file_ok n f \<longleftrightarrow> opt_ok (\<lambda>s. length s \<le> n \<and> s \<noteq> [] \<and> last s = CHR 0x0A) f"

definition log_ok :: "nat \<Rightarrow> diag_log \<Rightarrow> bool" where
  "log_ok n lg \<longleftrightarrow> file_ok n (log_current lg) \<and> file_ok n (log_1 lg) \<and> file_ok n (log_2 lg)"

lemma encode_event_line: "encode_event lib e \<noteq> [] \<and> last (encode_event lib e) = CHR 0x0A"
  by (simp add: encode_event_def)

lemma needle_not_Nil [simp]: "needle_of eid \<noteq> []"
  by (simp add: needle_of_def member_text_def quoted_def)

lemma encode_event_needle:
  "dg_event_id e = Some eid \<Longrightarrow> sublist (needle_of eid) (encode_event lib e)"
proof -
  assume e: "dg_event_id e = Some eid"
  define A where "A = ''{'' @ member_text ''child_hash'' (opt_text (child_hash e)) @
     '','' @ member_text ''code'' (quoted (code_value (dg_code e))) @
     '','' @ member_text ''elapsed_ms'' (opt_num (dg_elapsed_ms e)) @ '',''"
  have "\<exists>B. encode_event lib e = A @ needle_of eid @ B"
    unfolding encode_event_def A_def needle_of_def e opt_text_def
    by (simp only: append_assoc option.case) blast
  then show ?thesis by (auto simp: sublist_def)
qed

lemma complete_bytes_ok: "file_ok n f \<Longrightarrow> n \<le> k \<Longrightarrow>
  complete_bytes f k = Inr (case f of None \<Rightarrow> [] | Some s \<Rightarrow> s)"
  by (auto simp: file_ok_def opt_ok_def complete_bytes_def split: option.splits)

lemma contains_event_id_ok:
  assumes "log_ok n lg" and "n \<le> MAX_LOG_BYTES"
  shows "contains_event_id lg eid = Inr (\<exists>f \<in> {log_current lg, log_1 lg, log_2 lg}.
    sublist (needle_of eid) (case f of None \<Rightarrow> [] | Some s \<Rightarrow> s))"
  using assms
  by (auto simp: contains_event_id_def log_ok_def complete_bytes_ok [of n])

lemmas append_defs = append_diagnostic_once_def Let_def

lemma append_cases:
  assumes "append_diagnostic_once lib env home e n lg = Inr (b, lg')" and "log_ok n lg"
  obtains (duplicate) eid where "dg_event_id e = Some eid" "contains_event_id lg eid = Inr True"
      "\<not> b" "lg' = lg"
    | (rotated) "b" "length (encode_event lib e) \<le> n"
      "lg' = (rotate_log lg)\<lparr>log_current := Some (encode_event lib e)\<rparr>"
    | (appended) old where "b" "length (old @ encode_event lib e) \<le> n"
      "old = opt_or_empty (log_current lg)"
      "lg' = lg\<lparr>log_current := Some (old @ encode_event lib e)\<rparr>"
proof -
  from assms(2) have cur: "complete_bytes (log_current lg) n = Inr (opt_or_empty (log_current lg))"
    by (simp add: log_ok_def complete_bytes_ok [of n _ n] opt_or_empty_def)
  from assms(1) obtain dup where
    dup: "(case dg_event_id e of None \<Rightarrow> Inr False | Some eid \<Rightarrow> contains_event_id lg eid) = Inr dup"
    and fits: "length (encode_event lib e) \<le> n"
    and rest: "if dup then \<not> b \<and> lg' = lg
      else b \<and> (if length (opt_or_empty (log_current lg)) + length (encode_event lib e) > n
        then lg' = (rotate_log lg)\<lparr>log_current := Some (encode_event lib e)\<rparr>
        else lg' = lg\<lparr>log_current := Some (opt_or_empty (log_current lg) @ encode_event lib e)\<rparr>)"
    by (auto simp: append_defs err_simps cur split: if_splits)
  show thesis
  proof (cases dup)
    case True
    with dup rest show thesis by (auto intro: duplicate split: option.splits)
  next
    case False
    show thesis
    proof (cases "length (opt_or_empty (log_current lg)) + length (encode_event lib e) > n")
      case True
      with \<open>\<not> dup\<close> rest fits show thesis by (auto intro: rotated)
    next
      case short: False
      with \<open>\<not> dup\<close> rest show thesis by (auto intro!: appended [OF _ _ refl])
    qed
  qed
qed

lemma append_writes_record:
  assumes "append_diagnostic_once lib env home e n lg = Inr (True, lg')" and "log_ok n lg"
  shows "\<exists>old. log_current lg' = Some (old @ encode_event lib e)"
  by (rule append_cases [OF assms]) auto

lemma append_log_ok:
  assumes "log_ok n lg" and "append_diagnostic_once lib env home e n lg = Inr (b, lg')"
  shows "log_ok n lg'"
  using assms(2,1,1) encode_event_line [of lib e]
  by (cases rule: append_cases) (auto simp: log_ok_def file_ok_def opt_ok_def rotate_log_def)

section \<open>A concrete event\<close>

definition ex_event :: diagnostic_event where
  "ex_event = \<lparr>dg_occurred_at = 0, dg_code = HEARTBEAT_ACTIVE, dg_state = ACTIVE,
     session_hash = replicate 64 (CHR ''a''), child_hash = None, dg_elapsed_ms = None,
     dg_event_id = Some (replicate 64 (CHR ''0''))\<rparr>"

lemma ex_event_length: "length (encode_event ex_lib ex_event) = 275"
  by (simp add: encode_event_def ex_event_def ex_lib_def member_text_def quoted_def opt_text_def
      opt_num_def zulu.simps)

section \<open>Properties\<close>

text \<open>
  The diagnostic log stays bounded and readable: an append to a log of at most three files of
  complete lines, each within the limit, leaves such a log; the record it reports as new is the last
  line of the current file, and a record it reports as already present changes nothing.
\<close>

theorem append_keeps_log_bounded:
  assumes "log_ok n lg" and "append_diagnostic_once lib env home e n lg = Inr (b, lg')"
  shows "log_ok n lg' \<and>
    (if b then \<exists>old. log_current lg' = Some (old @ encode_event lib e) else lg' = lg)"
  using append_log_ok [OF assms] by (auto intro: append_cases [OF assms(2,1)])

theorem append_keeps_log_bounded_witness:
  "log_ok 400 \<lparr>log_current = Some (encode_event ex_lib ex_event), log_1 = None, log_2 = None\<rparr>"
proof -
  let ?lg = "\<lparr>log_current = None, log_1 = None, log_2 = None\<rparr>"
  have "log_ok 400 ?lg" by (simp add: log_ok_def file_ok_def opt_ok_def)
  moreover have "append_diagnostic_once ex_lib ex_env [''p''] ex_event 400 ?lg =
      Inr (True, ?lg\<lparr>log_current := Some (encode_event ex_lib ex_event)\<rparr>)"
    using ex_event_length
    by (simp add: append_defs ex_env_def diagnostic_path_def complete_bytes_def find_None_iff
        contains_event_id_def ex_event_def)
  ultimately show ?thesis using append_keeps_log_bounded [of 400 ?lg ex_lib ex_env] by fastforce
qed

text \<open>
  A lifecycle event is logged at most once: after an append that reports the event as new, the
  event is found in the log and every further append with the same event identity, whatever its
  other fields, reports a duplicate and leaves the log alone.
\<close>

theorem event_logged_once:
  assumes "log_ok MAX_LOG_BYTES lg"
    and "append_diagnostic_once lib env home e MAX_LOG_BYTES lg = Inr (True, lg')"
    and "dg_event_id e = Some eid" and "is_sha256 eid"
    and "dg_event_id e' = Some eid" and "length (encode_event lib e') \<le> MAX_LOG_BYTES"
  shows "diagnostic_event_exists env home lg' eid = Inr True \<and>
    append_diagnostic_once lib env home e' MAX_LOG_BYTES lg' = Inr (False, lg')"
proof -
  have env: "diagnostic_path env home = Inr ()"
    using assms(2) by (auto simp: append_defs err_simps split: if_splits)
  have ok: "log_ok MAX_LOG_BYTES lg'" using append_log_ok [OF assms(1,2)] .
  obtain old where old: "log_current lg' = Some (old @ encode_event lib e)"
    using append_writes_record [OF assms(2,1)] by blast
  have "sublist (needle_of eid) (old @ encode_event lib e)"
    using encode_event_needle [OF assms(3)]
    by (metis sublist_append)
  then have "contains_event_id lg' eid = Inr True"
    by (simp add: contains_event_id_ok [OF ok] old)
  then show ?thesis
    using assms(4-6) env
    by (auto simp: diagnostic_event_exists_def append_defs MAX_LOG_BYTES_def)
qed

theorem event_logged_once_witness:
  "\<exists>lg'. append_diagnostic_once ex_lib ex_env [''p''] ex_event MAX_LOG_BYTES lg' = Inr (False, lg')"
proof -
  let ?lg = "\<lparr>log_current = None, log_1 = None, log_2 = None\<rparr>"
  let ?lg' = "?lg\<lparr>log_current := Some (encode_event ex_lib ex_event)\<rparr>"
  have "log_ok MAX_LOG_BYTES ?lg" by (simp add: log_ok_def file_ok_def opt_ok_def)
  moreover have "append_diagnostic_once ex_lib ex_env [''p''] ex_event MAX_LOG_BYTES ?lg =
      Inr (True, ?lg')"
    using ex_event_length
    by (simp add: append_defs ex_env_def diagnostic_path_def complete_bytes_def find_None_iff
        contains_event_id_def ex_event_def MAX_LOG_BYTES_def)
  moreover have "is_sha256 (replicate 64 (CHR ''0''))" by (simp add: is_sha256_def list_all_iff)
  ultimately show ?thesis
    using ex_event_length event_logged_once [of ?lg ex_lib ex_env "[''p'']" ex_event ?lg'
        "replicate 64 (CHR ''0'')" ex_event]
    by (force simp: ex_event_def MAX_LOG_BYTES_def)
qed

end
