(* ===== verification/WatcherNotifications.thy ===== *)
theory WatcherNotifications
  imports Diagnostics
begin

text \<open>
  \<open>scripts/notifications.py\<close> and \<open>watcher_notifications.py\<close>: lifecycle notifications and the
  recorder that logs a diagnostic and queues its notification when the log reports it as new. The
  remote sink is any implementation of the \<open>NotificationSink\<close> protocol: a function of everything
  offered to it so far that delivers (\<open>True\<close>) or raises \<open>NotificationDeliveryError\<close>; \<open>rc_sent\<close>
  records what was offered. The diagnostic log on disk is the field \<open>rc_log\<close>.
\<close>

section \<open>Notifications\<close>

datatype notification_kind =
  BOTTLENECK_SUSPECTED | NOTIFY_CRITICAL | NOTIFY_RECOVERED | NOTIFY_COMPLETED

datatype subject_kind = TASK | MAIN_AGENT | SUBAGENT

record notification_subject =
  sub_kind :: subject_kind
  sub_target_id :: "string option"

definition mk_subject :: "subject_kind \<Rightarrow> string option \<Rightarrow> exn + notification_subject" where
  "mk_subject k tid =
     (case k of
        SUBAGENT \<Rightarrow> if tid = None \<or> tid = Some [] then Inl NotificationSubjectError
                    else Inr \<lparr>sub_kind = k, sub_target_id = tid\<rparr>
      | _ \<Rightarrow> if tid \<noteq> None then Inl NotificationSubjectError
             else Inr \<lparr>sub_kind = k, sub_target_id = tid\<rparr>)"

record lifecycle_notification =
  ln_event_id :: string
  ln_session_id :: string
  ln_kind :: notification_kind
  ln_subject :: notification_subject
  ln_elapsed_ms :: "int option"
  ln_threshold_ms :: "int option"

fun notification_kind_of :: "diagnostic_code \<Rightarrow> notification_kind option" where
  "notification_kind_of OBSERVABLE_PROGRESS_SILENCE = Some BOTTLENECK_SUSPECTED"
| "notification_kind_of BOTTLENECK_CRITICAL = Some NOTIFY_CRITICAL"
| "notification_kind_of PROGRESS_RECOVERED = Some NOTIFY_RECOVERED"
| "notification_kind_of WATCHER_COMPLETED = Some NOTIFY_COMPLETED"
| "notification_kind_of _ = None"

definition notification_subject_of :: "target_diagnostic \<Rightarrow> exn + notification_subject" where
  "notification_subject_of d =
     (case td_target d of
        None \<Rightarrow> mk_subject TASK None
      | Some m \<Rightarrow> (case target_id m of
                     None \<Rightarrow> mk_subject MAIN_AGENT None
                   | Some tid \<Rightarrow> mk_subject SUBAGENT (Some tid)))"

fun notification_threshold_ms :: "runtime_target \<Rightarrow> notification_kind \<Rightarrow> int option" where
  "notification_threshold_ms t BOTTLENECK_SUSPECTED = Some (clamp_ms (warning (rt_thresholds t)))"
| "notification_threshold_ms t NOTIFY_CRITICAL = Some (clamp_ms (critical (rt_thresholds t)))"
| "notification_threshold_ms t _ = None"

section \<open>The recorder\<close>

record monitor_env =
  me_lib :: pylib
  me_fs :: fs_env
  me_home :: path
  me_sink :: "lifecycle_notification list \<Rightarrow> lifecycle_notification \<Rightarrow> bool"

record pending_notification =
  pn_target :: runtime_target
  pn_diagnostic :: target_diagnostic
  pn_event :: lifecycle_notification

record recorder =
  rc_pending :: "pending_notification list"
  rc_log :: diag_log
  rc_sent :: "lifecycle_notification list"

definition log_once ::
  "monitor_env \<Rightarrow> runtime_target \<Rightarrow> target_diagnostic \<Rightarrow> (exn, 'a recorder_scheme, bool) step" where
  "log_once W t d = (\<lambda>s.
     case append_target_diagnostic_once (me_lib W) (me_fs W) (me_home W) t d (rc_log s) of
       Inl e \<Rightarrow> (Inl e, s)
     | Inr (appended, lg) \<Rightarrow> (Inr appended, s\<lparr>rc_log := lg\<rparr>))"

definition log_target_diagnostic ::
  "monitor_env \<Rightarrow> runtime_target \<Rightarrow> target_diagnostic \<Rightarrow> (exn, 'a recorder_scheme, unit) step" where
  "log_target_diagnostic W t d = sbind (log_once W t d) (\<lambda>_. sret ())"

definition warning_was_emitted ::
  "monitor_env \<Rightarrow> runtime_target \<Rightarrow> monitor_target \<Rightarrow> silence_state \<Rightarrow>
   (exn, 'a recorder_scheme, bool) step" where
  "warning_was_emitted W t m state = (\<lambda>s.
     if warning_emitted state then (Inr True, s)
     else (lifecycle_event_exists (me_fs W) (me_home W) (rc_log s)
             (lifecycle_event_id (sha (me_lib W)) OBSERVABLE_PROGRESS_SILENCE t m), s))"

definition record_diagnostic ::
  "monitor_env \<Rightarrow> runtime_target \<Rightarrow> target_diagnostic \<Rightarrow> (exn, 'a recorder_scheme, unit) step" where
  "record_diagnostic W t d =
     sbind (log_once W t d) (\<lambda>appended.
     case (notification_kind_of (td_code d), td_event_id d) of
       (Some k, Some eid) \<Rightarrow>
         if \<not> appended then sret ()
         else
           sbind (slift (notification_subject_of d)) (\<lambda>subject.
           smodify (\<lambda>s. s\<lparr>rc_pending := rc_pending s @
             [\<lparr>pn_target = t, pn_diagnostic = d,
               pn_event = \<lparr>ln_event_id = eid, ln_session_id = session_id t, ln_kind = k,
                 ln_subject = subject, ln_elapsed_ms = td_elapsed_ms d,
                 ln_threshold_ms = notification_threshold_ms t k\<rparr>\<rparr>]\<rparr>))
     | _ \<Rightarrow> sret ())"

definition target_note ::
  "time \<Rightarrow> diagnostic_code \<Rightarrow> monitor_target option \<Rightarrow> string option \<Rightarrow> target_diagnostic" where
  "target_note t code m eid =
     \<lparr>td_occurred_at = t, td_code = code, td_target = m, td_state = ACTIVE,
      td_elapsed_ms = None, td_event_id = eid\<rparr>"

definition record_recovery ::
  "monitor_env \<Rightarrow> runtime_target \<Rightarrow> monitor_target \<Rightarrow> time \<Rightarrow> (exn, 'a recorder_scheme, unit) step"
where
  "record_recovery W t m at_time =
     record_diagnostic W t (target_note at_time PROGRESS_RECOVERED (Some m)
       (Some (lifecycle_event_id (sha (me_lib W)) PROGRESS_RECOVERED t m)))"

definition deliver :: "monitor_env \<Rightarrow> pending_notification \<Rightarrow> (exn, 'a recorder_scheme, unit) step" where
  "deliver W item =
     sbind (sget (\<lambda>s. me_sink W (rc_sent s) (pn_event item))) (\<lambda>delivered.
     sbind (smodify (\<lambda>s. s\<lparr>rc_sent := rc_sent s @ [pn_event item]\<rparr>)) (\<lambda>_.
     if delivered then sret ()
     else log_target_diagnostic W (pn_target item)
       (target_note (td_occurred_at (pn_diagnostic item)) DISCORD_NOTIFICATION_FAILED
         (td_target (pn_diagnostic item))
         (Some (notification_failure_event_id (sha (me_lib W)) (ln_event_id (pn_event item)))))))"

definition flush :: "monitor_env \<Rightarrow> (exn, 'a recorder_scheme, unit) step" where
  "flush W =
     sbind (sget rc_pending) (\<lambda>pending.
     sbind (smodify (\<lambda>s. s\<lparr>rc_pending := []\<rparr>)) (\<lambda>_.
     sfor (\<lambda>item _. deliver W item) pending ()))"

section \<open>What the log remembers\<close>

definition retained :: "diag_log \<Rightarrow> string \<Rightarrow> bool" where
  "retained lg eid \<longleftrightarrow> (\<exists>f \<in> {log_current lg, log_1 lg, log_2 lg}.
     sublist (needle_of eid) (case f of None \<Rightarrow> [] | Some s \<Rightarrow> s))"

text \<open>Backups appear oldest last, so nothing has been dropped while the second one is absent.\<close>

definition backups_ordered :: "diag_log \<Rightarrow> bool" where
  "backups_ordered lg \<longleftrightarrow>
     (log_2 lg \<noteq> None \<longrightarrow> log_1 lg \<noteq> None) \<and> (log_1 lg \<noteq> None \<longrightarrow> log_current lg \<noteq> None)"

lemma sublist_append_mono: "sublist xs ys \<Longrightarrow> sublist xs (zs @ ys)" "sublist xs ys \<Longrightarrow> sublist xs (ys @ zs)"
  by (simp_all add: sublist_append)

lemma append_retains:
  assumes "append_diagnostic_once lib env home e MAX_LOG_BYTES lg = Inr (b, lg')"
    and "log_ok MAX_LOG_BYTES lg" and "backups_ordered lg"
  shows "backups_ordered lg'"
    and "log_2 lg' = None \<Longrightarrow> log_2 lg = None"
    and "log_2 lg' = None \<Longrightarrow> retained lg x \<Longrightarrow> retained lg' x"
    and "b \<Longrightarrow> dg_event_id e = Some eid \<Longrightarrow> \<not> retained lg eid \<and> retained lg' eid"
proof -
  show "backups_ordered lg'" and 2: "log_2 lg' = None \<Longrightarrow> log_2 lg = None"
    using assms(3) by (auto intro: append_cases [OF assms(1,2)]
        simp: backups_ordered_def rotate_log_def)
  show "log_2 lg' = None \<Longrightarrow> retained lg x \<Longrightarrow> retained lg' x"
    using assms(3) by - (rule append_cases [OF assms(1,2)],
      auto simp: retained_def rotate_log_def opt_or_empty_def backups_ordered_def
        intro: sublist_append_mono dest: 2 split: option.splits)
  assume b: "b" and eid: "dg_event_id e = Some eid"
  then have "contains_event_id lg eid = Inr False"
    using assms(1) by (auto simp: append_defs err_simps split: if_splits)
  then have "\<not> retained lg eid"
    using contains_event_id_ok [OF assms(2), of eid] by (simp add: retained_def)
  moreover obtain old where "log_current lg' = Some (old @ encode_event lib e)"
    using b append_writes_record [OF _ assms(2)] assms(1) by fastforce
  then have "retained lg' eid"
    using sublist_append_mono(1) [OF encode_event_needle [OF eid, of lib], of old]
    by (simp add: retained_def)
  ultimately show "\<not> retained lg eid \<and> retained lg' eid" by simp
qed

text \<open>
  The events offered or queued so far are known to the log: pairwise different identities, each
  still found there, as long as nothing has been dropped from the log.
\<close>

definition known :: "lifecycle_notification list \<Rightarrow> diag_log \<Rightarrow> bool" where
  "known evs lg \<longleftrightarrow> log_ok MAX_LOG_BYTES lg \<and> backups_ordered lg \<and>
     (log_2 lg = None \<longrightarrow> distinct (map ln_event_id evs) \<and>
        (\<forall>ev \<in> set evs. retained lg (ln_event_id ev)))"

definition recorder_inv :: "'a recorder_scheme \<Rightarrow> bool" where
  "recorder_inv s \<longleftrightarrow> known (rc_sent s @ map pn_event (rc_pending s)) (rc_log s)"

lemma known_prefix: "known (evs @ evs') lg \<Longrightarrow> known evs lg"
  by (auto simp: known_def)

lemma check_event_same: "check_event e = Inr e' \<Longrightarrow> e' = e"
  by (simp add: check_event_def split: if_splits)

lemma known_append:
  assumes "append_target_diagnostic_once lib env home t d lg = Inr (b, lg')" and "known evs lg"
  shows "known evs lg'"
    and "b \<Longrightarrow> td_event_id d = Some (ln_event_id ev) \<Longrightarrow> known (evs @ [ev]) lg'"
proof -
  from assms(1) obtain e where e: "dg_event_id e = td_event_id d"
    and ap: "append_diagnostic_once lib env home e MAX_LOG_BYTES lg = Inr (b, lg')"
    by (force simp: append_target_diagnostic_once_def err_simps dest: check_event_same)
  from assms(2) have ok: "log_ok MAX_LOG_BYTES lg" and bo: "backups_ordered lg"
    by (simp_all add: known_def)
  note r = append_retains [OF ap ok bo]
  show 1: "known evs lg'"
    using assms(2) r(1,2,3) append_log_ok [OF ok ap] by (simp add: known_def)
  show "known (evs @ [ev]) lg'" if "b" "td_event_id d = Some (ln_event_id ev)"
    using 1 assms(2) r(2,4) that e by (auto simp: known_def)
qed

section \<open>The recorder keeps the log informed\<close>

lemma log_once_known:
  assumes "log_once W t d s = (r, s')" and "known evs (rc_log s)"
  shows "known evs (rc_log s')" and "rc_sent s' = rc_sent s" and "rc_pending s' = rc_pending s"
    and "r = Inr True \<Longrightarrow> td_event_id d = Some (ln_event_id ev) \<Longrightarrow> known (evs @ [ev]) (rc_log s')"
  using assms known_append [of "me_lib W" "me_fs W" "me_home W" t d "rc_log s"]
  by (auto simp: log_once_def split: sum.splits)

lemma recorder_inv_log_once [keeps_intros]: "keeps recorder_inv (log_once W t d)"
  unfolding keeps_def recorder_inv_def
  by (metis log_once_known(1-3) prod.collapse)

lemma recorder_inv_log [keeps_intros]: "keeps recorder_inv (log_target_diagnostic W t d)"
  unfolding log_target_diagnostic_def by (intro keeps_intros)

lemma recorder_inv_warning [keeps_intros]: "keeps recorder_inv (warning_was_emitted W t m x)"
  by (simp add: keeps_def warning_was_emitted_def)

lemma recorder_inv_record [keeps_intros]: "keeps recorder_inv (record_diagnostic W t d)"
  unfolding keeps_def
proof (intro allI impI)
  fix s :: "'a recorder_scheme"
  assume s: "recorder_inv s"
  obtain r s' where l: "log_once W t d s = (r, s')" by fastforce
  note k = log_once_known [OF l s [unfolded recorder_inv_def]]
  have inv: "recorder_inv s'" using k(1-3) by (simp add: recorder_inv_def)
  show "recorder_inv (snd (record_diagnostic W t d s))"
  proof (cases "r = Inr True \<and> notification_kind_of (td_code d) \<noteq> None \<and> td_event_id d \<noteq> None")
    case False
    then show ?thesis
      using inv l by (auto simp: record_diagnostic_def step_defs split: sum.splits option.splits)
  next
    case True
    then show ?thesis
      using inv l k(2-4) by (cases "notification_subject_of d")
        (auto simp: record_diagnostic_def step_defs recorder_inv_def)
  qed
qed

lemma recorder_inv_recovery [keeps_intros]: "keeps recorder_inv (record_recovery W t m u)"
  unfolding record_recovery_def by (rule keeps_intros)

lemma deliver_known:
  assumes "deliver W item s = (r, s')"
    and "known (rc_sent s @ map pn_event (item # rest)) (rc_log s)" and "rc_pending s = []"
  shows "known (rc_sent s' @ map pn_event rest) (rc_log s') \<and> rc_pending s' = []"
proof -
  let ?s = "s\<lparr>rc_sent := rc_sent s @ [pn_event item]\<rparr>"
  have "known (rc_sent ?s @ map pn_event rest) (rc_log ?s)" using assms(2) by simp
  moreover have "rc_pending ?s = []" using assms(3) by simp
  moreover define d where "d = target_note (td_occurred_at (pn_diagnostic item))
    DISCORD_NOTIFICATION_FAILED (td_target (pn_diagnostic item))
    (Some (notification_failure_event_id (sha (me_lib W)) (ln_event_id (pn_event item))))"
  have "s' = ?s \<or> s' = snd (log_once W (pn_target item) d ?s)"
    using assms(1) unfolding d_def
    by (auto simp: deliver_def log_target_diagnostic_def step_defs
        split: if_splits prod.splits sum.splits)
  ultimately show ?thesis
    using log_once_known(1-3) [of W "pn_target item" d ?s] by (metis surjective_pairing)
qed

lemma recorder_inv_flush [keeps_intros]: "keeps recorder_inv (flush W)"
proof -
  have loop: "recorder_inv (snd (sfor (\<lambda>item _. deliver W item) items () s))"
    if "known (rc_sent s @ map pn_event items) (rc_log s)" "rc_pending s = []"
    for items and s :: "'a recorder_scheme"
    using that
  proof (induction items arbitrary: s)
    case Nil
    then show ?case by (simp add: recorder_inv_def step_defs)
  next
    case (Cons item items)
    obtain r s' where d: "deliver W item s = (r, s')" by fastforce
    from deliver_known [OF d Cons.prems] Cons.IH [of s'] d show ?case
      by (cases r) (auto simp: sbind_def recorder_inv_def intro: known_prefix)
  qed
  show ?thesis
    unfolding keeps_def flush_def
    using loop [unfolded recorder_inv_def]
    by (simp add: sbind_def sget_def smodify_def recorder_inv_def)
qed

section \<open>Runs of the recorder\<close>

text \<open>Restarting the daemon loses the queue; the log stays.\<close>

datatype recorder_op =
    Note runtime_target target_diagnostic
  | LogOnly runtime_target target_diagnostic
  | Flush
  | Restart

fun recorder_step :: "monitor_env \<Rightarrow> recorder_op \<Rightarrow> recorder \<Rightarrow> recorder" where
  "recorder_step W (Note t d) s = snd (record_diagnostic W t d s)"
| "recorder_step W (LogOnly t d) s = snd (log_target_diagnostic W t d s)"
| "recorder_step W Flush s = snd (flush W s)"
| "recorder_step W Restart s = s\<lparr>rc_pending := []\<rparr>"

definition empty_recorder :: recorder where
  "empty_recorder = \<lparr>rc_pending = [],
     rc_log = \<lparr>log_current = None, log_1 = None, log_2 = None\<rparr>, rc_sent = []\<rparr>"

lemma recorder_inv_empty: "recorder_inv empty_recorder"
  by (simp add: recorder_inv_def known_def empty_recorder_def log_ok_def file_ok_def opt_ok_def
      backups_ordered_def)

lemma recorder_inv_step: "recorder_inv s \<Longrightarrow> recorder_inv (recorder_step W op s)"
proof (cases op)
  case Restart
  then show "recorder_inv s \<Longrightarrow> ?thesis" by (auto simp: recorder_inv_def dest: known_prefix)
qed (auto intro: keepsD keeps_intros)

lemma recorder_inv_run: "recorder_inv s \<Longrightarrow> recorder_inv (fold (recorder_step W) ops s)"
  by (induction ops arbitrary: s) (auto intro: recorder_inv_step)

section \<open>Properties\<close>

text \<open>
  At-most-once delivery across restarts: however diagnostics are recorded, notifications
  flushed, deliveries fail and the daemon restarted, no lifecycle event identity is offered to the
  remote sink twice, until the log has filled both of its backups (about two mebibytes of records),
  after which old identities may be forgotten.
\<close>

theorem notified_at_most_once:
  assumes "log_2 (rc_log (fold (recorder_step W) ops empty_recorder)) = None"
  shows "distinct (map ln_event_id (rc_sent (fold (recorder_step W) ops empty_recorder)))"
  using recorder_inv_run [OF recorder_inv_empty, of W ops] assms
  by (simp add: recorder_inv_def known_def)

definition ex_monitor_env :: monitor_env where
  "ex_monitor_env = \<lparr>me_lib = ex_lib\<lparr>sha := (\<lambda>_. replicate 64 (CHR ''0''))\<rparr>, me_fs = ex_env,
     me_home = [''h'', ''p''], me_sink = (\<lambda>_ _. True)\<rparr>"

definition ex_note :: target_diagnostic where
  "ex_note = target_note 0 WATCHER_COMPLETED None (Some (replicate 64 (CHR ''0'')))"

definition ex_note_event :: diagnostic_event where
  "ex_note_event = \<lparr>dg_occurred_at = 0, dg_code = WATCHER_COMPLETED, dg_state = ACTIVE,
     session_hash = replicate 64 (CHR ''0''), child_hash = None, dg_elapsed_ms = None,
     dg_event_id = Some (replicate 64 (CHR ''0''))\<rparr>"

lemma ex_note_logged:
  "append_target_diagnostic_once (me_lib ex_monitor_env) (me_fs ex_monitor_env)
     (me_home ex_monitor_env) ex_target ex_note (rc_log empty_recorder) =
   Inr (True, (rc_log empty_recorder)\<lparr>
     log_current := Some (encode_event (me_lib ex_monitor_env) ex_note_event)\<rparr>)"
proof -
  have "length (encode_event (me_lib ex_monitor_env) ex_note_event) \<le> 400"
    by (simp add: encode_event_def ex_note_event_def ex_monitor_env_def ex_lib_def member_text_def
        quoted_def opt_text_def opt_num_def zulu.simps)
  moreover have "is_sha256 (replicate 64 (CHR ''0''))" by (simp add: is_sha256_def list_all_iff)
  ultimately show ?thesis
    by (simp add: append_target_diagnostic_once_def check_event_def ex_note_def target_note_def
        td_child_hash_def opt_ok_def append_defs MAX_LOG_BYTES_def diagnostic_path_def
        find_None_iff complete_bytes_def contains_event_id_def empty_recorder_def
        ex_note_event_def [symmetric])
      (simp add: ex_monitor_env_def ex_env_def ex_note_event_def)
qed

theorem notified_at_most_once_witness:
  "map ln_event_id (rc_sent (fold (recorder_step ex_monitor_env) [Note ex_target ex_note, Flush]
     empty_recorder)) = [replicate 64 (CHR ''0'')] \<and>
   distinct (map ln_event_id (rc_sent (fold (recorder_step ex_monitor_env)
     [Note ex_target ex_note, Flush] empty_recorder)))"
proof -
  let ?s = "fold (recorder_step ex_monitor_env) [Note ex_target ex_note, Flush] empty_recorder"
  have "log_2 (rc_log ?s) = None \<and> map ln_event_id (rc_sent ?s) = [replicate 64 (CHR ''0'')]"
    using ex_note_logged
    by (simp add: record_diagnostic_def log_once_def flush_def deliver_def step_defs
        notification_subject_of_def mk_subject_def ex_note_def target_note_def)
      (simp add: ex_monitor_env_def empty_recorder_def step_defs)
  then show ?thesis
    using notified_at_most_once [of ex_monitor_env "[Note ex_target ex_note, Flush]"] by simp
qed

end
