(* ===== verification/WatcherProgress.thy ===== *)
theory WatcherProgress
  imports WatcherNotifications EventSource
begin

text \<open>
  \<open>scripts/watcher_events.py\<close>, \<open>watcher_context.py\<close>, \<open>watcher_recovery.py\<close> and
  \<open>watcher_progress.py\<close>: matching rollout events to monitored targets, applying them to the
  in-memory detectors and open tool calls, and the preparation of every detector before its
  evaluation. The watcher's process-local state extends the recorder's.
\<close>

section \<open>Matching events to targets\<close>

definition event_matches_target ::
  "observed_event \<Rightarrow> monitor_target \<Rightarrow> string option \<Rightarrow> bool" where
  "event_matches_target e m parent_turn =
     (if (case started_at m of None \<Rightarrow> False | Some since \<Rightarrow> occurred_at e < since) then False
      else if target_id m = None \<and> ev_child_id e \<noteq> None then True
      else if ev_child_id e \<noteq> target_id m then False
      else \<not> (target_id m = None \<and> ev_turn_id e \<noteq> None \<and> parent_turn \<noteq> None \<and>
              ev_turn_id e \<noteq> parent_turn))"

definition terminal_matches :: "observed_event \<Rightarrow> monitor_target \<Rightarrow> string option \<Rightarrow> bool" where
  "terminal_matches e m parent_turn \<longleftrightarrow>
     ev_terminal e \<and>
     (target_id m \<noteq> None \<or> parent_turn \<noteq> None \<and> ev_turn_id e = parent_turn)"

definition event_is_target_progress ::
  "observed_event \<Rightarrow> monitor_target \<Rightarrow> string option \<Rightarrow> bool" where
  "event_is_target_progress e m parent_turn \<longleftrightarrow>
     event_matches_target e m parent_turn \<and>
     kind e \<in> {ITEM_EVENT, TURN_STARTED, DELTA_EVENT, TOOL_STARTED, TOOL_RESULT_EVENT}"

definition event_is_turn_activity :: "observed_event \<Rightarrow> runtime_target \<Rightarrow> bool" where
  "event_is_turn_activity e t \<longleftrightarrow>
     list_ex (\<lambda>m. event_matches_target e m (parent_turn_id t) \<and>
       (event_is_target_progress e m (parent_turn_id t) \<or>
        terminal_matches e m (parent_turn_id t))) (targets t)"

definition parent_completed :: "runtime_target \<Rightarrow> observed_event list \<Rightarrow> bool" where
  "parent_completed t events \<longleftrightarrow>
     list_ex (\<lambda>e. kind e = TURN_COMPLETED \<and> ev_child_id e = None \<and>
       parent_turn_id t \<noteq> None \<and> ev_turn_id e = parent_turn_id t) events"

section \<open>Open tool calls\<close>

definition event_call :: "observed_event \<Rightarrow> string option" where
  "event_call e = text_or (ev_call_id e) (ev_item_id e)"

definition call_started :: "string set \<Rightarrow> observed_event \<Rightarrow> string set" where
  "call_started calls e =
     (case event_call e of Some (c # cs) \<Rightarrow> insert (c # cs) calls | _ \<Rightarrow> calls)"

definition call_result :: "string set \<Rightarrow> observed_event \<Rightarrow> string set" where
  "call_result calls e =
     (case event_call e of
        Some c \<Rightarrow> calls - {c}
      | None \<Rightarrow> if fallback_tool_result e \<and> card calls = 1 then {} else calls)"

definition apply_event ::
  "time \<Rightarrow> observed_event \<Rightarrow> string set \<times> silence_state \<Rightarrow> string set \<times> silence_state" where
  "apply_event now e cs =
     (let (calls, s) = cs
      in case kind e of
           ITEM_EVENT \<Rightarrow> (calls, record_progress s ITEM now)
         | TURN_STARTED \<Rightarrow> (calls, record_progress s ITEM now)
         | DELTA_EVENT \<Rightarrow> (calls, record_progress s DELTA now)
         | TOOL_STARTED \<Rightarrow> (call_started calls e, record_progress s ITEM now)
         | TOOL_RESULT_EVENT \<Rightarrow> (call_result calls e, record_progress s TOOL_RESULT now)
         | TURN_COMPLETED \<Rightarrow> (calls, record_progress s ITEM now)
         | TURN_ABORTED \<Rightarrow> (calls, record_progress s ITEM now)
         | SESSION_METADATA \<Rightarrow> (calls, s))"

fun apply_target_events ::
  "string set \<Rightarrow> monitor_target \<Rightarrow> silence_state \<Rightarrow> observed_event list \<Rightarrow> time \<Rightarrow> string option \<Rightarrow>
   string set \<times> silence_state \<times> bool" where
  "apply_target_events calls m s [] now turn = (calls, s, False)"
| "apply_target_events calls m s (e # es) now turn =
     (if \<not> event_matches_target e m turn then apply_target_events calls m s es now turn
      else
        let (calls', s') = apply_event now e (calls, s);
            (calls'', s'', terminal) = apply_target_events calls' m s' es now turn
        in (calls'', s'', terminal_matches e m turn \<or> terminal))"

section \<open>Recovery of a detector\<close>

record tick_context =
  tc_now :: time
  tc_wall_time :: time

definition recovered_detector_state :: "tick_context \<Rightarrow> monitor_target \<Rightarrow> silence_state" where
  "recovered_detector_state ctx m =
     (case started_at m of
        None \<Rightarrow> initial_state (tc_now ctx)
      | Some since \<Rightarrow> initial_state (tc_now ctx - max 0 (tc_wall_time ctx - since)))"

definition restore_suspected_transition :: "silence_state \<Rightarrow> silence_state" where
  "restore_suspected_transition s = s\<lparr>phase := SILENT_WARNED, warning_emitted := True\<rparr>"

section \<open>The watcher's process-local state\<close>

type_synonym detector_key = "string \<times> string option \<times> int"

record watcher = recorder +
  w_detectors :: "detector_key \<rightharpoonup> silence_state"
  w_open_calls :: "detector_key \<rightharpoonup> string set"
  w_started :: "detector_key set"
  w_heartbeat_at :: "string \<rightharpoonup> time"
  w_failed :: "string set"

definition key_of :: "runtime_target \<Rightarrow> monitor_target \<Rightarrow> detector_key" where
  "key_of t m = (session_id t, target_id m, generation m)"

definition calls_of :: "watcher \<Rightarrow> detector_key \<Rightarrow> string set" where
  "calls_of s k = (case w_open_calls s k of None \<Rightarrow> {} | Some c \<Rightarrow> c)"

section \<open>Preparing the detectors\<close>

definition record_started ::
  "monitor_env \<Rightarrow> tick_context \<Rightarrow> runtime_target \<Rightarrow> monitor_target \<Rightarrow> (exn, watcher, unit) step" where
  "record_started W ctx t m =
     sbind (sget (\<lambda>s. key_of t m \<in> w_started s)) (\<lambda>seen.
     if seen \<or> mt_terminal m then sret ()
     else
       sbind (log_target_diagnostic W t
         (target_note (tc_wall_time ctx) WATCHER_STARTED (Some m) None)) (\<lambda>_.
       smodify (\<lambda>s. s\<lparr>w_started := insert (key_of t m) (w_started s)\<rparr>)))"

definition monitor_waits :: "monitor_target \<Rightarrow> string set \<Rightarrow> bool \<Rightarrow> bool \<Rightarrow> wait_state" where
  "monitor_waits m calls event_terminal parent_terminal =
     \<lparr>open_tool_count = max (mt_open_tool_count m) (int (card calls)),
      waiting_for_approval = mt_waiting_for_approval m,
      waiting_for_user = mt_waiting_for_user m,
      child_terminal = mt_terminal m \<or> event_terminal,
      parent_complete = parent_terminal\<rparr>"

definition prepare_monitor ::
  "monitor_env \<Rightarrow> tick_context \<Rightarrow> runtime_target \<Rightarrow> observed_event list \<Rightarrow> bool \<Rightarrow>
   monitor_target \<Rightarrow> dict \<Rightarrow> (exn, watcher, silence_state \<times> bool \<times> dict) step" where
  "prepare_monitor W ctx t events parent_terminal m values =
     sbind (sget (\<lambda>s. case w_detectors s (key_of t m) of
              None \<Rightarrow> recovered_detector_state ctx m | Some d \<Rightarrow> d)) (\<lambda>d0.
     sbind (warning_was_emitted W t m d0) (\<lambda>warned.
     let d1 = (if warned \<and> \<not> warning_emitted d0 then restore_suspected_transition d0 else d0)
     in
     sbind (record_started W ctx t m) (\<lambda>_.
     sbind (sget (\<lambda>s. apply_target_events (calls_of s (key_of t m)) m d1 events (tc_now ctx)
              (parent_turn_id t))) (\<lambda>(calls, d2, event_terminal).
     sbind (smodify (\<lambda>s. s\<lparr>w_open_calls := (w_open_calls s)(key_of t m \<mapsto> calls)\<rparr>)) (\<lambda>_.
     let progressed = silence_sequence d0 < silence_sequence d2 in
     sbind (if progressed
            then slift (advance_target_progress_epoch (me_lib W) values (target_id m)
                   (runtime_file t) (tc_wall_time ctx))
            else sret values) (\<lambda>values1.
     sbind (if progressed \<and> warned then record_recovery W t m (tc_wall_time ctx)
            else sret ()) (\<lambda>_.
     sbind (if event_terminal
            then slift (ebind (mark_target_terminal values1 (target_id m) (runtime_file t))
                   (\<lambda>(_, v). Inr v))
            else sret values1) (\<lambda>values2.
     let w = monitor_waits m calls event_terminal parent_terminal in
     sret (set_wait_state d2 w (tc_now ctx) (\<not> wait_paused w),
           progressed \<or> event_terminal, values2)))))))))"

record target_progress =
  tp_states :: "(detector_key \<times> silence_state) list"
  tp_activity :: bool
  tp_parent_terminal :: bool

definition prepare_step ::
  "monitor_env \<Rightarrow> tick_context \<Rightarrow> runtime_target \<Rightarrow> observed_event list \<Rightarrow> bool \<Rightarrow> monitor_target \<Rightarrow>
   (detector_key \<times> silence_state) list \<times> bool \<times> dict \<Rightarrow>
   (exn, watcher, (detector_key \<times> silence_state) list \<times> bool \<times> dict) step" where
  "prepare_step W ctx t events parent_terminal m acc =
     (let (states, activity, v) = acc in
      sbind (smodify (\<lambda>s. s\<lparr>w_open_calls :=
        (w_open_calls s)(key_of t m \<mapsto> calls_of s (key_of t m))\<rparr>)) (\<lambda>_.
      sbind (prepare_monitor W ctx t events parent_terminal m v) (\<lambda>(d, act, v').
      sret (AList.update (key_of t m) d states, act \<or> activity, v'))))"

definition prepare ::
  "monitor_env \<Rightarrow> tick_context \<Rightarrow> runtime_target \<Rightarrow> observed_event list \<Rightarrow> dict \<Rightarrow>
   (exn, watcher, target_progress \<times> dict) step" where
  "prepare W ctx t events values =
     (let terminal = parent_completed t events in
     sbind (if terminal
            then slift (ebind (mark_parent_complete values (runtime_file t)) (\<lambda>(_, v). Inr v))
            else sret values) (\<lambda>values0.
     sbind (sfor (prepare_step W ctx t events terminal) (targets t) ([], False, values0))
       (\<lambda>(states, activity, values1).
     sret (\<lparr>tp_states = states, tp_activity = activity, tp_parent_terminal = terminal\<rparr>,
           values1))))"

section \<open>Lemmas\<close>

definition counted :: "monitor_target \<Rightarrow> string option \<Rightarrow> observed_event \<Rightarrow> bool" where
  "counted m turn e \<longleftrightarrow> event_matches_target e m turn \<and> kind e \<noteq> SESSION_METADATA"

lemma apply_event_detector:
  "\<exists>k. snd (apply_event now e (calls, s)) =
     (if kind e = SESSION_METADATA then s else record_progress s k now)"
  by (cases "kind e") (auto simp: apply_event_def)

lemma apply_event_live:
  assumes "\<not> wait_terminal (waits s)" and "latest_progress_at s \<le> now"
    and "apply_event now e (calls, s) = (calls', s')"
  shows "waits s' = waits s" and "latest_progress_at s' \<le> now"
    and "silence_sequence s' = silence_sequence s + of_bool (kind e \<noteq> SESSION_METADATA)"
    and "kind e \<noteq> SESSION_METADATA \<Longrightarrow> latest_progress_at s' = now"
proof -
  obtain k where k: "s' = (if kind e = SESSION_METADATA then s else record_progress s k now)"
    using apply_event_detector [of now e calls s] assms(3) by auto
  show "waits s' = waits s" and "latest_progress_at s' \<le> now"
    and "silence_sequence s' = silence_sequence s + of_bool (kind e \<noteq> SESSION_METADATA)"
    and "kind e \<noteq> SESSION_METADATA \<Longrightarrow> latest_progress_at s' = now"
    using assms(1,2) latest_progress_record [OF assms(1,2), of k]
    by (simp_all add: k record_progress_sequence)
qed

lemma apply_target_events_live:
  assumes "\<not> wait_terminal (waits s)" and "latest_progress_at s \<le> now"
    and "apply_target_events calls m s es now turn = (calls', s', terminal)"
  shows "silence_sequence s' = silence_sequence s + length (filter (counted m turn) es) \<and>
    (if list_ex (counted m turn) es then latest_progress_at s' = now
     else latest_progress_at s' = latest_progress_at s) \<and>
    terminal = list_ex (\<lambda>e. event_matches_target e m turn \<and> terminal_matches e m turn) es"
  using assms
proof (induction es arbitrary: calls s calls' s' terminal)
  case Nil
  then show ?case by simp
next
  case (Cons e es)
  show ?case
  proof (cases "event_matches_target e m turn")
    case False
    then have "apply_target_events calls m s es now turn = (calls', s', terminal)"
      using Cons.prems(3) by simp
    from Cons.IH [OF Cons.prems(1,2) this] False show ?thesis by (simp add: counted_def)
  next
    case True
    obtain c1 s1 where e: "apply_event now e (calls, s) = (c1, s1)" by fastforce
    obtain c2 s2 t2 where r: "apply_target_events c1 m s1 es now turn = (c2, s2, t2)"
      by (metis prod_cases3)
    note live = apply_event_live [OF Cons.prems(1,2) e]
    from Cons.IH [OF _ _ r] live Cons.prems(1) have
      "silence_sequence s2 = silence_sequence s1 + length (filter (counted m turn) es)"
      "if list_ex (counted m turn) es then latest_progress_at s2 = now
       else latest_progress_at s2 = latest_progress_at s1"
      "t2 = list_ex (\<lambda>e. event_matches_target e m turn \<and> terminal_matches e m turn) es"
      by simp_all
    moreover have "s' = s2" "terminal = (terminal_matches e m turn \<or> t2)"
      using Cons.prems(3) True e r by (simp_all add: Let_def)
    moreover have "kind e = SESSION_METADATA \<Longrightarrow> s1 = s"
      using e apply_event_detector [of now e calls s] by simp
    moreover have "counted m turn e \<longleftrightarrow> kind e \<noteq> SESSION_METADATA"
      using True by (simp add: counted_def)
    ultimately show ?thesis
      using live(3,4) True by (auto split: if_splits)
  qed
qed

section \<open>Properties\<close>

text \<open>
  Progress is exactly what the rollout shows: on a live detector, applying a batch starts one
  new silence interval per matching event other than session metadata, so a batch without such an
  event leaves the silence clock alone and any other batch restarts it at the tick; the target ends
  exactly if a matching event is terminal for it (any terminal event for a child, the one of the
  locked turn for the parent).
\<close>

theorem batch_progress_exact:
  assumes "\<not> wait_terminal (waits s)" and "latest_progress_at s \<le> now"
  shows "case apply_target_events calls m s es now turn of (calls', s', terminal) \<Rightarrow>
    silence_sequence s' = silence_sequence s + length (filter (counted m turn) es) \<and>
    latest_progress_at s' = (if list_ex (counted m turn) es then now else latest_progress_at s) \<and>
    (terminal \<longleftrightarrow> list_ex (\<lambda>e. event_matches_target e m turn \<and> ev_terminal e \<and>
       (target_id m = None \<longrightarrow> turn \<noteq> None \<and> ev_turn_id e = turn)) es)"
proof -
  obtain calls' s' terminal where r: "apply_target_events calls m s es now turn = (calls', s', terminal)"
    by (metis prod_cases3)
  have t: "terminal_matches e m turn \<longleftrightarrow> ev_terminal e \<and>
      (target_id m = None \<longrightarrow> turn \<noteq> None \<and> ev_turn_id e = turn)" for e
    by (auto simp: terminal_matches_def)
  from apply_target_events_live [OF assms r] show ?thesis unfolding r t by simp
qed

theorem batch_progress_exact_witness:
  "case apply_target_events {} (ex_target_monitor None) (initial_state 0)
     [observed ITEM_EVENT 1 [] False, observed TURN_COMPLETED 2 [(''turn_id'', JStr ''u'')] False]
     5 (Some ''u'') of (_, s', terminal) \<Rightarrow>
   silence_sequence s' = 2 \<and> latest_progress_at s' = 5 \<and> terminal"
proof -
  have "\<not> wait_terminal (waits (initial_state 0))" "latest_progress_at (initial_state 0) \<le> 5"
    by (simp_all add: initial_state_def no_waits_def wait_terminal_def latest_progress_at_def)
  from batch_progress_exact [OF this, where calls = "{}" and m = "ex_target_monitor None" and
      turn = "Some ''u''" and es = "[observed ITEM_EVENT 1 [] False, observed TURN_COMPLETED 2 [(''turn_id'', JStr ''u'')] False]"]
  show ?thesis
    by (auto simp: observed_def ex_target_monitor_def counted_def event_matches_target_def
        initial_state_def text_or_def text_of_def pause_for_def split: prod.splits)
qed

text \<open>
  The activity test the restart guard uses is sound for the watcher: an event it reports always
  matches a monitored target and either starts a new silence interval there or ends that target. It
  is not complete: the completion of an unmonitored child restarts the parent's silence clock
  although the test reports no activity.
\<close>

theorem activity_test_sound_not_complete:
  "{e. event_is_turn_activity e t} \<subseteq>
     {e. \<exists>m \<in> set (targets t). event_matches_target e m (parent_turn_id t) \<and>
        (counted m (parent_turn_id t) e \<or> terminal_matches e m (parent_turn_id t))} \<and>
   (\<exists>e t m. m \<in> set (targets t) \<and> counted m (parent_turn_id t) e \<and> \<not> event_is_turn_activity e t)"
proof
  show "{e. event_is_turn_activity e t} \<subseteq>
     {e. \<exists>m \<in> set (targets t). event_matches_target e m (parent_turn_id t) \<and>
        (counted m (parent_turn_id t) e \<or> terminal_matches e m (parent_turn_id t))}"
    by (fastforce simp: event_is_turn_activity_def list_ex_iff event_is_target_progress_def
        counted_def)
next
  let ?e = "observed TURN_COMPLETED 1 [(''agent_id'', JStr ''x'')] False"
  let ?t = "ex_target\<lparr>rt_children := []\<rparr>"
  have "ex_target_monitor None \<in> set (targets ?t)" by (simp add: ex_target_def targets_def)
  moreover have "counted (ex_target_monitor None) (parent_turn_id ?t) ?e"
    by (simp add: counted_def event_matches_target_def ex_target_monitor_def observed_def
        text_or_def text_of_def)
  moreover have "\<not> event_is_turn_activity ?e ?t"
    by (simp add: event_is_turn_activity_def targets_def ex_target_def ex_target_monitor_def
        event_is_target_progress_def terminal_matches_def observed_def text_of_def)
  ultimately show "\<exists>e t m. m \<in> set (targets t) \<and> counted m (parent_turn_id t) e \<and>
      \<not> event_is_turn_activity e t" by blast
qed

end
