(* ===== verification/WatcherSource.thy ===== *)
theory WatcherSource
  imports MonitorState EventSource
begin

text \<open>
  \<open>scripts/watcher_source.py\<close> and \<open>watcher_batch.py\<close>: incremental reads of an append-only rollout.
  A rollout is its device and inode numbers and its bytes (one \<open>char\<close> each); decoding one line
  (UTF-8, JSON with non-finite numbers rejected) is the parameter \<open>decode\<close>, \<open>None\<close> when it raises.
  The three limits are arguments so that the lemmas hold for any of them; \<open>rollout_limits\<close> has the
  constants of the code.
\<close>

section \<open>Data\<close>

record rollout_cursor =
  cu_device :: int
  cu_file_id :: int
  cu_offset :: nat

record rollout =
  st_dev :: int
  st_ino :: int
  ro_bytes :: string

record record_batch =
  rb_records :: "dict list"
  rb_cursor :: rollout_cursor

record limits =
  max_line :: nat
  max_batch :: nat
  max_records :: nat

definition rollout_limits :: limits where
  "rollout_limits = \<lparr>max_line = 8 * 1048576, max_batch = 8 * 1048576, max_records = 512\<rparr>"

type_synonym decoder = "string \<Rightarrow> json option"

section \<open>Reading\<close>

abbreviation newline :: char where
  "newline \<equiv> CHR 0x0A"

text \<open>\<open>handle.readline(n)\<close>: to the next newline, inclusive, and at most \<open>n\<close> bytes.\<close>

fun line_at :: "string \<Rightarrow> string" where
  "line_at [] = []"
| "line_at (c # cs) = (if c = newline then [c] else c # line_at cs)"

definition readline :: "nat \<Rightarrow> string \<Rightarrow> string" where
  "readline n s = take n (line_at s)"

definition decode_record :: "decoder \<Rightarrow> path \<Rightarrow> string \<Rightarrow> exn + dict" where
  "decode_record decode p line =
     (case decode line of
        None \<Rightarrow> Inl (RolloutCorruptError p ''invalid_json'')
      | Some (JObj d) \<Rightarrow> Inr d
      | Some _ \<Rightarrow> Inl (RolloutCorruptError p ''invalid_top_level''))"

text \<open>
  The reading loop: \<open>rest\<close> is the unread input, \<open>pos\<close> its position (which is also the next
  offset), \<open>n\<close> and \<open>used\<close> count the records and bytes taken.
\<close>

function read_loop ::
  "limits \<Rightarrow> decoder \<Rightarrow> path \<Rightarrow> string \<Rightarrow> nat \<Rightarrow> nat \<Rightarrow> nat \<Rightarrow> exn + dict list \<times> nat" where
  "read_loop lm decode p rest pos n used =
     (let line = readline (max_line lm + 1) rest
      in if \<not> n < max_records lm then Inr ([], pos)
         else if line = [] then Inr ([], pos)
         else if length line > max_line lm then Inl (RolloutCorruptError p ''line_too_large'')
         else if last line \<noteq> newline then Inr ([], pos)
         else if used + length line > max_batch lm then Inr ([], pos)
         else
           ebind (decode_record decode p line) (\<lambda>r.
           ebind (read_loop lm decode p (drop (length line) rest) (pos + length line) (n + 1)
             (used + length line)) (\<lambda>(rs, q). Inr (r # rs, q))))"
  by pat_completeness auto
termination
  by (relation "measure (\<lambda>(lm, decode, p, rest, pos, n, used). length rest)")
    (auto simp: readline_def Let_def intro!: diff_less)

declare read_loop.simps [simp del]

definition read_new_records ::
  "limits \<Rightarrow> decoder \<Rightarrow> path \<Rightarrow> rollout option \<Rightarrow> rollout_cursor \<Rightarrow> exn + record_batch" where
  "read_new_records lm decode p file cursor =
     (case file of
        None \<Rightarrow> Inl (FileNotFoundError p)
      | Some f \<Rightarrow>
          if st_dev f \<noteq> cu_device cursor \<or> st_ino f \<noteq> cu_file_id cursor \<or>
             length (ro_bytes f) < cu_offset cursor
          then Inl (RolloutRotatedError p)
          else
            ebind (read_loop lm decode p (drop (cu_offset cursor) (ro_bytes f))
              (cu_offset cursor) 0 0) (\<lambda>(records, next).
            Inr \<lparr>rb_records = records,
                 rb_cursor = \<lparr>cu_device = cu_device cursor, cu_file_id = cu_file_id cursor,
                              cu_offset = next\<rparr>\<rparr>))"

definition initial_cursor :: "path \<Rightarrow> rollout option \<Rightarrow> exn + rollout_cursor" where
  "initial_cursor p file =
     (case file of
        None \<Rightarrow> Inl (FileNotFoundError p)
      | Some f \<Rightarrow> Inr \<lparr>cu_device = st_dev f, cu_file_id = st_ino f,
                       cu_offset = length (ro_bytes f)\<rparr>)"

section \<open>Persisted cursors\<close>

definition load_cursor ::
  "hash \<Rightarrow> fs_env \<Rightarrow> path \<Rightarrow> string \<Rightarrow> store \<Rightarrow> exn + rollout_cursor option" where
  "load_cursor H env home sid st =
     (let p = cursor_path H home sid
      in if \<not> is_file st (abspath p) then Inr None
         else
           ebind (load_state env home p st) (\<lambda>values.
           case (dget values ''device'', dget values ''file_id'', dget values ''offset'') of
             (JInt d, JInt f, JInt n) \<Rightarrow>
               if d < 0 \<or> f < 0 \<or> n < 0 then Inl (bad_value p)
               else Inr (Some \<lparr>cu_device = d, cu_file_id = f, cu_offset = nat n\<rparr>)
           | _ \<Rightarrow> Inl (bad_value p)))"

definition save_cursor ::
  "hash \<Rightarrow> fs_env \<Rightarrow> path \<Rightarrow> string \<Rightarrow> rollout_cursor \<Rightarrow> store \<Rightarrow> exn + store" where
  "save_cursor H env home sid cursor st =
     save_state env home (cursor_path H home sid)
       [(''device'', JInt (cu_device cursor)), (''file_id'', JInt (cu_file_id cursor)),
        (''offset'', JInt (int (cu_offset cursor)))] SCHEMA_VERSION st"

section \<open>Batches\<close>

record target_batch =
  previous_cursor :: "rollout_cursor option"
  next_cursor :: rollout_cursor
  batch_events :: "observed_event list"

record source_env =
  so_limits :: limits
  so_decode :: decoder
  so_rollouts :: "path \<rightharpoonup> rollout"

definition read_target_batch ::
  "source_env \<Rightarrow> pylib \<Rightarrow> fs_env \<Rightarrow> path \<Rightarrow> runtime_target \<Rightarrow> store \<Rightarrow> exn + target_batch" where
  "read_target_batch so lib env home t st =
     ebind (load_cursor (sha lib) env home (session_id t) st) (\<lambda>cursor.
     case cursor of
       None \<Rightarrow>
         ebind (initial_cursor (rollout_file t) (so_rollouts so (rollout_file t))) (\<lambda>c.
         Inr \<lparr>previous_cursor = None, next_cursor = c, batch_events = []\<rparr>)
     | Some c \<Rightarrow>
         ebind (read_new_records (so_limits so) (so_decode so) (rollout_file t)
           (so_rollouts so (rollout_file t)) c) (\<lambda>batch.
         Inr \<lparr>previous_cursor = Some c, next_cursor = rb_cursor batch,
              batch_events =
                List.map_filter (parse_rollout_event (fromiso lib)) (rb_records batch)\<rparr>))"

definition commit_target_cursor ::
  "pylib \<Rightarrow> fs_env \<Rightarrow> path \<Rightarrow> runtime_target \<Rightarrow> target_batch \<Rightarrow> store \<Rightarrow> exn + store" where
  "commit_target_cursor lib env home t batch st =
     (if previous_cursor batch \<noteq> Some (next_cursor batch)
      then save_cursor (sha lib) env home (session_id t) (next_cursor batch) st
      else Inr st)"

section \<open>Lemmas\<close>

text \<open>The reference reader: the complete lines of a text, in order.\<close>

definition complete_line :: "string \<Rightarrow> bool" where
  "complete_line l \<longleftrightarrow> l \<noteq> [] \<and> last l = newline \<and> newline \<notin> set (butlast l)"

fun complete_lines :: "string \<Rightarrow> string \<Rightarrow> string list" where
  "complete_lines acc [] = []"
| "complete_lines acc (c # cs) =
     (if c = newline then (acc @ [c]) # complete_lines [] cs else complete_lines (acc @ [c]) cs)"

lemma line_at_prefix: "prefix (line_at s) s"
  by (induction s) auto

lemma line_at_newline: "newline \<in> set s \<Longrightarrow> line_at s \<noteq> [] \<and> last (line_at s) = newline"
  by (induction s) auto

lemma line_at_complete:
  "line_at s \<noteq> [] \<Longrightarrow> last (line_at s) = newline \<Longrightarrow> complete_line (line_at s)"
proof (induction s)
  case (Cons c s)
  then show ?case by (cases "line_at s = []") (auto simp: complete_line_def)
qed simp

lemma complete_lines_complete: "newline \<notin> set acc \<Longrightarrow> l \<in> set (complete_lines acc s) \<Longrightarrow> complete_line l"
  by (induction acc s rule: complete_lines.induct)
    (auto simp: complete_line_def split: if_splits)

lemma complete_lines_skip:
  "newline \<notin> set xs \<Longrightarrow> complete_lines acc (xs @ ys) = complete_lines (acc @ xs) ys"
  by (induction xs arbitrary: acc) auto

lemma complete_lines_line:
  assumes "complete_line l"
  shows "complete_lines [] (l @ s) = l # complete_lines [] s"
proof -
  from assms have l: "l = butlast l @ [newline]"
    by (metis append_butlast_last_id complete_line_def)
  with assms have "newline \<notin> set (butlast l)" by (simp add: complete_line_def)
  then have "complete_lines [] (butlast l @ newline # s) = l # complete_lines [] s"
    using l by (simp add: complete_lines_skip)
  then show ?thesis using l by (metis append.assoc append_Cons append_Nil)
qed

lemma complete_lines_concat:
  "list_all complete_line ls \<Longrightarrow> complete_lines [] (concat ls) = ls"
  by (induction ls) (auto simp: complete_lines_line)

lemma read_loop_lines:
  assumes "read_loop lm decode p rest pos n used = Inr (rs, q)"
  shows "\<exists>ls. list_all complete_line ls \<and> prefix (concat ls) rest \<and>
    q = pos + length (concat ls) \<and> emap (decode_record decode p) ls = Inr rs \<and>
    length rs \<le> max_records lm - n \<and> length (concat ls) \<le> max_batch lm - used"
  using assms
proof (induction lm decode p rest pos n used arbitrary: rs rule: read_loop.induct)
  case (1 lm decode p rest pos n used)
  define line where "line = readline (max_line lm + 1) rest"
  show ?case
  proof (cases "n < max_records lm \<and> line \<noteq> [] \<and> length line \<le> max_line lm \<and>
      last line = newline \<and> used + length line \<le> max_batch lm")
    case False
    with 1(2) have "rs = [] \<and> q = pos"
      by (subst (asm) read_loop.simps) (auto simp: Let_def line_def split: if_splits)
    then show ?thesis by (intro exI [of _ "[]"]) simp
  next
    case True
    then have line: "line = line_at rest"
      by (auto simp: line_def readline_def)
    from True 1(2) obtain r rs' where r: "decode_record decode p line = Inr r"
      and rs: "rs = r # rs'"
      and rec: "read_loop lm decode p (drop (length line) rest) (pos + length line) (n + 1)
        (used + length line) = Inr (rs', q)"
      by (subst (asm) (2) read_loop.simps) (auto simp: Let_def line_def err_simps split: if_splits)
    from 1(1) [OF line_def] True r rec obtain ls where
      ls: "list_all complete_line ls" "prefix (concat ls) (drop (length line) rest)"
        "q = pos + length line + length (concat ls)"
        "emap (decode_record decode p) ls = Inr rs'"
        "length rs' \<le> max_records lm - (n + 1)"
        "length (concat ls) \<le> max_batch lm - (used + length line)"
      by (auto simp: not_less)
    from line_at_prefix [of rest] have "rest = line @ drop (length line) rest"
      unfolding line prefix_def by (metis append_eq_conv_conj)
    then have "prefix (concat (line # ls)) rest"
      using ls(2) by (metis concat.simps(2) same_prefix_prefix)
    moreover have "complete_line line"
      using True line line_at_complete by metis
    ultimately show ?thesis
      using ls True r rs by (intro exI [of _ "line # ls"]) auto
  qed
qed

text \<open>The bytes from one offset to another.\<close>

definition cut :: "nat \<Rightarrow> nat \<Rightarrow> string \<Rightarrow> string" where
  "cut a b s = drop a (take b s)"

lemma cut_append:
  "a \<le> b \<Longrightarrow> b \<le> c \<Longrightarrow> c \<le> length s \<Longrightarrow> cut a b s @ cut b c s = cut a c s"
proof -
  assume "a \<le> b" "b \<le> c"
  then have "c - a = (b - a) + (c - b)" and "b - a + a = b" by simp_all
  then show ?thesis by (simp only: cut_def drop_take take_add drop_drop)
qed

lemma cut_prefix: "prefix s s' \<Longrightarrow> b \<le> length s \<Longrightarrow> cut a b s' = cut a b s"
  by (auto simp: cut_def prefix_def)

lemma read_new_records_lines:
  assumes "read_new_records lm decode p (Some f) c = Inr batch"
  shows "cu_offset c \<le> cu_offset (rb_cursor batch)"
    and "cu_offset (rb_cursor batch) \<le> length (ro_bytes f)"
    and "\<exists>ls. list_all complete_line ls \<and>
      concat ls = cut (cu_offset c) (cu_offset (rb_cursor batch)) (ro_bytes f) \<and>
      emap (decode_record decode p) ls = Inr (rb_records batch)"
    and "length (rb_records batch) \<le> max_records lm"
    and "cu_offset (rb_cursor batch) - cu_offset c \<le> max_batch lm"
proof -
  let ?o = "cu_offset c"
  from assms have size: "?o \<le> length (ro_bytes f)"
    by (auto simp: read_new_records_def split: if_splits)
  from assms obtain q where q: "cu_offset (rb_cursor batch) = q"
    and rl: "read_loop lm decode p (drop ?o (ro_bytes f)) ?o 0 0 = Inr (rb_records batch, q)"
    by (auto simp: read_new_records_def err_simps split: if_splits)
  from read_loop_lines [OF rl] obtain ls where
    ls: "list_all complete_line ls" "prefix (concat ls) (drop ?o (ro_bytes f))"
      "q = ?o + length (concat ls)" "emap (decode_record decode p) ls = Inr (rb_records batch)"
      "length (rb_records batch) \<le> max_records lm" "length (concat ls) \<le> max_batch lm" by auto
  have "length (concat ls) \<le> length (drop ?o (ro_bytes f))" using ls(2) by (rule prefix_length_le)
  then show "?o \<le> cu_offset (rb_cursor batch)" "cu_offset (rb_cursor batch) \<le> length (ro_bytes f)"
    using q ls(3) size by simp_all
  have "concat ls = cut ?o q (ro_bytes f)"
    using ls(2,3) by (auto simp: cut_def prefix_def drop_take)
  with ls(1,4) show "\<exists>ls. list_all complete_line ls \<and>
      concat ls = cut ?o (cu_offset (rb_cursor batch)) (ro_bytes f) \<and>
      emap (decode_record decode p) ls = Inr (rb_records batch)" unfolding q by blast
  show "length (rb_records batch) \<le> max_records lm"
    "cu_offset (rb_cursor batch) - ?o \<le> max_batch lm"
    using q ls(3,5,6) by simp_all
qed

section \<open>Successive reads\<close>

text \<open>
  Reading again and again while the rollout grows: each read sees the next snapshot of the file and
  continues from the cursor of the read before.
\<close>

fun read_all ::
  "limits \<Rightarrow> decoder \<Rightarrow> path \<Rightarrow> rollout list \<Rightarrow> rollout_cursor \<Rightarrow> exn + dict list \<times> rollout_cursor" where
  "read_all lm decode p [] c = Inr ([], c)"
| "read_all lm decode p (f # fs) c =
     ebind (read_new_records lm decode p (Some f) c) (\<lambda>batch.
     ebind (read_all lm decode p fs (rb_cursor batch)) (\<lambda>(rs, c').
     Inr (rb_records batch @ rs, c')))"

lemma emap_append:
  "emap f xs = Inr us \<Longrightarrow> emap f ys = Inr vs \<Longrightarrow> emap f (xs @ ys) = Inr (us @ vs)"
  by (induction xs arbitrary: us) (auto simp: err_simps)

lemma read_all_lines:
  assumes "read_all lm decode p fs c = Inr (rs, c')" and "fs \<noteq> []"
    and "sorted_wrt (\<lambda>f f'. prefix (ro_bytes f) (ro_bytes f')) fs"
  shows "cu_offset c \<le> cu_offset c' \<and> cu_offset c' \<le> length (ro_bytes (last fs)) \<and>
    (\<exists>ls. list_all complete_line ls \<and>
       concat ls = cut (cu_offset c) (cu_offset c') (ro_bytes (last fs)) \<and>
       emap (decode_record decode p) ls = Inr rs)"
  using assms
proof (induction fs arbitrary: c rs)
  case Nil
  then show ?case by simp
next
  case (Cons f fs)
  from Cons.prems(1) obtain batch rs' where
    b: "read_new_records lm decode p (Some f) c = Inr batch"
    and r: "read_all lm decode p fs (rb_cursor batch) = Inr (rs', c')"
    and rs: "rs = rb_records batch @ rs'"
    by (auto simp: err_simps)
  note l = read_new_records_lines [OF b]
  from l(3) obtain ls where ls: "list_all complete_line ls"
    "concat ls = cut (cu_offset c) (cu_offset (rb_cursor batch)) (ro_bytes f)"
    "emap (decode_record decode p) ls = Inr (rb_records batch)" by blast
  show ?case
  proof (cases "fs = []")
    case True
    then have "c' = rb_cursor batch" "rs = rb_records batch" using r rs by simp_all
    then show ?thesis using True l(1,2) ls by auto
  next
    case False
    have pre: "prefix (ro_bytes f) (ro_bytes (last fs))"
      using Cons.prems(3) False last_in_set by simp
    from Cons.IH [OF r False] Cons.prems(3) obtain ls' where
      ls': "list_all complete_line ls'"
        "concat ls' = cut (cu_offset (rb_cursor batch)) (cu_offset c') (ro_bytes (last fs))"
        "emap (decode_record decode p) ls' = Inr rs'"
      and o': "cu_offset (rb_cursor batch) \<le> cu_offset c'"
        "cu_offset c' \<le> length (ro_bytes (last fs))" by auto
    have "concat (ls @ ls') = cut (cu_offset c) (cu_offset c') (ro_bytes (last fs))"
      using ls(2) ls'(2) cut_prefix [OF pre l(2)] cut_append [OF l(1) o'] by simp
    moreover have "emap (decode_record decode p) (ls @ ls') = Inr rs"
      using emap_append [OF ls(3) ls'(3)] rs by simp
    moreover have "list_all complete_line (ls @ ls')" using ls(1) ls'(1) by simp
    ultimately have "\<exists>ls. list_all complete_line ls \<and>
        concat ls = cut (cu_offset c) (cu_offset c') (ro_bytes (last fs)) \<and>
        emap (decode_record decode p) ls = Inr rs" by blast
    then show ?thesis using False l(1) o' by simp
  qed
qed

text \<open>Enough input that decodes: the loop takes at least the first line.\<close>

lemma read_loop_total:
  assumes "\<forall>l \<in> set (complete_lines [] rest). length l \<le> max_line lm \<and>
      (\<exists>r. decode_record decode p l = Inr r)"
    and "length (line_at (drop (length (concat (complete_lines [] rest))) rest)) \<le> max_line lm"
  shows "\<exists>rs q. read_loop lm decode p rest pos n used = Inr (rs, q)"
  using assms
proof (induction lm decode p rest pos n used rule: read_loop.induct)
  case (1 lm decode p rest pos n used)
  define line where "line = readline (max_line lm + 1) rest"
  obtain tl where rest: "rest = line_at rest @ tl"
    using line_at_prefix by (metis prefix_def)
  show ?case
  proof (cases "line_at rest \<noteq> [] \<and> last (line_at rest) = newline")
    case True
    then have c: "complete_line (line_at rest)" using line_at_complete by blast
    then have cl: "complete_lines [] rest = line_at rest # complete_lines [] tl"
      using complete_lines_line rest by metis
    have line: "line = line_at rest"
      using 1(2) cl by (simp add: line_def readline_def)
    have tl: "drop (length line) rest = tl" using line rest by (metis append_eq_conv_conj)
    have "length (line_at (drop (length (concat (complete_lines [] tl))) tl)) \<le> max_line lm"
      using 1(3) unfolding cl by (subst (asm) (2) rest) simp
    then have IH: "\<exists>rs q. read_loop lm decode p tl (pos + length line) (n + 1) (used + length line) =
        Inr (rs, q)" if "n < max_records lm" "used + length line \<le> max_batch lm"
      using 1(1) [OF line_def] 1(2) that True cl line tl by (force simp: not_less)
    have rl: "readline (Suc (max_line lm)) rest = line_at rest"
      using line by (simp add: line_def)
    obtain r where r: "decode_record decode p line = Inr r" and short: "length line \<le> max_line lm"
      using 1(2) cl line by auto
    show ?thesis
    proof (cases "n < max_records lm \<and> used + length line \<le> max_batch lm")
      case yes: True
      with IH obtain rs q where "read_loop lm decode p tl (pos + length line) (n + 1)
        (used + length line) = Inr (rs, q)" by blast
      with yes r short True tl show ?thesis
        by (subst read_loop.simps) (simp add: Let_def rl line)
    next
      case no: False
      with r short True show ?thesis
        by (subst read_loop.simps) (auto simp: Let_def rl line)
    qed
  next
    case False
    then have "newline \<notin> set rest" using line_at_newline by blast
    then have "complete_lines [] rest = []"
      using complete_lines_skip [of rest "[]" "[]"] by simp
    then show ?thesis
      using False 1(3) by (subst read_loop.simps) (auto simp: Let_def readline_def)
  qed
qed

lemma read_loop_advances:
  assumes "read_loop lm decode p rest pos 0 0 = Inr (rs, q)" and "complete_lines [] rest \<noteq> []"
    and "0 < max_records lm" and "\<forall>l \<in> set (complete_lines [] rest). length l \<le> max_batch lm"
  shows "pos < q"
proof -
  have "newline \<in> set rest"
    using assms(2) complete_lines_skip [of rest "[]" "[]"] by auto
  then have nl: "line_at rest \<noteq> [] \<and> last (line_at rest) = newline" by (rule line_at_newline)
  then have "complete_lines [] rest = line_at rest # complete_lines [] (drop (length (line_at rest)) rest)"
    using complete_lines_line line_at_complete line_at_prefix
    by (metis append_eq_conv_conj prefix_def)
  then have short: "length (line_at rest) \<le> max_batch lm" using assms(4) by simp
  have long: "length (line_at rest) \<le> max_line lm"
    using assms(1,3) nl by (subst (asm) read_loop.simps) (auto simp: Let_def readline_def split: if_splits)
  then have rl: "readline (Suc (max_line lm)) rest = line_at rest" by (simp add: readline_def)
  obtain rs' where "read_loop lm decode p (drop (length (line_at rest)) rest)
      (pos + length (line_at rest)) 1 (length (line_at rest)) = Inr (rs', q)"
    using assms(1,3) nl short long
    by (subst (asm) read_loop.simps) (auto simp: Let_def rl err_simps split: if_splits)
  from read_loop_lines [OF this] nl show ?thesis by auto
qed

section \<open>Properties\<close>

text \<open>
  C10: exactly-once reading: however a growing rollout is cut into reads, the records delivered are
  precisely the decoded complete lines between the first and the last cursor, each once and in
  order; no byte of a complete line is skipped, none is read twice, and the cursor never enters an
  unfinished line.
\<close>

theorem rollout_read_exactly_once:
  assumes "read_all lm decode p fs c = Inr (rs, c')" and "fs \<noteq> []"
    and "sorted_wrt (\<lambda>f f'. prefix (ro_bytes f) (ro_bytes f')) fs"
  shows "let text = cut (cu_offset c) (cu_offset c') (ro_bytes (last fs))
    in concat (complete_lines [] text) = text \<and>
       emap (decode_record decode p) (complete_lines [] text) = Inr rs"
proof -
  obtain ls where "list_all complete_line ls"
    "concat ls = cut (cu_offset c) (cu_offset c') (ro_bytes (last fs))"
    "emap (decode_record decode p) ls = Inr rs"
    using read_all_lines [OF assms] by blast
  then show ?thesis using complete_lines_concat [of ls] by (metis (full_types))
qed

text \<open>
  C11: one read is bounded and makes progress: it takes at most the configured number of records
  and bytes; and on input whose complete lines decode and fit the limits it succeeds, moving the
  cursor forward whenever a complete line is waiting.
\<close>

theorem rollout_read_progresses:
  assumes "f = \<lparr>st_dev = cu_device c, st_ino = cu_file_id c, ro_bytes = seen @ rest\<rparr>"
    and "cu_offset c = length seen"
    and "0 < max_records lm" and "max_line lm \<le> max_batch lm"
    and "\<forall>l \<in> set (complete_lines [] rest). length l \<le> max_line lm \<and>
      (\<exists>r. decode_record decode p l = Inr r)"
    and "length (line_at (drop (length (concat (complete_lines [] rest))) rest)) \<le> max_line lm"
  shows "\<exists>batch. read_new_records lm decode p (Some f) c = Inr batch \<and>
    length (rb_records batch) \<le> max_records lm \<and>
    cu_offset (rb_cursor batch) - cu_offset c \<le> max_batch lm \<and>
    (complete_lines [] rest \<noteq> [] \<longrightarrow> cu_offset c < cu_offset (rb_cursor batch))"
proof -
  obtain rs q where rl: "read_loop lm decode p rest (length seen) 0 0 = Inr (rs, q)"
    using read_loop_total [OF assms(5,6)] by blast
  let ?b = "\<lparr>rb_records = rs, rb_cursor = \<lparr>cu_device = cu_device c, cu_file_id = cu_file_id c,
    cu_offset = q\<rparr>\<rparr>"
  have b: "read_new_records lm decode p (Some f) c = Inr ?b"
    using rl assms(1,2) by (simp add: read_new_records_def)
  have "complete_lines [] rest \<noteq> [] \<Longrightarrow> length seen < q"
    using read_loop_advances [OF rl _ assms(3)] assms(4,5) by (meson order_trans)
  then show ?thesis using b read_new_records_lines(4,5) [OF b] assms(2) by auto
qed

section \<open>A concrete rollout\<close>

definition ex_decode :: decoder where
  "ex_decode l = Some (JObj [(''line'', JStr l)])"

definition ex_cursor :: rollout_cursor where
  "ex_cursor = \<lparr>cu_device = 1, cu_file_id = 2, cu_offset = 0\<rparr>"

definition ex_rollout :: "string \<Rightarrow> rollout" where
  "ex_rollout s = \<lparr>st_dev = 1, st_ino = 2, ro_bytes = s\<rparr>"

lemma ex_read_all:
  "read_all rollout_limits ex_decode [] [ex_rollout ''a\<newline>'', ex_rollout ''a\<newline>b\<newline>c'']
     ex_cursor = Inr ([[(''line'', JStr ''a\<newline>'')], [(''line'', JStr ''b\<newline>'')]],
       ex_cursor\<lparr>cu_offset := 4\<rparr>)"
  by (simp add: ex_rollout_def ex_cursor_def read_new_records_def read_loop.simps readline_def
      rollout_limits_def ex_decode_def decode_record_def Let_def)

theorem rollout_read_exactly_once_witness:
  "emap (decode_record ex_decode []) (complete_lines []
     (cut 0 4 (ro_bytes (ex_rollout ''a\<newline>b\<newline>c'')))) =
   Inr [[(''line'', JStr ''a\<newline>'')], [(''line'', JStr ''b\<newline>'')]]"
  using rollout_read_exactly_once [OF ex_read_all]
  by (simp add: ex_rollout_def ex_cursor_def Let_def)

theorem rollout_read_progresses_witness:
  "\<exists>batch. read_new_records rollout_limits ex_decode [] (Some (ex_rollout ''a\<newline>b'')) ex_cursor =
     Inr batch \<and> 0 < cu_offset (rb_cursor batch)"
  using rollout_read_progresses [of "ex_rollout ''a\<newline>b''" ex_cursor "[]" "''a\<newline>b''"
      rollout_limits ex_decode "[]"]
  by (auto simp: ex_rollout_def ex_cursor_def rollout_limits_def ex_decode_def decode_record_def)

end
