(* ===== verification/SessionView.thy ===== *)
theory SessionView
  imports MonitorState
begin

text \<open>
  The typed view of a session document: which identities a readable document has, and how
  replacing one monitor acts on the typed targets. The watcher's completion proof and the hook
  proofs share these lemmas.
\<close>

section \<open>Documents through updates\<close>

lemma wf_raw_target: "wf_json (JObj vals) \<Longrightarrow> raw_target vals tid p = Inr d \<Longrightarrow> wf_json (JObj d)"
  by (auto simp: raw_target_def split: option.splits json.splits dest: wf_json_dget_obj
      simp del: wf_json.simps)

lemma wf_put_target:
  assumes "wf_json (JObj vals)" and "wf_json (JObj d)"
  shows "wf_json (JObj (put_target vals tid d))"
  using assms wf_json_dget_obj [OF assms(1), of "''children''"]
  by (auto simp: put_target_def simp del: wf_json.simps intro!: wf_json_dset
      split: option.splits json.splits)

lemma dget_put_target [simp]:
  "k \<noteq> ''parent'' \<Longrightarrow> k \<noteq> ''children'' \<Longrightarrow> dget (put_target vals tid d) k = dget vals k"
  by (auto simp: put_target_def split: option.splits json.splits)

lemma wf_dset_atom:
  "wf_json (JObj vals) \<Longrightarrow> wf_json (JObj (dset k (JStr x) vals))"
  "wf_json (JObj vals) \<Longrightarrow> wf_json (JObj (dset k (JInt i) vals))"
  "wf_json (JObj vals) \<Longrightarrow> wf_json (JObj (dset k (JBool b) vals))"
  by (rule wf_json_dset; simp)+

section \<open>The typed view\<close>

text \<open>Identities of a parsed session: the parent has none, the children have distinct names.\<close>

definition ids_ok :: "runtime_target \<Rightarrow> bool" where
  "ids_ok t \<longleftrightarrow> (case rt_parent t of None \<Rightarrow> True | Some m \<Rightarrow> target_id m = None) \<and>
     (\<forall>m \<in> set (rt_children t). target_id m \<noteq> None \<and> target_id m \<noteq> Some []) \<and>
     distinct (map target_id (rt_children t))"

lemma target_child_ids:
  "emap (target_child lib p) cs = Inr ms \<Longrightarrow>
   map target_id ms = map (Some \<circ> fst) cs \<and> (\<forall>m \<in> set ms. target_id m \<noteq> Some [])"
proof (induction cs arbitrary: ms)
  case (Cons kv cs)
  then obtain m ms' where m: "target_child lib p kv = Inr m"
    and ms': "emap (target_child lib p) cs = Inr ms'" "ms = m # ms'" by (auto simp: err_simps)
  have "target_id m = Some (fst kv)" and "fst kv \<noteq> []"
    using m target_child_id [of lib p "fst kv" "snd kv" m]
    by (cases kv; auto simp: target_child_def split: json.splits if_splits)+
  with Cons.IH [OF ms'(1)] ms'(2) show ?case by simp
qed simp

lemma parsed_ids_ok:
  assumes "runtime_target_from_values lib env home p vals = Inr t" and "wf_json (JObj vals)"
  shows "ids_ok t"
proof -
  from assms(1) obtain cs where cs: "dget vals ''children'' = JObj cs"
    and em: "emap (target_child lib p) cs = Inr (rt_children t)"
    by (auto simp: runtime_target_iff target_children_def split: json.splits)
  have "ddistinct cs" using wf_json_dget_obj [OF assms(2) cs] by simp
  with target_child_ids [OF em] have "distinct (map target_id (rt_children t))"
    by (simp add: ddistinct_def distinct_map inj_on_def)
  moreover have "\<forall>m \<in> set (rt_children t). target_id m \<noteq> None \<and> target_id m \<noteq> Some []"
    using target_child_ids [OF em] by (metis comp_apply in_set_conv_nth length_map nth_map
        option.distinct(1))
  moreover from assms(1) have "case rt_parent t of None \<Rightarrow> True | Some m \<Rightarrow> target_id m = None"
    by (auto simp: runtime_target_iff target_parent_def err_simps dest: target_monitor_id
        split: json.splits option.splits)
  ultimately show ?thesis by (simp add: ids_ok_def)
qed

lemma on_monitor_targets:
  assumes "ids_ok t" and "m \<in> set (targets t)" and "target_id m' = target_id m"
  shows "targets (on_monitor (target_id m) (\<lambda>_. m') t) =
    map (\<lambda>x. if target_id x = target_id m then m' else x) (targets t)"
  using assms
  by (cases "target_id m"; cases "rt_parent t")
    (auto simp: on_monitor_def targets_def ids_ok_def intro!: map_idI [symmetric])

lemma on_monitor_ids:
  "ids_ok t \<Longrightarrow> m \<in> set (targets t) \<Longrightarrow> target_id m' = target_id m \<Longrightarrow>
   map target_id (targets (on_monitor (target_id m) (\<lambda>_. m') t)) = map target_id (targets t)"
  by (auto simp: on_monitor_targets)

lemma on_monitor_same: "ids_ok t \<Longrightarrow> m \<in> set (targets t) \<Longrightarrow> on_monitor (target_id m) (\<lambda>_. m) t = t"
  by (cases "target_id m"; cases "rt_parent t")
    (auto simp: on_monitor_def targets_def ids_ok_def distinct_map inj_on_def intro!: map_idI
      runtime_target.equality)

lemma on_monitor_twice:
  "target_id m1 = i \<Longrightarrow> on_monitor i (\<lambda>_. m2) (on_monitor i (\<lambda>_. m1) t) = on_monitor i (\<lambda>_. m2) t"
  by (cases i) (auto simp: on_monitor_def option.map_comp comp_def)

lemma on_monitor_member:
  "ids_ok t \<Longrightarrow> m \<in> set (targets t) \<Longrightarrow> target_id m' = target_id m \<Longrightarrow>
   m' \<in> set (targets (on_monitor (target_id m) (\<lambda>_. m') t))"
  by (auto simp: on_monitor_targets image_iff)

lemma on_monitor_others:
  "ids_ok t \<Longrightarrow> m \<in> set (targets t) \<Longrightarrow> target_id m' = target_id m \<Longrightarrow>
   x \<in> set (targets t) \<Longrightarrow> target_id x \<noteq> target_id m \<Longrightarrow>
   x \<in> set (targets (on_monitor (target_id m) (\<lambda>_. m') t))"
  by (auto simp: on_monitor_targets image_iff)

lemma targets_distinct: "ids_ok t \<Longrightarrow> distinct (map target_id (targets t))"
  by (cases "rt_parent t") (auto simp: ids_ok_def targets_def)

lemma targets_named: "ids_ok t \<Longrightarrow> m \<in> set (targets t) \<Longrightarrow> target_id m \<noteq> Some []"
  by (cases "rt_parent t") (auto simp: ids_ok_def targets_def)

lemma on_monitor_fields [simp]:
  "session_id (on_monitor tid f t) = session_id t" "runtime_file (on_monitor tid f t) = runtime_file t"
  "rt_parent_complete (on_monitor tid f t) = rt_parent_complete t"
  "turn_activity (on_monitor tid f t) = turn_activity t"
  "parent_turn_id (on_monitor tid f t) = parent_turn_id t"
  by (simp_all add: on_monitor_def split: option.splits)

section \<open>Revisions\<close>

lemma dict_eq_value:
  "dict_eq a b \<Longrightarrow> map_of a k = Some v \<Longrightarrow> \<exists>w. map_of b k = Some w \<and> py_eq v w"
  by (frule map_of_SomeD) (force simp: list_all_iff split: option.splits)

lemma bumped_revision_differs:
  assumes "get_optional_integer vals ''revision'' p 0 = Inr n"
  shows "\<not> dict_eq (dset ''revision'' (JInt (n + 1)) vals') vals"
proof
  assume "dict_eq (dset ''revision'' (JInt (n + 1)) vals') vals"
  then obtain w where "map_of vals ''revision'' = Some w" and "py_eq (JInt (n + 1)) w"
    using dict_eq_value [of _ vals "''revision''" "JInt (n + 1)"] by fastforce
  with assms show False
    by (auto simp: get_optional_integer_def dget_or_def split: json.splits if_splits)
qed

section \<open>Updates under the document lock\<close>

text \<open>
  \<open>mutate_existing_state\<close> with a closure that only reads and changes the loaded values, the form
  the hooks, the manager and the controls use: the closure's result, and the values it left.
\<close>

definition locked_update ::
  "fs_env \<Rightarrow> path \<Rightarrow> path \<Rightarrow> (dict \<Rightarrow> exn + 'r \<times> dict) \<Rightarrow> store \<Rightarrow> (exn + 'r option) \<times> store" where
  "locked_update env home p f st =
     (case mutate_existing_state env home p (\<lambda>_ v. (f v, ())) (\<lambda>_ s. Inr s) () st of
        (r, _, st') \<Rightarrow> (r, st'))"

lemma load_state_safe:
  "load_state env home p st = Inr vals \<Longrightarrow> \<exists>r a. safe_absolute_path env home p = Inr (r, a) \<and>
     load_state env r a st = Inr vals \<and> a = abspath p"
  using load_state_normalised [of env home p _ _ st]
  by (auto simp: safe_absolute_path_Inr) (auto simp: load_state_def err_simps safe_absolute_path_Inr)

lemma refused_mutation:
  assumes "load_state env home p st = Inr vals" and "wf_json (JObj vals)"
    and "\<And>r vals'. f vals = Inr (r, vals') \<Longrightarrow> r = None \<and> dict_eq vals' vals"
  shows "(\<exists>e. locked_update env home p f st = (Inl e, st)) \<or>
    locked_update env home p f st \<in>
      {(Inr None, st), (Inr (Some None), st)}"
proof -
  from load_state_safe [OF assms(1)] obtain r a where "safe_absolute_path env home p = Inr (r, a)"
    and "load_state env r a st = Inr vals" by blast
  with assms(3) show ?thesis
    by (cases "f vals") (auto simp: locked_update_def mutate_existing_state_def Let_def simp del: py_eq.simps)
qed

lemma committed_mutation:
  assumes "load_state env home p st = Inr vals" and "is_file st (abspath p)"
    and "\<not> lock_busy env (abspath p)" and "f vals = Inr (r, vals')" and "\<not> dict_eq vals' vals"
  shows "locked_update env home p f st =
    (Inr (Some r), atomic_json_write (abspath p) SCHEMA_VERSION vals' st)"
proof -
  from load_state_safe [OF assms(1)] obtain r where "safe_absolute_path env home p = Inr (r, abspath p)"
    and "load_state env r (abspath p) st = Inr vals" by blast
  with assms(2-5) show ?thesis
    by (auto simp: locked_update_def mutate_existing_state_def Let_def simp del: py_eq.simps)
qed

section \<open>A stored session\<close>

definition ex_runtime_file :: path where
  "ex_runtime_file = [''h'', ''p'', ''runtime'', ''s.json'']"

definition ex_store :: store where
  "ex_store = [ex_runtime_file \<mapsto> Regular (Some (JObj ((''schema_version'', JInt 1) # ex_values)))]"

lemma ex_safe: "safe_absolute_path ex_env [''h'', ''p''] ex_runtime_file =
  Inr ([''h'', ''p''], ex_runtime_file)"
  by (simp add: safe_absolute_path_Inr no_redirects ex_env_def ex_runtime_file_def abspath_def
      strictly_below_def)

lemma ex_load: "load_state ex_env [''h'', ''p''] ex_runtime_file ex_store = Inr ex_values"
proof -
  have "ensure_existing_components_are_direct ex_env h p = Inr ()" for h p
    by (rule no_redirects) (simp add: ex_env_def)
  then show ?thesis
    using ex_safe by (simp add: load_state_def ensure_direct_regular_file_def ex_store_def
        check_schema_def SCHEMA_VERSION_def) (simp add: ex_values_def)
qed

end
