(* ===== verification/WatcherEngine.thy ===== *)
theory WatcherEngine
  imports WatcherProgress WatcherSource SessionView
begin

text \<open>
  \<open>scripts/watcher_engine.py\<close> with \<open>watcher_actions.py\<close>, \<open>watcher_completion.py\<close>,
  \<open>watcher_heartbeat.py\<close>, \<open>watcher_commit.py\<close>, \<open>watcher_failure.py\<close> and \<open>watcher_runtime.py\<close>: one
  tick of the passive watcher over every session document. A document is processed under its lock
  by \<open>mutate_existing_state\<close>; what the processor changes in memory survives an exception, what
  it changes in the document does not. The directory listing of \<open>glob\<close> is an argument of the tick.
\<close>

section \<open>Detector actions\<close>

fun action_code :: "stall_action \<Rightarrow> diagnostic_code option" where
  "action_code WARNING = Some OBSERVABLE_PROGRESS_SILENCE"
| "action_code CRITICAL = Some BOTTLENECK_CRITICAL"
| "action_code _ = None"

definition diagnostic_for_action ::
  "hash \<Rightarrow> stall_action \<Rightarrow> runtime_target \<Rightarrow> monitor_target \<Rightarrow> silence_state \<Rightarrow> tick_context \<Rightarrow>
   target_diagnostic option" where
  "diagnostic_for_action H a t m d ctx =
     (case action_code a of
        None \<Rightarrow> None
      | Some code \<Rightarrow>
          Some \<lparr>td_occurred_at = tc_wall_time ctx, td_code = code, td_target = Some m,
                td_state = ACTIVE,
                td_elapsed_ms = Some (clamp_ms (tc_now ctx - latest_progress_at d)),
                td_event_id = Some (lifecycle_event_id H code t m)\<rparr>)"

section \<open>Completion\<close>

definition set_detector :: "detector_key \<Rightarrow> silence_state \<Rightarrow> watcher \<Rightarrow> watcher" where
  "set_detector k d s = s\<lparr>w_detectors := (w_detectors s)(k \<mapsto> d)\<rparr>"

definition terminal_waits :: wait_state where
  "terminal_waits = no_waits\<lparr>child_terminal := True\<rparr>"

fun mark_all_terminal :: "monitor_target list \<Rightarrow> path \<Rightarrow> dict \<Rightarrow> exn + dict" where
  "mark_all_terminal [] p values = Inr values"
| "mark_all_terminal (m # ms) p values =
     ebind (mark_target_terminal values (target_id m) p) (\<lambda>(_, v). mark_all_terminal ms p v)"

definition close_detector :: "tick_context \<Rightarrow> runtime_target \<Rightarrow> monitor_target \<Rightarrow> watcher \<Rightarrow> watcher" where
  "close_detector ctx t m s =
     set_detector (key_of t m)
       (set_wait_state
         (case w_detectors s (key_of t m) of None \<Rightarrow> initial_state (tc_now ctx) | Some d \<Rightarrow> d)
         terminal_waits (tc_now ctx) False) s"

definition complete_target ::
  "monitor_env \<Rightarrow> tick_context \<Rightarrow> runtime_target \<Rightarrow> dict \<Rightarrow> (exn, watcher, dict) step" where
  "complete_target W ctx t values =
     sbind (slift (mark_all_terminal (targets t) (runtime_file t) values)) (\<lambda>values1.
     let eid = completion_event_id (sha (me_lib W)) t in
     sbind (slift (claim_completion values1 eid (runtime_file t))) (\<lambda>(claimed, values2).
     sbind (if claimed
            then record_diagnostic W t
              ((target_note (tc_wall_time ctx) WATCHER_COMPLETED None (Some eid))
                 \<lparr>td_state := COMPLETED\<rparr>)
            else sret ()) (\<lambda>_.
     sbind (smodify (fold (close_detector ctx t) (targets t))) (\<lambda>_.
     sret values2))))"

definition finish_if_terminal ::
  "monitor_env \<Rightarrow> tick_context \<Rightarrow> runtime_target \<Rightarrow> dict \<Rightarrow>
   (exn, watcher, bool option \<times> dict) step" where
  "finish_if_terminal W ctx t values =
     (if rt_parent_complete t
      then sbind (complete_target W ctx t values) (\<lambda>v. sret (Some False, v))
      else if list_all mt_terminal (targets t) then sret (Some False, values)
      else sret (None, values))"

section \<open>Heartbeats\<close>

definition heartbeat_note :: "tick_context \<Rightarrow> silence_state list \<Rightarrow> target_diagnostic" where
  "heartbeat_note ctx states =
     (target_note (tc_wall_time ctx) HEARTBEAT_ACTIVE None None)
       \<lparr>td_state := (if list_all (\<lambda>d. wait_paused (waits d)) states then PAUSED_STATE else ACTIVE),
        td_elapsed_ms := Some (clamp_ms
          (tc_now ctx - Max (set (map latest_progress_at states))))\<rparr>"

definition set_heartbeat :: "string \<Rightarrow> time \<Rightarrow> watcher \<Rightarrow> watcher" where
  "set_heartbeat sid t s = s\<lparr>w_heartbeat_at := (w_heartbeat_at s)(sid \<mapsto> t)\<rparr>"

definition record_heartbeat ::
  "monitor_env \<Rightarrow> tick_context \<Rightarrow> runtime_target \<Rightarrow> silence_state list \<Rightarrow> bool \<Rightarrow>
   (exn, watcher, unit) step" where
  "record_heartbeat W ctx t states actionable =
     sbind (sget (\<lambda>s. case w_heartbeat_at s (session_id t) of
              None \<Rightarrow> tc_now ctx | Some p \<Rightarrow> p)) (\<lambda>previous.
     sbind (smodify (set_heartbeat (session_id t) previous)) (\<lambda>_.
     if actionable then smodify (set_heartbeat (session_id t) (tc_now ctx))
     else if states = [] \<or> tc_now ctx - previous < warning (rt_thresholds t) then sret ()
     else
       sbind (log_target_diagnostic W t (heartbeat_note ctx states)) (\<lambda>_.
       smodify (set_heartbeat (session_id t) (tc_now ctx)))))"

section \<open>Evaluation of one session\<close>

definition evaluate_monitor ::
  "monitor_env \<Rightarrow> tick_context \<Rightarrow> runtime_target \<Rightarrow> (detector_key \<times> silence_state) list \<Rightarrow>
   monitor_target \<Rightarrow> bool \<times> bool \<Rightarrow> (exn, watcher, bool \<times> bool) step" where
  "evaluate_monitor W ctx t states m flags =
     (let (active, actionable) = flags
      in case map_of states (key_of t m) of
           None \<Rightarrow> slift (Inl KeyErr)
         | Some d \<Rightarrow>
             let (d', action) = evaluate d (tc_now ctx) (rt_thresholds t)
             in sbind (smodify (set_detector (key_of t m) d')) (\<lambda>_.
                case diagnostic_for_action (sha (me_lib W)) action t m d' ctx of
                  None \<Rightarrow> sret (active \<or> \<not> wait_terminal (waits d'), actionable)
                | Some note \<Rightarrow>
                    sbind (record_diagnostic W t note) (\<lambda>_.
                    sret (active \<or> \<not> wait_terminal (waits d'), True))))"

definition evaluate_target ::
  "monitor_env \<Rightarrow> tick_context \<Rightarrow> runtime_target \<Rightarrow> dict \<Rightarrow> observed_event list \<Rightarrow>
   (exn, watcher, bool \<times> dict) step" where
  "evaluate_target W ctx t values events =
     sbind (prepare W ctx t events values) (\<lambda>(progress, values1).
     sbind (slift (persist_turn_activity values1 (runtime_file t)
              (tp_activity progress \<or> tp_parent_terminal progress))) (\<lambda>values2.
     if tp_parent_terminal progress
     then sbind (complete_target W ctx t values2) (\<lambda>values3. sret (False, values3))
     else
       sbind (sfor (evaluate_monitor W ctx t (tp_states progress)) (targets t) (False, False))
         (\<lambda>(active, actionable).
       sbind (record_heartbeat W ctx t (map snd (tp_states progress)) actionable) (\<lambda>_.
       sret (active, values2)))))"

definition tick_target ::
  "monitor_env \<Rightarrow> tick_context \<Rightarrow> runtime_target \<Rightarrow> dict \<Rightarrow> observed_event list \<Rightarrow>
   (exn, watcher, bool \<times> dict) step" where
  "tick_target W ctx t values events =
     sbind (finish_if_terminal W ctx t values) (\<lambda>(finished, values1).
     case finished of
       Some active \<Rightarrow> sret (active, values1)
     | None \<Rightarrow> evaluate_target W ctx t values1 events)"

section \<open>Committing a snapshot\<close>

type_synonym target_processor =
  "runtime_target \<Rightarrow> dict \<Rightarrow> observed_event list \<Rightarrow> (exn, watcher, bool \<times> dict) step"

text \<open>The closure \<open>process\<close>: its second state component is the flag \<open>accepted\<close>.\<close>

definition process_snapshot ::
  "monitor_env \<Rightarrow> target_processor \<Rightarrow> runtime_target \<Rightarrow> target_batch option \<Rightarrow>
   watcher \<times> bool \<Rightarrow> dict \<Rightarrow> (exn + bool \<times> dict) \<times> (watcher \<times> bool)" where
  "process_snapshot W processor snap batch sa values =
     (let (s, accepted) = sa in
      if dget values ''enabled'' \<noteq> JBool True then (Inr (False, values), sa)
      else case runtime_target_from_values (me_lib W) (me_fs W) (me_home W) (runtime_file snap)
                  values of
        Inl e \<Rightarrow> (Inl e, sa)
      | Inr t \<Rightarrow>
          if revision t \<noteq> revision snap
          then (Inr (rt_parent_complete t \<or> \<not> list_all mt_terminal (targets t), values), sa)
          else (case processor t values (case batch of None \<Rightarrow> [] | Some b \<Rightarrow> batch_events b) s of
              (Inl e, s') \<Rightarrow> (Inl e, (s', True))
            | (Inr (active, values'), s') \<Rightarrow>
                (Inr (active, if dict_eq values' values then values'
                              else dset ''revision'' (JInt (revision t + 1)) values'),
                 (s', True))))"

definition commit_batch ::
  "monitor_env \<Rightarrow> runtime_target \<Rightarrow> target_batch option \<Rightarrow> watcher \<times> bool \<Rightarrow> store \<Rightarrow> exn + store" where
  "commit_batch W snap batch sa st =
     (case batch of
        Some b \<Rightarrow> if snd sa then commit_target_cursor (me_lib W) (me_fs W) (me_home W) snap b st
                  else Inr st
      | None \<Rightarrow> Inr st)"

definition commit_runtime_snapshot ::
  "monitor_env \<Rightarrow> target_processor \<Rightarrow> runtime_target \<Rightarrow> target_batch option \<Rightarrow>
   (exn, watcher \<times> store, bool) step" where
  "commit_runtime_snapshot W processor snap batch = (\<lambda>(s, st).
     case mutate_existing_state (me_fs W) (me_home W) (runtime_file snap)
            (process_snapshot W processor snap batch) (commit_batch W snap batch) (s, False) st of
       (Inl e, (s', _), st') \<Rightarrow> (Inl e, (s', st'))
     | (Inr result, (s', _), st') \<Rightarrow> (Inr (result = Some True), (s', st')))"

section \<open>Failed rollouts\<close>

definition fail_session ::
  "monitor_env \<Rightarrow> tick_context \<Rightarrow> diagnostic_code \<Rightarrow> runtime_target \<Rightarrow>
   watcher \<Rightarrow> dict \<Rightarrow> (exn + unit \<times> dict) \<times> watcher" where
  "fail_session W ctx code snap s values =
     (if dget values ''enabled'' \<noteq> JBool True then (Inr ((), values), s)
      else case runtime_target_from_values (me_lib W) (me_fs W) (me_home W) (runtime_file snap)
                  values of
        Inl e \<Rightarrow> (Inl e, s)
      | Inr t \<Rightarrow>
          if revision t \<noteq> revision snap then (Inr ((), values), s)
          else
            sbind (log_target_diagnostic W t
              ((target_note (tc_wall_time ctx) code None None)\<lparr>td_state := FAILED_CLOSED\<rparr>)) (\<lambda>_.
            sbind (smodify (\<lambda>x. x\<lparr>w_failed := insert (session_id t) (w_failed x)\<rparr>)) (\<lambda>_.
            sret ((), values))) s)"

definition record_rollout_failure ::
  "monitor_env \<Rightarrow> tick_context \<Rightarrow> diagnostic_code \<Rightarrow> runtime_target \<Rightarrow>
   (exn, watcher \<times> store, unit) step" where
  "record_rollout_failure W ctx code snap = (\<lambda>(s, st).
     case mutate_existing_state (me_fs W) (me_home W) (runtime_file snap)
            (fail_session W ctx code snap) (\<lambda>_ st. Inr st) s st of
       (Inl e, s', st') \<Rightarrow> (Inl e, (s', st'))
     | (Inr _, s', st') \<Rightarrow> (Inr (), (s', st')))"

section \<open>One tick\<close>

definition snapshot_target ::
  "monitor_env \<Rightarrow> path \<Rightarrow> watcher \<Rightarrow> dict \<Rightarrow> (exn + runtime_target option \<times> dict) \<times> watcher" where
  "snapshot_target W p s values =
     (if dget values ''enabled'' \<noteq> JBool True then (Inr (None, values), s)
      else (ebind (runtime_target_from_values (me_lib W) (me_fs W) (me_home W) p values)
              (\<lambda>t. Inr (Some t, values)), s))"

definition read_snapshot ::
  "monitor_env \<Rightarrow> path \<Rightarrow> (exn, watcher \<times> store, runtime_target option) step" where
  "read_snapshot W p = (\<lambda>(s, st).
     case mutate_existing_state (me_fs W) (me_home W) p (snapshot_target W p) (\<lambda>_ st. Inr st)
            s st of
       (Inl e, s', st') \<Rightarrow> (Inl e, (s', st'))
     | (Inr (Some (Some t)), s', st') \<Rightarrow> (Inr (Some t), (s', st'))
     | (Inr _, s', st') \<Rightarrow> (Inr None, (s', st')))"

definition read_batch ::
  "monitor_env \<Rightarrow> source_env \<Rightarrow> runtime_target \<Rightarrow> (exn, watcher \<times> store, target_batch) step" where
  "read_batch W so t = (\<lambda>(s, st).
     (read_target_batch so (me_lib W) (me_fs W) (me_home W) t st, (s, st)))"

definition try_batch ::
  "monitor_env \<Rightarrow> source_env \<Rightarrow> tick_context \<Rightarrow> runtime_target \<Rightarrow>
   (exn, watcher \<times> store, target_batch option) step" where
  "try_batch W so ctx t = (\<lambda>ss.
     case read_batch W so t ss of
       (Inl (RolloutCorruptError p r), ss') \<Rightarrow>
         sbind (record_rollout_failure W ctx ROLLOUT_CORRUPT t) (\<lambda>_. sret None) ss'
     | (Inl (RolloutRotatedError p), ss') \<Rightarrow>
         sbind (record_rollout_failure W ctx ROLLOUT_ROTATED t) (\<lambda>_. sret None) ss'
     | (Inl e, ss') \<Rightarrow> (Inl e, ss')
     | (Inr b, ss') \<Rightarrow> (Inr (Some b), ss'))"

definition tick_file ::
  "monitor_env \<Rightarrow> source_env \<Rightarrow> tick_context \<Rightarrow> path \<Rightarrow> bool \<Rightarrow>
   (exn, watcher \<times> store, bool) step" where
  "tick_file W so ctx p active =
     sbind (read_snapshot W p) (\<lambda>found.
     sbind (sget (\<lambda>(s, st). w_failed s)) (\<lambda>failed.
     case found of
       None \<Rightarrow> sret active
     | Some t \<Rightarrow>
         if session_id t \<in> failed then sret active
         else if rt_parent_complete t then
           sbind (commit_runtime_snapshot W (tick_target W ctx) t None) (\<lambda>a. sret (a \<or> active))
         else if list_all mt_terminal (targets t) then sret active
         else
           sbind (try_batch W so ctx t) (\<lambda>batch.
           case batch of
             None \<Rightarrow> sret active
           | Some b \<Rightarrow>
               sbind (commit_runtime_snapshot W (tick_target W ctx) t (Some b))
                 (\<lambda>a. sret (a \<or> active)))))"

text \<open>
  \<open>WatcherEngine.tick\<close>: every listed file in path order, then the flush, which runs even when
  the scan raises (and whose own exception then replaces it).
\<close>

definition discover_runtime_files :: "path list \<Rightarrow> path list" where
  "discover_runtime_files listing = sort listing"

definition engine_tick ::
  "monitor_env \<Rightarrow> source_env \<Rightarrow> path list \<Rightarrow> tick_context \<Rightarrow> (exn, watcher \<times> store, bool) step" where
  "engine_tick W so listing ctx = (\<lambda>ss.
     case sfor (tick_file W so ctx) (discover_runtime_files listing) False ss of
       (r, (s, st)) \<Rightarrow>
         (case flush W s of
            (Inl e, s') \<Rightarrow> (Inl e, (s', st))
          | (Inr _, s') \<Rightarrow> (r, (s', st))))"

section \<open>What survives a tick\<close>

lemma keeps_case_option [keeps_intros]:
  "keeps P f \<Longrightarrow> (\<And>x. keeps P (g x)) \<Longrightarrow> keeps P (case r of None \<Rightarrow> f | Some x \<Rightarrow> g x)"
  by (cases r) simp_all

lemma keeps_case_prod [keeps_intros]:
  "(\<And>x y. keeps P (f x y)) \<Longrightarrow> keeps P (case r of (x, y) \<Rightarrow> f x y)"
  by (cases r) simp

lemma keeps_mutate:
  assumes "\<And>m d. P m \<Longrightarrow> P (snd (mutator m d))" and "P m"
    and "mutate_existing_state env home p mutator commit m st = (r, m', st')"
  shows "P m'"
  using assms(1) [OF assms(2)] assms(2,3)
  by (auto simp: mutate_existing_state_def Let_def split: sum.splits prod.splits if_splits)
    (metis snd_conv)+

text \<open>The in-memory fields the recorder does not own.\<close>

lemma recorder_inv_fields [simp]:
  "recorder_inv (s\<lparr>w_detectors := a\<rparr>) = recorder_inv (s :: watcher)"
  "recorder_inv (s\<lparr>w_open_calls := b\<rparr>) = recorder_inv (s :: watcher)"
  "recorder_inv (s\<lparr>w_started := c\<rparr>) = recorder_inv (s :: watcher)"
  "recorder_inv (s\<lparr>w_heartbeat_at := e\<rparr>) = recorder_inv (s :: watcher)"
  "recorder_inv (s\<lparr>w_failed := f\<rparr>) = recorder_inv (s :: watcher)"
  by (simp_all add: recorder_inv_def)

lemma close_detectors_recorder [simp]:
  "recorder_inv (fold (close_detector ctx t) ms s) = recorder_inv s"
  by (induction ms arbitrary: s) (simp_all add: close_detector_def set_detector_def)

lemma recorder_inv_prepare [keeps_intros]: "keeps recorder_inv (prepare W ctx t events values)"
  unfolding prepare_def prepare_step_def prepare_monitor_def record_started_def Let_def
  by (intro keeps_intros) simp_all

lemma recorder_inv_complete [keeps_intros]: "keeps recorder_inv (complete_target W ctx t values)"
  unfolding complete_target_def Let_def by (intro keeps_intros) simp_all

lemma recorder_inv_evaluate_monitor [keeps_intros]:
  "keeps recorder_inv (evaluate_monitor W ctx t states m flags)"
  unfolding evaluate_monitor_def Let_def by (intro keeps_intros) (simp_all add: set_detector_def)

lemma recorder_inv_heartbeat [keeps_intros]:
  "keeps recorder_inv (record_heartbeat W ctx t states act)"
  unfolding record_heartbeat_def by (intro keeps_intros) (simp_all add: set_heartbeat_def)

lemma recorder_inv_tick_target [keeps_intros]:
  "keeps recorder_inv (tick_target W ctx t values events)"
  unfolding tick_target_def finish_if_terminal_def evaluate_target_def by (intro keeps_intros)

abbreviation recorder_inv_pair :: "watcher \<times> store \<Rightarrow> bool" where
  "recorder_inv_pair ss \<equiv> recorder_inv (fst ss)"

lemma keeps_pairI:
  "(\<And>s st r s' st'. recorder_inv s \<Longrightarrow> m (s, st) = (r, (s', st')) \<Longrightarrow> recorder_inv s') \<Longrightarrow>
   keeps recorder_inv_pair m"
  unfolding keeps_def by (metis eq_fst_iff prod.collapse snd_conv)

lemma recorder_inv_process:
  assumes "\<And>t values events. keeps recorder_inv (processor t values events)"
    and "recorder_inv (fst sa)"
  shows "recorder_inv (fst (snd (process_snapshot W processor snap batch sa values)))"
  using assms(2) keepsD [OF assms(1)]
  by (auto simp: process_snapshot_def split: sum.splits prod.splits) (metis snd_conv)+

lemma recorder_inv_commit [keeps_intros]:
  assumes "\<And>t values events. keeps recorder_inv (processor t values events)"
  shows "keeps recorder_inv_pair (commit_runtime_snapshot W processor snap batch)"
proof (rule keeps_pairI)
  fix s st r s' st'
  assume s: "recorder_inv s" and c: "commit_runtime_snapshot W processor snap batch (s, st) = (r, s', st')"
  obtain r0 a where "mutate_existing_state (me_fs W) (me_home W) (runtime_file snap)
      (process_snapshot W processor snap batch) (commit_batch W snap batch) (s, False) st =
      (r0, (s', a), st')"
    using c by (auto simp: commit_runtime_snapshot_def split: sum.splits prod.splits)
  from keeps_mutate [OF _ _ this, of "\<lambda>sa. recorder_inv (fst sa)"] recorder_inv_process [OF assms] s
  show "recorder_inv s'" by simp
qed

lemma recorder_inv_failure [keeps_intros]:
  "keeps recorder_inv_pair (record_rollout_failure W ctx code snap)"
proof (rule keeps_pairI)
  fix s st r s' st'
  assume s: "recorder_inv s" and c: "record_rollout_failure W ctx code snap (s, st) = (r, s', st')"
  have step: "recorder_inv (snd (fail_session W ctx code snap m d))" if "recorder_inv m" for m d
  proof -
    have "keeps recorder_inv (sbind (log_target_diagnostic W t nt) (\<lambda>_.
        sbind (smodify (\<lambda>x :: watcher. x\<lparr>w_failed := insert (session_id t) (w_failed x)\<rparr>)) (\<lambda>_.
        sret ((), d))))" for t nt
      by (intro keeps_intros) simp
    from keepsD [OF this] that show ?thesis
      by (auto simp: fail_session_def split: sum.splits)
  qed
  obtain r0 where "mutate_existing_state (me_fs W) (me_home W) (runtime_file snap)
      (fail_session W ctx code snap) (\<lambda>_ st. Inr st) s st = (r0, s', st')"
    using c by (auto simp: record_rollout_failure_def split: sum.splits prod.splits)
  from keeps_mutate [where P = recorder_inv, OF step s this] show "recorder_inv s'" by simp
qed

lemma recorder_inv_snapshot [keeps_intros]: "keeps recorder_inv_pair (read_snapshot W p)"
proof (rule keeps_pairI)
  fix s st r s' st'
  assume s: "recorder_inv s" and c: "read_snapshot W p (s, st) = (r, s', st')"
  obtain r0 where "mutate_existing_state (me_fs W) (me_home W) p
      (snapshot_target W p) (\<lambda>_ st. Inr st) s st = (r0, s', st')"
    using c by (auto simp: read_snapshot_def split: sum.splits prod.splits option.splits)
  from keeps_mutate [OF _ _ this, of recorder_inv] s show "recorder_inv s'"
    by (simp add: snapshot_target_def)
qed

lemma recorder_inv_try_batch [keeps_intros]: "keeps recorder_inv_pair (try_batch W so ctx t)"
proof -
  have "keeps recorder_inv_pair (sbind (record_rollout_failure W ctx code t) (\<lambda>_. sret None))"
    for code by (intro keeps_intros)
  then show ?thesis
    by (auto simp: keeps_def try_batch_def read_batch_def split: sum.splits exn.splits prod.splits)
qed

lemma recorder_inv_tick_file [keeps_intros]: "keeps recorder_inv_pair (tick_file W so ctx p active)"
  unfolding tick_file_def by (intro keeps_intros)

lemma recorder_inv_tick: "recorder_inv s \<Longrightarrow> recorder_inv (fst (snd (engine_tick W so listing ctx (s, st))))"
proof -
  assume s: "recorder_inv s"
  obtain r s1 st1 where scan:
    "sfor (tick_file W so ctx) (discover_runtime_files listing) False (s, st) = (r, s1, st1)"
    by (metis prod.collapse)
  have "keeps recorder_inv_pair (sfor (tick_file W so ctx) (discover_runtime_files listing) False)"
    by (intro keeps_intros)
  from keepsD [OF this, of "(s, st)"] s scan have "recorder_inv s1" by simp
  from keepsD [OF recorder_inv_flush [of W] this] scan show ?thesis
    by (auto simp: engine_tick_def split: prod.splits sum.splits)
qed

section \<open>Runs of the watcher\<close>

text \<open>
  Between ticks other processes edit session documents (\<open>Edit\<close>), and the daemon may be restarted,
  which keeps the log and what was delivered and loses everything else.
\<close>

datatype engine_event =
    EngineTick source_env "path list" tick_context
  | Edit store
  | Reboot

definition fresh_watcher :: "diag_log \<Rightarrow> lifecycle_notification list \<Rightarrow> watcher" where
  "fresh_watcher lg sent =
     \<lparr>rc_pending = [], rc_log = lg, rc_sent = sent, w_detectors = Map.empty,
      w_open_calls = Map.empty, w_started = {}, w_heartbeat_at = Map.empty, w_failed = {}\<rparr>"

definition empty_log :: diag_log where
  "empty_log = \<lparr>log_current = None, log_1 = None, log_2 = None\<rparr>"

fun engine_step :: "monitor_env \<Rightarrow> engine_event \<Rightarrow> watcher \<times> store \<Rightarrow> watcher \<times> store" where
  "engine_step W (EngineTick so listing ctx) ss = snd (engine_tick W so listing ctx ss)"
| "engine_step W (Edit st') (s, st) = (s, st')"
| "engine_step W Reboot (s, st) = (fresh_watcher (rc_log s) (rc_sent s), st)"

lemma recorder_inv_engine_step:
  assumes "recorder_inv (fst ss)"
  shows "recorder_inv (fst (engine_step W ev ss))"
proof (cases ev)
  case (EngineTick so listing ctx)
  then show ?thesis using assms recorder_inv_tick [of "fst ss" W so listing ctx "snd ss"] by simp
next
  case (Edit st')
  then show ?thesis using assms by (cases ss) simp
next
  case Reboot
  then show ?thesis
    using assms by (cases ss) (auto simp: fresh_watcher_def recorder_inv_def dest: known_prefix)
qed

lemma recorder_inv_engine_run:
  "recorder_inv (fst ss) \<Longrightarrow> recorder_inv (fst (fold (engine_step W) evs ss))"
  by (induction evs arbitrary: ss) (use recorder_inv_engine_step in fastforce)+

section \<open>Commit order\<close>

lemma session_file_component: "session_filename H sid \<notin> {'''', ''.'', ''..''}"
proof -
  have "5 \<le> length (session_filename H sid)" by (simp add: session_filename_def)
  then show ?thesis by auto
qed

lemma runtime_cursor_differ: "abspath (runtime_path H home sid) \<noteq> abspath (cursor_path H home sid)"
  using session_file_component [of H sid]
  by (simp add: abspath_def runtime_path_def cursor_path_def abspath_onto_append)

lemma save_state_writes:
  "save_state env home p values v st = Inr st' \<Longrightarrow> q \<noteq> abspath p \<Longrightarrow> st' q = st q"
  by (auto simp: save_state_def err_simps safe_absolute_path_Inr atomic_json_write_def
      split: if_splits)

lemma commit_batch_writes:
  assumes "commit_batch W snap batch sa st = Inr st'"
    and "q \<noteq> abspath (cursor_path (sha (me_lib W)) (me_home W) (session_id snap))"
  shows "st' q = st q"
  using assms save_state_writes
  by (auto simp: commit_batch_def commit_target_cursor_def save_cursor_def
      split: option.splits if_splits)

lemma mutate_cases:
  assumes "mutate_existing_state env home p mutator commit m st = (r, m', st')"
  obtains (refused) "st' = st" "m' = m"
  | (raised) vals e where "load_state env (abspath home) (abspath p) st = Inr vals"
      "mutator m vals = (Inl e, m')" "r = Inl e" "st' = st"
  | (returned) vals res vals' st1 where "load_state env (abspath home) (abspath p) st = Inr vals"
      "mutator m vals = (Inr (res, vals'), m')"
      "st1 = (if dict_eq vals' vals then st
              else atomic_json_write (abspath p) SCHEMA_VERSION vals' st)"
      "(case commit m' st1 of Inl e \<Rightarrow> r = Inl e \<and> st' = st1
        | Inr st2 \<Rightarrow> r = Inr (Some res) \<and> st' = st2)"
proof (cases "safe_absolute_path env home p")
  case (Inl e)
  then show ?thesis using assms refused by (simp add: mutate_existing_state_def)
next
  case (Inr ra)
  then obtain h a where ra: "ra = (h, a)" "h = abspath home" "a = abspath p"
    by (metis prod.collapse safe_absolute_path_Inr)
  show ?thesis
  proof (cases "is_file st a \<and> \<not> lock_busy env a \<and> (\<exists>v. load_state env h a st = Inr v)")
    case False
    then show ?thesis
      using assms Inr ra refused by (auto simp: mutate_existing_state_def split: sum.splits if_splits)
  next
    case True
    then obtain vals where l: "load_state env h a st = Inr vals" by blast
    obtain out m1 where out: "mutator m vals = (out, m1)" by fastforce
    show ?thesis
    proof (cases out)
      case (Inl e)
      then show ?thesis
        using assms \<open>safe_absolute_path env home p = Inr ra\<close> ra True l out raised
        by (simp add: mutate_existing_state_def)
    next
      case o: (Inr rv)
      obtain res vals' where rv: "rv = (res, vals')" by fastforce
      show ?thesis
        by (rule returned [OF _ _ refl], use l ra in simp,
            use assms Inr ra True l out o rv in \<open>auto simp: mutate_existing_state_def Let_def
              split: sum.splits\<close>)
    qed
  qed
qed

lemma process_accepted:
  assumes "process_snapshot W processor snap (Some b) (s, False) vals = (Inr (active, vals'), s', True)"
  obtains t vals1 where "dget vals ''enabled'' = JBool True"
    "runtime_target_from_values (me_lib W) (me_fs W) (me_home W) (runtime_file snap) vals = Inr t"
    "revision t = revision snap" "processor t vals (batch_events b) s = (Inr (active, vals1), s')"
    "vals' = (if dict_eq vals1 vals then vals1
              else dset ''revision'' (JInt (revision t + 1)) vals1)"
  using assms by (auto simp: process_snapshot_def split: if_splits sum.splits prod.splits)

lemma process_result_flag:
  "process_snapshot W processor snap batch (s, False) vals = (Inr (active, vals'), s', False) \<Longrightarrow>
   vals' = vals \<and> s' = s"
  by (auto simp: process_snapshot_def split: if_splits sum.splits prod.splits)

lemma commit_current:
  assumes "safe_absolute_path (me_fs W) (me_home W) (runtime_file snap) = Inr (h, p)"
    and "is_file st p" and "\<not> lock_busy (me_fs W) p"
    and "load_state (me_fs W) h p st = Inr vals" and "dget vals ''enabled'' = JBool True"
    and "runtime_target_from_values (me_lib W) (me_fs W) (me_home W) (runtime_file snap) vals = Inr t"
    and "revision t = revision snap"
    and "processor t vals (case batch of None \<Rightarrow> [] | Some b \<Rightarrow> batch_events b) s =
      (Inr (active, vals1), s')"
    and "vals' = (if dict_eq vals1 vals then vals1
                  else dset ''revision'' (JInt (revision t + 1)) vals1)"
    and "st1 = (if dict_eq vals' vals then st else atomic_json_write p SCHEMA_VERSION vals' st)"
  shows "commit_runtime_snapshot W processor snap batch (s, st) =
    (case commit_batch W snap batch (s', True) st1 of
       Inl e \<Rightarrow> (Inl e, (s', st1)) | Inr st2 \<Rightarrow> (Inr active, (s', st2)))"
proof -
  have "process_snapshot W processor snap batch (s, False) vals =
      (Inr (active, vals'), (s', True))"
    using assms(5-9) by (simp add: process_snapshot_def del: py_eq.simps)
  then show ?thesis
    using assms(1-4,10)
    by (simp add: commit_runtime_snapshot_def mutate_existing_state_def Let_def
        del: py_eq.simps split: sum.splits)
qed

section \<open>Properties\<close>


text \<open>
  C6: no event is lost to a race: the persisted rollout cursor of a session moves only when the
  snapshot was still current under the lock, the batch was processed without an exception, and the
  document with the effects of the batch (and its bumped revision) has been written.
\<close>

theorem cursor_follows_commit:
  assumes "commit_runtime_snapshot W processor snap (Some b) (s, st) = (r, s', st')"
    and "runtime_file snap = runtime_path (sha (me_lib W)) (me_home W) (session_id snap)"
    and "st' (abspath (cursor_path (sha (me_lib W)) (me_home W) (session_id snap))) \<noteq>
      st (abspath (cursor_path (sha (me_lib W)) (me_home W) (session_id snap)))"
  shows "\<exists>vals t active vals'.
    load_state (me_fs W) (abspath (me_home W)) (abspath (runtime_file snap)) st = Inr vals \<and>
    dget vals ''enabled'' = JBool True \<and>
    runtime_target_from_values (me_lib W) (me_fs W) (me_home W) (runtime_file snap) vals = Inr t \<and>
    revision t = revision snap \<and>
    processor t vals (batch_events b) s = (Inr (active, vals'), s') \<and>
    st' (abspath (runtime_file snap)) =
      (if dict_eq vals' vals then st
       else atomic_json_write (abspath (runtime_file snap)) SCHEMA_VERSION
              (dset ''revision'' (JInt (revision t + 1)) vals') st) (abspath (runtime_file snap))"
proof -
  let ?r = "abspath (runtime_file snap)"
  let ?c = "abspath (cursor_path (sha (me_lib W)) (me_home W) (session_id snap))"
  have differ: "?r \<noteq> ?c" using runtime_cursor_differ assms(2) by simp
  obtain r0 a where m: "mutate_existing_state (me_fs W) (me_home W) (runtime_file snap)
      (process_snapshot W processor snap (Some b)) (commit_batch W snap (Some b)) (s, False) st =
      (r0, (s', a), st')"
    using assms(1) by (auto simp: commit_runtime_snapshot_def split: sum.splits prod.splits)
  from m show ?thesis
  proof (cases rule: mutate_cases)
    case (returned vals res vals' st1)
    have st1: "st1 ?c = st ?c" using returned(3) differ by (simp add: atomic_json_write_def)
    have a: "a"
    proof (rule ccontr)
      assume "\<not> a"
      with returned(4) have "st' = st1" by (simp add: commit_batch_def)
      with st1 assms(3) show False by simp
    qed
    from returned(4) have "st' ?r = st1 ?r"
      using commit_batch_writes [of W snap "Some b" "(s', a)" st1] differ
      by (auto split: sum.splits)
    moreover obtain t vals1 where t: "dget vals ''enabled'' = JBool True"
      "runtime_target_from_values (me_lib W) (me_fs W) (me_home W) (runtime_file snap) vals = Inr t"
      "revision t = revision snap" "processor t vals (batch_events b) s = (Inr (res, vals1), s')"
      "vals' = (if dict_eq vals1 vals then vals1
                else dset ''revision'' (JInt (revision t + 1)) vals1)"
      using returned(2) a process_accepted by (metis (full_types))
    moreover have "\<not> dict_eq (dset ''revision'' (JInt (revision t + 1)) vals1) vals"
      using t(2) by (intro bumped_revision_differs [of _ "runtime_file snap"])
        (simp add: runtime_target_iff)
    ultimately show ?thesis using returned(1,3) by (auto simp del: py_eq.simps)
  qed (use assms(3) in simp_all)
qed

text \<open>
  A stale snapshot is harmless: if the document's revision changed between the unlocked read
  and the commit, the commit runs nothing, changes neither the watcher, the document nor the cursor,
  and only reports whether the current session still has something to monitor.
\<close>

theorem stale_snapshot_ignored:
  assumes "safe_absolute_path (me_fs W) (me_home W) (runtime_file snap) = Inr (h, p)"
    and "is_file st p" and "\<not> lock_busy (me_fs W) p"
    and "load_state (me_fs W) h p st = Inr vals" and "dget vals ''enabled'' = JBool True"
    and "runtime_target_from_values (me_lib W) (me_fs W) (me_home W) (runtime_file snap) vals = Inr t"
    and "revision t \<noteq> revision snap" and "wf_json (JObj vals)"
  shows "commit_runtime_snapshot W processor snap batch (s, st) =
    (Inr (rt_parent_complete t \<or> \<not> list_all mt_terminal (targets t)), (s, st))"
  using assms py_eq_refl [OF assms(8)]
  by (auto simp: commit_runtime_snapshot_def mutate_existing_state_def process_snapshot_def
      commit_batch_def simp del: py_eq.simps split: option.splits)

section \<open>A concrete commit\<close>

definition ex_engine_env :: monitor_env where
  "ex_engine_env = \<lparr>me_lib = ex_lib, me_fs = ex_env, me_home = [''h'', ''p''],
     me_sink = (\<lambda>_ _. True)\<rparr>"

definition ex_batch :: target_batch where
  "ex_batch = \<lparr>previous_cursor = None,
     next_cursor = \<lparr>cu_device = 1, cu_file_id = 2, cu_offset = 3\<rparr>, batch_events = []\<rparr>"

theorem stale_snapshot_ignored_witness:
  "commit_runtime_snapshot ex_engine_env (\<lambda>t v e. sret (True, v)) (ex_target\<lparr>revision := 2\<rparr>)
     (Some ex_batch) (fresh_watcher empty_log [], ex_store) =
   (Inr True, (fresh_watcher empty_log [], ex_store))"
  using stale_snapshot_ignored [of ex_engine_env "ex_target\<lparr>revision := 2\<rparr>" "[''h'', ''p'']"
      ex_runtime_file ex_store ex_values ex_target] ex_safe ex_load ex_parse ex_wf
  by (simp add: ex_engine_env_def ex_target_def ex_runtime_file_def is_file_def ex_store_def
      ex_env_def targets_def ex_target_monitor_def ex_values_def)

lemma ex_commit:
  "\<exists>st. commit_runtime_snapshot ex_engine_env (\<lambda>t v e. sret (True, v)) ex_target
     (Some ex_batch) (fresh_watcher empty_log [], ex_store) =
   (Inr True, (fresh_watcher empty_log [], st)) \<and> st [''h'', ''p'', ''cursors'', ''s.json''] \<noteq> None"
proof -
  have snap: "runtime_file ex_target = ex_runtime_file" "session_id ex_target = ''s''"
    by (simp_all add: ex_target_def ex_runtime_file_def)
  have env: "me_fs ex_engine_env = ex_env" "me_home ex_engine_env = [''h'', ''p'']"
    "me_lib ex_engine_env = ex_lib"
    by (simp_all add: ex_engine_env_def)
  have f: "is_file ex_store ex_runtime_file" "\<not> lock_busy ex_env ex_runtime_file"
    "dget ex_values ''enabled'' = JBool True"
    by (simp_all add: is_file_def ex_store_def ex_env_def ex_values_def)
  have c: "safe_absolute_path ex_env [''h'', ''p''] (cursor_path (sha ex_lib) [''h'', ''p''] ''s'') =
      Inr ([''h'', ''p''], [''h'', ''p'', ''cursors'', ''s.json''])"
    by (simp add: safe_absolute_path_Inr no_redirects ex_env_def cursor_path_def
        session_filename_def ex_lib_def abspath_def strictly_below_def)
  have "commit_batch ex_engine_env ex_target (Some ex_batch) (fresh_watcher empty_log [], True)
      ex_store = Inr (atomic_json_write [''h'', ''p'', ''cursors'', ''s.json''] SCHEMA_VERSION
        [(''device'', JInt 1), (''file_id'', JInt 2), (''offset'', JInt 3)] ex_store)"
    using c by (simp add: commit_batch_def commit_target_cursor_def save_cursor_def save_state_def
        env snap ex_batch_def check_schema_def SCHEMA_VERSION_def ex_env_def no_redirects
        ex_store_def ex_runtime_file_def)
  then show ?thesis
    using commit_current [where W = ex_engine_env and snap = ex_target and batch = "Some ex_batch"
        and processor = "\<lambda>t v e. sret (True, v)" and s = "fresh_watcher empty_log []"
        and t = ex_target and vals = ex_values and st = ex_store, unfolded env snap,
        OF ex_safe f(1,2) ex_load f(3)] ex_parse py_eq_refl [OF ex_wf]
    by (simp add: step_defs ex_runtime_file_def [symmetric] atomic_json_write_def
        del: py_eq.simps)
qed

theorem cursor_follows_commit_witness:
  "\<exists>vals t. load_state ex_env [''h'', ''p''] ex_runtime_file ex_store = Inr vals \<and>
     dget vals ''enabled'' = JBool True \<and>
     runtime_target_from_values ex_lib ex_env [''h'', ''p''] ex_runtime_file vals = Inr t \<and>
     revision t = 3"
proof -
  obtain st where c: "commit_runtime_snapshot ex_engine_env (\<lambda>t v e. sret (True, v)) ex_target
      (Some ex_batch) (fresh_watcher empty_log [], ex_store) =
      (Inr True, (fresh_watcher empty_log [], st))"
    and "st [''h'', ''p'', ''cursors'', ''s.json''] \<noteq> None" using ex_commit by blast
  moreover have "abspath (cursor_path (sha (me_lib ex_engine_env)) (me_home ex_engine_env)
      (session_id ex_target)) = [''h'', ''p'', ''cursors'', ''s.json'']"
    by (simp add: cursor_path_def session_filename_def ex_engine_env_def ex_lib_def ex_target_def
        abspath_def)
  moreover have "ex_store [''h'', ''p'', ''cursors'', ''s.json''] = None"
    by (simp add: ex_store_def ex_runtime_file_def)
  moreover have "runtime_file ex_target = runtime_path (sha (me_lib ex_engine_env))
      (me_home ex_engine_env) (session_id ex_target)"
    by (simp add: runtime_path_def session_filename_def ex_engine_env_def ex_lib_def ex_target_def)
  ultimately have "\<exists>vals t active vals'.
      load_state (me_fs ex_engine_env) (abspath (me_home ex_engine_env))
        (abspath (runtime_file ex_target)) ex_store = Inr vals \<and>
      dget vals ''enabled'' = JBool True \<and>
      runtime_target_from_values (me_lib ex_engine_env) (me_fs ex_engine_env)
        (me_home ex_engine_env) (runtime_file ex_target) vals = Inr t \<and>
      revision t = revision ex_target"
    using cursor_follows_commit [OF c] by fastforce
  then show ?thesis
    by (auto simp: ex_engine_env_def ex_target_def ex_runtime_file_def abspath_def)
qed


end
