(* ===== verification/WatcherCompletion.thy ===== *)
theory WatcherCompletion
  imports WatcherEngine
begin

text \<open>
  Completion of the locked turn, end to end: in an environment where the log can be written, one
  tick that sees the completion of the parent turn closes the whole session, in memory and in its
  document. The theory follows the document through every update of the tick by its typed view.
\<close>

section \<open>Documents through updates\<close>

lemma wf_mark_terminal:
  "mark_target_terminal vals tid p = Inr (b, vals') \<Longrightarrow> wf_json (JObj vals) \<Longrightarrow>
   wf_json (JObj vals') \<and>
   (k \<noteq> ''parent'' \<and> k \<noteq> ''children'' \<longrightarrow> dget vals' k = dget vals k)"
  by (auto simp: mark_target_terminal_def err_simps simp del: wf_json.simps split: if_splits
      intro!: wf_put_target wf_dset_atom dest: wf_raw_target)

lemma wf_advance:
  "advance_target_progress_epoch lib vals tid p u = Inr vals' \<Longrightarrow> wf_json (JObj vals) \<Longrightarrow>
   wf_json (JObj vals') \<and>
   (k \<noteq> ''parent'' \<and> k \<noteq> ''children'' \<longrightarrow> dget vals' k = dget vals k)"
  by (auto simp: advance_target_progress_epoch_def err_simps simp del: wf_json.simps
      intro!: wf_put_target wf_dset_atom dest: wf_raw_target)

text \<open>
  A document read as \<open>t0\<close> before the tick: what every update of the tick leaves alone.
\<close>

definition reads :: "monitor_env \<Rightarrow> runtime_target \<Rightarrow> dict \<Rightarrow> runtime_target \<Rightarrow> bool" where
  "reads W t0 vals t \<longleftrightarrow> wf_json (JObj vals) \<and>
     runtime_target_from_values (me_lib W) (me_fs W) (me_home W) (runtime_file t0) vals = Inr t \<and>
     runtime_file t = runtime_file t0 \<and> session_id t = session_id t0 \<and>
     map target_id (targets t) = map target_id (targets t0)"

lemma reads_ids_ok: "reads W t0 vals t \<Longrightarrow> ids_ok t"
  by (auto simp: reads_def simp del: wf_json.simps intro: parsed_ids_ok)

text \<open>Marking a target terminal and advancing its epoch, on the typed view.\<close>

lemma reads_mark:
  assumes "reads W t0 vals t" and "m \<in> set (targets t)"
  obtains b vals' where "mark_target_terminal vals (target_id m) (runtime_file t0) = Inr (b, vals')"
    "reads W t0 vals' (on_monitor (target_id m) (\<lambda>_. m\<lparr>mt_terminal := True\<rparr>) t)"
    "\<And>k. k \<noteq> ''parent'' \<Longrightarrow> k \<noteq> ''children'' \<Longrightarrow> dget vals' k = dget vals k"
proof -
  let ?p = "runtime_file t0" and ?m = "m\<lparr>mt_terminal := True\<rparr>"
  note ids = reads_ids_ok [OF assms(1)]
  from assms(1) have wf: "wf_json (JObj vals)"
    and parse: "runtime_target_from_values (me_lib W) (me_fs W) (me_home W) ?p vals = Inr t"
    by (simp_all add: reads_def)
  from raw_target_of [OF parse wf assms(2)] obtain d where
    d: "raw_target vals (target_id m) ?p = Inr d"
    and tm: "target_monitor (me_lib W) d (target_id m) ?p = Inr m" by blast
  let ?t = "on_monitor (target_id m) (\<lambda>_. ?m) t"
  have ids': "map target_id (targets ?t) = map target_id (targets t)"
    using on_monitor_ids [OF ids assms(2), of ?m] by simp
  show thesis
  proof (cases "mt_terminal m")
    case True
    then have mm: "?m = m" by simp
    have "?t = t" using on_monitor_same [OF ids assms(2)] mm by simp
    moreover have "mark_target_terminal vals (target_id m) ?p = Inr (False, vals)"
      using d target_monitor_status [OF tm] True by (simp add: mark_target_terminal_def)
    ultimately show thesis using that assms(1) by metis
  next
    case False
    let ?v = "put_target vals (target_id m) (dset ''status'' (JStr ''terminal'') d)"
    have mark: "mark_target_terminal vals (target_id m) ?p = Inr (True, ?v)"
      using d target_monitor_status [OF tm] False by (simp add: mark_target_terminal_def)
    moreover have "reads W t0 ?v ?t"
      using put_target_parse [OF parse wf d target_monitor_terminal [OF tm]] assms(1) ids'
        wf_mark_terminal [OF mark wf] by (simp add: reads_def del: wf_json.simps)
    ultimately show thesis using that wf_mark_terminal [OF mark wf] by metis
  qed
qed

lemma reads_advance:
  assumes "reads W t0 vals t" and "m \<in> set (targets t)"
    and "fromiso (me_lib W) (toiso (me_lib W) u) = Some u"
  obtains vals' where
    "advance_target_progress_epoch (me_lib W) vals (target_id m) (runtime_file t0) u = Inr vals'"
    "reads W t0 vals' (on_monitor (target_id m)
       (\<lambda>_. m\<lparr>progress_epoch := progress_epoch m + 1, started_at := Some u\<rparr>) t)"
    "\<And>k. k \<noteq> ''parent'' \<Longrightarrow> k \<noteq> ''children'' \<Longrightarrow> dget vals' k = dget vals k"
proof -
  let ?p = "runtime_file t0"
  let ?m = "m\<lparr>progress_epoch := progress_epoch m + 1, started_at := Some u\<rparr>"
  note ids = reads_ids_ok [OF assms(1)]
  from assms(1) have wf: "wf_json (JObj vals)"
    and parse: "runtime_target_from_values (me_lib W) (me_fs W) (me_home W) ?p vals = Inr t"
    by (simp_all add: reads_def)
  from raw_target_of [OF parse wf assms(2)] obtain d where
    d: "raw_target vals (target_id m) ?p = Inr d"
    and tm: "target_monitor (me_lib W) d (target_id m) ?p = Inr m" by blast
  obtain vals' where adv: "advance_target_progress_epoch (me_lib W) vals (target_id m) ?p u = Inr vals'"
    and "runtime_target_from_values (me_lib W) (me_fs W) (me_home W) ?p vals' =
      Inr (on_monitor (target_id m) (\<lambda>_. ?m) t)"
    using d target_monitor_progress [OF tm assms(3)] put_target_parse [OF parse wf d]
    by (simp add: advance_target_progress_epoch_def)
  then have "reads W t0 vals' (on_monitor (target_id m) (\<lambda>_. ?m) t)"
    using assms(1) wf_advance [OF adv wf] on_monitor_ids [OF ids assms(2), of ?m]
    by (simp add: reads_def del: wf_json.simps)
  with adv wf_advance [OF adv wf] show thesis using that by metis
qed

section \<open>A writable log\<close>

text \<open>
  What the tick needs from its environment: the log's directories are not redirected, SHA-256
  digests are 64 hexadecimal digits, and the instant of the tick prints to short text that reads back.
\<close>

definition monitor_env_ok :: "monitor_env \<Rightarrow> time \<Rightarrow> bool" where
  "monitor_env_ok W u \<longleftrightarrow> diagnostic_path (me_fs W) (me_home W) = Inr () \<and>
     (\<forall>x. is_sha256 (sha (me_lib W) x)) \<and>
     length (zulu (toiso (me_lib W) u)) \<le> 100 \<and>
     fromiso (me_lib W) (toiso (me_lib W) u) = Some u"

lemma code_value_length: "length (code_value c) \<le> 30"
  by (cases c) simp_all

lemma status_value_length: "length (status_value c) \<le> 20"
  by (cases c) simp_all

lemma opt_text_length: "opt_ok is_sha256 x \<Longrightarrow> length (opt_text x) \<le> 66"
  by (auto simp: opt_text_def quoted_def opt_ok_def is_sha256_def split: option.splits)

lemma encode_event_length:
  assumes "check_event e = Inr e" and "dg_elapsed_ms e = None"
    and "length (zulu (toiso lib (dg_occurred_at e))) \<le> 100"
  shows "length (encode_event lib e) \<le> MAX_LOG_BYTES"
proof -
  from assms(1) have "length (session_hash e) = 64" "opt_ok is_sha256 (child_hash e)"
    "opt_ok is_sha256 (dg_event_id e)"
    by (auto simp: check_event_def is_sha256_def split: if_splits)
  then show ?thesis
    using assms(2,3) opt_text_length [of "child_hash e"] opt_text_length [of "dg_event_id e"]
      code_value_length [of "dg_code e"] status_value_length [of "dg_state e"]
    by (simp add: encode_event_def member_text_def quoted_def opt_num_def MAX_LOG_BYTES_def)
qed

lemma append_total:
  assumes "diagnostic_path env home = Inr ()" and "log_ok MAX_LOG_BYTES lg"
    and "length (encode_event lib e) \<le> MAX_LOG_BYTES"
  obtains b lg' where "append_diagnostic_once lib env home e MAX_LOG_BYTES lg = Inr (b, lg')"
proof -
  have "file_ok MAX_LOG_BYTES (log_current lg)" using assms(2) by (simp add: log_ok_def)
  from complete_bytes_ok [OF this order_refl] obtain old
    where old: "complete_bytes (log_current lg) MAX_LOG_BYTES = Inr old" by blast
  obtain dup where dup:
    "(case dg_event_id e of None \<Rightarrow> Inr False | Some eid \<Rightarrow> contains_event_id lg eid) = Inr dup"
    using contains_event_id_ok [OF assms(2) order_refl] by (cases "dg_event_id e") auto
  have "\<not> MAX_LOG_BYTES < 1" by (simp add: MAX_LOG_BYTES_def)
  then have "\<exists>r. append_diagnostic_once lib env home e MAX_LOG_BYTES lg = Inr r"
    using assms(1,3) old dup by (cases dup) (auto simp: append_defs)
  then show thesis using that by (metis prod.collapse)
qed

lemma log_once_total:
  assumes "monitor_env_ok W u" and "log_ok MAX_LOG_BYTES (rc_log s)"
    and "td_elapsed_ms d = None \<and> td_occurred_at d = u" and "opt_ok is_sha256 (td_event_id d)"
  obtains b lg where "log_once W t d s = (Inr b, s\<lparr>rc_log := lg\<rparr>)" "log_ok MAX_LOG_BYTES lg"
proof -
  let ?H = "sha (me_lib W)"
  define e where "e = \<lparr>dg_occurred_at = td_occurred_at d, dg_code = td_code d,
    dg_state = td_state d, session_hash = ?H (session_id t), child_hash = td_child_hash ?H d,
    dg_elapsed_ms = td_elapsed_ms d, dg_event_id = td_event_id d\<rparr>"
  from assms(1) have H: "is_sha256 (?H x)" for x by (simp add: monitor_env_ok_def)
  have chk: "check_event e = Inr e"
    using H assms(3,4) by (auto simp: check_event_def e_def opt_ok_def td_child_hash_def
        split: option.splits)
  have "length (encode_event (me_lib W) e) \<le> MAX_LOG_BYTES"
    using assms(1,3) by (intro encode_event_length [OF chk]) (simp_all add: e_def monitor_env_ok_def)
  then obtain b lg where ap: "append_diagnostic_once (me_lib W) (me_fs W) (me_home W) e
      MAX_LOG_BYTES (rc_log s) = Inr (b, lg)"
    using append_total assms(1,2) unfolding monitor_env_ok_def by metis
  then have "log_once W t d s = (Inr b, s\<lparr>rc_log := lg\<rparr>)"
    using chk by (simp add: log_once_def append_target_diagnostic_once_def e_def)
  with append_log_ok [OF assms(2) ap] show thesis using that by blast
qed

definition subject_ok :: "target_diagnostic \<Rightarrow> bool" where
  "subject_ok d \<longleftrightarrow> (case td_target d of None \<Rightarrow> True | Some m \<Rightarrow> target_id m \<noteq> Some [])"

text \<open>Log and queue may change, the watcher's own fields do not.\<close>

definition same_memory :: "watcher \<Rightarrow> watcher \<Rightarrow> bool" where
  "same_memory s s' \<longleftrightarrow> w_detectors s' = w_detectors s \<and> w_open_calls s' = w_open_calls s"

lemma record_diagnostic_total:
  fixes s :: watcher
  assumes "monitor_env_ok W u" and "log_ok MAX_LOG_BYTES (rc_log s)"
    and "td_elapsed_ms d = None \<and> td_occurred_at d = u" and "opt_ok is_sha256 (td_event_id d)"
    and "subject_ok d"
  obtains s' where "record_diagnostic W t d s = (Inr (), s')" "log_ok MAX_LOG_BYTES (rc_log s')"
    "same_memory s s'"
proof -
  obtain b lg where l: "log_once W t d s = (Inr b, s\<lparr>rc_log := lg\<rparr>)" "log_ok MAX_LOG_BYTES lg"
    using log_once_total [OF assms(1-4)] by blast
  obtain sub where "notification_subject_of d = Inr sub"
    using assms(5)
    by (cases "td_target d"; cases "target_id (the (td_target d))")
      (auto simp: notification_subject_of_def mk_subject_def subject_ok_def)
  with l have "fst (record_diagnostic W t d s) = Inr () \<and>
      log_ok MAX_LOG_BYTES (rc_log (snd (record_diagnostic W t d s))) \<and>
      same_memory s (snd (record_diagnostic W t d s))"
    by (auto simp: record_diagnostic_def step_defs same_memory_def split: option.splits)
  then show thesis using that by (metis prod.collapse)
qed

lemma lifecycle_ids_hashed:
  "monitor_env_ok W u \<Longrightarrow> is_sha256 (lifecycle_event_id (sha (me_lib W)) c t m)"
  "monitor_env_ok W u \<Longrightarrow> is_sha256 (completion_event_id (sha (me_lib W)) t)"
  by (simp_all add: monitor_env_ok_def lifecycle_event_id_def completion_event_id_def)

lemma warning_was_emitted_total:
  assumes "monitor_env_ok W u" and "log_ok MAX_LOG_BYTES (rc_log s)"
  obtains b where "warning_was_emitted W t m d s = (Inr b, s)"
proof -
  let ?eid = "lifecycle_event_id (sha (me_lib W)) OBSERVABLE_PROGRESS_SILENCE t m"
  obtain x where "contains_event_id (rc_log s) ?eid = Inr x"
    using contains_event_id_ok [OF assms(2) order_refl] by blast
  then have "lifecycle_event_exists (me_fs W) (me_home W) (rc_log s) ?eid = Inr x"
    using assms(1) lifecycle_ids_hashed(1) [OF assms(1)]
    by (simp add: lifecycle_event_exists_def diagnostic_event_exists_def monitor_env_ok_def)
  then show thesis using that by (cases "warning_emitted d") (simp_all add: warning_was_emitted_def)
qed

lemma record_started_total:
  assumes "monitor_env_ok W (tc_wall_time ctx)" and "log_ok MAX_LOG_BYTES (rc_log s)"
  obtains s' where "record_started W ctx t m s = (Inr (), s')" "log_ok MAX_LOG_BYTES (rc_log s')"
    "same_memory s s'"
proof (cases "key_of t m \<in> w_started s \<or> mt_terminal m")
  case True
  then show thesis using that assms(2) by (auto simp: record_started_def step_defs same_memory_def)
next
  case False
  let ?d = "target_note (tc_wall_time ctx) WATCHER_STARTED (Some m) None"
  obtain b lg where "log_once W t ?d s = (Inr b, s\<lparr>rc_log := lg\<rparr>)" "log_ok MAX_LOG_BYTES lg"
    using log_once_total [OF assms, of ?d] by (auto simp: target_note_def opt_ok_def)
  then show thesis
    using that False
    by (auto simp: record_started_def log_target_diagnostic_def step_defs same_memory_def)
qed

lemma record_recovery_total:
  fixes s :: watcher
  assumes "monitor_env_ok W u" and "log_ok MAX_LOG_BYTES (rc_log s)" and "target_id m \<noteq> Some []"
  obtains s' where "record_recovery W t m u s = (Inr (), s')" "log_ok MAX_LOG_BYTES (rc_log s')"
    "same_memory s s'"
  unfolding record_recovery_def
  by (rule record_diagnostic_total [OF assms(1,2)])
    (use assms(3) lifecycle_ids_hashed(1) [OF assms(1)] that in
      \<open>auto simp: target_note_def opt_ok_def subject_ok_def\<close>)

section \<open>Preparing every detector\<close>

lemma same_memory_trans: "same_memory s s' \<Longrightarrow> same_memory s' s'' \<Longrightarrow> same_memory s s''"
  by (simp add: same_memory_def)

lemma prepare_monitor_total:
  assumes "monitor_env_ok W (tc_wall_time ctx)" and "log_ok MAX_LOG_BYTES (rc_log s)"
    and "reads W t0 vals t" and "m \<in> set (targets t)" and "runtime_file t1 = runtime_file t0"
  obtains d act vals' s' m' where
    "prepare_monitor W ctx t1 events fin m vals s = (Inr (d, act, vals'), s')"
    "log_ok MAX_LOG_BYTES (rc_log s')"
    "target_id m' = target_id m" "generation m' = generation m"
    "reads W t0 vals' (on_monitor (target_id m) (\<lambda>_. m') t)"
    "\<And>k. k \<noteq> ''parent'' \<Longrightarrow> k \<noteq> ''children'' \<Longrightarrow> dget vals' k = dget vals k"
proof -
  let ?k = "key_of t1 m"
  define d0 where "d0 = (case w_detectors s ?k of None \<Rightarrow> recovered_detector_state ctx m | Some d \<Rightarrow> d)"
  obtain warned where w: "warning_was_emitted W t1 m d0 s = (Inr warned, s)"
    using warning_was_emitted_total [OF assms(1,2)] by metis
  define d1 where "d1 = (if warned \<and> \<not> warning_emitted d0 then restore_suspected_transition d0 else d0)"
  obtain s1 where s1: "record_started W ctx t1 m s = (Inr (), s1)" "log_ok MAX_LOG_BYTES (rc_log s1)"
    using record_started_total [OF assms(1,2)] by metis
  obtain calls d2 et where ap: "apply_target_events (calls_of s1 ?k) m d1 events (tc_now ctx)
      (parent_turn_id t1) = (calls, d2, et)" by (metis prod_cases3)
  define s2 where "s2 = s1\<lparr>w_open_calls := (w_open_calls s1)(?k \<mapsto> calls)\<rparr>"
  have s2: "log_ok MAX_LOG_BYTES (rc_log s2)" using s1(2) by (simp add: s2_def)
  define progressed where "progressed \<longleftrightarrow> silence_sequence d0 < silence_sequence d2"
  have named: "target_id m \<noteq> Some []" using targets_named reads_ids_ok assms(3,4) by blast
  have iso: "fromiso (me_lib W) (toiso (me_lib W) (tc_wall_time ctx)) = Some (tc_wall_time ctx)"
    using assms(1) by (simp add: monitor_env_ok_def)
  note ids = reads_ids_ok [OF assms(3)]
  obtain vals1 m1 where
    v1: "(if progressed then slift (advance_target_progress_epoch (me_lib W) vals (target_id m)
        (runtime_file t1) (tc_wall_time ctx)) else sret vals) s2 = (Inr vals1, s2)"
    and m1: "target_id m1 = target_id m" "generation m1 = generation m"
    and r1: "reads W t0 vals1 (on_monitor (target_id m) (\<lambda>_. m1) t)"
    and f1: "\<And>k. k \<noteq> ''parent'' \<Longrightarrow> k \<noteq> ''children'' \<Longrightarrow> dget vals1 k = dget vals k"
  proof (cases progressed)
    case True
    let ?m = "m\<lparr>progress_epoch := progress_epoch m + 1, started_at := Some (tc_wall_time ctx)\<rparr>"
    obtain v where "advance_target_progress_epoch (me_lib W) vals (target_id m) (runtime_file t0)
        (tc_wall_time ctx) = Inr v" "reads W t0 v (on_monitor (target_id m) (\<lambda>_. ?m) t)"
      "\<And>k. k \<noteq> ''parent'' \<Longrightarrow> k \<noteq> ''children'' \<Longrightarrow> dget v k = dget vals k"
      using reads_advance [OF assms(3,4) iso] by metis
    then show thesis using that [of v ?m] True by (simp add: step_defs assms(5))
  next
    case False
    then show thesis
      using that [of vals m] assms(3) on_monitor_same [OF ids assms(4)] by (simp add: step_defs)
  qed
  obtain s3 where s3: "(if progressed \<and> warned then record_recovery W t1 m (tc_wall_time ctx)
      else sret ()) s2 = (Inr (), s3)" "log_ok MAX_LOG_BYTES (rc_log s3)"
  proof (cases "progressed \<and> warned")
    case True
    then show thesis
      using that by (auto intro: record_recovery_total [OF assms(1) s2 named])
  next
    case False
    then show thesis using that [of s2] s2 by (auto simp: step_defs)
  qed
  let ?t1 = "on_monitor (target_id m) (\<lambda>_. m1) t"
  obtain vals2 m2 where
    v2: "(if et then slift (ebind (mark_target_terminal vals1 (target_id m) (runtime_file t1))
        (\<lambda>(_, v). Inr v)) else sret vals1) s3 = (Inr vals2, s3)"
    and m2: "target_id m2 = target_id m" "generation m2 = generation m"
    and r2: "reads W t0 vals2 (on_monitor (target_id m) (\<lambda>_. m2) t)"
    and f2: "\<And>k. k \<noteq> ''parent'' \<Longrightarrow> k \<noteq> ''children'' \<Longrightarrow> dget vals2 k = dget vals1 k"
  proof (cases et)
    case True
    have "m1 \<in> set (targets ?t1)" using on_monitor_member [OF ids assms(4) m1(1)] .
    from reads_mark [OF r1 this] obtain b v where
      "mark_target_terminal vals1 (target_id m) (runtime_file t0) = Inr (b, v)"
      "reads W t0 v (on_monitor (target_id m) (\<lambda>_. m1\<lparr>mt_terminal := True\<rparr>) ?t1)"
      "\<And>k. k \<noteq> ''parent'' \<Longrightarrow> k \<noteq> ''children'' \<Longrightarrow> dget v k = dget vals1 k"
      unfolding m1(1) by metis
    then show thesis
      using that [of v "m1\<lparr>mt_terminal := True\<rparr>"] True m1 on_monitor_twice [OF m1(1)]
      by (simp add: step_defs assms(5))
  next
    case False
    then show thesis using that [of vals1 m1] r1 m1 by (simp add: step_defs)
  qed
  let ?w = "monitor_waits m calls et fin"
  have "prepare_monitor W ctx t1 events fin m vals s =
      (Inr (set_wait_state d2 ?w (tc_now ctx) (\<not> wait_paused ?w), progressed \<or> et, vals2), s3)"
    unfolding prepare_monitor_def sbind_def sget_def smodify_def Let_def
    by (simp add: d0_def [symmetric] w d1_def [symmetric] s1(1) ap s2_def [symmetric]
        progressed_def [symmetric] v1 s3(1) v2) (simp add: sret_def)
  then show thesis using that s3(2) m2 r2 f1 f2 by metis
qed

lemma prepare_loop_total:
  assumes "monitor_env_ok W (tc_wall_time ctx)" and "log_ok MAX_LOG_BYTES (rc_log s)"
    and "reads W t0 vals t" and "set ms \<subseteq> set (targets t)" and "distinct (map target_id ms)"
    and "runtime_file t1 = runtime_file t0"
  shows "\<exists>states' act' vals' t' s'.
    sfor (prepare_step W ctx t1 events fin) ms (states, act, vals) s =
      (Inr (states', act', vals'), s') \<and> log_ok MAX_LOG_BYTES (rc_log s') \<and>
    reads W t0 vals' t' \<and>
    (\<forall>k. k \<noteq> ''parent'' \<longrightarrow> k \<noteq> ''children'' \<longrightarrow> dget vals' k = dget vals k)"
  using assms(2-5)
proof (induction ms arbitrary: states act vals t s)
  case Nil
  then show ?case by (auto simp: step_defs)
next
  case (Cons m ms)
  let ?s = "s\<lparr>w_open_calls := (w_open_calls s)(key_of t1 m \<mapsto> calls_of s (key_of t1 m))\<rparr>"
  have log: "log_ok MAX_LOG_BYTES (rc_log ?s)" using Cons.prems(1) by simp
  have m: "m \<in> set (targets t)" using Cons.prems(3) by simp
  obtain d a v s' m' where
    pm: "prepare_monitor W ctx t1 events fin m vals ?s = (Inr (d, a, v), s')"
    and log': "log_ok MAX_LOG_BYTES (rc_log s')" and m': "target_id m' = target_id m"
    and r: "reads W t0 v (on_monitor (target_id m) (\<lambda>_. m') t)"
    and fr: "\<And>k. k \<noteq> ''parent'' \<Longrightarrow> k \<noteq> ''children'' \<Longrightarrow> dget v k = dget vals k"
    using prepare_monitor_total [OF assms(1) log Cons.prems(2) m assms(6)] by metis
  have sub: "set ms \<subseteq> set (targets (on_monitor (target_id m) (\<lambda>_. m') t))"
    using on_monitor_others [OF reads_ids_ok [OF Cons.prems(2)] m m'] Cons.prems(3,4)
    by (force simp: subset_iff image_iff)
  have dist: "distinct (map target_id ms)" using Cons.prems(4) by simp
  from Cons.IH [OF log' r sub dist, where states = "AList.update (key_of t1 m) d states" and
      act = "a \<or> act"]
  obtain states' act' vals' t' s'' where
    "sfor (prepare_step W ctx t1 events fin) ms (AList.update (key_of t1 m) d states, a \<or> act, v) s' =
      (Inr (states', act', vals'), s'')" "log_ok MAX_LOG_BYTES (rc_log s'')"
    "reads W t0 vals' t'"
    "\<forall>k. k \<noteq> ''parent'' \<longrightarrow> k \<noteq> ''children'' \<longrightarrow> dget vals' k = dget v k"
    by (elim exE conjE) (rule that)
  note rest = this
  have first: "prepare_step W ctx t1 events fin m (states, act, vals) s =
      (Inr (AList.update (key_of t1 m) d states, a \<or> act, v), s')"
    using pm by (simp add: prepare_step_def sbind_def smodify_def sret_def)
  have "sfor (prepare_step W ctx t1 events fin) (m # ms) (states, act, vals) s =
      (Inr (states', act', vals'), s'')"
    using rest(1) by (simp add: sbind_def first)
  then show ?case
    using rest(2-4) fr by (intro exI [of _ states'] exI [of _ act'] exI [of _ vals'] exI [of _ t']
        exI [of _ s'']) simp
qed

section \<open>Closing every target\<close>

lemma mark_all_total:
  assumes "reads W t0 vals t" and "set (map target_id ms) \<subseteq> set (map target_id (targets t))"
  shows "\<exists>vals' t'. mark_all_terminal ms (runtime_file t0) vals = Inr vals' \<and>
    reads W t0 vals' t' \<and>
    (\<forall>x \<in> set (targets t'). mt_terminal x \<or>
       target_id x \<notin> set (map target_id ms) \<and> x \<in> set (targets t)) \<and>
    (\<forall>k. k \<noteq> ''parent'' \<longrightarrow> k \<noteq> ''children'' \<longrightarrow> dget vals' k = dget vals k)"
  using assms
proof (induction ms arbitrary: vals t)
  case Nil
  then show ?case by auto
next
  case (Cons m ms)
  from Cons.prems(2) obtain c where c: "c \<in> set (targets t)" "target_id c = target_id m" by auto
  let ?t = "on_monitor (target_id m) (\<lambda>_. c\<lparr>mt_terminal := True\<rparr>) t"
  obtain b v where v: "mark_target_terminal vals (target_id m) (runtime_file t0) = Inr (b, v)"
    "reads W t0 v ?t"
    "\<And>k. k \<noteq> ''parent'' \<Longrightarrow> k \<noteq> ''children'' \<Longrightarrow> dget v k = dget vals k"
    using reads_mark [OF Cons.prems(1) c(1)] unfolding c(2) by metis
  have ts: "targets ?t = map (\<lambda>x. if target_id x = target_id m then c\<lparr>mt_terminal := True\<rparr> else x)
      (targets t)"
    using on_monitor_targets [OF reads_ids_ok [OF Cons.prems(1)] c(1), of "c\<lparr>mt_terminal := True\<rparr>"] c(2)
    by simp
  have "map target_id (targets ?t) = map target_id (targets t)"
    using c(2) by (simp add: ts)
  then have "set (map target_id ms) \<subseteq> set (map target_id (targets ?t))"
    using Cons.prems(2) by simp
  from Cons.IH [OF v(2) this] obtain vals' t' where
    "mark_all_terminal ms (runtime_file t0) v = Inr vals'" "reads W t0 vals' t'"
    "\<forall>x \<in> set (targets t'). mt_terminal x \<or>
       target_id x \<notin> set (map target_id ms) \<and> x \<in> set (targets ?t)"
    "\<forall>k. k \<noteq> ''parent'' \<longrightarrow> k \<noteq> ''children'' \<longrightarrow> dget vals' k = dget v k" by blast
  then show ?case
    using v(1,3) by (fastforce simp: ts split: if_splits)
qed

lemma reads_activity:
  "reads W t0 vals t \<Longrightarrow>
   get_optional_integer vals ''turn_activity_epoch'' (runtime_file t0) 0 = Inr (turn_activity t)"
  by (simp add: reads_def runtime_target_iff)

lemma targets_update [simp]:
  "targets (t\<lparr>turn_activity := i\<rparr>) = targets t"
  "targets (t\<lparr>rt_parent_complete := b\<rparr>) = targets t"
  by (cases "rt_parent t"; simp add: targets_def)+

lemma reads_frame:
  assumes "reads W t0 vals t"
  shows "reads W t0 (dset ''completion_event_id'' (JStr x) vals) t"
    and "0 \<le> i \<Longrightarrow> reads W t0 (dset ''turn_activity_epoch'' (JInt i) vals) (t\<lparr>turn_activity := i\<rparr>)"
    and "reads W t0 (dset ''parent_complete'' (JBool True) vals) (t\<lparr>rt_parent_complete := True\<rparr>)"
  using assms wf_dset_atom
  by (auto simp: reads_def runtime_target_iff simp del: wf_json.simps
      intro: wf_dset_atom)

lemma close_detectors:
  "\<forall>m \<in> set ms. \<exists>d. w_detectors (fold (close_detector ctx t) ms s) (key_of t m) = Some d \<and>
     wait_terminal (waits d)"
proof (induction ms rule: rev_induct)
  case (snoc x ms)
  then show ?case
    by (auto simp: close_detector_def set_detector_def set_wait_state_def terminal_waits_def
        wait_terminal_def)
qed simp

text \<open>Preparation as a whole, when the batch completes the locked turn.\<close>

lemma prepare_total:
  assumes "monitor_env_ok W (tc_wall_time ctx)" and "log_ok MAX_LOG_BYTES (rc_log s)" and "reads W t vals t"
    and "parent_completed t events"
  shows "\<exists>progress vals' t' s'. prepare W ctx t events vals s = (Inr (progress, vals'), s') \<and>
    tp_parent_terminal progress \<and> log_ok MAX_LOG_BYTES (rc_log s') \<and> reads W t vals' t' \<and>
    dget vals' ''parent_complete'' = JBool True \<and>
    (\<forall>k. k \<notin> {''parent'', ''children'', ''parent_complete''} \<longrightarrow> dget vals' k = dget vals k)"
proof -
  from assms(3) have pc: "get_boolean vals ''parent_complete'' (runtime_file t) =
      Inr (rt_parent_complete t)" by (simp add: reads_def runtime_target_iff)
  obtain vals0 t0 where v0: "ebind (mark_parent_complete vals (runtime_file t)) (\<lambda>(_, v). Inr v) =
      Inr vals0" and r0: "reads W t vals0 t0" "set (targets t) \<subseteq> set (targets t0)"
    and c0: "dget vals0 ''parent_complete'' = JBool True"
    and f0: "\<And>k. k \<noteq> ''parent_complete'' \<Longrightarrow> dget vals0 k = dget vals k"
  proof (cases "rt_parent_complete t")
    case True
    then show thesis
      using that [of vals t] pc assms(3)
      by (auto simp: mark_parent_complete_def get_boolean_def split: json.splits)
  next
    case False
    then show thesis
      using that [OF _ reads_frame(3) [OF assms(3)]] pc by (simp add: mark_parent_complete_def)
  qed
  have dist: "distinct (map target_id (targets t))"
    using targets_distinct reads_ids_ok [OF assms(3)] .
  from prepare_loop_total [OF assms(1,2) r0 dist refl, where states = "[]" and act = False and
      fin = True and events = events]
  obtain states' act' vals' t' s' where loop:
    "sfor (prepare_step W ctx t events True) (targets t) ([], False, vals0) s =
      (Inr (states', act', vals'), s')" "log_ok MAX_LOG_BYTES (rc_log s')" "reads W t vals' t'"
    "\<forall>k. k \<noteq> ''parent'' \<longrightarrow> k \<noteq> ''children'' \<longrightarrow> dget vals' k = dget vals0 k"
    by (elim exE conjE) (rule that)
  have "prepare W ctx t events vals s = (Inr (\<lparr>tp_states = states', tp_activity = act',
      tp_parent_terminal = True\<rparr>, vals'), s')"
    using assms(4) by (simp add: prepare_def v0 sbind_def slift_def loop(1)) (simp add: sret_def)
  moreover have "dget vals' ''parent_complete'' = JBool True" using loop(4) c0 by simp
  moreover have "\<forall>k. k \<notin> {''parent'', ''children'', ''parent_complete''} \<longrightarrow>
      dget vals' k = dget vals k" using loop(4) f0 by simp
  ultimately show ?thesis
    using loop(2,3) by (intro exI [of _ "\<lparr>tp_states = states', tp_activity = act',
      tp_parent_terminal = True\<rparr>"] exI [of _ vals'] exI [of _ t'] exI [of _ s']) simp
qed

lemma complete_total:
  assumes "monitor_env_ok W (tc_wall_time ctx)" and "log_ok MAX_LOG_BYTES (rc_log s)" and "reads W t vals t0"
    and "dget vals ''completion_event_id'' = JNull \<or>
      (\<exists>x. dget vals ''completion_event_id'' = JStr x)"
  shows "\<exists>vals' t' s'. complete_target W ctx t vals s = (Inr vals', s') \<and> reads W t vals' t' \<and>
    list_all mt_terminal (targets t') \<and>
    dget vals' ''completion_event_id'' = JStr (completion_event_id (sha (me_lib W)) t) \<and>
    (\<forall>k. k \<notin> {''parent'', ''children'', ''completion_event_id''} \<longrightarrow> dget vals' k = dget vals k) \<and>
    (\<forall>m \<in> set (targets t). \<exists>d. w_detectors s' (key_of t m) = Some d \<and> wait_terminal (waits d))"
proof -
  let ?eid = "completion_event_id (sha (me_lib W)) t"
  let ?note = "(target_note (tc_wall_time ctx) WATCHER_COMPLETED None (Some ?eid))
    \<lparr>td_state := COMPLETED\<rparr>"
  from assms(3) have same: "map target_id (targets t0) = map target_id (targets t)"
    by (simp add: reads_def)
  obtain vals1 t1 where v1: "mark_all_terminal (targets t) (runtime_file t) vals = Inr vals1"
    and r1: "reads W t vals1 t1"
    and all: "\<forall>x \<in> set (targets t1). mt_terminal x \<or>
      target_id x \<notin> set (map target_id (targets t)) \<and> x \<in> set (targets t0)"
    and f1: "\<forall>k. k \<noteq> ''parent'' \<longrightarrow> k \<noteq> ''children'' \<longrightarrow> dget vals1 k = dget vals k"
    using mark_all_total [OF assms(3), of "targets t"] same by auto
  have fin: "list_all mt_terminal (targets t1)"
    using all same by (auto simp: list_all_iff) (metis image_eqI list.set_map)
  obtain claimed vals2 where c: "claim_completion vals1 ?eid (runtime_file t) = Inr (claimed, vals2)"
    and v2: "vals2 = vals1 \<or> vals2 = dset ''completion_event_id'' (JStr ?eid) vals1"
    and e2: "dget vals2 ''completion_event_id'' = JStr ?eid"
  proof (cases "dget vals1 ''completion_event_id'' = JStr ?eid")
    case True
    then show thesis using that [of False vals1] by (simp add: claim_completion_def)
  next
    case False
    moreover have "dget vals1 ''completion_event_id'' = dget vals ''completion_event_id''"
      using f1 by simp
    ultimately show thesis
      using assms(4) that [of True "dset ''completion_event_id'' (JStr ?eid) vals1"]
      by (auto simp: claim_completion_def)
  qed
  have r2: "reads W t vals2 t1" using v2 r1 reads_frame(1) [OF r1] by auto
  have note_ok: "td_elapsed_ms ?note = None \<and> td_occurred_at ?note = tc_wall_time ctx" "opt_ok is_sha256 (td_event_id ?note)" "subject_ok ?note"
    using lifecycle_ids_hashed(2) [OF assms(1)]
    by (simp_all add: target_note_def opt_ok_def subject_ok_def)
  obtain s' where "record_diagnostic W t ?note s = (Inr (), s')"
    using record_diagnostic_total [OF assms(1,2) note_ok] by metis
  then obtain s1 where s1: "(if claimed then record_diagnostic W t ?note else sret ()) s = (Inr (), s1)"
    by (cases claimed) (simp_all add: sret_def)
  have "complete_target W ctx t vals s = (Inr vals2, fold (close_detector ctx t) (targets t) s1)"
    by (simp add: complete_target_def sbind_def slift_def v1 c Let_def s1 smodify_def)
      (simp add: sret_def)
  moreover have "\<forall>k. k \<notin> {''parent'', ''children'', ''completion_event_id''} \<longrightarrow>
      dget vals2 k = dget vals k"
    using f1 by (intro allI impI) (rule disjE [OF v2], simp_all)
  ultimately show ?thesis
    by (intro exI conjI) (assumption | rule r2 fin e2 close_detectors)+
qed

lemma same_optional_integer:
  "get_optional_integer d k p 0 = Inr i \<Longrightarrow> get_optional_integer d' k p 0 = Inr j \<Longrightarrow>
   dget d k = dget d' k \<Longrightarrow> i = j"
  by (auto simp: get_optional_integer_def dget_or_def dget_def
      split: option.splits json.splits if_splits)

section \<open>Properties\<close>

text \<open>
  C9: completing the locked turn closes the session: when the log is writable, a tick over a
  readable, unfinished session whose batch contains the completion of its parent turn always
  succeeds and reports the session inactive; the document it leaves is readable, with the parent
  complete, every target terminal and the same targets, the completion claimed under its stable
  identity, and the activity epoch advanced; and in memory every detector of the session has stopped.
\<close>

theorem completion_closes_session:
  assumes "monitor_env_ok W (tc_wall_time ctx)" and "log_ok MAX_LOG_BYTES (rc_log s)" and "wf_json (JObj vals)"
    and "runtime_target_from_values (me_lib W) (me_fs W) (me_home W) (runtime_file t) vals = Inr t"
    and "\<not> rt_parent_complete t" and "\<not> list_all mt_terminal (targets t)"
    and "parent_completed t events"
    and "dget vals ''completion_event_id'' = JNull \<or>
      (\<exists>x. dget vals ''completion_event_id'' = JStr x)"
  shows "\<exists>vals' t' s'. tick_target W ctx t vals events s = (Inr (False, vals'), s') \<and>
    runtime_target_from_values (me_lib W) (me_fs W) (me_home W) (runtime_file t) vals' = Inr t' \<and>
    rt_parent_complete t' \<and> list_all mt_terminal (targets t') \<and>
    map target_id (targets t') = map target_id (targets t) \<and>
    turn_activity t' = turn_activity t + 1 \<and>
    dget vals' ''completion_event_id'' = JStr (completion_event_id (sha (me_lib W)) t) \<and>
    (\<forall>m \<in> set (targets t). \<exists>d. w_detectors s' (key_of t m) = Some d \<and> wait_terminal (waits d))"
proof -
  have r: "reads W t vals t" using assms(3,4) by (simp add: reads_def del: wf_json.simps)
  obtain progress vals1 t1 s1 where
    p: "prepare W ctx t events vals s = (Inr (progress, vals1), s1)" "tp_parent_terminal progress"
    and l1: "log_ok MAX_LOG_BYTES (rc_log s1)" and r1: "reads W t vals1 t1"
    and c1: "dget vals1 ''parent_complete'' = JBool True"
    and f1: "\<forall>k. k \<notin> {''parent'', ''children'', ''parent_complete''} \<longrightarrow> dget vals1 k = dget vals k"
    using prepare_total [OF assms(1,2) r assms(7)] by (elim exE conjE) (rule that)
  let ?p = "runtime_file t"
  have ta: "turn_activity t1 = turn_activity t" "0 \<le> turn_activity t1"
    using same_optional_integer [OF reads_activity [OF r1] reads_activity [OF r]] f1
      get_optional_integer_Inr [OF reads_activity [OF r1]] by simp_all
  define vals2 where "vals2 = dset ''turn_activity_epoch'' (JInt (turn_activity t1 + 1)) vals1"
  have persist: "persist_turn_activity vals1 ?p (tp_activity progress \<or> tp_parent_terminal progress) =
      Inr vals2"
    using p(2) r1 by (simp add: persist_turn_activity_def advance_turn_activity_epoch_def
        turn_activity_epoch_def reads_def runtime_target_iff vals2_def del: wf_json.simps)
  have r2: "reads W t vals2 (t1\<lparr>turn_activity := turn_activity t1 + 1\<rparr>)"
    unfolding vals2_def using reads_frame(2) [OF r1] ta(2) by simp
  have ce: "dget vals2 ''completion_event_id'' = JNull \<or>
      (\<exists>x. dget vals2 ''completion_event_id'' = JStr x)"
    using assms(8) f1 by (simp add: vals2_def)
  obtain vals3 t3 s3 where
    c: "complete_target W ctx t vals2 s1 = (Inr vals3, s3)" and r3: "reads W t vals3 t3"
    and done3: "list_all mt_terminal (targets t3)"
      "dget vals3 ''completion_event_id'' = JStr (completion_event_id (sha (me_lib W)) t)"
    and f3: "\<forall>k. k \<notin> {''parent'', ''children'', ''completion_event_id''} \<longrightarrow>
      dget vals3 k = dget vals2 k"
    and mem: "\<forall>m \<in> set (targets t). \<exists>d. w_detectors s3 (key_of t m) = Some d \<and>
      wait_terminal (waits d)"
    using complete_total [OF assms(1) l1 r2 ce] by (elim exE conjE) (rule that)
  have "tick_target W ctx t vals events s = (Inr (False, vals3), s3)"
    using assms(5,6) p persist c
    by (simp add: tick_target_def finish_if_terminal_def evaluate_target_def sbind_def slift_def
        sret_def)
  moreover have "rt_parent_complete t3"
    using r3 f3 c1 by (simp add: reads_def runtime_target_iff get_boolean_def vals2_def
        del: wf_json.simps)
  moreover have "turn_activity t3 = turn_activity t + 1"
    using same_optional_integer [OF reads_activity [OF r3] reads_activity [OF r2]] f3 ta(1) by simp
  ultimately show ?thesis
    using r3 done3 mem by (intro exI [of _ vals3] exI [of _ t3] exI [of _ s3])
      (simp add: reads_def del: wf_json.simps)
qed

definition ex_done :: observed_event where
  "ex_done = observed TURN_COMPLETED 5 [(''turn_id'', JStr ''u'')] False"

definition ex_session_file :: path where
  "ex_session_file = runtime_path (sha (me_lib ex_monitor_env)) [''h'', ''p''] ''s''"

lemma ex_monitor_parse_env:
  "target_monitor (me_lib ex_monitor_env) ex_monitor tid p = Inr (ex_target_monitor tid)"
  by (simp add: target_monitor_def ex_monitor_def ex_target_monitor_def get_string_def
      get_integer_def get_boolean_def get_optional_integer_def get_optional_datetime_def)

lemma ex_parse_env:
  "runtime_target_from_values (me_lib ex_monitor_env) (me_fs ex_monitor_env)
     (me_home ex_monitor_env) ex_session_file ex_values =
   Inr (ex_target\<lparr>runtime_file := ex_session_file\<rparr>)"
  unfolding runtime_target_iff
  by (simp add: ex_values_def ex_target_def get_string_def get_integer_def get_boolean_def
      get_optional_integer_def parse_parent_turn_def critical_ms_def parse_thresholds_def
      mk_thresholds_def target_parent_def target_children_def target_child_def
      ex_monitor_parse_env)
    (simp add: ex_session_file_def ex_monitor_env_def resolve_rollout_path_def is_absolute_def
      abspath_def posix_parts_def strictly_below_def components_from_def ex_env_def Let_def)

lemma ex_monitor_env_ok: "monitor_env_ok ex_monitor_env 7"
proof -
  have "zulu ''0000000'' = ''0000000''" by (simp add: zulu.simps)
  then show ?thesis
    by (simp add: monitor_env_ok_def ex_monitor_env_def ex_lib_def ex_env_def diagnostic_path_def
        find_None_iff is_sha256_def list_all_iff eval_nat_numeral)
qed

theorem completion_closes_session_witness:
  "\<exists>vals' t' s'. tick_target ex_monitor_env \<lparr>tc_now = 5, tc_wall_time = 7\<rparr>
     (ex_target\<lparr>runtime_file := ex_session_file\<rparr>) ex_values [ex_done]
     (fresh_watcher empty_log []) = (Inr (False, vals'), s') \<and>
   runtime_target_from_values (me_lib ex_monitor_env) (me_fs ex_monitor_env)
     (me_home ex_monitor_env) ex_session_file vals' = Inr t' \<and> rt_parent_complete t' \<and>
   list_all mt_terminal (targets t') \<and> turn_activity t' = 1"
proof -
  let ?t = "ex_target\<lparr>runtime_file := ex_session_file\<rparr>"
  have "parent_completed ?t [ex_done]"
    by (simp add: parent_completed_def ex_done_def observed_def ex_target_def text_or_def text_of_def)
  moreover have "\<not> list_all mt_terminal (targets ?t)" "\<not> rt_parent_complete ?t" "turn_activity ?t = 0"
    by (simp_all add: ex_target_def targets_def ex_target_monitor_def)
  moreover have "dget ex_values ''completion_event_id'' = JNull" by (simp add: ex_values_def)
  moreover have "log_ok MAX_LOG_BYTES (rc_log (fresh_watcher empty_log []))"
    by (simp add: fresh_watcher_def empty_log_def log_ok_def file_ok_def opt_ok_def)
  ultimately show ?thesis
    using completion_closes_session [of ex_monitor_env "\<lparr>tc_now = 5, tc_wall_time = 7\<rparr>"
        "fresh_watcher empty_log []" ex_values ?t "[ex_done]"] ex_monitor_env_ok ex_wf ex_parse_env
    by (simp del: wf_json.simps) blast
qed

end
