(* ===== verification/Scheduler.thy ===== *)
theory Scheduler
  imports Prelude "HOL-Library.Multiset" "HOL-Library.Product_Lexorder"
begin

text \<open>
  \<open>scripts/daemon_scheduler.py\<close>: one worker and a heap of keyed deadlines, where cancelling and
  replacing only move a generation counter and stale heap entries are dropped when they surface.
  \<open>heapq\<close> is a list kept in the order of \<open>_Entry\<close> (deadline, then sequence number); the locale
  \<open>priority_queue\<close> is the contract the scheduler relies on. One pass of \<open>_next_entry\<close> up to its next
  wait or return is \<open>next_entry\<close>, with the clock reading as an argument; the interleaving of clients
  and worker is a step relation. Thread creation and the condition variable are not modelled: a
  waiting worker may take its next pass at any time.
\<close>

section \<open>Priority queues\<close>

locale priority_queue =
  fixes elems :: "'q \<Rightarrow> 'e multiset"
    and valid :: "'q \<Rightarrow> bool"
    and push :: "'e \<Rightarrow> 'q \<Rightarrow> 'q"
    and top :: "'q \<Rightarrow> 'e option"
    and pop :: "'q \<Rightarrow> 'q"
    and rank :: "'e \<Rightarrow> 'k :: linorder"
  assumes push_valid: "valid q \<Longrightarrow> valid (push e q)"
    and push_elems: "valid q \<Longrightarrow> elems (push e q) = add_mset e (elems q)"
    and top_None: "valid q \<Longrightarrow> top q = None \<longleftrightarrow> elems q = {#}"
    and top_elem: "valid q \<Longrightarrow> top q = Some e \<Longrightarrow> e \<in># elems q"
    and top_least: "valid q \<Longrightarrow> top q = Some e \<Longrightarrow> x \<in># elems q \<Longrightarrow> rank e \<le> rank x"
    and pop_valid: "valid q \<Longrightarrow> valid (pop q)"
    and pop_elems: "valid q \<Longrightarrow> top q = Some e \<Longrightarrow> elems (pop q) = elems q - {#e#}"
begin

lemma pop_later: "valid q \<Longrightarrow> top q = Some e \<Longrightarrow> top (pop q) = Some e' \<Longrightarrow> rank e \<le> rank e'"
  using top_elem [OF pop_valid, of q e'] top_least [of q e e'] pop_elems [of q e]
  by (auto dest: in_diffD)

lemma push_top: "valid q \<Longrightarrow> top (push x q) = Some e \<Longrightarrow> rank e \<le> rank x"
  using top_least [OF push_valid, of q x e x] push_elems [of q x] by simp

lemma pushed_first:
  "valid q \<Longrightarrow> \<forall>y \<in># elems q. rank x < rank y \<Longrightarrow> top (push x q) = Some x"
  using top_None [OF push_valid, of q x] top_elem [OF push_valid, of q x]
    top_least [OF push_valid, of q x _ x] push_elems [of q x]
  by (cases "top (push x q)") (auto simp: leD dest: leD)

text \<open>An element of a class whose least element is on top is not before it.\<close>

lemma top_least_of: "valid q \<Longrightarrow> top q = Some e \<Longrightarrow> x \<in># filter_mset P (elems q) \<Longrightarrow> rank e \<le> rank x"
  using top_least by simp

end

section \<open>State\<close>

datatype scheduler_health = SCHEDULER_HEALTHY | SCHEDULER_DEGRADED | SCHEDULER_FATAL

datatype scheduler_error = SchedulerError string

datatype 'c sched_entry =
  Entry (en_deadline: time) (en_sequence: nat) (en_key: string) (en_generation: nat)
    (en_callback: 'c)

text \<open>\<open>order=True\<close> with the last three fields excluded: a preorder on entries.\<close>

definition entry_rank :: "'c sched_entry \<Rightarrow> time \<times> nat" where
  "entry_rank e = (en_deadline e, en_sequence e)"

instantiation sched_entry :: (type) preorder
begin

definition less_eq_sched_entry :: "'a sched_entry \<Rightarrow> 'a sched_entry \<Rightarrow> bool" where
  "less_eq_sched_entry a b \<longleftrightarrow> entry_rank a \<le> entry_rank b"

definition less_sched_entry :: "'a sched_entry \<Rightarrow> 'a sched_entry \<Rightarrow> bool" where
  "less_sched_entry a b \<longleftrightarrow> entry_rank a < entry_rank b"

instance
  by standard (auto simp: less_eq_sched_entry_def less_sched_entry_def)

end

record 'c scheduler =
  sc_entries :: "'c sched_entry list"
  sc_generations :: "string \<rightharpoonup> nat"
  sc_sequence :: nat
  sc_closed :: bool
  sc_health :: scheduler_health
  sc_failures :: nat
  sc_last_error :: "string option"

definition new_scheduler :: "'c scheduler" where
  "new_scheduler = \<lparr>sc_entries = [], sc_generations = Map.empty, sc_sequence = 0,
     sc_closed = False, sc_health = SCHEDULER_HEALTHY, sc_failures = 0, sc_last_error = None\<rparr>"

section \<open>Operations\<close>

definition heappush :: "'c sched_entry \<Rightarrow> 'c sched_entry list \<Rightarrow> 'c sched_entry list" where
  "heappush e q = insort_key entry_rank e q"

definition schedule ::
  "string \<Rightarrow> time \<Rightarrow> 'c \<Rightarrow> 'c scheduler \<Rightarrow> scheduler_error + 'c scheduler" where
  "schedule key deadline callback s =
     (if key = [] then Inl (SchedulerError ''scheduler_key_missing'')
      else if sc_health s = SCHEDULER_FATAL then Inl (SchedulerError ''scheduler_unavailable'')
      else if sc_closed s then Inl (SchedulerError ''scheduler_closed'')
      else
        let n = sc_sequence s + 1
        in Inr (s\<lparr>sc_sequence := n, sc_generations := (sc_generations s)(key \<mapsto> n),
                 sc_entries := heappush (Entry deadline n key n callback) (sc_entries s)\<rparr>))"

definition wake :: "time \<Rightarrow> string \<Rightarrow> 'c \<Rightarrow> 'c scheduler \<Rightarrow> scheduler_error + 'c scheduler" where
  "wake now key callback s = schedule key now callback s"

definition cancel :: "string \<Rightarrow> 'c scheduler \<Rightarrow> 'c scheduler" where
  "cancel key s = s\<lparr>sc_generations := (sc_generations s)(key := None)\<rparr>"

definition close_scheduler :: "'c scheduler \<Rightarrow> 'c scheduler" where
  "close_scheduler s =
     (if sc_closed s then s
      else s\<lparr>sc_closed := True, sc_generations := Map.empty, sc_entries := []\<rparr>)"

definition record_callback_failure :: "'c scheduler \<Rightarrow> 'c scheduler" where
  "record_callback_failure s =
     s\<lparr>sc_failures := sc_failures s + 1, sc_last_error := Some ''callback_failed'',
       sc_health := (if sc_health s = SCHEDULER_HEALTHY then SCHEDULER_DEGRADED else sc_health s)\<rparr>"

definition record_callback_success :: "'c scheduler \<Rightarrow> 'c scheduler" where
  "record_callback_success s =
     s\<lparr>sc_health := (if sc_health s = SCHEDULER_DEGRADED then SCHEDULER_HEALTHY else sc_health s)\<rparr>"

definition mark_fatal :: "'c scheduler \<Rightarrow> 'c scheduler" where
  "mark_fatal s =
     s\<lparr>sc_health := SCHEDULER_FATAL, sc_entries := [], sc_generations := Map.empty,
       sc_last_error := Some ''scheduler_fatal''\<rparr>"

definition scheduler_status :: "'c scheduler \<Rightarrow> scheduler_health \<times> nat \<times> string option" where
  "scheduler_status s = (sc_health s, sc_failures s, sc_last_error s)"

fun discard_stale :: "(string \<rightharpoonup> nat) \<Rightarrow> 'c sched_entry list \<Rightarrow> 'c sched_entry list" where
  "discard_stale gens [] = []"
| "discard_stale gens (e # es) =
     (if gens (en_key e) = Some (en_generation e) then e # es else discard_stale gens es)"

lemma length_discard_stale: "length (discard_stale gens es) \<le> length es"
  by (induction es) auto

datatype 'c turn = WaitSignal | WaitFor time | Fire "'c sched_entry" | Finished

function next_entry :: "time \<Rightarrow> 'c scheduler \<Rightarrow> 'c turn \<times> 'c scheduler" where
  "next_entry now s =
     (if sc_closed s then (Finished, s)
      else case discard_stale (sc_generations s) (sc_entries s) of
             [] \<Rightarrow> (WaitSignal, s\<lparr>sc_entries := []\<rparr>)
           | e # es \<Rightarrow>
               if en_deadline e - now > 0
               then (WaitFor (en_deadline e - now), s\<lparr>sc_entries := e # es\<rparr>)
               else if sc_generations s (en_key e) \<noteq> Some (en_generation e)
               then next_entry now (s\<lparr>sc_entries := es\<rparr>)
               else (Fire e, s\<lparr>sc_entries := es,
                       sc_generations := (sc_generations s)(en_key e := None)\<rparr>))"
  by pat_completeness auto
termination
proof (relation "measure (\<lambda>(now, s). length (sc_entries s))", goal_cases)
  case (2 now s e es)
  then show ?case using length_discard_stale [of "sc_generations s" "sc_entries s"] by simp
qed simp

declare next_entry.simps [simp del]

section \<open>The heap as a priority queue\<close>

definition heap_top :: "'c sched_entry list \<Rightarrow> 'c sched_entry option" where
  "heap_top q = (case q of [] \<Rightarrow> None | e # _ \<Rightarrow> Some e)"

definition heap_valid :: "'c sched_entry list \<Rightarrow> bool" where
  "heap_valid q \<longleftrightarrow> sorted (map entry_rank q)"

interpretation heapq: priority_queue mset heap_valid heappush heap_top tl entry_rank
proof (unfold_locales, goal_cases)
  case (1 q e)
  then show ?case by (simp add: heap_valid_def heappush_def sorted_insort_key)
next
  case (2 q e)
  show ?case by (induction q) (auto simp: heappush_def)
qed (auto simp: heap_top_def heap_valid_def map_tl sorted_tl split: list.splits)

section \<open>Invariant and live deadlines\<close>

text \<open>The deadlines clients can observe: the entry whose generation is current for its key.\<close>

definition live :: "'c scheduler \<Rightarrow> 'c sched_entry \<Rightarrow> bool" where
  "live s e \<longleftrightarrow> e \<in> set (sc_entries s) \<and> sc_generations s (en_key e) = Some (en_generation e)"

definition sched_ok :: "'c scheduler \<Rightarrow> bool" where
  "sched_ok s \<longleftrightarrow> heap_valid (sc_entries s) \<and> distinct (map en_sequence (sc_entries s)) \<and>
     (\<forall>e \<in> set (sc_entries s). en_generation e = en_sequence e \<and> en_sequence e \<le> sc_sequence s) \<and>
     (\<forall>k g. sc_generations s k = Some g \<longrightarrow>
        g \<le> sc_sequence s \<and> (\<exists>e \<in> set (sc_entries s). en_key e = k \<and> en_generation e = g)) \<and>
     (sc_closed s \<longrightarrow> sc_entries s = [])"

lemma sched_ok_new [inv_intros]: "sched_ok new_scheduler"
  by (simp add: sched_ok_def new_scheduler_def heap_valid_def)

lemma set_heappush [simp]: "set (heappush e q) = insert e (set q)"
  by (simp add: heappush_def set_insort_key)

lemma distinct_heappush [simp]:
  "distinct (map f (heappush e q)) \<longleftrightarrow> f e \<notin> f ` set q \<and> distinct (map f q)"
proof -
  have "mset (map f (heappush e q)) = mset (map f (e # q))"
    using heapq.push_elems [of q e] by (induction q) (auto simp: heappush_def)
  from mset_eq_imp_distinct_iff [OF this] show ?thesis by simp
qed

lemma sched_ok_schedule [inv_intros]:
  "sched_ok s \<Longrightarrow> schedule k d cb s = Inr s' \<Longrightarrow> sched_ok s'"
  using heapq.push_valid
  by (fastforce simp: sched_ok_def schedule_def Let_def split: if_splits)

lemma sched_ok_cancel [inv_intros]: "sched_ok s \<Longrightarrow> sched_ok (cancel k s)"
  unfolding sched_ok_def cancel_def by (auto split: if_splits)

lemma sched_ok_close [inv_intros]: "sched_ok s \<Longrightarrow> sched_ok (close_scheduler s)"
  by (auto simp: sched_ok_def close_scheduler_def heap_valid_def)

lemma sched_ok_records [inv_intros]:
  "sched_ok s \<Longrightarrow> sched_ok (record_callback_failure s)"
  "sched_ok s \<Longrightarrow> sched_ok (record_callback_success s)"
  "sched_ok (mark_fatal s)"
  by (auto simp: sched_ok_def record_callback_failure_def record_callback_success_def
      mark_fatal_def heap_valid_def)

lemma discard_stale_suffix:
  "\<exists>xs. es = xs @ discard_stale gens es \<and>
     (\<forall>e \<in> set xs. gens (en_key e) \<noteq> Some (en_generation e))"
proof (induction es)
  case Nil
  then show ?case by simp
next
  case (Cons e es)
  then obtain xs where "es = xs @ discard_stale gens es"
    "\<forall>e \<in> set xs. gens (en_key e) \<noteq> Some (en_generation e)" by blast
  then show ?case
  proof (cases "gens (en_key e) = Some (en_generation e)")
    case True
    then show ?thesis by (intro exI [of _ "[]"]) simp
  next
    case False
    with \<open>es = xs @ discard_stale gens es\<close> \<open>\<forall>e \<in> set xs. _ e\<close> show ?thesis
      by (intro exI [of _ "e # xs"]) (metis append_Cons discard_stale.simps(2) set_ConsD)
  qed
qed

lemma discard_stale_head:
  "discard_stale gens es = e # es' \<Longrightarrow> gens (en_key e) = Some (en_generation e)"
  by (induction es) (auto split: if_splits)

text \<open>One pass never skips a live entry and never loops: the head it finds is live.\<close>

lemma next_entry_unfold:
  "next_entry now s =
     (if sc_closed s then (Finished, s)
      else case discard_stale (sc_generations s) (sc_entries s) of
             [] \<Rightarrow> (WaitSignal, s\<lparr>sc_entries := []\<rparr>)
           | e # es \<Rightarrow>
               if en_deadline e - now > 0
               then (WaitFor (en_deadline e - now), s\<lparr>sc_entries := e # es\<rparr>)
               else (Fire e, s\<lparr>sc_entries := es,
                       sc_generations := (sc_generations s)(en_key e := None)\<rparr>))"
  by (subst next_entry.simps) (auto simp: discard_stale_head split: list.splits)

lemma discarded_live:
  assumes "sched_ok s"
  shows "live (s\<lparr>sc_entries := discard_stale (sc_generations s) (sc_entries s)\<rparr>) = live s"
    and "sched_ok (s\<lparr>sc_entries := discard_stale (sc_generations s) (sc_entries s)\<rparr>)"
proof -
  obtain xs where es: "sc_entries s = xs @ discard_stale (sc_generations s) (sc_entries s)"
    and xs: "\<forall>e \<in> set xs. sc_generations s (en_key e) \<noteq> Some (en_generation e)"
    using discard_stale_suffix by blast
  let ?d = "discard_stale (sc_generations s) (sc_entries s)"
  have set: "set (sc_entries s) = set xs \<union> set ?d" by (metis es set_append)
  show "live (s\<lparr>sc_entries := ?d\<rparr>) = live s"
    using xs set by (fastforce simp: live_def)
  have "heap_valid ?d" and "distinct (map en_sequence ?d)"
    using assms es unfolding sched_ok_def heap_valid_def
    by (metis map_append sorted_append distinct_append)+
  then show "sched_ok (s\<lparr>sc_entries := ?d\<rparr>)"
    using assms xs set unfolding sched_ok_def by fastforce
qed

lemma live_unique: "sched_ok s \<Longrightarrow> live s e \<Longrightarrow> live s e' \<Longrightarrow> en_key e = en_key e' \<Longrightarrow> e = e'"
  unfolding sched_ok_def live_def distinct_map inj_on_def by (metis option.inject)

lemma live_exists: "sched_ok s \<Longrightarrow> sc_generations s k = Some g \<Longrightarrow> \<exists>e. live s e \<and> en_key e = k"
  by (force simp: sched_ok_def live_def)

lemma sched_ok_fire:
  assumes "sched_ok s" and "sc_entries s = e # es" and "sc_generations s (en_key e) = Some (en_generation e)"
  shows "sched_ok (s\<lparr>sc_entries := es, sc_generations := (sc_generations s)(en_key e := None)\<rparr>)"
proof -
  have "\<exists>x \<in> set es. en_key x = k \<and> en_generation x = g"
    if "k \<noteq> en_key e" "sc_generations s k = Some g" for k g
    using assms(1,2) that unfolding sched_ok_def by (metis set_ConsD)
  then show ?thesis using assms unfolding sched_ok_def heap_valid_def by (auto split: if_splits)
qed

lemma sched_ok_next [inv_intros]:
  assumes "sched_ok s" and "next_entry now s = (r, s')"
  shows "sched_ok s'"
proof -
  let ?d = "discard_stale (sc_generations s) (sc_entries s)"
  note d = discarded_live(2) [OF assms(1)]
  show ?thesis
  proof (cases ?d)
    case Nil
    then show ?thesis
      using assms d by (auto simp: next_entry_unfold split: if_splits)
  next
    case (Cons e es)
    then have "sc_generations s (en_key e) = Some (en_generation e)" by (rule discard_stale_head)
    then show ?thesis
      using assms d Cons sched_ok_fire [OF d, of e es]
      by (auto simp: next_entry_unfold split: if_splits)
  qed
qed

section \<open>The abstract scheduler: a map of deadlines\<close>

definition deadlines :: "'c scheduler \<Rightarrow> string \<rightharpoonup> time \<times> 'c" where
  "deadlines s k =
     map_option (\<lambda>e. (en_deadline e, en_callback e))
       (List.find (\<lambda>e. en_key e = k \<and> sc_generations s k = Some (en_generation e)) (sc_entries s))"

lemma find_SomeD: "List.find P xs = Some x \<Longrightarrow> x \<in> set xs \<and> P x"
  by (auto simp: find_Some_iff)

lemma deadlines_live:
  assumes "sched_ok s"
  shows "deadlines s k = Some (d, c) \<longleftrightarrow>
    (\<exists>e. live s e \<and> en_key e = k \<and> en_deadline e = d \<and> en_callback e = c)"
proof
  assume "deadlines s k = Some (d, c)"
  then show "\<exists>e. live s e \<and> en_key e = k \<and> en_deadline e = d \<and> en_callback e = c"
    by (force simp: deadlines_def live_def dest: find_SomeD)
next
  assume "\<exists>e. live s e \<and> en_key e = k \<and> en_deadline e = d \<and> en_callback e = c"
  then obtain e where e: "live s e" "en_key e = k" "en_deadline e = d" "en_callback e = c" by blast
  let ?P = "\<lambda>e. en_key e = k \<and> sc_generations s k = Some (en_generation e)"
  obtain e' where e': "List.find ?P (sc_entries s) = Some e'"
    using e find_None_iff [of ?P "sc_entries s"] by (cases "List.find ?P (sc_entries s)")
      (auto simp: live_def)
  then have "live s e'" "en_key e' = k" by (auto simp: live_def dest: find_SomeD)
  with e live_unique [OF assms] have "e' = e" by metis
  with e e' show "deadlines s k = Some (d, c)" by (simp add: deadlines_def)
qed

lemma deadlines_eqI:
  assumes "\<And>k d c. deadlines s k = Some (d, c) \<longleftrightarrow> m k = Some (d, c)"
  shows "deadlines s = m"
proof
  fix k
  show "deadlines s k = m k" using assms [of k] by (cases "deadlines s k"; cases "m k") auto
qed

lemma live_schedule:
  "sched_ok s \<Longrightarrow> schedule k d cb s = Inr s' \<Longrightarrow>
   live s' e \<longleftrightarrow> (if en_key e = k then e = Entry d (sc_sequence s + 1) k (sc_sequence s + 1) cb
                 else live s e)"
  by (cases e) (fastforce simp: schedule_def live_def Let_def sched_ok_def split: if_splits)

lemma live_next:
  assumes "sched_ok s" and "next_entry now s = (Fire f, s')"
  shows "live s' e \<longleftrightarrow> live s e \<and> en_key e \<noteq> en_key f"
proof -
  let ?d = "discard_stale (sc_generations s) (sc_entries s)"
  from assms(2) obtain es where d: "?d = f # es"
    and s': "s' = s\<lparr>sc_entries := es, sc_generations := (sc_generations s)(en_key f := None)\<rparr>"
    by (auto simp: next_entry_unfold split: if_splits list.splits)
  have "live s e \<longleftrightarrow> e \<in> set (f # es) \<and> sc_generations s (en_key e) = Some (en_generation e)"
    using fun_cong [OF discarded_live(1) [OF assms(1)], of e] d by (simp add: live_def)
  then show ?thesis by (auto simp: live_def s')
qed

lemma next_entry_head:
  assumes "sched_ok s" and "\<not> sc_closed s"
  shows "case next_entry now s of
      (Fire f, s') \<Rightarrow> live s f \<and> en_deadline f \<le> now \<and> (\<forall>e. live s e \<longrightarrow> entry_rank f \<le> entry_rank e)
    | (WaitFor w, s') \<Rightarrow> 0 < w \<and> live s' = live s \<and>
        (\<exists>f. live s f \<and> en_deadline f = now + w \<and> (\<forall>e. live s e \<longrightarrow> entry_rank f \<le> entry_rank e))
    | (WaitSignal, s') \<Rightarrow> live s' = live s \<and> (\<forall>e. \<not> live s e)
    | (Finished, s') \<Rightarrow> False"
proof -
  let ?d = "discard_stale (sc_generations s) (sc_entries s)"
  let ?s = "s\<lparr>sc_entries := ?d\<rparr>"
  note same = discarded_live(1) [OF assms(1)]
  have valid: "heap_valid ?d" using discarded_live(2) [OF assms(1)] by (simp add: sched_ok_def)
  show ?thesis
  proof (cases ?d)
    case Nil
    then have "\<not> live s e" for e using fun_cong [OF same, of e] by (simp add: live_def)
    with Nil assms(2) same show ?thesis by (simp add: next_entry_unfold)
  next
    case (Cons f es)
    have top: "heap_top ?d = Some f" using Cons by (simp add: heap_top_def)
    have "sc_generations s (en_key f) = Some (en_generation f)" using Cons by (rule discard_stale_head)
    then have "live s f" using fun_cong [OF same, of f] Cons by (simp add: live_def)
    moreover have "entry_rank f \<le> entry_rank e" if "live s e" for e
      using heapq.top_least [OF valid top, of e] that fun_cong [OF same, of e]
      by (simp add: live_def)
    ultimately show ?thesis
      using Cons assms(2) same by (auto simp: next_entry_unfold)
  qed
qed

lemma rank_deadline: "entry_rank a \<le> entry_rank b \<Longrightarrow> en_deadline a \<le> en_deadline b"
  by (auto simp: entry_rank_def)

section \<open>Clients and worker\<close>

text \<open>
  The interleavings: a client takes the lock for one operation, the worker for one pass or for
  recording a callback's outcome. The callback itself runs without the lock; the clock reading of
  every pass is arbitrary. \<open>sy_fired\<close> is the trace of fired entries with the clock reading.
\<close>

datatype 'c worker = Waiting | Running "'c sched_entry" | Exited

record 'c system =
  sy_scheduler :: "'c scheduler"
  sy_worker :: "'c worker"
  sy_fired :: "(time \<times> 'c sched_entry) list"

definition initial_system :: "'c system" where
  "initial_system = \<lparr>sy_scheduler = new_scheduler, sy_worker = Waiting, sy_fired = []\<rparr>"

inductive sched_step :: "'c system \<Rightarrow> 'c system \<Rightarrow> bool" where
  client_schedule: "schedule k d cb (sy_scheduler y) = Inr s' \<Longrightarrow>
    sched_step y (y\<lparr>sy_scheduler := s'\<rparr>)"
| client_cancel: "sched_step y (y\<lparr>sy_scheduler := cancel k (sy_scheduler y)\<rparr>)"
| client_close: "sched_step y (y\<lparr>sy_scheduler := close_scheduler (sy_scheduler y)\<rparr>)"
| worker_wait: "sy_worker y = Waiting \<Longrightarrow> next_entry now (sy_scheduler y) = (r, s') \<Longrightarrow>
    r = WaitSignal \<or> r = WaitFor w \<Longrightarrow> sched_step y (y\<lparr>sy_scheduler := s'\<rparr>)"
| worker_fire: "sy_worker y = Waiting \<Longrightarrow> next_entry now (sy_scheduler y) = (Fire e, s') \<Longrightarrow>
    sched_step y (y\<lparr>sy_scheduler := s', sy_worker := Running e, sy_fired := sy_fired y @ [(now, e)]\<rparr>)"
| worker_finish: "sy_worker y = Waiting \<Longrightarrow> next_entry now (sy_scheduler y) = (Finished, s') \<Longrightarrow>
    sched_step y (y\<lparr>sy_scheduler := s', sy_worker := Exited\<rparr>)"
| callback_returned: "sy_worker y = Running e \<Longrightarrow>
    sched_step y (y\<lparr>sy_scheduler := record_callback_success (sy_scheduler y), sy_worker := Waiting\<rparr>)"
| callback_raised: "sy_worker y = Running e \<Longrightarrow>
    sched_step y (y\<lparr>sy_scheduler := record_callback_failure (sy_scheduler y), sy_worker := Waiting\<rparr>)"
| callback_died: "sy_worker y = Running e \<Longrightarrow>
    sched_step y (y\<lparr>sy_scheduler := mark_fatal (sy_scheduler y), sy_worker := Exited\<rparr>)"

inductive_cases sched_stepE: "sched_step y y'"

definition reachable_system :: "'c system \<Rightarrow> bool" where
  "reachable_system y \<longleftrightarrow> sched_step\<^sup>*\<^sup>* initial_system y"

text \<open>Fired generations are gone for good: below the sequence counter and no longer live.\<close>

definition system_ok :: "'c system \<Rightarrow> bool" where
  "system_ok y \<longleftrightarrow> sched_ok (sy_scheduler y) \<and>
     distinct (map (en_generation \<circ> snd) (sy_fired y)) \<and>
     (\<forall>(now, e) \<in> set (sy_fired y). en_deadline e \<le> now \<and>
        en_generation e \<le> sc_sequence (sy_scheduler y) \<and>
        (\<forall>f. live (sy_scheduler y) f \<longrightarrow> en_generation f \<noteq> en_generation e)) \<and>
     (sc_health (sy_scheduler y) = SCHEDULER_FATAL \<longrightarrow>
        sy_worker y = Exited \<and> sc_entries (sy_scheduler y) = [])"

lemma live_cancel: "live (cancel k s) e \<longleftrightarrow> live s e \<and> en_key e \<noteq> k"
  by (auto simp: live_def cancel_def)

lemma live_close: "sched_ok s \<Longrightarrow> \<not> live (close_scheduler s) e"
  by (auto simp: live_def close_scheduler_def sched_ok_def)

lemma live_records [simp]:
  "live (record_callback_failure s) = live s" "live (record_callback_success s) = live s"
  "\<not> live (mark_fatal s) e"
  by (auto simp: live_def record_callback_failure_def record_callback_success_def mark_fatal_def)

lemma live_wait:
  "sched_ok s \<Longrightarrow> next_entry now s = (r, s') \<Longrightarrow> r = WaitSignal \<or> r = WaitFor w \<Longrightarrow> live s' = live s"
  using next_entry_head [of s now] by (cases "sc_closed s") (auto simp: next_entry_unfold)

lemma next_entry_frame:
  "next_entry now s = (r, s') \<Longrightarrow> sc_sequence s' = sc_sequence s \<and> sc_health s' = sc_health s \<and>
     sc_closed s' = sc_closed s \<and> (sc_entries s = [] \<longrightarrow> sc_entries s' = [] \<and> (\<forall>e. r \<noteq> Fire e))"
  by (auto simp: next_entry_unfold split: if_splits list.splits)

lemma operation_frames [simp]:
  "sc_sequence (cancel k s) = sc_sequence s" "sc_health (cancel k s) = sc_health s"
  "sc_entries (cancel k s) = sc_entries s"
  "sc_sequence (close_scheduler s) = sc_sequence s" "sc_health (close_scheduler s) = sc_health s"
  "sc_entries s = [] \<Longrightarrow> sc_entries (close_scheduler s) = []"
  "sc_sequence (record_callback_failure s) = sc_sequence s"
  "sc_entries (record_callback_failure s) = sc_entries s"
  "sc_health (record_callback_failure s) = SCHEDULER_FATAL \<longleftrightarrow> sc_health s = SCHEDULER_FATAL"
  "sc_sequence (record_callback_success s) = sc_sequence s"
  "sc_entries (record_callback_success s) = sc_entries s"
  "sc_health (record_callback_success s) = SCHEDULER_FATAL \<longleftrightarrow> sc_health s = SCHEDULER_FATAL"
  "sc_sequence (mark_fatal s) = sc_sequence s" "sc_entries (mark_fatal s) = []"
  by (simp_all add: cancel_def close_scheduler_def record_callback_failure_def
      record_callback_success_def mark_fatal_def)

lemma system_ok_step:
  assumes "system_ok y" and "sched_step y y'"
  shows "system_ok y'"
  using assms(2)
proof cases
  case (client_schedule k d cb s')
  from client_schedule(2) have "sc_sequence (sy_scheduler y) \<le> sc_sequence s'"
    "sc_health s' = sc_health (sy_scheduler y)" "sc_health s' \<noteq> SCHEDULER_FATAL"
    by (auto simp: schedule_def Let_def split: if_splits)
  then show ?thesis
    using assms(1) client_schedule sched_ok_schedule [of "sy_scheduler y" k d cb s']
      live_schedule [of "sy_scheduler y" k d cb s']
    by (fastforce simp: system_ok_def)
next
  case (worker_fire now e s')
  have ok: "sched_ok (sy_scheduler y)" using assms(1) by (simp add: system_ok_def)
  have open_: "\<not> sc_closed (sy_scheduler y)"
    using worker_fire(3) by (auto simp: next_entry_unfold split: if_splits)
  have e: "live (sy_scheduler y) e" "en_deadline e \<le> now"
    using next_entry_head [OF ok open_, of now] worker_fire(3) by auto
  then have "en_generation e \<le> sc_sequence (sy_scheduler y)"
    using ok by (auto simp: live_def sched_ok_def)
  moreover have "en_generation f \<noteq> en_generation e" if "live s' f" for f
    using live_next [OF ok worker_fire(3), of f] that e ok
    unfolding live_def sched_ok_def distinct_map inj_on_def by metis
  ultimately show ?thesis
    using assms(1) worker_fire e sched_ok_next [OF ok worker_fire(3)]
      next_entry_frame [OF worker_fire(3)] live_next [OF ok worker_fire(3)]
    by (fastforce simp: system_ok_def)
next
  case (worker_wait now r s' w)
  have ok: "sched_ok (sy_scheduler y)" using assms(1) by (simp add: system_ok_def)
  have "live s' = live (sy_scheduler y)" by (rule live_wait [OF ok worker_wait(3,4)])
  then show ?thesis
    using assms(1) sched_ok_next [OF ok worker_wait(3)] next_entry_frame [OF worker_wait(3)]
    unfolding worker_wait(1) system_ok_def by simp
next
  case (worker_finish now s')
  then have "s' = sy_scheduler y" by (auto simp: next_entry_unfold split: if_splits list.splits)
  then show ?thesis using assms(1) unfolding worker_finish(1) system_ok_def by simp
qed (use assms(1) in \<open>auto simp: system_ok_def live_cancel live_close sched_ok_cancel
  sched_ok_close sched_ok_records\<close>)

lemma system_ok_reachable:
  assumes "reachable_system y"
  shows "system_ok y"
proof -
  have "system_ok initial_system"
    by (simp add: system_ok_def initial_system_def sched_ok_new) (simp add: new_scheduler_def)
  from assms [unfolded reachable_system_def] this show ?thesis
    by (induction rule: rtranclp_induct) (auto intro: system_ok_step)
qed

section \<open>Properties\<close>

text \<open>
  C16: generation counters implement keyed replacement: seen as a map from keys to deadline and
  callback, an accepted schedule overwrites the key's entry, cancelling removes it, and closing
  empties the map, although replaced and cancelled entries stay in the heap.
\<close>

theorem scheduler_refines_map:
  assumes "sched_ok s" and "schedule k d cb s = Inr s'"
  shows "deadlines s' = (deadlines s)(k \<mapsto> (d, cb)) \<and>
    deadlines (cancel j s') = (deadlines s')(j := None) \<and>
    deadlines (close_scheduler s') = Map.empty"
proof -
  note ok = sched_ok_schedule [OF assms]
  have "deadlines s' = (deadlines s)(k \<mapsto> (d, cb))"
  proof (rule deadlines_eqI)
    fix i u c
    let ?e = "Entry d (sc_sequence s + 1) k (sc_sequence s + 1) cb"
    have new: "live s' e \<and> en_key e = k \<longleftrightarrow> e = ?e" for e
      using live_schedule [OF assms, of e] by (cases "en_key e = k") auto
    show "deadlines s' i = Some (u, c) \<longleftrightarrow> ((deadlines s)(k \<mapsto> (d, cb))) i = Some (u, c)"
    proof (cases "i = k")
      case True
      then have "deadlines s' i = Some (u, c) \<longleftrightarrow> (\<exists>e. e = ?e \<and> en_deadline e = u \<and> en_callback e = c)"
        unfolding deadlines_live [OF ok] using new by blast
      with True show ?thesis by auto
    next
      case False
      then show ?thesis
        using live_schedule [OF assms] by (auto simp: deadlines_live [OF assms(1)] deadlines_live [OF ok])
    qed
  qed
  moreover have "deadlines (cancel j s') = (deadlines s')(j := None)"
    by (rule deadlines_eqI)
      (auto simp: deadlines_live [OF sched_ok_cancel [OF ok]] deadlines_live [OF ok] live_cancel)
  moreover have "deadlines (close_scheduler s') = Map.empty"
    by (rule deadlines_eqI) (simp add: deadlines_live [OF sched_ok_close [OF ok]] live_close [OF ok])
  ultimately show ?thesis by blast
qed

text \<open>
  The worker fires the earliest due deadline and nothing else: on an open scheduler one pass
  either fires an entry that is current for its key, due, and not later than any other current
  deadline, removing exactly that key; or waits precisely until the earliest current deadline, which
  lies in the future; or, when nothing is scheduled, waits for a signal. Stale entries never surface.
\<close>

theorem next_entry_earliest_due:
  assumes "sched_ok s" and "\<not> sc_closed s" and "next_entry now s = (r, s')"
  shows "case r of
      Fire e \<Rightarrow> deadlines s (en_key e) = Some (en_deadline e, en_callback e) \<and> en_deadline e \<le> now \<and>
        (\<forall>(d, c) \<in> ran (deadlines s). en_deadline e \<le> d) \<and>
        deadlines s' = (deadlines s)(en_key e := None)
    | WaitFor w \<Rightarrow> 0 < w \<and> deadlines s' = deadlines s \<and>
        (\<exists>k c. deadlines s k = Some (now + w, c)) \<and> (\<forall>(d, c) \<in> ran (deadlines s). now + w \<le> d)
    | WaitSignal \<Rightarrow> deadlines s = Map.empty \<and> deadlines s' = Map.empty
    | Finished \<Rightarrow> False"
proof -
  note ok = sched_ok_next [OF assms(1,3)]
  have ran: "(d, c) \<in> ran (deadlines s) \<longleftrightarrow>
      (\<exists>e. live s e \<and> en_deadline e = d \<and> en_callback e = c)" for d c
    using deadlines_live [OF assms(1)] by (auto simp: ran_def)
  have same: "live s' = live s \<Longrightarrow> deadlines s' = deadlines s"
    by (rule deadlines_eqI) (simp add: deadlines_live [OF assms(1)] deadlines_live [OF ok])
  have none: "\<forall>e. \<not> live s e \<Longrightarrow> deadlines s = Map.empty"
    by (rule deadlines_eqI) (simp add: deadlines_live [OF assms(1)])
  note head = next_entry_head [OF assms(1,2), of now, unfolded assms(3)]
  show ?thesis
  proof (cases r)
    case (Fire e)
    have "deadlines s' = (deadlines s)(en_key e := None)"
      using live_next [OF assms(1), of now e s'] assms(3) Fire
      by (intro deadlines_eqI) (auto simp: deadlines_live [OF assms(1)] deadlines_live [OF ok])
    then show ?thesis
      using Fire head rank_deadline [of e]
      by (fastforce simp: ran deadlines_live [OF assms(1)])
  next
    case (WaitFor w)
    then show ?thesis
      using head same rank_deadline by (fastforce simp: ran deadlines_live [OF assms(1)])
  qed (use head same none in auto)
qed


section \<open>A concrete run\<close>

definition ex_entry :: "string sched_entry" where
  "ex_entry = Entry 5 1 ''a'' 1 ''cb''"

definition ex_scheduler :: "string scheduler" where
  "ex_scheduler = new_scheduler\<lparr>sc_sequence := 1, sc_generations := [''a'' \<mapsto> 1],
     sc_entries := [ex_entry]\<rparr>"

lemma ex_schedule: "schedule ''a'' 5 ''cb'' new_scheduler = Inr ex_scheduler"
  by (simp add: schedule_def new_scheduler_def ex_scheduler_def ex_entry_def heappush_def Let_def)

lemma ex_fire: "next_entry 6 ex_scheduler =
  (Fire ex_entry, ex_scheduler\<lparr>sc_entries := [], sc_generations := Map.empty\<rparr>)"
  by (simp add: next_entry_unfold ex_scheduler_def new_scheduler_def ex_entry_def)

theorem scheduler_refines_map_witness:
  "deadlines ex_scheduler = [''a'' \<mapsto> (5, ''cb'')] \<and> deadlines (cancel ''a'' ex_scheduler) = Map.empty"
  using scheduler_refines_map [OF sched_ok_new ex_schedule, of "''a''"]
  by (auto simp: deadlines_def new_scheduler_def)

theorem next_entry_earliest_due_witness:
  "deadlines ex_scheduler ''a'' = Some (5, ''cb'') \<and>
   deadlines (ex_scheduler\<lparr>sc_entries := [], sc_generations := Map.empty\<rparr>) =
     (deadlines ex_scheduler)(''a'' := None)"
  using next_entry_earliest_due [OF sched_ok_schedule [OF sched_ok_new ex_schedule] _ ex_fire]
  by (simp add: ex_entry_def) (simp add: ex_scheduler_def new_scheduler_def)


end
