(* ===== verification/HookState.thy ===== *)
theory HookState
  imports SessionView
begin

text \<open>
  \<open>scripts/hook_payload.py\<close> and \<open>hook_state.py\<close>: the allowlisted hook payload and its effect on
  the session document. The code works on a copy of the children and stores it back at the end, so
  the operations act on the pair of the document and the children. \<open>json.loads\<close> has run (the
  argument is the decoded payload); \<open>uuid4().hex\<close> is an argument, as is the printed clock reading.
\<close>

section \<open>Payloads\<close>

datatype hook_event =
    SESSION_START | USER_PROMPT_SUBMIT | SUBAGENT_START | SUBAGENT_STOP
  | PRE_TOOL_USE | POST_TOOL_USE | PERMISSION_REQUEST | STOP_EVENT

definition hook_event_of :: "string \<Rightarrow> hook_event option" where
  "hook_event_of name = map_of
     [(''SessionStart'', SESSION_START), (''UserPromptSubmit'', USER_PROMPT_SUBMIT),
      (''SubagentStart'', SUBAGENT_START), (''SubagentStop'', SUBAGENT_STOP),
      (''PreToolUse'', PRE_TOOL_USE), (''PostToolUse'', POST_TOOL_USE),
      (''PermissionRequest'', PERMISSION_REQUEST), (''Stop'', STOP_EVENT)] name"

record hook_payload =
  hp_session_id :: string
  hp_event :: hook_event
  hp_turn_id :: "string option"
  hp_transcript_path :: "string option"
  hp_agent_id :: "string option"
  hp_permission_mode :: "string option"

definition optional_string :: "dict \<Rightarrow> string \<Rightarrow> string option" where
  "optional_string values key =
     (case dget values key of JStr (c # cs) \<Rightarrow> Some (c # cs) | _ \<Rightarrow> None)"

definition parse_payload :: "json \<Rightarrow> hook_payload option" where
  "parse_payload decoded =
     (case decoded of
        JObj d \<Rightarrow>
          (case (optional_string d ''session_id'', optional_string d ''hook_event_name'') of
             (Some sid, Some name) \<Rightarrow>
               (case hook_event_of name of
                  None \<Rightarrow> None
                | Some event \<Rightarrow>
                    Some \<lparr>hp_session_id = sid, hp_event = event,
                          hp_turn_id = optional_string d ''turn_id'',
                          hp_transcript_path = optional_string d ''transcript_path'',
                          hp_agent_id = optional_string d ''agent_id'',
                          hp_permission_mode = optional_string d ''permission_mode''\<rparr>)
           | _ \<Rightarrow> None)
      | _ \<Rightarrow> None)"

section \<open>Monitors\<close>

type_synonym hook_doc = "dict \<times> dict"

definition hook_children :: "dict \<Rightarrow> path \<Rightarrow> exn + dict" where
  "hook_children values p = (case dget values ''children'' of JObj cs \<Rightarrow> Inr cs | _ \<Rightarrow> Inl (bad_value p))"

definition hook_monitor :: "hook_doc \<Rightarrow> string option \<Rightarrow> path \<Rightarrow> exn + dict option" where
  "hook_monitor doc tid p =
     (case (case tid of None \<Rightarrow> dget (fst doc) ''parent'' | Some k \<Rightarrow> dget (snd doc) k) of
        JNull \<Rightarrow> Inr None
      | JObj m \<Rightarrow> Inr (Some m)
      | _ \<Rightarrow> Inl (bad_value p))"

definition save_monitor :: "hook_doc \<Rightarrow> string option \<Rightarrow> dict \<Rightarrow> hook_doc" where
  "save_monitor doc tid m =
     (case tid of
        None \<Rightarrow> (dset ''parent'' (JObj m) (fst doc), snd doc)
      | Some k \<Rightarrow> (fst doc, dset k (JObj m) (snd doc)))"

text \<open>Read, change, save: nothing happens for an absent monitor.\<close>

definition change_monitor ::
  "(dict \<Rightarrow> exn + dict) \<Rightarrow> hook_doc \<Rightarrow> string option \<Rightarrow> path \<Rightarrow> exn + hook_doc" where
  "change_monitor f doc tid p =
     ebind (hook_monitor doc tid p) (\<lambda>r.
     case r of
       None \<Rightarrow> Inr doc
     | Some m \<Rightarrow> ebind (f m) (\<lambda>m'. Inr (save_monitor doc tid m')))"

fun change_monitors ::
  "(dict \<Rightarrow> exn + dict) \<Rightarrow> hook_doc \<Rightarrow> string option list \<Rightarrow> path \<Rightarrow> exn + hook_doc" where
  "change_monitors f doc [] p = Inr doc"
| "change_monitors f doc (tid # tids) p =
     ebind (change_monitor f doc tid p) (\<lambda>doc'. change_monitors f doc' tids p)"

definition all_ids :: "dict \<Rightarrow> string option list" where
  "all_ids children = None # map (Some \<circ> fst) children"

definition set_terminal :: "dict \<Rightarrow> exn + dict" where
  "set_terminal m = Inr (dset ''status'' (JStr ''terminal'') m)"

definition set_approval_wait :: "dict \<Rightarrow> exn + dict" where
  "set_approval_wait m = Inr (dset ''waiting_for_approval'' (JBool True) m)"

definition unset_waits :: "dict \<Rightarrow> exn + dict" where
  "unset_waits m =
     Inr (dset ''waiting_for_approval'' (JBool False) (dset ''waiting_for_user'' (JBool False) m))"

definition count_tool :: "path \<Rightarrow> dict \<Rightarrow> exn + dict" where
  "count_tool p m =
     advance_monitor_progress_epoch
       (dset ''waiting_for_approval'' (JBool False)
         (dset ''open_tool_count''
           (JInt (case dget m ''open_tool_count'' of JInt n \<Rightarrow> n + 1 | _ \<Rightarrow> 1)) m)) p"

definition uncount_tool :: "string \<Rightarrow> path \<Rightarrow> dict \<Rightarrow> exn + dict" where
  "uncount_tool now p m =
     advance_monitor_progress_epoch
       (dset ''waiting_for_approval'' (JBool False)
         (dset ''last_tool_result_at'' (JStr now)
           (dset ''open_tool_count''
             (JInt (case dget m ''open_tool_count'' of JInt n \<Rightarrow> max 0 (n - 1) | _ \<Rightarrow> 0)) m))) p"

definition mark_monitor_terminal :: "hook_doc \<Rightarrow> string option \<Rightarrow> path \<Rightarrow> exn + hook_doc" where
  "mark_monitor_terminal = change_monitor set_terminal"

definition mark_approval_wait :: "hook_doc \<Rightarrow> string option \<Rightarrow> path \<Rightarrow> exn + hook_doc" where
  "mark_approval_wait = change_monitor set_approval_wait"

definition hook_tool_started :: "hook_doc \<Rightarrow> string option \<Rightarrow> path \<Rightarrow> exn + hook_doc" where
  "hook_tool_started doc tid p = change_monitor (count_tool p) doc tid p"

definition hook_tool_finished :: "string \<Rightarrow> hook_doc \<Rightarrow> string option \<Rightarrow> path \<Rightarrow> exn + hook_doc" where
  "hook_tool_finished now doc tid p = change_monitor (uncount_tool now p) doc tid p"

definition clear_waits :: "hook_doc \<Rightarrow> path \<Rightarrow> exn + hook_doc" where
  "clear_waits doc p = change_monitors unset_waits doc (all_ids (snd doc)) p"

section \<open>New monitors\<close>

definition next_generation :: "dict option \<Rightarrow> int" where
  "next_generation previous =
     (case previous of
        None \<Rightarrow> 1
      | Some m \<Rightarrow>
          let current = (case dget m ''generation'' of JInt g \<Rightarrow> if g > 0 then g else 1 | _ \<Rightarrow> 1)
          in if dget m ''status'' = JStr ''terminal'' then current + 1 else current)"

definition next_parent_generation :: "dict option \<Rightarrow> int" where
  "next_parent_generation previous =
     (case previous of
        None \<Rightarrow> 1
      | Some m \<Rightarrow> (case dget m ''generation'' of JInt g \<Rightarrow> if g > 0 then g + 1 else 2 | _ \<Rightarrow> 2))"

definition new_monitor :: "string \<Rightarrow> string \<Rightarrow> int \<Rightarrow> dict" where
  "new_monitor fresh now gen =
     [(''status'', JStr ''running''), (''generation'', JInt gen), (''last_item_at'', JNull),
      (''last_delta_at'', JNull), (''last_tool_result_at'', JNull),
      (''silence_started_at'', JStr now), (''open_tool_count'', JInt 0),
      (''waiting_for_approval'', JBool False), (''waiting_for_user'', JBool False),
      (''silence_id'', JStr fresh), (''warning_sent'', JBool False), (''restart_count'', JInt 0),
      (''progress_epoch'', JInt 0)]"

definition start_parent ::
  "string \<Rightarrow> string \<Rightarrow> hook_doc \<Rightarrow> string \<Rightarrow> path \<Rightarrow> exn + hook_doc" where
  "start_parent fresh now doc turn p =
     ebind (hook_monitor doc None p) (\<lambda>previous.
     let v = (if dget (fst doc) ''parent_turn_id'' \<noteq> JStr turn \<or> previous = None
              then dset ''parent'' (JObj (new_monitor fresh now (next_parent_generation previous)))
                     (fst doc)
              else fst doc)
     in Inr (dset ''parent_complete'' (JBool False) (dset ''parent_turn_id'' (JStr turn) v), snd doc))"

text \<open>\<open>any(...)\<close> stops at the first running monitor, before reading the others.\<close>

fun any_running :: "hook_doc \<Rightarrow> string option list \<Rightarrow> path \<Rightarrow> exn + bool" where
  "any_running doc [] p = Inr False"
| "any_running doc (tid # tids) p =
     ebind (hook_monitor doc tid p) (\<lambda>r.
     if (case r of None \<Rightarrow> False | Some m \<Rightarrow> dget m ''status'' \<noteq> JStr ''terminal'')
     then Inr True else any_running doc tids p)"

definition start_child ::
  "string \<Rightarrow> string \<Rightarrow> hook_doc \<Rightarrow> string option \<Rightarrow> path \<Rightarrow> exn + bool \<times> hook_doc" where
  "start_child fresh now doc child p =
     (case child of
        None \<Rightarrow> Inr (False, doc)
      | Some k \<Rightarrow>
          ebind (any_running doc (all_ids (snd doc)) p) (\<lambda>had.
          ebind (hook_monitor doc (Some k) p) (\<lambda>previous.
          let (v, cs) = save_monitor doc (Some k) (new_monitor fresh now (next_generation previous))
          in Inr (\<not> had, (dset ''parent_complete'' (JBool False) v, cs)))))"

section \<open>The events\<close>

definition stop_parent :: "hook_doc \<Rightarrow> path \<Rightarrow> exn + bool \<times> hook_doc" where
  "stop_parent doc p =
     (if dget (fst doc) ''managed_mode'' = JBool True then
        ebind (change_monitors set_terminal doc (all_ids (snd doc)) p) (\<lambda>(v, cs).
        let handoff = dget v ''shutdown_requested'' \<noteq> JBool True
        in Inr (False, (dset ''parent_complete'' (JBool False)
             (dset ''handoff_requested'' (JBool handoff) v), cs)))
      else if dget (fst doc) ''observe_only'' \<noteq> JBool True then Inr (False, doc)
      else
        ebind (mark_monitor_terminal doc None p) (\<lambda>(v, cs).
        Inr (True, (dset ''parent_complete'' (JBool True) v, cs))))"

definition no_launch :: "exn + hook_doc \<Rightarrow> exn + bool \<times> hook_doc" where
  "no_launch r = ebind r (\<lambda>doc. Inr (False, doc))"

definition apply_event ::
  "string \<Rightarrow> string \<Rightarrow> hook_doc \<Rightarrow> hook_payload \<Rightarrow> path \<Rightarrow> exn + bool \<times> hook_doc" where
  "apply_event fresh now doc payload p =
     (case hp_event payload of
        SESSION_START \<Rightarrow> Inr (False, doc)
      | USER_PROMPT_SUBMIT \<Rightarrow>
          (case hp_turn_id payload of
             None \<Rightarrow> Inr (False, doc)
           | Some turn \<Rightarrow>
               ebind (hook_monitor doc None p) (\<lambda>previous.
               ebind (start_parent fresh now doc turn p) (\<lambda>doc1.
               ebind (clear_waits doc1 p) (\<lambda>doc2.
               Inr (dget (fst doc) ''parent_turn_id'' \<noteq> JStr turn \<or> previous = None, doc2)))))
      | SUBAGENT_START \<Rightarrow> start_child fresh now doc (hp_agent_id payload) p
      | SUBAGENT_STOP \<Rightarrow> no_launch (mark_monitor_terminal doc (hp_agent_id payload) p)
      | PRE_TOOL_USE \<Rightarrow> no_launch (hook_tool_started doc (hp_agent_id payload) p)
      | POST_TOOL_USE \<Rightarrow> no_launch (hook_tool_finished now doc (hp_agent_id payload) p)
      | PERMISSION_REQUEST \<Rightarrow> no_launch (mark_approval_wait doc (hp_agent_id payload) p)
      | STOP_EVENT \<Rightarrow> stop_parent doc p)"

definition observed_fields :: "hook_doc \<Rightarrow> json list" where
  "observed_fields doc =
     [dget (fst doc) ''parent'', JObj (snd doc), dget (fst doc) ''parent_turn_id'',
      dget (fst doc) ''parent_complete'']"

definition apply_hook_event ::
  "string \<Rightarrow> string \<Rightarrow> dict \<Rightarrow> hook_payload \<Rightarrow> path \<Rightarrow> exn + bool \<times> dict" where
  "apply_hook_event fresh now values payload p =
     ebind (hook_children values p) (\<lambda>children.
     ebind (apply_event fresh now (values, children) payload p) (\<lambda>(launch, doc).
     ebind (if py_eq (JList (observed_fields doc)) (JList (observed_fields (values, children)))
            then Inr (fst doc) else advance_turn_activity_epoch (fst doc) p) (\<lambda>values'.
     Inr (launch, dset ''children'' (JObj (snd doc)) values'))))"

text \<open>\<open>start_managed_parent\<close>, the manager's entry to the same operation.\<close>

definition start_managed_parent ::
  "string \<Rightarrow> string \<Rightarrow> dict \<Rightarrow> string \<Rightarrow> path \<Rightarrow> exn + dict" where
  "start_managed_parent fresh now values turn p =
     ebind (hook_children values p) (\<lambda>children.
     ebind (start_parent fresh now (values, children) turn p) (\<lambda>(v, cs).
     Inr (dset ''children'' (JObj cs) v)))"

section \<open>The typed effect of an event\<close>

definition on_all :: "(monitor_target \<Rightarrow> monitor_target) \<Rightarrow> runtime_target \<Rightarrow> runtime_target" where
  "on_all g t = t\<lparr>rt_parent := map_option g (rt_parent t), rt_children := map g (rt_children t)\<rparr>"

definition fresh_monitor :: "string option \<Rightarrow> time \<Rightarrow> int \<Rightarrow> monitor_target" where
  "fresh_monitor tid u g = \<lparr>target_id = tid, generation = g, mt_terminal = False,
     mt_open_tool_count = 0, mt_waiting_for_approval = False, mt_waiting_for_user = False,
     progress_epoch = 0, started_at = Some u\<rparr>"

definition child_named :: "string \<Rightarrow> runtime_target \<Rightarrow> monitor_target option" where
  "child_named k t = List.find (\<lambda>m. target_id m = Some k) (rt_children t)"

definition put_child :: "string \<Rightarrow> monitor_target \<Rightarrow> runtime_target \<Rightarrow> runtime_target" where
  "put_child k m t =
     (if child_named k t = None then t\<lparr>rt_children := rt_children t @ [m]\<rparr>
      else on_monitor (Some k) (\<lambda>_. m) t)"

definition tool_begins :: "monitor_target \<Rightarrow> monitor_target" where
  "tool_begins m = m\<lparr>mt_open_tool_count := mt_open_tool_count m + 1,
     mt_waiting_for_approval := False, progress_epoch := progress_epoch m + 1\<rparr>"

definition tool_ends :: "monitor_target \<Rightarrow> monitor_target" where
  "tool_ends m = m\<lparr>mt_open_tool_count := max 0 (mt_open_tool_count m - 1),
     mt_waiting_for_approval := False, progress_epoch := progress_epoch m + 1\<rparr>"

definition stops_waiting :: "monitor_target \<Rightarrow> monitor_target" where
  "stops_waiting m = m\<lparr>mt_waiting_for_approval := False, mt_waiting_for_user := False\<rparr>"

definition ends :: "monitor_target \<Rightarrow> monitor_target" where
  "ends m = m\<lparr>mt_terminal := True\<rparr>"

definition prompt_effect :: "string \<Rightarrow> time \<Rightarrow> runtime_target \<Rightarrow> runtime_target" where
  "prompt_effect turn u t =
     (let parent = (if parent_turn_id t \<noteq> Some turn \<or> rt_parent t = None
                    then Some (fresh_monitor None u
                           (case rt_parent t of None \<Rightarrow> 1 | Some m \<Rightarrow> generation m + 1))
                    else rt_parent t)
      in on_all stops_waiting
           (t\<lparr>rt_parent := parent, parent_turn_id := Some turn, rt_parent_complete := False\<rparr>))"

definition child_effect :: "string \<Rightarrow> time \<Rightarrow> runtime_target \<Rightarrow> runtime_target" where
  "child_effect k u t =
     (let g = (case child_named k t of
                 None \<Rightarrow> 1
               | Some m \<Rightarrow> if mt_terminal m then generation m + 1 else generation m)
      in put_child k (fresh_monitor (Some k) u g) (t\<lparr>rt_parent_complete := False\<rparr>))"

definition hook_effect ::
  "bool \<Rightarrow> bool \<Rightarrow> hook_payload \<Rightarrow> time \<Rightarrow> runtime_target \<Rightarrow> runtime_target" where
  "hook_effect managed observe payload u t =
     (case hp_event payload of
        SESSION_START \<Rightarrow> t
      | USER_PROMPT_SUBMIT \<Rightarrow>
          (case hp_turn_id payload of None \<Rightarrow> t | Some turn \<Rightarrow> prompt_effect turn u t)
      | SUBAGENT_START \<Rightarrow>
          (case hp_agent_id payload of None \<Rightarrow> t | Some k \<Rightarrow> child_effect k u t)
      | SUBAGENT_STOP \<Rightarrow> on_monitor (hp_agent_id payload) ends t
      | PRE_TOOL_USE \<Rightarrow> on_monitor (hp_agent_id payload) tool_begins t
      | POST_TOOL_USE \<Rightarrow> on_monitor (hp_agent_id payload) tool_ends t
      | PERMISSION_REQUEST \<Rightarrow>
          on_monitor (hp_agent_id payload) (\<lambda>m. m\<lparr>mt_waiting_for_approval := True\<rparr>) t
      | STOP_EVENT \<Rightarrow>
          if managed then (on_all ends t)\<lparr>rt_parent_complete := False\<rparr>
          else if observe then (on_monitor None ends t)\<lparr>rt_parent_complete := True\<rparr>
          else t)"

section \<open>Lemmas: the working pair\<close>

definition views :: "pylib \<Rightarrow> fs_env \<Rightarrow> path \<Rightarrow> path \<Rightarrow> hook_doc \<Rightarrow> runtime_target \<Rightarrow> bool" where
  "views lib env home p doc t \<longleftrightarrow> wf_json (JObj (fst doc)) \<and> wf_json (JObj (snd doc)) \<and>
     runtime_target_from_values lib env home p (dset ''children'' (JObj (snd doc)) (fst doc)) = Inr t"

lemma views_children:
  "views lib env home p doc t \<Longrightarrow> emap (target_child lib p) (snd doc) = Inr (rt_children t)"
  by (simp add: views_def runtime_target_iff target_children_def)

lemma views_parent:
  "views lib env home p doc t \<Longrightarrow> target_parent lib (fst doc) p = Inr (rt_parent t)"
  by (simp add: views_def runtime_target_iff)

lemma views_ids_ok: "views lib env home p doc t \<Longrightarrow> ids_ok t"
  by (auto simp: views_def simp del: wf_json.simps intro!: parsed_ids_ok wf_json_dset)

lemma views_ids: "views lib env home p doc t \<Longrightarrow> all_ids (snd doc) = None # map target_id (rt_children t)"
  using target_child_ids [OF views_children] by (simp add: all_ids_def)

lemma views_update_parent:
  assumes "views lib env home p doc t" and "target_monitor lib d None p = Inr m" and "wf_json (JObj d)"
  shows "views lib env home p (dset ''parent'' (JObj d) (fst doc), snd doc) (t\<lparr>rt_parent := Some m\<rparr>)"
  using assms wf_json_dset [of "fst doc" "JObj d" "''parent''"]
  by (auto simp: views_def runtime_target_iff target_children_def target_parent_def
      simp del: wf_json.simps)

lemma views_set_children:
  assumes "views lib env home p doc t" and "emap (target_child lib p) cs = Inr ms"
    and "wf_json (JObj cs)"
  shows "views lib env home p (fst doc, cs) (t\<lparr>rt_children := ms\<rparr>)"
  using assms by (auto simp: views_def runtime_target_iff target_children_def simp del: wf_json.simps)

lemma views_set_complete:
  "views lib env home p (v, cs) t \<Longrightarrow>
   views lib env home p (dset ''parent_complete'' (JBool b) v, cs) (t\<lparr>rt_parent_complete := b\<rparr>)"
  by (auto simp: views_def runtime_target_iff target_children_def simp del: wf_json.simps
      intro: wf_dset_atom)

lemma views_set_turn:
  "views lib env home p (v, cs) t \<Longrightarrow>
   views lib env home p (dset ''parent_turn_id'' (JStr x) v, cs) (t\<lparr>parent_turn_id := Some x\<rparr>)"
  by (auto simp: views_def runtime_target_iff target_children_def parse_parent_turn_def
      simp del: wf_json.simps intro: wf_dset_atom)

lemma views_set_other:
  "views lib env home p (v, cs) t \<Longrightarrow> views lib env home p (dset ''handoff_requested'' (JBool b) v, cs) t"
  by (auto simp: views_def runtime_target_iff target_children_def simp del: wf_json.simps
      intro: wf_dset_atom)

text \<open>A change of one monitor that refines \<open>g\<close> on its typed view.\<close>

definition refines ::
  "pylib \<Rightarrow> path \<Rightarrow> (dict \<Rightarrow> exn + dict) \<Rightarrow> (monitor_target \<Rightarrow> monitor_target) \<Rightarrow> bool" where
  "refines lib p f g \<longleftrightarrow> (\<forall>m. target_id (g m) = target_id m) \<and>
     (\<forall>d tid m. wf_json (JObj d) \<longrightarrow> target_monitor lib d tid p = Inr m \<longrightarrow>
        (\<exists>d'. f d = Inr d' \<and> wf_json (JObj d') \<and> target_monitor lib d' tid p = Inr (g m)))"

lemma child_value:
  assumes "views lib env home p doc t"
  shows "case dget (snd doc) k of
      JNull \<Rightarrow> Some k \<notin> set (map target_id (rt_children t))
    | JObj d \<Rightarrow> k \<noteq> [] \<and> wf_json (JObj d) \<and> (\<exists>m \<in> set (rt_children t). target_id m = Some k \<and>
        target_monitor lib d (Some k) p = Inr m)
    | _ \<Rightarrow> False"
proof (cases "map_of (snd doc) k")
  case None
  then have "Some k \<notin> set (map target_id (rt_children t))"
    using target_child_ids [OF views_children [OF assms]] by (auto simp: map_of_eq_None_iff)
  with None show ?thesis by (simp add: dget_def)
next
  case (Some v)
  from emap_image [OF views_children [OF assms] map_of_SomeD [OF Some]]
  obtain m where m: "m \<in> set (rt_children t)" "target_child lib p (k, v) = Inr m" by blast
  have "wf_json (dget (snd doc) k)"
    using assms by (auto simp: views_def simp del: wf_json.simps intro: wf_json_dget)
  with m Some target_child_id [OF m(2)] show ?thesis
    by (auto simp: dget_def target_child_def simp del: wf_json.simps split: json.splits if_splits)
qed

lemma change_monitor_views:
  assumes "views lib env home p doc t" and "refines lib p f g"
  obtains doc' where "change_monitor f doc tid p = Inr doc'"
    "views lib env home p doc' (on_monitor tid g t)"
    "\<And>k. k \<noteq> ''parent'' \<Longrightarrow> dget (fst doc') k = dget (fst doc) k"
    "map fst (snd doc') = map fst (snd doc)"
proof (cases tid)
  case None
  show thesis
  proof (cases "rt_parent t")
    case absent: None
    then have "dget (fst doc) ''parent'' = JNull"
      using views_parent [OF assms(1)] by (auto simp: target_parent_def err_simps split: json.splits)
    then have "change_monitor f doc tid p = Inr doc"
      by (simp add: change_monitor_def hook_monitor_def None)
    moreover have "on_monitor tid g t = t" using absent by (simp add: on_monitor_def None)
    ultimately show thesis using that assms(1) by metis
  next
    case (Some m)
    then obtain d where d: "dget (fst doc) ''parent'' = JObj d" "target_monitor lib d None p = Inr m"
      using views_parent [OF assms(1)] by (auto simp: target_parent_def err_simps split: json.splits)
    have "wf_json (JObj d)" using assms(1) wf_json_dget_obj d(1) unfolding views_def by blast
    with d(2) assms(2) obtain d' where d': "f d = Inr d'" "wf_json (JObj d')"
      "target_monitor lib d' None p = Inr (g m)" unfolding refines_def by blast
    have "change_monitor f doc tid p = Inr (dset ''parent'' (JObj d') (fst doc), snd doc)"
      using d(1) d'(1) by (simp add: change_monitor_def hook_monitor_def save_monitor_def None)
    moreover have "on_monitor tid g t = t\<lparr>rt_parent := Some (g m)\<rparr>"
      using Some by (simp add: on_monitor_def None)
    ultimately show thesis
      using that views_update_parent [OF assms(1) d'(3,2)] by simp
  qed
next
  case (Some k)
  note v = child_value [OF assms(1), of k]
  show thesis
  proof (cases "dget (snd doc) k")
    case JNull
    then have "Some k \<notin> set (map target_id (rt_children t))" using v by simp
    then have "map (\<lambda>m. if target_id m = Some k then g m else m) (rt_children t) = rt_children t"
      by (intro map_idI) (auto simp: image_iff)
    then have "on_monitor tid g t = t" by (simp add: on_monitor_def Some)
    moreover have "change_monitor f doc tid p = Inr doc"
      using JNull by (simp add: change_monitor_def hook_monitor_def Some)
    ultimately show thesis using that assms(1) by metis
  next
    case (JObj d)
    then obtain m where k: "k \<noteq> []" "wf_json (JObj d)" and m: "m \<in> set (rt_children t)"
      "target_id m = Some k" "target_monitor lib d (Some k) p = Inr m" using v by auto
    with assms(2) obtain d' where d': "f d = Inr d'" "wf_json (JObj d')"
      "target_monitor lib d' (Some k) p = Inr (g m)" unfolding refines_def by blast
    let ?cs = "dset k (JObj d') (snd doc)"
    let ?ms = "map (\<lambda>x. if target_id x = Some k then g m else x) (rt_children t)"
    have kin: "k \<in> fst ` set (snd doc)"
      using JObj by (auto simp: dget_def split: option.splits dest: map_of_SomeD intro: rev_image_eqI)
    have wf: "wf_json (JObj (snd doc))" using assms(1) by (simp add: views_def)
    have em: "emap (target_child lib p) ?cs = Inr ?ms"
      using d'(3) k(1) kin wf
      by (intro emap_child_update [OF views_children [OF assms(1)]]) (simp_all add: target_child_def)
    have "?ms = map (\<lambda>x. if target_id x = Some k then g x else x) (rt_children t)"
      using views_ids_ok [OF assms(1)] m(1,2) by (auto simp: ids_ok_def distinct_map inj_on_def)
    then have "on_monitor tid g t = t\<lparr>rt_children := ?ms\<rparr>" by (simp add: on_monitor_def Some)
    moreover have "change_monitor f doc tid p = Inr (fst doc, ?cs)"
      using JObj d'(1) by (simp add: change_monitor_def hook_monitor_def save_monitor_def Some)
    moreover have "views lib env home p (fst doc, ?cs) (t\<lparr>rt_children := ?ms\<rparr>)"
      by (rule views_set_children [OF assms(1) em]) (rule wf_json_dset [OF wf d'(2)])
    moreover have "map fst ?cs = map fst (snd doc)" using kin by (simp add: update_keys)
    ultimately show thesis using that by simp
  qed (use v in auto)
qed

lemma change_monitors_views:
  assumes "views lib env home p doc t" and "refines lib p f g"
  shows "\<exists>doc'. change_monitors f doc tids p = Inr doc' \<and>
    views lib env home p doc' (fold (\<lambda>tid. on_monitor tid g) tids t) \<and>
    (\<forall>k. k \<noteq> ''parent'' \<longrightarrow> dget (fst doc') k = dget (fst doc) k)"
  using assms(1)
proof (induction tids arbitrary: doc t)
  case Nil
  then show ?case by simp
next
  case (Cons tid tids)
  obtain doc1 where d1: "change_monitor f doc tid p = Inr doc1"
    "views lib env home p doc1 (on_monitor tid g t)"
    "\<And>k. k \<noteq> ''parent'' \<Longrightarrow> dget (fst doc1) k = dget (fst doc) k"
    using change_monitor_views [OF Cons.prems assms(2)] by metis
  from Cons.IH [OF d1(2)] d1(1,3) show ?case by auto
qed

lemma fold_named:
  assumes "\<And>m. target_id (g m) = target_id m" and "distinct ids"
  shows "fold (\<lambda>i. map (\<lambda>m. if target_id m = i then g m else m)) ids ms =
    map (\<lambda>m. if target_id m \<in> set ids then g m else m) ms"
  using assms(2) by (induction ids arbitrary: ms) (auto simp: assms(1))

lemma fold_on_children:
  "None \<notin> set ids \<Longrightarrow> fold (\<lambda>tid. on_monitor tid g) ids t =
     t\<lparr>rt_children := fold (\<lambda>i. map (\<lambda>m. if target_id m = i then g m else m)) ids (rt_children t)\<rparr>"
proof (induction ids arbitrary: t)
  case (Cons i ids)
  then show ?case by (cases i) (auto simp: on_monitor_def)
qed simp

lemma fold_on_all:
  assumes "ids_ok t" and "\<And>m. target_id (g m) = target_id m"
  shows "fold (\<lambda>tid. on_monitor tid g) (None # map target_id (rt_children t)) t = on_all g t"
proof -
  have "None \<notin> set (map target_id (rt_children t))" "distinct (map target_id (rt_children t))"
    using assms(1) by (auto simp: ids_ok_def image_iff)
  then have "fold (\<lambda>tid. on_monitor tid g) (map target_id (rt_children t)) s =
      s\<lparr>rt_children := map (\<lambda>m. if target_id m \<in> set (map target_id (rt_children t)) then g m else m)
        (rt_children s)\<rparr>" for s
    using fold_named [OF assms(2)] by (simp add: fold_on_children)
  then show ?thesis by (simp add: on_monitor_def on_all_def)
qed

lemma change_all_views:
  assumes "views lib env home p doc t" and "refines lib p f g"
  shows "\<exists>doc'. change_monitors f doc (all_ids (snd doc)) p = Inr doc' \<and>
    views lib env home p doc' (on_all g t) \<and>
    (\<forall>k. k \<noteq> ''parent'' \<longrightarrow> dget (fst doc') k = dget (fst doc) k)"
  using change_monitors_views [OF assms, of "all_ids (snd doc)"]
    fold_on_all [OF views_ids_ok [OF assms(1)], of g] assms(2)
  by (simp add: views_ids [OF assms(1)] refines_def)

lemma open_tools_value:
  "get_integer d ''open_tool_count'' p 0 = Inr n \<Longrightarrow> dget d ''open_tool_count'' = JInt n \<and> 0 \<le> n"
  by (auto simp: get_integer_def split: json.splits if_splits)

lemma refines_changes:
  "refines lib p set_terminal ends"
  "refines lib p set_approval_wait (\<lambda>m. m\<lparr>mt_waiting_for_approval := True\<rparr>)"
  "refines lib p unset_waits stops_waiting"
  "refines lib p (count_tool p) tool_begins"
  "refines lib p (uncount_tool now p) tool_ends"
proof -
  show "refines lib p set_terminal ends"
    by (auto simp: refines_def set_terminal_def ends_def target_monitor_iff simp del: wf_json.simps
        intro: wf_dset_atom)
  show "refines lib p set_approval_wait (\<lambda>m. m\<lparr>mt_waiting_for_approval := True\<rparr>)"
    by (auto simp: refines_def set_approval_wait_def target_monitor_iff simp del: wf_json.simps
        intro: wf_dset_atom)
  show "refines lib p unset_waits stops_waiting"
    by (auto simp: refines_def unset_waits_def stops_waiting_def target_monitor_iff
        simp del: wf_json.simps intro!: wf_dset_atom)
  show "refines lib p (count_tool p) tool_begins"
    by (auto simp: refines_def count_tool_def tool_begins_def target_monitor_iff
        advance_monitor_progress_epoch_def simp del: wf_json.simps intro!: wf_dset_atom
        dest!: open_tools_value get_optional_integer_Inr)
  show "refines lib p (uncount_tool now p) tool_ends"
    by (auto simp: refines_def uncount_tool_def tool_ends_def target_monitor_iff
        advance_monitor_progress_epoch_def simp del: wf_json.simps intro!: wf_dset_atom
        dest!: open_tools_value get_optional_integer_Inr)
qed

lemma hook_monitor_views:
  assumes "views lib env home p doc t"
  obtains (absent) "hook_monitor doc tid p = Inr None" "tid \<notin> set (map target_id (targets t))"
  | (present) d m where "hook_monitor doc tid p = Inr (Some d)" "m \<in> set (targets t)"
      "target_id m = tid" "target_monitor lib d tid p = Inr m"
proof (cases tid)
  case None
  show thesis
  proof (cases "rt_parent t")
    case no: None
    then have "dget (fst doc) ''parent'' = JNull"
      using views_parent [OF assms] by (auto simp: target_parent_def err_simps split: json.splits)
    moreover have "tid \<notin> set (map target_id (targets t))"
      using no None views_ids_ok [OF assms] by (auto simp: targets_def ids_ok_def image_iff)
    ultimately show thesis using absent None by (simp add: hook_monitor_def)
  next
    case (Some m)
    then obtain d where "dget (fst doc) ''parent'' = JObj d" "target_monitor lib d None p = Inr m"
      using views_parent [OF assms] by (auto simp: target_parent_def err_simps split: json.splits)
    then show thesis
      using present [of d m] None Some target_monitor_id by (auto simp: hook_monitor_def targets_def)
  qed
next
  case (Some k)
  note v = child_value [OF assms, of k]
  show thesis
  proof (cases "dget (snd doc) k")
    case JNull
    then have "tid \<notin> set (map target_id (targets t))"
      using v Some views_ids_ok [OF assms]
      by (auto simp: targets_def ids_ok_def split: option.splits)
    then show thesis using absent JNull Some by (simp add: hook_monitor_def)
  next
    case (JObj d)
    then obtain m where "m \<in> set (rt_children t)" "target_id m = Some k"
      "target_monitor lib d (Some k) p = Inr m" using v by auto
    moreover have "set (rt_children t) \<subseteq> set (targets t)"
      by (auto simp: targets_def split: option.splits)
    ultimately show thesis
      using present [of d m] JObj Some by (auto simp: hook_monitor_def)
  qed (use v in auto)
qed

lemma any_running_views:
  assumes "views lib env home p doc t"
  shows "any_running doc tids p =
    Inr (\<exists>m \<in> set (targets t). target_id m \<in> set tids \<and> \<not> mt_terminal m)"
proof (induction tids)
  case Nil
  then show ?case by simp
next
  case (Cons tid tids)
  show ?case
  proof (rule hook_monitor_views [OF assms, of tid])
    assume "hook_monitor doc tid p = Inr None" "tid \<notin> set (map target_id (targets t))"
    then show ?thesis using Cons.IH by (auto simp: image_iff)
  next
    fix d m
    assume a: "hook_monitor doc tid p = Inr (Some d)" "m \<in> set (targets t)"
      "target_id m = tid" "target_monitor lib d tid p = Inr m"
    have uniq: "x = m" if "x \<in> set (targets t)" "target_id x = tid" for x
      using targets_distinct [OF views_ids_ok [OF assms]] a(2,3) that
      by (auto simp: distinct_map inj_on_def)
    have here: "(\<exists>x \<in> set (targets t). target_id x = tid \<and> \<not> mt_terminal x) \<longleftrightarrow> \<not> mt_terminal m"
      using uniq a(2,3) by metis
    have "(dget d ''status'' \<noteq> JStr ''terminal'') \<longleftrightarrow> \<not> mt_terminal m"
      using target_monitor_status [OF a(4)] by simp
    then show ?thesis
      using Cons.IH here by (cases "mt_terminal m") (auto simp: a(1))
  qed
qed

lemma new_monitor_view:
  "fromiso lib now = Some u \<Longrightarrow> 1 \<le> g \<Longrightarrow>
   target_monitor lib (new_monitor fresh now g) tid p = Inr (fresh_monitor tid u g) \<and>
   wf_json (JObj (new_monitor fresh now g))"
  by (simp add: new_monitor_def target_monitor_iff get_string_def get_integer_def get_boolean_def
      get_optional_integer_def get_optional_datetime_def fresh_monitor_def ddistinct_def)

lemma monitor_generation:
  "target_monitor lib d tid p = Inr m \<Longrightarrow>
   dget d ''generation'' = JInt (generation m) \<and> 1 \<le> generation m"
  by (auto simp: target_monitor_iff get_integer_def split: json.splits if_splits)

lemma parent_turn_views:
  "views lib env home p doc t \<Longrightarrow>
   dget (fst doc) ''parent_turn_id'' = (case parent_turn_id t of None \<Rightarrow> JNull | Some x \<Rightarrow> JStr x)"
proof -
  assume "views lib env home p doc t"
  then have "parse_parent_turn (fst doc) p = Inr (parent_turn_id t)"
    by (simp add: views_def runtime_target_iff)
  then show ?thesis
    by (cases "dget (fst doc) ''parent_turn_id''"; cases "parent_turn_id t")
      (simp_all add: parse_parent_turn_def)
qed

lemma start_parent_views:
  assumes "views lib env home p doc t" and "fromiso lib now = Some u"
  shows "\<exists>doc'. start_parent fresh now doc turn p = Inr doc' \<and>
    views lib env home p doc' (t\<lparr>rt_parent :=
      (if parent_turn_id t \<noteq> Some turn \<or> rt_parent t = None
       then Some (fresh_monitor None u (case rt_parent t of None \<Rightarrow> 1 | Some m \<Rightarrow> generation m + 1))
       else rt_parent t), parent_turn_id := Some turn, rt_parent_complete := False\<rparr>) \<and>
    snd doc' = snd doc"
proof -
  obtain previous where pm: "hook_monitor doc None p = Inr previous"
    and g: "next_parent_generation previous =
      (case rt_parent t of None \<Rightarrow> 1 | Some m \<Rightarrow> generation m + 1)"
    and gen: "1 \<le> next_parent_generation previous"
    and none: "previous = None \<longleftrightarrow> rt_parent t = None"
  proof (rule hook_monitor_views [OF assms(1), of None])
    assume "hook_monitor doc None p = Inr None" "None \<notin> set (map target_id (targets t))"
    moreover have "rt_parent t = None"
      using calculation(2) views_ids_ok [OF assms(1)]
      by (cases "rt_parent t") (auto simp: targets_def ids_ok_def)
    ultimately show thesis using that [of None] by (simp add: next_parent_generation_def)
  next
    fix d m
    assume a: "hook_monitor doc None p = Inr (Some d)" "m \<in> set (targets t)"
      "target_id m = None" "target_monitor lib d None p = Inr m"
    have "rt_parent t = Some m"
      using a(2,3) views_ids_ok [OF assms(1)]
      by (cases "rt_parent t") (auto simp: targets_def ids_ok_def)
    then show thesis
      using that [of "Some d"] a(1) monitor_generation [OF a(4)]
      by (simp add: next_parent_generation_def)
  qed
  have turn: "dget (fst doc) ''parent_turn_id'' \<noteq> JStr turn \<longleftrightarrow> parent_turn_id t \<noteq> Some turn"
    using parent_turn_views [OF assms(1)] by (auto split: option.splits)
  let ?new = "new_monitor fresh now (next_parent_generation previous)"
  have new: "views lib env home p (dset ''parent'' (JObj ?new) (fst doc), snd doc)
      (t\<lparr>rt_parent := Some (fresh_monitor None u (next_parent_generation previous))\<rparr>)"
    using views_update_parent [OF assms(1)] new_monitor_view [OF assms(2) gen] by blast
  have old: "views lib env home p (fst doc, snd doc) t" using assms(1) by simp
  show ?thesis
    using views_set_complete [OF views_set_turn [OF new, of turn], of False]
      views_set_complete [OF views_set_turn [OF old, of turn], of False]
    by (auto simp: start_parent_def pm turn none g Let_def)
qed

lemma child_named_iff:
  "child_named k t = None \<longleftrightarrow> Some k \<notin> set (map target_id (rt_children t))"
  "child_named k t = Some m \<Longrightarrow> m \<in> set (rt_children t) \<and> target_id m = Some k"
  by (auto simp: child_named_def find_None_iff find_Some_iff image_iff)

lemma emap_child_insert:
  "emap (target_child lib p) cs = Inr ms \<Longrightarrow> k \<notin> fst ` set cs \<Longrightarrow>
   target_child lib p (k, v) = Inr m \<Longrightarrow> emap (target_child lib p) (dset k v cs) = Inr (ms @ [m])"
  by (induction cs arbitrary: ms) (auto simp: err_simps)

lemma put_child_views:
  assumes "views lib env home p doc t" and "target_monitor lib d (Some k) p = Inr m"
    and "wf_json (JObj d)" and "k \<noteq> []"
  shows "views lib env home p (save_monitor doc (Some k) d) (put_child k m t)"
proof -
  let ?cs = "dset k (JObj d) (snd doc)"
  note kids = views_children [OF assms(1)]
  have wf: "wf_json (JObj (snd doc))" using assms(1) by (simp add: views_def)
  have keys: "Some k \<in> set (map target_id (rt_children t)) \<longleftrightarrow> k \<in> fst ` set (snd doc)"
    using target_child_ids [OF kids] by force
  have tc: "target_child lib p (k, JObj d) = Inr m" using assms(2,4) by (simp add: target_child_def)
  have "emap (target_child lib p) ?cs = Inr (rt_children (put_child k m t))"
  proof (cases "k \<in> fst ` set (snd doc)")
    case True
    then show ?thesis
      using emap_child_update [OF kids _ True tc] wf keys child_named_iff(1) [of k t]
      by (simp add: put_child_def on_monitor_def)
  next
    case False
    then show ?thesis
      using emap_child_insert [OF kids False tc] keys child_named_iff(1) [of k t]
      by (simp add: put_child_def)
  qed
  moreover have "put_child k m t = t\<lparr>rt_children := rt_children (put_child k m t)\<rparr>"
    by (simp add: put_child_def on_monitor_def)
  ultimately show ?thesis
    using views_set_children [OF assms(1)] wf_json_dset [OF wf assms(3)]
    by (simp add: save_monitor_def del: wf_json.simps) metis
qed

lemma start_child_views:
  assumes "views lib env home p doc t" and "fromiso lib now = Some u" and "child \<noteq> Some []"
  shows "\<exists>doc'. start_child fresh now doc child p =
      Inr (child \<noteq> None \<and> list_all mt_terminal (targets t), doc') \<and>
    views lib env home p doc' (case child of None \<Rightarrow> t | Some k \<Rightarrow> child_effect k u t)"
proof (cases child)
  case None
  then show ?thesis using assms(1) by (simp add: start_child_def)
next
  case (Some k)
  let ?g = "case child_named k t of None \<Rightarrow> 1
    | Some m \<Rightarrow> if mt_terminal m then generation m + 1 else generation m"
  have had: "any_running doc (all_ids (snd doc)) p = Inr (\<not> list_all mt_terminal (targets t))"
    using any_running_views [OF assms(1), of "all_ids (snd doc)"] views_ids [OF assms(1)]
      views_ids_ok [OF assms(1)]
    by (auto simp: list_all_iff targets_def ids_ok_def split: option.splits)
  obtain previous where pm: "hook_monitor doc (Some k) p = Inr previous"
    and g: "next_generation previous = ?g" "1 \<le> ?g"
  proof (rule hook_monitor_views [OF assms(1), of "Some k"])
    assume "hook_monitor doc (Some k) p = Inr None" "Some k \<notin> set (map target_id (targets t))"
    moreover have "child_named k t = None"
      using calculation(2) child_named_iff(1) [of k t] by (auto simp: targets_def split: option.splits)
    ultimately show thesis using that [of None] by (simp add: next_generation_def)
  next
    fix d m
    assume a: "hook_monitor doc (Some k) p = Inr (Some d)" "m \<in> set (targets t)"
      "target_id m = Some k" "target_monitor lib d (Some k) p = Inr m"
    have "m \<in> set (rt_children t)"
      using a(2,3) views_ids_ok [OF assms(1)] by (auto simp: targets_def ids_ok_def split: option.splits)
    then obtain m' where m': "child_named k t = Some m'"
      using child_named_iff(1) [of k t] a(3) by (cases "child_named k t") force+
    then have "m' = m"
      using child_named_iff(2) [OF m'] views_ids_ok [OF assms(1)] \<open>m \<in> set (rt_children t)\<close> a(3)
      by (auto simp: ids_ok_def distinct_map inj_on_def)
    then show thesis
      using that [of "Some d"] a(1) m' monitor_generation [OF a(4)] target_monitor_status [OF a(4)]
      by (auto simp: next_generation_def Let_def split: if_splits)
  qed
  let ?d = "new_monitor fresh now ?g" and ?m = "fresh_monitor (Some k) u ?g"
  have "views lib env home p (save_monitor doc (Some k) ?d) (put_child k ?m t)"
    using put_child_views [OF assms(1), of ?d k ?m] new_monitor_view [OF assms(2) g(2)] assms(3) Some
    by (simp del: wf_json.simps)
  then have "views lib env home p (dset ''parent_complete'' (JBool False) (fst doc),
      snd (save_monitor doc (Some k) ?d)) ((put_child k ?m t)\<lparr>rt_parent_complete := False\<rparr>)"
    using views_set_complete [of lib env home p "fst doc"] by (simp add: save_monitor_def)
  moreover have "(put_child k ?m t)\<lparr>rt_parent_complete := False\<rparr> = child_effect k u t"
    by (simp add: child_effect_def put_child_def child_named_def on_monitor_def Let_def)
  ultimately show ?thesis
    using Some by (simp add: start_child_def had pm g(1) save_monitor_def)
qed

definition flag :: "dict \<Rightarrow> string \<Rightarrow> bool" where
  "flag values key \<longleftrightarrow> dget values key = JBool True"

lemma stop_parent_views:
  assumes "views lib env home p doc t"
  shows "\<exists>launch doc'. stop_parent doc p = Inr (launch, doc') \<and>
    views lib env home p doc'
      (if flag (fst doc) ''managed_mode'' then (on_all ends t)\<lparr>rt_parent_complete := False\<rparr>
       else if flag (fst doc) ''observe_only'' then (on_monitor None ends t)\<lparr>rt_parent_complete := True\<rparr>
       else t)"
proof (cases "flag (fst doc) ''managed_mode''")
  case True
  obtain v cs where "change_monitors set_terminal doc (all_ids (snd doc)) p = Inr (v, cs)"
    "views lib env home p (v, cs) (on_all ends t)"
    using change_all_views [OF assms refines_changes(1)] by (metis prod.collapse)
  then show ?thesis
    using True views_set_complete [OF views_set_other]
    by (fastforce simp: stop_parent_def flag_def Let_def)
next
  case managed: False
  show ?thesis
  proof (cases "flag (fst doc) ''observe_only''")
    case True
    obtain v cs where "mark_monitor_terminal doc None p = Inr (v, cs)"
      "views lib env home p (v, cs) (on_monitor None ends t)"
      using change_monitor_views [OF assms refines_changes(1)]
      unfolding mark_monitor_terminal_def by (metis prod.collapse)
    then show ?thesis
      using True managed views_set_complete [of lib env home p v cs]
      by (fastforce simp: stop_parent_def flag_def)
  next
    case False
    then show ?thesis using managed assms by (auto simp: stop_parent_def flag_def)
  qed
qed

lemma no_launch_views:
  assumes "views lib env home p doc t" and "refines lib p f g"
  shows "\<exists>doc'. no_launch (change_monitor f doc tid p) = Inr (False, doc') \<and>
    views lib env home p doc' (on_monitor tid g t)"
  using change_monitor_views [OF assms] unfolding no_launch_def by (metis ebind_Inr)

lemma apply_event_views:
  assumes "views lib env home p doc t" and "fromiso lib now = Some u"
    and "hp_agent_id payload \<noteq> Some []"
  shows "\<exists>launch doc'. apply_event fresh now doc payload p = Inr (launch, doc') \<and>
    views lib env home p doc'
      (hook_effect (flag (fst doc) ''managed_mode'') (flag (fst doc) ''observe_only'') payload u t)"
proof (cases "hp_event payload")
  case USER_PROMPT_SUBMIT
  show ?thesis
  proof (cases "hp_turn_id payload")
    case None
    then show ?thesis using USER_PROMPT_SUBMIT assms(1) by (auto simp: apply_event_def hook_effect_def)
  next
    case (Some turn)
    obtain previous where pm: "hook_monitor doc None p = Inr previous"
      by (rule hook_monitor_views [OF assms(1), of None]) auto
    obtain doc1 where d1: "start_parent fresh now doc turn p = Inr doc1"
      and v1: "views lib env home p doc1 (t\<lparr>rt_parent :=
        (if parent_turn_id t \<noteq> Some turn \<or> rt_parent t = None
         then Some (fresh_monitor None u (case rt_parent t of None \<Rightarrow> 1 | Some m \<Rightarrow> generation m + 1))
         else rt_parent t), parent_turn_id := Some turn, rt_parent_complete := False\<rparr>)"
      using start_parent_views [OF assms(1,2)] by blast
    obtain doc2 where "clear_waits doc1 p = Inr doc2" "views lib env home p doc2 (prompt_effect turn u t)"
      using change_all_views [OF v1 refines_changes(3)]
      unfolding clear_waits_def prompt_effect_def Let_def by blast
    then show ?thesis
      using USER_PROMPT_SUBMIT Some pm d1 by (simp add: apply_event_def hook_effect_def)
  qed
next
  case SUBAGENT_START
  then show ?thesis
    using start_child_views [OF assms, of fresh]
    by (auto simp: apply_event_def hook_effect_def)
next
  case STOP_EVENT
  then show ?thesis
    using stop_parent_views [OF assms(1)] by (simp add: apply_event_def hook_effect_def)
next
  case SESSION_START
  then show ?thesis using assms(1) by (auto simp: apply_event_def hook_effect_def)
next
  case SUBAGENT_STOP
  then show ?thesis
    using no_launch_views [OF assms(1) refines_changes(1), of "hp_agent_id payload"]
    by (simp add: apply_event_def hook_effect_def mark_monitor_terminal_def) blast
next
  case PRE_TOOL_USE
  then show ?thesis
    using no_launch_views [OF assms(1) refines_changes(4), of "hp_agent_id payload"]
    by (simp add: apply_event_def hook_effect_def hook_tool_started_def) blast
next
  case POST_TOOL_USE
  then show ?thesis
    using no_launch_views [OF assms(1) refines_changes(5), of now "hp_agent_id payload"]
    by (simp add: apply_event_def hook_effect_def hook_tool_finished_def) blast
next
  case PERMISSION_REQUEST
  then show ?thesis
    using no_launch_views [OF assms(1) refines_changes(2), of "hp_agent_id payload"]
    by (simp add: apply_event_def hook_effect_def mark_approval_wait_def) blast
qed

lemma hook_effect_activity: "turn_activity (hook_effect a b payload u t) = turn_activity t"
  by (auto simp: hook_effect_def prompt_effect_def child_effect_def put_child_def on_all_def
      on_monitor_def Let_def split: hook_event.splits option.splits)

lemma views_start:
  assumes "runtime_target_from_values lib env home p values = Inr t" and "wf_json (JObj values)"
  obtains cs where "hook_children values p = Inr cs" "views lib env home p (values, cs) t"
proof -
  obtain cs where cs: "dget values ''children'' = JObj cs"
    using assms(1) by (auto simp: runtime_target_iff target_children_def split: json.splits)
  have "views lib env home p (values, cs) t"
    using assms cs wf_json_dget_obj [OF assms(2) cs]
    by (auto simp: views_def runtime_target_iff target_children_def simp del: wf_json.simps)
  then show thesis using that cs by (simp add: hook_children_def)
qed

lemma apply_hook_event_views:
  assumes "runtime_target_from_values lib env home p vals = Inr t" and "wf_json (JObj vals)"
    and "fromiso lib now = Some u" and "hp_agent_id payload \<noteq> Some []"
  shows "\<exists>launch vals' n. apply_hook_event fresh now vals payload p = Inr (launch, vals') \<and>
    runtime_target_from_values lib env home p vals' =
      Inr ((hook_effect (flag vals ''managed_mode'') (flag vals ''observe_only'') payload u t)
        \<lparr>turn_activity := n\<rparr>) \<and>
    wf_json (JObj vals') \<and> n \<in> {turn_activity t, turn_activity t + 1}"
proof -
  let ?t = "hook_effect (flag vals ''managed_mode'') (flag vals ''observe_only'') payload u t"
  obtain cs where cs: "hook_children vals p = Inr cs" "views lib env home p (vals, cs) t"
    using views_start [OF assms(1,2)] by blast
  obtain launch v cs' where e: "apply_event fresh now (vals, cs) payload p = Inr (launch, (v, cs'))"
    and r: "views lib env home p (v, cs') ?t"
    using apply_event_views [OF cs(2) assms(3,4), of fresh] by auto
  from r have ta: "get_optional_integer v ''turn_activity_epoch'' p 0 = Inr (turn_activity t)"
    by (simp add: views_def runtime_target_iff hook_effect_activity)
  from r have wf: "wf_json (JObj v)" "wf_json (JObj cs')"
    and parse: "runtime_target_from_values lib env home p (dset ''children'' (JObj cs') v) = Inr ?t"
    by (simp_all add: views_def)
  let ?v = "dset ''turn_activity_epoch'' (JInt (turn_activity t + 1)) v"
  let ?same = "py_eq (JList (observed_fields (v, cs'))) (JList (observed_fields (vals, cs)))"
  let ?n = "if ?same then turn_activity t else turn_activity t + 1"
  let ?w = "dset ''children'' (JObj cs') (if ?same then v else ?v)"
  have "apply_hook_event fresh now vals payload p = Inr (launch, ?w)"
    using cs(1) e ta by (simp add: apply_hook_event_def advance_turn_activity_epoch_def
        turn_activity_epoch_def del: py_eq.simps)
  moreover have "runtime_target_from_values lib env home p ?w = Inr (?t\<lparr>turn_activity := ?n\<rparr>)"
  proof (cases ?same)
    case True
    then show ?thesis
      using parse by (simp add: runtime_target_iff hook_effect_activity del: py_eq.simps)
  next
    case False
    moreover have "0 \<le> turn_activity t" using ta by (rule get_optional_integer_Inr)
    ultimately show ?thesis
      using parse by (simp add: runtime_target_iff target_children_def del: py_eq.simps)
  qed
  moreover have "wf_json (JObj (if ?same then v else ?v))"
    using wf(1) wf_dset_atom(2) [OF wf(1)] by (simp del: wf_json.simps py_eq.simps)
  from wf_json_dset [OF this wf(2)] have "wf_json (JObj ?w)" .
  ultimately show ?thesis
    by (intro exI [of _ launch] exI [of _ ?w] exI [of _ ?n]) (simp del: wf_json.simps py_eq.simps)
qed

section \<open>Properties\<close>

text \<open>
  C30: every hook event keeps the session readable and has exactly its typed effect: on a document
  the watcher can read, applying any event with any payload succeeds and leaves a document that reads
  as the abstract effect of the event (new turn, new or restarted child, ended target, tool counted,
  approval wait, stop), with the activity epoch unchanged or advanced by one.
\<close>

theorem hook_event_refines:
  assumes "runtime_target_from_values lib env home p vals = Inr t" and "wf_json (JObj vals)"
    and "fromiso lib now = Some u" and "hp_agent_id payload \<noteq> Some []"
  shows "\<exists>launch vals' n. apply_hook_event fresh now vals payload p = Inr (launch, vals') \<and>
    runtime_target_from_values lib env home p vals' =
      Inr ((hook_effect (flag vals ''managed_mode'') (flag vals ''observe_only'') payload u t)
        \<lparr>turn_activity := n\<rparr>) \<and>
    wf_json (JObj vals') \<and> n \<in> {turn_activity t, turn_activity t + 1}"
  using apply_hook_event_views [OF assms] .

theorem hook_event_refines_witness:
  "\<exists>launch vals' n. apply_hook_event ''f'' ''1234'' ex_values
     \<lparr>hp_session_id = ''s'', hp_event = PRE_TOOL_USE, hp_turn_id = None, hp_transcript_path = None,
      hp_agent_id = Some ''c'', hp_permission_mode = None\<rparr> [''h'', ''p'', ''runtime'', ''s.json''] =
     Inr (launch, vals') \<and>
   runtime_target_from_values ex_lib ex_env [''h'', ''p''] [''h'', ''p'', ''runtime'', ''s.json'']
     vals' = Inr (ex_target\<lparr>turn_activity := n,
       rt_children := [tool_begins (ex_target_monitor (Some ''c''))]\<rparr>)"
  using hook_event_refines [OF ex_parse ex_wf, of "''1234''" 4
      "\<lparr>hp_session_id = ''s'', hp_event = PRE_TOOL_USE, hp_turn_id = None, hp_transcript_path = None,
        hp_agent_id = Some ''c'', hp_permission_mode = None\<rparr>" "''f''"]
  by (simp add: hook_effect_def on_monitor_def ex_target_def ex_target_monitor_def)
    (auto simp: ex_lib_def)

text \<open>
  A new turn starts a new monitor generation: a prompt with a different turn identity replaces
  the parent by a running monitor of the next generation, anchored at the hook's clock with no open
  tools and epoch zero, locks the new turn, reopens the session, and clears every wait, so that a
  detector of the old turn (keyed by generation) can never be mistaken for the new one.
\<close>

theorem new_turn_new_generation:
  assumes "runtime_target_from_values lib env home p vals = Inr t" and "wf_json (JObj vals)"
    and "fromiso lib now = Some u" and "hp_event payload = USER_PROMPT_SUBMIT"
    and "hp_agent_id payload = None" and "hp_turn_id payload = Some turn"
    and "parent_turn_id t \<noteq> Some turn" and "rt_parent t = Some m"
  shows "\<exists>launch vals' t'. apply_hook_event fresh now vals payload p = Inr (launch, vals') \<and>
    runtime_target_from_values lib env home p vals' = Inr t' \<and>
    rt_parent t' = Some (fresh_monitor None u (generation m + 1)) \<and>
    parent_turn_id t' = Some turn \<and> \<not> rt_parent_complete t' \<and>
    rt_children t' = map stops_waiting (rt_children t)"
  using apply_hook_event_views [OF assms(1-3), of payload fresh] assms(4-8)
  by (auto simp: hook_effect_def prompt_effect_def on_all_def stops_waiting_def fresh_monitor_def)

theorem new_turn_new_generation_witness:
  "\<exists>launch vals' t'. apply_hook_event ''f'' ''1234'' ex_values
     \<lparr>hp_session_id = ''s'', hp_event = USER_PROMPT_SUBMIT, hp_turn_id = Some ''v'',
      hp_transcript_path = None, hp_agent_id = None, hp_permission_mode = None\<rparr>
     [''h'', ''p'', ''runtime'', ''s.json''] = Inr (launch, vals') \<and>
   runtime_target_from_values ex_lib ex_env [''h'', ''p''] [''h'', ''p'', ''runtime'', ''s.json'']
     vals' = Inr t' \<and> rt_parent t' = Some (fresh_monitor None 4 2)"
  using new_turn_new_generation [OF ex_parse ex_wf, of "''1234''" 4
      "\<lparr>hp_session_id = ''s'', hp_event = USER_PROMPT_SUBMIT, hp_turn_id = Some ''v'',
        hp_transcript_path = None, hp_agent_id = None, hp_permission_mode = None\<rparr>" "''v''"
      "ex_target_monitor None" "''f''"]
  by (auto simp: ex_target_def ex_target_monitor_def ex_lib_def)

end
