(* ===== verification/HookEvent.thy ===== *)
theory HookEvent
  imports HookState
begin

text \<open>
  \<open>scripts/hook_event.py\<close>: the hook entry point. An event of an opted-in session is applied under
  the document lock, bumps the revision, may launch a watcher and may answer a stop with a
  continuation. Resolving a local path (\<open>Path.resolve\<close>), the clock and \<open>uuid4\<close> are parameters;
  launching is the flag \<open>ho_launched\<close> of the outcome. The private-root preparation is not modelled.
\<close>

record hook_env =
  he_lib :: pylib
  he_fs :: fs_env
  he_home :: path
  he_codex_home :: path
  he_resolve :: "string \<Rightarrow> path option"
  he_now :: string
  he_fresh :: string

fun join_posix :: "path \<Rightarrow> string" where
  "join_posix [] = ''.''"
| "join_posix [c] = c"
| "join_posix (c # cs) = c @ ''/'' @ join_posix cs"

definition safe_transcript_path :: "hook_env \<Rightarrow> string option \<Rightarrow> string option" where
  "safe_transcript_path E raw =
     (case raw of
        None \<Rightarrow> None
      | Some r \<Rightarrow>
          (case he_resolve E r of
             None \<Rightarrow> None
           | Some q \<Rightarrow> if prefix (he_codex_home E) q
                       then Some (join_posix (drop (length (he_codex_home E)) q)) else None))"

definition transcript_ok :: "hook_env \<Rightarrow> hook_payload \<Rightarrow> dict \<Rightarrow> bool" where
  "transcript_ok E payload values \<longleftrightarrow>
     hp_transcript_path payload = None \<or>
     dget values ''transcript_path'' =
       (case safe_transcript_path E (hp_transcript_path payload) of None \<Rightarrow> JNull | Some x \<Rightarrow> JStr x)"

text \<open>The closure \<open>update\<close>; its result is \<open>None\<close> or the two flags.\<close>

definition hook_update ::
  "hook_env \<Rightarrow> hook_payload \<Rightarrow> path \<Rightarrow> dict \<Rightarrow> exn + (bool \<times> bool) option \<times> dict" where
  "hook_update E payload p values =
     (if dget values ''enabled'' \<noteq> JBool True then Inr (None, values)
      else
        ebind (get_optional_integer values ''revision'' p 0) (\<lambda>rev.
        if \<not> transcript_ok E payload values then Inr (None, values)
        else
          ebind (apply_hook_event (he_fresh E) (he_now E) values payload p) (\<lambda>(launch, v).
          let v' = dset ''revision'' (JInt (rev + 1)) v;
              stop = (hp_event payload = STOP_EVENT \<and> dget v' ''observe_only'' \<noteq> JBool True \<and>
                      dget v' ''managed_mode'' \<noteq> JBool True)
          in Inr (Some (launch, stop), v'))))"

definition CONTINUE_REASON :: string where
  "CONTINUE_REASON = ''Continue the same monitored task. If every success criterion is verified, '' @
     ''invoke $work-off as a verified-completion shutdown before the final answer.''"

definition CLEANUP_REASON :: string where
  "CLEANUP_REASON = ''Check whether task-owned runtime work is merely left open, clean it up safely, '' @
     ''and continue the same task. If every success criterion is verified, invoke '' @
     ''$work-off as a verified-completion shutdown before the final answer.''"

definition stop_reason :: "hook_env \<Rightarrow> path \<Rightarrow> store \<Rightarrow> exn + string" where
  "stop_reason E p st =
     ebind (load_state (he_fs E) (he_home E) p st) (\<lambda>values.
     if dget values ''message_preset'' = JStr ''continue'' then Inr CONTINUE_REASON
     else if dget values ''message_preset'' = JStr ''cleanup'' then Inr CLEANUP_REASON
     else Inl (CorruptStateError (config_path (he_home E)) INVALID_VALUE))"

record hook_outcome =
  ho_reply :: "exn + string option"
  ho_launched :: bool
  ho_store :: store

definition outcome :: "exn + string option \<Rightarrow> bool \<Rightarrow> store \<Rightarrow> hook_outcome" where
  "outcome r launched st = \<lparr>ho_reply = r, ho_launched = launched, ho_store = st\<rparr>"

definition process_enabled_event :: "hook_env \<Rightarrow> hook_payload \<Rightarrow> store \<Rightarrow> hook_outcome" where
  "process_enabled_event E payload st =
     (let p = runtime_path (sha (he_lib E)) (he_home E) (hp_session_id payload)
      in if \<not> is_file st (abspath p) then outcome (Inr None) False st
         else case load_state (he_fs E) (he_home E) p st of
           Inl e \<Rightarrow> outcome (Inl e) False st
         | Inr values \<Rightarrow>
             if dget values ''enabled'' \<noteq> JBool True then outcome (Inr None) False st
             else case locked_update (he_fs E) (he_home E) p (hook_update E payload p) st of
               (Inl e, st') \<Rightarrow> outcome (Inl e) False st'
             | (Inr (Some (Some (launch, stop))), st') \<Rightarrow>
                 outcome (if stop then ebind (stop_reason E p st') (\<lambda>r. Inr (Some r)) else Inr None)
                   launch st'
             | (Inr _, st') \<Rightarrow> outcome (Inr None) False st')"

definition process_hook :: "hook_env \<Rightarrow> json \<Rightarrow> store \<Rightarrow> hook_outcome" where
  "process_hook E decoded st =
     (case parse_payload decoded of
        None \<Rightarrow> outcome (Inr None) False st
      | Some payload \<Rightarrow>
          if hp_event payload = SESSION_START then outcome (Inr None) False st
          else process_enabled_event E payload st)"

section \<open>Lemmas\<close>

lemma optional_string_nonempty: "optional_string d k \<noteq> Some []"
  by (simp add: optional_string_def split: json.split list.split)

lemma payload_ids: "parse_payload decoded = Some payload \<Longrightarrow> hp_agent_id payload \<noteq> Some []"
  by (auto simp: parse_payload_def optional_string_nonempty split: json.split_asm option.split_asm)

lemma hook_update_views:
  assumes "runtime_target_from_values (he_lib E) fs (he_home E) p vals = Inr t" and "wf_json (JObj vals)"
    and "dget vals ''enabled'' = JBool True" and "transcript_ok E payload vals"
    and "fromiso (he_lib E) (he_now E) = Some u" and "hp_agent_id payload \<noteq> Some []"
  shows "\<exists>launch stop vals' n. hook_update E payload p vals = Inr (Some (launch, stop), vals') \<and>
    runtime_target_from_values (he_lib E) fs (he_home E) p vals' =
      Inr ((hook_effect (flag vals ''managed_mode'') (flag vals ''observe_only'') payload u t)
        \<lparr>turn_activity := n, revision := revision t + 1\<rparr>) \<and> \<not> dict_eq vals' vals"
proof -
  have rev: "get_optional_integer vals ''revision'' p 0 = Inr (revision t)"
    using assms(1) by (simp add: runtime_target_iff)
  let ?t = "hook_effect (flag vals ''managed_mode'') (flag vals ''observe_only'') payload u t"
  obtain launch v n where a: "apply_hook_event (he_fresh E) (he_now E) vals payload p = Inr (launch, v)"
    and r: "runtime_target_from_values (he_lib E) fs (he_home E) p v = Inr (?t\<lparr>turn_activity := n\<rparr>)"
    using apply_hook_event_views [OF assms(1,2,5,6)] by blast
  let ?v = "dset ''revision'' (JInt (revision t + 1)) v"
  have "runtime_target_from_values (he_lib E) fs (he_home E) p ?v =
      Inr (?t\<lparr>turn_activity := n, revision := revision t + 1\<rparr>)"
    using r get_optional_integer_Inr [OF rev] by (simp add: runtime_target_iff)
  moreover have "\<not> dict_eq ?v vals" by (rule bumped_revision_differs [OF rev])
  ultimately show ?thesis
    using a rev assms(3,4) by (auto simp: hook_update_def Let_def simp del: py_eq.simps)
qed

lemma hook_update_keeps:
  "hook_update E payload p vals = Inr (None, vals') \<Longrightarrow> vals' = vals"
  by (auto simp: hook_update_def err_simps Let_def split: if_splits)

lemma hook_update_refused:
  assumes "wf_json (JObj vals)" and "dget vals ''enabled'' \<noteq> JBool True \<or> \<not> transcript_ok E payload vals"
    and "hook_update E payload p vals = Inr (r, vals')"
  shows "r = None \<and> dict_eq vals' vals"
  using assms py_eq_refl [OF assms(1)]
  by (auto simp: hook_update_def err_simps Let_def simp del: wf_json.simps split: if_splits)

section \<open>Properties\<close>

text \<open>
  A session that did not opt in is never touched: when its document is missing, not enabled, or
  bound to another transcript, any hook payload leaves every stored document as it is and launches
  nothing.
\<close>

theorem hook_leaves_others_alone:
  assumes "parse_payload decoded = Some payload"
    and "p = runtime_path (sha (he_lib E)) (he_home E) (hp_session_id payload)"
    and "\<not> is_file st (abspath p) \<or> (\<exists>vals. load_state (he_fs E) (he_home E) p st = Inr vals \<and>
      wf_json (JObj vals) \<and>
      (dget vals ''enabled'' \<noteq> JBool True \<or> \<not> transcript_ok E payload vals))"
  shows "ho_store (process_hook E decoded st) = st \<and> \<not> ho_launched (process_hook E decoded st)"
proof (cases "hp_event payload = SESSION_START \<or> \<not> is_file st (abspath p)")
  case True
  then show ?thesis
    using assms(1,2) by (auto simp: process_hook_def process_enabled_event_def outcome_def Let_def)
next
  case False
  with assms(3) obtain vals where vals: "load_state (he_fs E) (he_home E) p st = Inr vals"
    "wf_json (JObj vals)" "dget vals ''enabled'' \<noteq> JBool True \<or> \<not> transcript_ok E payload vals"
    by blast
  have "hook_update E payload p vals = Inr (r, vals') \<Longrightarrow> r = None \<and> dict_eq vals' vals" for r vals'
    by (rule hook_update_refused [OF vals(2,3)])
  from refused_mutation [where f = "hook_update E payload p", OF vals(1,2) this] show ?thesis
    using assms(1) False vals(1) unfolding assms(2)
    by (auto simp: process_hook_def process_enabled_event_def outcome_def Let_def
        simp del: py_eq.simps wf_json.simps)
qed

text \<open>
  An event of an opted-in session commits exactly its effect: the session's document, and no
  other, is rewritten once, to values that read as the typed effect of the event with the revision
  increased by one, whatever the other documents hold.
\<close>

theorem hook_event_commits:
  assumes "parse_payload decoded = Some payload" and "hp_event payload \<noteq> SESSION_START"
    and "p = runtime_path (sha (he_lib E)) (he_home E) (hp_session_id payload)"
    and "load_state (he_fs E) (he_home E) p st = Inr vals" and "wf_json (JObj vals)"
    and "is_file st (abspath p)" and "\<not> lock_busy (he_fs E) (abspath p)"
    and "dget vals ''enabled'' = JBool True" and "transcript_ok E payload vals"
    and "runtime_target_from_values (he_lib E) (he_fs E) (he_home E) p vals = Inr t"
    and "fromiso (he_lib E) (he_now E) = Some u"
  shows "\<exists>vals' n. ho_store (process_hook E decoded st) =
      atomic_json_write (abspath p) SCHEMA_VERSION vals' st \<and>
    runtime_target_from_values (he_lib E) (he_fs E) (he_home E) p vals' =
      Inr ((hook_effect (flag vals ''managed_mode'') (flag vals ''observe_only'') payload u t)
        \<lparr>turn_activity := n, revision := revision t + 1\<rparr>)"
proof -
  from hook_update_views [OF assms(10,5,8,9,11) payload_ids [OF assms(1)]]
  obtain launch stop vals' n where up: "hook_update E payload p vals = Inr (Some (launch, stop), vals')"
    and view: "runtime_target_from_values (he_lib E) (he_fs E) (he_home E) p vals' =
      Inr ((hook_effect (flag vals ''managed_mode'') (flag vals ''observe_only'') payload u t)
        \<lparr>turn_activity := n, revision := revision t + 1\<rparr>)"
    and new: "\<not> dict_eq vals' vals" by blast
  from committed_mutation [where f = "hook_update E payload p", OF assms(4,6,7) up new]
  have "ho_store (process_hook E decoded st) = atomic_json_write (abspath p) SCHEMA_VERSION vals' st"
    using assms(1,2,4,6,8) unfolding assms(3)
    by (simp add: process_hook_def process_enabled_event_def outcome_def Let_def)
  with view show ?thesis by blast
qed

definition ex_hook_env :: hook_env where
  "ex_hook_env = \<lparr>he_lib = ex_lib, he_fs = ex_env, he_home = [''h'', ''p''], he_codex_home = [''h''],
     he_resolve = (\<lambda>_. None), he_now = ''1234'', he_fresh = ''f''\<rparr>"

theorem hook_event_commits_witness:
  "\<exists>vals' n. ho_store (process_hook ex_hook_env (JObj [(''session_id'', JStr ''s''),
      (''hook_event_name'', JStr ''PreToolUse''), (''agent_id'', JStr ''c'')]) ex_store) =
      atomic_json_write ex_runtime_file SCHEMA_VERSION vals' ex_store \<and>
    runtime_target_from_values ex_lib ex_env [''h'', ''p''] ex_runtime_file vals' =
      Inr (ex_target\<lparr>rt_children := [tool_begins (ex_target_monitor (Some ''c''))],
        turn_activity := n, revision := revision ex_target + 1\<rparr>)"
proof -
  let ?p = "\<lparr>hp_session_id = ''s'', hp_event = PRE_TOOL_USE, hp_turn_id = None,
    hp_transcript_path = None, hp_agent_id = Some ''c'', hp_permission_mode = None\<rparr>"
  have e: "hook_effect (flag ex_values ''managed_mode'') (flag ex_values ''observe_only'') ?p 4 ex_target =
    ex_target\<lparr>rt_children := [tool_begins (ex_target_monitor (Some ''c''))]\<rparr>"
    by (simp add: hook_effect_def on_monitor_def ex_target_def ex_target_monitor_def)
  have path: "ex_runtime_file = runtime_path (sha ex_lib) [''h'', ''p''] ''s''"
    by (simp add: ex_runtime_file_def runtime_path_def session_filename_def ex_lib_def)
  have clean: "abspath ex_runtime_file = ex_runtime_file"
    by (simp add: ex_runtime_file_def abspath_def)
  have here: "is_file ex_store ex_runtime_file" by (simp add: is_file_def ex_store_def)
  have free: "\<not> lock_busy ex_env ex_runtime_file" by (simp add: ex_env_def)
  have on: "dget ex_values ''enabled'' = JBool True" by (simp add: ex_values_def dget_def)
  have clock: "fromiso ex_lib ''1234'' = Some 4" by (simp add: ex_lib_def)
  have parse: "runtime_target_from_values ex_lib ex_env [''h'', ''p''] ex_runtime_file ex_values =
    Inr ex_target" using ex_parse by (simp add: ex_runtime_file_def)
  have any: "transcript_ok ex_hook_env ?p ex_values" by (simp add: transcript_ok_def)
  have payload: "parse_payload (JObj [(''session_id'', JStr ''s''),
      (''hook_event_name'', JStr ''PreToolUse''), (''agent_id'', JStr ''c'')]) = Some ?p"
    by (simp add: parse_payload_def optional_string_def dget_def hook_event_of_def)
  have lib: "he_lib ex_hook_env = ex_lib" "he_fs ex_hook_env = ex_env"
    "he_home ex_hook_env = [''h'', ''p'']" "he_now ex_hook_env = ''1234''"
    by (simp_all add: ex_hook_env_def)
  from hook_event_commits [OF payload, of ex_runtime_file ex_hook_env ex_store ex_values ex_target 4]
  show ?thesis
    unfolding lib clean using path ex_load ex_wf here free on any parse clock
    by (simp add: e del: wf_json.simps)
qed

theorem hook_leaves_others_alone_witness:
  "ho_store (process_hook ex_hook_env (JObj [(''session_id'', JStr ''s''), (''hook_event_name'', JStr ''Stop'')])
     Map.empty) = Map.empty"
  using hook_leaves_others_alone [of "JObj [(''session_id'', JStr ''s''), (''hook_event_name'', JStr ''Stop'')]"
      "\<lparr>hp_session_id = ''s'', hp_event = STOP_EVENT, hp_turn_id = None, hp_transcript_path = None,
        hp_agent_id = None, hp_permission_mode = None\<rparr>"
      "runtime_path (sha (he_lib ex_hook_env)) (he_home ex_hook_env) ''s''" ex_hook_env Map.empty]
  by (simp add: parse_payload_def optional_string_def dget_def hook_event_of_def is_file_def)

end
