(* ===== verification/CacheSemver.thy ===== *)
theory CacheSemver
  imports Durations StateStore "HOL-Library.Product_Lexorder"
begin

text \<open>
  \<open>scripts/cache_semver.py\<close>: the names and relative paths the plugin cache accepts, and the
  total order on version directories. The reference order of the last section compares numbers as
  numbers; the code compares digit strings by length first, never converting them.
\<close>

section \<open>Names\<close>

definition ascii_upper :: "char \<Rightarrow> char" where
  "ascii_upper c = (if CHR ''a'' \<le> c \<and> c \<le> CHR ''z'' then char_of ((of_char c :: nat) - 32) else c)"

definition unsafe_char :: "char \<Rightarrow> bool" where
  "unsafe_char c \<longleftrightarrow> (of_char c :: nat) < 32 \<or> c \<in> set ''<>:/|?*'' \<or> c \<in> {CHR 0x22, CHR 0x5C}"

definition reserved_device :: "string \<Rightarrow> bool" where
  "reserved_device r \<longleftrightarrow> r \<in> {''CON'', ''PRN'', ''AUX'', ''NUL''} \<or>
     (take 3 r \<in> {''COM'', ''LPT''} \<and> length r = 4 \<and> CHR ''1'' \<le> r ! 3 \<and> r ! 3 \<le> CHR ''9'')"

definition safe_name :: "string \<Rightarrow> bool" where
  "safe_name value \<longleftrightarrow> \<not> (value = '''' \<or> value \<in> {''.'', ''..''} \<or> list_ex unsafe_char value \<or>
       last value \<in> {CHR '' '', CHR ''.''}) \<and>
     \<not> reserved_device (map ascii_upper (hd (split_on (CHR ''.'') value)))"

definition safe_relative :: "string \<Rightarrow> bool" where
  "safe_relative value \<longleftrightarrow> CHR 0x5C \<notin> set value \<and> CHR 0x00 \<notin> set value \<and>
     list_all (\<lambda>part. part \<notin> {'''', ''.'', ''..''} \<and> safe_name part) (split_on (CHR ''/'') value)"

section \<open>Versions\<close>

definition canonical :: "string \<Rightarrow> bool" where
  "canonical s \<longleftrightarrow> s \<noteq> [] \<and> list_all is_digit s \<and> (s = ''0'' \<or> hd s \<noteq> CHR ''0'')"

definition ident_char :: "char \<Rightarrow> bool" where
  "ident_char c \<longleftrightarrow> is_digit c \<or> (CHR ''A'' \<le> c \<and> c \<le> CHR ''Z'') \<or>
     (CHR ''a'' \<le> c \<and> c \<le> CHR ''z'') \<or> c = CHR ''-''"

text \<open>An optional part after a separator character: dot-separated identifiers.\<close>

definition identifiers :: "string \<Rightarrow> string list option" where
  "identifiers s =
     (let parts = split_on (CHR ''.'') s
      in if list_all (\<lambda>p. p \<noteq> [] \<and> list_all ident_char p) parts then Some parts else None)"

definition optional_part :: "string \<Rightarrow> string list option" where
  "optional_part s = (if s = [] then Some [] else identifiers (tl s))"

text \<open>
  \<open>_SEMVER.fullmatch\<close>: no character of the core is a hyphen or a plus sign and no character of
  the pre-release is a plus sign, so the match is unique and the separators split the text.
\<close>

definition semver_match ::
  "string \<Rightarrow> (string \<times> string \<times> string \<times> string list \<times> string list) option" where
  "semver_match value =
     (let front = takeWhile (\<lambda>c. c \<noteq> CHR ''+'') value;
          build = dropWhile (\<lambda>c. c \<noteq> CHR ''+'') value;
          core = takeWhile (\<lambda>c. c \<noteq> CHR ''-'') front;
          pre = dropWhile (\<lambda>c. c \<noteq> CHR ''-'') front
      in case (split_on (CHR ''.'') core, optional_part pre, optional_part build) of
           ([a, b, c], Some ps, Some bs) \<Rightarrow>
             if canonical a \<and> canonical b \<and> canonical c then Some (a, b, c, ps, bs) else None
         | _ \<Rightarrow> None)"

definition U64_TEXT :: string where
  "U64_TEXT = ''18446744073709551615''"

definition is_decimal :: "string \<Rightarrow> bool" where
  "is_decimal s \<longleftrightarrow> s \<noteq> [] \<and> list_all is_digit s"

type_synonym identifier_key = "nat \<times> nat \<times> string \<times> nat"
type_synonym version_order =
  "nat \<times> nat \<times> nat \<times> (nat \<times> identifier_key list) \<times> identifier_key list"

definition pre_key :: "string \<Rightarrow> identifier_key" where
  "pre_key value = (if is_decimal value then (0, length value, value, 0) else (1, 0, value, 0))"

definition build_key :: "string \<Rightarrow> identifier_key" where
  "build_key value =
     (if \<not> is_decimal value then (1, 0, value, 0)
      else let significant = dropWhile (\<lambda>c. c = CHR ''0'') value
           in (0, length significant, significant, length value))"

definition exceeds_u64 :: "string \<Rightarrow> bool" where
  "exceeds_u64 component \<longleftrightarrow> length component > length U64_TEXT \<or>
     (length component = length U64_TEXT \<and> component > U64_TEXT)"

definition leading_zero :: "string \<Rightarrow> bool" where
  "leading_zero part \<longleftrightarrow> is_decimal part \<and> length part > 1 \<and> hd part = CHR ''0''"

definition key_of :: "string \<times> string \<times> string \<times> string list \<times> string list \<Rightarrow> version_order" where
  "key_of = (\<lambda>(a, b, c, prerelease, bs).
     (nat_of_digits a, nat_of_digits b, nat_of_digits c,
      (if prerelease = [] then (1, []) else (0, map pre_key prerelease)),
      map build_key (if bs = [] then [''''] else bs)))"

definition version_key :: "string \<Rightarrow> version_order option" where
  "version_key value =
     (case semver_match value of
        None \<Rightarrow> None
      | Some (a, b, c, prerelease, bs) \<Rightarrow>
          if list_ex exceeds_u64 [a, b, c] then None
          else if list_ex leading_zero prerelease then None
          else Some (key_of (a, b, c, prerelease, bs)))"

definition higher :: "string \<Rightarrow> string \<Rightarrow> bool" where
  "higher candidate source =
     (case (version_key candidate, version_key source) of
        (Some c, Some s) \<Rightarrow> c > s
      | _ \<Rightarrow> candidate > source)"

section \<open>Lemmas: digit strings\<close>

lemma digit_value_less: "is_digit c \<Longrightarrow> digit_value c < 10"
  by (auto simp: is_digit_def less_eq_char_def digit_value_def)

lemma digit_value_mono: "is_digit c \<Longrightarrow> is_digit d \<Longrightarrow> digit_value c < digit_value d \<longleftrightarrow> c < d"
  by (auto simp: is_digit_def less_eq_char_def less_char_def digit_value_def)

lemma digit_value_inj: "is_digit c \<Longrightarrow> is_digit d \<Longrightarrow> digit_value c = digit_value d \<longleftrightarrow> c = d"
  by (metis digit_value_mono less_irrefl linorder_neq_iff)

lemma foldl_digits:
  "foldl (\<lambda>n c. 10 * n + digit_value c) k ds = k * 10 ^ length ds + nat_of_digits ds"
proof (induction ds arbitrary: k)
  case (Cons d ds)
  from Cons [of "10 * k + digit_value d"] Cons [of "digit_value d"] show ?case
    by (simp add: nat_of_digits_def algebra_simps)
qed (simp add: nat_of_digits_def)

lemma nat_of_digits_Cons: "nat_of_digits (d # ds) = digit_value d * 10 ^ length ds + nat_of_digits ds"
  using foldl_digits [of "digit_value d" ds] by (simp add: nat_of_digits_def)

lemma nat_of_digits_less: "list_all is_digit ds \<Longrightarrow> nat_of_digits ds < 10 ^ length ds"
proof (induction ds)
  case (Cons d ds)
  then have "digit_value d * 10 ^ length ds \<le> 9 * 10 ^ length ds" and "nat_of_digits ds < 10 ^ length ds"
    using digit_value_less [of d] by auto
  then have "digit_value d * 10 ^ length ds + nat_of_digits ds < 9 * 10 ^ length ds + 10 ^ length ds"
    by (rule add_le_less_mono)
  then show ?case by (simp add: nat_of_digits_Cons)
qed (simp add: nat_of_digits_def)

lemma nat_of_digits_same_length:
  "length xs = length ys \<Longrightarrow> list_all is_digit xs \<Longrightarrow> list_all is_digit ys \<Longrightarrow>
   nat_of_digits xs < nat_of_digits ys \<longleftrightarrow> xs < ys"
proof (induction xs ys rule: list_induct2)
  case (Cons x xs y ys)
  let ?p = "10 ^ length ys :: nat"
  have bounds: "nat_of_digits xs < ?p" "nat_of_digits ys < ?p"
    using Cons nat_of_digits_less [of xs] nat_of_digits_less [of ys] by simp_all
  have step: "a < b \<Longrightarrow> a * ?p + nat_of_digits us < b * ?p + nat_of_digits vs"
    if "nat_of_digits us < ?p" for a b us vs
  proof -
    assume "a < b"
    then have "(a + 1) * ?p \<le> b * ?p" by (intro mult_le_mono1) simp
    then show ?thesis using that by simp
  qed
  have d: "is_digit x" "is_digit y" using Cons by simp_all
  consider "digit_value x < digit_value y" | "digit_value y < digit_value x" | "x = y"
    using d by (metis digit_value_inj linorder_neq_iff)
  then show ?case
  proof cases
    case 1
    with step [OF bounds(1) 1, of ys] d Cons(1) show ?thesis
      by (simp add: nat_of_digits_Cons digit_value_mono)
  next
    case 2
    with step [OF bounds(2) 2, of xs] d Cons(1) digit_value_mono [OF d(2,1)] show ?thesis
      by (auto simp: nat_of_digits_Cons)
  next
    case 3
    with Cons show ?thesis by (simp add: nat_of_digits_Cons)
  qed
qed simp

lemma nat_of_digits_ge: "list_all is_digit ds \<Longrightarrow> ds \<noteq> [] \<Longrightarrow> hd ds \<noteq> CHR ''0'' \<Longrightarrow>
    10 ^ (length ds - 1) \<le> nat_of_digits ds"
proof (cases ds)
  case (Cons d cs)
  assume "list_all is_digit ds" "hd ds \<noteq> CHR ''0''"
  then have "is_digit d" "d \<noteq> CHR ''0''" using Cons by simp_all
  then have "1 \<le> digit_value d"
    using digit_value_inj [of d "CHR ''0''"] by (auto simp: digit_value_def is_digit_def less_eq_char_def)
  then show ?thesis using Cons by (simp add: nat_of_digits_Cons trans_le_add1)
qed simp

text \<open>Significant digits: no leading zero (the empty string is zero).\<close>

definition significant :: "string \<Rightarrow> bool" where
  "significant s \<longleftrightarrow> list_all is_digit s \<and> (s = [] \<or> hd s \<noteq> CHR ''0'')"

lemma shorter_is_less:
  assumes "significant xs" and "significant ys" and "length xs < length ys"
  shows "nat_of_digits xs < nat_of_digits ys"
proof -
  have "nat_of_digits xs < 10 ^ length xs" using assms(1) by (simp add: significant_def nat_of_digits_less)
  also have "\<dots> \<le> 10 ^ (length ys - 1)" using assms(3) by (intro power_increasing) auto
  also have "\<dots> \<le> nat_of_digits ys" using assms(2,3) by (intro nat_of_digits_ge) (auto simp: significant_def)
  finally show ?thesis .
qed

lemma significant_order:
  assumes "significant xs" and "significant ys"
  shows "(length xs, xs) < (length ys, ys) \<longleftrightarrow> nat_of_digits xs < nat_of_digits ys"
proof (cases "length xs = length ys")
  case True
  with assms show ?thesis by (simp add: nat_of_digits_same_length significant_def)
next
  case False
  with shorter_is_less [OF assms] shorter_is_less [OF assms(2,1)] show ?thesis by auto
qed

section \<open>The reference order\<close>

text \<open>
  Semantic versioning's precedence with Rust's order on build metadata: numeric identifiers by
  value and below all others, the others by text; a version without pre-release is above one with
  pre-release. Among numeric build identifiers of one value, the longer text is higher.
\<close>

datatype sem_ident = Numeric nat | Textual string

instantiation sem_ident :: linorder
begin

fun less_sem_ident :: "sem_ident \<Rightarrow> sem_ident \<Rightarrow> bool" where
  "less_sem_ident (Numeric m) (Numeric n) \<longleftrightarrow> m < n"
| "less_sem_ident (Textual s) (Textual t) \<longleftrightarrow> s < t"
| "less_sem_ident (Numeric m) (Textual t) \<longleftrightarrow> True"
| "less_sem_ident (Textual s) (Numeric n) \<longleftrightarrow> False"

definition less_eq_sem_ident :: "sem_ident \<Rightarrow> sem_ident \<Rightarrow> bool" where
  "less_eq_sem_ident a b \<longleftrightarrow> a < b \<or> a = (b :: sem_ident)"

instance
proof
  fix a b c :: sem_ident
  show "a < b \<longleftrightarrow> a \<le> b \<and> \<not> b \<le> a"
    by (cases a; cases b) (auto simp: less_eq_sem_ident_def)
  show "a \<le> a" by (simp add: less_eq_sem_ident_def)
  show "a \<le> b \<Longrightarrow> b \<le> c \<Longrightarrow> a \<le> c"
    by (cases a; cases b; cases c) (auto simp: less_eq_sem_ident_def)
  show "a \<le> b \<Longrightarrow> b \<le> a \<Longrightarrow> a = b"
    by (cases a; cases b) (auto simp: less_eq_sem_ident_def)
  show "a \<le> b \<or> b \<le> a"
    by (cases a; cases b) (auto simp: less_eq_sem_ident_def)
qed

end

lemma sem_ident_le [simp]:
  "Numeric m \<le> Numeric n \<longleftrightarrow> m \<le> n" "Textual s \<le> Textual t \<longleftrightarrow> s \<le> t"
  "Numeric m \<le> Textual t" "\<not> Textual s \<le> Numeric n"
  by (auto simp: less_eq_sem_ident_def)

definition identifier_of :: "string \<Rightarrow> sem_ident" where
  "identifier_of s = (if is_decimal s then Numeric (nat_of_digits s) else Textual s)"

definition build_identifier_of :: "string \<Rightarrow> sem_ident \<times> nat" where
  "build_identifier_of s = (identifier_of s, if is_decimal s then length s else 0)"

definition precedence ::
  "string \<times> string \<times> string \<times> string list \<times> string list \<Rightarrow>
   (nat \<times> nat \<times> nat) \<times> (bool \<times> sem_ident list) \<times> (sem_ident \<times> nat) list" where
  "precedence = (\<lambda>(a, b, c, prerelease, bs).
     ((nat_of_digits a, nat_of_digits b, nat_of_digits c),
      (prerelease = [], map identifier_of prerelease),
      map build_identifier_of (if bs = [] then [''''] else bs)))"

section \<open>Lemmas: keys against the reference\<close>

lemma map_order:
  fixes f :: "'a \<Rightarrow> 'b :: linorder" and g :: "'a \<Rightarrow> 'c :: linorder"
  assumes "\<And>x y. x \<in> set xs \<Longrightarrow> y \<in> set ys \<Longrightarrow> (f x < f y \<longleftrightarrow> g x < g y) \<and> (f x = f y \<longleftrightarrow> g x = g y)"
  shows "(map f xs < map f ys \<longleftrightarrow> map g xs < map g ys) \<and> (map f xs = map f ys \<longleftrightarrow> map g xs = map g ys)"
  using assms
proof (induction xs arbitrary: ys)
  case Nil
  then show ?case by (cases ys) auto
next
  case (Cons x xs)
  then show ?case by (cases ys) auto
qed

lemma significant_inj:
  assumes "significant xs" and "significant ys"
  shows "nat_of_digits xs = nat_of_digits ys \<longleftrightarrow> xs = ys"
  using significant_order [OF assms] significant_order [OF assms(2,1)]
  by (metis less_irrefl linorder_neq_iff prod.inject)

lemma nat_of_digits_zeros:
  "nat_of_digits (dropWhile (\<lambda>c. c = CHR ''0'') ds) = nat_of_digits ds"
  by (induction ds) (auto simp: nat_of_digits_Cons digit_value_def)

lemma significant_dropWhile:
  "list_all is_digit ds \<Longrightarrow> significant (dropWhile (\<lambda>c. c = CHR ''0'') ds)"
  using hd_dropWhile [of "\<lambda>c. c = CHR ''0''" ds]
  by (auto simp: significant_def list_all_iff dest: set_dropWhileD)

lemma pre_key_order:
  assumes "\<not> leading_zero s" and "\<not> leading_zero t"
  shows "(pre_key s < pre_key t \<longleftrightarrow> identifier_of s < identifier_of t) \<and>
    (pre_key s = pre_key t \<longleftrightarrow> identifier_of s = identifier_of t)"
proof (cases "is_decimal s \<and> is_decimal t")
  case True
  have len1: "length u \<le> 1 \<Longrightarrow> is_decimal u \<Longrightarrow> \<exists>c. u = [c] \<and> is_digit c" for u
    by (cases u) (auto simp: is_decimal_def)
  have cases: "significant u \<or> u = ''0''" if "is_decimal u" "\<not> leading_zero u" for u
    using that by (cases u; cases "tl u") (auto simp: is_decimal_def leading_zero_def significant_def)
  have zero: "nat_of_digits ''0'' = 0" by (simp add: nat_of_digits_def digit_value_def)
  have pos: "0 < nat_of_digits u \<and> (length u > 1 \<or> (length u = 1 \<and> ''0'' < u))"
    if "significant u" "u \<noteq> []" for u
    using that shorter_is_less [of "[]" u] nat_of_digits_same_length [of "''0''" u]
    by (cases u; cases "tl u") (auto simp: significant_def nat_of_digits_def digit_value_def is_digit_def)
  have ne: "s \<noteq> []" "t \<noteq> []" using True by (auto simp: is_decimal_def)
  show ?thesis
    using True cases [of s] cases [of t] assms zero pos [of s] pos [of t] ne
      significant_order [of s t] significant_inj [of s t]
    by (auto simp: pre_key_def identifier_of_def)
next
  case False
  then show ?thesis by (auto simp: pre_key_def identifier_of_def)
qed

lemma build_key_order:
  "(build_key s < build_key t \<longleftrightarrow> build_identifier_of s < build_identifier_of t) \<and>
   (build_key s = build_key t \<longleftrightarrow> build_identifier_of s = build_identifier_of t)"
proof (cases "is_decimal s \<and> is_decimal t")
  case True
  then have "significant (dropWhile (\<lambda>c. c = CHR ''0'') s)" "significant (dropWhile (\<lambda>c. c = CHR ''0'') t)"
    by (simp_all add: is_decimal_def significant_dropWhile)
  from significant_order [OF this] significant_inj [OF this] True show ?thesis
    by (auto simp: build_key_def build_identifier_of_def identifier_of_def Let_def nat_of_digits_zeros)
next
  case False
  then show ?thesis
    by (auto simp: build_key_def build_identifier_of_def identifier_of_def Let_def)
qed

section \<open>Lemmas: the text of a version\<close>

fun join_on :: "char \<Rightarrow> string list \<Rightarrow> string" where
  "join_on c [] = []"
| "join_on c [x] = x"
| "join_on c (x # y # zs) = x @ c # join_on c (y # zs)"

lemma join_split: "join_on c (split_on c s) = s"
proof (induction s)
  case (Cons x xs)
  then show ?case by (cases "split_on c xs"; cases "tl (split_on c xs)") auto
qed simp

definition tail_text :: "char \<Rightarrow> string list \<Rightarrow> string" where
  "tail_text c ps = (if ps = [] then [] else c # join_on (CHR ''.'') ps)"

definition version_text :: "string \<times> string \<times> string \<times> string list \<times> string list \<Rightarrow> string" where
  "version_text = (\<lambda>(a, b, c, ps, bs). join_on (CHR ''.'') [a, b, c] @ tail_text (CHR ''-'') ps @
     tail_text (CHR ''+'') bs)"

lemma optional_part_text:
  assumes "optional_part s = Some ps" and "s \<noteq> [] \<Longrightarrow> hd s = c"
  shows "s = tail_text c ps \<and> (\<forall>p \<in> set ps. p \<noteq> [])"
proof (cases s)
  case Nil
  with assms(1) show ?thesis by (simp add: optional_part_def tail_text_def)
next
  case (Cons x xs)
  with assms have "ps = split_on (CHR ''.'') xs" "x = c" "\<forall>p \<in> set ps. p \<noteq> []"
    by (auto simp: optional_part_def identifiers_def Let_def list_all_iff split: if_splits)
  with Cons show ?thesis by (simp add: tail_text_def join_split)
qed

lemma semver_match_text:
  assumes "semver_match value = Some (a, b, c, ps, bs)"
  shows "value = version_text (a, b, c, ps, bs) \<and> canonical a \<and> canonical b \<and> canonical c \<and>
    (\<forall>p \<in> set ps. p \<noteq> []) \<and> (\<forall>p \<in> set bs. p \<noteq> [])"
proof -
  let ?front = "takeWhile (\<lambda>c. c \<noteq> CHR ''+'') value"
  let ?build = "dropWhile (\<lambda>c. c \<noteq> CHR ''+'') value"
  let ?core = "takeWhile (\<lambda>c. c \<noteq> CHR ''-'') ?front"
  let ?pre = "dropWhile (\<lambda>c. c \<noteq> CHR ''-'') ?front"
  from assms have parts: "split_on (CHR ''.'') ?core = [a, b, c]" "optional_part ?pre = Some ps"
    "optional_part ?build = Some bs" and can: "canonical a" "canonical b" "canonical c"
    by (auto simp: semver_match_def Let_def split: list.splits option.splits if_splits)
  have "?core = join_on (CHR ''.'') [a, b, c]" using join_split [of "CHR ''.''" ?core] parts(1) by simp
  moreover have "?pre = tail_text (CHR ''-'') ps \<and> (\<forall>p \<in> set ps. p \<noteq> [])"
    using hd_dropWhile [of "\<lambda>c. c \<noteq> CHR ''-''" ?front] by (intro optional_part_text parts(2)) simp
  moreover have "?build = tail_text (CHR ''+'') bs \<and> (\<forall>p \<in> set bs. p \<noteq> [])"
    using hd_dropWhile [of "\<lambda>c. c \<noteq> CHR ''+''" "value"] by (intro optional_part_text parts(3)) simp
  moreover have "value = ?core @ ?pre @ ?build" by (metis append_assoc takeWhile_dropWhile_id)
  ultimately show ?thesis using can by (simp add: version_text_def)
qed

lemma version_key_Some:
  "version_key value = Some k \<longleftrightarrow> (\<exists>a b c ps bs. semver_match value = Some (a, b, c, ps, bs) \<and>
     list_all (\<lambda>x. \<not> exceeds_u64 x) [a, b, c] \<and> list_all (\<lambda>p. \<not> leading_zero p) ps \<and>
     k = key_of (a, b, c, ps, bs))"
  by (cases "semver_match value")
    (simp add: version_key_def, auto simp: version_key_def list_ex_iff list_all_iff split: if_splits)

lemma canonical_inj:
  assumes "canonical s" and "canonical t" and "nat_of_digits s = nat_of_digits t"
  shows "s = t"
proof -
  have zero: "nat_of_digits ''0'' = 0" by (simp add: nat_of_digits_def digit_value_def)
  have sig: "significant u \<and> 0 < nat_of_digits u" if "canonical u" "u \<noteq> ''0''" for u
    using that shorter_is_less [of "[]" u] by (auto simp: canonical_def significant_def nat_of_digits_def)
  show ?thesis
    using assms zero sig [of s] sig [of t] significant_inj [of s t] by fastforce
qed

lemma pre_key_inj: "pre_key s = pre_key t \<Longrightarrow> s = t"
  by (auto simp: pre_key_def split: if_splits)

lemma build_key_inj:
  assumes "build_key s = build_key t"
  shows "s = t"
proof -
  let ?z = "\<lambda>c. c = CHR ''0''"
  have zeros: "takeWhile ?z u = replicate (length u - length (dropWhile ?z u)) (CHR ''0'')" for u
  proof -
    have "takeWhile ?z u = replicate (length (takeWhile ?z u)) (CHR ''0'')"
      by (rule replicate_eqI) (auto dest: set_takeWhileD)
    moreover have "length (takeWhile ?z u) + length (dropWhile ?z u) = length u"
      by (metis length_append takeWhile_dropWhile_id)
    ultimately show ?thesis by (metis diff_add_inverse2)
  qed
  show ?thesis
  proof (cases "is_decimal s \<or> is_decimal t")
    case True
    with assms have "dropWhile ?z s = dropWhile ?z t" "length s = length t"
      by (auto simp: build_key_def Let_def split: if_splits)
    then show ?thesis by (metis zeros takeWhile_dropWhile_id)
  next
    case False
    with assms show ?thesis by (simp add: build_key_def)
  qed
qed

lemma key_of_inj:
  assumes "key_of (a, b, c, ps, bs) = key_of (a', b', c', ps', bs')"
    and "canonical a" "canonical b" "canonical c" "canonical a'" "canonical b'" "canonical c'"
    and "\<forall>p \<in> set bs. p \<noteq> []" and "\<forall>p \<in> set bs'. p \<noteq> []"
  shows "(a, b, c, ps, bs) = (a', b', c', ps', bs')"
proof -
  have inj: "inj pre_key" "inj build_key" by (auto intro: injI pre_key_inj build_key_inj)
  have core: "a = a'" "b = b'" "c = c'" using assms by (auto simp: key_of_def intro: canonical_inj)
  have pre: "ps = ps'" using assms(1) inj(1) by (auto simp: key_of_def inj_map_eq_map split: if_splits)
  have "(if bs = [] then [''''] else bs) = (if bs' = [] then [''''] else bs')"
    using assms(1) inj(2) by (simp only: key_of_def prod.case prod.inject inj_map_eq_map)
  then have "bs = bs'" using assms(8,9) by (auto split: if_splits)
  with core pre show ?thesis by simp
qed

lemma key_order:
  assumes "list_all (\<lambda>p. \<not> leading_zero p) ps" and "list_all (\<lambda>p. \<not> leading_zero p) ps'"
  shows "key_of (a, b, c, ps, bs) < key_of (a', b', c', ps', bs') \<longleftrightarrow>
    precedence (a, b, c, ps, bs) < precedence (a', b', c', ps', bs')"
proof -
  have pre: "(map pre_key ps < map pre_key ps' \<longleftrightarrow> map identifier_of ps < map identifier_of ps') \<and>
    (map pre_key ps = map pre_key ps' \<longleftrightarrow> map identifier_of ps = map identifier_of ps')"
    using assms by (intro map_order pre_key_order) (auto simp: list_all_iff)
  have build: "(map build_key xs < map build_key ys \<longleftrightarrow>
      map build_identifier_of xs < map build_identifier_of ys) \<and>
    (map build_key xs = map build_key ys \<longleftrightarrow> map build_identifier_of xs = map build_identifier_of ys)" for xs ys
    by (intro map_order build_key_order)
  show ?thesis
    unfolding key_of_def precedence_def prod.case
    using pre build [of "if bs = [] then [''''] else bs" "if bs' = [] then [''''] else bs'"]
    by (cases "ps = []"; cases "ps' = []"; simp add: le_less; blast)
qed

lemma exceeds_u64_iff:
  assumes "canonical s"
  shows "exceeds_u64 s \<longleftrightarrow> 18446744073709551615 < nat_of_digits s"
proof -
  have u: "significant U64_TEXT" "nat_of_digits U64_TEXT = 18446744073709551615"
    by (simp_all add: significant_def U64_TEXT_def is_digit_def less_eq_char_def nat_of_digits_def
        digit_value_def)
  have "significant s \<or> s = ''0''" using assms by (auto simp: canonical_def significant_def)
  then show ?thesis
  proof
    assume "significant s"
    with significant_order [OF u(1) this] u(2) show ?thesis by (auto simp: exceeds_u64_def)
  next
    assume "s = ''0''"
    then show ?thesis by (simp add: exceeds_u64_def U64_TEXT_def nat_of_digits_def digit_value_def)
  qed
qed

lemma higher_keys: "version_key c = Some k \<Longrightarrow> version_key s = Some l \<Longrightarrow> higher c s \<longleftrightarrow> l < k"
  by (simp add: higher_def)

lemma strict_order_facts:
  fixes j k l :: "'a :: linorder"
  shows "\<not> j < j \<and> (j \<noteq> k \<longleftrightarrow> k < j \<or> j < k) \<and> \<not> (k < j \<and> j < k) \<and> (k < j \<and> l < k \<longrightarrow> l < j)"
  by auto

section \<open>Properties\<close>

text \<open>
  C34: on two valid versions the comparison of keys (digit strings compared by length, then text) is
  the precedence of semantic versioning on the parsed numbers, with Rust's order of build metadata.
\<close>

theorem higher_is_semver_precedence:
  assumes "version_key candidate \<noteq> None" and "version_key source \<noteq> None"
  shows "\<exists>m n. semver_match candidate = Some m \<and> semver_match source = Some n \<and>
    (higher candidate source \<longleftrightarrow> precedence n < precedence m)"
proof -
  from assms obtain k l where k: "version_key candidate = Some k" and l: "version_key source = Some l"
    by auto
  from k l key_order higher_keys [OF k l] show ?thesis
    by (fastforce simp: version_key_Some)
qed

theorem higher_is_semver_precedence_witness:
  "\<exists>m n. semver_match ''1.10.0-rc.10'' = Some m \<and> semver_match ''1.10.0-rc.9'' = Some n \<and>
    (higher ''1.10.0-rc.10'' ''1.10.0-rc.9'' \<longleftrightarrow> precedence n < precedence m)"
proof -
  have "version_key ''1.10.0-rc.10'' \<noteq> None" "version_key ''1.10.0-rc.9'' \<noteq> None"
    by code_simp+
  then show ?thesis by (rule higher_is_semver_precedence)
qed

text \<open>
  The comparison is a strict total order on valid versions: two different valid versions are
  always ordered, in exactly one direction, transitively, so the highest version directory is unique.
\<close>

theorem valid_versions_totally_ordered:
  assumes "version_key x \<noteq> None" and "version_key y \<noteq> None" and "version_key z \<noteq> None"
  shows "\<not> higher x x \<and> (x \<noteq> y \<longleftrightarrow> higher x y \<or> higher y x) \<and> \<not> (higher x y \<and> higher y x) \<and>
    (higher x y \<and> higher y z \<longrightarrow> higher x z)"
proof -
  from assms obtain j k l where j: "version_key x = Some j" and k: "version_key y = Some k"
    and l: "version_key z = Some l" by auto
  have same: "x = y" if "j = k"
  proof -
    from j k that obtain a b c ps bs a' b' c' ps' bs' where m: "semver_match x = Some (a, b, c, ps, bs)"
      "semver_match y = Some (a', b', c', ps', bs')" "key_of (a, b, c, ps, bs) = key_of (a', b', c', ps', bs')"
      by (auto simp: version_key_Some)
    from semver_match_text [OF m(1)] semver_match_text [OF m(2)] key_of_inj [OF m(3)]
    show ?thesis by auto
  qed
  then have eq: "x = y \<longleftrightarrow> j = k" using j k by auto
  show ?thesis
    unfolding eq higher_keys [OF j j] higher_keys [OF j k] higher_keys [OF k j] higher_keys [OF k l]
      higher_keys [OF j l]
    by (rule strict_order_facts)
qed

theorem valid_versions_totally_ordered_witness:
  "higher ''1.2.3'' ''1.2.3-beta'' \<noteq> higher ''1.2.3-beta'' ''1.2.3''"
proof -
  have v: "version_key ''1.2.3'' \<noteq> None" "version_key ''1.2.3-beta'' \<noteq> None" by code_simp+
  show ?thesis using valid_versions_totally_ordered [OF v v(2)] by auto
qed

text \<open>
  A text is a version exactly when it has the grammar of a semantic version, its three core
  numbers fit an unsigned 64-bit integer, and no numeric pre-release identifier has a leading zero.
\<close>

theorem version_key_bounds:
  "version_key value \<noteq> None \<longleftrightarrow>
   (\<exists>a b c ps bs. semver_match value = Some (a, b, c, ps, bs) \<and>
      nat_of_digits a < 2 ^ 64 \<and> nat_of_digits b < 2 ^ 64 \<and> nat_of_digits c < 2 ^ 64 \<and>
      list_all (\<lambda>p. \<not> leading_zero p) ps)"
proof -
  have iff: "\<not> exceeds_u64 a \<longleftrightarrow> nat_of_digits a < 2 ^ 64" if "canonical a" for a
    using exceeds_u64_iff [OF that] by auto
  have "list_all (\<lambda>x. \<not> exceeds_u64 x) [a, b, c] \<longleftrightarrow>
      nat_of_digits a < 2 ^ 64 \<and> nat_of_digits b < 2 ^ 64 \<and> nat_of_digits c < 2 ^ 64"
    if "semver_match value = Some (a, b, c, ps, bs)" for a b c ps bs
    using semver_match_text [OF that] by (simp add: iff)
  then show ?thesis by (simp only: not_None_eq version_key_Some) blast
qed

text \<open>
  Joining a safe relative path to a directory stays below it, with the path's parts as the
  components added: nothing in it is resolved away or climbs out.
\<close>

theorem safe_relative_stays_below:
  assumes "safe_relative value"
  shows "abspath (home @ split_on (CHR ''/'') value) = abspath home @ split_on (CHR ''/'') value"
proof -
  have "{'''', ''.'', ''..''} \<inter> set (split_on (CHR ''/'') value) = {}"
    using assms by (auto simp: safe_relative_def list_all_iff)
  from abspath_onto_id [OF this] show ?thesis
    by (simp add: abspath_def abspath_onto_append)
qed

theorem safe_relative_stays_below_witness:
  "abspath ([''cache''] @ split_on (CHR ''/'') ''bin/tool.exe'') = [''cache'', ''bin'', ''tool.exe'']"
proof -
  have "safe_relative ''bin/tool.exe''" by code_simp
  from safe_relative_stays_below [OF this, of "[''cache'']"] show ?thesis
    by (simp add: abspath_def)
qed

end
