(* ===== verification/McpProtocol.thy ===== *)
theory McpProtocol
  imports Json Durations
begin

text \<open>
  \<open>scripts/mcp_limits.py\<close>, \<open>scripts/mcp_protocol.py\<close> and the framing of \<open>scripts/mcp_stdio.py\<close>:
  the bounded JSON-RPC boundary of the MCP server. Text is 8-bit characters, so an unencodable
  (surrogate) character does not occur and \<open>utf8_len\<close> counts one or two bytes per character.

  The grammar of \<open>json.loads\<close> is a parameter: a scanned text is a syntax tree in textual order whose
  numbers are still text, and where the scanner gives up, with a syntax error or because the
  interpreter's recursion limit is reached, there is a \<open>SBroken\<close> node with the values completed
  before. What the scanner calls back (\<open>object_pairs\<close>, \<open>parse_int\<close>, \<open>reject_non_finite\<close>) is the
  code's and runs here, in the scanner's order.
\<close>

section \<open>Limits\<close>

definition MAX_RAW_LINE_BYTES :: nat where
  "MAX_RAW_LINE_BYTES = 1048576"

definition MAX_NESTING_DEPTH :: nat where
  "MAX_NESTING_DEPTH = 16"

definition MAX_OBJECT_MEMBERS :: nat where
  "MAX_OBJECT_MEMBERS = 128"

definition MAX_ARRAY_ITEMS :: nat where
  "MAX_ARRAY_ITEMS = 128"

definition MAX_STRING_BYTES :: nat where
  "MAX_STRING_BYTES = 65536"

text \<open>The interpreter's default limit on the digits \<open>int()\<close> converts.\<close>

definition INT_MAX_STR_DIGITS :: nat where
  "INT_MAX_STR_DIGITS = 4300"

fun utf8_len :: "string \<Rightarrow> nat" where
  "utf8_len [] = 0"
| "utf8_len (c # cs) = (if (of_char c :: nat) < 128 then 1 else 2) + utf8_len cs"

lemma utf8_len_append [simp]: "utf8_len (xs @ ys) = utf8_len xs + utf8_len ys"
  by (induction xs) auto

section \<open>Decoded values\<close>

text \<open>A loaded value; a float is \<open>None\<close> when its text overflows to an infinity.\<close>

datatype py_value =
    PNull
  | PBool bool
  | PInt int
  | PFloat "real option"
  | PStr string
  | PList "py_value list"
  | PDict "(string \<times> py_value) list"

datatype load_fault =
    DuplicateMemberError
  | MemberLimitError
  | MemberNameLimitError
  | NonFiniteNumberError
  | IntegerLimitError
  | JSONDecodeError string
  | RecursionFault

datatype scanned =
    SNull
  | SBool bool
  | SInt string
  | SFloat "real option"
  | SConstant string
  | SStr string
  | SList "scanned list"
  | SObject "(string \<times> scanned) list"
  | SBroken "scanned list" load_fault

fun object_loop ::
  "(string \<times> py_value) list \<Rightarrow> (string \<times> py_value) list \<Rightarrow>
   load_fault + (string \<times> py_value) list" where
  "object_loop [] vs = Inr vs"
| "object_loop ((k, v) # ps) vs =
     (if utf8_len k > MAX_STRING_BYTES then Inl MemberNameLimitError
      else if map_of vs k \<noteq> None then Inl DuplicateMemberError
      else object_loop ps (AList.update k v vs))"

definition object_pairs ::
  "(string \<times> py_value) list \<Rightarrow> load_fault + (string \<times> py_value) list" where
  "object_pairs ps =
     (if length ps > MAX_OBJECT_MEMBERS then Inl MemberLimitError else object_loop ps [])"

definition reject_non_finite :: "string \<Rightarrow> load_fault + py_value" where
  "reject_non_finite token = Inl NonFiniteNumberError"

definition py_int :: "string \<Rightarrow> int option" where
  "py_int s =
     (let ds = (case s of c # cs \<Rightarrow> if c = CHR ''-'' then cs else s | [] \<Rightarrow> [])
      in if length ds > INT_MAX_STR_DIGITS then None
         else Some (if ds = s then int (nat_of_digits ds) else - int (nat_of_digits ds)))"

definition parse_int :: "string \<Rightarrow> load_fault + int" where
  "parse_int s = (case py_int s of None \<Rightarrow> Inl IntegerLimitError | Some i \<Rightarrow> Inr i)"

lemma size_snd_scanned [termination_simp]:
  "(k, v) \<in> set d \<Longrightarrow> size (v :: scanned) < Suc (size_list (size_prod (\<lambda>_. 0) size) d)"
  by (induction d) auto

lemma size_snd_value [termination_simp]:
  "(k, v) \<in> set d \<Longrightarrow> size (v :: py_value) < Suc (size_list (size_prod (\<lambda>_. 0) size) d)"
  by (induction d) auto

text \<open>\<open>json.loads\<close> with the hooks of \<open>decode_request\<close>.\<close>

fun load_json :: "scanned \<Rightarrow> load_fault + py_value" where
  "load_json SNull = Inr PNull"
| "load_json (SBool b) = Inr (PBool b)"
| "load_json (SInt s) = ebind (parse_int s) (\<lambda>i. Inr (PInt i))"
| "load_json (SFloat r) = Inr (PFloat r)"
| "load_json (SConstant s) = reject_non_finite s"
| "load_json (SStr s) = Inr (PStr s)"
| "load_json (SList xs) = ebind (emap load_json xs) (\<lambda>ys. Inr (PList ys))"
| "load_json (SObject d) =
     ebind (emap (\<lambda>(k, v). ebind (load_json v) (\<lambda>w. Inr (k, w))) d) (\<lambda>ps.
     ebind (object_pairs ps) (\<lambda>vs. Inr (PDict vs)))"
| "load_json (SBroken xs fault) = ebind (emap load_json xs) (\<lambda>_. Inl fault)"

section \<open>Structure validation\<close>

text \<open>\<open>validate_structure\<close> raises \<open>ValueError\<close>, or \<open>TypeError\<close> where it hashes an unhashable value.\<close>

datatype structure_fault = StructureValueError | StructureTypeError

type_synonym value_path = "(string + nat) list"

definition control_tools :: "string list" where
  "control_tools = [''cmw.work_on'', ''cmw.stop'', ''cmw.status'', ''cmw.complete'',
     ''cmw.settings'', ''cmw.notifications.setup'']"

fun pget :: "py_value \<Rightarrow> string \<Rightarrow> py_value" where
  "pget (PDict d) k = (case map_of d k of None \<Rightarrow> PNull | Some v \<Rightarrow> v)"
| "pget _ k = PNull"

fun is_dict :: "py_value \<Rightarrow> bool" where
  "is_dict (PDict _) = True"
| "is_dict _ = False"

fun hashable :: "py_value \<Rightarrow> bool" where
  "hashable (PList _) = False"
| "hashable (PDict _) = False"
| "hashable _ = True"

definition has_control_tool_shape :: "py_value \<Rightarrow> structure_fault + bool" where
  "has_control_tool_shape v =
     (if \<not> is_dict v \<or> pget v ''method'' \<noteq> PStr ''tools/call'' then Inr False
      else let params = pget v ''params''
           in if \<not> is_dict params then Inr False
              else if \<not> hashable (pget params ''name'') then Inl StructureTypeError
              else if pget params ''name'' \<notin> PStr ` set control_tools then Inr False
              else Inr (is_dict (pget params ''arguments'')))"

definition session_id_path :: value_path where
  "session_id_path = [Inl ''params'', Inl ''arguments'', Inl ''session_id'']"

definition validate_string :: "string \<Rightarrow> value_path \<Rightarrow> bool \<Rightarrow> structure_fault + unit" where
  "validate_string s p allow =
     require (\<not> (utf8_len s > MAX_STRING_BYTES \<and> \<not> (allow \<and> p = session_id_path))) StructureValueError"

definition dict_children :: "(string \<times> py_value) list \<Rightarrow> nat \<Rightarrow> value_path \<Rightarrow>
  (py_value \<times> nat \<times> value_path) list" where
  "dict_children d depth p = map (\<lambda>(k, v). (v, depth + 1, p @ [Inl k])) d"

definition list_children :: "py_value list \<Rightarrow> nat \<Rightarrow> value_path \<Rightarrow>
  (py_value \<times> nat \<times> value_path) list" where
  "list_children xs depth p = map (\<lambda>(i, v). (v, depth + 1, p @ [Inr i])) (enumerate 0 xs)"

text \<open>The work list; its head is the end of the Python list, from which \<open>pop()\<close> takes.\<close>

definition work_size :: "(py_value \<times> nat \<times> value_path) list \<Rightarrow> nat" where
  "work_size w = sum_list (map (\<lambda>(v, _). size v + 1) w)"

lemma work_size_simps [simp]:
  "work_size [] = 0" "work_size ((v, r) # w) = size v + 1 + work_size w"
  "work_size (u @ w) = work_size u + work_size w" "work_size (rev w) = work_size w"
  by (simp_all add: work_size_def flip: rev_map)

lemma work_size_dict: "work_size (dict_children d n p) \<le> size_list (size_prod (\<lambda>_. 0) size) d"
  by (induction d) (auto simp: dict_children_def work_size_def)

lemma work_size_list: "work_size (list_children xs n p) = size_list size xs"
proof -
  have "work_size (map (\<lambda>(i, v). (v, n + 1, p @ [Inr i])) (enumerate k xs)) = size_list size xs"
    for k by (induction xs arbitrary: k) (simp_all add: work_size_def)
  then show ?thesis by (simp add: list_children_def)
qed

function validate_loop ::
  "bool \<Rightarrow> (py_value \<times> nat \<times> value_path) list \<Rightarrow> structure_fault + unit" where
  "validate_loop allow [] = Inr ()"
| "validate_loop allow ((v, depth, p) # stack) =
     (if depth > MAX_NESTING_DEPTH then Inl StructureValueError
      else case v of
          PStr s \<Rightarrow> ebind (validate_string s p allow) (\<lambda>_. validate_loop allow stack)
        | PDict d \<Rightarrow> validate_loop allow (rev (dict_children d depth p) @ stack)
        | PList xs \<Rightarrow>
            if length xs > MAX_ARRAY_ITEMS then Inl StructureValueError
            else validate_loop allow (rev (list_children xs depth p) @ stack)
        | PFloat None \<Rightarrow> Inl StructureValueError
        | _ \<Rightarrow> validate_loop allow stack)"
  by pat_completeness auto
termination
  by (relation "measure (\<lambda>(_, w). work_size w)")
    (auto simp: work_size_list less_Suc_eq_le intro: work_size_dict [THEN le_trans])

definition validate_structure :: "py_value \<Rightarrow> structure_fault + unit" where
  "validate_structure v =
     ebind (has_control_tool_shape v) (\<lambda>allow. validate_loop allow [(v, 1, [])])"

section \<open>What a valid structure is\<close>

lemma size_zip_value [termination_simp]:
  "(i, v) \<in> set (zip [0 ..< length xs] xs) \<Longrightarrow> size (v :: py_value) < Suc (size_list size xs)"
  by (drule set_zip_rightD) (simp add: less_Suc_eq_le size_list_estimation')

text \<open>The limits as a recursive predicate on a value at a depth and a path.\<close>

fun within_limits :: "bool \<Rightarrow> nat \<Rightarrow> value_path \<Rightarrow> py_value \<Rightarrow> bool" where
  "within_limits allow n p (PStr s) \<longleftrightarrow> n \<le> MAX_NESTING_DEPTH \<and>
     (utf8_len s \<le> MAX_STRING_BYTES \<or> allow \<and> p = session_id_path)"
| "within_limits allow n p (PDict d) \<longleftrightarrow> n \<le> MAX_NESTING_DEPTH \<and>
     list_all (\<lambda>(k, v). within_limits allow (n + 1) (p @ [Inl k]) v) d"
| "within_limits allow n p (PList xs) \<longleftrightarrow> n \<le> MAX_NESTING_DEPTH \<and> length xs \<le> MAX_ARRAY_ITEMS \<and>
     list_all (\<lambda>(i, v). within_limits allow (n + 1) (p @ [Inr i]) v) (zip [0 ..< length xs] xs)"
| "within_limits allow n p (PFloat r) \<longleftrightarrow> n \<le> MAX_NESTING_DEPTH \<and> r \<noteq> None"
| "within_limits allow n p v \<longleftrightarrow> n \<le> MAX_NESTING_DEPTH"

text \<open>A tool name that cannot be a member of the set of tool names.\<close>

definition unhashable_tool_name :: "py_value \<Rightarrow> bool" where
  "unhashable_tool_name v \<longleftrightarrow> is_dict v \<and> pget v ''method'' = PStr ''tools/call'' \<and>
     is_dict (pget v ''params'') \<and> \<not> hashable (pget (pget v ''params'') ''name'')"

definition control_call :: "py_value \<Rightarrow> bool" where
  "control_call v \<longleftrightarrow> is_dict v \<and> pget v ''method'' = PStr ''tools/call'' \<and>
     is_dict (pget v ''params'') \<and>
     pget (pget v ''params'') ''name'' \<in> PStr ` set control_tools \<and>
     is_dict (pget (pget v ''params'') ''arguments'')"

lemma control_tool_shape:
  "has_control_tool_shape v = (if unhashable_tool_name v then Inl StructureTypeError else Inr (control_call v))"
  by (auto simp: has_control_tool_shape_def unhashable_tool_name_def control_call_def Let_def)

lemma validate_loop_within:
  "validate_loop allow w =
     (if list_all (\<lambda>(v, n, p). within_limits allow n p v) w then Inr () else Inl StructureValueError)"
proof (induction allow w rule: validate_loop.induct)
  case (2 allow v n p stack)
  show ?case
  proof (cases "n > MAX_NESTING_DEPTH")
    case True
    then have "\<not> within_limits allow n p v" by (cases v) auto
    with True show ?thesis by simp
  next
    case False
    show ?thesis
    proof (cases v)
      case (PStr s)
      with False 2 show ?thesis by (auto simp: validate_string_def require_def)
    next
      case (PDict d)
      have "list_all (\<lambda>(v, n, p). within_limits allow n p v) (dict_children d n p) \<longleftrightarrow>
          list_all (\<lambda>(k, v). within_limits allow (n + 1) (p @ [Inl k]) v) d"
        by (induction d) (auto simp: dict_children_def)
      with False 2 PDict show ?thesis by simp
    next
      case (PList xs)
      have "list_all (\<lambda>(v, n, p). within_limits allow n p v) (list_children xs n p) \<longleftrightarrow>
          list_all (\<lambda>(i, v). within_limits allow (n + 1) (p @ [Inr i]) v) (zip [0 ..< length xs] xs)"
        by (simp add: list_children_def enumerate_eq_zip list_all_iff case_prod_unfold)
      with False 2 PList show ?thesis by simp
    next
      case (PFloat r)
      with False 2 show ?thesis by (cases r) auto
    qed (use False 2 in auto)
  qed
qed simp

section \<open>Requests\<close>

datatype rpc_id = IntId int | StrId string

record rpc_error =
  er_code :: int
  er_message :: string
  er_id :: "rpc_id option"
  er_data :: json

record rpc_request =
  rq_method :: string
  rq_params :: dict
  rq_id :: "rpc_id option"
  rq_notification :: bool

text \<open>What leaves a function: a \<open>JsonRpcError\<close>, or an exception nothing on the way handles.\<close>

datatype rpc_exn = JsonRpcError rpc_error | TypeError | RecursionError

definition rpc_error :: "int \<Rightarrow> string \<Rightarrow> rpc_id option \<Rightarrow> json \<Rightarrow> rpc_exn" where
  "rpc_error code message i d =
     JsonRpcError \<lparr>er_code = code, er_message = message, er_id = i, er_data = d\<rparr>"

definition invalid_request :: "rpc_id option \<Rightarrow> rpc_exn" where
  "invalid_request i = rpc_error (- 32600) ''Invalid Request'' i JNull"

fun load_error :: "load_fault \<Rightarrow> rpc_exn" where
  "load_error DuplicateMemberError = invalid_request None"
| "load_error MemberLimitError = invalid_request None"
| "load_error MemberNameLimitError = invalid_request None"
| "load_error NonFiniteNumberError = rpc_error (- 32700) ''Parse error'' None JNull"
| "load_error IntegerLimitError = rpc_error (- 32700) ''Parse error'' None JNull"
| "load_error (JSONDecodeError s) = rpc_error (- 32700) ''Parse error'' None (JStr s)"
| "load_error RecursionFault = RecursionError"

fun structure_error :: "structure_fault \<Rightarrow> rpc_exn" where
  "structure_error StructureValueError = invalid_request None"
| "structure_error StructureTypeError = TypeError"

text \<open>The validated value: every float is finite.\<close>

fun plain :: "py_value \<Rightarrow> json" where
  "plain PNull = JNull"
| "plain (PBool b) = JBool b"
| "plain (PInt i) = JInt i"
| "plain (PFloat r) = (case r of None \<Rightarrow> JNull | Some x \<Rightarrow> JFloat x)"
| "plain (PStr s) = JStr s"
| "plain (PList xs) = JList (map plain xs)"
| "plain (PDict d) = JObj (map (\<lambda>(k, v). (k, plain v)) d)"

definition request_id_of :: "dict \<Rightarrow> rpc_exn + rpc_id option \<times> bool" where
  "request_id_of vs =
     (case map_of vs ''id'' of
        None \<Rightarrow> Inr (None, True)
      | Some JNull \<Rightarrow> Inr (None, False)
      | Some (JInt i) \<Rightarrow> Inr (Some (IntId i), False)
      | Some (JStr s) \<Rightarrow> if s = [] then Inl (invalid_request None) else Inr (Some (StrId s), False)
      | Some _ \<Rightarrow> Inl (invalid_request None))"

definition remove_suffix :: "char \<Rightarrow> string \<Rightarrow> string" where
  "remove_suffix c s = (if s \<noteq> [] \<and> last s = c then butlast s else s)"

definition emap_error :: "('e \<Rightarrow> 'f) \<Rightarrow> 'e + 'a \<Rightarrow> 'f + 'a" where
  "emap_error g r = (case r of Inl e \<Rightarrow> Inl (g e) | Inr a \<Rightarrow> Inr a)"

text \<open>The checks of \<open>decode_request\<close> after validation.\<close>

definition request_of :: "dict \<Rightarrow> rpc_exn + rpc_request" where
  "request_of vs =
     ebind (request_id_of vs) (\<lambda>(i, notification).
     if dget vs ''jsonrpc'' \<noteq> JStr ''2.0'' then Inl (invalid_request i)
     else case dget vs ''method'' of
         JStr m \<Rightarrow>
           if m = [] then Inl (invalid_request i)
           else (case dget_or vs ''params'' (JObj []) of
               JObj params \<Rightarrow> Inr \<lparr>rq_method = m, rq_params = params, rq_id = i,
                 rq_notification = notification\<rparr>
             | _ \<Rightarrow> Inl (invalid_request i))
       | _ \<Rightarrow> Inl (invalid_request i))"

definition decode_request :: "(string \<Rightarrow> scanned) \<Rightarrow> string \<Rightarrow> rpc_exn + rpc_request" where
  "decode_request scan raw_line =
     (let text_line = remove_suffix (CHR 0x0D) (remove_suffix (CHR 0x0A) raw_line)
      in if utf8_len text_line > MAX_RAW_LINE_BYTES then Inl (invalid_request None)
         else ebind (emap_error load_error (load_json (scan text_line))) (\<lambda>decoded.
           case decoded of
             PDict d \<Rightarrow>
               ebind (emap_error structure_error (validate_structure decoded)) (\<lambda>_.
               request_of (map (\<lambda>(k, v). (k, plain v)) d))
           | _ \<Rightarrow> Inl (invalid_request None)))"

section \<open>Responses\<close>

fun id_json :: "rpc_id \<Rightarrow> json" where
  "id_json (IntId i) = JInt i"
| "id_json (StrId s) = JStr s"

definition id_or_null :: "rpc_id option \<Rightarrow> json" where
  "id_or_null i = (case i of None \<Rightarrow> JNull | Some x \<Rightarrow> id_json x)"

definition result_response :: "rpc_id \<Rightarrow> json \<Rightarrow> dict" where
  "result_response i r = [(''jsonrpc'', JStr ''2.0''), (''id'', id_json i), (''result'', r)]"

definition error_response :: "rpc_error \<Rightarrow> dict" where
  "error_response e =
     [(''jsonrpc'', JStr ''2.0''), (''id'', id_or_null (er_id e)),
      (''error'', JObj ([(''code'', JInt (er_code e)), (''message'', JStr (er_message e))] @
         (if er_data e = JNull then [] else [(''data'', er_data e)])))]"

definition SUPPORTED_PROTOCOLS :: "string list" where
  "SUPPORTED_PROTOCOLS = [''2024-11-05'', ''2025-03-26'', ''2025-06-18'', ''2025-11-25'']"

definition negotiate_protocol :: "string \<Rightarrow> string" where
  "negotiate_protocol requested =
     (if requested \<in> set SUPPORTED_PROTOCOLS then requested else ''2025-11-25'')"

section \<open>Framing\<close>

text \<open>
  \<open>_bounded_lines\<close> over the chunks \<open>readline(8192)\<close> returns: a chunk is not empty and holds a
  newline only at its end. The accumulator is \<open>current\<close> joined, its byte count and \<open>over_limit\<close>.
\<close>

type_synonym frame_state = "string \<times> nat \<times> bool"

definition feed_piece :: "string \<Rightarrow> frame_state \<Rightarrow> frame_state" where
  "feed_piece piece fs =
     (case fs of (current, n, over) \<Rightarrow>
        if over then fs
        else if n + utf8_len piece > MAX_RAW_LINE_BYTES then ([], n, True)
        else (current @ piece, n + utf8_len piece, False))"

fun bounded_lines :: "frame_state \<Rightarrow> string list \<Rightarrow> (string \<times> bool) list" where
  "bounded_lines (current, n, over) [] = (if current \<noteq> [] \<or> over then [(current, over)] else [])"
| "bounded_lines fs (chunk # chunks) =
     (if chunk \<noteq> [] \<and> last chunk = CHR 0x0A
      then (case feed_piece (butlast chunk) fs of
          (current, n, over) \<Rightarrow> (current, over) # bounded_lines ([], 0, False) chunks)
      else bounded_lines (feed_piece chunk fs) chunks)"

definition start_frame :: frame_state where
  "start_frame = ([], 0, False)"

text \<open>The specification: the lines of the whole input, those over the limit replaced.\<close>

definition frame :: "string \<Rightarrow> string \<times> bool" where
  "frame s = (if utf8_len s > MAX_RAW_LINE_BYTES then ([], True) else (s, False))"

definition chunk_ok :: "string \<Rightarrow> bool" where
  "chunk_ok c \<longleftrightarrow> c \<noteq> [] \<and> CHR 0x0A \<notin> set (butlast c)"

text \<open>The lines of a text; a last line without a newline counts when it is not empty.\<close>

definition input_lines :: "string \<Rightarrow> string list" where
  "input_lines s = (let ps = split_on (CHR 0x0A) s
     in if last ps = [] then butlast ps else ps)"

definition frames_so_far :: "string \<Rightarrow> frame_state \<Rightarrow> bool" where
  "frames_so_far s fs \<longleftrightarrow>
     (case fs of (current, n, over) \<Rightarrow>
        (current, over) = frame s \<and> (\<not> over \<longrightarrow> n = utf8_len s))"

lemma frames_so_far_start: "frames_so_far [] start_frame"
  by (simp add: frames_so_far_def start_frame_def frame_def)

lemma frames_so_far_feed:
  "frames_so_far s fs \<Longrightarrow> frames_so_far (s @ piece) (feed_piece piece fs)"
  by (auto simp: frames_so_far_def feed_piece_def frame_def split: if_splits)

lemma input_lines_at:
  "CHR 0x0A \<notin> set xs \<Longrightarrow> input_lines (xs @ CHR 0x0A # ys) = xs # input_lines ys"
  by (simp add: input_lines_def split_on_at Let_def)

lemma bounded_lines_from:
  assumes "list_all chunk_ok chunks" and "frames_so_far s fs" and "CHR 0x0A \<notin> set s"
  shows "bounded_lines fs chunks = map frame (input_lines (s @ concat chunks))"
  using assms
proof (induction fs chunks arbitrary: s rule: bounded_lines.induct)
  case (1 current n over)
  then show ?case
    by (auto simp: input_lines_def split_on_no frames_so_far_def frame_def Let_def
        split: if_splits)
next
  case (2 fs chunk chunks)
  show ?case
  proof (cases "last chunk = CHR 0x0A")
    case True
    let ?p = "butlast chunk"
    have chunk: "chunk = ?p @ [CHR 0x0A]" and p: "CHR 0x0A \<notin> set ?p"
      using True 2(3) append_butlast_last_id [of chunk] by (auto simp: chunk_ok_def)
    obtain current n over where f: "feed_piece ?p fs = (current, n, over)" by (metis prod_cases3)
    have c: "chunk \<noteq> [] \<and> last chunk = CHR 0x0A" using True 2(3) by (simp add: chunk_ok_def)
    have "bounded_lines start_frame chunks = map frame (input_lines ([] @ concat chunks))"
      using 2(1) [OF c f [symmetric] refl, of "[]"] 2(3) frames_so_far_start
      by (simp add: start_frame_def)
    moreover have "frame (s @ ?p) = (current, over)"
      using frames_so_far_feed [OF 2(4), of ?p] f by (simp add: frames_so_far_def)
    moreover have "input_lines (s @ concat (chunk # chunks)) = (s @ ?p) # input_lines (concat chunks)"
      using input_lines_at [of "s @ ?p" "concat chunks"] 2(5) p
      by (subst chunk) simp
    ultimately show ?thesis using c f by (simp add: start_frame_def)
  next
    case False
    then have "CHR 0x0A \<notin> set chunk"
      using 2(3) append_butlast_last_id [of chunk]
      by (auto simp: chunk_ok_def) (metis in_set_conv_decomp in_set_butlast_appendI set_ConsD
          append_butlast_last_id rotate1.simps(2) set_rotate1)
    then show ?thesis
      using 2(2) [of "s @ chunk"] False 2(3) frames_so_far_feed [OF 2(4), of chunk] 2(5) by simp
  qed
qed

section \<open>What a decoded request contains\<close>

text \<open>Every object that \<open>json.loads\<close> built came out of \<open>object_pairs\<close>.\<close>

fun built :: "py_value \<Rightarrow> bool" where
  "built (PList xs) \<longleftrightarrow> list_all built xs"
| "built (PDict d) \<longleftrightarrow> ddistinct d \<and> length d \<le> MAX_OBJECT_MEMBERS \<and>
     list_all (\<lambda>(k, v). utf8_len k \<le> MAX_STRING_BYTES \<and> built v) d"
| "built _ \<longleftrightarrow> True"

lemma update_fresh: "map_of d k = None \<Longrightarrow> AList.update k v d = d @ [(k, v)]"
  by (induction d) (auto split: if_splits)

lemma object_loop_Inr:
  "object_loop ps vs = Inr d \<Longrightarrow> ddistinct vs \<Longrightarrow>
   d = vs @ ps \<and> ddistinct d \<and> list_all (\<lambda>(k, v). utf8_len k \<le> MAX_STRING_BYTES) ps"
proof (induction ps vs rule: object_loop.induct)
  case (2 k v ps vs)
  from 2(2) have k: "utf8_len k \<le> MAX_STRING_BYTES" "map_of vs k = None"
    and rest: "object_loop ps (vs @ [(k, v)]) = Inr d"
    by (auto simp: update_fresh split: if_splits)
  moreover have "ddistinct (vs @ [(k, v)])"
    using ddistinct_update [OF 2(3), of k v] k(2) by (simp only: update_fresh)
  ultimately show ?case using 2(1) by (auto simp: update_fresh)
qed simp

lemma object_pairs_Inr:
  "object_pairs ps = Inr d \<Longrightarrow> d = ps \<and> ddistinct d \<and> length d \<le> MAX_OBJECT_MEMBERS \<and>
     list_all (\<lambda>(k, v). utf8_len k \<le> MAX_STRING_BYTES) d"
  using object_loop_Inr [of ps "[]" d] by (auto simp: object_pairs_def split: if_splits)

lemma load_json_built: "load_json s = Inr v \<Longrightarrow> built v"
proof (induction s arbitrary: v rule: load_json.induct)
  case (7 xs)
  then obtain ys where ys: "emap load_json xs = Inr ys" "v = PList ys" by (auto simp: err_simps)
  have "built y" if "y \<in> set ys" for y
    using emap_preimage [OF ys(1) that] 7(1) by blast
  with ys(2) show ?case by (simp add: list_all_iff)
next
  case (8 d)
  then obtain ps vs where ps: "emap (\<lambda>(k, v). ebind (load_json v) (\<lambda>w. Inr (k, w))) d = Inr ps"
    and vs: "object_pairs ps = Inr vs" "v = PDict vs" by (auto simp: err_simps)
  have "built w" if "(k, w) \<in> set ps" for k w
    using emap_preimage [OF ps that] 8(1) by (fastforce simp: err_simps)
  with object_pairs_Inr [OF vs(1)] vs(2) show ?case by (auto simp: list_all_iff)
qed (auto simp: err_simps reject_non_finite_def)

text \<open>The bounds of a decoded JSON value: at most \<open>n\<close> levels, and the text, except at one path.\<close>

lemma size_snd_json [termination_simp]:
  "(i, v) \<in> set (zip [0 ..< length xs] xs) \<Longrightarrow> size (v :: json) < Suc (size_list size xs)"
  by (drule set_zip_rightD) (simp add: less_Suc_eq_le size_list_estimation')

fun bounded_json :: "bool \<Rightarrow> nat \<Rightarrow> value_path \<Rightarrow> json \<Rightarrow> bool" where
  "bounded_json allow n p (JStr s) \<longleftrightarrow> 0 < n \<and>
     (utf8_len s \<le> MAX_STRING_BYTES \<or> allow \<and> p = session_id_path)"
| "bounded_json allow n p (JList xs) \<longleftrightarrow> 0 < n \<and> length xs \<le> MAX_ARRAY_ITEMS \<and>
     list_all (\<lambda>(i, v). bounded_json allow (n - 1) (p @ [Inr i]) v) (zip [0 ..< length xs] xs)"
| "bounded_json allow n p (JObj d) \<longleftrightarrow> 0 < n \<and> ddistinct d \<and> length d \<le> MAX_OBJECT_MEMBERS \<and>
     list_all (\<lambda>(k, v). utf8_len k \<le> MAX_STRING_BYTES \<and> bounded_json allow (n - 1) (p @ [Inl k]) v) d"
| "bounded_json allow n p v \<longleftrightarrow> 0 < n"

lemma plain_bounded:
  "built v \<Longrightarrow> within_limits allow n p v \<Longrightarrow>
   bounded_json allow (Suc MAX_NESTING_DEPTH - n) p (plain v)"
proof (induction allow n p v rule: within_limits.induct)
  case (2 allow n p d)
  have "bounded_json allow (Suc MAX_NESTING_DEPTH - n - 1) (p @ [Inl k]) (plain v)"
    if "(k, v) \<in> set d" for k v
    using 2(1) [OF that refl] 2(2,3) that by (auto simp: list_all_iff)
  with 2(2,3) show ?case by (auto simp: list_all_iff ddistinct_def comp_def case_prod_unfold)
next
  case (3 allow n p xs)
  have "bounded_json allow (Suc MAX_NESTING_DEPTH - n - 1) (p @ [Inr i]) (plain v)"
    if "(i, v) \<in> set (zip [0 ..< length xs] xs)" for i v
    using 3(1) [OF that refl] 3(2,3) that set_zip_rightD [OF that] by (auto simp: list_all_iff)
  with 3(2,3) show ?case by (auto simp: zip_map2 list_all_iff)
next
  case (4 allow n p r)
  then show ?case by (cases r) auto
qed auto

lemma plain_dict: "plain (PDict d) = JObj (map (\<lambda>(k, v). (k, plain v)) d)"
  by simp

lemma request_id_of_Inr:
  "request_id_of vs = Inr (i, n) \<Longrightarrow> (n \<longleftrightarrow> map_of vs ''id'' = None) \<and> (n \<longrightarrow> i = None)"
  by (cases "map_of vs ''id''"; cases "the (map_of vs ''id'')")
    (auto simp: request_id_of_def split: if_splits)

lemma request_of_Inr:
  assumes "request_of vs = Inr rq"
  shows "JObj (rq_params rq) = dget_or vs ''params'' (JObj []) \<and> rq_method rq \<noteq> [] \<and>
    request_id_of vs = Inr (rq_id rq, rq_notification rq) \<and> dget vs ''method'' = JStr (rq_method rq)"
proof -
  obtain i n where i: "request_id_of vs = Inr (i, n)"
    using assms by (auto simp: request_of_def err_simps)
  with assms have "dget vs ''jsonrpc'' = JStr ''2.0''"
    by (auto simp: request_of_def split: if_splits)
  moreover with assms i obtain m where "dget vs ''method'' = JStr m" "m \<noteq> []"
    by (cases "dget vs ''method''") (auto simp: request_of_def split: if_splits)
  ultimately show ?thesis
    using assms i by (cases "dget_or vs ''params'' (JObj [])") (auto simp: request_of_def)
qed

lemma decode_request_Inr:
  assumes "decode_request scan raw_line = Inr rq"
  obtains d where "built (PDict d)"
    "within_limits (control_call (PDict d)) 1 [] (PDict d)"
    "request_of (map (\<lambda>(k, v). (k, plain v)) d) = Inr rq"
proof -
  let ?t = "remove_suffix (CHR 0x0D) (remove_suffix (CHR 0x0A) raw_line)"
  from assms obtain v where v: "load_json (scan ?t) = Inr v"
    and rest: "(case v of PDict d \<Rightarrow>
               ebind (emap_error structure_error (validate_structure v)) (\<lambda>_.
               request_of (map (\<lambda>(k, v). (k, plain v)) d))
           | _ \<Rightarrow> Inl (invalid_request None)) = Inr rq"
    by (auto simp: decode_request_def Let_def emap_error_def err_simps split: if_splits sum.splits)
  then obtain d where d: "v = PDict d" by (cases v) auto
  with rest have "validate_structure v = Inr ()"
    and rq: "request_of (map (\<lambda>(k, v). (k, plain v)) d) = Inr rq"
    by (auto simp: err_simps emap_error_def split: sum.splits)
  then have "within_limits (control_call v) 1 [] v"
    by (auto simp: validate_structure_def control_tool_shape validate_loop_within
        split: if_splits)
  with that load_json_built [OF v] d rq show ?thesis by blast
qed

lemma validate_structure_limits:
  "validate_structure v =
     (if unhashable_tool_name v then Inl StructureTypeError
      else if within_limits (control_call v) 1 [] v then Inr () else Inl StructureValueError)"
  by (simp add: validate_structure_def control_tool_shape validate_loop_within)

section \<open>Properties\<close>

text \<open>
  C27: validating a decoded message is the recursive limits: the work list of \<open>validate_structure\<close>
  accepts exactly the values in which no nesting level, array or string exceeds its limit and every
  float is finite (a control call may carry an oversized session id, which the authorization
  refuses later), and it always ends; except that a tool call whose name is an array or an object
  raises \<open>TypeError\<close>, because the name is looked up in a set.
\<close>

theorem validation_is_the_limits:
  "validate_structure v =
     (if unhashable_tool_name v then Inl StructureTypeError
      else if within_limits (control_call v) 1 [] v then Inr () else Inl StructureValueError)"
  by (rule validate_structure_limits)

text \<open>
  C28: the framing of the standard input refines a line-by-line specification: however
  \<open>readline\<close> cuts the input into chunks, the server sees every line in order, complete when it
  fits into the limit and as one empty over-limit frame when it does not, and nothing else.
\<close>

theorem framing_is_line_by_line:
  assumes "list_all chunk_ok chunks"
  shows "bounded_lines start_frame chunks = map frame (input_lines (concat chunks))"
  using bounded_lines_from [OF assms frames_so_far_start] by simp

theorem framing_is_line_by_line_witness:
  "bounded_lines start_frame [''ab'', ''c'' @ [CHR 0x0A], ''d''] = [(''abc'', False), (''d'', False)]"
  using framing_is_line_by_line [of "[''ab'', ''c'' @ [CHR 0x0A], ''d'']"]
  by (simp add: chunk_ok_def frame_def input_lines_def MAX_RAW_LINE_BYTES_def)

text \<open>
  What reaches the dispatcher is bounded: the parameters of every decoded request are
  dictionaries without repeated keys, of at most 128 members each, with at most 15 levels, arrays of
  at most 128 items and strings and member names of at most 65536 bytes (the session id of a control
  call apart); the method is not empty and a notification has no id.
\<close>

theorem decoded_request_bounded:
  assumes "decode_request scan raw_line = Inr rq"
  shows "bounded_json True (MAX_NESTING_DEPTH - 1) [Inl ''params''] (JObj (rq_params rq)) \<and>
    rq_method rq \<noteq> [] \<and> (rq_notification rq \<longrightarrow> rq_id rq = None)"
proof -
  from assms obtain d where b: "built (PDict d)"
    and w: "within_limits (control_call (PDict d)) 1 [] (PDict d)"
    and rq: "request_of (map (\<lambda>(k, v). (k, plain v)) d) = Inr rq" by (rule decode_request_Inr)
  have relax: "bounded_json allow n p j \<Longrightarrow> bounded_json True n p j" for allow n p j
    by (induction allow n p j rule: bounded_json.induct) (auto simp: list_all_iff)
  have "bounded_json (control_call (PDict d)) MAX_NESTING_DEPTH [] (plain (PDict d))"
    using plain_bounded [OF b w] by simp
  then have all: "bounded_json True (MAX_NESTING_DEPTH - 1) [Inl k] v"
    if "(k, v) \<in> set (map (\<lambda>(k, v). (k, plain v)) d)" for k v
    using that relax [of "control_call (PDict d)" "MAX_NESTING_DEPTH - 1" "[Inl k]" v]
    unfolding plain_dict by (auto simp: list_all_iff)
  let ?vs = "map (\<lambda>(k, v). (k, plain v)) d"
  have empty: "bounded_json True (MAX_NESTING_DEPTH - 1) p (JObj [])" for p
    by (simp add: MAX_NESTING_DEPTH_def)
  have "bounded_json True (MAX_NESTING_DEPTH - 1) [Inl ''params''] (dget_or ?vs ''params'' (JObj []))"
  proof (cases "map_of ?vs ''params''")
    case None
    then show ?thesis using empty by (simp add: dget_or_def)
  next
    case (Some v)
    then show ?thesis using all [OF map_of_SomeD] by (simp add: dget_or_def)
  qed
  then have "bounded_json True (MAX_NESTING_DEPTH - 1) [Inl ''params''] (JObj (rq_params rq))"
    using request_of_Inr [OF rq] by (simp del: bounded_json.simps)
  with request_of_Inr [OF rq] request_id_of_Inr show ?thesis by blast
qed

definition ex_scan :: "string \<Rightarrow> scanned" where
  "ex_scan s =
     (if s = ''ping'' then SObject [(''jsonrpc'', SStr ''2.0''), (''id'', SInt ''7''),
        (''method'', SStr ''ping''), (''params'', SObject [(''k'', SList [SNull])])]
      else SBroken [] (JSONDecodeError ''Expecting value''))"

lemma ex_decode: "decode_request ex_scan (''ping'' @ [CHR 0x0A]) =
  Inr \<lparr>rq_method = ''ping'', rq_params = [(''k'', JList [JNull])], rq_id = Some (IntId 7),
    rq_notification = False\<rparr>"
  by (simp add: decode_request_def ex_scan_def remove_suffix_def MAX_RAW_LINE_BYTES_def
      parse_int_def py_int_def INT_MAX_STR_DIGITS_def object_pairs_def MAX_OBJECT_MEMBERS_def
      MAX_STRING_BYTES_def emap_error_def validate_structure_limits unhashable_tool_name_def
      MAX_NESTING_DEPTH_def MAX_ARRAY_ITEMS_def request_of_def request_id_of_def
      nat_of_digits_def digit_value_def Let_def)

theorem decoded_request_bounded_witness:
  "bounded_json True 15 [Inl ''params''] (JObj [(''k'', JList [JNull])])"
  using decoded_request_bounded [OF ex_decode] by (simp add: MAX_NESTING_DEPTH_def)

end
