(* ===== verification/Calibration.thy ===== *)
theory Calibration
  imports EventSource StateStore Durations
begin

text \<open>
  \<open>scripts/calibration.py\<close>, \<open>calibration_scan.py\<close> and \<open>calibration_state.py\<close>: threshold
  recommendations from the gaps between progress events in recent rollouts, and the one persisted
  decision per plugin version. Percentiles and minutes are exact (the floating-point
  \<open>ceil(0.95 * n)\<close> and \<open>ceil(0.99 * n)\<close> agree with the exact ceilings for every n below 2000000).
  UTF-8 and JSON decoding of a line is a parameter, as are the directory listing and the file
  contents; the operation lock is one of the locks of the environment.
\<close>

section \<open>Recommendation\<close>

definition MIN_SAMPLE_COUNT :: nat where
  "MIN_SAMPLE_COUNT = 20"

datatype calibration_status = CAL_PENDING | CAL_ACCEPTED | CAL_REJECTED | CAL_INSUFFICIENT | CAL_UNAVAILABLE

datatype calibration_outcome =
    CalibrationRecommendation nat int int
  | CalibrationInsufficient nat
  | CalibrationUnavailable string

text \<open>\<open>_nearest_rank(values, p / 100)\<close>.\<close>

definition nearest_rank :: "time list \<Rightarrow> nat \<Rightarrow> time" where
  "nearest_rank vs p = vs ! nat (max 0 (\<lceil>real (p * length vs) / 100\<rceil> - 1))"

definition rounded_minute :: "time \<Rightarrow> int" where
  "rounded_minute seconds = max 60 (\<lceil>seconds / 60\<rceil> * 60)"

definition recommend_thresholds :: "time list \<Rightarrow> calibration_outcome" where
  "recommend_thresholds gaps =
     (let sample_count = length gaps
      in if sample_count < MIN_SAMPLE_COUNT then CalibrationInsufficient sample_count
         else
           let seconds = sort gaps
           in if list_ex (\<lambda>v. v \<le> 0) seconds
              then CalibrationUnavailable ''nonpositive_progress_gap''
              else
                let warning_seconds = rounded_minute (nearest_rank seconds 95);
                    restart_seconds = rounded_minute
                      (max (nearest_rank seconds 99) (of_int (warning_seconds * 2)))
                in CalibrationRecommendation sample_count (warning_seconds * 1000)
                     (restart_seconds * 1000))"

section \<open>Progress gaps of one rollout\<close>

record gap_tracker =
  gt_gaps :: "time list"
  gt_active :: bool
  gt_open_tools :: nat
  gt_last_progress :: "time option"

definition new_tracker :: gap_tracker where
  "new_tracker = \<lparr>gt_gaps = [], gt_active = False, gt_open_tools = 0, gt_last_progress = None\<rparr>"

definition append_gap :: "time list \<Rightarrow> time option \<Rightarrow> time \<Rightarrow> time list" where
  "append_gap gaps previous current =
     (case previous of
        None \<Rightarrow> gaps
      | Some p \<Rightarrow> if current \<le> p then gaps else gaps @ [current - p])"

definition gap_start_turn :: "time \<Rightarrow> gap_tracker \<Rightarrow> gap_tracker" where
  "gap_start_turn t g = g\<lparr>gt_active := True, gt_open_tools := 0, gt_last_progress := Some t\<rparr>"

definition gap_end_turn :: "gap_tracker \<Rightarrow> gap_tracker" where
  "gap_end_turn g = g\<lparr>gt_active := False, gt_open_tools := 0, gt_last_progress := None\<rparr>"

definition gap_start_tool :: "time \<Rightarrow> gap_tracker \<Rightarrow> gap_tracker" where
  "gap_start_tool t g =
     (if \<not> gt_active g then g
      else g\<lparr>gt_gaps := (if gt_open_tools g = 0
                          then append_gap (gt_gaps g) (gt_last_progress g) t else gt_gaps g),
             gt_open_tools := gt_open_tools g + 1, gt_last_progress := None\<rparr>)"

definition gap_progress :: "time \<Rightarrow> gap_tracker \<Rightarrow> gap_tracker" where
  "gap_progress t g =
     (if gt_active g \<and> gt_open_tools g = 0
      then g\<lparr>gt_gaps := append_gap (gt_gaps g) (gt_last_progress g) t,
             gt_last_progress := Some t\<rparr>
      else g)"

definition gap_finish_tool :: "time \<Rightarrow> gap_tracker \<Rightarrow> gap_tracker" where
  "gap_finish_tool t g =
     (if \<not> gt_active g then g
      else if gt_open_tools g > 0
      then g\<lparr>gt_open_tools := gt_open_tools g - 1,
             gt_last_progress :=
               (if gt_open_tools g - 1 = 0 then Some t else gt_last_progress g)\<rparr>
      else gap_progress t g)"

definition gap_observe :: "observed_event \<Rightarrow> gap_tracker \<Rightarrow> gap_tracker" where
  "gap_observe e g =
     (case kind e of
        SESSION_METADATA \<Rightarrow> g
      | TURN_STARTED \<Rightarrow> gap_start_turn (occurred_at e) g
      | TURN_COMPLETED \<Rightarrow> gap_end_turn g
      | TURN_ABORTED \<Rightarrow> gap_end_turn g
      | TOOL_STARTED \<Rightarrow> gap_start_tool (occurred_at e) g
      | TOOL_RESULT_EVENT \<Rightarrow> gap_finish_tool (occurred_at e) g
      | ITEM_EVENT \<Rightarrow> gap_progress (occurred_at e) g
      | DELTA_EVENT \<Rightarrow> gap_progress (occurred_at e) g)"

section \<open>Bounded reading of a rollout\<close>

record scan_limits =
  sl_lookback :: time
  sl_max_files :: nat
  sl_max_total_bytes :: nat
  sl_max_file_bytes :: nat

definition DEFAULT_SCAN_LIMITS :: scan_limits where
  "DEFAULT_SCAN_LIMITS = \<lparr>sl_lookback = 2592000, sl_max_files = 100,
     sl_max_total_bytes = 67108864, sl_max_file_bytes = 8388608\<rparr>"

definition MAX_LINE_BYTES :: nat where
  "MAX_LINE_BYTES = 8388608"

text \<open>
  A \<open>*.jsonl\<close> file as the listing finds it; opening it gives its bytes or raises the named
  \<open>OSError\<close>. The decoder of a line gives a value or raises the named exception.
\<close>

record history_file =
  hf_mtime :: time
  hf_regular :: bool
  hf_links :: nat
  hf_redirected :: bool
  hf_size :: nat
  hf_bytes :: "string + string"

type_synonym line_decoder = "string \<Rightarrow> string + json"

definition readline :: "nat \<Rightarrow> string \<Rightarrow> string" where
  "readline n bs = take (min n (Suc (length (takeWhile (\<lambda>c. c \<noteq> CHR 0x0A) bs)))) bs"

function tail_loop :: "line_decoder \<Rightarrow> string \<Rightarrow> string + dict list" where
  "tail_loop decode bs =
     (let l = readline (MAX_LINE_BYTES + 1) bs
      in if bs = [] then Inr []
         else if length l > MAX_LINE_BYTES then Inl ''JSONDecodeError''
         else if last l \<noteq> CHR 0x0A then Inr []
         else ebind (decode l) (\<lambda>v.
           ebind (tail_loop decode (drop (length l) bs)) (\<lambda>rest.
           Inr (case v of JObj d \<Rightarrow> d # rest | _ \<Rightarrow> rest))))"
  by pat_completeness auto
termination
  by (relation "measure (\<lambda>(_, bs). length bs)") (auto simp: readline_def)

declare tail_loop.simps [simp del]

definition tail_records :: "line_decoder \<Rightarrow> string \<Rightarrow> nat \<Rightarrow> string + dict list" where
  "tail_records decode bs byte_limit =
     (let start = length bs - byte_limit;
          rest = drop start bs
      in tail_loop decode
           (if start \<noteq> 0 then drop (length (readline (MAX_LINE_BYTES + 1) rest)) rest else rest))"

definition progress_gaps ::
  "line_decoder \<Rightarrow> (string \<Rightarrow> time option) \<Rightarrow> history_file \<Rightarrow> nat \<Rightarrow> string + time list" where
  "progress_gaps decode isoparse f byte_limit =
     ebind (hf_bytes f) (\<lambda>bs.
     ebind (tail_records decode bs byte_limit) (\<lambda>records.
     Inr (gt_gaps (fold gap_observe (List.map_filter (parse_rollout_event isoparse) records)
       new_tracker))))"

definition recent_rollouts :: "history_file list \<Rightarrow> time \<Rightarrow> scan_limits \<Rightarrow> history_file list" where
  "recent_rollouts listing now limits =
     take (sl_max_files limits) (sort_key (\<lambda>f. - hf_mtime f)
       (filter (\<lambda>f. hf_regular f \<and> hf_links f = 1 \<and> hf_mtime f \<ge> now - sl_lookback limits \<and>
          \<not> hf_redirected f) listing))"

definition byte_limit_of :: "scan_limits \<Rightarrow> history_file \<Rightarrow> nat \<Rightarrow> nat" where
  "byte_limit_of limits f remaining = min (hf_size f) (min (sl_max_file_bytes limits) remaining)"

fun scan_files ::
  "line_decoder \<Rightarrow> (string \<Rightarrow> time option) \<Rightarrow> scan_limits \<Rightarrow> history_file list \<Rightarrow> nat \<Rightarrow>
   time list \<Rightarrow> string + time list" where
  "scan_files decode isoparse limits [] remaining gaps = Inr gaps"
| "scan_files decode isoparse limits (f # fs) remaining gaps =
     (let byte_limit = byte_limit_of limits f remaining
      in if byte_limit = 0 then Inr gaps
         else ebind (progress_gaps decode isoparse f byte_limit) (\<lambda>g.
           scan_files decode isoparse limits fs (remaining - byte_limit) (gaps @ g)))"

definition scan_history ::
  "line_decoder \<Rightarrow> (string \<Rightarrow> time option) \<Rightarrow> history_file list \<Rightarrow> time \<Rightarrow> scan_limits \<Rightarrow>
   calibration_outcome" where
  "scan_history decode isoparse listing now limits =
     (case scan_files decode isoparse limits (recent_rollouts listing now limits)
             (sl_max_total_bytes limits) [] of
        Inl name \<Rightarrow> CalibrationUnavailable name
      | Inr gaps \<Rightarrow> recommend_thresholds gaps)"

section \<open>The persisted decision\<close>

record calibration_snapshot =
  cs_version :: string
  cs_status :: calibration_status
  cs_samples :: int
  cs_warning :: "int option"
  cs_restart :: "int option"
  cs_reason :: "string option"
  cs_announce :: bool

fun status_text :: "calibration_status \<Rightarrow> string" where
  "status_text CAL_PENDING = ''pending''"
| "status_text CAL_ACCEPTED = ''accepted''"
| "status_text CAL_REJECTED = ''rejected''"
| "status_text CAL_INSUFFICIENT = ''insufficient''"
| "status_text CAL_UNAVAILABLE = ''unavailable''"

definition status_of :: "string \<Rightarrow> calibration_status option" where
  "status_of s = List.find (\<lambda>c. status_text c = s)
     [CAL_PENDING, CAL_ACCEPTED, CAL_REJECTED, CAL_INSUFFICIENT, CAL_UNAVAILABLE]"

lemma status_of_text [simp]: "status_of (status_text c) = Some c"
  by (cases c) (simp_all add: status_of_def)

fun snapshot_from_outcome :: "string \<Rightarrow> calibration_outcome \<Rightarrow> calibration_snapshot" where
  "snapshot_from_outcome v (CalibrationRecommendation n w r) =
     \<lparr>cs_version = v, cs_status = CAL_PENDING, cs_samples = int n, cs_warning = Some w,
      cs_restart = Some r, cs_reason = None, cs_announce = True\<rparr>"
| "snapshot_from_outcome v (CalibrationInsufficient n) =
     \<lparr>cs_version = v, cs_status = CAL_INSUFFICIENT, cs_samples = int n, cs_warning = None,
      cs_restart = None, cs_reason = None, cs_announce = True\<rparr>"
| "snapshot_from_outcome v (CalibrationUnavailable reason_code) =
     \<lparr>cs_version = v, cs_status = CAL_UNAVAILABLE, cs_samples = 0, cs_warning = None,
      cs_restart = None, cs_reason = Some reason_code, cs_announce = True\<rparr>"

definition calibration_path :: "path \<Rightarrow> path" where
  "calibration_path home = home @ [''calibration.json'']"

definition operation_path :: "path \<Rightarrow> path" where
  "operation_path home = home @ [''calibration-operation'']"

definition int_or_null :: "int option \<Rightarrow> json" where
  "int_or_null i = (case i of None \<Rightarrow> JNull | Some x \<Rightarrow> JInt x)"

definition str_or_null :: "string option \<Rightarrow> json" where
  "str_or_null s = (case s of None \<Rightarrow> JNull | Some x \<Rightarrow> JStr x)"

definition snapshot_values :: "calibration_snapshot \<Rightarrow> dict" where
  "snapshot_values c =
     [(''plugin_version'', JStr (cs_version c)), (''status'', JStr (status_text (cs_status c))),
      (''sample_count'', JInt (cs_samples c)), (''warning_after_ms'', int_or_null (cs_warning c)),
      (''restart_after_ms'', int_or_null (cs_restart c)), (''reason_code'', str_or_null (cs_reason c))]"

definition save_snapshot ::
  "fs_env \<Rightarrow> path \<Rightarrow> calibration_snapshot \<Rightarrow> store \<Rightarrow> exn + store" where
  "save_snapshot env home c st =
     save_state env home (calibration_path home) (snapshot_values c) SCHEMA_VERSION st"

text \<open>A number or \<open>null\<close>, a text or \<open>null\<close>.\<close>

fun optional_ms :: "json \<Rightarrow> int option option" where
  "optional_ms JNull = Some None"
| "optional_ms (JInt i) = Some (Some i)"
| "optional_ms _ = None"

fun optional_text :: "json \<Rightarrow> string option option" where
  "optional_text JNull = Some None"
| "optional_text (JStr s) = Some (Some s)"
| "optional_text _ = None"

definition snapshot_of_values :: "path \<Rightarrow> dict \<Rightarrow> exn + calibration_snapshot" where
  "snapshot_of_values p vals =
     (case (dget vals ''plugin_version'', dget vals ''status'', dget vals ''sample_count'',
            optional_ms (dget vals ''warning_after_ms''), optional_ms (dget vals ''restart_after_ms''),
            optional_text (dget vals ''reason_code'')) of
        (JStr v, JStr s, JInt n, Some w, Some r, Some reason_code) \<Rightarrow>
          if n < 0 then Inl (CorruptStateError p INVALID_VALUE)
          else (case status_of s of
              None \<Rightarrow> Inl (CorruptStateError p INVALID_VALUE)
            | Some c \<Rightarrow> Inr \<lparr>cs_version = v, cs_status = c, cs_samples = n, cs_warning = w,
                cs_restart = r, cs_reason = reason_code, cs_announce = False\<rparr>)
      | _ \<Rightarrow> Inl (CorruptStateError p INVALID_VALUE))"

definition load_snapshot :: "fs_env \<Rightarrow> path \<Rightarrow> store \<Rightarrow> exn + calibration_snapshot" where
  "load_snapshot env home st =
     ebind (load_state env home (calibration_path home) st)
       (snapshot_of_values (calibration_path home))"

definition load_calibration_snapshot ::
  "fs_env \<Rightarrow> path \<Rightarrow> store \<Rightarrow> exn + calibration_snapshot option" where
  "load_calibration_snapshot env home st =
     (if \<not> is_file st (abspath (calibration_path home)) then Inr None
      else ebind (load_snapshot env home st) (\<lambda>c. Inr (Some c)))"

text \<open>The manifest \<open>.codex-plugin/plugin.json\<close>, \<open>None\<close> when it cannot be read or decoded.\<close>

definition plugin_version :: "path \<Rightarrow> json option \<Rightarrow> exn + string" where
  "plugin_version p manifest =
     (case manifest of
        None \<Rightarrow> Inl (CalibrationStateError p ''plugin_manifest_unreadable'')
      | Some (JObj d) \<Rightarrow>
          (case dget d ''version'' of
             JStr v \<Rightarrow> if v = [] then Inl (CalibrationStateError p ''plugin_version_missing'') else Inr v
           | _ \<Rightarrow> Inl (CalibrationStateError p ''plugin_version_missing''))
      | Some _ \<Rightarrow> Inl (CalibrationStateError p ''plugin_manifest_invalid''))"

text \<open>The scanner runs only when its outcome is needed: \<open>scan\<close> is the suspended call.\<close>

definition load_or_calibrate ::
  "fs_env \<Rightarrow> path \<Rightarrow> path \<Rightarrow> json option \<Rightarrow> (unit \<Rightarrow> calibration_outcome) \<Rightarrow> store \<Rightarrow>
   exn + calibration_snapshot \<times> store" where
  "load_or_calibrate env home plugin_file manifest scan st =
     (if lock_busy env (abspath (operation_path home)) then Inl (StateLockTimeoutError (operation_path home))
      else ebind (plugin_version plugin_file manifest) (\<lambda>v.
        ebind (if is_file st (abspath (calibration_path home))
               then ebind (load_snapshot env home st) (\<lambda>c.
                 Inr (if cs_version c = v then Some c else None))
               else Inr None) (\<lambda>stored.
        case stored of
          Some c \<Rightarrow> Inr (c, st)
        | None \<Rightarrow>
            let c = snapshot_from_outcome v (scan ())
            in ebind (save_snapshot env home c st) (\<lambda>st'. Inr (c, st')))))"

datatype calibration_decision = ACCEPT | REJECT

fun decided_status :: "calibration_decision \<Rightarrow> calibration_status" where
  "decided_status ACCEPT = CAL_ACCEPTED"
| "decided_status REJECT = CAL_REJECTED"

definition record_decision ::
  "fs_env \<Rightarrow> path \<Rightarrow> string \<Rightarrow> calibration_decision \<Rightarrow> store \<Rightarrow>
   exn + calibration_snapshot \<times> store" where
  "record_decision env home v d st =
     (if lock_busy env (abspath (operation_path home)) then Inl (StateLockTimeoutError (operation_path home))
      else ebind (load_snapshot env home st) (\<lambda>c.
        if cs_version c \<noteq> v
        then Inl (CalibrationStateError (calibration_path home) ''plugin_version_changed'')
        else if cs_status c \<noteq> CAL_PENDING
        then Inl (CalibrationStateError (calibration_path home) ''recommendation_not_pending'')
        else
          let decided = c\<lparr>cs_status := decided_status d, cs_reason := None, cs_announce := False\<rparr>
          in ebind (save_snapshot env home decided st) (\<lambda>st'. Inr (decided, st'))))"

section \<open>Lemmas: gaps and percentiles\<close>

definition positive :: "time list \<Rightarrow> bool" where
  "positive gaps \<longleftrightarrow> (\<forall>g \<in> set gaps. 0 < g)"

lemma append_gap_positive [inv_intros]: "positive gaps \<Longrightarrow> positive (append_gap gaps p t)"
  by (auto simp: positive_def append_gap_def split: option.splits)

abbreviation positive_gaps :: "gap_tracker \<Rightarrow> bool" where
  "positive_gaps g \<equiv> positive (gt_gaps g)"

lemma gap_steps_positive [inv_intros]:
  assumes "positive_gaps g"
  shows "positive_gaps (gap_start_turn t g)" and "positive_gaps (gap_end_turn g)"
    and "positive_gaps (gap_start_tool t g)" and "positive_gaps (gap_progress t g)"
    and "positive_gaps (gap_finish_tool t g)"
  using assms by (simp_all add: append_gap_positive gap_start_turn_def gap_end_turn_def
      gap_start_tool_def gap_progress_def gap_finish_tool_def)

lemma gap_observe_positive: "positive_gaps g \<Longrightarrow> positive_gaps (gap_observe e g)"
  by (cases "kind e"; simp only: gap_observe_def event_kind.case; intro inv_intros; assumption)

lemma progress_gaps_positive:
  assumes "progress_gaps decode isoparse f n = Inr gaps"
  shows "positive gaps"
proof -
  have "positive_gaps (fold gap_observe es g)" if "positive_gaps g" for es g
    using that by (induction es arbitrary: g) (simp_all add: gap_observe_positive)
  from this [of new_tracker] assms show ?thesis
    by (auto simp: progress_gaps_def err_simps new_tracker_def positive_def)
qed

lemma scan_files_positive:
  "scan_files decode isoparse limits fs remaining gaps = Inr all \<Longrightarrow> positive gaps \<Longrightarrow> positive all"
proof (induction decode isoparse limits fs remaining gaps rule: scan_files.induct)
  case (2 decode isoparse limits f fs remaining gaps)
  show ?case
  proof (cases "byte_limit_of limits f remaining = 0")
    case False
    with 2(2) obtain g where g: "progress_gaps decode isoparse f (byte_limit_of limits f remaining) = Inr g"
      and rest: "scan_files decode isoparse limits fs (remaining - byte_limit_of limits f remaining)
        (gaps @ g) = Inr all" by (auto simp: Let_def err_simps)
    from 2(1) [OF refl False g rest] progress_gaps_positive [OF g] 2(3) show ?thesis
      by (auto simp: positive_def)
  qed (use 2 in auto)
qed simp

lemma sorted_at_most:
  assumes "sorted vs" and "i < length vs"
  shows "Suc i \<le> length (filter (\<lambda>x. x \<le> vs ! i) (vs :: time list))"
proof -
  have "\<forall>x \<in> set (take (Suc i) vs). x \<le> vs ! i"
    using assms by (auto simp: in_set_conv_nth sorted_iff_nth_mono)
  then have "filter (\<lambda>x. x \<le> vs ! i) (take (Suc i) vs) = take (Suc i) vs" by simp
  moreover have "length (filter P (take (Suc i) vs)) \<le> length (filter P vs)" for P
    by (metis append_take_drop_id filter_append le_add1 length_append)
  ultimately show ?thesis using assms(2) by (metis Suc_leI length_take min.absorb2)
qed

lemma length_filter_mono: "(\<And>x. P x \<Longrightarrow> Q x) \<Longrightarrow> length (filter P xs) \<le> length (filter Q xs)"
  by (induction xs) auto

lemma length_filter_sort: "length (filter P (sort xs)) = length (filter P (xs :: time list))"
  by (metis mset_filter mset_sort size_mset)

text \<open>At least \<open>p\<close> percent of the values are at most the nearest rank, which is one of them.\<close>

lemma nearest_rank_covers:
  assumes "vs \<noteq> []" and "p \<le> 100" and "nearest_rank (sort vs) p \<le> b"
  shows "p * length vs \<le> 100 * length (filter (\<lambda>x. x \<le> b) vs)"
proof -
  let ?i = "nat (max 0 (\<lceil>real (p * length vs) / 100\<rceil> - 1))"
  have "real (p * length vs) / 100 \<le> real (length vs)"
    using assms(2) mult_right_mono [of "real p" 100 "real (length vs)"] by (simp add: divide_le_eq)
  then have "\<lceil>real (p * length vs) / 100\<rceil> \<le> int (length vs)" by (simp add: ceiling_le_iff)
  moreover have "0 < length vs" using assms(1) by simp
  ultimately have i: "?i < length (sort vs)" unfolding length_sort by linarith
  have "real (p * length vs) / 100 \<le> of_int \<lceil>real (p * length vs) / 100\<rceil>" by simp
  also have "\<lceil>real (p * length vs) / 100\<rceil> \<le> int (Suc ?i)" by linarith
  finally have "real (p * length vs) / 100 \<le> real (Suc ?i)" by simp
  then have "real (p * length vs) \<le> real (100 * Suc ?i)" by (simp only: divide_le_eq) simp
  then have "p * length vs \<le> 100 * Suc ?i" by (simp only: of_nat_le_iff)
  also have "Suc ?i \<le> length (filter (\<lambda>x. x \<le> sort vs ! ?i) (sort vs))"
    using sorted_at_most [OF sorted_sort i] by simp
  also have "\<dots> \<le> length (filter (\<lambda>x. x \<le> b) (sort vs))"
    using assms(3) unfolding nearest_rank_def length_sort
    by (intro length_filter_mono) auto
  finally show ?thesis by (simp add: length_filter_sort)
qed

lemma rounded_minute_props:
  "seconds \<le> of_int (rounded_minute seconds)" "60 dvd rounded_minute seconds"
  "60 \<le> rounded_minute seconds"
proof -
  have "seconds / 60 \<le> of_int \<lceil>seconds / 60\<rceil>" by simp
  then have "seconds \<le> of_int (\<lceil>seconds / 60\<rceil> * 60)"
    by (simp only: divide_le_eq) simp
  also have "\<dots> \<le> of_int (rounded_minute seconds)"
    unfolding rounded_minute_def of_int_le_iff by simp
  finally show "seconds \<le> of_int (rounded_minute seconds)" .
  show "60 dvd rounded_minute seconds" by (simp add: rounded_minute_def max_def)
  show "60 \<le> rounded_minute seconds" by (simp add: rounded_minute_def)
qed

text \<open>What a recommendation promises about the gaps it was computed from.\<close>

definition sound_outcome :: "time list \<Rightarrow> calibration_outcome \<Rightarrow> bool" where
  "sound_outcome gaps oc =
     (case oc of
        CalibrationRecommendation n w r \<Rightarrow>
          n = length gaps \<and> 20 \<le> n \<and>
          validate_thresholds w r = Inr \<lparr>warning_after_ms = w, restart_after_ms = r\<rparr> \<and>
          60000 dvd w \<and> 60000 dvd r \<and> 2 * w \<le> r \<and>
          95 * n \<le> 100 * length (filter (\<lambda>g. g * 1000 \<le> of_int w) gaps) \<and>
          99 * n \<le> 100 * length (filter (\<lambda>g. g * 1000 \<le> of_int r) gaps)
      | CalibrationInsufficient n \<Rightarrow> n = length gaps \<and> n < 20
      | CalibrationUnavailable _ \<Rightarrow> False)"

lemma covers_ms:
  assumes "gaps \<noteq> []" and "p \<le> 100" and "nearest_rank (sort gaps) p \<le> of_int b"
  shows "p * length gaps \<le> 100 * length (filter (\<lambda>g. g * 1000 \<le> of_int (b * 1000)) gaps)"
  using nearest_rank_covers [OF assms] by simp

lemma recommend_sound:
  assumes "positive gaps"
  shows "sound_outcome gaps (recommend_thresholds gaps)"
proof (cases "length gaps < 20")
  case True
  then show ?thesis by (simp add: recommend_thresholds_def sound_outcome_def MIN_SAMPLE_COUNT_def)
next
  case False
  then have ne: "gaps \<noteq> []" by auto
  let ?w = "rounded_minute (nearest_rank (sort gaps) 95)"
  let ?r = "rounded_minute (max (nearest_rank (sort gaps) 99) (of_int (?w * 2)))"
  have "\<not> list_ex (\<lambda>v. v \<le> 0) (sort gaps)"
    using assms by (auto simp: list_ex_iff positive_def)
  then have rec: "recommend_thresholds gaps =
      CalibrationRecommendation (length gaps) (?w * 1000) (?r * 1000)"
    using False by (simp add: recommend_thresholds_def MIN_SAMPLE_COUNT_def Let_def)
  have r: "max (nearest_rank (sort gaps) 99) (of_int (?w * 2)) \<le> of_int ?r"
    by (rule rounded_minute_props)
  then have "of_int (?w * 2) \<le> (of_int ?r :: real)" by simp
  then have twice: "2 * ?w \<le> ?r" unfolding of_int_le_iff by simp
  have "60 \<le> ?w" by (rule rounded_minute_props)
  with twice have "validate_thresholds (?w * 1000) (?r * 1000) =
      Inr \<lparr>warning_after_ms = ?w * 1000, restart_after_ms = ?r * 1000\<rparr>"
    by (simp add: validate_thresholds_Inr)
  moreover have "60000 dvd ?w * 1000" "60000 dvd ?r * 1000"
    using rounded_minute_props(2) mult_dvd_mono [of 60 _ 1000 "1000 :: int"] by force+
  moreover have "95 * length gaps \<le> 100 * length (filter (\<lambda>g. g * 1000 \<le> of_int (?w * 1000)) gaps)"
    by (rule covers_ms [OF ne]) (simp_all add: rounded_minute_props)
  moreover have "99 * length gaps \<le> 100 * length (filter (\<lambda>g. g * 1000 \<le> of_int (?r * 1000)) gaps)"
    by (rule covers_ms [OF ne]) (use r in simp_all)
  ultimately show ?thesis
    using False twice by (simp add: rec sound_outcome_def)
qed

section \<open>Lemmas: the persisted snapshot\<close>

lemma wf_snapshot_values: "wf_json (JObj (snapshot_values c))"
  by (simp add: snapshot_values_def int_or_null_def str_or_null_def ddistinct_def
      split: option.splits)

lemma optional_round_trip [simp]:
  "optional_ms (jsort (int_or_null i)) = Some i" "optional_text (jsort (str_or_null s)) = Some s"
  by (simp_all add: int_or_null_def str_or_null_def split: option.splits)

lemma load_saved_snapshot:
  assumes "save_snapshot env home c st = Inr st'" and "0 \<le> cs_samples c"
  shows "load_snapshot env home st' = Inr (c\<lparr>cs_announce := False\<rparr>)"
proof -
  from save_then_load [OF assms(1) [unfolded save_snapshot_def] wf_snapshot_values] obtain d
    where d: "load_state env home (calibration_path home) st' = Inr d"
      "\<forall>k. map_of d k = map_option jsort (map_of (snapshot_values c) k)" by blast
  then have "dget d ''plugin_version'' = JStr (cs_version c)"
    "dget d ''status'' = JStr (status_text (cs_status c))"
    "dget d ''sample_count'' = JInt (cs_samples c)"
    "dget d ''warning_after_ms'' = jsort (int_or_null (cs_warning c))"
    "dget d ''restart_after_ms'' = jsort (int_or_null (cs_restart c))"
    "dget d ''reason_code'' = jsort (str_or_null (cs_reason c))"
    by (simp_all add: dget_def snapshot_values_def)
  with d(1) assms(2) show ?thesis
    by (simp add: load_snapshot_def snapshot_of_values_def)
qed

lemma loaded_samples:
  assumes "load_snapshot env home st = Inr c"
  shows "0 \<le> cs_samples c \<and> \<not> cs_announce c"
proof -
  from assms obtain d where "snapshot_of_values (calibration_path home) d = Inr c"
    by (auto simp: load_snapshot_def err_simps)
  then show ?thesis
    by (cases "dget d ''plugin_version''"; simp add: snapshot_of_values_def;
        cases "dget d ''status''"; simp; cases "dget d ''sample_count''"; simp)
      (auto split: option.splits if_splits)
qed

lemma saved_snapshot_file:
  "save_snapshot env home c st = Inr st' \<Longrightarrow> is_file st' (abspath (calibration_path home))"
  unfolding save_snapshot_def by (rule saved_file)

lemma outcome_samples: "0 \<le> cs_samples (snapshot_from_outcome v oc)"
  by (cases oc) simp_all

section \<open>Properties\<close>

text \<open>
  A recommendation is usable and means what it says: thresholds computed from scanned rollouts
  are whole minutes that threshold validation accepts, the critical one at least twice the warning;
  at least 95 percent of the progress gaps were no longer than the warning threshold and 99 percent
  no longer than the critical one. The gaps of a scan are positive, so the outcome for non-positive
  gaps cannot occur.
\<close>

theorem recommendation_sound:
  assumes "scan_files decode isoparse limits (recent_rollouts listing now limits)
    (sl_max_total_bytes limits) [] = Inr gaps"
  shows "sound_outcome gaps (scan_history decode isoparse listing now limits)"
proof -
  have "positive gaps"
    by (rule scan_files_positive [OF assms]) (simp add: positive_def)
  then show ?thesis using assms by (simp add: scan_history_def recommend_sound)
qed

definition ex_line :: "string \<Rightarrow> string + json" where
  "ex_line l = Inr (JObj
     [(''type'', JStr ''event_msg''), (''timestamp'', JStr (butlast l @ ''Z'')),
      (''payload'', JObj [(''type'', JStr (if l = ''a'' @ [CHR 0x0A] then ''task_started''
         else ''agent_message_delta''))])])"

definition ex_iso :: "string \<Rightarrow> time option" where
  "ex_iso s = Some (if s = ''a+00:00'' then 10 else 75)"

definition ex_history :: "history_file list" where
  "ex_history = [\<lparr>hf_mtime = 5, hf_regular = True, hf_links = 1, hf_redirected = False, hf_size = 4,
     hf_bytes = Inr (''a'' @ [CHR 0x0A] @ ''b'' @ [CHR 0x0A])\<rparr>]"

lemma ex_scanned: "scan_files ex_line ex_iso DEFAULT_SCAN_LIMITS
  (recent_rollouts ex_history 5 DEFAULT_SCAN_LIMITS) (sl_max_total_bytes DEFAULT_SCAN_LIMITS) [] =
  Inr [65]"
  by (simp add: ex_history_def recent_rollouts_def DEFAULT_SCAN_LIMITS_def byte_limit_of_def
      progress_gaps_def tail_records_def tail_loop.simps readline_def MAX_LINE_BYTES_def ex_line_def
      ex_iso_def parse_rollout_event_def payload_of_def timestamp_of_def text_of_def
      event_message_kind_def observed_def map_filter_simps gap_observe_def gap_start_turn_def
      gap_progress_def append_gap_def new_tracker_def Let_def DELTAS_def)

theorem recommendation_sound_witness:
  "sound_outcome [65] (scan_history ex_line ex_iso ex_history 5 DEFAULT_SCAN_LIMITS)"
  by (rule recommendation_sound [OF ex_scanned])

text \<open>
  History is scanned once per plugin version: after a calibration, every later call for the same
  version returns the stored result without scanning, whatever the scanner would say by then, and
  writes nothing.
\<close>

theorem calibrated_once_per_version:
  assumes "load_or_calibrate env home pf manifest scan st = Inr (c, st')"
  shows "load_or_calibrate env home pf manifest scan' st' = Inr (c\<lparr>cs_announce := False\<rparr>, st')"
proof -
  from assms obtain v where busy: "\<not> lock_busy env (abspath (operation_path home))"
    and v: "plugin_version pf manifest = Inr v"
    by (auto simp: load_or_calibrate_def err_simps split: if_splits)
  have again: "load_or_calibrate env home pf manifest scan' st' = Inr (s, st')"
    if "is_file st' (abspath (calibration_path home))" and "load_snapshot env home st' = Inr s"
      and "cs_version s = v" for s
    using busy v that by (simp add: load_or_calibrate_def)
  show ?thesis
  proof (cases "\<exists>s. is_file st (abspath (calibration_path home)) \<and> load_snapshot env home st = Inr s \<and>
      cs_version s = v")
    case True
    then have "load_snapshot env home st = Inr c" "st' = st"
      using assms busy v by (auto simp: load_or_calibrate_def)
    then have "c\<lparr>cs_announce := False\<rparr> = c" using loaded_samples [of env home st c] by simp
    with True \<open>load_snapshot env home st = Inr c\<close> \<open>st' = st\<close> again show ?thesis by auto
  next
    case False
    with assms busy v have c: "c = snapshot_from_outcome v (scan ())"
      and s: "save_snapshot env home c st = Inr st'"
      by (auto simp: load_or_calibrate_def err_simps Let_def split: if_splits)
    have "cs_version c = v" unfolding c by (cases "scan ()") simp_all
    with again [OF saved_snapshot_file [OF s] load_saved_snapshot [OF s]] show ?thesis
      unfolding c by (simp add: outcome_samples)
  qed
qed

definition plain_env :: fs_env where
  "plain_env = \<lparr>redirected = (\<lambda>_. False), lock_busy = (\<lambda>_. False)\<rparr>"

lemma plain_safe [simp]:
  "strictly_below (abspath h) (abspath p) \<Longrightarrow> safe_absolute_path plain_env h p = Inr (abspath h, abspath p)"
  by (simp add: safe_absolute_path_Inr no_redirects plain_env_def)

lemma plain_free [simp]: "\<not> lock_busy plain_env p"
  by (simp add: plain_env_def)

lemma plain_save:
  "strictly_below (abspath h) (abspath p) \<Longrightarrow> \<not> dhas vals ''schema_version'' \<Longrightarrow>
   st (abspath p) = None \<Longrightarrow>
   save_state plain_env h p vals SCHEMA_VERSION st = Inr (atomic_json_write (abspath p) SCHEMA_VERSION vals st)"
  by (simp add: save_state_def check_schema_def no_redirects) (simp add: plain_env_def no_redirects)

lemma plain_resave:
  assumes "strictly_below (abspath h) (abspath p)" and "\<not> dhas vals ''schema_version''"
    and "is_file st (abspath p)" and "load_state plain_env h p st = Inr x"
  shows "save_state plain_env h p vals SCHEMA_VERSION st =
    Inr (atomic_json_write (abspath p) SCHEMA_VERSION vals st)"
proof -
  have "load_state plain_env (abspath h) (abspath p) st = Inr x"
    using load_state_normalised [OF plain_safe [OF assms(1)]] assms(4) by simp
  moreover have "ensure_existing_components_are_direct plain_env (abspath h) (abspath p) = Inr ()"
    by (rule no_redirects) (simp add: plain_env_def)
  moreover have "\<not> lock_busy plain_env (abspath p)" by (simp add: plain_env_def)
  ultimately show ?thesis using assms(1-3) by (simp add: save_state_def check_schema_def)
qed

definition ex_snapshot :: calibration_snapshot where
  "ex_snapshot = snapshot_from_outcome ''1.0'' (CalibrationRecommendation 20 60000 120000)"

definition ex_calibrated :: store where
  "ex_calibrated = atomic_json_write [''r'', ''calibration.json''] SCHEMA_VERSION
     (snapshot_values ex_snapshot) Map.empty"

lemma ex_paths: "abspath (calibration_path [''r'']) = [''r'', ''calibration.json'']"
  "abspath [''r''] = [''r'']" "strictly_below [''r''] [''r'', ''calibration.json'']"
  by (simp_all add: calibration_path_def abspath_def strictly_below_def)

lemma ex_saved: "save_snapshot plain_env [''r''] ex_snapshot Map.empty = Inr ex_calibrated"
  by (simp add: save_snapshot_def plain_save ex_paths snapshot_values_def ex_calibrated_def)

lemma ex_calibrate: "load_or_calibrate plain_env [''r''] [''m''] (Some (JObj [(''version'', JStr ''1.0'')]))
  (\<lambda>_. CalibrationRecommendation 20 60000 120000) Map.empty = Inr (ex_snapshot, ex_calibrated)"
  using ex_saved
  by (simp add: load_or_calibrate_def plugin_version_def ex_snapshot_def is_file_def)

theorem calibrated_once_per_version_witness:
  "load_or_calibrate plain_env [''r''] [''m''] (Some (JObj [(''version'', JStr ''1.0'')]))
     (\<lambda>_. CalibrationInsufficient 3) ex_calibrated = Inr (ex_snapshot\<lparr>cs_announce := False\<rparr>, ex_calibrated)"
  by (rule calibrated_once_per_version [OF ex_calibrate])

text \<open>
  An answer is final: a decision is recorded only for a pending recommendation of the same
  plugin version, keeps its thresholds, is what the next load returns, and any second answer is
  refused.
\<close>

theorem decision_is_final:
  assumes "record_decision env home v d st = Inr (c, st')"
  shows "(\<exists>s. load_snapshot env home st = Inr s \<and> cs_status s = CAL_PENDING \<and> cs_version s = v \<and>
      cs_warning c = cs_warning s \<and> cs_restart c = cs_restart s) \<and>
    cs_status c = decided_status d \<and> load_snapshot env home st' = Inr c \<and>
    record_decision env home v d' st' =
      Inl (CalibrationStateError (calibration_path home) ''recommendation_not_pending'')"
proof -
  from assms obtain s where busy: "\<not> lock_busy env (abspath (operation_path home))"
    and s: "load_snapshot env home st = Inr s" "cs_version s = v" "cs_status s = CAL_PENDING"
    and c: "c = s\<lparr>cs_status := decided_status d, cs_reason := None, cs_announce := False\<rparr>"
    and st': "save_snapshot env home c st = Inr st'"
    by (auto simp: record_decision_def err_simps Let_def split: if_splits)
  have "load_snapshot env home st' = Inr c"
    using load_saved_snapshot [OF st'] loaded_samples [OF s(1)] by (simp add: c)
  then show ?thesis
    using s busy by (cases d) (simp_all add: c record_decision_def)
qed

theorem decision_is_final_witness:
  "\<exists>c st'. record_decision plain_env [''r''] ''1.0'' ACCEPT ex_calibrated = Inr (c, st') \<and>
     cs_status c = CAL_ACCEPTED \<and> load_snapshot plain_env [''r''] st' = Inr c"
proof -
  have l: "load_snapshot plain_env [''r''] ex_calibrated = Inr (ex_snapshot\<lparr>cs_announce := False\<rparr>)"
    by (rule load_saved_snapshot [OF ex_saved]) (simp add: ex_snapshot_def)
  obtain x where x: "load_state plain_env [''r''] (calibration_path [''r'']) ex_calibrated = Inr x"
    using l by (auto simp: load_snapshot_def err_simps)
  have "is_file ex_calibrated (abspath (calibration_path [''r'']))"
    by (simp add: ex_paths ex_calibrated_def atomic_json_write_def is_file_def)
  then have "save_state plain_env [''r''] (calibration_path [''r'']) (snapshot_values y) SCHEMA_VERSION
      ex_calibrated = Inr (atomic_json_write (abspath (calibration_path [''r''])) SCHEMA_VERSION
        (snapshot_values y) ex_calibrated)" for y
    by (intro plain_resave [OF _ _ _ x]) (simp_all add: ex_paths snapshot_values_def)
  then obtain c st' where r: "record_decision plain_env [''r''] ''1.0'' ACCEPT ex_calibrated =
      Inr (c, st')"
    using l by (simp add: record_decision_def save_snapshot_def ex_snapshot_def Let_def)
  from decision_is_final [OF r] r show ?thesis by auto
qed

text \<open>
  An empty rollout ends the scan as if the byte budget were used up: the older rollouts after it
  are never read.
\<close>

lemma empty_rollout_ends_scan:
  "hf_size f = 0 \<Longrightarrow> scan_files decode isoparse limits (f # fs) remaining gaps = Inr gaps"
  by (simp add: byte_limit_of_def)

end
