(* ===== verification/ThresholdSettings.thy ===== *)
theory ThresholdSettings
  imports Calibration
begin

text \<open>
  \<open>scripts/threshold_settings.py\<close>: the user's saved threshold pair, with the recommendation of the
  calibration (theory Calibration) as its other source. A store constructed without an own
  recommendation provider, as the MCP server does, uses the stored one.
\<close>

section \<open>Modes and snapshots\<close>

definition DEFAULT_WARNING_MS :: int where
  "DEFAULT_WARNING_MS = 300000"

definition DEFAULT_CRITICAL_MS :: int where
  "DEFAULT_CRITICAL_MS = 600000"

datatype threshold_mode = MODE_DEFAULT | MODE_RECOMMENDED | MODE_CUSTOM

fun mode_text :: "threshold_mode \<Rightarrow> string" where
  "mode_text MODE_DEFAULT = ''default''"
| "mode_text MODE_RECOMMENDED = ''recommended''"
| "mode_text MODE_CUSTOM = ''custom''"

definition mode_of :: "string \<Rightarrow> threshold_mode option" where
  "mode_of s = List.find (\<lambda>m. mode_text m = s) [MODE_DEFAULT, MODE_RECOMMENDED, MODE_CUSTOM]"

lemma mode_of_text [simp]: "mode_of (mode_text m) = Some m"
  by (cases m) (simp_all add: mode_of_def)

record settings_snapshot =
  ss_mode :: threshold_mode
  ss_warning :: int
  ss_critical :: int

definition default_snapshot :: settings_snapshot where
  "default_snapshot = \<lparr>ss_mode = MODE_DEFAULT, ss_warning = DEFAULT_WARNING_MS,
     ss_critical = DEFAULT_CRITICAL_MS\<rparr>"

definition settings_snapshot_of :: "threshold_mode \<Rightarrow> int \<Rightarrow> int \<Rightarrow> exn + settings_snapshot" where
  "settings_snapshot_of m w c =
     (case validate_thresholds w c of
        Inl _ \<Rightarrow> Inl (ThresholdSettingsError ''threshold_order_invalid'')
      | Inr pair \<Rightarrow> Inr \<lparr>ss_mode = m, ss_warning = warning_after_ms pair,
          ss_critical = restart_after_ms pair\<rparr>)"

section \<open>Recommendations\<close>

definition stored_recommendation :: "fs_env \<Rightarrow> path \<Rightarrow> store \<Rightarrow> exn + (int \<times> int) option" where
  "stored_recommendation env home st =
     ebind (load_calibration_snapshot env home st) (\<lambda>c.
     Inr (case c of
        None \<Rightarrow> None
      | Some s \<Rightarrow> (case (cs_warning s, cs_restart s) of (Some w, Some r) \<Rightarrow> Some (w, r) | _ \<Rightarrow> None)))"

definition accepted_recommendation ::
  "fs_env \<Rightarrow> path \<Rightarrow> store \<Rightarrow> exn + settings_snapshot option" where
  "accepted_recommendation env home st =
     ebind (load_calibration_snapshot env home st) (\<lambda>c.
     case c of
        None \<Rightarrow> Inr None
      | Some s \<Rightarrow>
          (case (cs_status s, cs_warning s, cs_restart s) of
             (CAL_ACCEPTED, Some w, Some r) \<Rightarrow>
               ebind (settings_snapshot_of MODE_RECOMMENDED w r) (\<lambda>x. Inr (Some x))
           | _ \<Rightarrow> Inr None))"

section \<open>The store\<close>

definition settings_path :: "path \<Rightarrow> path" where
  "settings_path home = home @ [''threshold-settings.json'']"

definition settings_of_values :: "path \<Rightarrow> dict \<Rightarrow> exn + settings_snapshot" where
  "settings_of_values p vals =
     (case (dget vals ''mode'', dget vals ''warning_after_ms'', dget vals ''critical_after_ms'') of
        (JStr m, JInt w, JInt c) \<Rightarrow>
          (case (mode_of m, validate_thresholds w c) of
             (Some mode, Inr pair) \<Rightarrow> Inr \<lparr>ss_mode = mode, ss_warning = warning_after_ms pair,
               ss_critical = restart_after_ms pair\<rparr>
           | _ \<Rightarrow> Inl (CorruptStateError p INVALID_VALUE))
      | _ \<Rightarrow> Inl (CorruptStateError p INVALID_VALUE))"

definition load_settings :: "fs_env \<Rightarrow> path \<Rightarrow> store \<Rightarrow> exn + settings_snapshot" where
  "load_settings env home st =
     (if \<not> is_file st (abspath (settings_path home))
      then ebind (accepted_recommendation env home st) (\<lambda>a.
        Inr (case a of None \<Rightarrow> default_snapshot | Some s \<Rightarrow> s))
      else ebind (load_state env home (settings_path home) st)
        (settings_of_values (settings_path home)))"

definition settings_values :: "settings_snapshot \<Rightarrow> dict" where
  "settings_values s =
     [(''mode'', JStr (mode_text (ss_mode s))), (''warning_after_ms'', JInt (ss_warning s)),
      (''critical_after_ms'', JInt (ss_critical s))]"

definition save_settings ::
  "fs_env \<Rightarrow> path \<Rightarrow> settings_snapshot \<Rightarrow> store \<Rightarrow> exn + settings_snapshot \<times> store" where
  "save_settings env home s st =
     ebind (save_state env home (settings_path home) (settings_values s) SCHEMA_VERSION st)
       (\<lambda>st'. Inr (s, st'))"

definition set_default :: "fs_env \<Rightarrow> path \<Rightarrow> store \<Rightarrow> exn + settings_snapshot \<times> store" where
  "set_default env home st = save_settings env home default_snapshot st"

definition set_recommended :: "fs_env \<Rightarrow> path \<Rightarrow> store \<Rightarrow> exn + settings_snapshot \<times> store" where
  "set_recommended env home st =
     ebind (stored_recommendation env home st) (\<lambda>r.
     case r of
       None \<Rightarrow> Inl (ThresholdSettingsError ''threshold_recommendation_unavailable'')
     | Some (w, c) \<Rightarrow>
         ebind (settings_snapshot_of MODE_RECOMMENDED w c) (\<lambda>s. save_settings env home s st))"

definition set_custom ::
  "fs_env \<Rightarrow> path \<Rightarrow> int \<Rightarrow> int \<Rightarrow> store \<Rightarrow> exn + settings_snapshot \<times> store" where
  "set_custom env home w c st =
     ebind (settings_snapshot_of MODE_CUSTOM w c) (\<lambda>s. save_settings env home s st)"

section \<open>Lemmas\<close>

definition ordered_settings :: "settings_snapshot \<Rightarrow> bool" where
  "ordered_settings s \<longleftrightarrow> 0 < ss_warning s \<and> ss_warning s < ss_critical s"

lemma settings_snapshot_of_Inr:
  "settings_snapshot_of m w c = Inr s \<longleftrightarrow>
     0 < w \<and> w < c \<and> s = \<lparr>ss_mode = m, ss_warning = w, ss_critical = c\<rparr>"
  by (auto simp: settings_snapshot_of_def validate_thresholds_def)

lemma settings_snapshot_of_ordered: "settings_snapshot_of m w c = Inr s \<Longrightarrow> ordered_settings s"
  by (auto simp: settings_snapshot_of_Inr ordered_settings_def)

lemma default_ordered [simp]: "ordered_settings default_snapshot"
  by (simp add: ordered_settings_def default_snapshot_def DEFAULT_WARNING_MS_def
      DEFAULT_CRITICAL_MS_def)

lemma accepted_Some:
  assumes "accepted_recommendation env home st = Inr (Some s)"
  obtains c where "load_calibration_snapshot env home st = Inr (Some c)" "cs_status c = CAL_ACCEPTED"
    "ss_mode s = MODE_RECOMMENDED" "cs_warning c = Some (ss_warning s)"
    "cs_restart c = Some (ss_critical s)" "ordered_settings s"
proof -
  from assms obtain x where x: "load_calibration_snapshot env home st = Inr x"
    by (auto simp: accepted_recommendation_def err_simps)
  with assms obtain c where c: "x = Some c" by (cases x) (auto simp: accepted_recommendation_def)
  with assms x obtain w r where "cs_status c = CAL_ACCEPTED" "cs_warning c = Some w"
    "cs_restart c = Some r"
    by (cases "cs_status c"; cases "cs_warning c"; cases "cs_restart c")
      (auto simp: accepted_recommendation_def)
  with assms x c that show ?thesis
    by (auto simp: accepted_recommendation_def err_simps settings_snapshot_of_Inr
        ordered_settings_def)
qed

lemma settings_of_values_ordered:
  "settings_of_values p vals = Inr s \<Longrightarrow> ordered_settings s"
  by (cases "dget vals ''mode''"; simp add: settings_of_values_def;
      cases "dget vals ''warning_after_ms''"; simp; cases "dget vals ''critical_after_ms''"; simp)
    (auto simp: ordered_settings_def validate_thresholds_Inr split: option.splits sum.splits)

lemma load_saved_settings:
  assumes "save_settings env home s st = Inr (s', st')" and "ordered_settings s"
  shows "s' = s \<and> load_settings env home st' = Inr s"
proof -
  from assms(1) have s': "s' = s"
    and sv: "save_state env home (settings_path home) (settings_values s) SCHEMA_VERSION st = Inr st'"
    by (auto simp: save_settings_def err_simps)
  have "wf_json (JObj (settings_values s))" by (simp add: settings_values_def ddistinct_def)
  from save_then_load [OF sv this] obtain d
    where d: "load_state env home (settings_path home) st' = Inr d"
      "\<forall>k. map_of d k = map_option jsort (map_of (settings_values s) k)" by blast
  then have "dget d ''mode'' = JStr (mode_text (ss_mode s))"
    "dget d ''warning_after_ms'' = JInt (ss_warning s)"
    "dget d ''critical_after_ms'' = JInt (ss_critical s)"
    by (simp_all add: dget_def settings_values_def)
  moreover have "validate_thresholds (ss_warning s) (ss_critical s) =
      Inr \<lparr>warning_after_ms = ss_warning s, restart_after_ms = ss_critical s\<rparr>"
    using assms(2) by (simp add: validate_thresholds_Inr ordered_settings_def)
  ultimately show ?thesis
    using d(1) saved_file [OF sv] s'
    by (simp add: load_settings_def settings_of_values_def)
qed

section \<open>Properties\<close>

text \<open>
  A saved selection is what the next load returns: each of the three mutations that succeeds
  stores an ordered positive pair with its mode, reports it, and the next load gives exactly it,
  whatever was saved before and whatever the calibration says later.
\<close>

theorem settings_round_trip:
  assumes "set_default env home st = Inr (s, st') \<or> set_recommended env home st = Inr (s, st') \<or>
    set_custom env home w c st = Inr (s, st')"
  shows "load_settings env home st' = Inr s \<and> ordered_settings s"
proof -
  obtain x where x: "save_settings env home x st = Inr (s, st')" "ordered_settings x"
    using assms by (fastforce simp: set_default_def set_recommended_def set_custom_def err_simps
        settings_snapshot_of_ordered split: option.splits)
  from load_saved_settings [OF this] x(2) show ?thesis by simp
qed

lemma ex_settings_paths: "abspath (settings_path [''r'']) = [''r'', ''threshold-settings.json'']"
  "strictly_below [''r''] [''r'', ''threshold-settings.json'']"
  by (simp_all add: settings_path_def abspath_def strictly_below_def)

definition ex_custom :: store where
  "ex_custom = atomic_json_write [''r'', ''threshold-settings.json''] SCHEMA_VERSION
     (settings_values \<lparr>ss_mode = MODE_CUSTOM, ss_warning = 60000, ss_critical = 90000\<rparr>) Map.empty"

lemma ex_set_custom: "set_custom plain_env [''r''] 60000 90000 Map.empty =
  Inr (\<lparr>ss_mode = MODE_CUSTOM, ss_warning = 60000, ss_critical = 90000\<rparr>, ex_custom)"
  by (simp add: set_custom_def settings_snapshot_of_def validate_thresholds_def save_settings_def
      plain_save ex_paths ex_settings_paths settings_values_def ex_custom_def)

theorem settings_round_trip_witness:
  "load_settings plain_env [''r''] ex_custom =
     Inr \<lparr>ss_mode = MODE_CUSTOM, ss_warning = 60000, ss_critical = 90000\<rparr>"
  using settings_round_trip [of plain_env "[''r'']" Map.empty _ ex_custom 60000 90000]
    ex_set_custom by blast

text \<open>
  Whatever the files contain, a loaded pair is positive and ordered; a damaged settings file is
  an error, never a silent default; and without a settings file only a recommendation the user
  accepted replaces the 5 and 10 minute defaults.
\<close>

theorem loaded_settings_ordered:
  "(case load_settings env home st of
      Inl _ \<Rightarrow> True
    | Inr s \<Rightarrow> ordered_settings s \<and>
        (is_file st (abspath (settings_path home)) \<or> s = default_snapshot \<or>
         (\<exists>c. load_calibration_snapshot env home st = Inr (Some c) \<and> cs_status c = CAL_ACCEPTED \<and>
            ss_mode s = MODE_RECOMMENDED \<and> cs_warning c = Some (ss_warning s) \<and>
            cs_restart c = Some (ss_critical s))))"
proof (cases "is_file st (abspath (settings_path home))")
  case True
  then show ?thesis
    by (auto simp: load_settings_def err_simps intro: settings_of_values_ordered split: sum.splits)
next
  case False
  show ?thesis
  proof (cases "accepted_recommendation env home st")
    case (Inl e)
    with False show ?thesis by (simp add: load_settings_def)
  next
    case (Inr a)
    show ?thesis
    proof (cases a)
      case None
      with Inr False show ?thesis by (simp add: load_settings_def)
    next
      case (Some s)
      with Inr have "accepted_recommendation env home st = Inr (Some s)" by simp
      then show ?thesis
        by (rule accepted_Some) (use Inr Some False in \<open>simp add: load_settings_def\<close>)
    qed
  qed
qed

end
