(* ===== verification/ActivationTickets.thy ===== *)
theory ActivationTickets
  imports StateStore
begin

text \<open>
  \<open>scripts/work_on_activation.py\<close>, \<open>work_on_activation_record.py\<close>, \<open>work_on_identity.py\<close>,
  \<open>work_on_token.py\<close> and the derivation of \<open>control_capability.py\<close>: one-time authorizations for an
  explicit work-on prompt, kept as authenticated files below the plugin data. The HMAC of the
  standard library and the text of \<open>json.dumps\<close> are the parameter \<open>crypto\<close>; Unicode categories are
  a parameter of the token search; clock readings and nonces are arguments. A text that
  \<open>json.loads\<close> rejects is \<open>ActivationRecordError\<close> here: the callers treat \<open>JSONDecodeError\<close>,
  \<open>UnicodeError\<close>, \<open>OSError\<close> and \<open>StateError\<close> alike. Directory creation is not modelled.
\<close>

section \<open>The work-on token\<close>

definition WORK_ON_LITERAL :: string where
  "WORK_ON_LITERAL = ''$work-on''"

text \<open>\<open>unicodedata.category\<close> is a parameter.\<close>

definition is_valid_token_boundary :: "(char \<Rightarrow> string) \<Rightarrow> char option \<Rightarrow> bool" where
  "is_valid_token_boundary category c =
     (case c of
        None \<Rightarrow> True
      | Some x \<Rightarrow>
          x \<in> {CHR '' '', CHR 0x09, CHR 0x0D, CHR 0x0A} \<or>
          category x \<in> {''Zs'', ''Zl'', ''Zp''} \<or>
          take 1 (category x) = ''P'' \<and> category x \<noteq> ''Pc'' \<and> x \<noteq> CHR ''-'')"

definition find_from :: "string \<Rightarrow> string \<Rightarrow> nat \<Rightarrow> nat option" where
  "find_from prompt needle offset =
     List.find (\<lambda>i. take (length needle) (drop i prompt) = needle) [offset ..< Suc (length prompt)]"

definition token_at :: "(char \<Rightarrow> string) \<Rightarrow> string \<Rightarrow> nat \<Rightarrow> bool" where
  "token_at category prompt i =
     (let after = i + length WORK_ON_LITERAL
      in is_valid_token_boundary category (if i = 0 then None else Some (prompt ! (i - 1))) \<and>
         is_valid_token_boundary category (if after < length prompt then Some (prompt ! after) else None))"

lemma find_from_Some:
  "find_from p n k = Some i \<Longrightarrow> k \<le> i \<and> i \<le> length p \<and> take (length n) (drop i p) = n \<and>
     (\<forall>j \<in> {k ..< i}. take (length n) (drop j p) \<noteq> n)"
proof -
  assume "find_from p n k = Some i"
  then obtain m where m: "m < Suc (length p) - k" "take (length n) (drop (k + m) p) = n" "i = k + m"
    "\<forall>j < m. take (length n) (drop (k + j) p) \<noteq> n"
    by (auto simp: find_from_def find_Some_iff simp del: upt_Suc)
  have "take (length n) (drop j p) \<noteq> n" if "k \<le> j" "j < i" for j
    using m(4) that m(3) by (auto dest: spec [of _ "j - k"])
  with m show ?thesis by auto
qed

lemma find_from_None:
  "find_from p n k = None \<longleftrightarrow> (\<forall>j \<in> {k .. length p}. take (length n) (drop j p) \<noteq> n)"
  by (auto simp: find_from_def find_None_iff)

function token_loop :: "(char \<Rightarrow> string) \<Rightarrow> string \<Rightarrow> nat \<Rightarrow> bool" where
  "token_loop category prompt offset =
     (case find_from prompt WORK_ON_LITERAL offset of
        None \<Rightarrow> False
      | Some i \<Rightarrow> if token_at category prompt i then True else token_loop category prompt (i + 1))"
  by pat_completeness auto
termination
  by (relation "measure (\<lambda>(_, p, k). Suc (length p) - k)") (auto dest: find_from_Some)

declare token_loop.simps [simp del]

definition contains_explicit_work_on :: "(char \<Rightarrow> string) \<Rightarrow> string \<Rightarrow> bool" where
  "contains_explicit_work_on category prompt = token_loop category prompt 0"

section \<open>Identities and capabilities\<close>

record activation_identity =
  ai_session :: string
  ai_turn :: string
  ai_transcript :: string

definition MAX_TEXT_CHARS :: nat where
  "MAX_TEXT_CHARS = 65536"

definition activation_identity_is_valid :: "activation_identity \<Rightarrow> bool" where
  "activation_identity_is_valid i =
     list_all (\<lambda>v. v \<noteq> [] \<and> length v \<le> MAX_TEXT_CHARS) [ai_session i, ai_turn i, ai_transcript i]"

text \<open>\<open>hmac.compare_digest\<close> on two \<open>str\<close> values accepts ASCII text only.\<close>

definition ascii :: "string \<Rightarrow> bool" where
  "ascii s = list_all (\<lambda>c. (of_char c :: nat) < 128) s"

definition compare_digest :: "string \<Rightarrow> string \<Rightarrow> exn + bool" where
  "compare_digest a b = (if ascii a \<and> ascii b then Inr (a = b) else Inl TypeErr)"

text \<open>A chain of comparisons joined by \<open>and\<close>.\<close>

fun compare_all :: "(string \<times> string) list \<Rightarrow> exn + bool" where
  "compare_all [] = Inr True"
| "compare_all ((a, b) # r) = ebind (compare_digest a b) (\<lambda>same. if same then compare_all r else Inr False)"

definition same_activation_identity :: "activation_identity \<Rightarrow> activation_identity \<Rightarrow> exn + bool" where
  "same_activation_identity x y =
     compare_all [(ai_session x, ai_session y), (ai_turn x, ai_turn y),
       (ai_transcript x, ai_transcript y)]"

record crypto =
  cr_hmac_hex :: "string \<Rightarrow> string \<Rightarrow> string"
  cr_hmac_token :: "string \<Rightarrow> string \<Rightarrow> string"
  cr_dumps :: "json \<Rightarrow> string"

fun utf8_encode :: "string \<Rightarrow> string" where
  "utf8_encode [] = []"
| "utf8_encode (c # cs) =
     (let n = (of_char c :: nat)
      in (if n < 128 then [c] else [char_of (192 + n div 64), char_of (128 + n mod 64)])) @
     utf8_encode cs"

definition KEY_BYTES :: nat where
  "KEY_BYTES = 32"

definition MAX_SESSION_BYTES :: nat where
  "MAX_SESSION_BYTES = 65536"

text \<open>The domain strings of the capability; the code's \<open>\\0\<close> there is a backslash and a zero.\<close>

definition capability_message :: "string \<Rightarrow> string" where
  "capability_message session =
     ''cmw-control-v1'' @ [CHR 0x5C, CHR ''0''] @ utf8_encode session @ [CHR 0x5C, CHR ''0''] @
     ''codex-must-work@simdorei''"

definition derive_control_capability :: "crypto \<Rightarrow> string \<Rightarrow> string \<Rightarrow> exn + string" where
  "derive_control_capability C key session =
     (if length key \<noteq> KEY_BYTES then Inl (RuntimeErr ''control_key_invalid'')
      else if utf8_encode session = [] \<or> length (utf8_encode session) > MAX_SESSION_BYTES
      then Inl (RuntimeErr ''control_session_invalid'')
      else Inr (cr_hmac_token C key (capability_message session)))"

definition base64url :: "char \<Rightarrow> bool" where
  "base64url c = (let n = (of_char c :: nat)
     in 65 \<le> n \<and> n \<le> 90 \<or> 97 \<le> n \<and> n \<le> 122 \<or> 48 \<le> n \<and> n \<le> 57 \<or> c = CHR ''-'' \<or> c = CHR ''_'')"

definition verify_control_capability :: "crypto \<Rightarrow> string \<Rightarrow> string \<Rightarrow> string \<Rightarrow> exn + bool" where
  "verify_control_capability C key session capability =
     (if length key \<noteq> KEY_BYTES \<or> utf8_encode session = [] \<or>
         length (utf8_encode session) > MAX_SESSION_BYTES \<or> length capability \<noteq> 43 \<or>
         list_ex (\<lambda>c. \<not> base64url c) capability
      then Inr False
      else ebind (derive_control_capability C key session) (\<lambda>expected.
        compare_digest expected capability))"

definition capability_binding :: "crypto \<Rightarrow> string \<Rightarrow> string \<Rightarrow> string" where
  "capability_binding C key capability =
     cr_hmac_hex C key (''cmw-work-on-capability-v1'' @ [CHR 0x00] @ capability)"

section \<open>Authenticated records\<close>

record activation_ticket =
  at_identity :: activation_identity
  at_binding :: string
  at_issued :: int
  at_nonce :: string
  at_consumed :: bool

definition RECORD_FIELDS :: "string list" where
  "RECORD_FIELDS = [''schema_version'', ''session_id'', ''turn_id'', ''transcript_path'',
     ''capability_binding'', ''issued_at'', ''nonce'', ''consumed'', ''record_mac'']"

definition record_values :: "activation_ticket \<Rightarrow> dict" where
  "record_values t =
     [(''session_id'', JStr (ai_session (at_identity t))), (''turn_id'', JStr (ai_turn (at_identity t))),
      (''transcript_path'', JStr (ai_transcript (at_identity t))),
      (''capability_binding'', JStr (at_binding t)), (''issued_at'', JInt (at_issued t)),
      (''nonce'', JStr (at_nonce t)), (''consumed'', JBool (at_consumed t))]"

definition record_mac :: "crypto \<Rightarrow> string \<Rightarrow> activation_ticket \<Rightarrow> string" where
  "record_mac C key t =
     cr_hmac_hex C key (''cmw-work-on-ticket-record-v1'' @ [CHR 0x00] @
       cr_dumps C (JObj ((''schema_version'', JInt 1) # record_values t)))"

definition write_activation_record ::
  "crypto \<Rightarrow> path \<Rightarrow> string \<Rightarrow> activation_ticket \<Rightarrow> store \<Rightarrow> store" where
  "write_activation_record C p key t st =
     atomic_json_write p 1 (record_values t @ [(''record_mac'', JStr (record_mac C key t))]) st"

definition parse_record :: "dict \<Rightarrow> exn + activation_ticket" where
  "parse_record d =
     (case (dget d ''session_id'', dget d ''turn_id'', dget d ''transcript_path'',
            dget d ''capability_binding'', dget d ''issued_at'', dget d ''nonce'', dget d ''consumed'') of
        (JStr s, JStr t, JStr f, JStr b, JInt i, JStr n, JBool c) \<Rightarrow>
          if py_eq (dget d ''schema_version'') (JInt 1)
          then Inr \<lparr>at_identity = \<lparr>ai_session = s, ai_turn = t, ai_transcript = f\<rparr>,
            at_binding = b, at_issued = i, at_nonce = n, at_consumed = c\<rparr>
          else Inl ActivationRecordError
      | _ \<Rightarrow> Inl ActivationRecordError)"

definition read_activation_record ::
  "crypto \<Rightarrow> path \<Rightarrow> string \<Rightarrow> store \<Rightarrow> exn + activation_ticket" where
  "read_activation_record C p key st =
     (case st p of
        None \<Rightarrow> Inl (FileNotFoundError p)
      | Some (Regular (Some (JObj d))) \<Rightarrow>
          if set (map fst d) \<noteq> set RECORD_FIELDS then Inl ActivationRecordError
          else ebind (parse_record d) (\<lambda>t.
            case dget d ''record_mac'' of
              JStr m \<Rightarrow> ebind (compare_digest m (record_mac C key t)) (\<lambda>same.
                if same then Inr t else Inl ActivationRecordError)
            | _ \<Rightarrow> Inl ActivationRecordError)
      | Some (Regular _) \<Rightarrow> Inl ActivationRecordError
      | Some _ \<Rightarrow> Inl (UnsafeStatePathError (butlast p) p))"

section \<open>The ticket store\<close>

record ticket_env =
  te_crypto :: crypto
  te_fs :: fs_env
  te_hash :: hash
  te_home :: path
  te_key :: string
  te_directory :: bool

definition TTL_SECONDS :: int where
  "TTL_SECONDS = 120"

definition ticket_path :: "ticket_env \<Rightarrow> string \<Rightarrow> path" where
  "ticket_path E session = te_home E @ [''work-on-tickets'', te_hash E session @ ''.json'']"

definition ticket_error :: "string \<Rightarrow> exn" where
  "ticket_error reason_code = ActivationTicketError (''work_on_authorization_'' @ reason_code)"

definition ticket_expired :: "time \<Rightarrow> activation_ticket \<Rightarrow> bool" where
  "ticket_expired now t = (at_issued t > \<lfloor>now\<rfloor> \<or> \<lfloor>now\<rfloor> - at_issued t > TTL_SECONDS)"

definition rejection_reason ::
  "ticket_env \<Rightarrow> time \<Rightarrow> activation_ticket \<Rightarrow> activation_identity \<Rightarrow> string \<Rightarrow> exn + string option" where
  "rejection_reason E now t i capability =
     (if ticket_expired now t then Inr (Some ''expired'')
      else ebind (compare_all
          [(ai_session (at_identity t), ai_session i), (ai_turn (at_identity t), ai_turn i),
           (ai_transcript (at_identity t), ai_transcript i),
           (at_binding t, capability_binding (te_crypto E) (te_key E) capability)]) (\<lambda>matches.
        Inr (if matches then None else Some ''mismatch'')))"

text \<open>The \<open>except\<close> clauses of \<open>issue\<close> and \<open>consume\<close>.\<close>

fun public_ticket_error :: "exn \<Rightarrow> exn" where
  "public_ticket_error (ActivationTicketError r) = ActivationTicketError r"
| "public_ticket_error TypeErr = TypeErr"
| "public_ticket_error (RuntimeErr r) = RuntimeErr r"
| "public_ticket_error e = ticket_error ''state_invalid''"

fun consume_ticket_error :: "exn \<Rightarrow> exn" where
  "consume_ticket_error (FileNotFoundError p) = ticket_error ''required''"
| "consume_ticket_error e = public_ticket_error e"

definition map_error :: "(exn \<Rightarrow> exn) \<Rightarrow> exn + 'a \<Rightarrow> exn + 'a" where
  "map_error g r = (case r of Inl e \<Rightarrow> Inl (g e) | Inr a \<Rightarrow> Inr a)"

definition prior_record :: "ticket_env \<Rightarrow> path \<Rightarrow> store \<Rightarrow> exn + activation_ticket option" where
  "prior_record E p st =
     (case read_activation_record (te_crypto E) p (te_key E) st of
        Inl (FileNotFoundError _) \<Rightarrow> Inr None
      | Inl e \<Rightarrow> Inl e
      | Inr t \<Rightarrow> Inr (Some t))"

definition issue_fresh ::
  "ticket_env \<Rightarrow> time \<Rightarrow> string \<Rightarrow> activation_identity \<Rightarrow> path \<Rightarrow> store \<Rightarrow> exn + bool \<times> store" where
  "issue_fresh E now nonce i p st =
     ebind (derive_control_capability (te_crypto E) (te_key E) (ai_session i)) (\<lambda>capability.
     Inr (True, write_activation_record (te_crypto E) p (te_key E)
       \<lparr>at_identity = i, at_binding = capability_binding (te_crypto E) (te_key E) capability,
        at_issued = \<lfloor>now\<rfloor>, at_nonce = nonce, at_consumed = False\<rparr> st))"

definition issue_ticket ::
  "ticket_env \<Rightarrow> time \<Rightarrow> string \<Rightarrow> activation_identity \<Rightarrow> store \<Rightarrow> exn + bool \<times> store" where
  "issue_ticket E now nonce i st =
     (if \<not> activation_identity_is_valid i then Inl (ticket_error ''mismatch'')
      else
        let p = abspath (ticket_path E (ai_session i))
        in map_error public_ticket_error
          (if lock_busy (te_fs E) p then Inl (StateLockTimeoutError p)
           else ebind (ensure_direct_regular_file (te_fs E) st (te_home E) p) (\<lambda>_.
             ebind (prior_record E p st) (\<lambda>prior.
             case prior of
               None \<Rightarrow> issue_fresh E now nonce i p st
             | Some t \<Rightarrow>
                 ebind (same_activation_identity (at_identity t) i) (\<lambda>same.
                 if same then Inr (\<not> at_consumed t \<and> \<not> ticket_expired now t, st)
                 else issue_fresh E now nonce i p st)))))"

definition consume_ticket ::
  "ticket_env \<Rightarrow> time \<Rightarrow> activation_identity \<Rightarrow> string \<Rightarrow> store \<Rightarrow> exn + store" where
  "consume_ticket E now i capability st =
     (if \<not> activation_identity_is_valid i then Inl (ticket_error ''mismatch'')
      else
        map_error consume_ticket_error
          (ebind (safe_absolute_path (te_fs E) (te_home E) (ticket_path E (ai_session i))) (\<lambda>(_, p).
           if \<not> te_directory E then Inl (ticket_error ''required'')
           else if lock_busy (te_fs E) p then Inl (StateLockTimeoutError p)
           else ebind (read_activation_record (te_crypto E) p (te_key E) st) (\<lambda>t.
             if at_consumed t then Inl (ticket_error ''required'')
             else ebind (rejection_reason E now t i capability) (\<lambda>r.
               case r of
                 Some code \<Rightarrow> Inl (ticket_error code)
               | None \<Rightarrow> Inr (write_activation_record (te_crypto E) p (te_key E)
                   (t\<lparr>at_consumed := True\<rparr>) st))))))"

section \<open>Lemmas\<close>

lemma token_loop_iff:
  "token_loop category p k \<longleftrightarrow>
     (\<exists>i. k \<le> i \<and> i \<le> length p \<and> take (length WORK_ON_LITERAL) (drop i p) = WORK_ON_LITERAL \<and>
        token_at category p i)"
proof (induction category p k rule: token_loop.induct)
  case (1 category p k)
  show ?case
  proof (cases "find_from p WORK_ON_LITERAL k")
    case None
    then show ?thesis
      using find_from_None [of p WORK_ON_LITERAL k] by (subst token_loop.simps) auto
  next
    case (Some i)
    note f = find_from_Some [OF Some]
    show ?thesis
    proof (cases "token_at category p i")
      case True
      then show ?thesis using Some f by (subst token_loop.simps) auto
    next
      case False
      have ge: "Suc i \<le> j" if "k \<le> j" "take (length WORK_ON_LITERAL) (drop j p) = WORK_ON_LITERAL"
        "token_at category p j" for j
        using f False that by (cases "j < i"; cases "j = i") auto
      have "token_loop category p k = token_loop category p (i + 1)"
        using Some False by (subst token_loop.simps) simp
      also have "\<dots> \<longleftrightarrow> (\<exists>j. k \<le> j \<and> j \<le> length p \<and>
          take (length WORK_ON_LITERAL) (drop j p) = WORK_ON_LITERAL \<and> token_at category p j)"
        unfolding 1 [OF Some False] by (rule iff_exI) (use ge f in auto)
      finally show ?thesis .
    qed
  qed
qed

lemma compare_all_ascii:
  "list_all (\<lambda>(a, b). ascii a \<and> ascii b) ps \<Longrightarrow> compare_all ps = Inr (\<forall>(a, b) \<in> set ps. a = b)"
  by (induction ps rule: compare_all.induct) (auto simp: compare_digest_def)

lemma compare_all_Inr: "compare_all ps = Inr True \<Longrightarrow> \<forall>(a, b) \<in> set ps. a = b"
  by (induction ps rule: compare_all.induct) (auto simp: compare_digest_def err_simps split: if_splits)

text \<open>The digests of the standard library are ASCII text.\<close>

definition hex_digests :: "crypto \<Rightarrow> bool" where
  "hex_digests C \<longleftrightarrow> (\<forall>k m. ascii (cr_hmac_hex C k m))"

lemma written_record:
  "write_activation_record C p key t st p = Some (Regular (Some (JObj (sort_dict
     (AList.updates (map fst (record_values t @ [(''record_mac'', JStr (record_mac C key t))]))
       (map snd (record_values t @ [(''record_mac'', JStr (record_mac C key t))]))
       [(''schema_version'', JInt 1)])))))"
  by (simp add: write_activation_record_def atomic_json_write_def)

lemma written_fields:
  "sort_dict (AList.updates (map fst (record_values t @ [(''record_mac'', m)]))
     (map snd (record_values t @ [(''record_mac'', m)])) [(''schema_version'', JInt 1)]) = d \<Longrightarrow>
   set (map fst d) = set RECORD_FIELDS \<and> (\<forall>k. dget d k = (case map_of
     ((''schema_version'', JInt 1) # record_values t @ [(''record_mac'', m)]) k of
       None \<Rightarrow> JNull | Some v \<Rightarrow> jsort v))"
proof -
  assume d: "sort_dict (AList.updates (map fst (record_values t @ [(''record_mac'', m)]))
     (map snd (record_values t @ [(''record_mac'', m)])) [(''schema_version'', JInt 1)]) = d"
  let ?u = "(''schema_version'', JInt 1) # record_values t @ [(''record_mac'', m)]"
  have u: "AList.updates (map fst (record_values t @ [(''record_mac'', m)]))
     (map snd (record_values t @ [(''record_mac'', m)])) [(''schema_version'', JInt 1)] = ?u"
    by (simp add: record_values_def)
  have "ddistinct ?u" by (simp add: record_values_def ddistinct_def)
  then have "dget d k = (case map_of ?u k of None \<Rightarrow> JNull | Some v \<Rightarrow> jsort v)" for k
    unfolding d [symmetric] u dget_def map_of_sort_dict [OF \<open>ddistinct ?u\<close>]
    by (cases "map_of ?u k") (simp_all only: option.map option.case)
  moreover have "set (map fst d) = set RECORD_FIELDS"
    unfolding d [symmetric] u
    by (simp add: sort_dict_def record_values_def RECORD_FIELDS_def image_comp insert_commute)
  ultimately show ?thesis by blast
qed

lemma read_written:
  assumes "hex_digests C"
  shows "read_activation_record C p key (write_activation_record C p key t st) = Inr t"
proof -
  let ?m = "JStr (record_mac C key t)"
  obtain d where d: "sort_dict (AList.updates (map fst (record_values t @ [(''record_mac'', ?m)]))
     (map snd (record_values t @ [(''record_mac'', ?m)])) [(''schema_version'', JInt 1)]) = d" by blast
  note f = written_fields [OF d]
  have "parse_record d = Inr t"
    using f by (simp add: parse_record_def record_values_def)
  moreover have "dget d ''record_mac'' = ?m" using f by (simp add: record_values_def)
  moreover have "compare_digest (record_mac C key t) (record_mac C key t) = Inr True"
    using assms by (simp add: compare_digest_def record_mac_def hex_digests_def)
  ultimately show ?thesis
    using f unfolding read_activation_record_def written_record d by simp
qed

lemma written_file:
  "write_activation_record C p key t st p \<noteq> None"
  "q \<noteq> p \<Longrightarrow> write_activation_record C p key t st q = st q"
  by (simp_all add: write_activation_record_def atomic_json_write_def)

lemma abspath_ticket_regular:
  "safe_absolute_path env h p = Inr (r, a) \<Longrightarrow> st a = Some (Regular x) \<Longrightarrow>
   ensure_direct_regular_file env st h p = Inr ()"
  by (simp add: ensure_direct_regular_file_def)

lemma map_error_Inr: "map_error g r = Inr x \<longleftrightarrow> r = Inr x"
  by (auto simp: map_error_def split: sum.splits)

lemma map_error_simps [simp]: "map_error g (Inr x) = Inr x" "map_error g (Inl e) = Inl (g e)"
  by (simp_all add: map_error_def)

text \<open>What a successful consumption found and left.\<close>

lemma consumed_ticket:
  assumes "consume_ticket E now i capability st = Inr st'"
  obtains r p t where "activation_identity_is_valid i"
    "safe_absolute_path (te_fs E) (te_home E) (ticket_path E (ai_session i)) = Inr (r, p)"
    "te_directory E" "\<not> lock_busy (te_fs E) p"
    "read_activation_record (te_crypto E) p (te_key E) st = Inr t" "\<not> at_consumed t"
    "\<not> ticket_expired now t" "at_identity t = i"
    "at_binding t = capability_binding (te_crypto E) (te_key E) capability"
    "st' = write_activation_record (te_crypto E) p (te_key E) (t\<lparr>at_consumed := True\<rparr>) st"
proof -
  from assms obtain r p t reason where *: "activation_identity_is_valid i"
    "safe_absolute_path (te_fs E) (te_home E) (ticket_path E (ai_session i)) = Inr (r, p)"
    "te_directory E" "\<not> lock_busy (te_fs E) p"
    "read_activation_record (te_crypto E) p (te_key E) st = Inr t" "\<not> at_consumed t"
    and reason: "rejection_reason E now t i capability = Inr reason" "reason = None"
    and st': "st' = write_activation_record (te_crypto E) p (te_key E) (t\<lparr>at_consumed := True\<rparr>) st"
    by (auto simp: consume_ticket_def map_error_Inr err_simps split: if_splits option.splits)
  then have live: "\<not> ticket_expired now t" and c: "compare_all
      [(ai_session (at_identity t), ai_session i), (ai_turn (at_identity t), ai_turn i),
       (ai_transcript (at_identity t), ai_transcript i),
       (at_binding t, capability_binding (te_crypto E) (te_key E) capability)] = Inr True"
    by (auto simp: rejection_reason_def err_simps split: if_splits)
  from compare_all_Inr [OF c] have "at_identity t = i"
    "at_binding t = capability_binding (te_crypto E) (te_key E) capability"
    by (auto intro: activation_identity.equality)
  with * live st' that show ?thesis by blast
qed

lemma read_same_file: "st p = st' p \<Longrightarrow> read_activation_record C p key st = read_activation_record C p key st'"
  by (simp add: read_activation_record_def)

text \<open>A consumed ticket stays consumed as long as nobody rewrites its file.\<close>

lemma consumed_refused:
  assumes "consume_ticket E now i capability st = Inr st1" and "hex_digests (te_crypto E)"
    and "ai_session j = ai_session i" and "activation_identity_is_valid j"
    and "st2 (abspath (ticket_path E (ai_session i))) = st1 (abspath (ticket_path E (ai_session i)))"
  shows "consume_ticket E now' j capability' st2 = Inl (ticket_error ''required'')"
proof -
  from assms(1) obtain r p t where t: "activation_identity_is_valid i"
    "safe_absolute_path (te_fs E) (te_home E) (ticket_path E (ai_session i)) = Inr (r, p)"
    "te_directory E" "\<not> lock_busy (te_fs E) p"
    "st1 = write_activation_record (te_crypto E) p (te_key E) (t\<lparr>at_consumed := True\<rparr>) st"
    by (rule consumed_ticket)
  have p: "p = abspath (ticket_path E (ai_session i))" using t(2) by (simp add: safe_absolute_path_Inr)
  have "read_activation_record (te_crypto E) p (te_key E) st1 = Inr (t\<lparr>at_consumed := True\<rparr>)"
    unfolding t(5) by (rule read_written [OF assms(2)])
  then have "read_activation_record (te_crypto E) p (te_key E) st2 = Inr (t\<lparr>at_consumed := True\<rparr>)"
    using read_same_file [of st1 p st2] assms(5) p by metis
  then show ?thesis
    using t(1-4) assms(3,4) by (simp add: consume_ticket_def ticket_error_def)
qed

lemma consume_keeps: "consume_ticket E now i capability st = Inr st' \<Longrightarrow>
  q \<noteq> abspath (ticket_path E (ai_session i)) \<Longrightarrow> st' q = st q"
  by (erule consumed_ticket) (simp add: written_file safe_absolute_path_Inr)

lemma parse_record_errors: "parse_record d = Inl e \<Longrightarrow> e = ActivationRecordError"
  by (auto simp: parse_record_def split: json.splits if_splits)

lemma read_record_errors:
  assumes "read_activation_record C p key st = Inl e"
  shows "e \<in> {FileNotFoundError p, ActivationRecordError, TypeErr, UnsafeStatePathError (butlast p) p}"
proof (cases "\<exists>d. st p = Some (Regular (Some (JObj d)))")
  case False
  with assms show ?thesis
    by (auto simp: read_activation_record_def split: option.splits disk_file.splits json.splits)
next
  case True
  then obtain d where d: "st p = Some (Regular (Some (JObj d)))" by blast
  show ?thesis
  proof (cases "parse_record d")
    case (Inl x)
    with assms d parse_record_errors [OF Inl] show ?thesis
      by (auto simp: read_activation_record_def split: if_splits)
  next
    case (Inr x)
    with assms d show ?thesis
      by (cases "dget d ''record_mac''")
        (auto simp: read_activation_record_def compare_digest_def split: if_splits)
  qed
qed

text \<open>The only exception of \<open>consume\<close> besides its own is the \<open>TypeError\<close> of a comparison.\<close>

lemma consume_errors:
  assumes "consume_ticket E now i capability st = Inl e"
  shows "e = TypeErr \<or> (\<exists>c. e = ActivationTicketError c)"
proof (cases "activation_identity_is_valid i")
  case False
  with assms show ?thesis by (auto simp: consume_ticket_def ticket_error_def)
next
  case True
  have compare: "compare_all ps = Inl x \<Longrightarrow> x = TypeErr" for ps x
    by (induction ps rule: compare_all.induct) (auto simp: compare_digest_def err_simps split: if_splits)
  have reject: "rejection_reason E now t i capability = Inl x \<Longrightarrow> x = TypeErr" for t x
    by (auto simp: rejection_reason_def err_simps simp del: compare_all.simps dest!: compare split: if_splits)
  have path: "safe_absolute_path env h q = Inl x \<Longrightarrow> \<exists>a b. x = UnsafeStatePathError a b" for env h q x
    by (auto simp: safe_absolute_path_def ensure_existing_components_are_direct_def Let_def err_simps
        split: if_splits option.splits)
  let ?body = "ebind (safe_absolute_path (te_fs E) (te_home E) (ticket_path E (ai_session i))) (\<lambda>(_, p).
    if \<not> te_directory E then Inl (ticket_error ''required'')
    else if lock_busy (te_fs E) p then Inl (StateLockTimeoutError p)
    else ebind (read_activation_record (te_crypto E) p (te_key E) st) (\<lambda>t.
      if at_consumed t then Inl (ticket_error ''required'')
      else ebind (rejection_reason E now t i capability) (\<lambda>r.
        case r of
          Some code \<Rightarrow> Inl (ticket_error code)
        | None \<Rightarrow> Inr (write_activation_record (te_crypto E) p (te_key E) (t\<lparr>at_consumed := True\<rparr>) st))))"
  have "?body \<noteq> Inl (RuntimeErr c)" for c
  proof
    assume "?body = Inl (RuntimeErr c)"
    then show False
      using path [of _ _ _ "RuntimeErr c"] reject [of _ "RuntimeErr c"]
        read_record_errors [of _ _ _ _ "RuntimeErr c"]
      by (fastforce simp: err_simps ticket_error_def split: if_splits option.splits)
  qed
  moreover obtain x where "?body = Inl x" "e = consume_ticket_error x"
    using assms True by (auto simp: consume_ticket_def map_error_def split: sum.splits)
  moreover have "(\<forall>c. x \<noteq> RuntimeErr c) \<Longrightarrow> consume_ticket_error x = TypeErr \<or>
      (\<exists>c. consume_ticket_error x = ActivationTicketError c)" for x
    by (cases x) (auto simp: ticket_error_def)
  ultimately show ?thesis by metis
qed

section \<open>Properties\<close>

text \<open>
  The search for the invocation token decides exactly whether the literal occurs anywhere in the
  prompt with a valid boundary on both sides, and it always ends.
\<close>

theorem explicit_token_exact:
  "contains_explicit_work_on category prompt \<longleftrightarrow>
     (\<exists>before after. prompt = before @ WORK_ON_LITERAL @ after \<and>
        is_valid_token_boundary category (if before = [] then None else Some (last before)) \<and>
        is_valid_token_boundary category (if after = [] then None else Some (hd after)))"
proof -
  have at: "token_at category (b @ WORK_ON_LITERAL @ a) (length b) \<longleftrightarrow>
      is_valid_token_boundary category (if b = [] then None else Some (last b)) \<and>
      is_valid_token_boundary category (if a = [] then None else Some (hd a))" for b a
    by (auto simp: token_at_def Let_def last_conv_nth nth_append hd_conv_nth)
  have split: "\<exists>b a. prompt = b @ WORK_ON_LITERAL @ a \<and> length b = i"
    if "i \<le> length prompt" "take (length WORK_ON_LITERAL) (drop i prompt) = WORK_ON_LITERAL" for i
  proof -
    let ?r = "drop i prompt"
    have "prompt = take i prompt @ take (length WORK_ON_LITERAL) ?r @ drop (length WORK_ON_LITERAL) ?r"
      by (simp only: append_take_drop_id)
    then have "prompt = take i prompt @ WORK_ON_LITERAL @ drop (length WORK_ON_LITERAL) ?r"
      using that(2) by simp
    with that(1) show ?thesis by (metis length_take min.absorb2)
  qed
  show ?thesis (is "_ \<longleftrightarrow> ?occurs")
  proof
    assume "contains_explicit_work_on category prompt"
    then obtain i where i: "i \<le> length prompt"
      "take (length WORK_ON_LITERAL) (drop i prompt) = WORK_ON_LITERAL" "token_at category prompt i"
      by (auto simp: contains_explicit_work_on_def token_loop_iff)
    from split [OF i(1,2)] obtain b a where "prompt = b @ WORK_ON_LITERAL @ a" "length b = i" by blast
    with i(3) at [of b a] show ?occurs by blast
  next
    assume ?occurs
    then obtain b a where ba: "prompt = b @ WORK_ON_LITERAL @ a" "token_at category prompt (length b)"
      using at by blast
    then have "length b \<le> length prompt"
      "take (length WORK_ON_LITERAL) (drop (length b) prompt) = WORK_ON_LITERAL" by simp_all
    with ba(2) show "contains_explicit_work_on category prompt"
      unfolding contains_explicit_work_on_def token_loop_iff by blast
  qed
qed

text \<open>
  One authorization, one activation: after a ticket was consumed, no identity of that session
  and no capability can consume it again at any time, and issuing for the same turn again is
  refused without changing the consumed record (here for ASCII identities, see the next property).
\<close>

theorem ticket_consumed_once:
  assumes "consume_ticket E now i capability st = Inr st'" and "hex_digests (te_crypto E)"
    and "ai_session j = ai_session i" and "activation_identity_is_valid j"
  shows "consume_ticket E now' j capability' st' = Inl (ticket_error ''required'')"
    and "ascii (ai_session i) \<Longrightarrow> ascii (ai_turn i) \<Longrightarrow> ascii (ai_transcript i) \<Longrightarrow>
      issue_ticket E now' nonce i st' = Inr (False, st')"
proof -
  from assms(1) obtain r p t where t: "activation_identity_is_valid i"
    "safe_absolute_path (te_fs E) (te_home E) (ticket_path E (ai_session i)) = Inr (r, p)"
    "te_directory E" "\<not> lock_busy (te_fs E) p" "at_identity t = i"
    "st' = write_activation_record (te_crypto E) p (te_key E) (t\<lparr>at_consumed := True\<rparr>) st"
    by (rule consumed_ticket)
  have again: "read_activation_record (te_crypto E) p (te_key E) st' = Inr (t\<lparr>at_consumed := True\<rparr>)"
    unfolding t(6) by (rule read_written [OF assms(2)])
  show "consume_ticket E now' j capability' st' = Inl (ticket_error ''required'')"
    by (rule consumed_refused [OF assms(1-4)]) simp
  assume "ascii (ai_session i)" "ascii (ai_turn i)" "ascii (ai_transcript i)"
  then have "same_activation_identity (at_identity t) i = Inr True"
    unfolding same_activation_identity_def t(5) by (subst compare_all_ascii) auto
  moreover have "ensure_direct_regular_file (te_fs E) st' (te_home E) p = Inr ()"
  proof -
    have "safe_absolute_path (te_fs E) (te_home E) p = Inr (r, p)"
      using t(2) by (auto simp: safe_absolute_path_Inr)
    then show ?thesis
      by (rule abspath_ticket_regular) (simp add: t(6) written_record)
  qed
  moreover have "p = abspath (ticket_path E (ai_session i))" using t(2) by (simp add: safe_absolute_path_Inr)
  ultimately show "issue_ticket E now' nonce i st' = Inr (False, st')"
    using t(1,4) again by (simp add: issue_ticket_def prior_record_def)
qed


section \<open>A concrete activation\<close>

definition ex_tickets :: ticket_env where
  "ex_tickets =
     \<lparr>te_crypto = \<lparr>cr_hmac_hex = (\<lambda>k m. ''ab''), cr_hmac_token = (\<lambda>k m. ''tk''), cr_dumps = (\<lambda>v. ''{}'')\<rparr>,
      te_fs = \<lparr>redirected = (\<lambda>_. False), lock_busy = (\<lambda>_. False)\<rparr>, te_hash = id, te_home = [''h'', ''p''],
      te_key = replicate 32 (CHR ''k''), te_directory = True\<rparr>"

definition ex_identity :: activation_identity where
  "ex_identity = \<lparr>ai_session = ''s'', ai_turn = ''t'', ai_transcript = ''/h/t.jsonl''\<rparr>"

lemma ex_ticket_facts:
  "activation_identity_is_valid ex_identity" "ascii (ai_session ex_identity)"
  "ascii (ai_turn ex_identity)" "ascii (ai_transcript ex_identity)" "hex_digests (te_crypto ex_tickets)"
  "te_directory ex_tickets" "\<not> lock_busy (te_fs ex_tickets) q"
  "safe_absolute_path (te_fs ex_tickets) (te_home ex_tickets) (ticket_path ex_tickets (ai_session ex_identity)) =
     Inr ([''h'', ''p''], [''h'', ''p'', ''work-on-tickets'', ''s.json''])"
  "derive_control_capability (te_crypto ex_tickets) (te_key ex_tickets) (ai_session ex_identity) = Inr ''tk''"
  by (simp_all add: activation_identity_is_valid_def ex_identity_def MAX_TEXT_CHARS_def ascii_def
      hex_digests_def ex_tickets_def safe_absolute_path_Inr no_redirects ticket_path_def abspath_def
      strictly_below_def derive_control_capability_def KEY_BYTES_def MAX_SESSION_BYTES_def)

lemma ex_ticket_paths:
  "abspath (ticket_path ex_tickets (ai_session ex_identity)) = [''h'', ''p'', ''work-on-tickets'', ''s.json'']"
  "safe_absolute_path (te_fs ex_tickets) (te_home ex_tickets) [''h'', ''p'', ''work-on-tickets'', ''s.json''] =
     Inr ([''h'', ''p''], [''h'', ''p'', ''work-on-tickets'', ''s.json''])"
  by (simp_all add: ex_identity_def ex_tickets_def safe_absolute_path_Inr no_redirects ticket_path_def
      abspath_def strictly_below_def)

lemma ex_consumed: "\<exists>st' st''. issue_ticket ex_tickets 10 ''n'' ex_identity Map.empty = Inr (True, st') \<and>
  consume_ticket ex_tickets 130 ex_identity ''tk'' st' = Inr st'' \<and>
  (\<forall>q. q \<noteq> [''h'', ''p'', ''work-on-tickets'', ''s.json''] \<longrightarrow> st'' q = None)"
proof -
  let ?p = "[''h'', ''p'', ''work-on-tickets'', ''s.json'']"
  let ?t = "\<lparr>at_identity = ex_identity, at_binding = ''ab'', at_issued = 10, at_nonce = ''n'',
    at_consumed = False\<rparr>"
  have i: "issue_ticket ex_tickets 10 ''n'' ex_identity Map.empty =
      Inr (True, write_activation_record (te_crypto ex_tickets) ?p (te_key ex_tickets) ?t Map.empty)"
    using ex_ticket_facts ex_ticket_paths
    by (simp add: issue_ticket_def prior_record_def read_activation_record_def issue_fresh_def
        ensure_direct_regular_file_def) (simp add: capability_binding_def ex_tickets_def)
  have "consume_ticket ex_tickets 130 ex_identity ''tk''
      (write_activation_record (te_crypto ex_tickets) ?p (te_key ex_tickets) ?t Map.empty) =
      Inr (write_activation_record (te_crypto ex_tickets) ?p (te_key ex_tickets)
        (?t\<lparr>at_consumed := True\<rparr>)
        (write_activation_record (te_crypto ex_tickets) ?p (te_key ex_tickets) ?t Map.empty))"
    using ex_ticket_facts read_written [OF ex_ticket_facts(5), of ?p "te_key ex_tickets" ?t]
    by (simp add: consume_ticket_def rejection_reason_def ticket_expired_def TTL_SECONDS_def
        compare_digest_def) (simp add: capability_binding_def ex_tickets_def ascii_def)
  with i show ?thesis by (intro exI conjI) (assumption, assumption, simp add: written_file)
qed

theorem ticket_consumed_once_witness:
  "\<exists>st' st''. consume_ticket ex_tickets 130 ex_identity ''tk'' st' = Inr st'' \<and>
     consume_ticket ex_tickets 131 ex_identity ''tk'' st'' = Inl (ticket_error ''required'') \<and>
     issue_ticket ex_tickets 131 ''m'' ex_identity st'' = Inr (False, st'')"
proof -
  obtain st' st'' where c: "consume_ticket ex_tickets 130 ex_identity ''tk'' st' = Inr st''"
    using ex_consumed by blast
  show ?thesis
    by (intro exI conjI, rule c)
      (rule ticket_consumed_once [OF c ex_ticket_facts(5) refl ex_ticket_facts(1)] ex_ticket_facts(2-4))+
qed


end
