(* ===== verification/NotificationDaemon.thy ===== *)
theory NotificationDaemon
  imports WatcherEngine Scheduler
begin

text \<open>
  \<open>scripts/notification_session.py\<close>, \<open>notification_daemon.py\<close> and \<open>monitor_models.py\<close>: the
  resident passive service. It persists one document per monitored session, ticks the watcher
  (theory WatcherEngine) from one scheduled callback (theory Scheduler) and answers the four
  controls. The re-entrant lock serialises the operations, so each is one atomic step; the clock
  readings of an operation are its arguments. Path resolution of transcripts (\<open>Path.resolve\<close>, file
  and link tests outside the state root) is the environment.
\<close>

section \<open>Control values\<close>

record start_request =
  sr_session :: string
  sr_transcript :: path
  sr_warning :: int
  sr_critical :: int

record tool_result =
  tr_session :: string
  tr_status :: string
  tr_enabled :: "bool option"
  tr_reused :: "bool option"
  tr_error :: "string option"

record daemon_env =
  de_monitor :: monitor_env
  de_resolve :: "path \<Rightarrow> path"
  de_transcript :: "path \<Rightarrow> bool"
  de_link :: "path \<Rightarrow> bool"

abbreviation de_home :: "daemon_env \<Rightarrow> path" where
  "de_home D \<equiv> me_home (de_monitor D)"

abbreviation de_fs :: "daemon_env \<Rightarrow> fs_env" where
  "de_fs D \<equiv> me_fs (de_monitor D)"

abbreviation de_lib :: "daemon_env \<Rightarrow> pylib" where
  "de_lib D \<equiv> me_lib (de_monitor D)"

section \<open>Notification sessions\<close>

definition session_path :: "daemon_env \<Rightarrow> string \<Rightarrow> path" where
  "session_path D sid = runtime_path (sha (de_lib D)) (de_home D) sid"

definition session_cursor :: "daemon_env \<Rightarrow> string \<Rightarrow> path" where
  "session_cursor D sid = cursor_path (sha (de_lib D)) (de_home D) sid"

text \<open>The loop over \<open>(codex_home, *resolved.parents)\<close>; the parents run from the nearest up.\<close>

fun transcript_links :: "daemon_env \<Rightarrow> path \<Rightarrow> path list \<Rightarrow> exn + unit" where
  "transcript_links D codex [] = Inr ()"
| "transcript_links D codex (c # cs) =
     (if c = butlast codex \<and> c \<noteq> codex then Inr ()
      else if de_link D c then Inl (DaemonServiceError ''transcript_path_invalid'')
      else if c = codex then Inr ()
      else transcript_links D codex cs)"

definition parents_of :: "path \<Rightarrow> path list" where
  "parents_of p = map (\<lambda>n. take n p) (rev [0 ..< length p])"

fun join_posix :: "path \<Rightarrow> string" where
  "join_posix [] = []"
| "join_posix [c] = c"
| "join_posix (c # cs) = c @ CHR ''/'' # join_posix cs"

definition relative_transcript :: "daemon_env \<Rightarrow> path \<Rightarrow> exn + string" where
  "relative_transcript D transcript =
     (let codex = de_resolve D (butlast (de_home D));
          resolved = de_resolve D transcript
      in if \<not> de_transcript D resolved \<or> resolved = codex \<or> \<not> prefix codex resolved
         then Inl (DaemonServiceError ''transcript_path_invalid'')
         else ebind (transcript_links D codex (codex # parents_of resolved)) (\<lambda>_.
           Inr (join_posix (drop (length codex) resolved))))"

definition session_matches :: "dict \<Rightarrow> start_request \<Rightarrow> string \<Rightarrow> bool" where
  "session_matches vals r relative =
     (let c = (if dget vals ''critical_after_ms'' = JNull
               then dget vals ''restart_after_ms'' else dget vals ''critical_after_ms'')
      in dget vals ''enabled'' = JBool True \<and>
         py_eq (dget vals ''session_id'') (JStr (sr_session r)) \<and>
         py_eq (dget vals ''transcript_path'') (JStr relative) \<and>
         py_eq (dget vals ''warning_after_ms'') (JInt (sr_warning r)) \<and>
         py_eq c (JInt (sr_critical r)))"

definition session_monitor :: "string \<Rightarrow> dict" where
  "session_monitor now =
     [(''status'', JStr ''running''), (''generation'', JInt 1), (''silence_started_at'', JStr now),
      (''open_tool_count'', JInt 0), (''waiting_for_approval'', JBool False),
      (''waiting_for_user'', JBool False), (''progress_epoch'', JInt 0)]"

definition session_values :: "start_request \<Rightarrow> string \<Rightarrow> string \<Rightarrow> dict" where
  "session_values r relative now =
     [(''session_id'', JStr (sr_session r)), (''enabled'', JBool True),
      (''warning_after_ms'', JInt (sr_warning r)), (''critical_after_ms'', JInt (sr_critical r)),
      (''transcript_path'', JStr relative), (''parent_turn_id'', JNull),
      (''parent_complete'', JBool False), (''parent'', JObj (session_monitor now)),
      (''children'', JObj []), (''turn_activity_epoch'', JInt 0), (''revision'', JInt 0),
      (''completion_event_id'', JNull)]"

definition start_notification_session ::
  "daemon_env \<Rightarrow> start_request \<Rightarrow> time \<Rightarrow> store \<Rightarrow> exn + bool \<times> store" where
  "start_notification_session D r wall st =
     ebind (relative_transcript D (sr_transcript r)) (\<lambda>relative.
     let p = session_path D (sr_session r)
     in if is_file st (abspath p)
        then ebind (load_state (de_fs D) (de_home D) p st) (\<lambda>vals.
          if session_matches vals r relative then Inr (True, st)
          else Inl (DaemonServiceError ''monitoring_reconfiguration_requires_work_off''))
        else ebind (save_state (de_fs D) (de_home D) p
            (session_values r relative (zulu (toiso (de_lib D) wall))) SCHEMA_VERSION st) (\<lambda>st'.
          Inr (False, st')))"

definition notification_session_active :: "daemon_env \<Rightarrow> string \<Rightarrow> store \<Rightarrow> exn + bool" where
  "notification_session_active D sid st =
     (if \<not> is_file st (abspath (session_path D sid)) then Inr False
      else ebind (load_state (de_fs D) (de_home D) (session_path D sid) st) (\<lambda>vals.
        Inr (dget vals ''enabled'' = JBool True)))"

definition complete_values :: "path \<Rightarrow> dict \<Rightarrow> exn + bool \<times> dict" where
  "complete_values p vals =
     (if dget vals ''enabled'' \<noteq> JBool True then Inr (False, vals)
      else case dget_or vals ''revision'' (JInt 0) of
          JInt n \<Rightarrow>
            if n < 0 then Inl (CorruptStateError p INVALID_VALUE)
            else Inr (True, dset ''revision'' (JInt (n + 1)) (dset ''parent_complete'' (JBool True) vals))
        | _ \<Rightarrow> Inl (CorruptStateError p INVALID_VALUE))"

definition mark_notification_session_complete ::
  "daemon_env \<Rightarrow> string \<Rightarrow> store \<Rightarrow> (exn + bool) \<times> store" where
  "mark_notification_session_complete D sid st =
     (let p = session_path D sid
      in if \<not> is_file st (abspath p) then (Inr False, st)
         else case locked_update (de_fs D) (de_home D) p (complete_values p) st of
             (Inl e, st') \<Rightarrow> (Inl e, st')
           | (Inr r, st') \<Rightarrow> (Inr (r = Some True), st'))"

text \<open>\<open>unlink(missing_ok=True)\<close> fails on a directory.\<close>

definition unlink :: "path \<Rightarrow> store \<Rightarrow> exn + store" where
  "unlink p st = (if st p = Some NonFile then Inl OSErr else Inr (st(p := None)))"

definition remove_notification_session ::
  "daemon_env \<Rightarrow> string \<Rightarrow> store \<Rightarrow> (exn + unit) \<times> store" where
  "remove_notification_session D sid st =
     (case unlink (abspath (session_path D sid)) st of
        Inl e \<Rightarrow> (Inl e, st)
      | Inr st1 \<Rightarrow>
          (case unlink (abspath (session_cursor D sid)) st1 of
             Inl e \<Rightarrow> (Inl e, st1)
           | Inr st2 \<Rightarrow> (Inr (), st2)))"

section \<open>The service\<close>

text \<open>The scheduler holds one kind of callback, \<open>_reconcile\<close>, so its callbacks are \<open>unit\<close>.\<close>

record service =
  nd_watcher :: watcher
  nd_scheduler :: "unit scheduler"
  nd_closed :: bool

type_synonym world = "service \<times> store"

definition TICK_KEY :: string where
  "TICK_KEY = ''notification-watcher''"

definition POLL_SECONDS :: time where
  "POLL_SECONDS = 1"

definition state_unavailable :: exn where
  "state_unavailable = DaemonServiceError ''monitoring_state_unavailable''"

fun os_error :: "exn \<Rightarrow> bool" where
  "os_error (UnsafeRolloutPathError _) = True"
| "os_error (RolloutRotatedError _) = True"
| "os_error (FileNotFoundError _) = True"
| "os_error (UnsafeDiagnosticPathError _) = True"
| "os_error OSErr = True"
| "os_error (CodexExecutableError _) = True"
| "os_error _ = False"

fun state_error :: "exn \<Rightarrow> bool" where
  "state_error (CorruptStateError _ _) = True"
| "state_error (FutureSchemaError _ _) = True"
| "state_error (UnsafeStatePathError _ _) = True"
| "state_error (StateLockTimeoutError _) = True"
| "state_error (CalibrationStateError _ _) = True"
| "state_error (ActivationTicketError _) = True"
| "state_error ActivationRecordError = True"
| "state_error (StateErr _) = True"
| "state_error (PrivateRootError _) = True"
| "state_error _ = False"

fun value_error :: "exn \<Rightarrow> bool" where
  "value_error (RolloutCorruptError _ _) = True"
| "value_error (InvalidDiagnosticError _) = True"
| "value_error NotificationSubjectError = True"
| "value_error (ActivationFenceError _) = True"
| "value_error (ThresholdSettingsError _) = True"
| "value_error (SessionIdentityError _) = True"
| "value_error UnsupportedLocalPathError = True"
| "value_error (ValueErr _) = True"
| "value_error _ = False"

text \<open>\<open>try: ... except DaemonServiceError: raise; except (OSError, StateError, ValueError)\<close>.\<close>

definition guarded :: "(exn \<Rightarrow> bool) \<Rightarrow> (exn, world, 'a) step \<Rightarrow> (exn, world, 'a) step" where
  "guarded handled m = (\<lambda>w.
     case m w of
       (Inl (DaemonServiceError r), w') \<Rightarrow> (Inl (DaemonServiceError r), w')
     | (Inl e, w') \<Rightarrow> (Inl (if handled e then state_unavailable else e), w')
     | (Inr a, w') \<Rightarrow> (Inr a, w'))"

definition require_open :: "(exn, world, unit) step" where
  "require_open = (\<lambda>w. if nd_closed (fst w) then (Inl (DaemonServiceError ''daemon_closed''), w)
                       else (Inr (), w))"

definition schedule_tick :: "bool \<Rightarrow> time \<Rightarrow> (exn, world, unit) step" where
  "schedule_tick immediate now = (\<lambda>(s, st).
     case schedule TICK_KEY (now + (if immediate then 0 else POLL_SECONDS)) () (nd_scheduler s) of
       Inl (SchedulerError r) \<Rightarrow> (Inl (SchedulerErr r), (s, st))
     | Inr sch \<Rightarrow> (Inr (), (s\<lparr>nd_scheduler := sch\<rparr>, st)))"

text \<open>Lifting a step on the store, and the watcher's tick on the files of \<open>runtime\<close>.\<close>

definition on_store :: "(store \<Rightarrow> (exn + 'a) \<times> store) \<Rightarrow> (exn, world, 'a) step" where
  "on_store m = (\<lambda>(s, st). case m st of (r, st') \<Rightarrow> (r, (s, st')))"

definition watcher_tick :: "daemon_env \<Rightarrow> source_env \<Rightarrow> path list \<Rightarrow> tick_context \<Rightarrow>
  (exn, world, bool) step" where
  "watcher_tick D so listing ctx = (\<lambda>(s, st).
     case engine_tick (de_monitor D) so listing ctx (nd_watcher s, st) of
       (r, (x, st')) \<Rightarrow> (r, (s\<lparr>nd_watcher := x\<rparr>, st')))"

definition new_service :: "diag_log \<Rightarrow> lifecycle_notification list \<Rightarrow> path list \<Rightarrow> time \<Rightarrow> service" where
  "new_service lg sent listing now =
     (let s = \<lparr>nd_watcher = fresh_watcher lg sent, nd_scheduler = new_scheduler, nd_closed = False\<rparr>
      in if discover_runtime_files listing = [] then s
         else fst (snd (schedule_tick True now (s, Map.empty))))"

definition service_start ::
  "daemon_env \<Rightarrow> start_request \<Rightarrow> tick_context \<Rightarrow> (exn, world, tool_result) step" where
  "service_start D r ctx =
     guarded (\<lambda>e. os_error e \<or> state_error e \<or> value_error e)
       (sbind require_open (\<lambda>_.
        sbind (on_store (\<lambda>st. case start_notification_session D r (tc_wall_time ctx) st of
                 Inl e \<Rightarrow> (Inl e, st) | Inr (reused, st') \<Rightarrow> (Inr reused, st'))) (\<lambda>reused.
        sbind (schedule_tick True (tc_now ctx)) (\<lambda>_.
        sret \<lparr>tr_session = sr_session r, tr_status = ''active'', tr_enabled = Some True,
              tr_reused = Some reused, tr_error = None\<rparr>))))"

definition service_stop :: "daemon_env \<Rightarrow> string \<Rightarrow> (exn, world, tool_result) step" where
  "service_stop D sid =
     guarded (\<lambda>e. os_error e \<or> state_error e)
       (sbind require_open (\<lambda>_.
        sbind (on_store (remove_notification_session D sid)) (\<lambda>_.
        sret \<lparr>tr_session = sid, tr_status = ''stopped'', tr_enabled = Some False,
              tr_reused = None, tr_error = None\<rparr>)))"

definition service_complete ::
  "daemon_env \<Rightarrow> source_env \<Rightarrow> path list \<Rightarrow> string \<Rightarrow> tick_context \<Rightarrow>
   (exn, world, tool_result) step" where
  "service_complete D so listing sid ctx =
     guarded (\<lambda>e. os_error e \<or> state_error e \<or> value_error e)
       (sbind require_open (\<lambda>_.
        sbind (on_store (mark_notification_session_complete D sid)) (\<lambda>marked.
        sbind (if marked then sbind (watcher_tick D so listing ctx) (\<lambda>_. sret ()) else sret ()) (\<lambda>_.
        sbind (on_store (remove_notification_session D sid)) (\<lambda>_.
        sret \<lparr>tr_session = sid, tr_status = ''completed'', tr_enabled = Some False,
              tr_reused = None, tr_error = None\<rparr>)))))"

definition service_status :: "daemon_env \<Rightarrow> string \<Rightarrow> (exn, world, tool_result) step" where
  "service_status D sid =
     guarded (\<lambda>e. os_error e \<or> state_error e)
       (sbind require_open (\<lambda>_.
        sbind (on_store (\<lambda>st. (notification_session_active D sid st, st))) (\<lambda>enabled.
        sbind (sget (\<lambda>(s, st). scheduler_status (nd_scheduler s))) (\<lambda>(health, failures, last_error).
        sret (if enabled \<and> health \<noteq> SCHEDULER_HEALTHY
              then \<lparr>tr_session = sid,
                    tr_status = (if health = SCHEDULER_DEGRADED then ''degraded'' else ''unavailable''),
                    tr_enabled = Some True, tr_reused = None, tr_error = last_error\<rparr>
              else \<lparr>tr_session = sid, tr_status = (if enabled then ''active'' else ''inactive''),
                    tr_enabled = Some enabled, tr_reused = None, tr_error = None\<rparr>)))))"

definition service_observe ::
  "daemon_env \<Rightarrow> source_env \<Rightarrow> path list \<Rightarrow> tick_context \<Rightarrow> (exn, world, bool) step" where
  "service_observe D so listing ctx =
     sbind require_open (\<lambda>_. watcher_tick D so listing ctx)"

definition service_close :: "world \<Rightarrow> world" where
  "service_close = (\<lambda>(s, st).
     if nd_closed s then (s, st)
     else (s\<lparr>nd_closed := True, nd_scheduler := close_scheduler (nd_scheduler s)\<rparr>, st))"

text \<open>
  \<open>_reconcile\<close>: \<open>finally\<close> schedules the next tick, also when this one raised; \<open>later\<close> is the clock
  reading of the second call.
\<close>

definition reconcile ::
  "daemon_env \<Rightarrow> source_env \<Rightarrow> path list \<Rightarrow> tick_context \<Rightarrow> time \<Rightarrow> (exn, world, unit) step" where
  "reconcile D so listing ctx later = (\<lambda>w.
     if nd_closed (fst w) then (Inr (), w)
     else case watcher_tick D so listing ctx w of
         (Inl e, w') \<Rightarrow>
           (case schedule_tick False later w' of (Inl e', w'') \<Rightarrow> (Inl e', w'') | (Inr _, w'') \<Rightarrow> (Inl e, w''))
       | (Inr active, w') \<Rightarrow> if active then schedule_tick False later w' else (Inr (), w'))"

section \<open>Lemmas: transcripts\<close>

definition clean_path :: "path \<Rightarrow> bool" where
  "clean_path p \<longleftrightarrow> (\<forall>c \<in> set p. c \<notin> {'''', ''.'', ''..''} \<and> CHR ''/'' \<notin> set c)"

text \<open>
  What the code relies on of \<open>Path.resolve\<close>: resolved paths are absolute, without \<open>.\<close> and \<open>..\<close> and
  without links, and the plugin root lies directly in the resolved Codex home.
\<close>

definition resolves :: "daemon_env \<Rightarrow> bool" where
  "resolves D \<longleftrightarrow> de_resolve D (butlast (de_home D)) = abspath (butlast (de_home D)) \<and>
     (\<forall>p. clean_path (de_resolve D p) \<and>
        (\<forall>q. prefix q (de_resolve D p) \<longrightarrow> \<not> redirected (de_fs D) q))"

lemma split_join: "clean_path cs \<Longrightarrow> cs \<noteq> [] \<Longrightarrow> split_on (CHR ''/'') (join_posix cs) = cs"
proof (induction cs rule: join_posix.induct)
  case (2 c)
  then show ?case by (simp add: clean_path_def split_on_no)
next
  case (3 c v va)
  then show ?case by (simp add: clean_path_def split_on_at)
qed simp

lemma posix_parts_join: "clean_path cs \<Longrightarrow> cs \<noteq> [] \<Longrightarrow> posix_parts (join_posix cs) = cs"
  by (auto simp: posix_parts_def split_join clean_path_def intro!: filter_True)

lemma join_head: "c \<noteq> [] \<Longrightarrow> join_posix (c # cs) \<noteq> [] \<and> hd (join_posix (c # cs)) = hd c"
  by (cases cs) simp_all

lemma join_relative:
  assumes "clean_path cs" and "cs \<noteq> []"
  shows "\<not> is_absolute (join_posix cs) \<and> join_posix cs \<noteq> []"
proof -
  obtain c r where cs: "cs = c # r" using assms(2) by (cases cs) auto
  with assms(1) have "c \<noteq> []" "CHR ''/'' \<notin> set c" by (auto simp: clean_path_def)
  then have "hd c \<noteq> CHR ''/''" by (metis hd_in_set)
  with join_head [OF \<open>c \<noteq> []\<close>, of r] show ?thesis by (simp add: cs is_absolute_def)
qed

lemma clean_drop: "clean_path p \<Longrightarrow> clean_path (drop n p)"
  by (auto simp: clean_path_def dest: in_set_dropD)

lemma components_prefix:
  "prefix h p \<Longrightarrow> c \<in> set (components_from h p) \<Longrightarrow> prefix c p"
  by (auto simp: components_from_def prefix_def) (metis append_assoc append_take_drop_id)

lemma relative_resolves:
  assumes "relative_transcript D transcript = Inr rel" and "resolves D"
  shows "resolve_rollout_path (de_fs D) (de_home D) rel = Inr (de_resolve D transcript)"
    and "rel \<noteq> []"
proof -
  let ?c = "de_resolve D (butlast (de_home D))" and ?r = "de_resolve D transcript"
  let ?d = "drop (length ?c) ?r"
  from assms(1) have "prefix ?c ?r" "?r \<noteq> ?c" and rel: "rel = join_posix ?d"
    by (auto simp: relative_transcript_def Let_def err_simps split: if_splits)
  then have r: "?r = ?c @ ?d" and ne: "?d \<noteq> []" by (auto simp: prefix_def)
  have clean: "clean_path ?r" "clean_path ?d"
    using assms(2) clean_drop by (auto simp: resolves_def)
  have c: "abspath (butlast (de_home D)) = ?c" using assms(2) by (simp add: resolves_def)
  have "{'''', ''.'', ''..''} \<inter> set ?r = {}" using clean(1) by (auto simp: clean_path_def)
  then have "abspath ?r = ?r" using abspath_onto_id [of ?r "[]"] by (simp add: abspath_def)
  moreover have "\<not> redirected (de_fs D) q" if "q \<in> set (tl (components_from ?c ?r))" for q
  proof -
    have "q \<in> set (components_from ?c ?r)" using that by (metis list.sel(2) list.set_sel(2))
    then have "prefix q ?r" by (rule components_prefix [OF \<open>prefix ?c ?r\<close>])
    with assms(2) show ?thesis unfolding resolves_def by blast
  qed
  then have "List.find (redirected (de_fs D)) (tl (components_from ?c ?r)) = None"
    by (simp add: find_None_iff)
  moreover have "strictly_below ?c ?r"
    using \<open>prefix ?c ?r\<close> \<open>?r \<noteq> ?c\<close> by (simp add: strictly_below_def)
  ultimately show "resolve_rollout_path (de_fs D) (de_home D) rel = Inr ?r"
    using join_relative [OF clean(2) ne] posix_parts_join [OF clean(2) ne] r
    by (simp add: resolve_rollout_path_def rel c)
  show "rel \<noteq> []" using join_relative [OF clean(2) ne] rel by simp
qed

text \<open>
  The loop over the parents never looks at one: its first candidate is the home, where it stops.
\<close>

lemma only_home_checked:
  "transcript_links D codex (codex # ps) =
     (if de_link D codex \<and> codex \<noteq> [] then Inl (DaemonServiceError ''transcript_path_invalid'')
      else if codex = [] then transcript_links D codex [codex] else Inr ())"
  by (cases codex rule: rev_cases) auto

section \<open>Lemmas: documents\<close>

lemma loaded_dget:
  "\<forall>k. map_of d k = map_option jsort (map_of vals k) \<Longrightarrow>
   dget d k = (case map_of vals k of None \<Rightarrow> JNull | Some v \<Rightarrow> jsort v)"
  "\<forall>k. map_of d k = map_option jsort (map_of vals k) \<Longrightarrow>
   dget_or d k v0 = (case map_of vals k of None \<Rightarrow> v0 | Some v \<Rightarrow> jsort v)"
  by (auto simp: dget_def dget_or_def split: option.splits)

lemma sorted_dget:
  "ddistinct d \<Longrightarrow> dget (sort_dict d) k = (case map_of d k of None \<Rightarrow> JNull | Some v \<Rightarrow> jsort v)"
  "ddistinct d \<Longrightarrow> dget_or (sort_dict d) k v0 = (case map_of d k of None \<Rightarrow> v0 | Some v \<Rightarrow> jsort v)"
  by (auto simp: dget_def dget_or_def map_of_sort_dict split: option.splits)

lemma jsort_obj: "jsort (JObj d) = JObj (sort_dict d)"
  by (simp add: sort_dict_def)

lemma session_monitor_parse:
  assumes "fromiso lib now = Some t"
  shows "target_monitor lib (sort_dict (session_monitor now)) tid p = Inr
    \<lparr>target_id = tid, generation = 1, mt_terminal = False, mt_open_tool_count = 0,
     mt_waiting_for_approval = False, mt_waiting_for_user = False, progress_epoch = 0,
     started_at = Some t\<rparr>"
proof -
  have "ddistinct (session_monitor now)" by (simp add: session_monitor_def ddistinct_def)
  note s = sorted_dget [OF this]
  let ?d = "sort_dict (session_monitor now)"
  have "dget ?d ''status'' = JStr ''running''" "dget ?d ''generation'' = JInt 1"
    "dget ?d ''silence_started_at'' = JStr now" "dget ?d ''open_tool_count'' = JInt 0"
    "dget ?d ''waiting_for_approval'' = JBool False" "dget ?d ''waiting_for_user'' = JBool False"
    "dget_or ?d ''progress_epoch'' (JInt 0) = JInt 0"
    unfolding s by (simp_all add: session_monitor_def)
  then show ?thesis
    using assms by (simp add: target_monitor_def get_string_def get_integer_def get_boolean_def
        get_optional_integer_def get_optional_datetime_def)
qed

lemma wf_session_values: "wf_json (JObj (session_values r rel now))"
  by (simp add: session_values_def session_monitor_def ddistinct_def)

lemma session_values_parse:
  assumes "\<forall>k. map_of d k = map_option jsort (map_of (session_values r rel now) k)"
    and "fromiso (de_lib D) now = Some t" and "sr_session r \<noteq> []"
    and "0 < sr_warning r" and "sr_warning r < sr_critical r"
    and "resolve_rollout_path (de_fs D) (de_home D) rel = Inr rollout" and "rel \<noteq> []"
  shows "runtime_target_from_values (de_lib D) (de_fs D) (de_home D) (session_path D (sr_session r)) d =
    Inr \<lparr>session_id = sr_session r, runtime_file = session_path D (sr_session r),
      rollout_file = rollout, parent_turn_id = None, rt_parent_complete = False,
      rt_thresholds = \<lparr>warning = sr_warning r / 1000, critical = sr_critical r / 1000\<rparr>,
      turn_activity = 0, revision = 0,
      rt_parent = Some \<lparr>target_id = None, generation = 1, mt_terminal = False,
        mt_open_tool_count = 0, mt_waiting_for_approval = False, mt_waiting_for_user = False,
        progress_epoch = 0, started_at = Some t\<rparr>,
      rt_children = []\<rparr>"
proof -
  have g: "dget d ''session_id'' = JStr (sr_session r)" "dget d ''transcript_path'' = JStr rel"
    "dget d ''parent_turn_id'' = JNull" "dget d ''warning_after_ms'' = JInt (sr_warning r)"
    "dget d ''critical_after_ms'' = JInt (sr_critical r)" "dget d ''parent_complete'' = JBool False"
    "dget_or d ''turn_activity_epoch'' (JInt 0) = JInt 0" "dget_or d ''revision'' (JInt 0) = JInt 0"
    "dget d ''parent'' = JObj (sort_dict (session_monitor now))" "dget d ''children'' = JObj []"
    by (simp_all add: loaded_dget [OF assms(1)] session_values_def jsort_obj del: jsort.simps(1))
      (simp_all add: sort_dict_def)
  have "parse_thresholds (sr_warning r) (sr_critical r) p =
      Inr \<lparr>warning = sr_warning r / 1000, critical = sr_critical r / 1000\<rparr>" for p
    using assms(4,5) by (simp add: parse_thresholds_def mk_thresholds_def)
  with assms(2-7) g show ?thesis
    by (simp add: runtime_target_from_values_def get_string_def get_integer_def get_boolean_def
        get_optional_integer_def critical_ms_def parse_parent_turn_def target_parent_def
        target_children_def session_monitor_parse session_path_def)
qed

section \<open>Lemmas: which exceptions\<close>

text \<open>What loading and saving a document can raise are errors of the state layer or the system.\<close>

lemma load_state_errors: "load_state env home p st = Inl e \<Longrightarrow> state_error e \<or> os_error e"
  by (auto simp: load_state_def err_simps safe_absolute_path_def Let_def check_schema_def
      ensure_existing_components_are_direct_def ensure_direct_regular_file_def
      split: if_splits option.splits disk_file.splits json.splits)

lemma save_state_errors: "save_state env home p vals v st = Inl e \<Longrightarrow> state_error e \<or> os_error e"
  using load_state_errors
  by (fastforce simp: save_state_def err_simps safe_absolute_path_def Let_def check_schema_def
      ensure_existing_components_are_direct_def split: if_splits option.splits)

lemma relative_errors: "relative_transcript D t = Inl e \<Longrightarrow> e = DaemonServiceError ''transcript_path_invalid''"
proof -
  have links: "transcript_links D codex cs = Inl e \<Longrightarrow> e = DaemonServiceError ''transcript_path_invalid''"
    for codex cs by (induction cs) (auto split: if_splits)
  assume "relative_transcript D t = Inl e"
  then show ?thesis
    by (auto simp: relative_transcript_def Let_def err_simps split: if_splits dest: links)
qed

lemma start_session_errors:
  "start_notification_session D r wall st = Inl e \<Longrightarrow> state_error e \<or> os_error e \<or> (\<exists>c. e = DaemonServiceError c)"
  using load_state_errors save_state_errors relative_errors
  by (fastforce simp: start_notification_session_def Let_def err_simps split: if_splits)

lemma guarded_errors:
  "guarded handled m w = (Inl e, w') \<Longrightarrow> (\<exists>r. e = DaemonServiceError r) \<or>
     (\<not> handled e \<and> (\<exists>w''. m w = (Inl e, w'')))"
  by (auto simp: guarded_def state_unavailable_def split: prod.splits sum.splits exn.splits if_splits)

lemma guarded_Inr: "guarded handled m w = (Inr a, w') \<longleftrightarrow> m w = (Inr a, w')"
  by (auto simp: guarded_def split: prod.splits sum.splits exn.splits if_splits)

lemma sbind_Inl:
  "sbind m f s = (Inl e, s') \<longleftrightarrow> m s = (Inl e, s') \<or> (\<exists>a s1. m s = (Inr a, s1) \<and> f a s1 = (Inl e, s'))"
  by (auto simp: sbind_def split: prod.splits sum.splits)

lemma sbind_Inr:
  "sbind m f s = (Inr b, s') \<longleftrightarrow> (\<exists>a s1. m s = (Inr a, s1) \<and> f a s1 = (Inr b, s'))"
  by (auto simp: sbind_def split: prod.splits sum.splits)

section \<open>Lemmas: the scheduled tick\<close>

definition tick_ready :: "world \<Rightarrow> bool" where
  "tick_ready w \<longleftrightarrow> sched_ok (nd_scheduler (fst w)) \<and> \<not> nd_closed (fst w) \<and>
     \<not> sc_closed (nd_scheduler (fst w)) \<and> sc_health (nd_scheduler (fst w)) \<noteq> SCHEDULER_FATAL"

definition tick_pending :: "world \<Rightarrow> bool" where
  "tick_pending w \<longleftrightarrow> tick_ready w \<and> deadlines (nd_scheduler (fst w)) TICK_KEY \<noteq> None"

lemma deadlines_scheduled:
  "sched_ok s \<Longrightarrow> schedule k d c s = Inr s' \<Longrightarrow> deadlines s' k = Some (d, c)"
  unfolding deadlines_live [OF sched_ok_schedule]
  by (rule exI [of _ "Entry d (sc_sequence s + 1) k (sc_sequence s + 1) c"]) (simp add: live_schedule)

lemma schedule_ready:
  "k \<noteq> [] \<Longrightarrow> sc_health s \<noteq> SCHEDULER_FATAL \<Longrightarrow> \<not> sc_closed s \<Longrightarrow>
   \<exists>s'. schedule k d c s = Inr s' \<and> sc_health s' = sc_health s \<and> sc_closed s' = sc_closed s"
  by (simp add: schedule_def Let_def)

lemma schedule_tick_ready:
  assumes "tick_ready (s, st)"
  obtains sch where "schedule_tick immediate now (s, st) = (Inr (), (s\<lparr>nd_scheduler := sch\<rparr>, st))"
    and "tick_pending (s\<lparr>nd_scheduler := sch\<rparr>, st)"
    and "deadlines sch TICK_KEY = Some (now + (if immediate then 0 else POLL_SECONDS), ())"
proof -
  let ?d = "now + (if immediate then 0 else POLL_SECONDS)"
  obtain sch where sch: "schedule TICK_KEY ?d () (nd_scheduler s) = Inr sch"
    "sc_health sch = sc_health (nd_scheduler s)" "sc_closed sch = sc_closed (nd_scheduler s)"
    using schedule_ready [of TICK_KEY "nd_scheduler s" ?d "()"] assms
    by (auto simp: tick_ready_def TICK_KEY_def)
  moreover have "sched_ok sch" "deadlines sch TICK_KEY = Some (?d, ())"
    using sched_ok_schedule [OF _ sch(1)] deadlines_scheduled [OF _ sch(1)] assms
    by (auto simp: tick_ready_def)
  ultimately show ?thesis
    using assms that by (auto simp: schedule_tick_def tick_pending_def tick_ready_def)
qed

lemma pending_fields [simp]:
  "tick_ready (s\<lparr>nd_watcher := x\<rparr>, st) = tick_ready (s, st)"
  "tick_pending (s\<lparr>nd_watcher := x\<rparr>, st) = tick_pending (s, st)"
  by (simp_all add: tick_ready_def tick_pending_def)

lemma pending_any_store:
  "tick_ready (s, st) \<longleftrightarrow> tick_ready (s, st')" "tick_pending (s, st) \<longleftrightarrow> tick_pending (s, st')"
  by (simp_all add: tick_ready_def tick_pending_def)

lemma keeps_pending [keeps_intros]:
  "keeps tick_pending (on_store m)" "keeps tick_pending (watcher_tick D so listing ctx)"
  "keeps tick_pending require_open" "keeps tick_pending (schedule_tick immediate now)"
proof -
  show "keeps tick_pending (on_store m)"
    by (auto simp: keeps_def on_store_def split: prod.splits) (metis pending_any_store(2))
  show "keeps tick_pending (watcher_tick D so listing ctx)"
    by (auto simp: keeps_def watcher_tick_def split: prod.splits)
      (metis pending_any_store(2) pending_fields(2))
  show "keeps tick_pending require_open" by (simp add: keeps_def require_open_def)
  show "keeps tick_pending (schedule_tick immediate now)"
    unfolding keeps_def
  proof (intro allI impI)
    fix w assume w: "tick_pending w"
    obtain s st where [simp]: "w = (s, st)" by (cases w)
    have "tick_ready (s, st)" using w by (simp add: tick_pending_def)
    then obtain sch where
      "schedule_tick immediate now (s, st) = (Inr (), (s\<lparr>nd_scheduler := sch\<rparr>, st))"
      "tick_pending (s\<lparr>nd_scheduler := sch\<rparr>, st)" by (rule schedule_tick_ready)
    then show "tick_pending (snd (schedule_tick immediate now w))" by simp
  qed
qed

lemma keeps_guarded [keeps_intros]: "keeps P m \<Longrightarrow> keeps P (guarded handled m)"
  unfolding keeps_def guarded_def by (auto split: prod.splits sum.splits exn.splits) (metis snd_conv)+

lemma controls_keep_pending:
  "keeps tick_pending (service_start D r ctx)" "keeps tick_pending (service_stop D sid)"
  "keeps tick_pending (service_complete D so listing sid ctx)"
  "keeps tick_pending (service_status D sid)" "keeps tick_pending (service_observe D so listing ctx)"
  unfolding service_start_def service_stop_def service_complete_def service_status_def
    service_observe_def
  by (intro keeps_intros)+

lemma reconcile_reschedules:
  assumes "tick_ready w"
  shows "tick_pending (snd (reconcile D so listing ctx later w)) \<or>
    fst (watcher_tick D so listing ctx w) = Inr False"
proof -
  obtain s st where w: "w = (s, st)" by (cases w)
  obtain r x st' where t: "watcher_tick D so listing ctx (s, st) = (r, (s\<lparr>nd_watcher := x\<rparr>, st'))"
    by (cases "engine_tick (de_monitor D) so listing ctx (nd_watcher s, st)")
      (auto simp: watcher_tick_def)
  have "tick_ready (s\<lparr>nd_watcher := x\<rparr>, st')"
    using assms w pending_any_store(1) [of s st st'] by simp
  then obtain sch where
    "schedule_tick False later (s\<lparr>nd_watcher := x\<rparr>, st') =
      (Inr (), (s\<lparr>nd_watcher := x, nd_scheduler := sch\<rparr>, st'))"
    "tick_pending (s\<lparr>nd_watcher := x, nd_scheduler := sch\<rparr>, st')"
    by (rule schedule_tick_ready [where immediate = False and now = later])
  moreover have "\<not> nd_closed s" using assms w by (simp add: tick_ready_def)
  ultimately show ?thesis
    using t w by (cases r) (auto simp: reconcile_def)
qed

section \<open>Runs of the service\<close>

text \<open>One control, one explicit observation, or one turn of the scheduler's worker.\<close>

datatype service_event =
    StartControl start_request tick_context
  | StopControl string
  | CompleteControl source_env "path list" string tick_context
  | StatusControl string
  | ObserveTick source_env "path list" tick_context
  | WorkerTurn time source_env "path list" tick_context time

definition popped :: "time \<Rightarrow> world \<Rightarrow> unit turn \<times> world" where
  "popped now w = (case next_entry now (nd_scheduler (fst w)) of
     (turn, sch) \<Rightarrow> (turn, ((fst w)\<lparr>nd_scheduler := sch\<rparr>, snd w)))"

fun service_event_step :: "daemon_env \<Rightarrow> service_event \<Rightarrow> world \<Rightarrow> world" where
  "service_event_step D (StartControl r ctx) w = snd (service_start D r ctx w)"
| "service_event_step D (StopControl sid) w = snd (service_stop D sid w)"
| "service_event_step D (CompleteControl so listing sid ctx) w =
     snd (service_complete D so listing sid ctx w)"
| "service_event_step D (StatusControl sid) w = snd (service_status D sid w)"
| "service_event_step D (ObserveTick so listing ctx) w = snd (service_observe D so listing ctx w)"
| "service_event_step D (WorkerTurn now so listing ctx later) w =
     (case popped now w of
        (Fire e, w') \<Rightarrow> snd (reconcile D so listing ctx later w')
      | (_, w') \<Rightarrow> w')"

lemma popped_pending:
  assumes "tick_pending w" and "popped now w = (turn, w')"
  shows "tick_ready w' \<and> (tick_pending w' \<or> (\<exists>e. turn = Fire e))"
proof -
  obtain sch where n: "next_entry now (nd_scheduler (fst w)) = (turn, sch)"
    and w': "w' = ((fst w)\<lparr>nd_scheduler := sch\<rparr>, snd w)"
    using assms(2) by (auto simp: popped_def split: prod.splits)
  have ok: "sched_ok (nd_scheduler (fst w))" "\<not> sc_closed (nd_scheduler (fst w))"
    using assms(1) by (simp_all add: tick_pending_def tick_ready_def)
  have "sched_ok sch" using sched_ok_next [OF ok(1) n] .
  moreover have "sc_closed sch = sc_closed (nd_scheduler (fst w))"
    "sc_health sch = sc_health (nd_scheduler (fst w))"
    using n by (auto simp: next_entry_unfold split: if_splits list.splits)
  ultimately have ready: "tick_ready w'"
    using assms(1) by (simp add: w' tick_pending_def tick_ready_def)
  have "deadlines sch TICK_KEY \<noteq> None" if "live sch = live (nd_scheduler (fst w))"
  proof -
    obtain x where "deadlines (nd_scheduler (fst w)) TICK_KEY = Some x"
      using assms(1) by (auto simp: tick_pending_def)
    then have "deadlines sch TICK_KEY = Some x"
      using deadlines_live [OF ok(1)] deadlines_live [OF \<open>sched_ok sch\<close>] that by (cases x) metis
    then show ?thesis by simp
  qed
  with ready next_entry_head [OF ok, of now] n show ?thesis
    by (cases turn) (simp_all add: tick_pending_def w')
qed

section \<open>Lemmas: errors of the controls\<close>

lemma remove_errors: "remove_notification_session D sid st = (Inl e, st') \<Longrightarrow> os_error e"
  by (auto simp: remove_notification_session_def unlink_def split: sum.splits if_splits)

lemma active_errors: "notification_session_active D sid st = Inl e \<Longrightarrow> state_error e \<or> os_error e"
  using load_state_errors by (auto simp: notification_session_active_def err_simps split: if_splits)

lemma stop_control_errors:
  assumes "service_stop D sid w = (Inl e, w')"
  shows "\<exists>c. e = DaemonServiceError c"
proof (rule ccontr)
  assume no: "\<nexists>c. e = DaemonServiceError c"
  obtain s st where w: "w = (s, st)" by (cases w)
  from guarded_errors [OF assms [unfolded service_stop_def]] no obtain st' where
    "\<not> os_error e" "remove_notification_session D sid st = (Inl e, st')"
    unfolding w by (auto simp: sbind_Inl require_open_def on_store_def sret_def
        split: if_splits prod.splits)
  with remove_errors show False by blast
qed

lemma status_control_errors:
  assumes "service_status D sid w = (Inl e, w')"
  shows "\<exists>c. e = DaemonServiceError c"
proof (rule ccontr)
  assume no: "\<nexists>c. e = DaemonServiceError c"
  obtain s st where w: "w = (s, st)" by (cases w)
  from guarded_errors [OF assms [unfolded service_status_def]] no obtain st' where
    "\<not> os_error e" "\<not> state_error e" "notification_session_active D sid st = Inl e"
    unfolding w by (auto simp: sbind_Inl require_open_def on_store_def sret_def sget_def
        split: if_splits prod.splits)
  with active_errors show False by blast
qed

lemma schedule_tick_errors:
  "schedule_tick immediate now (s, st) = (Inl e, w') \<Longrightarrow>
   \<exists>c. e = SchedulerErr c \<and> (sc_closed (nd_scheduler s) \<or> sc_health (nd_scheduler s) = SCHEDULER_FATAL)"
  by (auto simp: schedule_tick_def schedule_def TICK_KEY_def Let_def
      split: if_splits sum.splits scheduler_error.splits)

lemma start_control_errors:
  assumes "service_start D r ctx w = (Inl e, w')"
  shows "(\<exists>c. e = DaemonServiceError c) \<or>
    (\<exists>c. e = SchedulerErr c \<and> (sc_closed (nd_scheduler (fst w)) \<or>
       sc_health (nd_scheduler (fst w)) = SCHEDULER_FATAL))"
proof (rule ccontr)
  assume no: "\<not> ?thesis"
  obtain s st where w: "w = (s, st)" by (cases w)
  let ?start = "start_notification_session D r (tc_wall_time ctx) st"
  from guarded_errors [OF assms [unfolded service_start_def]] no obtain w2 where
    h: "\<not> os_error e" "\<not> state_error e" and m: "sbind require_open (\<lambda>_.
        sbind (on_store (\<lambda>st. case start_notification_session D r (tc_wall_time ctx) st of
                 Inl e \<Rightarrow> (Inl e, st) | Inr (reused, st') \<Rightarrow> (Inr reused, st'))) (\<lambda>reused.
        sbind (schedule_tick True (tc_now ctx)) (\<lambda>_.
        sret \<lparr>tr_session = sr_session r, tr_status = ''active'', tr_enabled = Some True,
              tr_reused = Some reused, tr_error = None\<rparr>))) (s, st) = (Inl e, w2)"
    unfolding w by blast
  show False
  proof (cases "nd_closed s")
    case True
    with m no show False by (auto simp: sbind_def require_open_def)
  next
    case open_: False
    show False
    proof (cases ?start)
      case (Inl x)
      with m open_ have "e = x" by (simp add: sbind_def require_open_def on_store_def)
      with Inl h no start_session_errors show False by blast
    next
      case (Inr bs)
      obtain b st1 where b: "bs = (b, st1)" by (cases bs)
      have "schedule_tick True (tc_now ctx) (s, st1) = (Inl e, w2)"
      proof -
        obtain x w3 where "schedule_tick True (tc_now ctx) (s, st1) = (x, w3)"
          by (rule that [OF prod.collapse [symmetric]])
        with m open_ Inr b show ?thesis
          by (cases x) (simp_all add: sbind_def require_open_def on_store_def sret_def)
      qed
      from schedule_tick_errors [OF this] no w show False by simp
    qed
  qed
qed

section \<open>Properties\<close>

text \<open>
  C24: what work-on stores is what the watcher monitors: after a start that created a session, the
  stored document reads back as a session of exactly the requested identity, thresholds and
  (resolved, contained) transcript, at revision 0, not complete, with one running parent monitor
  whose silence starts at the activation and no children.
\<close>

theorem started_session_is_watched:
  assumes "start_notification_session D r wall st = Inr (False, st')" and "resolves D"
    and "fromiso (de_lib D) (zulu (toiso (de_lib D) wall)) = Some wall"
    and "sr_session r \<noteq> []" and "0 < sr_warning r" and "sr_warning r < sr_critical r"
  shows "\<exists>vals t. load_state (de_fs D) (de_home D) (session_path D (sr_session r)) st' = Inr vals \<and>
    dget vals ''enabled'' = JBool True \<and>
    runtime_target_from_values (de_lib D) (de_fs D) (de_home D) (session_path D (sr_session r)) vals =
      Inr t \<and>
    session_id t = sr_session r \<and> rollout_file t = de_resolve D (sr_transcript r) \<and>
    rt_thresholds t = \<lparr>warning = sr_warning r / 1000, critical = sr_critical r / 1000\<rparr> \<and>
    revision t = 0 \<and> \<not> rt_parent_complete t \<and> map mt_terminal (targets t) = [False] \<and>
    map started_at (targets t) = [Some wall]"
proof -
  from assms(1) obtain rel where rel: "relative_transcript D (sr_transcript r) = Inr rel"
    and s: "save_state (de_fs D) (de_home D) (session_path D (sr_session r))
      (session_values r rel (zulu (toiso (de_lib D) wall))) SCHEMA_VERSION st = Inr st'"
    by (auto simp: start_notification_session_def Let_def err_simps split: if_splits)
  from save_then_load [OF s wf_session_values] obtain d
    where d: "load_state (de_fs D) (de_home D) (session_path D (sr_session r)) st' = Inr d"
      "\<forall>k. map_of d k = map_option jsort
        (map_of (session_values r rel (zulu (toiso (de_lib D) wall))) k)" by blast
  have "dget d ''enabled'' = JBool True"
    by (simp add: loaded_dget(1) [OF d(2)] session_values_def)
  with d session_values_parse [OF d(2) assms(3-6) relative_resolves [OF rel assms(2)]]
  show ?thesis by (auto simp: targets_def)
qed

text \<open>
  Starting is idempotent and never reconfigures: on a session that already has a readable
  document, a start with the same transcript and thresholds reports reuse and changes no file; a
  start with any other is refused, and then neither a file nor the schedule changes.
\<close>

theorem start_reuses_or_refuses:
  assumes "tick_ready (s, st)" and "relative_transcript D (sr_transcript r) = Inr rel"
    and "is_file st (abspath (session_path D (sr_session r)))"
    and "load_state (de_fs D) (de_home D) (session_path D (sr_session r)) st = Inr vals"
  shows "if session_matches vals r rel
    then \<exists>sch. service_start D r ctx (s, st) =
        (Inr \<lparr>tr_session = sr_session r, tr_status = ''active'', tr_enabled = Some True,
              tr_reused = Some True, tr_error = None\<rparr>, (s\<lparr>nd_scheduler := sch\<rparr>, st)) \<and>
      deadlines sch TICK_KEY = Some (tc_now ctx, ())
    else service_start D r ctx (s, st) =
      (Inl (DaemonServiceError ''monitoring_reconfiguration_requires_work_off''), (s, st))"
proof (cases "session_matches vals r rel")
  case True
  have open_: "\<not> nd_closed s" using assms(1) by (simp add: tick_ready_def)
  obtain sch where "schedule_tick True (tc_now ctx) (s, st) =
      (Inr (), (s\<lparr>nd_scheduler := sch\<rparr>, st))"
    "deadlines sch TICK_KEY = Some (tc_now ctx + (if True then 0 else POLL_SECONDS), ())"
    by (rule schedule_tick_ready [OF assms(1), of True "tc_now ctx"])
  moreover from this(1) have "service_start D r ctx (s, st) =
      (Inr \<lparr>tr_session = sr_session r, tr_status = ''active'', tr_enabled = Some True,
            tr_reused = Some True, tr_error = None\<rparr>, (s\<lparr>nd_scheduler := sch\<rparr>, st))"
    using True open_ assms(2-4)
    by (simp add: service_start_def guarded_Inr require_open_def on_store_def
        start_notification_session_def sbind_def sret_def)
  ultimately show ?thesis using True by (simp only: if_True add_0_right) blast
next
  case False
  then show ?thesis
    using assms by (simp add: tick_ready_def service_start_def guarded_def require_open_def
        on_store_def start_notification_session_def sbind_def)
qed


text \<open>
  C23: monitoring keeps polling: while the service is open and its scheduler healthy, a scheduled
  watcher tick survives every control and every turn of the worker, also a tick that raised; it is
  given up only by a tick that found no active session.
\<close>

theorem polling_survives:
  assumes "tick_pending w"
  shows "tick_pending (service_event_step D ev w) \<or>
    (\<exists>now so listing ctx later. ev = WorkerTurn now so listing ctx later \<and>
       fst (watcher_tick D so listing ctx (snd (popped now w))) = Inr False)"
proof (cases ev)
  case (WorkerTurn now so listing ctx later)
  obtain turn w' where p: "popped now w = (turn, w')" by (metis prod.collapse)
  from popped_pending [OF assms p] reconcile_reschedules [of w' D so listing ctx later] WorkerTurn p
  show ?thesis by (cases turn) auto
qed (use controls_keep_pending [THEN keepsD, OF assms] in auto)

text \<open>
  Stopping is complete and touches nothing else: after a successful stop the session is not
  active, its document and its rollout cursor are gone, and every other file is as before.
\<close>

theorem stop_forgets_one_session:
  assumes "service_stop D sid (s, st) = (Inr res, (s', st'))"
  shows "s' = s \<and> tr_enabled res = Some False \<and> notification_session_active D sid st' = Inr False \<and>
    st' = (\<lambda>q. if q \<in> {abspath (session_path D sid), abspath (session_cursor D sid)} then None else st q)"
proof -
  from assms have "remove_notification_session D sid st = (Inr (), st')" "s' = s"
    and "tr_enabled res = Some False"
    by (auto simp: service_stop_def guarded_Inr sbind_Inr require_open_def on_store_def sret_def
        split: if_splits prod.splits)
  moreover from this have st': "st' = st(abspath (session_path D sid) := None,
      abspath (session_cursor D sid) := None)"
    by (auto simp: remove_notification_session_def unlink_def split: sum.splits if_splits)
  ultimately show ?thesis
    by (auto simp: notification_session_active_def is_file_def)
qed

section \<open>A concrete service\<close>

definition ex_daemon :: daemon_env where
  "ex_daemon = \<lparr>de_monitor = ex_engine_env, de_resolve = (\<lambda>p. if clean_path p then p else []),
     de_transcript = (\<lambda>_. True), de_link = (\<lambda>_. False)\<rparr>"

definition ex_start :: start_request where
  "ex_start = \<lparr>sr_session = ''s'', sr_transcript = [''h'', ''t.jsonl''], sr_warning = 300000,
     sr_critical = 600000\<rparr>"

definition ex_service :: service where
  "ex_service = new_service empty_log [] [] 0"

lemma ex_daemon_env: "de_home ex_daemon = [''h'', ''p'']" "de_fs ex_daemon = ex_env"
  "de_lib ex_daemon = ex_lib" "session_path ex_daemon ''s'' = ex_runtime_file"
  "abspath ex_runtime_file = ex_runtime_file"
  by (simp_all add: ex_daemon_def ex_engine_env_def session_path_def runtime_path_def
      session_filename_def ex_lib_def ex_runtime_file_def abspath_def)

lemma ex_resolves: "resolves ex_daemon"
  by (simp add: resolves_def ex_daemon_env ex_env_def) (simp add: ex_daemon_def clean_path_def abspath_def)

lemma ex_relative: "relative_transcript ex_daemon (sr_transcript ex_start) = Inr ''t.jsonl''"
  by (simp add: relative_transcript_def ex_daemon_env)
    (simp add: ex_daemon_def ex_start_def clean_path_def)

lemma ex_zulu: "zulu (toiso ex_lib 2) = ''00''"
  by (simp add: ex_lib_def zulu.simps numeral_2_eq_2)

lemma ex_started:
  assumes "st ex_runtime_file = None"
  shows "\<exists>st'. start_notification_session ex_daemon ex_start wall st = Inr (False, st')"
proof -
  have "\<not> dhas (session_values ex_start rel now) ''schema_version''" for rel now
    by (simp add: session_values_def)
  moreover have "ensure_existing_components_are_direct ex_env h q = Inr ()" for h q
    by (rule no_redirects) (simp add: ex_env_def)
  moreover have "\<not> lock_busy ex_env q" for q by (simp add: ex_env_def)
  ultimately show ?thesis
    using ex_relative ex_daemon_env ex_safe assms
    by (simp add: start_notification_session_def ex_start_def is_file_def save_state_def
        check_schema_def)
qed

theorem started_session_is_watched_witness:
  "\<exists>st' vals t. start_notification_session ex_daemon ex_start 2 Map.empty = Inr (False, st') \<and>
     runtime_target_from_values ex_lib ex_env [''h'', ''p''] ex_runtime_file vals = Inr t \<and>
     rollout_file t = [''h'', ''t.jsonl''] \<and> map started_at (targets t) = [Some 2]"
proof -
  obtain st' where s: "start_notification_session ex_daemon ex_start 2 Map.empty = Inr (False, st')"
    using ex_started [of Map.empty 2] by auto
  have "fromiso (de_lib ex_daemon) (zulu (toiso (de_lib ex_daemon) 2)) = Some 2"
    unfolding ex_daemon_env ex_zulu by (simp add: ex_lib_def)
  from started_session_is_watched [OF s ex_resolves this] obtain vals t where
    "runtime_target_from_values ex_lib ex_env [''h'', ''p''] ex_runtime_file vals = Inr t"
    "rollout_file t = de_resolve ex_daemon [''h'', ''t.jsonl'']" "map started_at (targets t) = [Some 2]"
    by (auto simp: ex_start_def ex_daemon_env)
  moreover have "de_resolve ex_daemon [''h'', ''t.jsonl''] = [''h'', ''t.jsonl'']"
    by (simp add: ex_daemon_def clean_path_def)
  ultimately show ?thesis using s by metis
qed

lemma ex_ready: "tick_ready (ex_service, st)"
  by (simp add: tick_ready_def ex_service_def new_service_def discover_runtime_files_def
      new_scheduler_def sched_ok_def heap_valid_def)

lemma ex_matches: "session_matches ex_values ex_start ''t.jsonl''"
  by (simp add: session_matches_def ex_values_def ex_start_def)

theorem start_reuses_or_refuses_witness:
  "\<exists>sch. service_start ex_daemon ex_start \<lparr>tc_now = 7, tc_wall_time = 2\<rparr> (ex_service, ex_store) =
     (Inr \<lparr>tr_session = ''s'', tr_status = ''active'', tr_enabled = Some True,
           tr_reused = Some True, tr_error = None\<rparr>, (ex_service\<lparr>nd_scheduler := sch\<rparr>, ex_store)) \<and>
     deadlines sch TICK_KEY = Some (7, ())"
proof -
  have "is_file ex_store (abspath (session_path ex_daemon (sr_session ex_start)))"
    by (simp add: ex_start_def ex_daemon_env is_file_def ex_store_def)
  moreover have "load_state (de_fs ex_daemon) (de_home ex_daemon)
      (session_path ex_daemon (sr_session ex_start)) ex_store = Inr ex_values"
    using ex_load by (simp add: ex_start_def ex_daemon_env)
  ultimately show ?thesis
    using start_reuses_or_refuses [OF ex_ready ex_relative, of ex_store ex_values
        "\<lparr>tc_now = 7, tc_wall_time = 2\<rparr>"] ex_matches by (simp add: ex_start_def)
qed


theorem polling_survives_witness:
  "tick_pending (service_event_step ex_daemon (StopControl ''x'')
     (snd (schedule_tick True 3 (ex_service, ex_store))))"
proof -
  obtain sch where "schedule_tick True 3 (ex_service, ex_store) =
      (Inr (), (ex_service\<lparr>nd_scheduler := sch\<rparr>, ex_store))"
    "tick_pending (ex_service\<lparr>nd_scheduler := sch\<rparr>, ex_store)"
    by (rule schedule_tick_ready [OF ex_ready, of True 3])
  then have "tick_pending (snd (schedule_tick True 3 (ex_service, ex_store)))" by simp
  from polling_survives [OF this, of ex_daemon "StopControl ''x''"] show ?thesis by simp
qed

lemma ex_stopped: "\<exists>res s' st'. service_stop ex_daemon ''s'' (ex_service, ex_store) = (Inr res, (s', st')) \<and>
  st' ex_runtime_file = None"
  using ex_ready [of ex_store]
  by (simp add: service_stop_def guarded_Inr sbind_Inr require_open_def on_store_def sret_def
      tick_ready_def remove_notification_session_def unlink_def ex_daemon_env ex_store_def
      ex_runtime_file_def session_cursor_def cursor_path_def session_filename_def abspath_def
      split: prod.splits)

theorem stop_forgets_one_session_witness:
  "\<exists>res s' st'. service_stop ex_daemon ''s'' (ex_service, ex_store) = (Inr res, (s', st')) \<and>
     notification_session_active ex_daemon ''s'' st' = Inr False \<and> st' ex_runtime_file = None"
proof -
  obtain res s' st' where r: "service_stop ex_daemon ''s'' (ex_service, ex_store) = (Inr res, (s', st'))"
    using ex_stopped by blast
  from stop_forgets_one_session [OF r] r show ?thesis by (auto simp: ex_daemon_env)
qed

end
