(* ===== verification/McpServer.thy ===== *)
theory McpServer
  imports McpProtocol ThresholdSettings ActivationTickets NotificationDaemon
begin

text \<open>
  \<open>scripts/mcp_arguments.py\<close>, \<open>mcp_server_tools.py\<close>, \<open>mcp_threshold_settings.py\<close> and
  \<open>mcp_dispatch.py\<close>: the MCP server, from one line of input to its response. The daemon, the
  activation tickets, the settings store and the setup launcher it calls are a \<open>backend\<close> over an
  abstract state (the protocols \<open>DaemonBackend\<close>, \<open>ActivationAuthorizer\<close> and
  \<open>NotificationSetupLauncher\<close>); the last sections put the notification daemon, the ticket store and
  the threshold settings in its place. The text of \<open>json.dumps\<close> and the static tool descriptors are
  parameters. Paths are POSIX paths.
\<close>

section \<open>Arguments\<close>

definition LEGACY_RESTART_KEYS :: "string list" where
  "LEGACY_RESTART_KEYS = [''auto_restart'', ''goal_companion'', ''message_preset'', ''observe_only'',
     ''permission_mode'', ''restart_after_ms'']"

definition START_KEYS :: "string list" where
  "START_KEYS = [''session_id'', ''transcript_path'', ''activation_turn_id'', ''warning_after_ms'',
     ''critical_after_ms'']"

definition SESSION_KEYS :: "string list" where
  "SESSION_KEYS = [''session_id'']"

definition MAX_TOOL_TEXT_CHARS :: nat where
  "MAX_TOOL_TEXT_CHARS = 65536"

definition invalid_params :: "rpc_id option \<Rightarrow> json \<Rightarrow> rpc_exn" where
  "invalid_params i d = rpc_error (- 32602) ''Invalid params'' i d"

text \<open>Python's \<open>not value\<close>.\<close>

fun falsy :: "json \<Rightarrow> bool" where
  "falsy JNull = True"
| "falsy (JBool b) = (\<not> b)"
| "falsy (JInt i) = (i = 0)"
| "falsy (JFloat r) = (r = 0)"
| "falsy (JStr s) = (s = [])"
| "falsy (JList xs) = (xs = [])"
| "falsy (JObj d) = (d = [])"

definition required_text :: "dict \<Rightarrow> string \<Rightarrow> rpc_id option \<Rightarrow> rpc_exn + string" where
  "required_text vs key i =
     (let bad = invalid_params i (JStr (if falsy (dget vs key) then key @ ''_missing'' else key @ ''_invalid''))
      in case dget vs key of
           JStr s \<Rightarrow> if 0 < length s \<and> length s \<le> MAX_TOOL_TEXT_CHARS then Inr s else Inl bad
         | _ \<Rightarrow> Inl bad)"

definition reject_unknown :: "dict \<Rightarrow> string list \<Rightarrow> rpc_id option \<Rightarrow> rpc_exn + unit" where
  "reject_unknown vs allowed i =
     require (set (map fst vs) \<subseteq> set allowed)
       (invalid_params i (JStr ''unexpected_argument_unsupported''))"

definition positive_int :: "dict \<Rightarrow> string \<Rightarrow> int \<Rightarrow> rpc_id option \<Rightarrow> rpc_exn + int" where
  "positive_int vs key dflt i =
     (let bad = invalid_params i (JStr (key @ ''_invalid''))
      in case dget_or vs key (JInt dflt) of
           JInt n \<Rightarrow> if 0 < n \<and> n \<le> MAX_THRESHOLD_MS then Inr n else Inl bad
         | _ \<Rightarrow> Inl bad)"

text \<open>\<open>str(Path(text))\<close> and the path itself, relative to the working directory.\<close>

definition path_string :: "string \<Rightarrow> string" where
  "path_string s =
     (let ps = posix_parts s
      in if is_absolute s then CHR ''/'' # join_posix ps else if ps = [] then ''.'' else join_posix ps)"

definition path_of :: "path \<Rightarrow> string \<Rightarrow> path" where
  "path_of cwd s = (if is_absolute s then [] else cwd) @ posix_parts s"

record parsed_start =
  ps_request :: start_request
  ps_transcript_text :: string
  ps_turn :: string

definition order_message :: "int \<Rightarrow> int \<Rightarrow> string" where
  "order_message w c = ''restart threshold must be later than warning threshold: warning='' @
     show_int w @ '', restart='' @ show_int c"

definition parse_start_request :: "path \<Rightarrow> dict \<Rightarrow> rpc_id option \<Rightarrow> rpc_exn + parsed_start" where
  "parse_start_request cwd vs i =
     (if list_ex (\<lambda>k. dhas vs k) LEGACY_RESTART_KEYS
      then Inl (invalid_params i (JStr ''legacy_restart_option_unsupported''))
      else
        ebind (reject_unknown vs START_KEYS i) (\<lambda>_.
        ebind (required_text vs ''session_id'' i) (\<lambda>sid.
        ebind (required_text vs ''transcript_path'' i) (\<lambda>transcript.
        ebind (positive_int vs ''warning_after_ms'' DEFAULT_WARNING_MS i) (\<lambda>w.
        ebind (positive_int vs ''critical_after_ms'' DEFAULT_CRITICAL_MS i) (\<lambda>c.
        case validate_thresholds w c of
          Inl _ \<Rightarrow> Inl (invalid_params i (JStr (order_message w c)))
        | Inr _ \<Rightarrow>
            ebind (required_text vs ''activation_turn_id'' i) (\<lambda>turn.
            Inr \<lparr>ps_request = \<lparr>sr_session = sid, sr_transcript = path_of cwd transcript,
                   sr_warning = w, sr_critical = c\<rparr>,
                 ps_transcript_text = path_string transcript, ps_turn = turn\<rparr>)))))))"

definition parse_session_request :: "dict \<Rightarrow> rpc_id option \<Rightarrow> rpc_exn + string" where
  "parse_session_request vs i =
     ebind (reject_unknown vs SESSION_KEYS i) (\<lambda>_. required_text vs ''session_id'' i)"

section \<open>Tool results\<close>

definition tool_payload :: "(json \<Rightarrow> string) \<Rightarrow> dict \<Rightarrow> json" where
  "tool_payload dumps payload =
     JObj [(''content'', JList [JObj [(''type'', JStr ''text''), (''text'', JStr (dumps (JObj payload)))]]),
           (''structuredContent'', JObj payload), (''isError'', JBool False)]"

definition optional_member :: "string \<Rightarrow> json option \<Rightarrow> dict" where
  "optional_member k v = (case v of None \<Rightarrow> [] | Some x \<Rightarrow> [(k, x)])"

definition tool_success :: "(json \<Rightarrow> string) \<Rightarrow> tool_result \<Rightarrow> json" where
  "tool_success dumps r =
     tool_payload dumps ([(''session_id'', JStr (tr_session r)), (''status'', JStr (tr_status r))] @
       optional_member ''enabled'' (map_option JBool (tr_enabled r)) @
       optional_member ''reused'' (map_option JBool (tr_reused r)) @
       optional_member ''daemon_error'' (map_option JStr (tr_error r)))"

definition tool_error :: "string \<Rightarrow> json" where
  "tool_error message =
     JObj [(''content'', JList [JObj [(''type'', JStr ''text''), (''text'', JStr message)]]),
           (''structuredContent'', JObj [(''error'', JStr message)]), (''isError'', JBool True)]"

definition setup_success :: "(json \<Rightarrow> string) \<Rightarrow> string \<times> int \<Rightarrow> json" where
  "setup_success dumps launch =
     tool_payload dumps [(''status'', JStr ''ready''), (''setup_url'', JStr (fst launch)),
       (''expires_in_seconds'', JInt (snd launch)), (''restart_recommended_after_save'', JBool True)]"

definition settings_success :: "(json \<Rightarrow> string) \<Rightarrow> settings_snapshot \<Rightarrow> json" where
  "settings_success dumps s =
     tool_payload dumps [(''status'', JStr ''ready''), (''mode'', JStr (mode_text (ss_mode s))),
       (''warning_after_ms'', JInt (ss_warning s)), (''critical_after_ms'', JInt (ss_critical s))]"

section \<open>The server\<close>

record 's backend =
  bk_start :: "start_request \<Rightarrow> (exn, 's, tool_result) step"
  bk_stop :: "string \<Rightarrow> (exn, 's, tool_result) step"
  bk_status :: "string \<Rightarrow> (exn, 's, tool_result) step"
  bk_complete :: "string \<Rightarrow> (exn, 's, tool_result) step"
  bk_consume :: "activation_identity \<Rightarrow> string \<Rightarrow> (exn, 's, unit) step"
  bk_show :: "(exn, 's, settings_snapshot) step"
  bk_default :: "(exn, 's, settings_snapshot) step"
  bk_recommended :: "(exn, 's, settings_snapshot) step"
  bk_custom :: "int \<Rightarrow> int \<Rightarrow> (exn, 's, settings_snapshot) step"
  bk_setup :: "(exn, 's, string \<times> int) step option"

record mcp_env =
  mc_crypto :: crypto
  mc_key :: string
  mc_cwd :: path
  mc_dumps :: "json \<Rightarrow> string"
  mc_descriptors :: "bool \<Rightarrow> json"
  mc_scan :: "string \<Rightarrow> scanned"

record mcp_state =
  sv_initialized :: bool
  sv_ready :: bool

definition new_mcp_state :: mcp_state where
  "new_mcp_state = \<lparr>sv_initialized = False, sv_ready = False\<rparr>"

text \<open>A raised exception: of the protocol layer, or one of a called component.\<close>

datatype mcp_exn = Rpc rpc_exn | Called exn

type_synonym ('s, 'a) mcp_step = "(mcp_exn, mcp_state \<times> 's, 'a) step"

definition rpc :: "rpc_exn + 'a \<Rightarrow> ('s, 'a) mcp_step" where
  "rpc r = (\<lambda>ms. (case r of Inl e \<Rightarrow> Inl (Rpc e) | Inr a \<Rightarrow> Inr a, ms))"

definition call :: "(exn, 's, 'a) step \<Rightarrow> ('s, exn + 'a) mcp_step" where
  "call m = (\<lambda>(v, s). case m s of (r, s') \<Rightarrow> (Inr r, (v, s')))"

record authorized_session =
  au_session :: string
  au_capability :: string

definition unauthorized :: "rpc_id option \<Rightarrow> rpc_exn" where
  "unauthorized i = rpc_error (- 32001) ''Unauthorized'' i (JObj [(''code'', JStr ''cmw_unauthorized'')])"

definition require_authorized ::
  "mcp_env \<Rightarrow> dict \<Rightarrow> rpc_id option \<Rightarrow> rpc_exn + authorized_session" where
  "require_authorized M args i =
     (case dget args ''session_id'' of
        JStr s \<Rightarrow>
          if s = [] then Inl (unauthorized i)
          else (case derive_control_capability (mc_crypto M) (mc_key M) s of
              Inl _ \<Rightarrow> Inl (unauthorized i)
            | Inr capability \<Rightarrow> Inr \<lparr>au_session = s, au_capability = capability\<rparr>)
      | _ \<Rightarrow> Inl (unauthorized i))"

section \<open>Threshold settings requests\<close>

datatype settings_action = SHOW | SET_DEFAULT | SET_RECOMMENDED | SET_CUSTOM

definition settings_action_of :: "string \<Rightarrow> settings_action option" where
  "settings_action_of s = map_of
     [(''show'', SHOW), (''default'', SET_DEFAULT), (''recommended'', SET_RECOMMENDED),
      (''custom'', SET_CUSTOM)] s"

definition threshold_action :: "dict \<Rightarrow> rpc_id option \<Rightarrow> rpc_exn + settings_action" where
  "threshold_action args i =
     (case dget_or args ''action'' (JStr ''show'') of
        JStr s \<Rightarrow> (case settings_action_of s of
            None \<Rightarrow> Inl (invalid_params i JNull) | Some a \<Rightarrow> Inr a)
      | _ \<Rightarrow> Inl (invalid_params i JNull))"

definition settings_integer :: "dict \<Rightarrow> string \<Rightarrow> rpc_id option \<Rightarrow> rpc_exn + int" where
  "settings_integer args key i =
     (let bad = invalid_params i (JStr (key @ ''_invalid''))
      in case dget args key of
           JInt n \<Rightarrow> if 0 < n \<and> n \<le> MAX_THRESHOLD_MS then Inr n else Inl bad
         | _ \<Rightarrow> Inl bad)"

definition apply_threshold_action ::
  "'s backend \<Rightarrow> settings_action \<Rightarrow> dict \<Rightarrow> rpc_id option \<Rightarrow> ('s, exn + settings_snapshot) mcp_step" where
  "apply_threshold_action B a args i =
     (case a of
        SHOW \<Rightarrow> call (bk_show B)
      | SET_DEFAULT \<Rightarrow> call (bk_default B)
      | SET_RECOMMENDED \<Rightarrow> call (bk_recommended B)
      | SET_CUSTOM \<Rightarrow>
          sbind (rpc (settings_integer args ''warning_after_ms'' i)) (\<lambda>w.
          sbind (rpc (settings_integer args ''critical_after_ms'' i)) (\<lambda>c.
          call (bk_custom B w c))))"

definition SETTINGS_KEYS :: "string list" where
  "SETTINGS_KEYS = [''session_id'', ''action'', ''warning_after_ms'', ''critical_after_ms'']"

text \<open>The \<open>except\<close> clauses of \<open>call_threshold_settings\<close> and of \<open>_call_notification_setup\<close>.\<close>

definition finish_settings :: "mcp_env \<Rightarrow> exn + settings_snapshot \<Rightarrow> ('s, json) mcp_step" where
  "finish_settings M r =
     (case r of
        Inr s \<Rightarrow> sret (settings_success (mc_dumps M) s)
      | Inl (ThresholdSettingsError c) \<Rightarrow> sret (tool_error c)
      | Inl e \<Rightarrow> if state_error e then sret (tool_error ''monitoring_state_unavailable'')
                 else slift (Inl (Called e)))"

definition finish_setup :: "mcp_env \<Rightarrow> exn + string \<times> int \<Rightarrow> ('s, json) mcp_step" where
  "finish_setup M r =
     (case r of
        Inr launch \<Rightarrow> sret (setup_success (mc_dumps M) launch)
      | Inl e \<Rightarrow> if os_error e \<or> state_error e then sret (tool_error ''monitoring_state_unavailable'')
                 else slift (Inl (Called e)))"

definition call_threshold_settings ::
  "mcp_env \<Rightarrow> 's backend \<Rightarrow> dict \<Rightarrow> rpc_id option \<Rightarrow> ('s, json) mcp_step" where
  "call_threshold_settings M B args i =
     sbind (rpc (require (set (map fst args) \<subseteq> set SETTINGS_KEYS) (invalid_params i JNull))) (\<lambda>_.
     sbind (rpc (required_text args ''session_id'' i)) (\<lambda>_.
     sbind (rpc (threshold_action args i)) (\<lambda>a.
     if a \<noteq> SET_CUSTOM \<and> (dhas args ''warning_after_ms'' \<or> dhas args ''critical_after_ms'')
     then rpc (Inl (invalid_params i JNull))
     else sbind (apply_threshold_action B a args i) (finish_settings M))))"

section \<open>Control requests\<close>

text \<open>The \<open>except\<close> clauses of \<open>_call_control\<close>.\<close>

definition finish_control :: "mcp_env \<Rightarrow> exn + tool_result \<Rightarrow> ('s, json) mcp_step" where
  "finish_control M r =
     (case r of
        Inr result \<Rightarrow> sret (tool_success (mc_dumps M) result)
      | Inl (DaemonServiceError c) \<Rightarrow> sret (tool_error c)
      | Inl (ActivationTicketError c) \<Rightarrow> sret (tool_error c)
      | Inl e \<Rightarrow> slift (Inl (Called e)))"

definition call_work_on ::
  "mcp_env \<Rightarrow> 's backend \<Rightarrow> dict \<Rightarrow> rpc_id option \<Rightarrow> authorized_session \<Rightarrow> ('s, json) mcp_step" where
  "call_work_on M B args i au =
     sbind (rpc (parse_start_request (mc_cwd M) args i)) (\<lambda>parsed.
     sbind (call (bk_consume B
       \<lparr>ai_session = au_session au, ai_turn = ps_turn parsed,
        ai_transcript = ps_transcript_text parsed\<rparr> (au_capability au))) (\<lambda>consumed.
     case consumed of
       Inl e \<Rightarrow> finish_control M (Inl e)
     | Inr _ \<Rightarrow> sbind (call (bk_start B (ps_request parsed))) (finish_control M)))"

definition call_control ::
  "mcp_env \<Rightarrow> 's backend \<Rightarrow> string \<Rightarrow> dict \<Rightarrow> rpc_id option \<Rightarrow> authorized_session \<Rightarrow>
   ('s, json) mcp_step" where
  "call_control M B name args i au =
     (if name = ''cmw.work_on'' then call_work_on M B args i au
      else sbind (rpc (parse_session_request args i)) (\<lambda>sid.
        sbind (call (if name = ''cmw.stop'' then bk_stop B sid
                     else if name = ''cmw.status'' then bk_status B sid
                     else bk_complete B sid)) (finish_control M)))"

definition call_setup ::
  "mcp_env \<Rightarrow> 's backend \<Rightarrow> dict \<Rightarrow> rpc_id option \<Rightarrow> ('s, json) mcp_step" where
  "call_setup M B args i =
     (if \<not> set (map fst args) \<subseteq> {''session_id''} then rpc (Inl (invalid_params i JNull))
      else case bk_setup B of
          None \<Rightarrow> rpc (Inl (invalid_request i))
        | Some m \<Rightarrow> sbind (call m) (finish_setup M))"

definition call_tool :: "mcp_env \<Rightarrow> 's backend \<Rightarrow> rpc_request \<Rightarrow> ('s, json) mcp_step" where
  "call_tool M B rq =
     (case (dget (rq_params rq) ''name'', dget_or (rq_params rq) ''arguments'' (JObj [])) of
        (JStr name, JObj args) \<Rightarrow>
          if name \<notin> set control_tools then rpc (Inl (invalid_request (rq_id rq)))
          else sbind (rpc (require_authorized M args (rq_id rq))) (\<lambda>au.
            if name = ''cmw.notifications.setup'' then call_setup M B args (rq_id rq)
            else if name = ''cmw.settings'' then call_threshold_settings M B args (rq_id rq)
            else call_control M B name args (rq_id rq) au)
      | _ \<Rightarrow> rpc (Inl (invalid_request (rq_id rq))))"

section \<open>Dispatch\<close>

definition server_info :: "string \<Rightarrow> json" where
  "server_info protocol =
     JObj [(''protocolVersion'', JStr protocol),
       (''capabilities'', JObj [(''tools'', JObj [(''listChanged'', JBool False)])]),
       (''serverInfo'', JObj [(''name'', JStr ''codex-must-work''), (''version'', JStr ''0.2.0'')]),
       (''instructions'', JStr (''Use cmw.work_on only after explicit $work-on invocation. '' @
          ''Use cmw.complete after verified '' @
          ''completion and cmw.stop for a manual shutdown. Never request or pass a '' @
          ''webhook URL in chat or tool arguments.''))]"

definition initialize :: "rpc_request \<Rightarrow> ('s, json) mcp_step" where
  "initialize rq = (\<lambda>(v, s).
     if rq_notification rq \<or> rq_id rq = None
     then (Inl (Rpc (rpc_error (- 32600) ''Initialize must be a request'' None JNull)), (v, s))
     else if sv_initialized v
     then (Inl (Rpc (rpc_error (- 32600) ''Already initialized'' (rq_id rq) JNull)), (v, s))
     else case dget (rq_params rq) ''protocolVersion'' of
         JStr requested \<Rightarrow>
           if requested = [] then (Inl (Rpc (invalid_params (rq_id rq) JNull)), (v, s))
           else (Inr (server_info (negotiate_protocol requested)), (v\<lparr>sv_initialized := True\<rparr>, s))
       | _ \<Rightarrow> (Inl (Rpc (invalid_params (rq_id rq) JNull)), (v, s)))"

definition not_initialized :: "rpc_id option \<Rightarrow> rpc_exn" where
  "not_initialized i = rpc_error (- 32002) ''Server not initialized'' i JNull"

definition dispatch :: "mcp_env \<Rightarrow> 's backend \<Rightarrow> rpc_request \<Rightarrow> ('s, json) mcp_step" where
  "dispatch M B rq =
     (if rq_method rq = ''initialize'' then initialize rq
      else if rq_method rq = ''notifications/initialized'' then (\<lambda>(v, s).
        if \<not> sv_initialized v then (Inl (Rpc (not_initialized None)), (v, s))
        else (Inr (JObj []), (v\<lparr>sv_ready := True\<rparr>, s)))
      else if rq_method rq = ''ping'' then sret (JObj [])
      else (\<lambda>(v, s).
        if \<not> sv_ready v then (Inl (Rpc (not_initialized (rq_id rq))), (v, s))
        else if rq_method rq = ''tools/list''
        then (Inr (JObj [(''tools'', mc_descriptors M (bk_setup B \<noteq> None))]), (v, s))
        else if rq_method rq = ''tools/call'' then call_tool M B rq (v, s)
        else (Inl (Rpc (invalid_request (rq_id rq))), (v, s))))"

text \<open>
  \<open>handle_line\<close>: \<open>JsonRpcError\<close> becomes a response, any other exception leaves the server.
\<close>

definition handle_line ::
  "mcp_env \<Rightarrow> 's backend \<Rightarrow> string \<Rightarrow> ('s, dict option) mcp_step" where
  "handle_line M B raw_line = (\<lambda>ms.
     case decode_request (mc_scan M) raw_line of
       Inl (JsonRpcError e) \<Rightarrow> (Inr (Some (error_response e)), ms)
     | Inl e \<Rightarrow> (Inl (Rpc e), ms)
     | Inr rq \<Rightarrow>
         (case dispatch M B rq ms of
            (Inl (Rpc (JsonRpcError e)), ms') \<Rightarrow>
              (Inr (if rq_notification rq then None else Some (error_response e)), ms')
          | (Inl e, ms') \<Rightarrow> (Inl e, ms')
          | (Inr result, ms') \<Rightarrow>
              (Inr (if rq_notification rq then None
                    else case rq_id rq of
                        None \<Rightarrow> Some (error_response \<lparr>er_code = - 32600,
                          er_message = ''Invalid Request'', er_id = None, er_data = JNull\<rparr>)
                      | Some i \<Rightarrow> Some (result_response i result)), ms')))"

text \<open>\<open>serve_lines\<close>: one response at most per frame; the loop ends with an escaping exception.\<close>

fun serve_lines ::
  "mcp_env \<Rightarrow> 's backend \<Rightarrow> (string \<times> bool) list \<Rightarrow> mcp_state \<times> 's \<Rightarrow>
   dict list \<times> mcp_exn option \<times> mcp_state \<times> 's" where
  "serve_lines M B [] ms = ([], None, ms)"
| "serve_lines M B ((text_line, framing_error) # fs) ms =
     (if framing_error
      then (case serve_lines M B fs ms of (out, e, ms') \<Rightarrow>
        (error_response \<lparr>er_code = - 32600, er_message = ''Invalid Request'', er_id = None,
           er_data = JNull\<rparr> # out, e, ms'))
      else case handle_line M B text_line ms of
          (Inl e, ms') \<Rightarrow> ([], Some e, ms')
        | (Inr response, ms') \<Rightarrow>
            (case serve_lines M B fs ms' of (out, e, ms'') \<Rightarrow>
              (case response of None \<Rightarrow> out | Some d \<Rightarrow> d # out, e, ms'')))"

section \<open>Lemmas: the ids of error responses\<close>

text \<open>Every protocol error a step raises carries the id \<open>i\<close>.\<close>

definition step_ids :: "rpc_id option \<Rightarrow> ('s, 'a) mcp_step \<Rightarrow> bool" where
  "step_ids i m \<longleftrightarrow> (\<forall>ms e ms'. m ms = (Inl (Rpc (JsonRpcError e)), ms') \<longrightarrow> er_id e = i)"

definition error_ids :: "rpc_id option \<Rightarrow> rpc_exn + 'a \<Rightarrow> bool" where
  "error_ids i r \<longleftrightarrow> (\<forall>e. r = Inl (JsonRpcError e) \<longrightarrow> er_id e = i)"

named_theorems id_intros \<open>errors with the id of the request\<close>

lemma step_ids_basic [id_intros]:
  "step_ids i (sret a)" "step_ids i (slift (Inl (Called e)))" "step_ids i (call m)"
  "error_ids i r \<Longrightarrow> step_ids i (rpc r)"
  by (auto simp: step_ids_def error_ids_def step_defs call_def rpc_def split: prod.splits sum.splits)

lemma step_ids_sbind [id_intros]:
  "step_ids i m \<Longrightarrow> (\<And>a. step_ids i (f a)) \<Longrightarrow> step_ids i (sbind m f)"
  unfolding step_ids_def sbind_Inl by blast

lemma error_ids_ebind [id_intros]:
  "error_ids i r \<Longrightarrow> (\<And>a. error_ids i (f a)) \<Longrightarrow> error_ids i (ebind r f)"
  by (auto simp: error_ids_def err_simps)

lemma error_ids_basic [id_intros]:
  "error_ids i (Inr a)" "error_ids i (Inl (invalid_params i d))" "error_ids i (Inl (invalid_request i))"
  "error_ids i (Inl (unauthorized i))" "error_ids i (Inl (not_initialized i))"
  "error_ids i (require c (invalid_params i d))"
  by (auto simp: error_ids_def invalid_params_def invalid_request_def unauthorized_def
      not_initialized_def rpc_error_def require_def)

lemma error_ids_parsing [id_intros]:
  "error_ids i (required_text vs key i)" "error_ids i (positive_int vs key dflt i)"
  "error_ids i (reject_unknown vs keys i)" "error_ids i (require_authorized M vs i)"
  "error_ids i (settings_integer vs key i)" "error_ids i (threshold_action vs i)"
  by (auto simp: required_text_def positive_int_def reject_unknown_def require_authorized_def
      settings_integer_def threshold_action_def Let_def intro: id_intros
      split: json.splits sum.splits option.splits)

lemma error_ids_requests [id_intros]:
  "error_ids i (parse_session_request vs i)" "error_ids i (parse_start_request cwd vs i)"
proof -
  show "error_ids i (parse_session_request vs i)"
    unfolding parse_session_request_def by (intro id_intros)
  have "error_ids i (case validate_thresholds w c of
          Inl _ \<Rightarrow> Inl (invalid_params i (JStr (order_message w c)))
        | Inr _ \<Rightarrow> ebind (required_text vs ''activation_turn_id'' i) (\<lambda>turn. Inr (f turn)))" for w c f
    by (cases "validate_thresholds w c") (auto intro: id_intros)
  then show "error_ids i (parse_start_request cwd vs i)"
    unfolding parse_start_request_def by (auto intro!: id_intros)
qed

lemma step_ids_finish [id_intros]:
  "step_ids i (finish_control M r)" "step_ids i (finish_settings M s)" "step_ids i (finish_setup M l)"
proof -
  show "step_ids i (finish_control M r)"
    unfolding finish_control_def
  proof (cases r)
    case (Inl e)
    then show "step_ids i (case r of Inr result \<Rightarrow> sret (tool_success (mc_dumps M) result)
      | Inl (DaemonServiceError c) \<Rightarrow> sret (tool_error c)
      | Inl (ActivationTicketError c) \<Rightarrow> sret (tool_error c) | Inl e \<Rightarrow> slift (Inl (Called e)))"
      by (cases e) (simp_all add: step_ids_basic)
  qed (simp add: step_ids_basic)
  show "step_ids i (finish_settings M s)"
    unfolding finish_settings_def
  proof (cases s)
    case (Inl e)
    then show "step_ids i (case s of Inr s \<Rightarrow> sret (settings_success (mc_dumps M) s)
      | Inl (ThresholdSettingsError c) \<Rightarrow> sret (tool_error c)
      | Inl e \<Rightarrow> if state_error e then sret (tool_error ''monitoring_state_unavailable'')
                 else slift (Inl (Called e)))"
      by (cases e) (simp_all add: step_ids_basic)
  qed (simp add: step_ids_basic)
  show "step_ids i (finish_setup M l)"
    by (cases l) (simp_all add: finish_setup_def step_ids_basic)
qed

lemma step_ids_calls [id_intros]:
  "step_ids i (call_control M B name args i au)" "step_ids i (call_threshold_settings M B args i)"
  "step_ids i (call_setup M B args i)"
proof -
  have "step_ids i (case r of Inl e \<Rightarrow> finish_control M (Inl e)
      | Inr u \<Rightarrow> sbind (call m) (finish_control M))" for r :: "exn + unit" and m
    by (cases r) (auto intro: id_intros)
  then show "step_ids i (call_control M B name args i au)"
    unfolding call_control_def call_work_on_def by (auto intro!: id_intros)
  have a: "step_ids i (apply_threshold_action B a args i)" for a
    by (cases a) (auto simp: apply_threshold_action_def intro!: id_intros)
  with step_ids_finish show "step_ids i (call_threshold_settings M B args i)"
    unfolding call_threshold_settings_def by (auto intro!: id_intros)
  show "step_ids i (call_setup M B args i)"
    unfolding call_setup_def by (auto intro!: id_intros split: option.splits)
qed

lemma step_ids_tool [id_intros]: "step_ids (rq_id rq) (call_tool M B rq)"
proof (cases "dget (rq_params rq) ''name''")
  case (JStr name)
  then show ?thesis
    by (cases "dget_or (rq_params rq) ''arguments'' (JObj [])")
      (auto simp: call_tool_def intro!: id_intros)
qed (auto simp: call_tool_def intro: id_intros)

lemma dispatch_ids:
  assumes "dispatch M B rq ms = (Inl (Rpc (JsonRpcError e)), ms')"
    and "rq_method rq \<noteq> ''notifications/initialized''" and "rq_notification rq \<longrightarrow> rq_id rq = None"
  shows "er_id e = rq_id rq"
proof -
  obtain v s where ms: "ms = (v, s)" by (cases ms)
  have init: "er_id e = rq_id rq" if "initialize rq (v, s) = (Inl (Rpc (JsonRpcError e)), ms')"
    using that assms(3) by (auto simp: initialize_def rpc_error_def invalid_params_def
        split: if_splits json.splits)
  have tool: "er_id e = rq_id rq" if "call_tool M B rq (v, s) = (Inl (Rpc (JsonRpcError e)), ms')"
    using that step_ids_tool [of rq M B] unfolding step_ids_def by blast
  from assms init tool show ?thesis
    by (auto simp: ms dispatch_def sret_def not_initialized_def invalid_request_def rpc_error_def
        split: if_splits)
qed

section \<open>Lemmas: what a line needs to reach the backend\<close>

definition line_request :: "mcp_env \<Rightarrow> string \<times> bool \<Rightarrow> rpc_request option" where
  "line_request M f =
     (if snd f then None else case decode_request (mc_scan M) (fst f) of
        Inl _ \<Rightarrow> None | Inr rq \<Rightarrow> Some rq)"

text \<open>An authorized control call: a known tool and a session the control key can sign.\<close>

definition control_request :: "mcp_env \<Rightarrow> rpc_request \<Rightarrow> bool" where
  "control_request M rq \<longleftrightarrow> rq_method rq = ''tools/call'' \<and>
     (\<exists>name args au. dget (rq_params rq) ''name'' = JStr name \<and> name \<in> set control_tools \<and>
        dget_or (rq_params rq) ''arguments'' (JObj []) = JObj args \<and>
        require_authorized M args (rq_id rq) = Inr au)"

lemma call_tool_acts:
  assumes "call_tool M B rq (v, s) = (r, (v', s'))" and "s' \<noteq> s" and "rq_method rq = ''tools/call''"
  shows "control_request M rq"
proof -
  from assms(1,2) obtain name where n: "dget (rq_params rq) ''name'' = JStr name"
    by (cases "dget (rq_params rq) ''name''") (auto simp: call_tool_def rpc_def)
  with assms(1,2) obtain args where a: "dget_or (rq_params rq) ''arguments'' (JObj []) = JObj args"
    by (cases "dget_or (rq_params rq) ''arguments'' (JObj [])") (auto simp: call_tool_def rpc_def)
  with assms(1,2) n have "name \<in> set control_tools"
    by (auto simp: call_tool_def rpc_def split: if_splits)
  moreover obtain au where "require_authorized M args (rq_id rq) = Inr au"
    using assms(1,2) n a
    by (cases "require_authorized M args (rq_id rq)")
      (auto simp: call_tool_def rpc_def sbind_def split: if_splits)
  ultimately show ?thesis using n a assms(3) by (auto simp: control_request_def)
qed

text \<open>The stages of a connection, from the state after a line.\<close>

lemma mcp_state_kept:
  "call m (v, s) = (r, (v', s')) \<Longrightarrow> v' = v" "rpc x (v, s) = (y, (v', s')) \<Longrightarrow> v' = v \<and> s' = s"
  by (auto simp: call_def rpc_def split: prod.splits)

abbreviation same_mcp :: "mcp_state \<Rightarrow> mcp_state \<times> 's \<Rightarrow> bool" where
  "same_mcp v ms \<equiv> fst ms = v"

lemma keeps_mcp [keeps_intros]:
  "keeps (same_mcp v) (call m)" "keeps (same_mcp v) (rpc x)"
  by (auto simp: keeps_def call_def rpc_def split: prod.splits)

lemma keeps_finish [keeps_intros]:
  "keeps (same_mcp v) (finish_control M r)" "keeps (same_mcp v) (finish_settings M x)"
  "keeps (same_mcp v) (finish_setup M l)"
proof -
  show "keeps (same_mcp v) (finish_control M r)"
    by (cases r; simp add: finish_control_def keeps_pure)
      (rename_tac e, case_tac e; simp add: keeps_pure)
  show "keeps (same_mcp v) (finish_settings M x)"
    by (cases x; simp add: finish_settings_def keeps_pure)
      (rename_tac e, case_tac e; simp add: keeps_pure)
  show "keeps (same_mcp v) (finish_setup M l)"
    by (cases l) (simp_all add: finish_setup_def keeps_pure)
qed

lemma keeps_case_sum [keeps_intros]:
  "(\<And>x. keeps P (f x)) \<Longrightarrow> (\<And>y. keeps P (g y)) \<Longrightarrow> keeps P (case r of Inl x \<Rightarrow> f x | Inr y \<Rightarrow> g y)"
  by (cases r) simp_all

lemma keeps_calls [keeps_intros]:
  "keeps (same_mcp v) (call_control M B name args i au)"
  "keeps (same_mcp v) (call_threshold_settings M B args i)"
  "keeps (same_mcp v) (call_setup M B args i)"
proof -
  show "keeps (same_mcp v) (call_control M B name args i au)"
    unfolding call_control_def call_work_on_def by (intro keeps_intros)
  have "keeps (same_mcp v) (apply_threshold_action B a args i)" for a
    by (cases a) (auto simp: apply_threshold_action_def intro!: keeps_intros)
  then show "keeps (same_mcp v) (call_threshold_settings M B args i)"
    unfolding call_threshold_settings_def by (intro keeps_intros)
  show "keeps (same_mcp v) (call_setup M B args i)"
    unfolding call_setup_def by (intro keeps_intros)
qed

lemma keeps_call_tool: "keeps (same_mcp v) (call_tool M B rq)"
proof (cases "dget (rq_params rq) ''name''")
  case (JStr name)
  then show ?thesis
    by (cases "dget_or (rq_params rq) ''arguments'' (JObj [])")
      (auto simp: call_tool_def intro!: keeps_intros)
qed (auto simp: call_tool_def intro: keeps_intros)

lemma dispatch_stages:
  assumes "dispatch M B rq (v, s) = (r, (v', s'))"
  shows "sv_initialized v' \<Longrightarrow> sv_initialized v \<or> rq_method rq = ''initialize''"
    and "sv_ready v' \<Longrightarrow> sv_ready v \<or> rq_method rq = ''notifications/initialized'' \<and> sv_initialized v"
    and "s' \<noteq> s \<Longrightarrow> sv_ready v \<and> control_request M rq"
proof -
  have tool: "v' = v" if "call_tool M B rq (v, s) = (r, (v', s'))"
    using keepsD [OF keeps_call_tool [of v M B rq], of "(v, s)"] that by simp
  show "sv_initialized v' \<Longrightarrow> sv_initialized v \<or> rq_method rq = ''initialize''"
    using assms tool by (auto simp: dispatch_def sret_def split: if_splits)
  show "sv_ready v' \<Longrightarrow> sv_ready v \<or> rq_method rq = ''notifications/initialized'' \<and> sv_initialized v"
    using assms tool by (auto simp: dispatch_def initialize_def sret_def split: if_splits json.splits)
  assume "s' \<noteq> s"
  with assms call_tool_acts [of M B rq v s r v' s']
  show "sv_ready v \<and> control_request M rq"
    by (auto simp: dispatch_def initialize_def sret_def split: if_splits json.splits)
qed

lemma handle_line_dispatch:
  assumes "handle_line M B raw_line ms = (r, ms')"
  obtains "ms' = ms"
  | rq x where "decode_request (mc_scan M) raw_line = Inr rq" "dispatch M B rq ms = (x, ms')"
proof (cases "decode_request (mc_scan M) raw_line")
  case (Inl e)
  then show ?thesis using assms that by (cases e) (auto simp: handle_line_def)
next
  case (Inr rq)
  obtain x ms1 where d: "dispatch M B rq ms = (x, ms1)" by (metis surj_pair)
  have "ms1 = ms'"
  proof (cases x)
    case (Inl e)
    then show ?thesis
      using assms Inr d by (cases e; cases "case e of Rpc z \<Rightarrow> z | Called _ \<Rightarrow> TypeError")
        (auto simp: handle_line_def)
  next
    case i: (Inr a)
    then show ?thesis using assms Inr d by (auto simp: handle_line_def)
  qed
  with that(2) [OF Inr] d show ?thesis by blast
qed

section \<open>Lemmas: runs of a connection\<close>

text \<open>One frame, as \<open>serve_lines\<close> handles it; \<open>None\<close> when the loop ends there.\<close>

lemma serve_cons:
  assumes "serve_lines M B (f # fs) (v, s) = (out, x, (v', s'))" and "s' \<noteq> s"
  obtains v1 s1 out1 where "(v1, s1) = (v, s) \<or>
      (\<exists>rq y. line_request M f = Some rq \<and> dispatch M B rq (v, s) = (y, (v1, s1)))"
    "serve_lines M B fs (v1, s1) = (out1, x, (v', s')) \<or> (v1, s1) = (v', s')"
proof -
  obtain l bad where f: "f = (l, bad)" by (cases f)
  show ?thesis
  proof (cases bad)
    case True
    with assms(1) f that [of v s] show ?thesis by (auto split: prod.splits)
  next
    case False
    obtain r ms1 where h: "handle_line M B l (v, s) = (r, ms1)" by (metis surj_pair)
    obtain v1 s1 where ms1: "ms1 = (v1, s1)" by (cases ms1)
    have "(v1, s1) = (v, s) \<or> (\<exists>rq y. line_request M f = Some rq \<and> dispatch M B rq (v, s) = (y, (v1, s1)))"
      using h unfolding ms1
    proof (cases rule: handle_line_dispatch)
      case (2 rq y)
      then have "line_request M f = Some rq" using f False by (simp add: line_request_def)
      with 2 show ?thesis by blast
    qed simp
    moreover have "(\<exists>o1. serve_lines M B fs (v1, s1) = (o1, x, (v', s'))) \<or> (v1, s1) = (v', s')"
      using assms(1) f False h ms1 by (cases r) (auto split: prod.splits)
    ultimately show ?thesis using that by blast
  qed
qed

definition frame_method :: "mcp_env \<Rightarrow> string \<Rightarrow> string \<times> bool \<Rightarrow> bool" where
  "frame_method M m f \<longleftrightarrow> (\<exists>rq. line_request M f = Some rq \<and> rq_method rq = m)"

definition frame_control :: "mcp_env \<Rightarrow> string \<times> bool \<Rightarrow> bool" where
  "frame_control M f \<longleftrightarrow> (\<exists>rq. line_request M f = Some rq \<and> control_request M rq)"

lemma run_needs_control:
  "serve_lines M B fs (v, s) = (out, x, (v', s')) \<Longrightarrow> s' \<noteq> s \<Longrightarrow> \<exists>a f b. fs = a @ f # b \<and> frame_control M f"
proof (induction fs arbitrary: v s out)
  case (Cons f fs)
  from Cons.prems obtain v1 s1 out1 where
    step: "(v1, s1) = (v, s) \<or> (\<exists>rq y. line_request M f = Some rq \<and> dispatch M B rq (v, s) = (y, (v1, s1)))"
    and rest: "serve_lines M B fs (v1, s1) = (out1, x, (v', s')) \<or> (v1, s1) = (v', s')"
    by (rule serve_cons)
  show ?case
  proof (cases "s1 = s")
    case True
    with rest Cons.prems(2) have "serve_lines M B fs (v1, s1) = (out1, x, (v', s'))" by auto
    from Cons.IH [OF this] True Cons.prems(2) show ?thesis by (metis append_Cons)
  next
    case False
    with step obtain rq y where "line_request M f = Some rq" "dispatch M B rq (v, s) = (y, (v1, s1))" by auto
    with dispatch_stages(3) [OF this(2) False] have "frame_control M f"
      by (auto simp: frame_control_def)
    then show ?thesis by (metis append_Nil)
  qed
qed simp

lemma run_needs_ready:
  "serve_lines M B fs (v, s) = (out, x, (v', s')) \<Longrightarrow> s' \<noteq> s \<Longrightarrow> \<not> sv_ready v \<Longrightarrow>
   \<exists>a f b. fs = a @ f # b \<and> frame_method M ''notifications/initialized'' f \<and>
     (\<exists>c g d. b = c @ g # d \<and> frame_control M g)"
proof (induction fs arbitrary: v s out)
  case (Cons f fs)
  from Cons.prems(1,2) obtain v1 s1 out1 where
    step: "(v1, s1) = (v, s) \<or> (\<exists>rq y. line_request M f = Some rq \<and> dispatch M B rq (v, s) = (y, (v1, s1)))"
    and rest: "serve_lines M B fs (v1, s1) = (out1, x, (v', s')) \<or> (v1, s1) = (v', s')"
    by (rule serve_cons)
  have same: "s1 = s" using step Cons.prems(3) by (auto dest: dispatch_stages(3))
  with rest Cons.prems(2) have r: "serve_lines M B fs (v1, s1) = (out1, x, (v', s'))" "s' \<noteq> s1" by auto
  show ?case
  proof (cases "sv_ready v1")
    case False
    from Cons.IH [OF r False] show ?thesis by (metis append_Cons)
  next
    case True
    with step Cons.prems(3) have "frame_method M ''notifications/initialized'' f"
      by (auto simp: frame_method_def dest: dispatch_stages(2))
    with run_needs_control [OF r] show ?thesis by (metis append_Nil)
  qed
qed simp

lemma run_needs_initialize:
  "serve_lines M B fs (v, s) = (out, x, (v', s')) \<Longrightarrow> s' \<noteq> s \<Longrightarrow> \<not> sv_ready v \<Longrightarrow> \<not> sv_initialized v \<Longrightarrow>
   \<exists>a f b. fs = a @ f # b \<and> frame_method M ''initialize'' f \<and>
     (\<exists>c g d. b = c @ g # d \<and> frame_method M ''notifications/initialized'' g \<and>
        (\<exists>e h k. d = e @ h # k \<and> frame_control M h))"
proof (induction fs arbitrary: v s out)
  case (Cons f fs)
  from Cons.prems(1,2) obtain v1 s1 out1 where
    step: "(v1, s1) = (v, s) \<or> (\<exists>rq y. line_request M f = Some rq \<and> dispatch M B rq (v, s) = (y, (v1, s1)))"
    and rest: "serve_lines M B fs (v1, s1) = (out1, x, (v', s')) \<or> (v1, s1) = (v', s')"
    by (rule serve_cons)
  have same: "s1 = s" using step Cons.prems(3) by (auto dest: dispatch_stages(3))
  have ready: "\<not> sv_ready v1" using step Cons.prems(3,4) by (auto dest: dispatch_stages(2))
  from same rest Cons.prems(2) have r: "serve_lines M B fs (v1, s1) = (out1, x, (v', s'))" "s' \<noteq> s1"
    by auto
  show ?case
  proof (cases "sv_initialized v1")
    case False
    from Cons.IH [OF r ready False] show ?thesis by (metis append_Cons)
  next
    case True
    with step Cons.prems(4) have "frame_method M ''initialize'' f"
      by (auto simp: frame_method_def dest: dispatch_stages(1))
    with run_needs_ready [OF r ready] show ?thesis by (metis append_Nil)
  qed
qed simp

section \<open>The interface of the daemon\<close>

text \<open>
  \<open>DaemonBackend\<close>: what the dispatcher relies on. Start, stop and status raise only
  \<open>DaemonServiceError\<close>, unless the daemon is broken.
\<close>

locale daemon_protocol =
  fixes start :: "start_request \<Rightarrow> (exn, 's, tool_result) step"
    and stop :: "string \<Rightarrow> (exn, 's, tool_result) step"
    and status :: "string \<Rightarrow> (exn, 's, tool_result) step"
    and broken :: "'s \<Rightarrow> bool"
  assumes start_public: "start r s = (Inl e, s') \<Longrightarrow> (\<exists>c. e = DaemonServiceError c) \<or> broken s"
    and stop_public: "stop sid s = (Inl e, s') \<Longrightarrow> \<exists>c. e = DaemonServiceError c"
    and status_public: "status sid s = (Inl e, s') \<Longrightarrow> \<exists>c. e = DaemonServiceError c"
begin

lemma finish_answers:
  assumes "\<And>e s'. m s = (Inl e, s') \<Longrightarrow> \<exists>c. e = DaemonServiceError c"
  shows "\<exists>result ms'. sbind (call m) (finish_control M) (v, s) = (Inr result, ms')"
proof -
  obtain r s' where m: "m s = (r, s')" by (metis surj_pair)
  show ?thesis
  proof (cases r)
    case (Inl e)
    with m assms obtain c where "e = DaemonServiceError c" by blast
    with Inl m show ?thesis by (simp add: sbind_def call_def finish_control_def sret_def)
  next
    case (Inr a)
    with m show ?thesis by (simp add: sbind_def call_def finish_control_def sret_def)
  qed
qed

lemma stop_answers: "\<exists>result ms'. sbind (call (stop sid)) (finish_control M) (v, s) = (Inr result, ms')"
  by (rule finish_answers) (rule stop_public)

lemma status_answers: "\<exists>result ms'. sbind (call (status sid)) (finish_control M) (v, s) = (Inr result, ms')"
  by (rule finish_answers) (rule status_public)

lemma start_answers:
  "\<not> broken s \<Longrightarrow> \<exists>result ms'. sbind (call (start r)) (finish_control M) (v, s) = (Inr result, ms')"
  by (rule finish_answers) (use start_public in blast)

end

section \<open>The passive daemon behind the server\<close>

definition scheduler_broken :: "world \<Rightarrow> bool" where
  "scheduler_broken w \<longleftrightarrow> sc_closed (nd_scheduler (fst w)) \<or>
     sc_health (nd_scheduler (fst w)) = SCHEDULER_FATAL"

interpretation resident: daemon_protocol
  "\<lambda>r. service_start D r ctx" "service_stop D" "service_status D" scheduler_broken
proof
  show "(\<exists>c. e = DaemonServiceError c) \<or> scheduler_broken w"
    if "service_start D r ctx w = (Inl e, w')" for r w e w'
    using start_control_errors [OF that] unfolding scheduler_broken_def by blast
qed (rule stop_control_errors status_control_errors, assumption)+

definition settings_step ::
  "(store \<Rightarrow> exn + settings_snapshot \<times> store) \<Rightarrow> (exn, world, settings_snapshot) step" where
  "settings_step f = on_store (\<lambda>st. case f st of Inl e \<Rightarrow> (Inl e, st) | Inr (x, st') \<Rightarrow> (Inr x, st'))"

text \<open>
  What \<open>main\<close> of \<open>mcp_server.py\<close> puts together: the notification daemon, the ticket store and the
  settings of the same state root; \<open>ctx\<close> holds the clock readings of the call.
\<close>

definition passive_backend ::
  "daemon_env \<Rightarrow> ticket_env \<Rightarrow> source_env \<Rightarrow> path list \<Rightarrow> tick_context \<Rightarrow>
   (exn, world, string \<times> int) step option \<Rightarrow> world backend" where
  "passive_backend D T so listing ctx setup =
     \<lparr>bk_start = (\<lambda>r. service_start D r ctx), bk_stop = service_stop D, bk_status = service_status D,
      bk_complete = (\<lambda>sid. service_complete D so listing sid ctx),
      bk_consume = (\<lambda>i c. on_store (\<lambda>st. case consume_ticket T (tc_wall_time ctx) i c st of
         Inl e \<Rightarrow> (Inl e, st) | Inr st' \<Rightarrow> (Inr (), st'))),
      bk_show = settings_step (\<lambda>st. ebind (load_settings (de_fs D) (de_home D) st) (\<lambda>s. Inr (s, st))),
      bk_default = settings_step (set_default (de_fs D) (de_home D)),
      bk_recommended = settings_step (set_recommended (de_fs D) (de_home D)),
      bk_custom = (\<lambda>w c. settings_step (set_custom (de_fs D) (de_home D) w c)),
      bk_setup = setup\<rparr>"

lemma handle_tool_line:
  assumes "decode_request (mc_scan M) raw_line = Inr rq" and "rq_method rq = ''tools/call''"
    and "call_tool M B rq (v, s) = (r, ms')" and "sv_ready v"
  shows "handle_line M B raw_line (v, s) =
    (case r of
       Inl (Rpc (JsonRpcError e)) \<Rightarrow> (Inr (if rq_notification rq then None else Some (error_response e)), ms')
     | Inl e \<Rightarrow> (Inl e, ms')
     | Inr result \<Rightarrow>
         (Inr (if rq_notification rq then None
               else case rq_id rq of
                   None \<Rightarrow> Some (error_response \<lparr>er_code = - 32600,
                     er_message = ''Invalid Request'', er_id = None, er_data = JNull\<rparr>)
                 | Some i \<Rightarrow> Some (result_response i result)), ms'))"
proof (cases r)
  case (Inl e)
  then show ?thesis
    using assms by (cases e; cases "case e of Rpc z \<Rightarrow> z | Called _ \<Rightarrow> TypeError")
      (simp_all add: handle_line_def dispatch_def)
qed (use assms in \<open>simp add: handle_line_def dispatch_def\<close>)

section \<open>Lemmas: answered calls\<close>

definition answers :: "('s, json) mcp_step \<Rightarrow> mcp_state \<times> 's \<Rightarrow> bool" where
  "answers m ms \<longleftrightarrow> (\<exists>result ms'. m ms = (Inr result, ms')) \<or>
     (\<exists>e ms'. m ms = (Inl (Rpc (JsonRpcError e)), ms'))"

text \<open>Parsing raises protocol errors only.\<close>

definition protocol_only :: "rpc_exn + 'a \<Rightarrow> bool" where
  "protocol_only r \<longleftrightarrow> (\<forall>x. r = Inl x \<longrightarrow> (\<exists>e. x = JsonRpcError e))"

lemma protocol_only_errors [intro]:
  "protocol_only (Inr a)" "protocol_only (Inl (invalid_params i d))" "protocol_only (Inl (invalid_request i))"
  "protocol_only (Inl (unauthorized i))" "protocol_only (require c (invalid_params i d))"
  "protocol_only r \<Longrightarrow> (\<And>a. protocol_only (f a)) \<Longrightarrow> protocol_only (ebind r f)"
  by (auto simp: protocol_only_def invalid_params_def invalid_request_def unauthorized_def
      rpc_error_def require_def err_simps)

lemma protocol_only_parsing [intro]:
  "protocol_only (required_text vs key i)" "protocol_only (positive_int vs key dflt i)"
  "protocol_only (reject_unknown vs keys i)" "protocol_only (require_authorized M vs i)"
  by (auto simp: required_text_def positive_int_def reject_unknown_def require_authorized_def Let_def
      split: json.splits sum.splits)

lemma protocol_only_requests [intro]:
  "protocol_only (parse_session_request vs i)" "protocol_only (parse_start_request cwd vs i)"
proof -
  show "protocol_only (parse_session_request vs i)"
    unfolding parse_session_request_def by (intro protocol_only_errors protocol_only_parsing)
  have "protocol_only (case validate_thresholds w c of
          Inl _ \<Rightarrow> Inl (invalid_params i (JStr (order_message w c)))
        | Inr _ \<Rightarrow> ebind (required_text vs ''activation_turn_id'' i) (\<lambda>turn. Inr (f turn)))" for w c f
    by (cases "validate_thresholds w c") auto
  then show "protocol_only (parse_start_request cwd vs i)"
    unfolding parse_start_request_def
    by (auto intro!: protocol_only_errors protocol_only_parsing)
qed

lemma answers_rpc:
  "protocol_only r \<Longrightarrow> (\<And>a. r = Inr a \<Longrightarrow> answers (f a) ms) \<Longrightarrow> answers (sbind (rpc r) f) ms"
  by (cases ms; cases r) (auto simp: answers_def protocol_only_def rpc_def sbind_def)

lemma answered_line:
  assumes "decode_request (mc_scan M) raw_line = Inr rq" and "rq_method rq = ''tools/call''"
    and "answers (call_tool M B rq) (v, s)"
  shows "\<exists>resp ms'. handle_line M B raw_line (v, s) = (Inr resp, ms')"
proof (cases "sv_ready v")
  case False
  then show ?thesis
    using assms(1,2) by (simp add: handle_line_def dispatch_def not_initialized_def rpc_error_def)
next
  case True
  from assms(3) show ?thesis
    unfolding answers_def using handle_tool_line [OF assms(1,2) _ True] by fastforce
qed

lemma control_tool_cases:
  assumes "dget (rq_params rq) ''name'' = JStr name" and "name \<in> {''cmw.work_on'', ''cmw.stop'', ''cmw.status''}"
    and "\<And>args au. answers (call_control M B name args (rq_id rq) au) ms"
  shows "answers (call_tool M B rq) ms"
proof (cases "dget_or (rq_params rq) ''arguments'' (JObj [])")
  case (JObj args)
  have "name \<in> set control_tools" "name \<noteq> ''cmw.notifications.setup''" "name \<noteq> ''cmw.settings''"
    using assms(2) by (auto simp: control_tools_def)
  then have "call_tool M B rq = sbind (rpc (require_authorized M args (rq_id rq)))
      (\<lambda>au. call_control M B name args (rq_id rq) au)"
    using assms(1) JObj by (simp add: call_tool_def)
  then show ?thesis using answers_rpc [OF protocol_only_parsing(4)] assms(3) by metis
qed (use assms(1) in \<open>auto simp: call_tool_def answers_def rpc_def invalid_request_def rpc_error_def\<close>)

lemma control_answers:
  assumes "name \<in> {''cmw.stop'', ''cmw.status''}"
  shows "answers (call_control M (passive_backend D T so listing ctx setup) name args i au) (v, w)"
proof -
  have n: "name \<noteq> ''cmw.work_on''" using assms by auto
  show ?thesis
    unfolding call_control_def if_not_P [OF n]
  proof (rule answers_rpc)
    fix sid
    show "answers (sbind (call (if name = ''cmw.stop'' then bk_stop (passive_backend D T so listing ctx setup) sid
        else if name = ''cmw.status'' then bk_status (passive_backend D T so listing ctx setup) sid
        else bk_complete (passive_backend D T so listing ctx setup) sid)) (finish_control M)) (v, w)"
      using assms resident.stop_answers [of D sid M v w] resident.status_answers [of D sid M v w]
      by (auto simp: answers_def passive_backend_def)
  qed auto
qed

text \<open>The ticket store's exceptions in the place of the backend.\<close>

lemma passive_consume:
  "bk_consume (passive_backend D T so listing ctx setup) ident c w = (Inl e, w') \<Longrightarrow>
     w' = w \<and> (e = TypeErr \<or> (\<exists>r. e = ActivationTicketError r))"
  "bk_consume (passive_backend D T so listing ctx setup) ident c w = (Inr u, w') \<Longrightarrow>
     fst w' = fst w \<and> consume_ticket T (tc_wall_time ctx) ident c (snd w) = Inr (snd w')"
  using consume_errors [of T "tc_wall_time ctx" ident c "snd w"]
  by (cases w; auto simp: passive_backend_def on_store_def split: sum.splits prod.splits)+

lemma work_on_answers:
  assumes "\<not> scheduler_broken w"
  shows "answers (call_work_on M (passive_backend D T so listing ctx setup) args i au) (v, w) \<or>
    (\<exists>ms'. call_work_on M (passive_backend D T so listing ctx setup) args i au (v, w) =
      (Inl (Called TypeErr), ms'))"
proof (cases "parse_start_request (mc_cwd M) args i")
  case (Inl e)
  then have "protocol_only (Inl e :: rpc_exn + parsed_start)"
    using protocol_only_requests(2) [of "mc_cwd M" args i] by simp
  with Inl show ?thesis by (auto simp: call_work_on_def rpc_def sbind_def answers_def protocol_only_def)
next
  case (Inr parsed)
  let ?B = "passive_backend D T so listing ctx setup"
  let ?i = "\<lparr>ai_session = au_session au, ai_turn = ps_turn parsed, ai_transcript = ps_transcript_text parsed\<rparr>"
  obtain r w1 where c: "bk_consume ?B ?i (au_capability au) w = (r, w1)" by (metis surj_pair)
  show ?thesis
  proof (cases r)
    case (Inl e)
    with c passive_consume(1) have "e = TypeErr \<or> (\<exists>x. e = ActivationTicketError x)" by blast
    then show ?thesis
      using Inr Inl c by (auto simp: call_work_on_def rpc_def sbind_def call_def finish_control_def
          step_defs answers_def)
  next
    case i: (Inr u)
    have "\<not> scheduler_broken w1" using passive_consume(2) c i assms by (fastforce simp: scheduler_broken_def)
    then obtain result ms' where
      "sbind (call (service_start D (ps_request parsed) ctx)) (finish_control M) (v, w1) = (Inr result, ms')"
      using resident.start_answers by blast
    moreover have "bk_start ?B (ps_request parsed) = service_start D (ps_request parsed) ctx"
      by (simp add: passive_backend_def)
    ultimately have "call_work_on M ?B args i au (v, w) = (Inr result, ms')"
      using Inr i c by (simp add: call_work_on_def rpc_def call_def sbind_def)
    then show ?thesis unfolding answers_def by blast
  qed
qed

section \<open>Lemmas: one activation\<close>

lemma abspath_append: "'''' \<noteq> c \<Longrightarrow> c \<noteq> ''.'' \<Longrightarrow> c \<noteq> ''..'' \<Longrightarrow>
  abspath_onto acc (cs @ [c]) = abspath_onto acc cs @ [c]"
  by (induction acc cs rule: abspath_onto.induct) auto

lemma abspath_document:
  "d \<notin> {'''', ''.'', ''..''} \<Longrightarrow> abspath (h @ [d, x @ ''.json'']) = abspath h @ [d, x @ ''.json'']"
proof -
  assume d: "d \<notin> {'''', ''.'', ''..''}"
  have j: "[] \<noteq> x @ ''.json''" "x @ ''.json'' \<noteq> ''.''" "x @ ''.json'' \<noteq> ''..''"
    by (cases x; simp add: Cons_eq_append_conv append_eq_Cons_conv)+
  have "abspath ((h @ [d]) @ [x @ ''.json'']) = abspath (h @ [d]) @ [x @ ''.json'']"
    unfolding abspath_def by (rule abspath_append [OF j])
  moreover have "abspath (h @ [d]) = abspath h @ [d]"
    unfolding abspath_def by (rule abspath_append) (use d in auto)
  ultimately show ?thesis by simp
qed

lemma ticket_is_no_session:
  "te_home T = de_home D \<Longrightarrow> abspath (ticket_path T a) \<noteq> abspath (session_path D b)"
  by (simp add: ticket_path_def session_path_def runtime_path_def session_filename_def abspath_document)

text \<open>Starting a session writes its document and nothing else.\<close>

lemma schedule_keeps_store: "schedule_tick b now w = (r, w') \<Longrightarrow> snd w' = snd w"
  by (cases w) (auto simp: schedule_tick_def split: sum.splits scheduler_error.splits)

lemma started_writes:
  assumes "service_start D r ctx w = (Inr res, w')" and "q \<noteq> abspath (session_path D (sr_session r))"
  shows "snd w' q = snd w q"
proof -
  obtain s st where w: "w = (s, st)" by (cases w)
  from assms(1) obtain reused st1 where
    st: "start_notification_session D r (tc_wall_time ctx) st = Inr (reused, st1)" and "snd w' = st1"
    unfolding w by (auto simp: service_start_def guarded_Inr sbind_Inr require_open_def on_store_def
        sret_def dest!: schedule_keeps_store split: if_splits sum.splits)
  moreover have "st1 q = st q"
    using st assms(2) by (auto simp: start_notification_session_def save_state_def atomic_json_write_def
        safe_absolute_path_Inr err_simps Let_def split: if_splits)
  ultimately show ?thesis by (simp add: w)
qed

text \<open>What a successful \<open>cmw.work_on\<close> did: the ticket was consumed, then the session started.\<close>

lemma work_on_success:
  assumes "call_work_on M (passive_backend D T so listing ctx setup) args i au (v, w) =
    (Inr (tool_success dumps res), (v', w'))"
  obtains parsed w1 res' where "parse_start_request (mc_cwd M) args i = Inr parsed"
    "fst w1 = fst w" "consume_ticket T (tc_wall_time ctx)
       \<lparr>ai_session = au_session au, ai_turn = ps_turn parsed, ai_transcript = ps_transcript_text parsed\<rparr>
       (au_capability au) (snd w) = Inr (snd w1)"
    "service_start D (ps_request parsed) ctx w1 = (Inr res', w')" "v' = v"
proof -
  let ?B = "passive_backend D T so listing ctx setup"
  from assms obtain parsed where p: "parse_start_request (mc_cwd M) args i = Inr parsed"
    by (cases "parse_start_request (mc_cwd M) args i") (auto simp: call_work_on_def rpc_def sbind_def)
  let ?i = "\<lparr>ai_session = au_session au, ai_turn = ps_turn parsed, ai_transcript = ps_transcript_text parsed\<rparr>"
  obtain r w1 where c: "bk_consume ?B ?i (au_capability au) w = (r, w1)" by (metis surj_pair)
  have no_error: "tool_error m \<noteq> tool_success dumps res" for m
    by (simp add: tool_success_def tool_payload_def tool_error_def)
  show ?thesis
  proof (cases r)
    case (Inl e)
    with assms p c have "finish_control M (Inl e) (v, w1) = (Inr (tool_success dumps res), (v', w'))"
      by (simp add: call_work_on_def rpc_def sbind_def call_def)
    then show ?thesis
      using no_error by (cases e) (auto simp: finish_control_def step_defs)
  next
    case (Inr u)
    obtain x w2 where s: "service_start D (ps_request parsed) ctx w1 = (x, w2)" by (metis surj_pair)
    have "finish_control M x (v, w2) = (Inr (tool_success dumps res), (v', w'))"
      using assms p c Inr s
      by (simp add: call_work_on_def rpc_def sbind_def call_def)
        (simp add: passive_backend_def)
    moreover from this obtain res' where "x = Inr res'"
    proof (cases x)
      case (Inl e)
      with \<open>finish_control M x (v, w2) = _\<close> no_error show ?thesis
        by (cases e) (auto simp: finish_control_def step_defs)
    qed blast
    ultimately have "x = Inr res'" "w2 = w'" "v' = v" by (auto simp: finish_control_def step_defs)
    with p c s passive_consume(2) Inr that show ?thesis by metis
  qed
qed

section \<open>Lemmas: lines\<close>

lemma request_line_id:
  assumes "decode_request scan raw_line = Inr rq"
  shows "rq_notification rq \<longrightarrow> rq_id rq = None"
proof -
  from assms obtain d where "request_of (map (\<lambda>(k, v). (k, plain v)) d) = Inr rq"
    by (rule decode_request_Inr)
  with request_of_Inr request_id_of_Inr show ?thesis by blast
qed

lemma work_on_or_refused:
  assumes "dget (rq_params rq) ''name'' = JStr ''cmw.work_on''"
  shows "(\<exists>e. call_tool M B rq ms = (Inl (Rpc (JsonRpcError e)), ms)) \<or>
    (\<exists>args au. dget_or (rq_params rq) ''arguments'' (JObj []) = JObj args \<and>
       require_authorized M args (rq_id rq) = Inr au \<and>
       call_tool M B rq ms = call_work_on M B args (rq_id rq) au ms)"
proof (cases "dget_or (rq_params rq) ''arguments'' (JObj [])")
  case (JObj args)
  show ?thesis
  proof (cases "require_authorized M args (rq_id rq)")
    case (Inl e)
    then obtain x where "e = JsonRpcError x"
      using protocol_only_parsing(4) [of M args "rq_id rq"] by (auto simp: protocol_only_def)
    with Inl assms JObj show ?thesis
      by (cases ms) (simp add: call_tool_def control_tools_def rpc_def sbind_def)
  next
    case (Inr au)
    with assms JObj show ?thesis
      by (simp add: call_tool_def control_tools_def call_control_def rpc_def sbind_def)
  qed
qed (use assms in \<open>simp_all add: call_tool_def rpc_def invalid_request_def rpc_error_def\<close>)

text \<open>A successful answer of a tool call, and the call behind it.\<close>

lemma answered_success:
  assumes "decode_request (mc_scan M) raw_line = Inr rq" and "rq_method rq = ''tools/call''"
    and "handle_line M B raw_line (v, s) = (Inr (Some (result_response i x)), ms')"
  shows "call_tool M B rq (v, s) = (Inr x, ms') \<and> rq_id rq = Some i \<and> \<not> rq_notification rq \<and> sv_ready v"
proof -
  have no: "error_response e \<noteq> result_response i x" for e
    by (simp add: error_response_def result_response_def)
  have ready: "sv_ready v"
    using assms no by (auto simp: handle_line_def dispatch_def not_initialized_def rpc_error_def
        split: if_splits)
  obtain r ms1 where c: "call_tool M B rq (v, s) = (r, ms1)" by (metis surj_pair)
  note h = handle_tool_line [OF assms(1,2) c ready, unfolded assms(3)]
  show ?thesis
  proof (cases r)
    case (Inl e)
    with h no show ?thesis
      by (cases e; cases "case e of Rpc z \<Rightarrow> z | Called _ \<Rightarrow> TypeError") (auto split: if_splits)
  next
    case (Inr y)
    with h no [symmetric] c ready show ?thesis
      by (cases "rq_notification rq"; cases "rq_id rq"; cases i; cases "the (rq_id rq)")
        (auto simp: result_response_def)
  qed
qed

lemma type_error_line:
  assumes "decode_request (mc_scan M) raw_line = Inr rq" and "rq_method rq = ''tools/call''"
    and "call_tool M B rq (v, s) = (Inl (Called e), ms')"
  shows "\<exists>r ms''. handle_line M B raw_line (v, s) = (r, ms'') \<and> ((\<exists>x. r = Inr x) \<or> r = Inl (Called e))"
proof (cases "sv_ready v")
  case False
  then show ?thesis
    using assms(1,2) by (simp add: handle_line_def dispatch_def not_initialized_def rpc_error_def)
next
  case True
  then show ?thesis using handle_tool_line [OF assms True] by simp
qed

section \<open>Properties\<close>

text \<open>
  C4: no daemon, ticket or settings state changes before the handshake: whatever a client sends, a
  connection changes the state behind the server only after an \<open>initialize\<close>, then a
  \<open>notifications/initialized\<close>, and then a call of a known tool with a session the control key signs.
\<close>

theorem backend_needs_handshake:
  assumes "serve_lines M B fs (new_mcp_state, s) = (out, x, (v', s'))" and "s' \<noteq> s"
  shows "\<exists>a f b g c h d. fs = a @ f # b @ g # c @ h # d \<and> frame_method M ''initialize'' f \<and>
    frame_method M ''notifications/initialized'' g \<and> frame_control M h"
proof -
  from run_needs_initialize [OF assms] obtain a f b c g d e h k where
    "fs = a @ f # b" "b = c @ g # d" "d = e @ h # k"
    "frame_method M ''initialize'' f" "frame_method M ''notifications/initialized'' g" "frame_control M h"
    by (auto simp: new_mcp_state_def)
  then show ?thesis by blast
qed


text \<open>
  The resident server keeps answering: \<open>cmw.stop\<close> and \<open>cmw.status\<close> always get a response, and
  \<open>cmw.work_on\<close> unless the scheduler of the daemon is broken or a comparison of the ticket raised
  \<open>TypeError\<close>; an exception of the daemon, of a document or of a file never ends the loop.
\<close>

theorem passive_controls_answered:
  assumes "decode_request (mc_scan M) raw_line = Inr rq" and "rq_method rq = ''tools/call''"
    and "dget (rq_params rq) ''name'' = JStr name"
    and "name \<in> {''cmw.stop'', ''cmw.status''} \<or> name = ''cmw.work_on'' \<and> \<not> scheduler_broken w"
  shows "\<exists>r ms'. handle_line M (passive_backend D T so listing ctx setup) raw_line (v, w) = (r, ms') \<and>
    ((\<exists>response. r = Inr response) \<or> name = ''cmw.work_on'' \<and> r = Inl (Called TypeErr))"
proof -
  let ?B = "passive_backend D T so listing ctx setup"
  have tool: "answers (call_tool M ?B rq) (v, w) \<or>
      name = ''cmw.work_on'' \<and> (\<exists>ms'. call_tool M ?B rq (v, w) = (Inl (Called TypeErr), ms'))"
    using assms(4)
  proof
    assume "name \<in> {''cmw.stop'', ''cmw.status''}"
    then have name: "name \<in> {''cmw.work_on'', ''cmw.stop'', ''cmw.status''}" by auto
    have "answers (call_tool M ?B rq) (v, w)"
      by (rule control_tool_cases [OF assms(3) name], rule control_answers, fact)
    then show ?thesis ..
  next
    assume *: "name = ''cmw.work_on'' \<and> \<not> scheduler_broken w"
    then have "dget (rq_params rq) ''name'' = JStr ''cmw.work_on''" using assms(3) by simp
    from work_on_or_refused [OF this, of M ?B "(v, w)"] show ?thesis
    proof
      assume "\<exists>args au. dget_or (rq_params rq) ''arguments'' (JObj []) = JObj args \<and>
        require_authorized M args (rq_id rq) = Inr au \<and>
        call_tool M ?B rq (v, w) = call_work_on M ?B args (rq_id rq) au (v, w)"
      then obtain args au where
        "call_tool M ?B rq (v, w) = call_work_on M ?B args (rq_id rq) au (v, w)" by blast
      with * work_on_answers [of w M D T so listing ctx _ args "rq_id rq" au v]
      show ?thesis by (simp add: answers_def)
    qed (auto simp: answers_def)
  qed
  then show ?thesis
  proof
    assume "answers (call_tool M ?B rq) (v, w)"
    from answered_line [OF assms(1,2) this] show ?thesis by blast
  next
    assume "name = ''cmw.work_on'' \<and> (\<exists>ms'. call_tool M ?B rq (v, w) = (Inl (Called TypeErr), ms'))"
    then obtain ms' where "call_tool M ?B rq (v, w) = (Inl (Called TypeErr), ms')" and "name = ''cmw.work_on''"
      by blast
    from type_error_line [OF assms(1,2) this(1)] this(2) show ?thesis by metis
  qed
qed


text \<open>
  One malformed call ends the server: a tool call whose name is an array or an object raises
  \<open>TypeError\<close> out of the decoder, so the line gets no answer and no later line is read.
\<close>

theorem unhashable_name_stops_server:
  assumes "utf8_len (remove_suffix (CHR 0x0D) (remove_suffix (CHR 0x0A) raw_line)) \<le> MAX_RAW_LINE_BYTES"
    and "load_json (mc_scan M (remove_suffix (CHR 0x0D) (remove_suffix (CHR 0x0A) raw_line))) = Inr v"
    and "unhashable_tool_name v"
  shows "serve_lines M B ((raw_line, False) # fs) ms = ([], Some (Rpc TypeError), ms)"
proof -
  from assms(3) obtain d where "v = PDict d" by (cases v) (auto simp: unhashable_tool_name_def)
  then have "decode_request (mc_scan M) raw_line = Inl TypeError"
    using assms by (simp add: decode_request_def Let_def emap_error_def validate_structure_limits)
  then show ?thesis by (simp add: handle_line_def)
qed

section \<open>A concrete connection\<close>

definition ex_call :: "string \<Rightarrow> (string \<times> scanned) list \<Rightarrow> scanned" where
  "ex_call name args = SObject [(''jsonrpc'', SStr ''2.0''), (''id'', SInt ''7''),
     (''method'', SStr ''tools/call''),
     (''params'', SObject [(''name'', SStr name), (''arguments'', SObject args)])]"

definition ex_line_scan :: "string \<Rightarrow> scanned" where
  "ex_line_scan s =
     (if s = ''init'' then SObject [(''jsonrpc'', SStr ''2.0''), (''id'', SInt ''7''),
        (''method'', SStr ''initialize''), (''params'', SObject [(''protocolVersion'', SStr ''1'')])]
      else if s = ''ready'' then SObject [(''jsonrpc'', SStr ''2.0''),
        (''method'', SStr ''notifications/initialized'')]
      else if s = ''stop'' then ex_call ''cmw.stop'' [(''session_id'', SStr ''s'')]
      else if s = ''work'' then ex_call ''cmw.work_on'' [(''session_id'', SStr ''s''),
        (''transcript_path'', SStr ''/h/t.jsonl''), (''activation_turn_id'', SStr ''t'')]
      else SObject [(''method'', SStr ''tools/call''), (''params'', SObject [(''name'', SList [])])])"

definition ex_mcp :: mcp_env where
  "ex_mcp = \<lparr>mc_crypto = te_crypto ex_tickets, mc_key = te_key ex_tickets, mc_cwd = [],
     mc_dumps = (\<lambda>_. ''{}''), mc_descriptors = (\<lambda>_. JList []), mc_scan = ex_line_scan\<rparr>"

definition ex_no_rollouts :: source_env where
  "ex_no_rollouts = \<lparr>so_limits = rollout_limits, so_decode = (\<lambda>_. None), so_rollouts = Map.empty\<rparr>"

abbreviation ex_passive :: "tick_context \<Rightarrow> world backend" where
  "ex_passive ctx \<equiv> passive_backend ex_daemon ex_tickets ex_no_rollouts [] ctx None"

lemmas decode_simps = remove_suffix_def MAX_RAW_LINE_BYTES_def parse_int_def py_int_def
  INT_MAX_STR_DIGITS_def object_pairs_def MAX_OBJECT_MEMBERS_def MAX_STRING_BYTES_def emap_error_def
  validate_structure_limits unhashable_tool_name_def MAX_NESTING_DEPTH_def MAX_ARRAY_ITEMS_def
  request_of_def request_id_of_def nat_of_digits_def digit_value_def Let_def

lemma ex_decode_init: "decode_request ex_line_scan ''init'' =
  Inr \<lparr>rq_method = ''initialize'', rq_params = [(''protocolVersion'', JStr ''1'')],
    rq_id = Some (IntId 7), rq_notification = False\<rparr>"
  by (simp add: decode_request_def ex_line_scan_def decode_simps)

lemma ex_decode_ready: "decode_request ex_line_scan ''ready'' =
  Inr \<lparr>rq_method = ''notifications/initialized'', rq_params = [], rq_id = None, rq_notification = True\<rparr>"
  by (simp add: decode_request_def ex_line_scan_def decode_simps)

lemma ex_decode_stop: "decode_request ex_line_scan ''stop'' =
  Inr \<lparr>rq_method = ''tools/call'', rq_params = [(''name'', JStr ''cmw.stop''),
    (''arguments'', JObj [(''session_id'', JStr ''s'')])], rq_id = Some (IntId 7), rq_notification = False\<rparr>"
  by (simp add: decode_request_def ex_line_scan_def ex_call_def decode_simps control_call_def)

lemma ex_decode_work: "decode_request ex_line_scan ''work'' =
  Inr \<lparr>rq_method = ''tools/call'', rq_params = [(''name'', JStr ''cmw.work_on''),
    (''arguments'', JObj [(''session_id'', JStr ''s''), (''transcript_path'', JStr ''/h/t.jsonl''),
      (''activation_turn_id'', JStr ''t'')])], rq_id = Some (IntId 7), rq_notification = False\<rparr>"
  by (simp add: decode_request_def ex_line_scan_def ex_call_def decode_simps control_call_def)

lemma ex_authorized:
  "require_authorized ex_mcp ((''session_id'', JStr ''s'') # rest) i =
     Inr \<lparr>au_session = ''s'', au_capability = ''tk''\<rparr>"
  using ex_ticket_facts(9) by (simp add: require_authorized_def ex_mcp_def ex_identity_def)

lemma ex_mcp_scan: "mc_scan ex_mcp = ex_line_scan"
  by (simp add: ex_mcp_def)

lemma ex_stop_line:
  assumes "service_stop ex_daemon ''s'' w = (Inr res, w')" and "sv_ready v"
  shows "handle_line ex_mcp (ex_passive ctx) ''stop'' (v, w) =
    (Inr (Some (result_response (IntId 7) (tool_success (mc_dumps ex_mcp) res))), (v, w'))"
proof -
  have c: "call_tool ex_mcp (ex_passive ctx)
      \<lparr>rq_method = ''tools/call'', rq_params = [(''name'', JStr ''cmw.stop''),
        (''arguments'', JObj [(''session_id'', JStr ''s'')])], rq_id = Some (IntId 7),
        rq_notification = False\<rparr> (v, w) = (Inr (tool_success (mc_dumps ex_mcp) res), (v, w'))"
    using assms by (simp add: call_tool_def ex_authorized control_tools_def rpc_def call_control_def
        parse_session_request_def reject_unknown_def SESSION_KEYS_def require_def required_text_def
        MAX_TOOL_TEXT_CHARS_def sbind_def call_def finish_control_def sret_def)
      (simp add: passive_backend_def finish_control_def sret_def)
  show ?thesis
    using handle_tool_line [OF ex_decode_stop [folded ex_mcp_scan] _ c assms(2)] by simp
qed

lemma ex_handshake:
  "serve_lines ex_mcp B ((''init'', False) # (''ready'', False) # fs) (new_mcp_state, s) =
     (case serve_lines ex_mcp B fs (\<lparr>sv_initialized = True, sv_ready = True\<rparr>, s) of
        (out, x, ms') \<Rightarrow> (result_response (IntId 7) (server_info ''2025-11-25'') # out, x, ms'))"
  by (simp add: handle_line_def ex_mcp_def ex_decode_init ex_decode_ready dispatch_def initialize_def
      new_mcp_state_def negotiate_protocol_def SUPPORTED_PROTOCOLS_def)

theorem backend_needs_handshake_witness:
  "\<exists>out x v' s' st'. serve_lines ex_mcp (ex_passive \<lparr>tc_now = 7, tc_wall_time = 130\<rparr>)
     [(''init'', False), (''ready'', False), (''stop'', False)] (new_mcp_state, (ex_service, ex_store)) =
     (out, x, (v', (s', st'))) \<and> st' \<noteq> ex_store \<and>
   (\<exists>f b g c h d. [(''init'', False), (''ready'', False), (''stop'', False)] = f # b @ g # c @ h # d \<and>
     frame_method ex_mcp ''initialize'' f \<and> frame_control ex_mcp h)"
proof -
  obtain res s' st' where "service_stop ex_daemon ''s'' (ex_service, ex_store) = (Inr res, (s', st'))"
    and d: "st' ex_runtime_file = None" using ex_stopped by blast
  from ex_stop_line [OF this(1), of "\<lparr>sv_initialized = True, sv_ready = True\<rparr>"] obtain out x v' where
    r: "serve_lines ex_mcp (ex_passive \<lparr>tc_now = 7, tc_wall_time = 130\<rparr>)
     [(''init'', False), (''ready'', False), (''stop'', False)] (new_mcp_state, (ex_service, ex_store)) =
     (out, x, (v', (s', st')))" unfolding ex_handshake by simp
  have "st' \<noteq> ex_store" using d by (auto simp: ex_store_def)
  with backend_needs_handshake [OF r] obtain a f b g c h d where
    *: "[(''init'', False), (''ready'', False), (''stop'', False)] = a @ f # b @ g # c @ h # d"
      "frame_method ex_mcp ''initialize'' f" "frame_control ex_mcp h" by auto
  have "a = []" using arg_cong [OF *(1), of length] by simp
  with * r \<open>st' \<noteq> ex_store\<close> show ?thesis by (intro exI conjI) (assumption | simp only: append_Nil)+
qed


theorem passive_controls_answered_witness:
  "\<exists>d. fst (handle_line ex_mcp (ex_passive \<lparr>tc_now = 7, tc_wall_time = 130\<rparr>) ''stop''
     (\<lparr>sv_initialized = True, sv_ready = True\<rparr>, (ex_service\<lparr>nd_closed := True\<rparr>, ex_store))) = Inr d"
proof -
  obtain r ms' where "handle_line ex_mcp (ex_passive \<lparr>tc_now = 7, tc_wall_time = 130\<rparr>) ''stop''
     (\<lparr>sv_initialized = True, sv_ready = True\<rparr>, (ex_service\<lparr>nd_closed := True\<rparr>, ex_store)) = (r, ms')"
    "\<exists>d. r = Inr d"
    using passive_controls_answered [OF ex_decode_stop [folded ex_mcp_scan], of "''cmw.stop''"
        "(ex_service\<lparr>nd_closed := True\<rparr>, ex_store)" ex_daemon ex_tickets ex_no_rollouts "[]"
        "\<lparr>tc_now = 7, tc_wall_time = 130\<rparr>" None "\<lparr>sv_initialized = True, sv_ready = True\<rparr>"]
    by simp blast
  then show ?thesis by force
qed

theorem unhashable_name_stops_server_witness:
  "serve_lines ex_mcp (ex_passive \<lparr>tc_now = 7, tc_wall_time = 130\<rparr>) [(''bad'', False), (''init'', False)]
     (new_mcp_state, (ex_service, ex_store)) =
   ([], Some (Rpc TypeError), (new_mcp_state, (ex_service, ex_store)))"
  by (rule unhashable_name_stops_server
      [where v = "PDict [(''method'', PStr ''tools/call''), (''params'', PDict [(''name'', PList [])])]"])
    (simp_all add: ex_mcp_def ex_line_scan_def decode_simps)

lemma ex_work_call:
  assumes "bk_consume (ex_passive ctx) ex_identity ''tk'' w = (Inr (), w1)"
    and "service_start ex_daemon ex_start ctx w1 = (Inr res, w2)"
  shows "call_work_on ex_mcp (ex_passive ctx) [(''session_id'', JStr ''s''),
      (''transcript_path'', JStr ''/h/t.jsonl''), (''activation_turn_id'', JStr ''t'')] i
      \<lparr>au_session = ''s'', au_capability = ''tk''\<rparr> (v, w) =
    (Inr (tool_success (mc_dumps ex_mcp) res), (v, w2))"
proof -
  have p: "parse_start_request (mc_cwd ex_mcp) [(''session_id'', JStr ''s''),
      (''transcript_path'', JStr ''/h/t.jsonl''), (''activation_turn_id'', JStr ''t'')] i =
    Inr \<lparr>ps_request = ex_start, ps_transcript_text = ''/h/t.jsonl'', ps_turn = ''t''\<rparr>"
    by (simp add: parse_start_request_def LEGACY_RESTART_KEYS_def reject_unknown_def START_KEYS_def
        require_def required_text_def MAX_TOOL_TEXT_CHARS_def positive_int_def DEFAULT_WARNING_MS_def
        DEFAULT_CRITICAL_MS_def MAX_THRESHOLD_MS_def validate_thresholds_def path_of_def path_string_def
        posix_parts_def is_absolute_def Let_def ex_start_def)
  have "bk_start (ex_passive ctx) ex_start w1 = (Inr res, w2)"
    using assms(2) by (simp add: passive_backend_def)
  then show ?thesis
    using p assms(1) by (simp add: call_work_on_def rpc_def sbind_def call_def ex_identity_def
        finish_control_def sret_def)
qed

lemma ex_activated:
  "\<exists>w res w2. handle_line ex_mcp (ex_passive \<lparr>tc_now = 7, tc_wall_time = 130\<rparr>) ''work''
     (\<lparr>sv_initialized = True, sv_ready = True\<rparr>, w) =
   (Inr (Some (result_response (IntId 7) (tool_success (mc_dumps ex_mcp) res))),
    (\<lparr>sv_initialized = True, sv_ready = True\<rparr>, w2))"
proof -
  let ?v = "\<lparr>sv_initialized = True, sv_ready = True\<rparr>" and ?ctx = "\<lparr>tc_now = 7, tc_wall_time = 130\<rparr>"
  obtain st' st'' where c: "consume_ticket ex_tickets 130 ex_identity ''tk'' st' = Inr st''"
    and none: "st'' ex_runtime_file = None"
    using ex_consumed by (auto simp: ex_runtime_file_def)
  have consume: "bk_consume (ex_passive ?ctx) ex_identity ''tk'' (ex_service, st') =
      (Inr (), (ex_service, st''))"
    using c by (simp add: passive_backend_def on_store_def)
  obtain st3 where st3: "start_notification_session ex_daemon ex_start 130 st'' = Inr (False, st3)"
    using ex_started [of st'' 130] none by blast
  obtain sch where sch: "schedule_tick True 7 (ex_service, st3) = (Inr (), (ex_service\<lparr>nd_scheduler := sch\<rparr>, st3))"
    by (rule schedule_tick_ready [OF ex_ready, of True 7])
  have "\<exists>res w2. service_start ex_daemon ex_start ?ctx (ex_service, st'') = (Inr res, w2)"
    using st3 sch ex_ready [of st'']
    by (simp add: service_start_def guarded_Inr require_open_def on_store_def sbind_def sret_def tick_ready_def)
  then obtain res w2 where start: "service_start ex_daemon ex_start ?ctx (ex_service, st'') = (Inr res, w2)"
    by (elim exE)
  have tool: "call_tool ex_mcp (ex_passive ?ctx)
      \<lparr>rq_method = ''tools/call'', rq_params = [(''name'', JStr ''cmw.work_on''),
        (''arguments'', JObj [(''session_id'', JStr ''s''), (''transcript_path'', JStr ''/h/t.jsonl''),
          (''activation_turn_id'', JStr ''t'')])], rq_id = Some (IntId 7), rq_notification = False\<rparr>
      (?v, (ex_service, st')) = (Inr (tool_success (mc_dumps ex_mcp) res), (?v, w2))"
    using ex_work_call [OF consume start]
    by (simp add: call_tool_def ex_authorized control_tools_def rpc_def call_control_def sbind_def)
  from handle_tool_line [OF ex_decode_work [folded ex_mcp_scan] _ tool] show ?thesis
    by (intro exI [of _ "(ex_service, st')"] exI [of _ res] exI [of _ w2]) simp
qed


end
