(* ===== verification/SessionIdentity.thy ===== *)
theory SessionIdentity
  imports Durations ActivationTickets WatcherSource
begin

text \<open>
  \<open>scripts/session_identity.py\<close>: the binding of an activation to the thread its rollout belongs to.
  Python's \<open>int(text, base)\<close> and \<open>uuid.UUID\<close> are written out on 8-bit characters; the text of the
  rollout (undecodable is \<open>None\<close>) and the JSON loader are arguments.
\<close>

section \<open>Python's integer literals\<close>

definition py_space :: "char \<Rightarrow> bool" where
  "py_space c \<longleftrightarrow> c \<in> {CHR 0x20, CHR 0x09, CHR 0x0A, CHR 0x0B, CHR 0x0C, CHR 0x0D,
     CHR 0x1C, CHR 0x1D, CHR 0x1E, CHR 0x1F, CHR 0x85, CHR 0xA0}"

definition strip_set :: "(char \<Rightarrow> bool) \<Rightarrow> string \<Rightarrow> string" where
  "strip_set P s = rev (dropWhile P (rev (dropWhile P s)))"

definition digit_in :: "char \<Rightarrow> nat option" where
  "digit_in c =
     (if is_digit c then Some (of_char c - 48)
      else if CHR ''a'' \<le> c \<and> c \<le> CHR ''z'' then Some (of_char c - 87)
      else if CHR ''A'' \<le> c \<and> c \<le> CHR ''Z'' then Some (of_char c - 55)
      else None)"

text \<open>The digits of a literal, with single underscores between them; \<open>d\<close>: a digit came last.\<close>

fun digits_loop :: "nat \<Rightarrow> bool \<Rightarrow> nat \<Rightarrow> string \<Rightarrow> nat option" where
  "digits_loop b d n [] = (if d then Some n else None)"
| "digits_loop b d n (c # cs) =
     (if c = CHR ''_'' then (if d then digits_loop b False n cs else None)
      else case digit_in c of
          Some v \<Rightarrow> if v < b then digits_loop b True (b * n + v) cs else None
        | None \<Rightarrow> None)"

definition unsigned_literal :: "nat \<Rightarrow> string \<Rightarrow> nat option" where
  "unsigned_literal b s =
     (case s of
        z # x # r \<Rightarrow>
          if b = 16 \<and> z = CHR ''0'' \<and> (x = CHR ''x'' \<or> x = CHR ''X'')
          then digits_loop b False 0 (case r of CHR ''_'' # r' \<Rightarrow> r' | _ \<Rightarrow> r)
          else digits_loop b False 0 s
      | _ \<Rightarrow> digits_loop b False 0 s)"

definition py_int :: "nat \<Rightarrow> string \<Rightarrow> int option" where
  "py_int b s =
     (case strip_set py_space s of
        CHR ''-'' # r \<Rightarrow> map_option (\<lambda>n. - int n) (unsigned_literal b r)
      | CHR ''+'' # r \<Rightarrow> map_option int (unsigned_literal b r)
      | r \<Rightarrow> map_option int (unsigned_literal b r))"

section \<open>UUIDs\<close>

text \<open>\<open>s.replace(pat, "")\<close>; the counter skips the rest of an occurrence.\<close>

fun remove_all :: "string \<Rightarrow> nat \<Rightarrow> string \<Rightarrow> string" where
  "remove_all pat k [] = []"
| "remove_all pat (Suc k) (c # cs) = remove_all pat k cs"
| "remove_all pat 0 (c # cs) =
     (if prefix pat (c # cs) then remove_all pat (length pat - 1) cs else c # remove_all pat 0 cs)"

definition parse_uuid :: "string \<Rightarrow> nat option" where
  "parse_uuid txt =
     (let h = filter (\<lambda>c. c \<noteq> CHR ''-'') (strip_set (\<lambda>c. c \<in> {CHR ''{'', CHR ''}''})
                (remove_all ''uuid:'' 0 (remove_all ''urn:'' 0 txt)))
      in if length h \<noteq> 32 then None
         else case py_int 16 h of
             None \<Rightarrow> None
           | Some i \<Rightarrow> if 0 \<le> i \<and> i < 2 ^ 128 then Some (nat i) else None)"

definition hex_char :: "nat \<Rightarrow> char" where
  "hex_char d = (if d < 10 then char_of (48 + d) else char_of (87 + d))"

definition hex_text :: "nat \<Rightarrow> nat \<Rightarrow> string" where
  "hex_text k n = map (\<lambda>i. hex_char (n div 16 ^ i mod 16)) (rev [0 ..< k])"

definition hyphenated :: "string \<Rightarrow> string" where
  "hyphenated h = take 8 h @ ''-'' @ take 4 (drop 8 h) @ ''-'' @ take 4 (drop 12 h) @ ''-'' @
     take 4 (drop 16 h) @ ''-'' @ drop 20 h"

definition canonical_uuid :: "string \<Rightarrow> exn + string" where
  "canonical_uuid txt =
     (case parse_uuid txt of
        None \<Rightarrow> Inl (SessionIdentityError ''session_id_invalid'')
      | Some n \<Rightarrow>
          if txt \<noteq> hyphenated (hex_text 32 n)
          then Inl (SessionIdentityError ''session_id_invalid'')
          else Inr (hyphenated (hex_text 32 n)))"

section \<open>The rollout's identity\<close>

text \<open>\<open>readline\<close> of a text opened with \<open>newline=""\<close>: any of the three line ends, untranslated.\<close>

fun text_line :: "string \<Rightarrow> string" where
  "text_line [] = []"
| "text_line (c # cs) =
     (if c = CHR 0x0A then [c]
      else if c = CHR 0x0D then (case cs of CHR 0x0A # _ \<Rightarrow> [c, CHR 0x0A] | _ \<Rightarrow> [c])
      else c # text_line cs)"

definition MAX_METADATA_BYTES :: nat where
  "MAX_METADATA_BYTES = 65536"

definition require_bound_rollout :: "decoder \<Rightarrow> string option \<Rightarrow> string \<Rightarrow> exn + string" where
  "require_bound_rollout decode content requested =
     ebind (canonical_uuid requested) (\<lambda>canonical.
     case content of
       None \<Rightarrow> Inl (SessionIdentityError ''rollout_identity_unreadable'')
     | Some s \<Rightarrow>
         let txt = take (MAX_METADATA_BYTES + 1) (text_line s)
         in if txt = [] \<or> length (utf8_encode txt) > MAX_METADATA_BYTES
            then Inl (SessionIdentityError ''rollout_identity_missing'')
            else case decode txt of
                None \<Rightarrow> Inl (SessionIdentityError ''rollout_identity_invalid'')
              | Some (JObj r) \<Rightarrow>
                  if dget r ''type'' \<noteq> JStr ''session_meta''
                  then Inl (SessionIdentityError ''rollout_identity_missing'')
                  else (case dget r ''payload'' of
                      JObj payload \<Rightarrow>
                        (case dget payload ''id'' of
                           JStr rollout_id \<Rightarrow> ebind (canonical_uuid rollout_id) (\<lambda>c.
                             if c \<noteq> canonical then Inl (SessionIdentityError ''rollout_session_mismatch'')
                             else Inr canonical)
                         | _ \<Rightarrow> Inl (SessionIdentityError ''rollout_session_mismatch''))
                    | _ \<Rightarrow> Inl (SessionIdentityError ''rollout_session_mismatch''))
              | Some _ \<Rightarrow> Inl (SessionIdentityError ''rollout_identity_missing''))"

section \<open>Lemmas: hexadecimal texts\<close>

definition lower_hex :: "char \<Rightarrow> bool" where
  "lower_hex c \<longleftrightarrow> c \<in> set ''0123456789abcdef''"

lemma hex_char_lower: "d < 16 \<Longrightarrow> lower_hex (hex_char d) \<and> digit_in (hex_char d) = Some d"
proof -
  assume "d < 16"
  then have "d \<in> set [0 ..< 16]" by simp
  moreover have "list_all (\<lambda>d. lower_hex (hex_char d) \<and> digit_in (hex_char d) = Some d) [0 ..< 16]"
    by code_simp
  ultimately show ?thesis unfolding list_all_iff by blast
qed

lemma lower_hex_value:
  assumes "lower_hex c"
  shows "\<exists>d. digit_in c = Some d \<and> d < 16 \<and> hex_char d = c" and "c \<notin> set ''-_:{}xX+ ''" and "\<not> py_space c"
proof -
  have "list_all (\<lambda>c. (case digit_in c of None \<Rightarrow> False | Some d \<Rightarrow> d < 16 \<and> hex_char d = c) \<and>
     c \<notin> set ''-_:{}xX+ '' \<and> \<not> py_space c) ''0123456789abcdef''"
    by code_simp
  then have "(case digit_in c of None \<Rightarrow> False | Some d \<Rightarrow> d < 16 \<and> hex_char d = c) \<and>
     c \<notin> set ''-_:{}xX+ '' \<and> \<not> py_space c"
    using assms unfolding list_all_iff lower_hex_def by blast
  then show "\<exists>d. digit_in c = Some d \<and> d < 16 \<and> hex_char d = c" and "c \<notin> set ''-_:{}xX+ ''"
    and "\<not> py_space c" by (auto split: option.splits)
qed

text \<open>The digits of \<open>n\<close> in base 16, and the number they denote.\<close>

lemma digits_loop_hex:
  "list_all lower_hex cs \<Longrightarrow> d \<or> cs \<noteq> [] \<Longrightarrow>
   digits_loop 16 d n cs = Some (foldl (\<lambda>n c. 16 * n + the (digit_in c)) n cs)"
proof (induction cs arbitrary: d n)
  case (Cons c cs)
  then obtain v where "digit_in c = Some v" "v < 16" "c \<noteq> CHR ''_''"
    using lower_hex_value [of c] by auto
  with Cons show ?case by simp
qed simp

lemma hex_text_Suc: "hex_text (Suc k) n = hex_text k (n div 16) @ [hex_char (n mod 16)]"
proof -
  have "rev [0 ..< Suc k] = map Suc (rev [0 ..< k]) @ [0]"
    by (metis list.simps(9) map_Suc_upt rev.simps(2) rev_map upt_conv_Cons zero_less_Suc)
  then show ?thesis
    unfolding hex_text_def by (simp add: div_mult2_eq comp_def)
qed

lemma hex_text_fold:
  "list_all lower_hex cs \<Longrightarrow>
   hex_text (length cs) (foldl (\<lambda>n c. 16 * n + the (digit_in c)) 0 cs) = cs \<and>
   foldl (\<lambda>n c. 16 * n + the (digit_in c)) 0 cs < 16 ^ length cs"
proof (induction cs rule: rev_induct)
  case (snoc c cs)
  then obtain v where v: "digit_in c = Some v" "v < 16" "hex_char v = c"
    using lower_hex_value(1) [of c] by auto
  with snoc show ?case by (auto simp: hex_text_Suc)
qed (simp add: hex_text_def)

lemma hex_text_lower: "list_all lower_hex (hex_text k n) \<and> length (hex_text k n) = k"
  using hex_char_lower by (auto simp: hex_text_def list_all_iff)

section \<open>Canonical identifiers\<close>

text \<open>The text form of RFC 4122 in lower case, as a shape of the text.\<close>

definition uuid_shape :: "string \<Rightarrow> bool" where
  "uuid_shape s \<longleftrightarrow> (\<exists>a b c d e. s = a @ ''-'' @ b @ ''-'' @ c @ ''-'' @ d @ ''-'' @ e \<and>
     length a = 8 \<and> length b = 4 \<and> length c = 4 \<and> length d = 4 \<and> length e = 12 \<and>
     list_all lower_hex (a @ b @ c @ d @ e))"

lemma hyphenated_shape: "list_all lower_hex h \<Longrightarrow> length h = 32 \<Longrightarrow> uuid_shape (hyphenated h)"
  unfolding uuid_shape_def hyphenated_def
  by (intro exI [of _ "take 8 h"] exI [of _ "take 4 (drop 8 h)"] exI [of _ "take 4 (drop 12 h)"]
      exI [of _ "take 4 (drop 16 h)"] exI [of _ "drop 20 h"])
    (auto simp: list_all_iff dest!: in_set_takeD in_set_dropD)

lemma remove_all_absent:
  "CHR '':'' \<notin> set s \<Longrightarrow> CHR '':'' \<in> set pat \<Longrightarrow> remove_all pat 0 s = s"
proof (induction s)
  case (Cons c cs)
  then have "\<not> prefix pat (c # cs)" by (metis set_mono_prefix subsetD)
  with Cons show ?case by simp
qed simp

lemma strip_set_absent: "s \<noteq> [] \<Longrightarrow> \<not> P (hd s) \<Longrightarrow> \<not> P (last s) \<Longrightarrow> strip_set P s = s"
proof -
  assume s: "s \<noteq> []" "\<not> P (hd s)" "\<not> P (last s)"
  then have "dropWhile P s = s" by (cases s) auto
  moreover have "dropWhile P (rev s) = rev s" using s by (cases s rule: rev_cases) auto
  ultimately show ?thesis by (simp add: strip_set_def)
qed

lemma py_int_hex:
  assumes "list_all lower_hex h" and "h \<noteq> []"
  shows "py_int 16 h = Some (int (foldl (\<lambda>n c. 16 * n + the (digit_in c)) 0 h))"
proof -
  have in_h: "lower_hex c" if "c \<in> set h" for c using assms(1) that by (simp add: list_all_iff)
  have "strip_set py_space h = h"
    using in_h assms(2) lower_hex_value(3) by (intro strip_set_absent) auto
  moreover have "unsigned_literal 16 h = digits_loop 16 False 0 h"
    using in_h lower_hex_value(2) by (auto simp: unsigned_literal_def split: list.splits)
  moreover have "hd h \<notin> {CHR ''-'', CHR ''+''}"
    using in_h assms(2) lower_hex_value(2) [of "hd h"] by auto
  ultimately show ?thesis
    using digits_loop_hex [OF assms(1), of False 0] assms(2)
    by (auto simp: py_int_def split: list.splits char.splits bool.splits)
qed

lemma parse_uuid_shape:
  assumes "uuid_shape s"
  shows "\<exists>n. parse_uuid s = Some n \<and> hyphenated (hex_text 32 n) = s"
proof -
  from assms obtain a b c d e where s: "s = a @ ''-'' @ b @ ''-'' @ c @ ''-'' @ d @ ''-'' @ e"
    and len: "length a = 8" "length b = 4" "length c = 4" "length d = 4" "length e = 12"
    and hex: "list_all lower_hex (a @ b @ c @ d @ e)" unfolding uuid_shape_def by blast
  let ?h = "a @ b @ c @ d @ e"
  have in_h: "x \<notin> set ''-_:{}xX+ ''" if "x \<in> set ?h" for x
    using hex that lower_hex_value(2) [of x] unfolding list_all_iff by blast
  have no: "x \<noteq> CHR '':''" "x \<noteq> CHR ''{''" "x \<noteq> CHR ''}''" if "x \<in> set s" for x
    using in_h [of x] that by (auto simp: s)
  have "s \<noteq> []" by (simp add: s)
  then have "strip_set (\<lambda>c. c \<in> {CHR ''{'', CHR ''}''}) s = s"
    using no hd_in_set [of s] last_in_set [of s] by (intro strip_set_absent) blast+
  moreover have "remove_all p 0 s = s" if "CHR '':'' \<in> set p" for p
    using no that by (intro remove_all_absent) auto
  ultimately have stripped: "strip_set (\<lambda>c. c \<in> {CHR ''{'', CHR ''}''})
      (remove_all ''uuid:'' 0 (remove_all ''urn:'' 0 s)) = s"
    by simp
  have "filter (\<lambda>c. c \<noteq> CHR ''-'') x = x" if "set x \<subseteq> set ?h" for x
    using in_h that by (auto intro!: filter_True)
  from this [of a] this [of b] this [of c] this [of d] this [of e]
  have digits: "filter (\<lambda>c. c \<noteq> CHR ''-'') s = ?h" by (simp add: s subset_iff)
  have len32: "length ?h = 32" using len by simp
  define n where "n = foldl (\<lambda>n c. 16 * n + the (digit_in c)) 0 ?h"
  have n: "hex_text 32 n = ?h" "n < 2 ^ 128"
    using hex_text_fold [OF hex] unfolding len32 n_def [symmetric] by simp_all
  have "py_int 16 ?h = Some (int n)"
    unfolding n_def using len32 by (intro py_int_hex [OF hex]) auto
  moreover have "int n < 2 ^ 128" using n(2) by (metis of_nat_less_iff of_nat_numeral of_nat_power)
  ultimately have "parse_uuid s = Some n"
    unfolding parse_uuid_def Let_def stripped digits len32 by simp
  moreover note n(1)
  moreover have "hyphenated ?h = s" using len by (simp add: hyphenated_def s)
  ultimately show ?thesis by metis
qed

lemma canonical_uuid_Inr: "canonical_uuid s = Inr c \<longleftrightarrow> c = s \<and> uuid_shape s"
proof
  assume "canonical_uuid s = Inr c"
  then obtain n where "c = s" "s = hyphenated (hex_text 32 n)"
    by (auto simp: canonical_uuid_def split: option.splits if_splits)
  with hyphenated_shape hex_text_lower show "c = s \<and> uuid_shape s" by metis
next
  assume "c = s \<and> uuid_shape s"
  with parse_uuid_shape [of s] obtain n where "parse_uuid s = Some n" "hyphenated (hex_text 32 n) = s"
    "c = s" by blast
  then show "canonical_uuid s = Inr c" by (simp add: canonical_uuid_def)
qed

lemma canonical_uuid_Inl: "canonical_uuid s = Inl e \<longleftrightarrow> \<not> uuid_shape s \<and> e = SessionIdentityError ''session_id_invalid''"
proof (cases "canonical_uuid s")
  case (Inl e')
  then have "e' = SessionIdentityError ''session_id_invalid''"
    by (auto simp: canonical_uuid_def split: option.splits if_splits)
  with Inl canonical_uuid_Inr [of s s] show ?thesis by auto
next
  case (Inr c)
  with canonical_uuid_Inr [of s c] show ?thesis by simp
qed

lemma text_line_Nil: "text_line s = [] \<longleftrightarrow> s = []"
proof (cases s)
  case (Cons c cs)
  have "(case cs of CHR 0x0A # x \<Rightarrow> [c, CHR 0x0A] | _ \<Rightarrow> [c]) \<noteq> []"
    by (cases "\<exists>x. cs = CHR 0x0A # x") (auto split: list.split char.split bool.split)
  with Cons show ?thesis by simp
qed simp

section \<open>Properties\<close>

text \<open>
  An activation is bound to the thread of its rollout: the check succeeds exactly when the
  requested session is a canonical UUID and the first line of the rollout, at most 64 KiB long, is a
  JSON object of type \<open>session_meta\<close> whose payload carries the same identifier; it then returns the
  identifier unchanged, and every other outcome is one of the five public reasons.
\<close>

theorem rollout_bound_to_session:
  "(require_bound_rollout decode content sid = Inr c \<longleftrightarrow>
      c = sid \<and> uuid_shape sid \<and>
      (\<exists>s r payload. content = Some s \<and>
         s \<noteq> [] \<and> length (utf8_encode (take (MAX_METADATA_BYTES + 1) (text_line s))) \<le> MAX_METADATA_BYTES \<and>
         decode (take (MAX_METADATA_BYTES + 1) (text_line s)) = Some (JObj r) \<and>
         dget r ''type'' = JStr ''session_meta'' \<and> dget r ''payload'' = JObj payload \<and>
         dget payload ''id'' = JStr sid)) \<and>
   require_bound_rollout decode content sid \<in> insert (Inr sid) ((\<lambda>r. Inl (SessionIdentityError r)) `
      {''session_id_invalid'', ''rollout_identity_unreadable'', ''rollout_identity_missing'',
       ''rollout_identity_invalid'', ''rollout_session_mismatch''})"
proof (cases "uuid_shape sid")
  case False
  then have "canonical_uuid sid = Inl (SessionIdentityError ''session_id_invalid'')"
    by (simp add: canonical_uuid_Inl)
  with False show ?thesis by (simp add: require_bound_rollout_def)
next
  case True
  then have sid: "canonical_uuid sid = Inr sid" by (simp add: canonical_uuid_Inr)
  have line: "take (MAX_METADATA_BYTES + 1) (text_line s) = [] \<longleftrightarrow> s = []" for s
    using text_line_Nil [of s] by simp
  show ?thesis
  proof (cases content)
    case None
    with sid show ?thesis by (simp add: require_bound_rollout_def)
  next
    case (Some s)
    let ?raw = "take (MAX_METADATA_BYTES + 1) (text_line s)"
    show ?thesis
    proof (cases "s = [] \<or> length (utf8_encode ?raw) > MAX_METADATA_BYTES")
      case True
      with sid Some line [of s] show ?thesis by (auto simp: require_bound_rollout_def Let_def)
    next
      case False
      note short = this
      have body: "require_bound_rollout decode content sid =
        (case decode ?raw of
           None \<Rightarrow> Inl (SessionIdentityError ''rollout_identity_invalid'')
         | Some (JObj r) \<Rightarrow>
             if dget r ''type'' \<noteq> JStr ''session_meta''
             then Inl (SessionIdentityError ''rollout_identity_missing'')
             else (case dget r ''payload'' of
                 JObj payload \<Rightarrow>
                   (case dget payload ''id'' of
                      JStr rollout_id \<Rightarrow> ebind (canonical_uuid rollout_id) (\<lambda>c.
                        if c \<noteq> sid then Inl (SessionIdentityError ''rollout_session_mismatch'')
                        else Inr sid)
                    | _ \<Rightarrow> Inl (SessionIdentityError ''rollout_session_mismatch''))
               | _ \<Rightarrow> Inl (SessionIdentityError ''rollout_session_mismatch''))
         | Some _ \<Rightarrow> Inl (SessionIdentityError ''rollout_identity_missing''))"
        using False sid Some line [of s] by (simp add: require_bound_rollout_def Let_def)
      show ?thesis
      proof (cases "\<exists>r payload i. decode ?raw = Some (JObj r) \<and> dget r ''type'' = JStr ''session_meta'' \<and>
          dget r ''payload'' = JObj payload \<and> dget payload ''id'' = JStr i")
        case True
        then obtain r payload i where r: "decode ?raw = Some (JObj r)" "dget r ''type'' = JStr ''session_meta''"
          "dget r ''payload'' = JObj payload" "dget payload ''id'' = JStr i" by blast
        then have "require_bound_rollout decode content sid = ebind (canonical_uuid i) (\<lambda>c.
            if c \<noteq> sid then Inl (SessionIdentityError ''rollout_session_mismatch'') else Inr sid)"
          unfolding body by simp
        with r short Some \<open>uuid_shape sid\<close> show ?thesis
          by (cases "uuid_shape i") (auto simp: canonical_uuid_Inl [THEN iffD2] canonical_uuid_Inr [THEN iffD2])
      next
        case False
        then have "require_bound_rollout decode content sid \<in> (\<lambda>r. Inl (SessionIdentityError r)) `
            {''rollout_identity_missing'', ''rollout_identity_invalid'', ''rollout_session_mismatch''}"
          unfolding body by (auto split: option.split json.split)
        with False Some show ?thesis by auto
      qed
    qed
  qed
qed

end
