(* ===== verification/ManagerState.thy ===== *)
theory ManagerState
  imports HookState Diagnostics
begin

text \<open>
  The resident manager's persisted ownership handshake: \<open>scripts/manager_decision.py\<close>,
  \<open>manager_runtime_values.py\<close>, \<open>manager_runtime.py\<close>, \<open>manager_failure.py\<close>,
  \<open>goal_identity_state.py\<close>, \<open>session_shutdown.py\<close> and the read guard of \<open>goal_policy.py\<close>. Every
  operation is a closure on the loaded values, committed by \<open>locked_update\<close>. The clock, its text,
  \<open>uuid4\<close> and the test whether an ISO text names a time zone are parameters.
\<close>

section \<open>Decisions\<close>

datatype manager_action =
    ACT_STOP | ACT_WAIT | ACT_START | ACT_RESUME_GOAL | ACT_INTERRUPT | ACT_FAIL_CLOSED

record manager_view =
  mv_enabled :: bool
  mv_handoff_requested :: bool
  mv_managed_turn :: "string option"
  mv_restart_turn :: "string option"
  mv_goal_companion :: bool

record manager_decision =
  md_action :: manager_action
  md_turn :: "string option"
  md_reason :: "string option"

definition decision :: "manager_action \<Rightarrow> manager_decision" where
  "decision a = \<lparr>md_action = a, md_turn = None, md_reason = None\<rparr>"

definition fail_decision :: "string \<Rightarrow> manager_decision" where
  "fail_decision r = \<lparr>md_action = ACT_FAIL_CLOSED, md_turn = None, md_reason = Some r\<rparr>"

definition restart_decision :: "manager_view \<Rightarrow> string option \<Rightarrow> manager_decision" where
  "restart_decision view active =
     (let requested = mv_restart_turn view
      in if requested \<noteq> mv_managed_turn view then fail_decision ''restart_turn_not_owned''
         else if active = None then decision ACT_WAIT
         else if active \<noteq> requested then fail_decision ''active_turn_mismatch''
         else \<lparr>md_action = ACT_INTERRUPT, md_turn = requested, md_reason = None\<rparr>)"

definition handoff_decision :: "bool \<Rightarrow> string option \<Rightarrow> manager_decision" where
  "handoff_decision goal_companion active =
     (if goal_companion
      then (if active = None then decision ACT_RESUME_GOAL
            else fail_decision ''unexpected_active_turn'')
      else if active \<noteq> None then decision ACT_WAIT
      else decision ACT_START)"

definition decide_manager_action :: "manager_view \<Rightarrow> string option \<Rightarrow> manager_decision" where
  "decide_manager_action view active =
     (if \<not> mv_enabled view then decision ACT_STOP
      else if mv_restart_turn view \<noteq> None then restart_decision view active
      else if mv_handoff_requested view \<and> mv_managed_turn view = None
      then handoff_decision (mv_goal_companion view) active
      else decision ACT_WAIT)"

section \<open>Values\<close>

definition hex_digit :: "char \<Rightarrow> bool" where
  "hex_digit c \<longleftrightarrow> c \<in> set ''0123456789abcdef''"

definition manager_file :: "path \<Rightarrow> string \<Rightarrow> exn + path" where
  "manager_file home name =
     (if length name = 69 \<and> drop 64 name = ''.json'' \<and> list_all hex_digit (take 64 name)
      then Inr (home @ [''runtime'', name])
      else Inl (ManagerRuntimeError ''runtime_name_invalid''))"

definition bump_revision :: "path \<Rightarrow> dict \<Rightarrow> exn + dict" where
  "bump_revision p values =
     ebind (get_optional_integer values ''revision'' p 0) (\<lambda>rev.
     Inr (dset ''revision'' (JInt (rev + 1)) values))"

definition optional_string_value :: "dict \<Rightarrow> string \<Rightarrow> path \<Rightarrow> exn + string option" where
  "optional_string_value values key p =
     (case dget values key of
        JNull \<Rightarrow> Inr None | JStr s \<Rightarrow> Inr (Some s) | _ \<Rightarrow> Inl (bad_value p))"

definition optional_int_value :: "dict \<Rightarrow> string \<Rightarrow> path \<Rightarrow> int \<Rightarrow> exn + int option" where
  "optional_int_value values key p minimum =
     (case dget values key of
        JNull \<Rightarrow> Inr None
      | JInt i \<Rightarrow> if i < minimum then Inl (bad_value p) else Inr (Some i)
      | _ \<Rightarrow> Inl (bad_value p))"

definition optional_nonnegative_float :: "dict \<Rightarrow> string \<Rightarrow> path \<Rightarrow> exn + real option" where
  "optional_nonnegative_float values key p =
     (case dget values key of
        JNull \<Rightarrow> Inr None
      | JInt i \<Rightarrow> if i < 0 then Inl (bad_value p) else Inr (Some (of_int i))
      | JFloat r \<Rightarrow> if r < 0 then Inl (bad_value p) else Inr (Some r)
      | _ \<Rightarrow> Inl (bad_value p))"

definition require_managed :: "path \<Rightarrow> dict \<Rightarrow> exn + unit" where
  "require_managed p values =
     (if dget values ''enabled'' \<noteq> JBool True \<or> dget values ''managed_mode'' \<noteq> JBool True
      then Inl (ManagerRuntimeError ''managed_mode_not_enabled'')
      else ebind (get_boolean values ''manager_ready'' p) (\<lambda>_. Inr ()))"

text \<open>Assignments to several keys, in order.\<close>

fun dsets :: "(string \<times> json) list \<Rightarrow> dict \<Rightarrow> dict" where
  "dsets [] d = d"
| "dsets ((k, v) # kvs) d = dsets kvs (dset k v d)"

definition opt_json :: "string option \<Rightarrow> json" where
  "opt_json x = (case x of None \<Rightarrow> JNull | Some s \<Rightarrow> JStr s)"

section \<open>The manager's view of a session\<close>

record restart_request =
  rq_id :: string
  rq_turn :: string
  rq_target :: "string option"
  rq_generation :: int
  rq_progress :: int
  rq_activity :: int

record goal_fingerprint =
  gf_thread :: string
  gf_created_at :: int
  gf_objective_sha256 :: string
  gf_token_budget :: "int option"

record manager_runtime =
  mr_file :: path
  mr_rollout :: path
  mr_session :: string
  mr_preset :: string
  mr_executable :: string
  mr_request :: "restart_request option"
  mr_claimed :: bool
  mr_claimed_at :: "time option"
  mr_view :: manager_view
  mr_ready :: bool
  mr_pid :: "int option"
  mr_shutdown_requested :: bool
  mr_shutdown_interrupt :: bool
  mr_error :: "string option"
  mr_parent_turn :: "string option"
  mr_goal :: "goal_fingerprint option"
  mr_pending_turn :: "string option"
  mr_pending_timed_out_at :: "real option"

record manager_env =
  mg_lib :: pylib
  mg_fs :: fs_env
  mg_home :: path
  mg_aware :: "string \<Rightarrow> bool"

definition restart_request_from_values :: "dict \<Rightarrow> path \<Rightarrow> exn + restart_request option" where
  "restart_request_from_values values p =
     (case dget values ''restart_request'' of
        JNull \<Rightarrow> Inr None
      | JObj request \<Rightarrow>
          if \<not> dhas request ''target_id'' then Inl (bad_value p)
          else
            ebind (get_optional_integer request ''turn_activity_epoch'' p 0) (\<lambda>activity.
            ebind (get_string request ''request_id'' p) (\<lambda>rid.
            ebind (get_string request ''turn_id'' p) (\<lambda>turn.
            ebind (optional_string_value request ''target_id'' p) (\<lambda>tid.
            ebind (get_integer request ''target_generation'' p 1) (\<lambda>gen.
            ebind (get_integer request ''progress_epoch'' p 0) (\<lambda>progress.
            Inr (Some \<lparr>rq_id = rid, rq_turn = turn, rq_target = tid, rq_generation = gen,
                       rq_progress = progress, rq_activity = activity\<rparr>)))))))
      | _ \<Rightarrow> Inl (bad_value p))"

definition parse_goal_fingerprint :: "dict \<Rightarrow> path \<Rightarrow> exn + goal_fingerprint option" where
  "parse_goal_fingerprint values p =
     (case dget values ''goal_identity_fingerprint'' of
        JNull \<Rightarrow> Inr None
      | JObj v \<Rightarrow>
          (case (dget v ''thread_id'', dget v ''created_at'') of
             (JStr thread, JInt created) \<Rightarrow>
               if thread = [] \<or> created < 0 then Inl (bad_value p)
               else (case dget v ''objective_sha256'' of
                  JStr sha256 \<Rightarrow>
                    if \<not> (length sha256 = 64 \<and> list_all hex_digit sha256) then Inl (bad_value p)
                    else ebind (optional_int_value v ''token_budget'' p 0) (\<lambda>budget.
                      Inr (Some \<lparr>gf_thread = thread, gf_created_at = created,
                                 gf_objective_sha256 = sha256, gf_token_budget = budget\<rparr>))
                | _ \<Rightarrow> Inl (bad_value p))
           | _ \<Rightarrow> Inl (bad_value p))
      | _ \<Rightarrow> Inl (bad_value p))"

text \<open>\<open>_optional_datetime\<close> of the manager also refuses a text without a time zone.\<close>

definition aware_datetime :: "manager_env \<Rightarrow> dict \<Rightarrow> string \<Rightarrow> path \<Rightarrow> exn + time option" where
  "aware_datetime E values key p =
     (case dget values key of
        JNull \<Rightarrow> Inr None
      | JStr s \<Rightarrow> (case fromiso (mg_lib E) s of
          None \<Rightarrow> Inl (bad_value p)
        | Some t \<Rightarrow> if mg_aware E s then Inr (Some t) else Inl (bad_value p))
      | _ \<Rightarrow> Inl (bad_value p))"

definition manager_runtime_from_values :: "manager_env \<Rightarrow> path \<Rightarrow> dict \<Rightarrow> exn + manager_runtime" where
  "manager_runtime_from_values E p values =
     ebind (get_string values ''session_id'' p) (\<lambda>sid.
     if runtime_path (sha (mg_lib E)) (mg_home E) sid \<noteq> p then Inl (bad_value p)
     else
       ebind (get_string values ''message_preset'' p) (\<lambda>preset.
       if preset \<notin> {''continue'', ''cleanup''} then Inl (bad_value p)
       else
         ebind (restart_request_from_values values p) (\<lambda>request.
         ebind (get_boolean values ''managed_mode'' p) (\<lambda>managed.
         ebind (get_string values ''transcript_path'' p) (\<lambda>transcript.
         ebind (resolve_rollout_path (mg_fs E) (mg_home E) transcript) (\<lambda>rollout.
         ebind (case dget_or values ''goal_companion'' (JBool False) of
                  JBool b \<Rightarrow> Inr b | _ \<Rightarrow> Inl (bad_value p)) (\<lambda>goal_companion.
         ebind (get_string values ''executable_sha256'' p) (\<lambda>executable.
         ebind (get_boolean values ''restart_claimed'' p) (\<lambda>claimed.
         ebind (aware_datetime E values ''restart_claimed_at'' p) (\<lambda>claimed_at.
         ebind (get_boolean values ''enabled'' p) (\<lambda>enabled.
         ebind (get_boolean values ''handoff_requested'' p) (\<lambda>handoff.
         ebind (optional_string_value values ''managed_turn_id'' p) (\<lambda>managed_turn.
         ebind (get_boolean values ''manager_ready'' p) (\<lambda>ready.
         ebind (optional_int_value values ''manager_pid'' p 1) (\<lambda>pid.
         ebind (get_boolean values ''shutdown_requested'' p) (\<lambda>shutdown.
         ebind (get_boolean values ''shutdown_interrupt'' p) (\<lambda>interrupt.
         ebind (optional_string_value values ''manager_error'' p) (\<lambda>err.
         ebind (optional_string_value values ''parent_turn_id'' p) (\<lambda>parent_turn.
         ebind (parse_goal_fingerprint values p) (\<lambda>goal.
         ebind (optional_string_value values ''pending_turn_id'' p) (\<lambda>pending.
         ebind (optional_nonnegative_float values ''pending_turn_timed_out_at'' p) (\<lambda>timed_out.
         Inr \<lparr>mr_file = p, mr_rollout = rollout, mr_session = sid, mr_preset = preset,
              mr_executable = executable, mr_request = request, mr_claimed = claimed,
              mr_claimed_at = claimed_at,
              mr_view = \<lparr>mv_enabled = (enabled \<and> managed), mv_handoff_requested = handoff,
                mv_managed_turn = managed_turn, mv_restart_turn = map_option rq_turn request,
                mv_goal_companion = goal_companion\<rparr>,
              mr_ready = ready, mr_pid = pid, mr_shutdown_requested = shutdown,
              mr_shutdown_interrupt = interrupt, mr_error = err, mr_parent_turn = parent_turn,
              mr_goal = goal, mr_pending_turn = pending,
              mr_pending_timed_out_at = timed_out\<rparr>))))))))))))))))))))))"

definition load_manager_runtime ::
  "manager_env \<Rightarrow> string \<Rightarrow> store \<Rightarrow> exn + manager_runtime option" where
  "load_manager_runtime E name st =
     ebind (manager_file (mg_home E) name) (\<lambda>p.
     if \<not> is_file st (abspath p) then Inr None
     else
       ebind (load_state (mg_fs E) (mg_home E) p st) (\<lambda>values.
       ebind (manager_runtime_from_values E p values) (\<lambda>r. Inr (Some r))))"

section \<open>Updates of the handshake\<close>

definition done_with :: "exn + dict \<Rightarrow> exn + unit \<times> dict" where
  "done_with r = ebind r (\<lambda>values. Inr ((), values))"

definition ready_values :: "path \<Rightarrow> int \<Rightarrow> dict \<Rightarrow> exn + unit \<times> dict" where
  "ready_values p pid values =
     ebind (require_managed p values) (\<lambda>_.
     done_with (bump_revision p (dsets [(''manager_ready'', JBool True), (''manager_pid'', JInt pid),
       (''manager_error'', JNull)] values)))"

definition stopped_values :: "path \<Rightarrow> dict \<Rightarrow> exn + unit \<times> dict" where
  "stopped_values p values =
     done_with (bump_revision p (dsets [(''manager_ready'', JBool False), (''manager_pid'', JNull)]
       values))"

definition startup_cancel_values :: "path \<Rightarrow> dict \<Rightarrow> exn + unit \<times> dict" where
  "startup_cancel_values p values =
     ebind (require_managed p values) (\<lambda>_.
     if dget values ''manager_ready'' = JBool True then Inr ((), values)
     else done_with (bump_revision p (dsets [(''shutdown_requested'', JBool True),
       (''shutdown_interrupt'', JBool False), (''handoff_requested'', JBool False)] values)))"

definition release_claim :: "dict \<Rightarrow> dict" where
  "release_claim = dsets [(''restart_request'', JNull), (''restart_claimed'', JBool False),
     (''restart_claimed_at'', JNull)]"

definition started_values ::
  "string \<Rightarrow> string \<Rightarrow> path \<Rightarrow> string \<Rightarrow> dict \<Rightarrow> exn + unit \<times> dict" where
  "started_values fresh now p turn values =
     ebind (require_managed p values) (\<lambda>_.
     if dget values ''handoff_requested'' \<noteq> JBool True \<or> dget values ''managed_turn_id'' \<noteq> JNull
     then Inl (ManagerRuntimeError ''handoff_state_changed'')
     else if dget values ''pending_turn_id'' \<noteq> JNull \<and> dget values ''pending_turn_id'' \<noteq> JStr turn
     then Inl (ManagerRuntimeError ''handoff_state_changed'')
     else
       ebind (start_managed_parent fresh now
           (release_claim (dsets [(''pending_turn_id'', JNull), (''pending_turn_timed_out_at'', JNull),
             (''managed_turn_id'', JStr turn), (''handoff_requested'', JBool False)] values)) turn p)
         (\<lambda>v. done_with (bump_revision p v)))"

definition pending_values :: "path \<Rightarrow> string \<Rightarrow> dict \<Rightarrow> exn + unit \<times> dict" where
  "pending_values p turn values =
     ebind (require_managed p values) (\<lambda>_.
     if dget values ''handoff_requested'' \<noteq> JBool True \<or> dget values ''managed_turn_id'' \<noteq> JNull \<or>
        dget values ''pending_turn_id'' \<noteq> JNull
     then Inl (ManagerRuntimeError ''handoff_state_changed'')
     else done_with (bump_revision p (dsets [(''pending_turn_id'', JStr turn),
       (''pending_turn_timed_out_at'', JNull)] values)))"

definition timed_out_values :: "path \<Rightarrow> string \<Rightarrow> real \<Rightarrow> dict \<Rightarrow> exn + unit \<times> dict" where
  "timed_out_values p turn timed_out_at values =
     ebind (require_managed p values) (\<lambda>_.
     if dget values ''pending_turn_id'' \<noteq> JStr turn
     then Inl (ManagerRuntimeError ''handoff_state_changed'')
     else done_with (bump_revision p
       (dset ''pending_turn_timed_out_at'' (JFloat timed_out_at) values)))"

definition clear_pending_values :: "path \<Rightarrow> string \<Rightarrow> dict \<Rightarrow> exn + bool \<times> dict" where
  "clear_pending_values p turn values =
     (if dget values ''pending_turn_id'' \<noteq> JStr turn then Inr (False, values)
      else ebind (bump_revision p (dsets [(''pending_turn_id'', JNull),
        (''pending_turn_timed_out_at'', JNull)] values)) (\<lambda>v. Inr (True, v)))"

definition finish_turn :: "path \<Rightarrow> dict \<Rightarrow> exn + dict" where
  "finish_turn p values =
     bump_revision p (dset ''handoff_requested'' (JBool True) (release_claim
       (dsets [(''pending_turn_id'', JNull), (''pending_turn_timed_out_at'', JNull),
         (''managed_turn_id'', JNull)] values)))"

definition finished_values :: "path \<Rightarrow> string \<Rightarrow> dict \<Rightarrow> exn + unit \<times> dict" where
  "finished_values p turn values =
     (if dget values ''managed_turn_id'' \<noteq> JStr turn
      then Inl (ManagerRuntimeError ''completed_turn_not_owned'')
      else done_with (finish_turn p values))"

definition RESTART_CLAIM_TTL :: real where
  "RESTART_CLAIM_TTL = 60"

definition restart_claim_is_current :: "time \<Rightarrow> time \<Rightarrow> bool" where
  "restart_claim_is_current claimed_at now \<longleftrightarrow>
     0 \<le> now - claimed_at \<and> now - claimed_at \<le> RESTART_CLAIM_TTL"

definition restart_values ::
  "manager_env \<Rightarrow> path \<Rightarrow> string \<Rightarrow> time \<Rightarrow> dict \<Rightarrow> exn + string \<times> dict" where
  "restart_values E p turn now values =
     (case dget values ''restart_request'' of
        JObj request \<Rightarrow>
          if dget request ''turn_id'' \<noteq> JStr turn
          then Inl (ManagerRuntimeError ''restart_request_changed'')
          else if dget values ''managed_turn_id'' \<noteq> JStr turn
          then Inl (ManagerRuntimeError ''restart_turn_not_owned'')
          else if dget values ''restart_claimed'' \<noteq> JBool True
          then Inl (ManagerRuntimeError ''restart_request_not_claimed'')
          else
            ebind (aware_datetime E values ''restart_claimed_at'' p) (\<lambda>claimed_at.
            if (case claimed_at of None \<Rightarrow> True | Some c \<Rightarrow> \<not> restart_claim_is_current c now)
            then Inl (ManagerRuntimeError ''interrupt_claim_expired'')
            else
              ebind (get_integer values ''restart_count'' p 0) (\<lambda>count.
              ebind (get_string values ''session_id'' p) (\<lambda>sid.
              ebind (finish_turn p (dset ''restart_count'' (JInt (count + 1)) values)) (\<lambda>v.
              Inr (sid, v)))))
      | _ \<Rightarrow> Inl (ManagerRuntimeError ''restart_request_changed''))"

definition failure_values :: "path \<Rightarrow> string \<Rightarrow> dict \<Rightarrow> exn + string \<times> dict" where
  "failure_values p reason_code values =
     (let v = dsets [(''manager_ready'', JBool False), (''manager_pid'', JNull),
                (''manager_error'', JStr reason_code)] values
      in ebind (get_string v ''session_id'' p) (\<lambda>sid.
         ebind (bump_revision p v) (\<lambda>v'. Inr (sid, v'))))"

definition fingerprint_json :: "goal_fingerprint \<Rightarrow> json" where
  "fingerprint_json g = JObj [(''thread_id'', JStr (gf_thread g)),
     (''created_at'', JInt (gf_created_at g)),
     (''objective_sha256'', JStr (gf_objective_sha256 g)),
     (''token_budget'', case gf_token_budget g of None \<Rightarrow> JNull | Some b \<Rightarrow> JInt b)]"

definition fingerprint_values :: "path \<Rightarrow> goal_fingerprint \<Rightarrow> dict \<Rightarrow> exn + unit \<times> dict" where
  "fingerprint_values p g values =
     ebind (require_managed p values) (\<lambda>_.
     ebind (parse_goal_fingerprint values p) (\<lambda>captured.
     if captured \<noteq> None \<and> captured \<noteq> Some g
     then Inl (ManagerRuntimeError ''goal_identity_changed'')
     else done_with (bump_revision p
       (dset ''goal_identity_fingerprint'' (fingerprint_json g) values))))"

definition defer_values :: "path \<Rightarrow> bool \<Rightarrow> dict \<Rightarrow> exn + bool \<times> dict" where
  "defer_values p interrupt_active values =
     (if dget values ''managed_mode'' \<noteq> JBool True \<or> dget values ''manager_ready'' \<noteq> JBool True \<or>
         str_of (dget values ''managed_turn_id'') = None
      then Inr (False, values)
      else ebind (bump_revision p (release_claim (dsets [(''shutdown_requested'', JBool True),
         (''shutdown_interrupt'', JBool interrupt_active), (''handoff_requested'', JBool False)] values)))
        (\<lambda>v. Inr (True, v)))"

section \<open>Operations on the stored document\<close>

definition manager_update ::
  "manager_env \<Rightarrow> path \<Rightarrow> (dict \<Rightarrow> exn + 'r \<times> dict) \<Rightarrow> store \<Rightarrow> (exn + 'r option) \<times> store" where
  "manager_update E p f st = locked_update (mg_fs E) (mg_home E) p f st"

definition mark_manager_ready ::
  "manager_env \<Rightarrow> path \<Rightarrow> int \<Rightarrow> store \<Rightarrow> (exn + unit option) \<times> store" where
  "mark_manager_ready E p pid st =
     (if pid < 1 then (Inl (ManagerRuntimeError ''manager_pid_invalid''), st)
      else manager_update E p (ready_values p pid) st)"

definition mark_manager_stopped :: "manager_env \<Rightarrow> path \<Rightarrow> store \<Rightarrow> (exn + unit option) \<times> store" where
  "mark_manager_stopped E p st = manager_update E p (stopped_values p) st"

definition request_manager_startup_cancel ::
  "manager_env \<Rightarrow> path \<Rightarrow> store \<Rightarrow> (exn + unit option) \<times> store" where
  "request_manager_startup_cancel E p st = manager_update E p (startup_cancel_values p) st"

definition record_turn_started ::
  "manager_env \<Rightarrow> string \<Rightarrow> string \<Rightarrow> path \<Rightarrow> string \<Rightarrow> store \<Rightarrow> (exn + unit option) \<times> store" where
  "record_turn_started E fresh now p turn st =
     (if turn = [] then (Inl (ManagerRuntimeError ''managed_turn_id_missing''), st)
      else manager_update E p (started_values fresh now p turn) st)"

definition record_pending_turn ::
  "manager_env \<Rightarrow> path \<Rightarrow> string \<Rightarrow> store \<Rightarrow> (exn + unit option) \<times> store" where
  "record_pending_turn E p turn st =
     (if turn = [] then (Inl (ManagerRuntimeError ''managed_turn_id_missing''), st)
      else manager_update E p (pending_values p turn) st)"

definition mark_pending_turn_timed_out ::
  "manager_env \<Rightarrow> path \<Rightarrow> string \<Rightarrow> real \<Rightarrow> store \<Rightarrow> (exn + unit option) \<times> store" where
  "mark_pending_turn_timed_out E p turn timed_out_at st =
     (if timed_out_at < 0 then (Inl (ManagerRuntimeError ''handoff_state_changed''), st)
      else manager_update E p (timed_out_values p turn timed_out_at) st)"

text \<open>\<open>mutate_existing_state(...) is True\<close>\<close>

definition is_true :: "(exn + bool option) \<times> store \<Rightarrow> (exn + bool) \<times> store" where
  "is_true r = (case r of (Inl e, st) \<Rightarrow> (Inl e, st) | (Inr x, st) \<Rightarrow> (Inr (x = Some True), st))"

definition clear_pending_turn ::
  "manager_env \<Rightarrow> path \<Rightarrow> string \<Rightarrow> store \<Rightarrow> (exn + bool) \<times> store" where
  "clear_pending_turn E p turn st = is_true (manager_update E p (clear_pending_values p turn) st)"

definition record_turn_finished ::
  "manager_env \<Rightarrow> path \<Rightarrow> string \<Rightarrow> store \<Rightarrow> (exn + unit option) \<times> store" where
  "record_turn_finished E p turn st = manager_update E p (finished_values p turn) st"

definition record_goal_fingerprint ::
  "manager_env \<Rightarrow> path \<Rightarrow> goal_fingerprint \<Rightarrow> store \<Rightarrow> (exn + unit option) \<times> store" where
  "record_goal_fingerprint E p g st = manager_update E p (fingerprint_values p g) st"

definition defer_session_shutdown ::
  "manager_env \<Rightarrow> string \<Rightarrow> bool \<Rightarrow> store \<Rightarrow> (exn + bool) \<times> store" where
  "defer_session_shutdown E sid interrupt_active st =
     (let p = runtime_path (sha (mg_lib E)) (mg_home E) sid
      in if \<not> is_file st (abspath p) then (Inr False, st)
         else is_true (manager_update E p (defer_values p interrupt_active) st))"

text \<open>
  The two operations that also log: the state is the documents and the diagnostic log, and a
  failure to log leaves the committed document.
\<close>

type_synonym manager_disk = "store \<times> diag_log"

definition append_diagnostic ::
  "manager_env \<Rightarrow> diagnostic_event \<Rightarrow> diag_log \<Rightarrow> exn + diag_log" where
  "append_diagnostic E e lg =
     ebind (check_event e) (\<lambda>e'.
     ebind (append_diagnostic_once (mg_lib E) (mg_fs E) (mg_home E) e' MAX_LOG_BYTES lg) (\<lambda>(_, lg').
     Inr lg'))"

definition manager_event :: "manager_env \<Rightarrow> time \<Rightarrow> diagnostic_code \<Rightarrow> monitor_status \<Rightarrow> string \<Rightarrow> diagnostic_event" where
  "manager_event E now code status sid =
     \<lparr>dg_occurred_at = now, dg_code = code, dg_state = status,
      session_hash = sha (mg_lib E) sid, child_hash = None, dg_elapsed_ms = None, dg_event_id = None\<rparr>"

definition then_log ::
  "manager_env \<Rightarrow> time \<Rightarrow> diagnostic_code \<Rightarrow> monitor_status \<Rightarrow> (exn + string option) \<times> store \<Rightarrow> diag_log \<Rightarrow>
   (exn + unit) \<times> manager_disk" where
  "then_log E now code status r lg =
     (case r of
        (Inl e, st) \<Rightarrow> (Inl e, (st, lg))
      | (Inr None, st) \<Rightarrow> (Inr (), (st, lg))
      | (Inr (Some sid), st) \<Rightarrow>
          (case append_diagnostic E (manager_event E now code status sid) lg of
             Inl e \<Rightarrow> (Inl e, (st, lg))
           | Inr lg' \<Rightarrow> (Inr (), (st, lg'))))"

definition record_restart_performed ::
  "manager_env \<Rightarrow> path \<Rightarrow> string \<Rightarrow> time \<Rightarrow> manager_disk \<Rightarrow> (exn + unit) \<times> manager_disk" where
  "record_restart_performed E p turn now disk =
     then_log E now RESTART_PERFORMED ACTIVE
       (manager_update E p (restart_values E p turn now) (fst disk)) (snd disk)"

definition ALLOWED_FAILURES :: "string list" where
  "ALLOWED_FAILURES =
     [''activation_turn_aborted'', ''activation_turn_superseded'', ''active_turn_mismatch'',
      ''app_server_failed'', ''goal_not_resumable'', ''goal_identity_changed'',
      ''goal_identity_invalid'', ''goal_identity_missing'', ''goal_handoff_changed'',
      ''goal_missing'', ''goal_resume_timeout'', ''goal_status_invalid'', ''goal_status_mismatch'',
      ''goal_turn_source_unverified'', ''interrupt_timeout'', ''interrupt_claim_expired'',
      ''interrupt_claim_mismatch'', ''turn_failed'', ''turn_status_invalid'',
      ''turn_interrupted_external'', ''goal_blocked'', ''goal_usage_limited'',
      ''goal_budget_limited'', ''goal_companion_atomic_update_unavailable'',
      ''restart_turn_not_owned'', ''server_request_unhandled'', ''start_timeout'',
      ''completed_turn_not_owned'', ''handoff_state_changed'', ''managed_mode_not_enabled'',
      ''manager_pid_invalid'', ''managed_turn_id_missing'', ''restart_request_changed'',
      ''restart_request_not_claimed'', ''runtime_name_invalid'', ''trusted_codex_executable_changed'',
      ''trusted_codex_executable_missing'', ''trusted_codex_home_invalid'', ''unexpected_active_turn'']"

definition record_manager_failure ::
  "manager_env \<Rightarrow> path \<Rightarrow> string \<Rightarrow> time \<Rightarrow> manager_disk \<Rightarrow> (exn + unit) \<times> manager_disk" where
  "record_manager_failure E p reason_code now disk =
     (if reason_code \<notin> set ALLOWED_FAILURES
      then (Inl (ManagerRuntimeError ''manager_failure_reason_invalid''), disk)
      else then_log E now MANAGER_FAILED FAILED_CLOSED
        (manager_update E p (failure_values p reason_code) (fst disk)) (snd disk))"

section \<open>Lemmas: values\<close>

lemma dget_dsets_other [simp]: "k \<notin> fst ` set kvs \<Longrightarrow> dget (dsets kvs d) k = dget d k"
  by (induction kvs d rule: dsets.induct) auto

lemma bump_revision_Inr [err_simps]:
  "bump_revision p values = Inr v \<longleftrightarrow>
     (\<exists>rev. get_optional_integer values ''revision'' p 0 = Inr rev \<and>
            v = dset ''revision'' (JInt (rev + 1)) values)"
  by (auto simp: bump_revision_def err_simps)

lemma get_optional_integer_cong:
  "dget_or v k (JInt d) = dget_or w k (JInt d) \<Longrightarrow> get_optional_integer v k p d = get_optional_integer w k p d"
  by (simp add: get_optional_integer_def)

lemma dget_or_dsets_other [simp]: "k \<notin> fst ` set kvs \<Longrightarrow> dget_or (dsets kvs d) k w = dget_or d k w"
  by (induction kvs d rule: dsets.induct) auto

lemma require_managed_Inr [err_simps]:
  "require_managed p values = Inr u \<longleftrightarrow> dget values ''enabled'' = JBool True \<and>
     dget values ''managed_mode'' = JBool True \<and> (\<exists>b. dget values ''manager_ready'' = JBool b)"
  by (auto simp: require_managed_def get_boolean_def split: json.splits)

lemma done_with_Inr [err_simps]: "done_with r = Inr x \<longleftrightarrow> r = Inr (snd x)"
  by (cases x; auto simp: done_with_def err_simps)

lemma start_managed_parent_Inr:
  assumes "start_managed_parent fresh now v turn p = Inr w"
  shows "dget w ''parent_turn_id'' = JStr turn"
    and "k \<notin> {''parent'', ''parent_turn_id'', ''parent_complete'', ''children''} \<Longrightarrow> dget w k = dget v k"
    and "dget_or w ''revision'' d = dget_or v ''revision'' d"
  using assms by (auto simp: start_managed_parent_def start_parent_def err_simps Let_def)

section \<open>Turn ownership\<close>

text \<open>
  What a session document says of the managed turn: whether a handoff is requested, and the turn
  owned, or accepted by the app server but not yet started.
\<close>

datatype turn_owner = Nobody | Accepted string | Owned string

definition owner_of :: "dict \<Rightarrow> turn_owner" where
  "owner_of values =
     (case dget values ''managed_turn_id'' of
        JStr t \<Rightarrow> Owned t
      | _ \<Rightarrow> (case dget values ''pending_turn_id'' of JStr t \<Rightarrow> Accepted t | _ \<Rightarrow> Nobody))"

definition handoff_of :: "dict \<Rightarrow> bool" where
  "handoff_of values \<longleftrightarrow> dget values ''handoff_requested'' = JBool True"

definition nullable :: "json \<Rightarrow> bool" where
  "nullable v \<longleftrightarrow> v = JNull \<or> (\<exists>s. v = JStr s)"

definition ownership_ok :: "dict \<Rightarrow> bool" where
  "ownership_ok values \<longleftrightarrow>
     nullable (dget values ''managed_turn_id'') \<and> nullable (dget values ''pending_turn_id'') \<and>
     (dget values ''managed_turn_id'' = JNull \<or> dget values ''pending_turn_id'' = JNull)"

text \<open>The abstract life of a managed turn.\<close>

inductive turn_step :: "bool \<times> turn_owner \<Rightarrow> bool \<times> turn_owner \<Rightarrow> bool" where
  accepted: "turn_step (True, Nobody) (True, Accepted t)"
| started: "turn_step (True, Nobody) (False, Owned t)"
| confirmed: "turn_step (True, Accepted t) (False, Owned t)"
| dropped: "turn_step (h, Accepted t) (h, Nobody)"
| finished: "turn_step (h, Owned t) (True, Nobody)"
| withdrawn: "turn_step (h, s) (False, s)"
| requested: "turn_step (h, s) (True, s)"
| unchanged: "turn_step (h, s) (h, s)"

text \<open>
  The writers of these fields: the manager's operations, the explicit shutdown, and the hooks of
  the session, in any order; \<open>stored\<close> is the sequence of documents they leave.
\<close>

inductive handshake_step :: "manager_env \<Rightarrow> path \<Rightarrow> dict \<Rightarrow> dict \<Rightarrow> bool" for E p where
  ready: "ready_values p pid v = Inr ((), v') \<Longrightarrow> handshake_step E p v v'"
| stopped: "stopped_values p v = Inr ((), v') \<Longrightarrow> handshake_step E p v v'"
| cancel: "startup_cancel_values p v = Inr ((), v') \<Longrightarrow> handshake_step E p v v'"
| pending: "pending_values p turn v = Inr ((), v') \<Longrightarrow> handshake_step E p v v'"
| timed_out: "timed_out_values p turn at_time v = Inr ((), v') \<Longrightarrow> handshake_step E p v v'"
| cleared: "clear_pending_values p turn v = Inr (b, v') \<Longrightarrow> handshake_step E p v v'"
| started: "started_values fresh now p turn v = Inr ((), v') \<Longrightarrow> handshake_step E p v v'"
| finished: "finished_values p turn v = Inr ((), v') \<Longrightarrow> handshake_step E p v v'"
| restarted: "restart_values E p turn at_time v = Inr (sid, v') \<Longrightarrow> handshake_step E p v v'"
| failed: "failure_values p reason_code v = Inr (sid, v') \<Longrightarrow> handshake_step E p v v'"
| captured: "fingerprint_values p g v = Inr ((), v') \<Longrightarrow> handshake_step E p v v'"
| deferred: "defer_values p interrupt_active v = Inr (b, v') \<Longrightarrow> handshake_step E p v v'"
| hooked: "apply_hook_event fresh now v payload p = Inr (launch, v') \<Longrightarrow> handshake_step E p v v'"

inductive reachable_document :: "manager_env \<Rightarrow> path \<Rightarrow> dict \<Rightarrow> bool" for E p where
  enabled: "dget v ''managed_turn_id'' = JNull \<Longrightarrow> dget v ''pending_turn_id'' = JNull \<Longrightarrow>
    reachable_document E p v"
| step: "reachable_document E p v \<Longrightarrow> handshake_step E p v v' \<Longrightarrow> reachable_document E p v'"

lemmas update_defs = ready_values_def stopped_values_def startup_cancel_values_def pending_values_def
  timed_out_values_def clear_pending_values_def finished_values_def finish_turn_def release_claim_def
  failure_values_def fingerprint_values_def defer_values_def

lemma owner_cong:
  "dget v ''managed_turn_id'' = dget w ''managed_turn_id'' \<Longrightarrow>
   dget v ''pending_turn_id'' = dget w ''pending_turn_id'' \<Longrightarrow>
   owner_of v = owner_of w \<and> ownership_ok v = ownership_ok w"
  by (simp add: owner_of_def ownership_ok_def split: json.split)

text \<open>Hooks write the monitors, the parent turn and the handoff flag, never the owned turn.\<close>

lemma change_monitor_frame:
  "change_monitor f doc tid p = Inr doc' \<Longrightarrow> k \<noteq> ''parent'' \<Longrightarrow> dget (fst doc') k = dget (fst doc) k"
  by (auto simp: change_monitor_def save_monitor_def err_simps split: option.splits)

lemma change_monitors_frame:
  "change_monitors f doc tids p = Inr doc' \<Longrightarrow> k \<noteq> ''parent'' \<Longrightarrow> dget (fst doc') k = dget (fst doc) k"
proof (induction f doc tids p rule: change_monitors.induct)
  case (2 f doc tid tids p)
  then obtain d where "change_monitor f doc tid p = Inr d" and "change_monitors f d tids p = Inr doc'"
    by (auto simp: err_simps)
  with 2 show ?case by (simp add: change_monitor_frame)
qed simp

lemmas frame_dests = change_monitor_frame [where doc' = "(a, b)" for a b, simplified]
  change_monitors_frame [where doc' = "(a, b)" for a b, simplified]

lemma apply_event_frame:
  assumes "apply_event fresh now doc payload p = Inr (launch, doc')"
    and "k \<notin> {''parent'', ''parent_turn_id'', ''parent_complete'', ''handoff_requested''}"
  shows "dget (fst doc') k = dget (fst doc) k"
  using assms
  by (cases doc') (auto simp: apply_event_def no_launch_def start_parent_def start_child_def
      stop_parent_def mark_monitor_terminal_def hook_tool_started_def hook_tool_finished_def
      mark_approval_wait_def clear_waits_def save_monitor_def err_simps Let_def
      dest: frame_dests [where k = k] split: hook_event.splits option.splits if_splits)

lemma apply_hook_event_frame:
  assumes "apply_hook_event fresh now v payload p = Inr (launch, v')"
    and "k \<notin> {''parent'', ''parent_turn_id'', ''parent_complete'', ''handoff_requested'', ''children'',
      ''turn_activity_epoch''}"
  shows "dget v' k = dget v k"
proof -
  from assms(1) obtain cs a b w where cs: "apply_event fresh now (v, cs) payload p = Inr (launch, (a, b))"
    and w: "(if py_eq (JList (observed_fields (a, b))) (JList (observed_fields (v, cs)))
      then Inr (fst (a, b)) else advance_turn_activity_epoch (fst (a, b)) p) = Inr w"
    and v': "v' = dset ''children'' (JObj b) w"
    by (auto simp: apply_hook_event_def ebind_eq_Inr simp del: py_eq.simps)
  have "dget w k = dget a k"
    using w assms(2) by (auto simp: advance_turn_activity_epoch_def err_simps split: if_splits)
  then show ?thesis using v' apply_event_frame [OF cs, of k] assms(2) by simp
qed

lemma same_owner:
  assumes "dget v' ''managed_turn_id'' = dget v ''managed_turn_id''"
    and "dget v' ''pending_turn_id'' = dget v ''pending_turn_id''" and "ownership_ok v"
  shows "turn_step (handoff_of v, owner_of v) (handoff_of v', owner_of v') \<and> ownership_ok v'"
proof -
  have "owner_of v' = owner_of v \<and> ownership_ok v' = ownership_ok v"
    by (rule owner_cong) (use assms in simp_all)
  then show ?thesis
    using assms(3) by (cases "handoff_of v'") (auto intro: turn_step.intros)
qed

lemma owner_values:
  "dget v ''managed_turn_id'' = JStr t \<Longrightarrow> owner_of v = Owned t"
  "dget v ''managed_turn_id'' = JNull \<Longrightarrow> dget v ''pending_turn_id'' = JStr t \<Longrightarrow> owner_of v = Accepted t"
  "dget v ''managed_turn_id'' = JNull \<Longrightarrow> dget v ''pending_turn_id'' = JNull \<Longrightarrow> owner_of v = Nobody"
  by (simp_all add: owner_of_def)

lemma finish_turn_owner:
  "finish_turn p v = Inr v' \<Longrightarrow> handoff_of v' \<and> owner_of v' = Nobody \<and> ownership_ok v'"
  by (auto simp: finish_turn_def release_claim_def err_simps handoff_of_def owner_of_def
      ownership_ok_def nullable_def)

lemma restart_values_Inr:
  assumes "restart_values E p turn now v = Inr (sid, v')"
  shows "dget v ''managed_turn_id'' = JStr turn \<and> dget v ''restart_claimed'' = JBool True \<and>
    (\<exists>request c count. dget v ''restart_request'' = JObj request \<and> dget request ''turn_id'' = JStr turn \<and>
      aware_datetime E v ''restart_claimed_at'' p = Inr (Some c) \<and> restart_claim_is_current c now \<and>
      get_integer v ''restart_count'' p 0 = Inr count \<and>
      finish_turn p (dset ''restart_count'' (JInt (count + 1)) v) = Inr v')"
proof (cases "dget v ''restart_request''")
  case (JObj request)
  with assms show ?thesis
    by (auto simp: restart_values_def err_simps split: if_splits option.splits)
qed (use assms in \<open>simp_all add: restart_values_def\<close>)

lemma handshake_simulates:
  assumes "handshake_step E p v v'" and "ownership_ok v"
  shows "turn_step (handoff_of v, owner_of v) (handoff_of v', owner_of v') \<and> ownership_ok v'"
  using assms(1)
proof (cases rule: handshake_step.cases)
  case (pending turn)
  then show ?thesis
    by (auto simp: update_defs err_simps handoff_of_def owner_of_def ownership_ok_def nullable_def
        intro: turn_step.accepted split: if_splits)
next
  case (cleared turn b)
  then show ?thesis using assms(2)
    by (auto simp: update_defs err_simps handoff_of_def owner_of_def ownership_ok_def nullable_def
        intro: turn_step.intros split: if_splits)
next
  case (started fresh now turn)
  then obtain w where w: "start_managed_parent fresh now (release_claim (dsets [(''pending_turn_id'', JNull),
      (''pending_turn_timed_out_at'', JNull), (''managed_turn_id'', JStr turn),
      (''handoff_requested'', JBool False)] v)) turn p = Inr w" and v': "bump_revision p w = Inr v'"
    and pre: "handoff_of v" "dget v ''managed_turn_id'' = JNull"
      "dget v ''pending_turn_id'' = JNull \<or> dget v ''pending_turn_id'' = JStr turn"
    by (auto simp: started_values_def err_simps handoff_of_def split: if_splits)
  have w': "dget w ''handoff_requested'' = JBool False" "dget w ''managed_turn_id'' = JStr turn"
    "dget w ''pending_turn_id'' = JNull"
    by (subst start_managed_parent_Inr(2) [OF w]; simp add: release_claim_def)+
  then have "\<not> handoff_of v'" "owner_of v' = Owned turn" "ownership_ok v'"
    using v' by (auto simp: bump_revision_Inr handoff_of_def owner_of_def ownership_ok_def nullable_def)
  moreover have "owner_of v = Nobody \<or> owner_of v = Accepted turn"
    using pre(2,3) by (auto simp: owner_of_def)
  ultimately show ?thesis using pre(1) turn_step.started turn_step.confirmed by auto
next
  case (finished turn)
  then have "owner_of v = Owned turn" "finish_turn p v = Inr v'"
    by (auto simp: finished_values_def err_simps owner_of_def split: if_splits)
  then show ?thesis by (auto dest!: finish_turn_owner intro: turn_step.finished)
next
  case (restarted turn at_time sid)
  then obtain c where "dget v ''managed_turn_id'' = JStr turn"
    "finish_turn p (dset ''restart_count'' (JInt (c + 1)) v) = Inr v'"
    by (auto dest: restart_values_Inr)
  then show ?thesis by (auto simp: owner_of_def dest!: finish_turn_owner intro: turn_step.finished)
next
  case (hooked fresh now payload launch)
  show ?thesis by (rule same_owner) (simp_all add: apply_hook_event_frame [OF hooked] assms(2))
qed (rule same_owner; use assms(2) in
    \<open>auto simp: update_defs err_simps Let_def split: if_splits\<close>)+

lemma reachable_ownership: "reachable_document E p v \<Longrightarrow> ownership_ok v"
  by (induction rule: reachable_document.induct)
    (auto simp: ownership_ok_def nullable_def dest: handshake_simulates)

lemma bumped_commit:
  assumes "load_state (mg_fs E) (mg_home E) p st = Inr v" and "is_file st (abspath p)"
    and "\<not> lock_busy (mg_fs E) (abspath p)" and "f v = Inr (r, v')"
    and "bump_revision p w = Inr v'" and "dget_or w ''revision'' (JInt 0) = dget_or v ''revision'' (JInt 0)"
  shows "manager_update E p f st = (Inr (Some r), atomic_json_write (abspath p) SCHEMA_VERSION v' st)"
proof -
  obtain n where n: "get_optional_integer v ''revision'' p 0 = Inr n"
    and v': "v' = dset ''revision'' (JInt (n + 1)) w"
    using assms(5) get_optional_integer_cong [OF assms(6)] by (auto simp: bump_revision_Inr)
  then have "\<not> dict_eq v' v" by (simp add: bumped_revision_differs del: py_eq.simps)
  then show ?thesis
    unfolding manager_update_def by (rule committed_mutation [where f = f, OF assms(1-4)])
qed

lemma started_values_Inr:
  "started_values fresh now p turn v = Inr ((), v') \<longleftrightarrow>
   (\<exists>w u. require_managed p v = Inr u \<and> handoff_of v \<and> dget v ''managed_turn_id'' = JNull \<and>
      dget v ''pending_turn_id'' \<in> {JNull, JStr turn} \<and>
      start_managed_parent fresh now (release_claim (dsets [(''pending_turn_id'', JNull),
        (''pending_turn_timed_out_at'', JNull), (''managed_turn_id'', JStr turn),
        (''handoff_requested'', JBool False)] v)) turn p = Inr w \<and> bump_revision p w = Inr v')"
  unfolding started_values_def ebind_eq_Inr handoff_of_def
  by (auto simp: done_with_Inr ebind_eq_Inr split: if_splits)

section \<open>Properties\<close>

text \<open>
  The manager interrupts a turn exactly when the enabled session holds a restart request for the
  turn it owns and that same turn is the active one; it starts a turn exactly when a handoff is
  requested, no restart is pending, it owns no turn and none is active (and no goal drives the
  session); a restart request that contradicts the ownership always fails closed.
\<close>

theorem manager_acts_on_owned_turns_only:
  "(md_action (decide_manager_action view active) = ACT_INTERRUPT \<longleftrightarrow>
      mv_enabled view \<and> mv_restart_turn view \<noteq> None \<and> mv_managed_turn view = mv_restart_turn view \<and>
      active = mv_restart_turn view) \<and>
   (md_turn (decide_manager_action view active) \<noteq> None \<longleftrightarrow>
      md_action (decide_manager_action view active) = ACT_INTERRUPT) \<and>
   (md_turn (decide_manager_action view active) \<in> {None, mv_managed_turn view}) \<and>
   (md_action (decide_manager_action view active) \<in> {ACT_START, ACT_RESUME_GOAL} \<longleftrightarrow>
      mv_enabled view \<and> mv_restart_turn view = None \<and> mv_handoff_requested view \<and>
      mv_managed_turn view = None \<and> active = None) \<and>
   (md_action (decide_manager_action view active) = ACT_FAIL_CLOSED \<longleftrightarrow>
      mv_enabled view \<and>
      (if mv_restart_turn view \<noteq> None
       then mv_restart_turn view \<noteq> mv_managed_turn view \<or>
            active \<noteq> None \<and> active \<noteq> mv_restart_turn view
       else mv_handoff_requested view \<and> mv_managed_turn view = None \<and> mv_goal_companion view \<and>
            active \<noteq> None))"
  by (auto simp: decide_manager_action_def restart_decision_def handoff_decision_def decision_def
      fail_decision_def Let_def)



text \<open>
  Recording a started turn on a readable managed session commits ownership of exactly that turn
  when a handoff is requested, no turn is owned and no other turn is accepted; otherwise it raises
  and leaves every document as it was.
\<close>

theorem turn_start_is_fenced:
  assumes "load_state (mg_fs E) (mg_home E) p st = Inr v" and "is_file st (abspath p)"
    and "\<not> lock_busy (mg_fs E) (abspath p)" and "turn \<noteq> []"
    and "require_managed p v = Inr ()" and "get_optional_integer v ''revision'' p 0 = Inr n"
    and "hook_children v p = Inr cs" and "hook_monitor (v, cs) None p = Inr m"
  shows "if handoff_of v \<and> dget v ''managed_turn_id'' = JNull \<and>
          dget v ''pending_turn_id'' \<in> {JNull, JStr turn}
    then \<exists>v'. record_turn_started E fresh now p turn st =
          (Inr (Some ()), atomic_json_write (abspath p) SCHEMA_VERSION v' st) \<and>
        owner_of v' = Owned turn \<and> \<not> handoff_of v' \<and>
        dget v' ''parent_turn_id'' = JStr turn \<and> dget v' ''restart_claimed'' = JBool False \<and>
        dget v' ''revision'' = JInt (n + 1)
    else record_turn_started E fresh now p turn st =
          (Inl (ManagerRuntimeError ''handoff_state_changed''), st)"
proof (cases "handoff_of v \<and> dget v ''managed_turn_id'' = JNull \<and>
    dget v ''pending_turn_id'' \<in> {JNull, JStr turn}")
  case True
  let ?u = "release_claim (dsets [(''pending_turn_id'', JNull), (''pending_turn_timed_out_at'', JNull),
      (''managed_turn_id'', JStr turn), (''handoff_requested'', JBool False)] v)"
  obtain w where w: "start_managed_parent fresh now ?u turn p = Inr w"
    using assms(7,8) by (auto simp: start_managed_parent_def start_parent_def hook_children_def
        hook_monitor_def release_claim_def Let_def)
  let ?v = "dset ''revision'' (JInt (n + 1)) w"
  have "dget_or w ''revision'' (JInt 0) = dget_or v ''revision'' (JInt 0)"
    by (subst start_managed_parent_Inr(3) [OF w]) (simp add: release_claim_def)
  moreover from this have b: "bump_revision p w = Inr ?v"
    using assms(6) get_optional_integer_cong [of w "''revision''" 0 v p] by (simp add: bump_revision_Inr)
  moreover have "started_values fresh now p turn v = Inr ((), ?v)"
    using True w b assms(5) by (auto simp: started_values_Inr)
  ultimately have "record_turn_started E fresh now p turn st =
      (Inr (Some ()), atomic_json_write (abspath p) SCHEMA_VERSION ?v st)"
    using assms(1-4) by (simp add: record_turn_started_def bumped_commit)
  moreover have "dget w ''handoff_requested'' = JBool False" "dget w ''managed_turn_id'' = JStr turn"
    "dget w ''restart_claimed'' = JBool False"
    by (subst start_managed_parent_Inr(2) [OF w]; simp add: release_claim_def)+
  moreover note start_managed_parent_Inr(1) [OF w]
  ultimately show ?thesis using True by (auto simp: owner_of_def handoff_of_def)
next
  case False
  then have "started_values fresh now p turn v = Inl (ManagerRuntimeError ''handoff_state_changed'')"
    using assms(5) by (auto simp: started_values_def handoff_of_def)
  moreover from load_state_safe [OF assms(1)] obtain r where
    "safe_absolute_path (mg_fs E) (mg_home E) p = Inr (r, abspath p)"
    "load_state (mg_fs E) r (abspath p) st = Inr v" by blast
  ultimately have "record_turn_started E fresh now p turn st =
      (Inl (ManagerRuntimeError ''handoff_state_changed''), st)"
    using assms(2-4) by (simp add: record_turn_started_def manager_update_def locked_update_def
        mutate_existing_state_def)
  with False show ?thesis by simp
qed

definition ex_manager_env :: manager_env where
  "ex_manager_env = \<lparr>mg_lib = ex_lib, mg_fs = ex_env, mg_home = [''h'', ''p''],
     mg_aware = (\<lambda>_. True)\<rparr>"

definition ex_managed :: dict where
  "ex_managed = [(''session_id'', JStr ''s''), (''enabled'', JBool True), (''managed_mode'', JBool True),
     (''manager_ready'', JBool True), (''handoff_requested'', JBool True),
     (''pending_turn_id'', JStr ''t''), (''children'', JObj [])]"

theorem turn_start_is_fenced_witness:
  "\<exists>v'. record_turn_started ex_manager_env ''f'' ''now'' ex_runtime_file ''t''
      [ex_runtime_file \<mapsto> Regular (Some (JObj ((''schema_version'', JInt 1) # ex_managed)))] =
    (Inr (Some ()), atomic_json_write ex_runtime_file SCHEMA_VERSION v'
      [ex_runtime_file \<mapsto> Regular (Some (JObj ((''schema_version'', JInt 1) # ex_managed)))]) \<and>
    owner_of v' = Owned ''t''"
proof -
  let ?st = "[ex_runtime_file \<mapsto> Regular (Some (JObj ((''schema_version'', JInt 1) # ex_managed)))]"
  have "ensure_existing_components_are_direct ex_env h p = Inr ()" for h p
    by (rule no_redirects) (simp add: ex_env_def)
  then have load: "load_state ex_env [''h'', ''p''] ex_runtime_file ?st = Inr ex_managed"
    using ex_safe by (simp add: load_state_def ensure_direct_regular_file_def check_schema_def
        SCHEMA_VERSION_def) (simp add: ex_managed_def)
  have path: "abspath ex_runtime_file = ex_runtime_file" by (simp add: abspath_def ex_runtime_file_def)
  have env: "mg_fs ex_manager_env = ex_env" "mg_home ex_manager_env = [''h'', ''p'']"
    by (simp_all add: ex_manager_env_def)
  have vals: "require_managed ex_runtime_file ex_managed = Inr ()"
    "get_optional_integer ex_managed ''revision'' ex_runtime_file 0 = Inr 0"
    "hook_children ex_managed ex_runtime_file = Inr []"
    "hook_monitor (ex_managed, []) None ex_runtime_file = Inr None"
    "handoff_of ex_managed" "dget ex_managed ''managed_turn_id'' = JNull"
    "dget ex_managed ''pending_turn_id'' = JStr ''t''"
    by (simp_all add: ex_managed_def require_managed_def get_boolean_def get_optional_integer_def
        hook_children_def hook_monitor_def handoff_of_def)
  have there: "is_file ?st (abspath ex_runtime_file)" "\<not> lock_busy ex_env (abspath ex_runtime_file)"
    by (simp_all add: path is_file_def ex_env_def)
  from turn_start_is_fenced [of ex_manager_env ex_runtime_file ?st ex_managed "''t''" 0 "[]" None
      "''f''" "''now''", unfolded env, OF load there _ vals(1-4)] vals(5-7)
  show ?thesis by (auto simp: path)
qed

text \<open>
  A restart is recorded only under a claim of the owned turn that is at most sixty seconds old,
  it counts once, gives the turn up and requests the next handoff, and the same evidence can never
  be used again.
\<close>

theorem restart_uses_claim_once:
  assumes "restart_values E p turn now v = Inr (sid, v')"
  shows "owner_of v = Owned turn \<and>
    (\<exists>c. aware_datetime E v ''restart_claimed_at'' p = Inr (Some c) \<and> 0 \<le> now - c \<and> now - c \<le> 60) \<and>
    (\<exists>n. dget v ''restart_count'' = JInt n \<and> dget v' ''restart_count'' = JInt (n + 1)) \<and>
    owner_of v' = Nobody \<and> handoff_of v' \<and>
    restart_values E p turn later v' = Inl (ManagerRuntimeError ''restart_request_changed'')"
proof -
  from restart_values_Inr [OF assms] obtain c n where v: "dget v ''managed_turn_id'' = JStr turn"
    "aware_datetime E v ''restart_claimed_at'' p = Inr (Some c)" "restart_claim_is_current c now"
    "get_integer v ''restart_count'' p 0 = Inr n"
    and f: "finish_turn p (dset ''restart_count'' (JInt (n + 1)) v) = Inr v'" by blast
  have "dget v' ''restart_request'' = JNull" and "dget v' ''restart_count'' = JInt (n + 1)"
    using f by (auto simp: finish_turn_def release_claim_def bump_revision_Inr)
  moreover have "dget v ''restart_count'' = JInt n"
    using v(4) by (simp add: get_integer_def split: json.splits if_splits)
  ultimately show ?thesis
    using v finish_turn_owner [OF f]
    by (auto simp: owner_of_def restart_claim_is_current_def RESTART_CLAIM_TTL_def restart_values_def)
qed

definition ex_claimed :: dict where
  "ex_claimed = [(''session_id'', JStr ''s''), (''managed_turn_id'', JStr ''t''),
     (''restart_request'', JObj [(''turn_id'', JStr ''t'')]), (''restart_claimed'', JBool True),
     (''restart_claimed_at'', JStr ''1234''), (''restart_count'', JInt 2)]"

theorem restart_uses_claim_once_witness:
  "\<exists>v'. restart_values ex_manager_env ex_runtime_file ''t'' 40 ex_claimed = Inr (''s'', v') \<and>
     dget v' ''restart_count'' = JInt 3 \<and>
     restart_values ex_manager_env ex_runtime_file ''t'' 50 v' =
       Inl (ManagerRuntimeError ''restart_request_changed'')"
proof -
  have "\<exists>v'. restart_values ex_manager_env ex_runtime_file ''t'' 40 ex_claimed = Inr (''s'', v')"
    by (simp add: restart_values_def ex_claimed_def aware_datetime_def ex_manager_env_def ex_lib_def
        restart_claim_is_current_def RESTART_CLAIM_TTL_def get_integer_def get_string_def
        finish_turn_def bump_revision_def get_optional_integer_def release_claim_def)
  then obtain v' where v': "restart_values ex_manager_env ex_runtime_file ''t'' 40 ex_claimed =
    Inr (''s'', v')" by blast
  from restart_uses_claim_once [OF v', of 50] v' show ?thesis
    by (auto simp: ex_claimed_def)
qed

end
