(* ===== verification/ManagerLease.thy ===== *)
theory ManagerLease
  imports SessionIdentity ManagerState NotificationDaemon
begin

text \<open>
  \<open>scripts/manager_lease.py\<close>, the text files of \<open>state_text.py\<close> it uses and the readiness checks of
  \<open>manager_launch.py\<close>. A lease is an operating-system lock, released when its process ends, and a
  marker file with the owner's process number, which a crash leaves behind.
\<close>

section \<open>Lease files\<close>

record lease_file =
  lf_holder :: "int option"
  lf_lock_file :: bool
  lf_marker :: "string option"

record lease_disk =
  ld_directory :: bool
  ld_files :: "string \<Rightarrow> lease_file"

text \<open>
  Of the file system: a path that exists and is not a direct regular file, and the identity of the
  lease directory at each observation of a query (\<open>None\<close>: not a directory).
\<close>

record lease_env =
  le_home :: path
  le_fs :: fs_env
  le_special :: "path \<Rightarrow> bool"
  le_identity :: "nat \<Rightarrow> (int \<times> int) option"

definition lease_directory :: "lease_env \<Rightarrow> path" where
  "lease_directory L = le_home L @ [''managers'']"

definition lease_path :: "lease_env \<Rightarrow> string \<Rightarrow> path" where
  "lease_path L name = lease_directory L @ [name @ ''.lease'']"

definition lease_lock_path :: "lease_env \<Rightarrow> string \<Rightarrow> path" where
  "lease_lock_path L name = lease_directory L @ [CHR ''.'' # name @ ''.lease.lock'']"

definition set_file :: "string \<Rightarrow> (lease_file \<Rightarrow> lease_file) \<Rightarrow> lease_disk \<Rightarrow> lease_disk" where
  "set_file name f d = d\<lparr>ld_files := (ld_files d)(name := f (ld_files d name))\<rparr>"

definition open_direct_file :: "lease_env \<Rightarrow> bool \<Rightarrow> path \<Rightarrow> exn + unit" where
  "open_direct_file L there p =
     (if \<not> there \<or> le_special L p then Inl (UnsafeStatePathError (butlast p) p) else Inr ())"

definition lease_direct :: "lease_env \<Rightarrow> path \<Rightarrow> exn + unit" where
  "lease_direct L p =
     ebind (safe_absolute_path (le_fs L) (le_home L) p) (\<lambda>(r, a).
     if le_special L a then Inl (UnsafeStatePathError r a) else Inr ())"

section \<open>The operating-system lock\<close>

definition lock_enter :: "lease_env \<Rightarrow> bool \<Rightarrow> int \<Rightarrow> string \<Rightarrow> (exn, lease_disk, unit) step" where
  "lock_enter L create pid name d =
     (case open_direct_file L (create \<or> lf_lock_file (ld_files d name)) (lease_lock_path L name) of
        Inl e \<Rightarrow> (Inl e, d)
      | Inr _ \<Rightarrow>
          let d1 = set_file name (\<lambda>f. f\<lparr>lf_lock_file := True\<rparr>) d
          in if lf_holder (ld_files d name) \<noteq> None
             then (Inl (StateLockTimeoutError (lease_lock_path L name)), d1)
             else (Inr (), set_file name (\<lambda>f. f\<lparr>lf_holder := Some pid\<rparr>) d1))"

definition lock_exit :: "string \<Rightarrow> lease_disk \<Rightarrow> lease_disk" where
  "lock_exit name d = set_file name (\<lambda>f. f\<lparr>lf_holder := None\<rparr>) d"

section \<open>Marker texts\<close>

definition write_private_text :: "lease_env \<Rightarrow> string \<Rightarrow> string \<Rightarrow> (exn, lease_disk, unit) step" where
  "write_private_text L name txt d =
     (case ebind (safe_absolute_path (le_fs L) (le_home L) (lease_path L name)) (\<lambda>(r, a).
           open_direct_file L True a) of
        Inl e \<Rightarrow> (Inl e, d)
      | Inr _ \<Rightarrow> (lease_direct L (lease_path L name),
                  set_file name (\<lambda>f. f\<lparr>lf_marker := Some txt\<rparr>) d))"

definition read_private_text :: "lease_env \<Rightarrow> string \<Rightarrow> nat \<Rightarrow> lease_disk \<Rightarrow> exn + string" where
  "read_private_text L name max_bytes d =
     (if max_bytes < 1 then Inl (ValueErr ''max_bytes must be positive'')
      else
        ebind (safe_absolute_path (le_fs L) (le_home L) (lease_path L name)) (\<lambda>(r, a).
        ebind (lease_direct L a) (\<lambda>_.
        ebind (open_direct_file L (lf_marker (ld_files d name) \<noteq> None) a) (\<lambda>_.
        case lf_marker (ld_files d name) of
          None \<Rightarrow> Inl (UnsafeStatePathError (butlast a) a)
        | Some payload \<Rightarrow>
            if length payload > max_bytes then Inl (StateErr ''state text exceeds its size limit'')
            else if \<not> ascii payload then Inl (StateErr ''state text is not ASCII'')
            else Inr payload))))"

section \<open>Leases\<close>

text \<open>\<open>prepare_parent_directories\<close>: makes the directory and checks every component of it.\<close>

definition prepare_lease_directory :: "lease_env \<Rightarrow> (exn, lease_disk, unit) step" where
  "prepare_lease_directory L d =
     (case ensure_existing_components_are_direct (le_fs L) (le_home L) (le_home L) of
        Inl e \<Rightarrow> (Inl e, d)
      | Inr _ \<Rightarrow> (ensure_existing_components_are_direct (le_fs L) (le_home L) (lease_directory L),
                  d\<lparr>ld_directory := True\<rparr>))"

definition acquire_manager_lease :: "lease_env \<Rightarrow> int \<Rightarrow> string \<Rightarrow> (exn, lease_disk, bool) step" where
  "acquire_manager_lease L pid name =
     sbind (slift (manager_file (le_home L) name)) (\<lambda>_.
     sbind (prepare_lease_directory L) (\<lambda>_ d.
     case lock_enter L True pid name d of
       (Inl (StateLockTimeoutError p), d1) \<Rightarrow> (Inr False, d1)
     | (Inl e, d1) \<Rightarrow> (Inl e, d1)
     | (Inr _, d1) \<Rightarrow>
         (case write_private_text L name (show_nat (nat pid) @ [CHR 0x0A]) d1 of
            (Inl e, d2) \<Rightarrow> (Inl e, lock_exit name d2)
          | (Inr _, d2) \<Rightarrow> (Inr True, d2))))"

definition release_manager_lease :: "string \<Rightarrow> lease_disk \<Rightarrow> lease_disk" where
  "release_manager_lease name d = lock_exit name (set_file name (\<lambda>f. f\<lparr>lf_marker := None\<rparr>) d)"

text \<open>The owner query; \<open>k\<close> counts its observations of the lease directory.\<close>

definition directory_identity :: "lease_env \<Rightarrow> nat \<Rightarrow> exn + int \<times> int" where
  "directory_identity L k =
     ebind (safe_absolute_path (le_fs L) (le_home L) (lease_directory L)) (\<lambda>(r, a).
     case le_identity L k of None \<Rightarrow> Inl (UnsafeStatePathError r a) | Some i \<Rightarrow> Inr i)"

definition require_same_directory :: "lease_env \<Rightarrow> nat \<Rightarrow> int \<times> int \<Rightarrow> exn + unit" where
  "require_same_directory L k expected =
     ebind (directory_identity L k) (\<lambda>i.
     if i \<noteq> expected
     then ebind (safe_absolute_path (le_fs L) (le_home L) (lease_directory L)) (\<lambda>(r, a).
       Inl (UnsafeStatePathError r a))
     else Inr ())"

definition marked_owner :: "lease_env \<Rightarrow> string \<Rightarrow> string \<Rightarrow> exn + int" where
  "marked_owner L name marker =
     (case py_int 10 marker of
        None \<Rightarrow> Inl (CorruptStateError (lease_path L name) INVALID_VALUE)
      | Some owner \<Rightarrow>
          if owner < 1 \<or> marker \<noteq> show_nat (nat owner)
          then Inl (CorruptStateError (lease_path L name) INVALID_VALUE)
          else Inr owner)"

definition manager_lease_owner :: "lease_env \<Rightarrow> int \<Rightarrow> string \<Rightarrow> (exn, lease_disk, int option) step" where
  "manager_lease_owner L me name =
     sbind (slift (manager_file (le_home L) name)) (\<lambda>_.
     sbind (slift (safe_absolute_path (le_fs L) (le_home L) (lease_path L name))) (\<lambda>_ d.
     if \<not> ld_directory d then (Inr None, d)
     else
       (sbind (slift (directory_identity L 0)) (\<lambda>i.
        sbind (slift (lease_direct L (lease_path L name))) (\<lambda>_.
        sbind (slift (lease_direct L (lease_lock_path L name))) (\<lambda>_ d.
        if \<not> lf_lock_file (ld_files d name)
        then (ebind (require_same_directory L 1 i) (\<lambda>_. Inr None), d)
        else case lock_enter L False me name d of
            (Inl (StateLockTimeoutError p), d1) \<Rightarrow>
              (ebind (require_same_directory L 1 i) (\<lambda>_.
               ebind (read_private_text L name 32 d1) (\<lambda>txt.
               ebind (require_same_directory L 2 i) (\<lambda>_.
               ebind (marked_owner L name (strip_set py_space txt)) (\<lambda>w. Inr (Some w))))), d1)
          | (Inl e, d1) \<Rightarrow> (Inl e, d1)
          | (Inr _, d1) \<Rightarrow>
              (ebind (require_same_directory L 1 i) (\<lambda>_. Inr None), lock_exit name d1))))) d))"

section \<open>Recovery\<close>

record recovery_identity =
  ri_generation :: int
  ri_session :: string
  ri_transcript :: string

definition recovery_values :: "recovery_identity \<Rightarrow> dict \<Rightarrow> exn + bool \<times> dict" where
  "recovery_values expected values =
     (case dget values ''revision'' of
        JInt g \<Rightarrow>
          if g \<noteq> ri_generation expected \<or> dget values ''session_id'' \<noteq> JStr (ri_session expected) \<or>
             dget values ''transcript_path'' \<noteq> JStr (ri_transcript expected)
          then Inr (False, values)
          else Inr (True, dset ''revision'' (JInt (g + 1)) values)
      | _ \<Rightarrow> Inr (False, values))"

definition acquire_recovery_manager_lease ::
  "lease_env \<Rightarrow> manager_env \<Rightarrow> int \<Rightarrow> string \<Rightarrow> recovery_identity \<Rightarrow>
   (exn, lease_disk \<times> store, int option) step" where
  "acquire_recovery_manager_lease L E pid name expected = (\<lambda>(d, st).
     case manager_file (mg_home E) name of
       Inl e \<Rightarrow> (Inl e, (d, st))
     | Inr p \<Rightarrow>
         (case acquire_manager_lease L pid name d of
            (Inl e, d1) \<Rightarrow> (Inl e, (d1, st))
          | (Inr False, d1) \<Rightarrow> (Inr None, (d1, st))
          | (Inr True, d1) \<Rightarrow>
              (case is_true (manager_update E p (recovery_values expected) st) of
                 (Inl e, st') \<Rightarrow> (Inl e, (release_manager_lease name d1, st'))
               | (Inr False, st') \<Rightarrow> (Inr None, (release_manager_lease name d1, st'))
               | (Inr True, st') \<Rightarrow> (Inr (Some (ri_generation expected + 1)), (d1, st')))))"

section \<open>Readiness\<close>

definition active_manager ::
  "lease_env \<Rightarrow> manager_env \<Rightarrow> int \<Rightarrow> string \<Rightarrow> (exn, lease_disk \<times> store, manager_runtime option) step" where
  "active_manager L E me name = (\<lambda>(d, st).
     case load_manager_runtime E name st of
       Inl e \<Rightarrow> (Inl e, (d, st))
     | Inr None \<Rightarrow> (Inr None, (d, st))
     | Inr (Some rt) \<Rightarrow>
         if \<not> mr_ready rt \<or> \<not> mv_enabled (mr_view rt) \<or> mr_shutdown_requested rt \<or>
            mr_error rt \<noteq> None \<or> mr_pid rt = None
         then (Inr None, (d, st))
         else
           (case manager_lease_owner L me name d of
              (Inl e, d1) \<Rightarrow> (Inl e, (d1, st))
            | (Inr w, d1) \<Rightarrow> (Inr (if w \<noteq> mr_pid rt then None else Some rt), (d1, st))))"

text \<open>
  \<open>_wait_until_ready\<close>: what the launcher sees in one round is the document, the lease and whether
  the child process (number \<open>pid\<close>) still runs; the rounds are those before the deadline.
\<close>

record launch_round =
  lr_store :: store
  lr_leases :: lease_disk
  lr_running :: bool

fun wait_until_ready ::
  "lease_env \<Rightarrow> manager_env \<Rightarrow> int \<Rightarrow> string \<Rightarrow> int \<Rightarrow> launch_round list \<Rightarrow> exn + int" where
  "wait_until_ready L E me name pid [] = Inl (ManagerLaunchError ''manager_ready_timeout'')"
| "wait_until_ready L E me name pid (r # rs) =
     (case load_manager_runtime E name (lr_store r) of
        Inl e \<Rightarrow> Inl e
      | Inr None \<Rightarrow> Inl (ManagerLaunchError ''manager_runtime_disappeared'')
      | Inr (Some rt) \<Rightarrow>
          (case mr_error rt of
             Some why \<Rightarrow> Inl (ManagerLaunchError why)
           | None \<Rightarrow>
               if mr_ready rt then
                 if \<not> lr_running r then Inl (ManagerLaunchError ''manager_process_exited'')
                 else
                   ebind (fst (manager_lease_owner L me name (lr_leases r))) (\<lambda>w.
                   if mr_pid rt \<noteq> Some pid \<or> w \<noteq> Some pid
                   then Inl (ManagerLaunchError ''manager_owner_mismatch'')
                   else Inr pid)
               else if \<not> lr_running r then Inl (ManagerLaunchError ''manager_process_exited'')
               else wait_until_ready L E me name pid rs))"

section \<open>Lemmas\<close>

lemma set_file_same [simp]: "ld_files (set_file name f d) name = f (ld_files d name)"
  and set_file_other [simp]: "n \<noteq> name \<Longrightarrow> ld_files (set_file name f d) n = ld_files d n"
  and set_file_directory [simp]: "ld_directory (set_file name f d) = ld_directory d"
  by (simp_all add: set_file_def)

lemma set_file_twice [simp]: "set_file name f (set_file name g d) = set_file name (f \<circ> g) d"
  by (simp add: set_file_def)

lemma set_file_id: "f (ld_files d name) = ld_files d name \<Longrightarrow> set_file name f d = d"
  by (simp add: set_file_def fun_upd_idem)

lemma digits_loop_decimal:
  "list_all is_digit cs \<Longrightarrow> d \<or> cs \<noteq> [] \<Longrightarrow>
   digits_loop 10 d n cs = Some (foldl (\<lambda>n c. 10 * n + digit_value c) n cs)"
proof (induction cs arbitrary: d n)
  case (Cons c cs)
  then have c: "is_digit c" by simp
  then have "c \<noteq> CHR ''_''" by (auto simp: is_digit_def less_eq_char_def)
  moreover have "digit_in c = Some (digit_value c)" "digit_value c < 10"
    using c by (auto simp: digit_in_def digit_value_def is_digit_def less_eq_char_def)
  ultimately show ?case using Cons by simp
qed simp

lemma digit_plain: "is_digit c \<Longrightarrow> c \<notin> {CHR ''-'', CHR ''+'', CHR ''_''} \<and> \<not> py_space c"
  by (auto simp: is_digit_def less_eq_char_def py_space_def)

lemma py_int_show_nat: "py_int 10 (show_nat n) = Some (int n)"
proof -
  let ?s = "show_nat n"
  have s: "list_all is_digit ?s" "?s \<noteq> []" using show_nat_digits by blast+
  then have d: "is_digit (hd ?s)" "is_digit (last ?s)" by (auto simp: list_all_iff)
  then have "strip_set py_space ?s = ?s" using s(2) digit_plain by (intro strip_set_absent) blast+
  moreover have "unsigned_literal 10 ?s = digits_loop 10 False 0 ?s"
    by (auto simp: unsigned_literal_def split: list.splits)
  moreover have "hd ?s \<noteq> CHR ''-''" "hd ?s \<noteq> CHR ''+''" using d(1) digit_plain by blast+
  moreover have "foldl (\<lambda>n c. 10 * n + digit_value c) 0 ?s = n"
    using nat_of_digits_show_nat [of n] by (simp add: nat_of_digits_def)
  ultimately show ?thesis
    using digits_loop_decimal [OF s(1), of False 0] s(2)
    by (cases ?s) (auto simp: py_int_def split: char.splits bool.splits)
qed

lemma strip_marker: "strip_set py_space (show_nat n @ [CHR 0x0A]) = show_nat n"
proof -
  let ?s = "show_nat n"
  have s: "list_all is_digit ?s" "?s \<noteq> []" using show_nat_digits by blast+
  then have d: "\<not> py_space (hd ?s)" "\<not> py_space (last ?s)"
    using digit_plain by (auto simp: list_all_iff)
  have "dropWhile py_space (?s @ [CHR 0x0A]) = ?s @ [CHR 0x0A]" using s(2) d(1) by (cases ?s) auto
  moreover have "dropWhile py_space (rev ?s) = rev ?s" using s(2) d(2) by (cases ?s rule: rev_cases) auto
  moreover have "py_space (CHR 0x0A)" by (simp add: py_space_def)
  ultimately show ?thesis by (simp add: strip_set_def)
qed

lemma marked_owner_shown: "0 < pid \<Longrightarrow> marked_owner L name (strip_set py_space (show_nat (nat pid) @ [CHR 0x0A])) = Inr pid"
  by (simp add: marked_owner_def strip_marker py_int_show_nat)

text \<open>A sound file system: nothing redirected or special, one lease directory.\<close>

definition lease_files_ok :: "lease_env \<Rightarrow> bool" where
  "lease_files_ok L \<longleftrightarrow> (\<forall>p. \<not> redirected (le_fs L) p) \<and> (\<forall>p. \<not> le_special L p) \<and>
     (\<exists>i. \<forall>k. le_identity L k = Some i) \<and> clean_path (le_home L)"

lemma lease_safe:
  assumes "lease_files_ok L"
  shows "safe_absolute_path (le_fs L) (le_home L) (lease_directory L) = Inr (le_home L, lease_directory L)"
    and "safe_absolute_path (le_fs L) (le_home L) (lease_path L name) = Inr (le_home L, lease_path L name)"
    and "safe_absolute_path (le_fs L) (le_home L) (lease_lock_path L name) =
      Inr (le_home L, lease_lock_path L name)"
proof -
  have d: "ensure_existing_components_are_direct (le_fs L) h p = Inr ()" for h p
    using assms by (intro no_redirects) (simp add: lease_files_ok_def fun_eq_iff)
  have "{'''', ''.'', ''..''} \<inter> set (le_home L) = {}"
    using assms by (auto simp: lease_files_ok_def clean_path_def)
  then have a: "abspath (le_home L @ q) = le_home L @ q" if "{'''', ''.'', ''..''} \<inter> set q = {}" for q
    using that unfolding abspath_def by (subst abspath_onto_id) auto
  show "safe_absolute_path (le_fs L) (le_home L) (lease_directory L) = Inr (le_home L, lease_directory L)"
    and "safe_absolute_path (le_fs L) (le_home L) (lease_path L name) = Inr (le_home L, lease_path L name)"
    and "safe_absolute_path (le_fs L) (le_home L) (lease_lock_path L name) =
      Inr (le_home L, lease_lock_path L name)"
    using a [of "[]"] a [of "[''managers'']"] a [of "[''managers'', name @ ''.lease'']"]
      a [of "[''managers'', CHR ''.'' # name @ ''.lease.lock'']"]
    by (auto simp: d safe_absolute_path_Inr lease_directory_def lease_path_def lease_lock_path_def
        strictly_below_def append_eq_Cons_conv)
qed

lemma lease_sound:
  assumes "lease_files_ok L"
  shows "lease_direct L (lease_path L name) = Inr ()" and "lease_direct L (lease_lock_path L name) = Inr ()"
    and "open_direct_file L there p = (if there then Inr () else Inl (UnsafeStatePathError (butlast p) p))"
    and "prepare_lease_directory L d = (Inr (), d\<lparr>ld_directory := True\<rparr>)"
    and "\<exists>i. \<forall>k. directory_identity L k = Inr i \<and> require_same_directory L k i = Inr ()"
proof -
  have r: "ensure_existing_components_are_direct (le_fs L) h p = Inr ()" for h p
    using assms by (intro no_redirects) (simp add: lease_files_ok_def fun_eq_iff)
  have s: "\<not> le_special L p" for p using assms by (simp add: lease_files_ok_def)
  note safe = lease_safe [OF assms]
  show "lease_direct L (lease_path L name) = Inr ()" "lease_direct L (lease_lock_path L name) = Inr ()"
    "open_direct_file L there p = (if there then Inr () else Inl (UnsafeStatePathError (butlast p) p))"
    "prepare_lease_directory L d = (Inr (), d\<lparr>ld_directory := True\<rparr>)"
    using safe s r by (simp_all add: lease_direct_def open_direct_file_def prepare_lease_directory_def)
  from assms obtain i where "le_identity L k = Some i" for k by (auto simp: lease_files_ok_def)
  then show "\<exists>i. \<forall>k. directory_identity L k = Inr i \<and> require_same_directory L k i = Inr ()"
    using safe by (auto simp: directory_identity_def require_same_directory_def)
qed

text \<open>The answer of the owner query, whatever the marker says.\<close>

lemma owner_query:
  assumes "lease_files_ok L" and "manager_file (le_home L) name = Inr p" and "ld_directory d"
    and "lf_lock_file (ld_files d name)"
  shows "manager_lease_owner L me name d =
    (case lf_holder (ld_files d name) of
       None \<Rightarrow> Inr None
     | Some _ \<Rightarrow> ebind (read_private_text L name 32 d) (\<lambda>txt.
         ebind (marked_owner L name (strip_set py_space txt)) (\<lambda>w. Inr (Some w))), d)"
proof -
  from lease_sound(5) [OF assms(1)] obtain i
    where i: "directory_identity L k = Inr i" "require_same_directory L k i = Inr ()" for k by blast
  have same: "set_file name (\<lambda>f. f\<lparr>lf_lock_file := True\<rparr>) d = d"
    using assms(4) by (intro set_file_id) simp
  have probe: "lock_exit name (set_file name (\<lambda>f. f\<lparr>lf_holder := Some me\<rparr>) d) = d"
    if "lf_holder (ld_files d name) = None"
    using that unfolding lock_exit_def by (simp add: set_file_id)
  show ?thesis
    using assms(2-4) i same probe
    by (cases "lf_holder (ld_files d name)")
      (simp_all add: manager_lease_owner_def sbind_def slift_def lease_safe [OF assms(1)]
        lease_sound(1-3) [OF assms(1)] lock_enter_def)
qed

lemma show_nat_short: "n < 10 ^ Suc k \<Longrightarrow> length (show_nat n) \<le> Suc k"
proof (induction k arbitrary: n)
  case 0
  then show ?case by (simp add: show_nat.simps)
next
  case (Suc k)
  then have "n div 10 < 10 ^ Suc k" by (simp add: div_less_iff_less_mult mult.commute)
  from Suc.IH [OF this] show ?case by (subst show_nat.simps) simp
qed

text \<open>Process numbers are 32-bit.\<close>

lemma marker_read:
  assumes "lease_files_ok L" and "lf_marker (ld_files d name) = Some (show_nat (nat pid) @ [CHR 0x0A])"
    and "pid < 2 ^ 32"
  shows "read_private_text L name 32 d = Inr (show_nat (nat pid) @ [CHR 0x0A])"
proof -
  have "ascii (show_nat (nat pid) @ [CHR 0x0A])"
    using show_nat_digits [of "nat pid"] by (auto simp: ascii_def list_all_iff is_digit_def less_eq_char_def)
  moreover have "nat pid < 10 ^ Suc 9" using assms(3) by simp
  from show_nat_short [OF this] have "length (show_nat (nat pid)) \<le> 10" by simp
  ultimately show ?thesis
    using assms(2) by (simp add: read_private_text_def lease_safe [OF assms(1)] lease_sound [OF assms(1)])
qed

lemma owner_with_marker:
  assumes "lease_files_ok L" and "manager_file (le_home L) name = Inr p" and "ld_directory d"
    and "lf_lock_file (ld_files d name)" and "lf_holder (ld_files d name) = Some h"
    and "lf_marker (ld_files d name) = Some (show_nat (nat pid) @ [CHR 0x0A])" and "0 < pid" and "pid < 2 ^ 32"
  shows "manager_lease_owner L me name d = (Inr (Some pid), d)"
  using assms(5,7) owner_query [OF assms(1-4)] marker_read [OF assms(1,6,8)] marked_owner_shown
  by simp

lemma acquire_free:
  assumes "lease_files_ok L" and "manager_file (le_home L) name = Inr p"
    and "lf_holder (ld_files d name) = None"
  shows "acquire_manager_lease L pid name d =
    (Inr True, set_file name (\<lambda>f. \<lparr>lf_holder = Some pid, lf_lock_file = True,
       lf_marker = Some (show_nat (nat pid) @ [CHR 0x0A])\<rparr>) (d\<lparr>ld_directory := True\<rparr>))"
  using assms(2,3)
  by (simp add: acquire_manager_lease_def sbind_def slift_def lease_safe [OF assms(1)]
      lease_sound [OF assms(1)] lock_enter_def write_private_text_def comp_def)
    (cases "ld_files d name"; simp add: set_file_def)

lemma acquire_held:
  assumes "lease_files_ok L" and "manager_file (le_home L) name = Inr p"
    and "lf_holder (ld_files d name) \<noteq> None"
  shows "acquire_manager_lease L pid name d =
    (Inr False, set_file name (\<lambda>f. f\<lparr>lf_lock_file := True\<rparr>) (d\<lparr>ld_directory := True\<rparr>))"
  using assms(2,3)
  by (simp add: acquire_manager_lease_def sbind_def slift_def lease_sound [OF assms(1)] lock_enter_def)

section \<open>Properties\<close>

text \<open>
  C22: a lease is exclusive and visible: on a sound file system the first manager to ask gets it and is
  then the owner every query reports, whatever an earlier crash left in the marker; every other
  manager is turned away without disturbing it; and after its release nobody owns it and it can be
  taken again.
\<close>

theorem lease_is_exclusive:
  assumes "lease_files_ok L" and "manager_file (le_home L) name = Inr p"
    and "lf_holder (ld_files d name) = None" and "0 < pid" and "pid < 2 ^ 32"
  shows "\<exists>d'. acquire_manager_lease L pid name d = (Inr True, d') \<and>
    manager_lease_owner L me name d' = (Inr (Some pid), d') \<and>
    acquire_manager_lease L other name d' = (Inr False, d') \<and>
    manager_lease_owner L me name (release_manager_lease name d') = (Inr None, release_manager_lease name d') \<and>
    fst (acquire_manager_lease L other name (release_manager_lease name d')) = Inr True"
proof -
  let ?d = "set_file name (\<lambda>f. \<lparr>lf_holder = Some pid, lf_lock_file = True,
     lf_marker = Some (show_nat (nat pid) @ [CHR 0x0A])\<rparr>) (d\<lparr>ld_directory := True\<rparr>)"
  let ?r = "release_manager_lease name ?d"
  have "acquire_manager_lease L pid name d = (Inr True, ?d)" by (rule acquire_free [OF assms(1-3)])
  moreover have "manager_lease_owner L me name ?d = (Inr (Some pid), ?d)"
    by (rule owner_with_marker [OF assms(1,2) _ _ _ _ assms(4,5)]) simp_all
  moreover have "acquire_manager_lease L other name ?d = (Inr False, ?d)"
    using acquire_held [OF assms(1,2), of ?d other] by (simp add: comp_def) (simp add: set_file_def)
  moreover have "manager_lease_owner L me name ?r = (Inr None, ?r)"
    using owner_query [OF assms(1,2), of ?r me] by (simp add: release_manager_lease_def lock_exit_def)
  moreover have "fst (acquire_manager_lease L other name ?r) = Inr True"
    using acquire_free [OF assms(1,2), of ?r other] by (simp add: release_manager_lease_def lock_exit_def)
  ultimately show ?thesis by blast
qed

definition ex_leases :: lease_env where
  "ex_leases = \<lparr>le_home = [''h'', ''p''], le_fs = ex_env, le_special = (\<lambda>_. False),
     le_identity = (\<lambda>_. Some (1, 2))\<rparr>"

definition ex_runtime_name :: string where
  "ex_runtime_name = replicate 64 (CHR ''a'') @ ''.json''"

text \<open>Process 7 has crashed: its marker is still there.\<close>

definition ex_crashed :: lease_disk where
  "ex_crashed = \<lparr>ld_directory = True,
     ld_files = (\<lambda>_. \<lparr>lf_holder = None, lf_lock_file = True, lf_marker = Some (''7'' @ [CHR 0x0A])\<rparr>)\<rparr>"

lemma ex_leases_ok: "lease_files_ok ex_leases"
  "manager_file (le_home ex_leases) ex_runtime_name = Inr [''h'', ''p'', ''runtime'', ex_runtime_name]"
  by (simp_all add: lease_files_ok_def ex_leases_def ex_env_def clean_path_def manager_file_def
      ex_runtime_name_def hex_digit_def list_all_iff)

theorem lease_is_exclusive_witness:
  "\<exists>d'. acquire_manager_lease ex_leases 9 ex_runtime_name ex_crashed = (Inr True, d') \<and>
     manager_lease_owner ex_leases 1 ex_runtime_name d' = (Inr (Some 9), d') \<and>
     acquire_manager_lease ex_leases 8 ex_runtime_name d' = (Inr False, d')"
  using lease_is_exclusive [OF ex_leases_ok, of ex_crashed 9 1 8] by (auto simp: ex_crashed_def)

text \<open>
  Between the lock and the marker the owner query reports the wrong process: when a crash left
  its marker, a manager that has taken the lock and not yet written its own number is reported under
  the number of the crashed one, which the readiness check compares with the document.
\<close>

theorem lease_owner_may_be_stale:
  assumes "lease_files_ok L" and "manager_file (le_home L) name = Inr p" and "ld_directory d"
    and "lf_holder (ld_files d name) = None"
    and "lf_marker (ld_files d name) = Some (show_nat (nat crashed) @ [CHR 0x0A])"
    and "0 < crashed" and "crashed < 2 ^ 32"
  shows "\<exists>d'. lock_enter L True pid name d = (Inr (), d') \<and> lf_holder (ld_files d' name) = Some pid \<and>
    manager_lease_owner L me name d' = (Inr (Some crashed), d')"
proof -
  let ?d = "set_file name (\<lambda>f. f\<lparr>lf_holder := Some pid, lf_lock_file := True\<rparr>) d"
  have "lock_enter L True pid name d = (Inr (), ?d)"
    using assms(4)
    by (cases "ld_files d name") (simp add: lock_enter_def lease_sound [OF assms(1)] set_file_def)
  moreover have "manager_lease_owner L me name ?d = (Inr (Some crashed), ?d)"
    using assms(3,5) by (intro owner_with_marker [OF assms(1,2) _ _ _ _ assms(6,7)]) simp_all
  ultimately show ?thesis by simp
qed

theorem lease_owner_may_be_stale_witness:
  "\<exists>d'. lock_enter ex_leases True 9 ex_runtime_name ex_crashed = (Inr (), d') \<and>
     lf_holder (ld_files d' ex_runtime_name) = Some 9 \<and>
     manager_lease_owner ex_leases 1 ex_runtime_name d' = (Inr (Some 7), d')"
proof -
  have "show_nat 7 = ''7''" by code_simp
  then show ?thesis
    using lease_owner_may_be_stale [OF ex_leases_ok, of ex_crashed 7 9 1] by (simp add: ex_crashed_def)
qed

end
