(* ===== verification/SessionSetup.thy ===== *)
theory SessionSetup
  imports ManagerLease
begin

text \<open>
  \<open>scripts/setup.py\<close>, \<open>setup_cli.py\<close>, \<open>control.py\<close>, \<open>activation_validation.py\<close>, \<open>manager_reuse.py\<close> and
  \<open>daemon_activation.py\<close>: enabling, completing and disabling one session. The resolution of paths, the
  text of the transcript, the private-root check and the start of processes are parameters.
\<close>

section \<open>Capabilities\<close>

record capability_inputs =
  ci_event_stream :: bool
  ci_live_attach :: bool
  ci_interrupt :: bool
  ci_reassign :: bool
  ci_generation_guard :: bool
  ci_fingerprint :: string

record capability_report =
  cr_warning :: bool
  cr_auto_restart :: bool
  cr_reason :: string
  cr_fingerprint :: string
  cr_stop_continuation :: bool

definition mk_report :: "bool \<Rightarrow> bool \<Rightarrow> string \<Rightarrow> string \<Rightarrow> bool \<Rightarrow> capability_report" where
  "mk_report w a r f s = \<lparr>cr_warning = w, cr_auto_restart = a, cr_reason = r, cr_fingerprint = f,
     cr_stop_continuation = s\<rparr>"

definition evaluate_capabilities :: "capability_inputs \<Rightarrow> capability_report" where
  "evaluate_capabilities i =
     (if strip_set py_space (ci_fingerprint i) = []
      then mk_report False False ''capability_evidence_missing'' [] False
      else if \<not> ci_event_stream i
      then mk_report False False ''event_stream_unavailable'' (ci_fingerprint i) False
      else if \<not> ci_live_attach i
      then mk_report False False ''same_live_server_attach_unavailable'' (ci_fingerprint i) False
      else let ready = ci_interrupt i \<and> ci_reassign i \<and> ci_generation_guard i
        in mk_report True ready (if ready then ''ready'' else ''auto_restart_controls_unavailable'')
             (ci_fingerprint i) False)"

text \<open>The \<open>platform\<close> argument is \<open>sys.platform|sys.implementation.name\<close>.\<close>

definition current_capabilities :: "hash \<Rightarrow> string \<Rightarrow> string \<Rightarrow> string \<Rightarrow> string \<Rightarrow> capability_report" where
  "current_capabilities H platform version desktop_build schema =
     (let report = evaluate_capabilities \<lparr>ci_event_stream = True, ci_live_attach = False,
            ci_interrupt = False, ci_reassign = False, ci_generation_guard = False,
            ci_fingerprint = H (platform @ ''|'' @ version @ ''|'' @ desktop_build @ ''|'' @ ''0.1.0'' @
              ''|'' @ schema)\<rparr>
      in mk_report (cr_warning report) (cr_auto_restart report) (cr_reason report)
           (cr_fingerprint report) True)"

definition daemon_capabilities :: "string \<Rightarrow> bool \<Rightarrow> capability_report" where
  "daemon_capabilities fingerprint managed = mk_report False managed ''ready'' fingerprint False"

section \<open>Requests\<close>

datatype message_preset = CONTINUE | CLEANUP

fun preset_value :: "message_preset \<Rightarrow> string" where
  "preset_value CONTINUE = ''continue''"
| "preset_value CLEANUP = ''cleanup''"

definition preset_of :: "string \<Rightarrow> message_preset option" where
  "preset_of s = (if s = ''continue'' then Some CONTINUE else if s = ''cleanup'' then Some CLEANUP else None)"

record session_settings =
  st_warning :: int
  st_restart :: int
  st_preset :: message_preset
  st_auto_restart :: bool

record activation_request =
  ar_session :: string
  ar_transcript :: path
  ar_settings :: session_settings
  ar_observe_only :: bool
  ar_permission :: "string option"
  ar_now :: time
  ar_aware :: bool
  ar_goal_companion :: bool

record activation_result =
  ax_warning :: bool
  ax_auto_restart :: bool
  ax_reason :: string
  ax_stop_continuation :: bool

record setup_env =
  su_manager :: manager_env
  su_lease :: lease_env
  su_pid :: int
  su_exists :: bool
  su_private :: "exn + unit"
  su_local :: "path \<Rightarrow> path option"
  su_resolve :: "path \<Rightarrow> path option"
  su_file :: "path \<Rightarrow> bool"
  su_text :: "path \<Rightarrow> string option"
  su_decode :: decoder

abbreviation su_home :: "setup_env \<Rightarrow> path" where
  "su_home S \<equiv> mg_home (su_manager S)"

abbreviation su_fs :: "setup_env \<Rightarrow> fs_env" where
  "su_fs S \<equiv> mg_fs (su_manager S)"

abbreviation su_lib :: "setup_env \<Rightarrow> pylib" where
  "su_lib S \<equiv> mg_lib (su_manager S)"

definition setup_runtime :: "setup_env \<Rightarrow> string \<Rightarrow> path" where
  "setup_runtime S sid = runtime_path (sha (su_lib S)) (su_home S) sid"

definition setup_cursor :: "setup_env \<Rightarrow> string \<Rightarrow> path" where
  "setup_cursor S sid = cursor_path (sha (su_lib S)) (su_home S) sid"

section \<open>Validation\<close>

definition checked_thresholds :: "int \<Rightarrow> int \<Rightarrow> exn + unit" where
  "checked_thresholds w c =
     (case validate_thresholds w c of
        Inl (ThresholdValueError a b) \<Rightarrow> Inl (ThresholdValueErr a b)
      | Inl (ThresholdOrderError a b) \<Rightarrow> Inl (ThresholdOrderErr a b)
      | Inr _ \<Rightarrow> Inr ())"

text \<open>
  \<open>_relative_transcript\<close>: paths of the model are absolute; the redirect check raises a \<open>StateError\<close>,
  which the handler does not catch.
\<close>

definition setup_transcript :: "setup_env \<Rightarrow> path \<Rightarrow> exn + string" where
  "setup_transcript S transcript =
     (if \<not> su_file S transcript then Inl (ActivationError ''transcript_path_invalid'')
      else case (su_resolve S (butlast (su_home S)), su_resolve S transcript) of
          (Some codex, Some resolved) \<Rightarrow>
            if \<not> prefix codex resolved then Inl (ActivationError ''transcript_path_outside_codex_home'')
            else ebind (ensure_existing_components_are_direct (su_fs S) codex resolved) (\<lambda>_.
              Inr (if resolved = codex then ''.'' else join_posix (drop (length codex) resolved)))
        | _ \<Rightarrow> Inl (ActivationError ''transcript_path_outside_codex_home''))"

definition validate_activation_request :: "setup_env \<Rightarrow> activation_request \<Rightarrow> exn + string" where
  "validate_activation_request S r =
     ebind (checked_thresholds (st_warning (ar_settings r)) (st_restart (ar_settings r))) (\<lambda>_.
     case su_local S (ar_transcript r) of
       None \<Rightarrow> Inl (ActivationError ''transcript_path_invalid'')
     | Some transcript \<Rightarrow>
         ebind (setup_transcript S transcript) (\<lambda>relative.
         case require_bound_rollout (su_decode S) (su_text S transcript) (ar_session r) of
           Inl (SessionIdentityError why) \<Rightarrow> Inl (ActivationError why)
         | Inl e \<Rightarrow> Inl e
         | Inr _ \<Rightarrow> Inr relative))"

section \<open>Enabling\<close>

definition OBSERVE_ONLY_REASONS :: "string list" where
  "OBSERVE_ONLY_REASONS =
     [''same_live_server_attach_unavailable'', ''auto_restart_controls_unavailable'', ''ready'']"

definition capability_gate :: "activation_request \<Rightarrow> capability_report \<Rightarrow> exn + unit" where
  "capability_gate r c =
     (if ar_observe_only r
      then require (cr_reason c \<in> set OBSERVE_ONLY_REASONS) (ActivationError (cr_reason c))
      else require (cr_stop_continuation c \<or> cr_auto_restart c) (ActivationError (cr_reason c)))"

definition effective_restart :: "activation_request \<Rightarrow> capability_report \<Rightarrow> bool" where
  "effective_restart r c \<longleftrightarrow>
     st_auto_restart (ar_settings r) \<and> cr_auto_restart c \<and> \<not> ar_observe_only r"

definition utc_text :: "setup_env \<Rightarrow> activation_request \<Rightarrow> exn + string" where
  "utc_text S r = (if \<not> ar_aware r then Inl (ActivationError ''timezone_missing'')
     else Inr (zulu (toiso (su_lib S) (ar_now r))))"

definition config_values :: "activation_request \<Rightarrow> capability_report \<Rightarrow> string \<Rightarrow> dict" where
  "config_values r c timestamp =
     [(''warning_after_ms'', JInt (st_warning (ar_settings r))),
      (''restart_after_ms'', JInt (st_restart (ar_settings r))),
      (''auto_restart_requested_by_user'', JBool (st_auto_restart (ar_settings r))),
      (''message_preset'', JStr (preset_value (st_preset (ar_settings r)))),
      (''stale_ttl_ms'', JInt 604800000),
      (''capabilities'', JObj [(''warning_delivery_ready'', JBool (cr_warning c)),
         (''auto_restart_ready'', JBool (cr_auto_restart c)),
         (''evidence_fingerprint'', JStr (cr_fingerprint c)), (''reason_code'', JStr (cr_reason c))]),
      (''created_at'', JStr timestamp), (''updated_at'', JStr timestamp)]"

definition enabled_values :: "activation_request \<Rightarrow> capability_report \<Rightarrow> string \<Rightarrow> dict" where
  "enabled_values r c relative =
     [(''session_id'', JStr (ar_session r)), (''enabled'', JBool True),
      (''observe_only'', JBool (ar_observe_only r)), (''permission_mode'', opt_json (ar_permission r)),
      (''managed_mode'', JBool (effective_restart r c)),
      (''goal_companion'', JBool (ar_goal_companion r)), (''goal_identity_fingerprint'', JNull),
      (''warning_after_ms'', JInt (st_warning (ar_settings r))),
      (''restart_after_ms'', JInt (st_restart (ar_settings r))),
      (''auto_restart_requested_by_user'', JBool (st_auto_restart (ar_settings r))),
      (''message_preset'', JStr (preset_value (st_preset (ar_settings r)))),
      (''executable_sha256'', JStr (cr_fingerprint c)), (''manager_ready'', JBool False),
      (''manager_pid'', JNull), (''manager_error'', JNull), (''handoff_requested'', JBool False),
      (''managed_turn_id'', JNull), (''restart_request'', JNull), (''restart_claimed'', JBool False),
      (''restart_claimed_at'', JNull), (''restart_count'', JInt 0), (''turn_activity_epoch'', JInt 0),
      (''shutdown_requested'', JBool False), (''shutdown_interrupt'', JBool False),
      (''parent_turn_id'', JNull), (''parent_complete'', JBool False), (''parent'', JNull),
      (''revision'', JInt 0), (''completion_event_id'', JNull), (''transcript_path'', JStr relative),
      (''children'', JObj [])]"

definition prepare_parents :: "setup_env \<Rightarrow> path \<Rightarrow> exn + unit" where
  "prepare_parents S p = ensure_existing_components_are_direct (su_fs S) (su_home S) (butlast p)"

definition operation_path :: "setup_env \<Rightarrow> path" where
  "operation_path S = su_home S @ [''operation'']"

definition with_lock :: "setup_env \<Rightarrow> path \<Rightarrow> (exn, store, 'a) step \<Rightarrow> (exn, store, 'a) step" where
  "with_lock S p m st =
     (if lock_busy (su_fs S) (abspath p) then (Inl (StateLockTimeoutError p), st) else m st)"

text \<open>A removal that fails keeps the file.\<close>

definition unlink_step :: "path \<Rightarrow> (exn, store, unit) step" where
  "unlink_step p st = (case unlink (abspath p) st of Inl e \<Rightarrow> (Inl e, st) | Inr st' \<Rightarrow> (Inr (), st'))"

definition remove_uncommitted_runtime :: "setup_env \<Rightarrow> path \<Rightarrow> (exn, store, unit) step" where
  "remove_uncommitted_runtime S p st =
     (case ensure_direct_regular_file (su_fs S) st (su_home S) p of
        Inl e \<Rightarrow> (Inl e, st)
      | Inr _ \<Rightarrow> with_lock S p (\<lambda>st.
          case ensure_direct_regular_file (su_fs S) st (su_home S) p of
            Inl e \<Rightarrow> (Inl e, st)
          | Inr _ \<Rightarrow> unlink_step p st) st)"

definition save_session ::
  "setup_env \<Rightarrow> path \<Rightarrow> dict \<Rightarrow> dict \<Rightarrow> (exn, store, unit) step" where
  "save_session S p runtime config st =
     (case save_state (su_fs S) (su_home S) p runtime SCHEMA_VERSION st of
        Inl e \<Rightarrow> (Inl e, st)
      | Inr st1 \<Rightarrow>
          (case save_state (su_fs S) (su_home S) (config_path (su_home S)) config SCHEMA_VERSION st1 of
             Inr st2 \<Rightarrow> (Inr (), st2)
           | Inl e \<Rightarrow>
               if os_error e \<or> state_error e then
                 (case remove_uncommitted_runtime S p st1 of
                    (Inl e', st2) \<Rightarrow> (Inl e', st2)
                  | (Inr _, st2) \<Rightarrow> (Inl e, st2))
               else (Inl e, st1)))"

text \<open>The body of \<open>enable_session\<close> after the checks; the lease is only queried.\<close>

definition commit_session ::
  "setup_env \<Rightarrow> lease_disk \<Rightarrow> path \<Rightarrow> dict \<Rightarrow> dict \<Rightarrow> (exn, store, unit) step" where
  "commit_session S leases p runtime config =
     with_lock S (operation_path S) (\<lambda>st.
       case ensure_direct_regular_file (su_fs S) st (su_home S) p of
         Inl e \<Rightarrow> (Inl e, st)
       | Inr _ \<Rightarrow>
           if st (abspath p) \<noteq> None then (Inl (ActivationError ''session_already_enabled''), st)
           else (case fst (manager_lease_owner (su_lease S) (su_pid S) (last p) leases) of
               Inl e \<Rightarrow> (Inl e, st)
             | Inr (Some _) \<Rightarrow> (Inl (ActivationError ''session_manager_still_running''), st)
             | Inr None \<Rightarrow> save_session S p runtime config st))"

definition enforce_goal_companion_policy :: "bool \<Rightarrow> exn + unit" where
  "enforce_goal_companion_policy requested =
     require (\<not> requested) (GoalControlError ''goal_companion_atomic_update_unavailable'')"

definition enable_session ::
  "setup_env \<Rightarrow> lease_disk \<Rightarrow> activation_request \<Rightarrow> capability_report \<Rightarrow>
   (exn, store, activation_result) step" where
  "enable_session S leases r c =
     sbind (slift (enforce_goal_companion_policy (ar_goal_companion r))) (\<lambda>_.
     sbind (slift (validate_activation_request S r)) (\<lambda>relative.
     sbind (slift (capability_gate r c)) (\<lambda>_.
     sbind (slift (utc_text S r)) (\<lambda>timestamp.
     sbind (slift (su_private S)) (\<lambda>_.
     sbind (slift (prepare_parents S (operation_path S))) (\<lambda>_.
     sbind (commit_session S leases (setup_runtime S (ar_session r)) (enabled_values r c relative)
       (config_values r c timestamp)) (\<lambda>_.
     sret \<lparr>ax_warning = (cr_warning c \<and> \<not> ar_observe_only r),
           ax_auto_restart = effective_restart r c, ax_reason = cr_reason c,
           ax_stop_continuation = (cr_stop_continuation c \<and> \<not> ar_observe_only r \<and>
             \<not> effective_restart r c)\<rparr>)))))))"

section \<open>Disabling and completing\<close>

definition blank :: "string \<Rightarrow> bool" where
  "blank s \<longleftrightarrow> strip_set py_space s = []"

definition disable_session :: "setup_env \<Rightarrow> string \<Rightarrow> (exn, store, unit) step" where
  "disable_session S sid st =
     (if blank sid then (Inl (ActivationError ''session_id_missing''), st)
      else if \<not> su_exists S then (Inr (), st)
      else
        sbind (slift (su_private S)) (\<lambda>_.
        sbind (slift (prepare_parents S (operation_path S))) (\<lambda>_.
        with_lock S (operation_path S) (\<lambda>st.
          if st (abspath (setup_runtime S sid)) = None then unlink_step (setup_cursor S sid) st
          else with_lock S (setup_runtime S sid) (sbind (unlink_step (setup_runtime S sid)) (\<lambda>_.
            unlink_step (setup_cursor S sid))) st))) st)"

definition completed_event :: "setup_env \<Rightarrow> string \<Rightarrow> time \<Rightarrow> diagnostic_event" where
  "completed_event S sid now =
     \<lparr>dg_occurred_at = now, dg_code = WATCHER_COMPLETED, dg_state = COMPLETED,
      session_hash = sha (su_lib S) sid, child_hash = None, dg_elapsed_ms = None,
      dg_event_id = Some (sha (su_lib S) (''work_completed'' @ [CHR 0x00] @ sid))\<rparr>"

definition complete_session ::
  "setup_env \<Rightarrow> string \<Rightarrow> time \<Rightarrow> bool \<Rightarrow> (exn, manager_disk, unit) step" where
  "complete_session S sid now aware = (\<lambda>(st, lg).
     if blank sid then (Inl (ActivationError ''session_id_missing''), (st, lg))
     else if \<not> is_file st (abspath (setup_runtime S sid)) then (Inr (), (st, lg))
     else if \<not> aware then (Inl (ActivationError ''timezone_missing''), (st, lg))
     else case su_private S of
         Inl e \<Rightarrow> (Inl e, (st, lg))
       | Inr _ \<Rightarrow>
           (case append_diagnostic (su_manager S) (completed_event S sid now) lg of
              Inl e \<Rightarrow> (Inl e, (st, lg))
            | Inr lg' \<Rightarrow> (case disable_session S sid st of (r, st') \<Rightarrow> (r, (st', lg')))))"

definition request_verified_completion ::
  "setup_env \<Rightarrow> string \<Rightarrow> time \<Rightarrow> bool \<Rightarrow> (exn, manager_disk, bool) step" where
  "request_verified_completion S sid now aware = (\<lambda>(st, lg).
     case defer_session_shutdown (su_manager S) sid False st of
       (Inl e, st') \<Rightarrow> (Inl e, (st', lg))
     | (Inr True, st') \<Rightarrow> (Inr True, (st', lg))
     | (Inr False, st') \<Rightarrow>
         (case complete_session S sid now aware (st', lg) of
            (Inl e, w) \<Rightarrow> (Inl e, w) | (Inr _, w) \<Rightarrow> (Inr False, w)))"

definition request_session_shutdown ::
  "setup_env \<Rightarrow> string \<Rightarrow> bool \<Rightarrow> (exn, store, unit) step" where
  "request_session_shutdown S sid interrupt_active st =
     (case defer_session_shutdown (su_manager S) sid interrupt_active st of
        (Inl e, st') \<Rightarrow> (Inl e, st')
      | (Inr True, st') \<Rightarrow> (Inr (), st')
      | (Inr False, st') \<Rightarrow> disable_session S sid st')"

section \<open>Reuse and recovery of a managed session\<close>

definition lifecycle_matches :: "dict \<Rightarrow> manager_runtime \<Rightarrow> bool" where
  "lifecycle_matches values m \<longleftrightarrow>
     dget values ''enabled'' = JBool True \<and> dget values ''managed_mode'' = JBool True \<and>
     dget values ''manager_ready'' = JBool True \<and>
     py_eq (dget values ''manager_pid'') (case mr_pid m of None \<Rightarrow> JNull | Some i \<Rightarrow> JInt i) \<and>
     dget values ''shutdown_requested'' = JBool False \<and> dget values ''manager_error'' = JNull"

text \<open>The settings part shared by \<open>_configuration_matches\<close> and \<open>require_matching_activation\<close>.\<close>

definition settings_match :: "dict \<Rightarrow> activation_request \<Rightarrow> bool" where
  "settings_match values r \<longleftrightarrow>
     py_eq (dget values ''warning_after_ms'') (JInt (st_warning (ar_settings r))) \<and>
     py_eq (dget values ''restart_after_ms'') (JInt (st_restart (ar_settings r))) \<and>
     dget values ''message_preset'' = JStr (preset_value (st_preset (ar_settings r))) \<and>
     dget values ''auto_restart_requested_by_user'' = JBool (st_auto_restart (ar_settings r)) \<and>
     dget values ''observe_only'' = JBool (ar_observe_only r) \<and>
     dget values ''permission_mode'' = opt_json (ar_permission r) \<and>
     dget values ''goal_companion'' = JBool (ar_goal_companion r)"

definition inspect_values ::
  "setup_env \<Rightarrow> lease_disk \<Rightarrow> store \<Rightarrow> path \<Rightarrow> activation_request \<Rightarrow> path \<Rightarrow> dict \<Rightarrow> exn + bool \<times> dict" where
  "inspect_values S leases st p r expected values =
     ebind (fst (active_manager (su_lease S) (su_manager S) (su_pid S) (last p) (leases, st))) (\<lambda>m.
     case m of
       None \<Rightarrow> Inr (False, values)
     | Some rt \<Rightarrow>
         if \<not> lifecycle_matches values rt then Inr (False, values)
         else if \<not> (mr_rollout rt = expected \<and> settings_match values r)
         then Inl (ActivationError ''managed_reconfiguration_requires_work_off'')
         else Inr (True, values))"

definition resolved :: "setup_env \<Rightarrow> path \<Rightarrow> exn + path" where
  "resolved S p = (case su_resolve S p of None \<Rightarrow> Inl OSErr | Some q \<Rightarrow> Inr q)"

definition reuse_ready_manager ::
  "setup_env \<Rightarrow> lease_disk \<Rightarrow> path \<Rightarrow> activation_request \<Rightarrow> (exn, store, bool) step" where
  "reuse_ready_manager S leases p r =
     sbind (slift (su_private S)) (\<lambda>_.
     sbind (slift (validate_activation_request S r)) (\<lambda>relative.
     sbind (slift (resolved S (butlast (su_home S) @ posix_parts relative))) (\<lambda>expected st.
     is_true (manager_update (su_manager S) p (inspect_values S leases st p r expected) st))))"

definition require_matching_activation ::
  "setup_env \<Rightarrow> path \<Rightarrow> activation_request \<Rightarrow> store \<Rightarrow> exn + unit" where
  "require_matching_activation S p r st =
     ebind (load_state (su_fs S) (su_home S) p st) (\<lambda>values.
     ebind (load_manager_runtime (su_manager S) (last p) st) (\<lambda>rt.
     ebind (case rt of None \<Rightarrow> Inr True
            | Some m \<Rightarrow> ebind (resolved S (ar_transcript r)) (\<lambda>q. Inr (mr_rollout m = q))) (\<lambda>rollout_matches.
     require (rollout_matches \<and> dget values ''session_id'' = JStr (ar_session r) \<and>
         settings_match values r)
       (DaemonServiceError ''managed_reconfiguration_requires_work_off''))))"

definition require_recoverable_activation ::
  "setup_env \<Rightarrow> lease_disk \<Rightarrow> path \<Rightarrow> activation_request \<Rightarrow> store \<Rightarrow> exn + unit" where
  "require_recoverable_activation S leases p r st =
     ebind (require_matching_activation S p r st) (\<lambda>_.
     ebind (fst (manager_lease_owner (su_lease S) (su_pid S) (last p) leases)) (\<lambda>owner.
     if owner \<noteq> None then Inl (DaemonServiceError ''session_manager_still_running'')
     else
       ebind (load_manager_runtime (su_manager S) (last p) st) (\<lambda>rt.
       case rt of
         Some m \<Rightarrow> (case mr_error m of Some why \<Rightarrow> Inl (DaemonServiceError why) | None \<Rightarrow> Inr ())
       | None \<Rightarrow> Inr ())))"

definition validate_daemon_start :: "activation_request \<Rightarrow> exn + unit" where
  "validate_daemon_start r =
     (let managed = st_auto_restart (ar_settings r) \<and> \<not> ar_observe_only r
      in if \<not> managed \<and> \<not> ar_observe_only r
         then Inl (DaemonServiceError ''daemon_requires_auto_restart_or_observe_only'')
         else if managed \<and> ar_permission r \<notin> {Some ''dontAsk'', Some ''bypassPermissions''}
         then Inl (DaemonServiceError ''managed_mode_requires_approval_free_permission'')
         else Inr ())"

section \<open>The command line\<close>

record cli_args =
  ca_session :: string
  ca_transcript :: "path option"
  ca_warning :: "string option"
  ca_restart :: "string option"
  ca_preset :: "string option"
  ca_auto_restart :: bool
  ca_goal_companion :: bool
  ca_observe_only :: bool
  ca_completed :: bool
  ca_permission :: "string option"

text \<open>
  Outside the program: the fingerprint of the resolved executable, the start of the watcher process,
  the start of the manager process, the rounds of the launcher's wait and what the manager did to the
  documents meanwhile.
\<close>

record cli_env =
  ce_setup :: setup_env
  ce_executable :: "exn + string"
  ce_watcher :: "exn + unit"
  ce_spawn :: "exn + int"
  ce_rounds :: "launch_round list"
  ce_meanwhile :: "store \<Rightarrow> store"
  ce_now :: time

datatype cli_outcome =
  ManagerReused | ObserveOnlyEnabled | SessionEnabled activation_result
| CompletionRequested | CompletionRecorded | SessionDisabled

definition duration_arg :: "string \<Rightarrow> exn + int" where
  "duration_arg s = (case parse_duration_ms s of Inl _ \<Rightarrow> Inl (DurationParseErr s) | Inr ms \<Rightarrow> Inr ms)"

definition settings_from_state :: "setup_env \<Rightarrow> store \<Rightarrow> exn + session_settings" where
  "settings_from_state S st =
     (let p = config_path (su_home S)
      in if st (abspath p) = None then Inl (ActivationError ''configuration_missing'')
         else
           ebind (load_state (su_fs S) (su_home S) p st) (\<lambda>values.
           case (dget values ''warning_after_ms'', dget values ''restart_after_ms'',
                 dget values ''message_preset'', dget values ''auto_restart_requested_by_user'') of
             (JInt w, JInt c, JStr preset, JBool auto_restart) \<Rightarrow>
               (case preset_of preset of
                  None \<Rightarrow> Inl (ActivationError ''configuration_invalid'')
                | Some m \<Rightarrow> Inr \<lparr>st_warning = w, st_restart = c, st_preset = m,
                    st_auto_restart = auto_restart\<rparr>)
           | _ \<Rightarrow> Inl (ActivationError ''configuration_invalid'')))"

definition settings_from_args :: "setup_env \<Rightarrow> cli_args \<Rightarrow> store \<Rightarrow> exn + session_settings" where
  "settings_from_args S a st =
     (case (ca_warning a, ca_restart a, ca_preset a) of
        (None, None, None) \<Rightarrow> settings_from_state S st
      | (Some w, Some c, Some m) \<Rightarrow>
          ebind (duration_arg w) (\<lambda>w'.
          ebind (duration_arg c) (\<lambda>c'.
          case preset_of m of
            None \<Rightarrow> Inl (ValueErr m)
          | Some m' \<Rightarrow> Inr \<lparr>st_warning = w', st_restart = c', st_preset = m',
              st_auto_restart = ca_auto_restart a\<rparr>))
      | _ \<Rightarrow> Inl (ActivationError ''warning_restart_message_preset_required_together''))"

definition cli_capabilities :: "cli_env \<Rightarrow> string \<Rightarrow> session_settings \<Rightarrow> cli_args \<Rightarrow> exn + capability_report" where
  "cli_capabilities C platform s a =
     (if \<not> st_auto_restart s \<or> ca_observe_only a
      then Inr (current_capabilities (sha (su_lib (ce_setup C))) platform ''unavailable'' ''unavailable''
        ''unavailable'')
      else if ca_permission a \<notin> {Some ''dontAsk'', Some ''bypassPermissions''}
      then Inl (ActivationError ''managed_mode_requires_approval_free_permission'')
      else ebind (ce_executable C) (\<lambda>fingerprint.
        Inr (mk_report False True ''managed_owner_ready'' fingerprint False)))"

definition launch_or_rollback ::
  "cli_env \<Rightarrow> string \<Rightarrow> (exn, store, unit) step" where
  "launch_or_rollback C sid st =
     (case ce_watcher C of
        Inr _ \<Rightarrow> (Inr (), st)
      | Inl e \<Rightarrow>
          if os_error e then
            (case disable_session (ce_setup C) sid st of
               (Inl e', st') \<Rightarrow> (Inl e', st')
             | (Inr _, st') \<Rightarrow> (Inl (ActivationError ''watcher_process_start_failed''), st'))
          else (Inl e, st))"

definition launch_manager :: "cli_env \<Rightarrow> path \<Rightarrow> (exn, store, int) step" where
  "launch_manager C p st =
     (let S = ce_setup C
      in case ce_spawn C of
         Inl e \<Rightarrow> (Inl (if os_error e then ManagerLaunchError ''manager_process_start_failed'' else e), st)
       | Inr pid \<Rightarrow>
           let st1 = ce_meanwhile C st
           in case wait_until_ready (su_lease S) (su_manager S) (su_pid S) (last p) pid (ce_rounds C) of
              Inr r \<Rightarrow> (Inr r, st1)
            | Inl e \<Rightarrow>
                if e = ManagerLaunchError ''manager_ready_timeout'' then
                  (case request_manager_startup_cancel (su_manager S) p st1 of
                     (Inl e', st2) \<Rightarrow> (Inl e', st2) | (Inr _, st2) \<Rightarrow> (Inl e, st2))
                else (Inl e, st1))"

fun launch_failure :: "exn \<Rightarrow> bool" where
  "launch_failure (ManagerLaunchError _) = True"
| "launch_failure e = (os_error e \<or> state_error e)"

definition start_owner :: "cli_env \<Rightarrow> cli_args \<Rightarrow> path \<Rightarrow> activation_result \<Rightarrow> (exn, store, cli_outcome) step" where
  "start_owner C a p x st =
     (if ca_observe_only a
      then sbind (launch_or_rollback C (ca_session a)) (\<lambda>_. sret ObserveOnlyEnabled) st
      else if ax_auto_restart x then
        (case launch_manager C p st of
           (Inr _, st') \<Rightarrow> (Inr (SessionEnabled x), st')
         | (Inl e, st') \<Rightarrow>
             if launch_failure e then
               (case disable_session (ce_setup C) (ca_session a) st' of
                  (Inl e', st'') \<Rightarrow> (Inl e', st'') | (Inr _, st'') \<Rightarrow> (Inl e, st''))
             else (Inl e, st'))
      else sbind (launch_or_rollback C (ca_session a)) (\<lambda>_. sret (SessionEnabled x)) st)"

definition cli_enable ::
  "cli_env \<Rightarrow> string \<Rightarrow> lease_disk \<Rightarrow> cli_args \<Rightarrow> (exn, store, cli_outcome) step" where
  "cli_enable C platform leases a =
     (let S = ce_setup C; p = setup_runtime S (ca_session a)
      in sbind (slift (enforce_goal_companion_policy (ca_goal_companion a))) (\<lambda>_.
         sbind (slift (case ca_transcript a of
             None \<Rightarrow> Inl (ActivationError ''transcript_path_missing'') | Some t \<Rightarrow> Inr t)) (\<lambda>transcript.
         sbind (\<lambda>st. (settings_from_args S a st, st)) (\<lambda>settings.
         sbind (slift (cli_capabilities C platform settings a)) (\<lambda>report.
         let r = \<lparr>ar_session = ca_session a, ar_transcript = transcript, ar_settings = settings,
               ar_observe_only = ca_observe_only a, ar_permission = ca_permission a, ar_now = ce_now C,
               ar_aware = True, ar_goal_companion = ca_goal_companion a\<rparr>
         in sbind (reuse_ready_manager S leases p r) (\<lambda>reused.
            if reused then sret ManagerReused
            else sbind (enable_session S leases r report) (start_owner C a p)))))))"

definition cli_disable :: "cli_env \<Rightarrow> cli_args \<Rightarrow> (exn, manager_disk, cli_outcome) step" where
  "cli_disable C a =
     (if ca_completed a
      then sbind (request_verified_completion (ce_setup C) (ca_session a) (ce_now C) True) (\<lambda>deferred.
        sret (if deferred then CompletionRequested else CompletionRecorded))
      else (\<lambda>(st, lg). case request_session_shutdown (ce_setup C) (ca_session a) True st of
          (Inl e, st') \<Rightarrow> (Inl e, (st', lg))
        | (Inr _, st') \<Rightarrow> (Inr SessionDisabled, (st', lg))))"

text \<open>\<open>main\<close> turns the listed exceptions into exit code 2; the others leave the program.\<close>

fun cli_handled :: "exn \<Rightarrow> bool" where
  "cli_handled (ActivationError _) = True"
| "cli_handled (CodexExecutableError _) = True"
| "cli_handled (DurationParseErr _) = True"
| "cli_handled (GoalControlError _) = True"
| "cli_handled (ManagerLaunchError _) = True"
| "cli_handled (ThresholdOrderErr _ _) = True"
| "cli_handled e = state_error e"

definition cli_main :: "(exn + cli_outcome) \<Rightarrow> exn + int" where
  "cli_main result = (case result of Inr _ \<Rightarrow> Inr 0 | Inl e \<Rightarrow> if cli_handled e then Inr 2 else Inl e)"

section \<open>Lemmas\<close>

lemma saved_state:
  assumes "save_state env home p values v st = Inr st'"
  shows "st' = atomic_json_write (abspath p) v values st" and "\<not> lock_busy env (abspath p)"
    and "\<exists>r. safe_absolute_path env home p = Inr (r, abspath p)"
  using assms by (auto simp: save_state_def err_simps safe_absolute_path_Inr split: if_splits)

lemma direct_after_write:
  assumes "save_state env home p values v st = Inr st'"
  shows "ensure_direct_regular_file env st' home p = Inr ()"
  using saved_state [OF assms]
  by (auto simp: ensure_direct_regular_file_def atomic_json_write_def)

lemma remove_uncommitted:
  assumes "save_state (su_fs S) (su_home S) p runtime v st = Inr st1" and "st (abspath p) = None"
  shows "remove_uncommitted_runtime S p st1 = (Inr (), st)"
proof -
  note saved = saved_state [OF assms(1)]
  have "unlink_step p st1 = (Inr (), st)"
    using assms(2) unfolding saved(1) by (simp add: unlink_step_def unlink_def atomic_json_write_def fun_upd_idem)
  then show ?thesis
    using saved(2) direct_after_write [OF assms(1)] by (simp add: remove_uncommitted_runtime_def with_lock_def)
qed

lemma save_session_Inl:
  assumes "save_session S p runtime config st = (Inl e, st')" and "st (abspath p) = None"
  shows "st' = st"
proof (cases "save_state (su_fs S) (su_home S) p runtime SCHEMA_VERSION st")
  case (Inr st1)
  with assms remove_uncommitted [OF Inr assms(2)] show ?thesis
    by (auto simp: save_session_def split: sum.splits if_splits dest: save_state_errors)
qed (use assms in \<open>simp add: save_session_def\<close>)

lemma commit_session_Inl:
  "commit_session S leases p runtime config st = (Inl e, st') \<Longrightarrow> st' = st"
  using save_session_Inl [of S p runtime config st]
  by (auto simp: commit_session_def with_lock_def split: if_splits sum.splits option.splits)

lemma commit_session_Inr:
  assumes "commit_session S leases p runtime config st = (Inr u, st')"
  shows "st (abspath p) = None" and "fst (manager_lease_owner (su_lease S) (su_pid S) (last p) leases) = Inr None"
    and "\<exists>st1. save_state (su_fs S) (su_home S) p runtime SCHEMA_VERSION st = Inr st1 \<and>
      save_state (su_fs S) (su_home S) (config_path (su_home S)) config SCHEMA_VERSION st1 = Inr st'"
  using assms
  by (auto simp: commit_session_def with_lock_def save_session_def split: if_splits sum.splits option.splits prod.splits)

lemma enable_session_Inr:
  assumes "enable_session S leases r c st = (Inr x, st')"
  shows "\<exists>relative timestamp. validate_activation_request S r = Inr relative \<and> utc_text S r = Inr timestamp \<and>
    capability_gate r c = Inr () \<and> \<not> ar_goal_companion r \<and>
    commit_session S leases (setup_runtime S (ar_session r)) (enabled_values r c relative)
      (config_values r c timestamp) st = (Inr (), st') \<and> ax_auto_restart x = effective_restart r c"
  using assms
  by (auto simp: enable_session_def sbind_def slift_def sret_def enforce_goal_companion_policy_def require_def
      split: sum.splits prod.splits if_splits)

lemma load_state_local: "st (abspath p) = st' (abspath p) \<Longrightarrow> load_state env home p st = load_state env home p st'"
proof (cases "safe_absolute_path env home p")
  case (Inr ra)
  assume eq: "st (abspath p) = st' (abspath p)"
  obtain r a where ra: "safe_absolute_path env home p = Inr (r, a)" using Inr by (cases ra) auto
  moreover have "a = abspath p" using ra by (simp add: safe_absolute_path_Inr)
  moreover note safe_absolute_path_again [OF ra]
  ultimately show ?thesis using eq by (simp add: load_state_def ensure_direct_regular_file_def)
qed (simp add: load_state_def)

lemma setup_paths_differ:
  "abspath (setup_runtime S sid) \<noteq> abspath (config_path (su_home S))"
  "abspath (setup_cursor S sid) \<noteq> abspath (config_path (su_home S))"
  "abspath (setup_runtime S sid) \<noteq> abspath (setup_cursor S sid)"
proof -
  have "abspath (h @ [''runtime'', f]) \<noteq> abspath (h @ [''config.json''])"
    "abspath (h @ [''cursors'', f]) \<noteq> abspath (h @ [''config.json''])"
    if "f \<notin> {'''', ''.'', ''..''}" for h f
    using that by (auto simp: abspath_def abspath_onto_append)
  then show "abspath (setup_runtime S sid) \<noteq> abspath (config_path (su_home S))"
    "abspath (setup_cursor S sid) \<noteq> abspath (config_path (su_home S))"
    using session_file_component
    by (simp_all add: setup_runtime_def setup_cursor_def runtime_path_def cursor_path_def config_path_def)
  show "abspath (setup_runtime S sid) \<noteq> abspath (setup_cursor S sid)"
    unfolding setup_runtime_def setup_cursor_def by (rule runtime_cursor_differ)
qed

text \<open>What a successful activation leaves on the disk.\<close>

lemma enabled_documents:
  assumes "enable_session S leases r c st = (Inr x, st')"
  shows "\<exists>relative timestamp.
    st' = atomic_json_write (abspath (config_path (su_home S))) SCHEMA_VERSION (config_values r c timestamp)
      (atomic_json_write (abspath (setup_runtime S (ar_session r))) SCHEMA_VERSION
        (enabled_values r c relative) st) \<and>
    (\<exists>d. load_state (su_fs S) (su_home S) (setup_runtime S (ar_session r)) st' = Inr d \<and>
      (\<forall>k. map_of d k = map_option jsort (map_of (enabled_values r c relative) k)))"
proof -
  let ?p = "setup_runtime S (ar_session r)" and ?q = "config_path (su_home S)"
  from enable_session_Inr [OF assms] obtain relative timestamp where
    "commit_session S leases ?p (enabled_values r c relative) (config_values r c timestamp) st = (Inr (), st')"
    by blast
  from commit_session_Inr(3) [OF this] obtain st1 where
    s: "save_state (su_fs S) (su_home S) ?p (enabled_values r c relative) SCHEMA_VERSION st = Inr st1"
      "save_state (su_fs S) (su_home S) ?q (config_values r c timestamp) SCHEMA_VERSION st1 = Inr st'"
    by blast
  have "wf_json (JObj (enabled_values r c relative))"
    by (simp add: enabled_values_def ddistinct_def opt_json_def split: option.split)
  from save_then_load [OF s(1) this] obtain d where
    d: "load_state (su_fs S) (su_home S) ?p st1 = Inr d"
      "\<forall>k. map_of d k = map_option jsort (map_of (enabled_values r c relative) k)" by blast
  moreover have "load_state (su_fs S) (su_home S) ?p st' = load_state (su_fs S) (su_home S) ?p st1"
    using save_state_writes [OF s(2)] setup_paths_differ(1) by (intro load_state_local) simp
  ultimately show ?thesis using saved_state(1) [OF s(1)] saved_state(1) [OF s(2)] by auto
qed

lemma unmanaged_stops:
  assumes "dget vals ''managed_mode'' = JBool False" and "manager_runtime_from_values E p vals = Inr rt"
  shows "md_action (decide_manager_action (mr_view rt) active) = ACT_STOP"
proof -
  have "\<not> mv_enabled (mr_view rt)"
    using assms by (auto simp: manager_runtime_from_values_def err_simps get_boolean_def split: if_splits)
  then show ?thesis by (simp add: decide_manager_action_def decision_def)
qed

lemma disable_session_Inr:
  assumes "disable_session S sid st = (Inr u, st')" and "su_exists S"
  shows "st' = st(abspath (setup_runtime S sid) := None, abspath (setup_cursor S sid) := None)"
  using assms
  by (auto simp: disable_session_def with_lock_def unlink_step_def unlink_def sbind_def slift_def
      fun_upd_idem split: if_splits sum.splits)

section \<open>Properties\<close>


text \<open>
  Without evidence nothing is controlled: a session enabled under the capabilities the program
  can prove of its surroundings is not managed; every manager that loads its document decides to
  stop, whatever the app server reports, and can record nothing in it.
\<close>

theorem unproven_session_is_unmanaged:
  assumes "enable_session S leases r (current_capabilities H platform version desktop_build schema) st = (Inr x, st')"
  shows "\<not> ax_auto_restart x \<and>
    (\<exists>vals. load_state (su_fs S) (su_home S) (setup_runtime S (ar_session r)) st' = Inr vals \<and>
       dget vals ''managed_mode'' = JBool False \<and>
       require_managed p vals = Inl (ManagerRuntimeError ''managed_mode_not_enabled'') \<and>
       (\<forall>E rt active. manager_runtime_from_values E p vals = Inr rt \<longrightarrow>
          md_action (decide_manager_action (mr_view rt) active) = ACT_STOP))"
proof -
  let ?c = "current_capabilities H platform version desktop_build schema"
  have c: "\<not> cr_auto_restart ?c"
    by (simp add: current_capabilities_def evaluate_capabilities_def mk_report_def Let_def)
  then have x: "\<not> ax_auto_restart x"
    using enable_session_Inr [OF assms] by (auto simp: effective_restart_def)
  from enabled_documents [OF assms] obtain relative d where
    d: "load_state (su_fs S) (su_home S) (setup_runtime S (ar_session r)) st' = Inr d"
      "\<forall>k. map_of d k = map_option jsort (map_of (enabled_values r ?c relative) k)" by blast
  have m: "dget d ''managed_mode'' = JBool False" "dget d ''enabled'' = JBool True"
    "dget d ''manager_ready'' = JBool False"
    using d(2) c by (simp_all add: dget_def enabled_values_def effective_restart_def)
  then have "require_managed p d = Inl (ManagerRuntimeError ''managed_mode_not_enabled'')"
    by (simp add: require_managed_def get_boolean_def)
  with x d(1) m(1) unmanaged_stops show ?thesis by blast
qed


section \<open>A concrete activation\<close>

definition ex_uuid :: string where
  "ex_uuid = ''00000000-0000-0000-0000-000000000000''"

definition ex_setup :: setup_env where
  "ex_setup = \<lparr>su_manager = ex_manager_env\<lparr>mg_lib := ex_lib\<lparr>sha := (\<lambda>_. replicate 64 (CHR ''a''))\<rparr>\<rparr>,
     su_lease = ex_leases, su_pid = 1, su_exists = True, su_private = Inr (), su_local = Some,
     su_resolve = Some, su_file = (\<lambda>_. True), su_text = (\<lambda>_. Some ''x''),
     su_decode = (\<lambda>_. Some (JObj [(''type'', JStr ''session_meta''),
       (''payload'', JObj [(''id'', JStr ex_uuid)])]))\<rparr>"

definition ex_no_leases :: lease_disk where
  "ex_no_leases = \<lparr>ld_directory = False, ld_files = (\<lambda>_. \<lparr>lf_holder = None, lf_lock_file = False,
     lf_marker = None\<rparr>)\<rparr>"

definition ex_activation :: activation_request where
  "ex_activation = \<lparr>ar_session = ex_uuid, ar_transcript = [''h'', ''t.jsonl''],
     ar_settings = \<lparr>st_warning = 300000, st_restart = 600000, st_preset = CONTINUE, st_auto_restart = True\<rparr>,
     ar_observe_only = False, ar_permission = None, ar_now = 3, ar_aware = True,
     ar_goal_companion = False\<rparr>"

definition ex_report :: capability_report where
  "ex_report = current_capabilities (\<lambda>_. ''f'') ''linux|cpython'' ''1'' ''b'' ''s''"

lemma ex_uuid_shape: "uuid_shape ex_uuid"
  unfolding uuid_shape_def ex_uuid_def
  by (intro exI [of _ "''00000000''"] exI [of _ "''0000''"] exI [of _ "''000000000000''"])
    (simp add: lower_hex_def)

lemma ex_activation_valid: "validate_activation_request ex_setup ex_activation = Inr ''t.jsonl''"
proof -
  have d: "ensure_existing_components_are_direct ex_env h p = Inr ()" for h p
    by (rule no_redirects) (simp add: ex_env_def)
  have "canonical_uuid ex_uuid = Inr ex_uuid" using ex_uuid_shape by (simp add: canonical_uuid_Inr)
  then have "require_bound_rollout (su_decode ex_setup) (Some ''x'') ex_uuid = Inr ex_uuid"
    by (simp add: require_bound_rollout_def ex_setup_def MAX_METADATA_BYTES_def)
  then show ?thesis
    using d by (simp add: validate_activation_request_def ex_activation_def checked_thresholds_def
        validate_thresholds_def setup_transcript_def ex_setup_def ex_manager_env_def)
qed

lemma ex_setup_paths:
  "setup_runtime ex_setup ex_uuid = [''h'', ''p'', ''runtime'', ex_runtime_name]"
  "setup_cursor ex_setup ex_uuid = [''h'', ''p'', ''cursors'', ex_runtime_name]"
  "su_home ex_setup = [''h'', ''p'']" "su_fs ex_setup = ex_env" "su_lease ex_setup = ex_leases"
  by (simp_all add: setup_runtime_def setup_cursor_def runtime_path_def cursor_path_def
      session_filename_def ex_setup_def ex_manager_env_def ex_runtime_name_def)

lemma ex_save:
  assumes "p = [''h'', ''p''] @ q" and "q \<noteq> []" and "{'''', ''.'', ''..''} \<inter> set q = {}"
    and "st p = None" and "\<not> dhas vals ''schema_version''"
  shows "save_state ex_env [''h'', ''p''] p vals SCHEMA_VERSION st = Inr (atomic_json_write p SCHEMA_VERSION vals st)"
proof -
  have d: "ensure_existing_components_are_direct ex_env h p = Inr ()" for h p
    by (rule no_redirects) (simp add: ex_env_def)
  have "abspath p = p" using assms(1,3) unfolding abspath_def by (subst abspath_onto_id) auto
  then have "safe_absolute_path ex_env [''h'', ''p''] p = Inr ([''h'', ''p''], p)"
    using assms(1,2) d by (simp add: safe_absolute_path_Inr abspath_def strictly_below_def)
  then show ?thesis
    using d assms(4,5) by (simp add: save_state_def check_schema_def SCHEMA_VERSION_def ex_env_def)
qed

abbreviation ex_document :: path where
  "ex_document \<equiv> [''h'', ''p'', ''runtime'', ex_runtime_name]"

lemma ex_direct [simp]: "ensure_existing_components_are_direct ex_env h p = Inr ()"
  by (rule no_redirects) (simp add: ex_env_def)

lemma ex_unlocked [simp]: "with_lock ex_setup p m st = m st"
  by (simp add: with_lock_def ex_setup_paths ex_env_def)

lemma ex_no_owner: "fst (manager_lease_owner ex_leases 1 ex_runtime_name ex_no_leases) = Inr None"
  using ex_leases_ok lease_safe [OF ex_leases_ok(1)]
  by (simp add: manager_lease_owner_def sbind_def slift_def ex_no_leases_def)

lemma ex_document_direct: "ensure_direct_regular_file ex_env Map.empty [''h'', ''p''] ex_document = Inr ()"
  "abspath ex_document = ex_document"
proof -
  have "ex_runtime_name \<notin> {'''', ''.'', ''..''}" by (simp add: ex_runtime_name_def)
  then show "abspath ex_document = ex_document" unfolding abspath_def by (subst abspath_onto_id) auto
  then show "ensure_direct_regular_file ex_env Map.empty [''h'', ''p''] ex_document = Inr ()"
    by (simp add: ensure_direct_regular_file_def safe_absolute_path_def Let_def strictly_below_def)
      (simp add: abspath_def)
qed

lemma ex_setup_saved:
  "save_session ex_setup ex_document (enabled_values r c rel) (config_values r c t) Map.empty =
     (Inr (), atomic_json_write [''h'', ''p'', ''config.json''] SCHEMA_VERSION (config_values r c t)
       (atomic_json_write ex_document SCHEMA_VERSION (enabled_values r c rel) Map.empty))"
proof -
  have name: "ex_runtime_name \<notin> {'''', ''.'', ''..''}" by (simp add: ex_runtime_name_def)
  have "\<not> dhas (enabled_values r c rel) ''schema_version''" by (simp add: enabled_values_def)
  moreover have "\<not> dhas (config_values r c t) ''schema_version''" by (simp add: config_values_def)
  ultimately show ?thesis
    using name ex_save [of ex_document "[''runtime'', ex_runtime_name]" Map.empty "enabled_values r c rel"]
      ex_save [of "[''h'', ''p'', ''config.json'']" "[''config.json'']"
        "atomic_json_write ex_document SCHEMA_VERSION (enabled_values r c rel) Map.empty" "config_values r c t"]
    by (simp add: save_session_def ex_setup_paths(3,4) config_path_def atomic_json_write_def)
qed

lemma ex_committed:
  "\<exists>st'. commit_session ex_setup ex_no_leases ex_document (enabled_values r c rel) (config_values r c t)
     Map.empty = (Inr (), st')"
proof -
  have "su_pid ex_setup = 1" by (simp add: ex_setup_def)
  then show ?thesis
    using ex_no_owner ex_document_direct by (simp add: commit_session_def ex_setup_paths(3-5) ex_setup_saved)
qed

lemma ex_enabled: "\<exists>x st'. enable_session ex_setup ex_no_leases ex_activation ex_report Map.empty = (Inr x, st')"
proof -
  have "capability_gate ex_activation ex_report = Inr ()"
    by (simp add: capability_gate_def ex_activation_def ex_report_def current_capabilities_def
        evaluate_capabilities_def mk_report_def Let_def)
  moreover have "utc_text ex_setup ex_activation = Inr (zulu (toiso (su_lib ex_setup) 3))"
    by (simp add: utc_text_def ex_activation_def)
  moreover have "su_private ex_setup = Inr ()" "prepare_parents ex_setup (operation_path ex_setup) = Inr ()"
    "setup_runtime ex_setup (ar_session ex_activation) = ex_document" "\<not> ar_goal_companion ex_activation"
    by (simp_all add: prepare_parents_def ex_setup_paths) (simp_all add: ex_setup_def ex_activation_def ex_setup_paths(1) [unfolded ex_setup_def])
  moreover obtain st' where "commit_session ex_setup ex_no_leases ex_document
      (enabled_values ex_activation ex_report ''t.jsonl'')
      (config_values ex_activation ex_report (zulu (toiso (su_lib ex_setup) 3))) Map.empty = (Inr (), st')"
    using ex_committed by blast
  ultimately show ?thesis
    using ex_activation_valid
    by (simp add: enable_session_def enforce_goal_companion_policy_def sbind_def slift_def sret_def)
qed

theorem unproven_session_is_unmanaged_witness:
  "\<exists>st' vals. load_state ex_env [''h'', ''p''] [''h'', ''p'', ''runtime'', ex_runtime_name] st' = Inr vals \<and>
     dget vals ''managed_mode'' = JBool False"
proof -
  from ex_enabled obtain x st' where
    e: "enable_session ex_setup ex_no_leases ex_activation ex_report Map.empty = (Inr x, st')" by blast
  have "ar_session ex_activation = ex_uuid" by (simp add: ex_activation_def)
  with unproven_session_is_unmanaged [OF e [unfolded ex_report_def], of "[]"] show ?thesis
    unfolding ex_setup_paths by (auto simp: ex_setup_paths)
qed


end
