(* ===== verification/AppServerEvents.thy ===== *)
theory AppServerEvents
  imports StateStore
begin

text \<open>
  \<open>scripts/app_server_protocol.py\<close> and \<open>app_server_activity.py\<close>: the protocol state of one
  app-server connection (responses, active turns, outcomes, correlations) and the bounded stream of
  activity signals published from it. Dictionaries are association lists, deques are lists. Each
  operation takes the monotonic clock reading it makes. Threads, the condition variable and the
  pipes are not modelled: the operations are the bodies run under the stream's lock.
\<close>

section \<open>Messages\<close>

datatype turn_outcome =
  OUT_COMPLETED | OUT_INTERRUPTED | OUT_FAILED | OUT_IN_PROGRESS | OUT_INVALID

definition outcome_of :: "string \<Rightarrow> turn_outcome option" where
  "outcome_of s = map_of [(''completed'', OUT_COMPLETED), (''interrupted'', OUT_INTERRUPTED),
     (''failed'', OUT_FAILED), (''inProgress'', OUT_IN_PROGRESS), (''invalid'', OUT_INVALID)] s"

text \<open>\<open>_string\<close>: a non-empty string member.\<close>

definition text_field :: "dict \<Rightarrow> string \<Rightarrow> string option" where
  "text_field values key = (case dget values key of JStr s \<Rightarrow> if s = [] then None else Some s | _ \<Rightarrow> None)"

definition or_else :: "'a option \<Rightarrow> 'a option \<Rightarrow> 'a option" where
  "or_else x y = (case x of None \<Rightarrow> y | Some _ \<Rightarrow> x)"

definition direct_thread :: "dict \<Rightarrow> string option" where
  "direct_thread params = or_else (text_field params ''threadId'') (text_field params ''conversationId'')"

definition turn_thread :: "dict \<Rightarrow> string option" where
  "turn_thread params = (case dget params ''turn'' of JObj turn \<Rightarrow> direct_thread turn | _ \<Rightarrow> None)"

definition thread_id_of :: "dict \<Rightarrow> string option" where
  "thread_id_of params =
     or_else (direct_thread params)
       (case dget params ''thread'' of
          JObj thread \<Rightarrow> or_else (text_field thread ''id'') (turn_thread params)
        | _ \<Rightarrow> turn_thread params)"

text \<open>The copy in \<open>app_server_activity.py\<close> does not look at the turn when there is a thread object.\<close>

definition activity_thread_id :: "dict \<Rightarrow> string option" where
  "activity_thread_id params =
     or_else (direct_thread params)
       (case dget params ''thread'' of JObj thread \<Rightarrow> text_field thread ''id'' | _ \<Rightarrow> turn_thread params)"

definition turn_id_of :: "dict \<Rightarrow> string option" where
  "turn_id_of params =
     or_else (text_field params ''turnId'')
       (case dget params ''turn'' of JObj turn \<Rightarrow> text_field turn ''id'' | _ \<Rightarrow> None)"

definition turn_outcome_of :: "dict \<Rightarrow> turn_outcome" where
  "turn_outcome_of params =
     (case dget params ''turn'' of
        JObj turn \<Rightarrow>
          (case text_field turn ''status'' of
             None \<Rightarrow> OUT_INVALID
           | Some s \<Rightarrow> (case outcome_of s of None \<Rightarrow> OUT_INVALID | Some r \<Rightarrow> r))
      | _ \<Rightarrow> OUT_INVALID)"

definition error_detail :: "(json \<Rightarrow> string) \<Rightarrow> json \<Rightarrow> string" where
  "error_detail str_json err =
     (case err of
        JObj d \<Rightarrow> (case text_field d ''message'' of Some s \<Rightarrow> take 500 s | None \<Rightarrow> take 500 (str_json err))
      | _ \<Rightarrow> take 500 (str_json err))"

definition response_result :: "(json \<Rightarrow> string) \<Rightarrow> string \<Rightarrow> dict \<Rightarrow> exn + dict" where
  "response_result str_json meth response =
     (if dget response ''error'' \<noteq> JNull
      then Inl (AppServerProtocolError (meth @ ''_failed:'' @ error_detail str_json (dget response ''error'')))
      else case dget response ''result'' of
        JNull \<Rightarrow> Inr []
      | JObj result \<Rightarrow> Inr result
      | _ \<Rightarrow> Inl (AppServerProtocolError (meth @ ''_invalid_result'')))"

section \<open>Protocol state\<close>

record correlation =
  co_thread :: string
  co_observed_at :: real
  co_live :: bool

record event_state =
  ev_responses :: "(string \<times> dict) list"
  ev_active :: "(string \<times> string) list"
  ev_latest :: "(string \<times> string) list"
  ev_started :: "string set"
  ev_outcomes :: "(string \<times> turn_outcome) list"
  ev_completed :: "string list"
  ev_correlations :: "(string \<times> correlation) list"
  ev_server_request :: "string option"

definition fresh_events :: event_state where
  "fresh_events = \<lparr>ev_responses = [], ev_active = [], ev_latest = [], ev_started = {},
     ev_outcomes = [], ev_completed = [], ev_correlations = [], ev_server_request = None\<rparr>"

definition MAX_RETAINED_TURN_OUTCOMES :: nat where
  "MAX_RETAINED_TURN_OUTCOMES = 512"

definition MAX_TURN_CORRELATIONS :: nat where
  "MAX_TURN_CORRELATIONS = 2048"

definition CORRELATION_EXPIRY_SECONDS :: real where
  "CORRELATION_EXPIRY_SECONDS = 600"

definition expired :: "real \<Rightarrow> correlation \<Rightarrow> bool" where
  "expired now c \<longleftrightarrow> \<not> co_live c \<and> now - co_observed_at c > CORRELATION_EXPIRY_SECONDS"

definition forget_turn :: "string \<times> correlation \<Rightarrow> event_state \<Rightarrow> event_state" where
  "forget_turn = (\<lambda>(turn, c) s. s
     \<lparr>ev_correlations := AList.delete turn (ev_correlations s),
      ev_started := ev_started s - {turn},
      ev_latest := (if map_of (ev_latest s) (co_thread c) = Some turn
                    then AList.delete (co_thread c) (ev_latest s) else ev_latest s)\<rparr>)"

definition expire_correlations :: "real \<Rightarrow> event_state \<Rightarrow> event_state" where
  "expire_correlations now s =
     fold forget_turn (filter (\<lambda>(_, c). expired now c) (ev_correlations s)) s"

definition correlate_turn :: "real \<Rightarrow> string \<Rightarrow> string \<Rightarrow> (exn, event_state, unit) step" where
  "correlate_turn now thread turn s0 =
     (let s = expire_correlations now s0
      in if map_of (ev_correlations s) turn = None \<and> length (ev_correlations s) \<ge> MAX_TURN_CORRELATIONS
         then (Inl (AppServerProtocolError ''app_server_correlation_capacity''), s)
         else (Inr (), s\<lparr>ev_correlations := AList.update turn
           \<lparr>co_thread = thread, co_observed_at = now, co_live = True\<rparr> (ev_correlations s)\<rparr>))"

definition remember_outcome :: "string \<Rightarrow> turn_outcome \<Rightarrow> event_state \<Rightarrow> event_state" where
  "remember_outcome turn r s =
     (if map_of (ev_outcomes s) turn \<noteq> None then s
      else
        let outs = AList.update turn r (ev_outcomes s);
            completed = ev_completed s @ [turn]
        in if length completed > MAX_RETAINED_TURN_OUTCOMES
           then s\<lparr>ev_outcomes := AList.delete (hd completed) outs, ev_completed := tl completed,
                  ev_started := ev_started s - {hd completed}\<rparr>
           else s\<lparr>ev_outcomes := outs, ev_completed := completed\<rparr>)"

definition turn_started :: "real \<Rightarrow> string option \<Rightarrow> string \<Rightarrow> (exn, event_state, unit) step" where
  "turn_started now thread turn =
     sbind (smodify (\<lambda>s. s\<lparr>ev_started := insert turn (ev_started s)\<rparr>)) (\<lambda>_.
     case thread of
       None \<Rightarrow> sret ()
     | Some th \<Rightarrow>
         sbind (correlate_turn now th turn) (\<lambda>_.
         smodify (\<lambda>s. s\<lparr>ev_active := AList.update th turn (ev_active s),
                        ev_latest := AList.update th turn (ev_latest s)\<rparr>)))"

definition leave_active :: "string option \<Rightarrow> string \<Rightarrow> event_state \<Rightarrow> event_state" where
  "leave_active thread turn s =
     (case thread of
        None \<Rightarrow> s\<lparr>ev_active := filter (\<lambda>(_, active). active \<noteq> turn) (ev_active s)\<rparr>
      | Some th \<Rightarrow> if map_of (ev_active s) th = Some turn
                   then s\<lparr>ev_active := AList.delete th (ev_active s)\<rparr> else s)"

definition settle_correlation :: "real \<Rightarrow> string \<Rightarrow> event_state \<Rightarrow> event_state" where
  "settle_correlation now turn s =
     (case map_of (ev_correlations s) turn of
        None \<Rightarrow> s
      | Some c \<Rightarrow> s\<lparr>ev_correlations := AList.update turn
          \<lparr>co_thread = co_thread c, co_observed_at = now, co_live = False\<rparr> (ev_correlations s)\<rparr>)"

definition turn_completed ::
  "real \<Rightarrow> string option \<Rightarrow> string \<Rightarrow> turn_outcome \<Rightarrow> event_state \<Rightarrow> event_state" where
  "turn_completed now thread turn r s =
     remember_outcome turn r (settle_correlation now turn (leave_active thread turn s))"

definition record_message :: "real \<Rightarrow> dict \<Rightarrow> (exn, event_state, unit) step" where
  "record_message now message =
     (case (text_field message ''id'', text_field message ''method'') of
        (Some i, _) \<Rightarrow>
          if dhas message ''result'' \<or> dhas message ''error''
          then smodify (\<lambda>s. s\<lparr>ev_responses := AList.update i message (ev_responses s)\<rparr>)
          else (case text_field message ''method'' of
             Some meth \<Rightarrow> smodify (\<lambda>s. s\<lparr>ev_server_request := Some meth\<rparr>)
           | None \<Rightarrow> sret ())
      | (None, None) \<Rightarrow> sret ()
      | (None, Some meth) \<Rightarrow>
          (case dget message ''params'' of
             JObj params \<Rightarrow>
               (case turn_id_of params of
                  None \<Rightarrow> sret ()
                | Some turn \<Rightarrow>
                    if meth = ''turn/started'' then turn_started now (thread_id_of params) turn
                    else if meth = ''turn/completed''
                    then smodify (turn_completed now (thread_id_of params) turn (turn_outcome_of params))
                    else sret ())
           | _ \<Rightarrow> sret ()))"

definition take_response :: "string \<Rightarrow> event_state \<Rightarrow> dict option \<times> event_state" where
  "take_response i s = (map_of (ev_responses s) i, s\<lparr>ev_responses := AList.delete i (ev_responses s)\<rparr>)"

definition active_turn :: "event_state \<Rightarrow> string \<Rightarrow> string option" where
  "active_turn s thread = map_of (ev_active s) thread"

definition latest_started_turn :: "event_state \<Rightarrow> string \<Rightarrow> string option" where
  "latest_started_turn s thread = map_of (ev_latest s) thread"

definition was_started :: "event_state \<Rightarrow> string \<Rightarrow> bool" where
  "was_started s turn \<longleftrightarrow> turn \<in> ev_started s"

definition was_completed :: "event_state \<Rightarrow> string \<Rightarrow> bool" where
  "was_completed s turn \<longleftrightarrow> map_of (ev_outcomes s) turn \<noteq> None"

definition turn_outcome_in :: "event_state \<Rightarrow> string \<Rightarrow> turn_outcome option" where
  "turn_outcome_in s turn = map_of (ev_outcomes s) turn"

definition bind_started_turn :: "real \<Rightarrow> string \<Rightarrow> string \<Rightarrow> (exn, event_state, bool) step" where
  "bind_started_turn now thread turn =
     sbind (correlate_turn now thread turn) (\<lambda>_.
     sbind (sget (\<lambda>s. s)) (\<lambda>s.
     if was_completed s turn then sret True
     else if \<not> was_started s turn then sret False
     else sbind (smodify (\<lambda>s. s\<lparr>ev_active := AList.update thread turn (ev_active s),
            ev_latest := AList.update thread turn (ev_latest s)\<rparr>)) (\<lambda>_. sret True)))"

definition thread_for_turn :: "real \<Rightarrow> string \<Rightarrow> event_state \<Rightarrow> string option \<times> event_state" where
  "thread_for_turn now turn s0 =
     (let s = expire_correlations now s0
      in (map_option co_thread (map_of (ev_correlations s) turn), s))"

section \<open>The activity stream\<close>

datatype activity_kind = TURN_STARTED | TURN_PROGRESS | TURN_COMPLETED | SERVER_REQUEST | CONNECTION_CLOSED

record activity =
  ac_kind :: activity_kind
  ac_thread :: "string option"
  ac_turn :: "string option"
  ac_outcome :: "turn_outcome option"

record observation =
  ob_generation :: nat
  ob_sequence :: nat
  ob_activity :: activity

record activity_stream =
  as_events :: event_state
  as_stderr :: "string list"
  as_observations :: "observation list"
  as_sequence :: nat
  as_generation :: nat
  as_closed_error :: "string option"
  as_closed_emitted :: bool

definition MAX_OBSERVATIONS :: nat where
  "MAX_OBSERVATIONS = 512"

definition new_stream :: activity_stream where
  "new_stream = \<lparr>as_events = fresh_events, as_stderr = [], as_observations = [], as_sequence = 0,
     as_generation = 0, as_closed_error = None, as_closed_emitted = False\<rparr>"

text \<open>\<open>deque(maxlen=n).append\<close>\<close>

definition push_bounded :: "nat \<Rightarrow> 'a \<Rightarrow> 'a list \<Rightarrow> 'a list" where
  "push_bounded n x xs = (if length xs \<ge> n then drop (length xs + 1 - n) (xs @ [x]) else xs @ [x])"

definition mk_activity ::
  "activity_kind \<Rightarrow> string option \<Rightarrow> string option \<Rightarrow> turn_outcome option \<Rightarrow> activity" where
  "mk_activity k th turn r = \<lparr>ac_kind = k, ac_thread = th, ac_turn = turn, ac_outcome = r\<rparr>"

definition reset_stream :: "activity_stream \<Rightarrow> activity_stream" where
  "reset_stream a = a\<lparr>as_generation := as_generation a + 1, as_events := fresh_events,
     as_stderr := [], as_closed_error := None, as_closed_emitted := False\<rparr>"

definition publish :: "activity \<Rightarrow> activity_stream \<Rightarrow> activity_stream" where
  "publish act a =
     (let n = as_sequence a + 1
      in a\<lparr>as_sequence := n, as_observations := push_bounded MAX_OBSERVATIONS
            \<lparr>ob_generation = as_generation a, ob_sequence = n, ob_activity = act\<rparr> (as_observations a)\<rparr>)"

definition is_response :: "dict \<Rightarrow> bool" where
  "is_response message \<longleftrightarrow> dhas message ''result'' \<or> dhas message ''error''"

definition classify_turn :: "string \<Rightarrow> string option \<Rightarrow> string \<Rightarrow> event_state \<Rightarrow> activity" where
  "classify_turn meth thread turn s =
     (if meth = ''turn/started'' then mk_activity TURN_STARTED thread (Some turn) None
      else if meth = ''turn/completed''
      then mk_activity TURN_COMPLETED thread (Some turn) (turn_outcome_in s turn)
      else mk_activity TURN_PROGRESS thread (Some turn) None)"

text \<open>\<open>_classify\<close>: looking up the thread of a turn may drop expired correlations.\<close>

definition classify_message :: "real \<Rightarrow> dict \<Rightarrow> event_state \<Rightarrow> activity option \<times> event_state" where
  "classify_message now message s =
     (let i = text_field message ''id''; meth = text_field message ''method'';
          params = obj_of (dget message ''params'')
      in if i \<noteq> None \<and> meth \<noteq> None \<and> \<not> is_response message
         then let ownership = (case params of None \<Rightarrow> [] | Some d \<Rightarrow> d)
              in (Some (mk_activity SERVER_REQUEST (activity_thread_id ownership)
                    (turn_id_of ownership) None), s)
         else case (meth, params) of
           (Some m, Some d) \<Rightarrow>
             (case turn_id_of d of
                None \<Rightarrow> (None, s)
              | Some turn \<Rightarrow>
                  (case activity_thread_id d of
                     Some th \<Rightarrow> (Some (classify_turn m (Some th) turn s), s)
                   | None \<Rightarrow> let (th, s') = thread_for_turn now turn s
                             in (Some (classify_turn m th turn s'), s')))
         | _ \<Rightarrow> (None, s))"

definition record_current ::
  "real \<Rightarrow> dict \<Rightarrow> nat \<Rightarrow> (exn, activity_stream, activity option) step" where
  "record_current now message generation a =
     (if generation \<noteq> as_generation a then (Inr None, a)
      else case record_message now message (as_events a) of
        (Inl e, s) \<Rightarrow> (Inl e, a\<lparr>as_events := s\<rparr>)
      | (Inr _, s) \<Rightarrow>
          let (act, s') = classify_message now message s;
              a' = a\<lparr>as_events := s'\<rparr>
          in (Inr act, case act of None \<Rightarrow> a' | Some x \<Rightarrow> publish x a'))"

definition mark_closed ::
  "string \<Rightarrow> nat option \<Rightarrow> activity_stream \<Rightarrow> activity option \<times> activity_stream" where
  "mark_closed reason generation a =
     (let target = (case generation of None \<Rightarrow> as_generation a | Some g \<Rightarrow> g)
      in if target \<noteq> as_generation a \<or> as_closed_emitted a then (None, a)
         else let act = mk_activity CONNECTION_CLOSED None None None
              in (Some act, publish act (a\<lparr>as_closed_error := Some reason, as_closed_emitted := True\<rparr>)))"

text \<open>\<open>read_stderr\<close> for one line, already stripped on the right.\<close>

definition record_stderr :: "string \<Rightarrow> nat \<Rightarrow> activity_stream \<Rightarrow> activity_stream" where
  "record_stderr line generation a =
     (if generation = as_generation a
      then a\<lparr>as_stderr := push_bounded 20 (take 500 line) (as_stderr a)\<rparr> else a)"

definition observation_after :: "nat \<Rightarrow> activity_stream \<Rightarrow> observation option" where
  "observation_after n a = List.find (\<lambda>item. ob_sequence item > n) (as_observations a)"

text \<open>What can happen to a stream, and a run of it, with the activities delivered to the listener.\<close>

datatype stream_event =
    Message real dict nat
  | Closed string "nat option"
  | Stderr string nat
  | Reset

fun stream_step :: "stream_event \<Rightarrow> activity_stream \<Rightarrow> activity option \<times> activity_stream" where
  "stream_step (Message now message g) a =
     (case record_current now message g a of (Inl _, a') \<Rightarrow> (None, a') | (Inr act, a') \<Rightarrow> (act, a'))"
| "stream_step (Closed reason g) a = mark_closed reason g a"
| "stream_step (Stderr line g) a = (None, record_stderr line g a)"
| "stream_step Reset a = (None, reset_stream a)"

fun run_stream :: "stream_event list \<Rightarrow> activity_stream \<Rightarrow> activity list \<times> activity_stream" where
  "run_stream [] a = ([], a)"
| "run_stream (e # es) a =
     (let (act, a1) = stream_step e a; (acts, a2) = run_stream es a1
      in (case act of None \<Rightarrow> acts | Some x \<Rightarrow> x # acts, a2))"

section \<open>Lemmas: bounded protocol state\<close>

definition events_ok :: "event_state \<Rightarrow> bool" where
  "events_ok s \<longleftrightarrow> distinct (ev_completed s) \<and> distinct (map fst (ev_outcomes s)) \<and>
     set (ev_completed s) = fst ` set (ev_outcomes s) \<and>
     length (ev_completed s) \<le> MAX_RETAINED_TURN_OUTCOMES \<and>
     distinct (map fst (ev_correlations s)) \<and> length (ev_correlations s) \<le> MAX_TURN_CORRELATIONS"

lemma events_ok_fresh [simp]: "events_ok fresh_events"
  by (simp add: events_ok_def fresh_events_def)

lemma length_update: "length (AList.update k v al) = (if k \<in> fst ` set al then length al else length al + 1)"
  using arg_cong [OF update_keys [of k v al], of length] by auto

lemma events_ok_forget: "events_ok s \<Longrightarrow> events_ok (forget_turn x s)"
  using length_delete_le [of "fst x" "ev_correlations s"]
  by (cases x) (auto simp: events_ok_def forget_turn_def distinct_delete)

lemma events_ok_expire: "events_ok s \<Longrightarrow> events_ok (expire_correlations now s)"
proof -
  have "events_ok s \<Longrightarrow> events_ok (fold forget_turn xs s)" for xs
    by (induction xs arbitrary: s) (simp_all add: events_ok_forget)
  then show "events_ok s \<Longrightarrow> events_ok (expire_correlations now s)"
    by (simp add: expire_correlations_def)
qed

lemma events_ok_correlate:
  assumes "events_ok s"
  shows "events_ok (snd (correlate_turn now th turn s))"
proof -
  have "events_ok (expire_correlations now s)" using assms by (rule events_ok_expire)
  then show ?thesis
    by (auto simp: correlate_turn_def Let_def events_ok_def distinct_update length_update
        map_of_eq_None_iff image_iff)
qed

lemma events_ok_remember:
  assumes "events_ok s"
  shows "events_ok (remember_outcome turn r s)"
proof (cases "map_of (ev_outcomes s) turn = None")
  case True
  then have new: "turn \<notin> set (ev_completed s)" "turn \<notin> fst ` set (ev_outcomes s)"
    using assms by (auto simp: events_ok_def map_of_eq_None_iff)
  then show ?thesis
    using assms by (cases "ev_completed s")
      (auto simp: remember_outcome_def Let_def events_ok_def distinct_update distinct_delete
        delete_keys update_keys MAX_RETAINED_TURN_OUTCOMES_def distinct_removeAll simp flip: set_map)
qed (use assms in \<open>simp add: remember_outcome_def\<close>)

lemma events_ok_irrelevant [simp]:
  "events_ok (s\<lparr>ev_active := a\<rparr>) = events_ok s" "events_ok (s\<lparr>ev_latest := b\<rparr>) = events_ok s"
  "events_ok (s\<lparr>ev_started := c\<rparr>) = events_ok s" "events_ok (s\<lparr>ev_responses := d\<rparr>) = events_ok s"
  "events_ok (s\<lparr>ev_server_request := e\<rparr>) = events_ok s"
  by (simp_all add: events_ok_def)

lemma events_ok_settle: "events_ok s \<Longrightarrow> events_ok (settle_correlation now turn s)"
  by (auto simp: settle_correlation_def events_ok_def distinct_update length_update image_iff
      split: option.splits dest: map_of_SomeD)

lemma events_ok_completed: "events_ok s \<Longrightarrow> events_ok (turn_completed now th turn r s)"
  by (auto simp: turn_completed_def leave_active_def intro!: events_ok_remember events_ok_settle
      split: option.splits)

lemma events_ok_started:
  assumes "events_ok s"
  shows "events_ok (snd (turn_started now th turn s))"
proof (cases th)
  case (Some t)
  have "events_ok (snd (correlate_turn now t turn (s\<lparr>ev_started := insert turn (ev_started s)\<rparr>)))"
    using assms by (intro events_ok_correlate) simp
  with Some show ?thesis
    by (cases "correlate_turn now t turn (s\<lparr>ev_started := insert turn (ev_started s)\<rparr>)")
      (auto simp: turn_started_def step_defs split: sum.splits)
qed (use assms in \<open>simp add: turn_started_def step_defs\<close>)

lemma events_ok_record:
  assumes "events_ok s"
  shows "events_ok (snd (record_message now message s))"
  using assms events_ok_started [OF assms] events_ok_completed [OF assms]
  by (auto simp: record_message_def step_defs split: option.splits json.splits)

lemma events_ok_classify: "events_ok s \<Longrightarrow> events_ok (snd (classify_message now message s))"
  by (auto simp: classify_message_def thread_for_turn_def Let_def events_ok_expire
      split: option.splits prod.splits)

section \<open>Lemmas: the stream against its history\<close>

text \<open>
  \<open>history acts a\<close>: the stream published exactly \<open>acts\<close>, numbered from one, and retains the last
  512 of them.
\<close>

definition numbered :: "activity list \<Rightarrow> (nat \<times> activity) list" where
  "numbered acts = enumerate 1 acts"

definition retained :: "activity_stream \<Rightarrow> (nat \<times> activity) list" where
  "retained a = map (\<lambda>ob. (ob_sequence ob, ob_activity ob)) (as_observations a)"

definition history :: "activity list \<Rightarrow> activity_stream \<Rightarrow> bool" where
  "history acts a \<longleftrightarrow> as_sequence a = length acts \<and>
     retained a = drop (length acts - MAX_OBSERVATIONS) (numbered acts)"

lemma push_bounded_drop:
  assumes "0 < m"
  shows "push_bounded m y (drop (length xs - m) xs) = drop (length xs + 1 - m) (xs @ [y])"
  using assms by (cases "length xs < m") (auto simp: push_bounded_def Suc_diff_le)

lemma map_push_bounded: "0 < n \<Longrightarrow> map f (push_bounded n x xs) = push_bounded n (f x) (map f xs)"
  by (simp add: push_bounded_def drop_map)

lemma numbered_append: "numbered (acts @ [x]) = numbered acts @ [(length acts + 1, x)]"
  by (simp add: numbered_def enumerate_append_eq)

lemma length_numbered [simp]: "length (numbered acts) = length acts"
  by (simp add: numbered_def)

lemma history_publish:
  assumes "history acts a"
  shows "history (acts @ [x]) (publish x a)"
proof -
  have "retained (publish x a) = push_bounded MAX_OBSERVATIONS (length acts + 1, x) (retained a)"
    using assms by (simp add: retained_def publish_def Let_def history_def map_push_bounded
        MAX_OBSERVATIONS_def)
  also have "\<dots> = drop (length acts + 1 - MAX_OBSERVATIONS) (numbered (acts @ [x]))"
    using assms push_bounded_drop [of MAX_OBSERVATIONS "(length acts + 1, x)" "numbered acts"]
    by (simp add: history_def numbered_append MAX_OBSERVATIONS_def)
  finally show ?thesis using assms by (simp add: history_def publish_def Let_def)
qed

lemma history_cong:
  "as_sequence b = as_sequence a \<Longrightarrow> as_observations b = as_observations a \<Longrightarrow> history acts b = history acts a"
  by (simp add: history_def retained_def)

lemma stream_step_history:
  assumes "history acts a" and "stream_step e a = (act, a')"
  shows "history (acts @ (case act of None \<Rightarrow> [] | Some x \<Rightarrow> [x])) a'"
proof (cases e)
  case (Message now message g)
  have "history acts (a\<lparr>as_events := s\<rparr>)" for s using assms(1) by (simp add: history_def retained_def)
  with assms Message history_publish show ?thesis
    by (auto simp: record_current_def Let_def split: if_splits prod.splits sum.splits option.splits)
next
  case (Closed reason g)
  have "history acts (a\<lparr>as_closed_error := Some reason, as_closed_emitted := True\<rparr>)"
    using assms(1) by (simp add: history_def retained_def)
  with assms Closed history_publish show ?thesis
    by (auto simp: mark_closed_def Let_def split: if_splits)
next
  case (Stderr line g)
  with assms show ?thesis by (auto simp: record_stderr_def history_def retained_def)
next
  case Reset
  with assms show ?thesis by (auto simp: reset_stream_def history_def retained_def)
qed

lemma run_stream_history:
  "history acts a \<Longrightarrow> run_stream es a = (new, a') \<Longrightarrow> history (acts @ new) a'"
proof (induction es arbitrary: acts a new)
  case (Cons e es)
  obtain act a1 where s: "stream_step e a = (act, a1)" by force
  obtain rest where r: "run_stream es a1 = (rest, a')" and
    new: "new = (case act of None \<Rightarrow> rest | Some x \<Rightarrow> x # rest)"
    using Cons.prems(2) s by (auto split: prod.splits)
  from Cons.IH [OF stream_step_history [OF Cons.prems(1) s] r] new show ?case
    by (cases act) simp_all
qed simp

lemma find_numbered:
  "List.find (\<lambda>(i, x). n < i) (drop k (numbered acts)) =
     (if max n k < length acts then Some (max n k + 1, acts ! max n k) else None)"
proof (cases "max n k < length acts")
  case True
  have nth: "k + i < length acts \<Longrightarrow> drop k (numbered acts) ! i = (k + i + 1, acts ! (k + i))" for i
    by (simp add: numbered_def nth_enumerate_eq)
  have "List.find (\<lambda>(i, x). n < i) (drop k (numbered acts)) = Some (drop k (numbered acts) ! (max n k - k))"
    unfolding find_Some_iff using True nth [of "max n k - k"]
    by (intro exI [of _ "max n k - k"]) (auto simp: numbered_def nth_enumerate_eq)
  with True nth [of "max n k - k"] show ?thesis by simp
next
  case False
  then show ?thesis
    by (auto simp: find_None_iff numbered_def in_set_conv_nth nth_enumerate_eq)
qed

lemma find_map_option:
  "map_option (\<lambda>ob. (f ob, g ob)) (List.find (\<lambda>item. n < f item) xs) =
   List.find (\<lambda>(i, x). n < i) (map (\<lambda>ob. (f ob, g ob)) xs)" for n :: nat
  by (induction xs) auto

lemma run_stream_events_ok: "events_ok (as_events a) \<Longrightarrow> events_ok (as_events (snd (run_stream es a)))"
proof (induction es arbitrary: a)
  case (Cons e es)
  have "events_ok (as_events (snd (stream_step e a)))"
  proof (cases e)
    case (Message now message g)
    have "events_ok (snd (classify_message now message (snd (record_message now message (as_events a)))))"
      using Cons.prems by (intro events_ok_classify events_ok_record)
    with Message Cons.prems events_ok_record [OF Cons.prems, of now message] show ?thesis
      by (auto simp: record_current_def publish_def Let_def split: prod.splits sum.splits option.splits)
  qed (use Cons.prems in \<open>auto simp: mark_closed_def publish_def record_stderr_def reset_stream_def Let_def\<close>)
  with Cons.IH show ?case by (auto simp: split_beta split: option.splits)
qed simp

lemma outcomes_expire [simp]:
  "ev_outcomes (expire_correlations now s) = ev_outcomes s"
  "ev_completed (expire_correlations now s) = ev_completed s"
proof -
  have "ev_outcomes (fold forget_turn xs s) = ev_outcomes s \<and>
      ev_completed (fold forget_turn xs s) = ev_completed s" for xs
    by (induction xs arbitrary: s) (auto simp: forget_turn_def)
  then show "ev_outcomes (expire_correlations now s) = ev_outcomes s"
    "ev_completed (expire_correlations now s) = ev_completed s"
    by (simp_all add: expire_correlations_def)
qed

lemma outcomes_started: "ev_outcomes (snd (turn_started now th turn s)) = ev_outcomes s"
  by (auto simp: turn_started_def correlate_turn_def step_defs Let_def split: option.splits)

lemma outcomes_before_remember [simp]:
  "ev_outcomes (settle_correlation now turn (leave_active th turn s)) = ev_outcomes s"
  "ev_completed (settle_correlation now turn (leave_active th turn s)) = ev_completed s"
  by (auto simp: settle_correlation_def leave_active_def split: option.splits)

lemma remember_keeps:
  assumes "events_ok s" and "map_of (ev_outcomes s) turn = Some r" and "ev_outcomes s' = ev_outcomes s"
    and "ev_completed s' = ev_completed s"
  shows "map_of (ev_outcomes (remember_outcome t r' s')) turn = Some r \<or>
    map_of (ev_outcomes (remember_outcome t r' s')) turn = None \<and> hd (ev_completed s) = turn \<and>
      length (ev_completed s) = 512"
proof (cases "ev_completed s")
  case Nil
  with assms(1,2) show ?thesis by (auto simp: events_ok_def)
next
  case (Cons c cs)
  with assms show ?thesis
    by (auto simp: remember_outcome_def Let_def delete_conv' update_conv' events_ok_def
        MAX_RETAINED_TURN_OUTCOMES_def)
qed

section \<open>Properties\<close>

text \<open>
  C32: whatever arrives on the connection, in any order and over any number of reconnects, the
  stream is the numbered history of the activities it delivered, of which it keeps the last 512; and
  a waiter that has seen activity \<open>n\<close> gets the next one, or the oldest retained one, or learns that
  there is none.
\<close>

theorem stream_refines_history:
  "case run_stream es new_stream of (acts, a) \<Rightarrow>
     as_sequence a = length acts \<and>
     retained a = drop (length acts - 512) (numbered acts) \<and>
     map_option (\<lambda>ob. (ob_sequence ob, ob_activity ob)) (observation_after n a) =
       (let i = max n (length acts - 512) in if i < length acts then Some (i + 1, acts ! i) else None)"
proof -
  obtain acts a where run: "run_stream es new_stream = (acts, a)" by force
  have "history [] new_stream" by (simp add: history_def new_stream_def retained_def numbered_def)
  from run_stream_history [OF this run] have h: "history acts a" by simp
  have "map_option (\<lambda>ob. (ob_sequence ob, ob_activity ob)) (observation_after n a) =
      List.find (\<lambda>(i, x). n < i) (retained a)"
    unfolding observation_after_def retained_def
    by (rule find_map_option)
  with h show ?thesis
    by (simp add: run history_def MAX_OBSERVATIONS_def find_numbered Let_def)
qed


text \<open>
  The outcome reported first for a turn is final: no later message changes it while it is
  retained, so a completed turn cannot become an interrupted one.
\<close>

theorem first_outcome_wins:
  assumes "events_ok s" and "turn_outcome_in s turn = Some r"
  shows "turn_outcome_in (snd (record_message now message s)) turn \<in> {Some r, None} \<and>
    (turn_outcome_in (snd (record_message now message s)) turn = None \<longrightarrow>
       hd (ev_completed s) = turn \<and> length (ev_completed s) = 512)"
proof -
  have "map_of (ev_outcomes (snd (record_message now message s))) turn = Some r \<or>
    map_of (ev_outcomes (snd (record_message now message s))) turn = None \<and>
      hd (ev_completed s) = turn \<and> length (ev_completed s) = 512"
    using assms outcomes_started remember_keeps [OF assms(1) assms(2)[unfolded turn_outcome_in_def]]
    by (auto simp: record_message_def turn_outcome_in_def turn_completed_def step_defs
        split: option.splits json.splits)
  then show ?thesis by (auto simp: turn_outcome_in_def)
qed

theorem first_outcome_wins_witness:
  "turn_outcome_in (snd (record_message 0 [(''method'', JStr ''turn/completed''),
     (''params'', JObj [(''turnId'', JStr ''t''), (''turn'', JObj [(''status'', JStr ''interrupted'')])])]
     (fresh_events\<lparr>ev_outcomes := [(''t'', OUT_COMPLETED)], ev_completed := [''t'']\<rparr>))) ''t'' =
   Some OUT_COMPLETED"
proof -
  let ?s = "fresh_events\<lparr>ev_outcomes := [(''t'', OUT_COMPLETED)], ev_completed := [''t'']\<rparr>"
  have "events_ok ?s" "turn_outcome_in ?s ''t'' = Some OUT_COMPLETED"
    by (simp_all add: events_ok_def fresh_events_def turn_outcome_in_def
        MAX_RETAINED_TURN_OUTCOMES_def MAX_TURN_CORRELATIONS_def)
  from first_outcome_wins [OF this] show ?thesis by (force simp: fresh_events_def)
qed

text \<open>The two copies of the thread lookup disagree when a message has both objects.\<close>

lemma thread_lookups_disagree:
  "thread_id_of [(''thread'', JObj []), (''turn'', JObj [(''threadId'', JStr ''x'')])] = Some ''x''"
  "activity_thread_id [(''thread'', JObj []), (''turn'', JObj [(''threadId'', JStr ''x'')])] = None"
  by (simp_all add: thread_id_of_def activity_thread_id_def direct_thread_def turn_thread_def
      text_field_def or_else_def)

end
