(* ===== verification/GoalControl.thy ===== *)
theory GoalControl
  imports SessionSetup AppServerEvents
begin

text \<open>
  The native Goal of a thread: \<open>scripts/goal_policy.py\<close>, \<open>goal_control.py\<close>, \<open>manager_goal.py\<close> and
  \<open>goal_turn_source.py\<close>, and the interface \<open>ManagedAppServer\<close> of \<open>app_server_protocol.py\<close> through which
  the manager talks to the app server. An operation of the interface is a step of the client state
  \<open>'c\<close>, also when it only reads: between two calls the reader threads deliver what has arrived.
\<close>

section \<open>The app-server interface\<close>

record 'c managed_server =
  ms_pending :: "(exn, 'c, string option) step"
  ms_start :: "(exn, 'c, unit) step"
  ms_request :: "string \<Rightarrow> dict \<Rightarrow> time \<Rightarrow> (exn, 'c, dict) step"
  ms_active :: "string \<Rightarrow> (exn, 'c, string option) step"
  ms_completed :: "string \<Rightarrow> (exn, 'c, bool) step"
  ms_outcome :: "string \<Rightarrow> (exn, 'c, turn_outcome option) step"
  ms_latest :: "string \<Rightarrow> (exn, 'c, string option) step"
  ms_wait_started :: "string \<Rightarrow> string \<Rightarrow> (exn, 'c, bool) step"
  ms_wait_completed :: "string \<Rightarrow> (exn, 'c, bool) step"
  ms_wait_next :: "string \<Rightarrow> string option \<Rightarrow> (exn, 'c, string option) step"

section \<open>Goals\<close>

datatype goal_status =
  GOAL_ACTIVE | GOAL_PAUSED | GOAL_BLOCKED | GOAL_USAGE_LIMITED | GOAL_BUDGET_LIMITED | GOAL_COMPLETE

fun goal_status_value :: "goal_status \<Rightarrow> string" where
  "goal_status_value GOAL_ACTIVE = ''active''"
| "goal_status_value GOAL_PAUSED = ''paused''"
| "goal_status_value GOAL_BLOCKED = ''blocked''"
| "goal_status_value GOAL_USAGE_LIMITED = ''usageLimited''"
| "goal_status_value GOAL_BUDGET_LIMITED = ''budgetLimited''"
| "goal_status_value GOAL_COMPLETE = ''complete''"

definition goal_status_of :: "string \<Rightarrow> goal_status option" where
  "goal_status_of s = List.find (\<lambda>g. goal_status_value g = s)
     [GOAL_ACTIVE, GOAL_PAUSED, GOAL_BLOCKED, GOAL_USAGE_LIMITED, GOAL_BUDGET_LIMITED, GOAL_COMPLETE]"

record goal_identity =
  gi_thread :: string
  gi_created_at :: int
  gi_objective :: string
  gi_token_budget :: "int option"

record goal_snapshot =
  gs_identity :: goal_identity
  gs_status :: goal_status

definition fingerprint_goal_identity :: "hash \<Rightarrow> goal_identity \<Rightarrow> goal_fingerprint" where
  "fingerprint_goal_identity H i = \<lparr>gf_thread = gi_thread i, gf_created_at = gi_created_at i,
     gf_objective_sha256 = H (gi_objective i), gf_token_budget = gi_token_budget i\<rparr>"

definition goal_from_result :: "dict \<Rightarrow> string \<Rightarrow> exn + goal_snapshot" where
  "goal_from_result result thread =
     (case dget result ''goal'' of
        JObj goal \<Rightarrow>
          (case dget goal ''status'' of
             JStr s \<Rightarrow>
               (case goal_status_of s of
                  None \<Rightarrow> Inl (GoalControlError ''goal_status_invalid'')
                | Some status \<Rightarrow>
                    (case (dget goal ''threadId'', dget goal ''createdAt'', dget goal ''objective'') of
                       (JStr t, JInt created, JStr objective) \<Rightarrow>
                         if t \<noteq> thread \<or> created < 0 then Inl (GoalControlError ''goal_identity_invalid'')
                         else (case dget goal ''tokenBudget'' of
                             JNull \<Rightarrow> Inr \<lparr>gs_identity = \<lparr>gi_thread = t, gi_created_at = created,
                               gi_objective = objective, gi_token_budget = None\<rparr>, gs_status = status\<rparr>
                           | JInt budget \<Rightarrow>
                               if budget < 0 then Inl (GoalControlError ''goal_identity_invalid'')
                               else Inr \<lparr>gs_identity = \<lparr>gi_thread = t, gi_created_at = created,
                                 gi_objective = objective, gi_token_budget = Some budget\<rparr>,
                                 gs_status = status\<rparr>
                           | _ \<Rightarrow> Inl (GoalControlError ''goal_identity_invalid''))
                     | _ \<Rightarrow> Inl (GoalControlError ''goal_identity_invalid'')))
           | _ \<Rightarrow> Inl (GoalControlError ''goal_status_invalid''))
      | _ \<Rightarrow> Inl (GoalControlError ''goal_missing''))"

definition read_goal :: "'c managed_server \<Rightarrow> string \<Rightarrow> (exn, 'c, goal_snapshot) step" where
  "read_goal M thread =
     sbind (ms_request M ''thread/goal/get'' [(''threadId'', JStr thread)] 10) (\<lambda>result.
     slift (goal_from_result result thread))"

definition set_goal_status ::
  "'c managed_server \<Rightarrow> string \<Rightarrow> goal_status \<Rightarrow> (exn, 'c, goal_snapshot) step" where
  "set_goal_status M thread status =
     sbind (slift (enforce_goal_companion_policy True)) (\<lambda>_.
     sbind (ms_request M ''thread/goal/set''
       [(''threadId'', JStr thread), (''status'', JStr (goal_status_value status))] 10) (\<lambda>result.
     sbind (slift (goal_from_result result thread)) (\<lambda>goal.
     if gs_status goal \<noteq> status then slift (Inl (GoalControlError ''goal_status_mismatch''))
     else sret goal)))"

section \<open>The Goal guard\<close>

record goal_guard =
  gg_thread :: string
  gg_expected :: "goal_fingerprint option"
  gg_identity :: "goal_identity option"
  gg_restore :: bool

definition new_guard :: "manager_runtime \<Rightarrow> goal_guard" where
  "new_guard rt = \<lparr>gg_thread = mr_session rt, gg_expected = mr_goal rt, gg_identity = None,
     gg_restore = False\<rparr>"

text \<open>The state of the guard's methods: the client and the guard.\<close>

type_synonym 'c guarded = "'c \<times> goal_guard"

definition on_client :: "(exn, 'c, 'a) step \<Rightarrow> (exn, 'c \<times> 'g, 'a) step" where
  "on_client m = (\<lambda>(c, g). case m c of (r, c') \<Rightarrow> (r, (c', g)))"

definition policy :: "(exn, 's, unit) step" where
  "policy = slift (enforce_goal_companion_policy True)"

definition read_bound :: "'c managed_server \<Rightarrow> (exn, 'c guarded, goal_snapshot) step" where
  "read_bound M = (\<lambda>(c, g).
     sbind (on_client (read_goal M (gg_thread g))) (\<lambda>goal.
     if gg_identity g \<noteq> Some (gs_identity goal)
     then slift (Inl (GoalControlError ''goal_identity_changed'')) else sret goal) (c, g))"

fun goal_set_error :: "exn \<Rightarrow> bool" where
  "goal_set_error (AppServerProtocolError _) = True"
| "goal_set_error (AppServerErr _) = True"
| "goal_set_error (GoalControlError _) = True"
| "goal_set_error _ = False"

definition guard_set :: "'c managed_server \<Rightarrow> goal_status \<Rightarrow> (exn, 'c guarded, unit) step" where
  "guard_set M status = (\<lambda>(c, g).
     case gg_identity g of
       None \<Rightarrow> (Inl (GoalControlError ''goal_identity_missing''), (c, g))
     | Some i \<Rightarrow>
         (case set_goal_status M (gg_thread g) status c of
            (Inr goal, c') \<Rightarrow>
              (if gs_identity goal \<noteq> i then Inl (GoalControlError ''goal_identity_changed'') else Inr (), (c', g))
          | (Inl e, c') \<Rightarrow>
              if \<not> goal_set_error e then (Inl e, (c', g))
              else (case read_goal M (gg_thread g) c' of
                 (Inl e', c'') \<Rightarrow> (Inl e', (c'', g))
               | (Inr goal, c'') \<Rightarrow>
                   (if gs_identity goal \<noteq> i then Inl (GoalControlError ''goal_identity_changed'')
                    else if gs_status goal = status then Inr () else Inl e, (c'', g)))))"

definition set_restore :: "bool \<Rightarrow> (exn, 'c guarded, unit) step" where
  "set_restore b = smodify (\<lambda>(c, g). (c, g\<lparr>gg_restore := b\<rparr>))"

definition pause_active :: "'c managed_server \<Rightarrow> goal_status \<Rightarrow> (exn, 'c guarded, unit) step" where
  "pause_active M status =
     (case status of
        GOAL_ACTIVE \<Rightarrow> sbind (set_restore True) (\<lambda>_. guard_set M GOAL_PAUSED)
      | GOAL_PAUSED \<Rightarrow> sret ()
      | GOAL_COMPLETE \<Rightarrow> slift (Inl (GoalControlError ''goal_complete''))
      | _ \<Rightarrow> slift (Inl (GoalControlError ''goal_not_resumable'')))"

text \<open>\<open>initialize\<close> also records the fingerprint in the session document.\<close>

definition guard_initialize ::
  "'c managed_server \<Rightarrow> hash \<Rightarrow> (goal_fingerprint \<Rightarrow> store \<Rightarrow> (exn + unit) \<times> store) \<Rightarrow>
   (exn, 'c guarded \<times> store, unit) step" where
  "guard_initialize M H recorder =
     sbind policy (\<lambda>_ ((c, g), st).
     case read_goal M (gg_thread g) c of
       (Inl e, c') \<Rightarrow> (Inl e, ((c', g), st))
     | (Inr goal, c') \<Rightarrow>
         let fp = fingerprint_goal_identity H (gs_identity goal)
         in if gg_expected g \<noteq> None \<and> gg_expected g \<noteq> Some fp
            then (Inl (GoalControlError ''goal_identity_changed''), ((c', g), st))
            else (case recorder fp st of
               (Inl e, st') \<Rightarrow> (Inl e, ((c', g), st'))
             | (Inr _, st') \<Rightarrow>
                 (case pause_active M (gs_status goal) (c', g\<lparr>gg_identity := Some (gs_identity goal)\<rparr>) of
                    (r, s) \<Rightarrow> (r, (s, st')))))"

definition activate_for_handoff :: "'c managed_server \<Rightarrow> (exn, 'c guarded, unit) step" where
  "activate_for_handoff M =
     sbind policy (\<lambda>_.
     sbind (read_bound M) (\<lambda>goal.
     sbind (case gs_status goal of
          GOAL_PAUSED \<Rightarrow> guard_set M GOAL_ACTIVE
        | GOAL_ACTIVE \<Rightarrow> sret ()
        | GOAL_COMPLETE \<Rightarrow> slift (Inl (GoalControlError ''goal_complete''))
        | _ \<Rightarrow> slift (Inl (GoalControlError ''goal_not_resumable''))) (\<lambda>_.
     set_restore False)))"

definition pause_for_interrupt :: "'c managed_server \<Rightarrow> (exn, 'c guarded, unit) step" where
  "pause_for_interrupt M =
     sbind policy (\<lambda>_. sbind (read_bound M) (\<lambda>goal. pause_active M (gs_status goal)))"

definition restore_initial_active :: "'c managed_server \<Rightarrow> (exn, 'c guarded, bool) step" where
  "restore_initial_active M =
     sbind policy (\<lambda>_ (c, g).
     if \<not> gg_restore g then (Inr False, (c, g))
     else
       (sbind (read_bound M) (\<lambda>goal.
        sbind (if gs_status goal = GOAL_PAUSED then guard_set M GOAL_ACTIVE else sret ()) (\<lambda>_.
        sbind (set_restore False) (\<lambda>_. sret True))) (c, g)))"

definition keep_paused_on_exit :: "(exn, 'c guarded, unit) step" where
  "keep_paused_on_exit = sbind policy (\<lambda>_. set_restore False)"

definition status_after_turn :: "'c managed_server \<Rightarrow> (exn, 'c guarded, goal_status) step" where
  "status_after_turn M = sbind policy (\<lambda>_. sbind (read_bound M) (\<lambda>goal. sret (gs_status goal)))"

text \<open>\<open>fence_goal_handoff\<close>\<close>

definition fence_goal_handoff ::
  "'c managed_server \<Rightarrow> string \<Rightarrow> string \<Rightarrow> (exn, 'c guarded, string) step" where
  "fence_goal_handoff M thread seen_turn =
     sbind (pause_for_interrupt M) (\<lambda>_.
     sbind (on_client (ms_active M thread)) (\<lambda>active.
     if active = Some seen_turn then sret seen_turn
     else
       sbind (on_client (ms_completed M seen_turn)) (\<lambda>completed.
       if \<not> completed then slift (Inl (GoalControlError ''goal_handoff_changed''))
       else
         sbind (on_client (ms_latest M thread)) (\<lambda>latest.
         case (active, latest) of
           (Some a, _) \<Rightarrow>
             if Some a = latest then sret a else slift (Inl (GoalControlError ''goal_handoff_changed''))
         | (None, None) \<Rightarrow> sret seen_turn
         | (None, Some l) \<Rightarrow>
             if l = seen_turn then sret seen_turn
             else sbind (on_client (ms_completed M l)) (\<lambda>ended.
               if ended then sret l else slift (Inl (GoalControlError ''goal_handoff_changed'')))))))"

section \<open>Native Goal turns\<close>

definition goal_context_start :: string where
  "goal_context_start = ''<codex_internal_context source='' @ [CHR 0x22] @ ''goal'' @ [CHR 0x22, CHR ''>'']"

definition goal_context_end :: string where
  "goal_context_end = ''</codex_internal_context>''"

definition turn_metadata :: "dict \<Rightarrow> string \<Rightarrow> bool" where
  "turn_metadata payload turn \<longleftrightarrow>
     (case dget payload ''internal_chat_message_metadata_passthrough'' of
        JObj m \<Rightarrow> dget m ''turn_id'' = JStr turn | _ \<Rightarrow> False)"

definition goal_text :: "json \<Rightarrow> bool" where
  "goal_text item \<longleftrightarrow>
     (case item of
        JObj d \<Rightarrow> dget d ''type'' = JStr ''input_text'' \<and>
          (case dget d ''text'' of
             JStr s \<Rightarrow> prefix goal_context_start (dropWhile py_space s) \<and>
               suffix goal_context_end (rev (dropWhile py_space (rev s)))
           | _ \<Rightarrow> False)
      | _ \<Rightarrow> False)"

definition is_goal_marker :: "dict \<Rightarrow> string \<Rightarrow> bool" where
  "is_goal_marker payload turn \<longleftrightarrow>
     dget payload ''type'' = JStr ''message'' \<and> turn_metadata payload turn \<and>
     dget payload ''role'' = JStr ''user'' \<and>
     (case dget payload ''content'' of JList items \<Rightarrow> list_ex goal_text items | _ \<Rightarrow> False)"

text \<open>Membership in a set of texts hashes the value: a list or an object raises \<open>TypeError\<close>.\<close>

definition in_texts :: "json \<Rightarrow> string list \<Rightarrow> exn + bool" where
  "in_texts v texts =
     (case v of JList _ \<Rightarrow> Inl TypeErr | JObj _ \<Rightarrow> Inl TypeErr | _ \<Rightarrow> Inr (v \<in> JStr ` set texts))"

definition is_model_execution :: "dict \<Rightarrow> string \<Rightarrow> exn + bool" where
  "is_model_execution payload turn =
     (if \<not> turn_metadata payload turn then Inr False
      else if dget payload ''type'' = JStr ''message'' then Inr (dget payload ''role'' = JStr ''assistant'')
      else in_texts (dget payload ''type'')
        [''reasoning'', ''custom_tool_call'', ''function_call'', ''local_shell_call''])"

record turn_evidence =
  te_in_target :: bool
  te_marker_seen :: bool

type_synonym verdict = "exn + bool option \<times> turn_evidence"

definition event_verdict :: "string \<Rightarrow> dict \<Rightarrow> turn_evidence \<Rightarrow> verdict" where
  "event_verdict turn payload ev =
     (if dget payload ''type'' = JStr ''task_started'' then
        (if dget payload ''turn_id'' = JStr turn
         then Inr (None, \<lparr>te_in_target = True, te_marker_seen = False\<rparr>)
         else Inr (if te_in_target ev then Some False else None, ev))
      else if \<not> te_in_target ev then Inr (None, ev)
      else if dget payload ''type'' = JStr ''user_message'' then Inr (Some False, ev)
      else
        ebind (in_texts (dget payload ''type'') [''task_complete'', ''turn_aborted'']) (\<lambda>ended.
        if ended \<and> dget payload ''turn_id'' = JStr turn then Inr (Some False, ev)
        else if dget payload ''type'' = JStr ''agent_message'' \<and> te_marker_seen ev then Inr (Some True, ev)
        else Inr (None, ev)))"

definition observe_record :: "string \<Rightarrow> dict \<Rightarrow> turn_evidence \<Rightarrow> verdict" where
  "observe_record turn r ev =
     (case dget r ''payload'' of
        JObj payload \<Rightarrow>
          if dget r ''type'' = JStr ''event_msg'' then event_verdict turn payload ev
          else if \<not> te_in_target ev then Inr (None, ev)
          else if is_goal_marker payload turn then Inr (None, ev\<lparr>te_marker_seen := True\<rparr>)
          else if te_marker_seen ev
          then ebind (is_model_execution payload turn) (\<lambda>b. Inr (if b then Some True else None, ev))
          else Inr (None, ev)
      | _ \<Rightarrow> Inr (None, ev))"

fun observe_records :: "string \<Rightarrow> dict list \<Rightarrow> turn_evidence \<Rightarrow> verdict" where
  "observe_records turn [] ev = Inr (None, ev)"
| "observe_records turn (r # rs) ev =
     ebind (observe_record turn r ev) (\<lambda>(v, ev').
     case v of Some b \<Rightarrow> Inr (Some b, ev') | None \<Rightarrow> observe_records turn rs ev')"

definition no_evidence :: turn_evidence where
  "no_evidence = \<lparr>te_in_target = False, te_marker_seen = False\<rparr>"

text \<open>
  The polling loop: each round is the rollout as it is read and the clock after it; the last round
  is past the deadline.
\<close>

fun wait_for_native_goal_turn ::
  "limits \<Rightarrow> decoder \<Rightarrow> path \<Rightarrow> string \<Rightarrow> real \<Rightarrow> (rollout option \<times> real) list \<Rightarrow> rollout_cursor \<Rightarrow>
   turn_evidence \<Rightarrow> exn + bool" where
  "wait_for_native_goal_turn lm decode p turn deadline [] cursor ev = Inr False"
| "wait_for_native_goal_turn lm decode p turn deadline ((content, now) # rounds) cursor ev =
     ebind (read_new_records lm decode p content cursor) (\<lambda>batch.
     ebind (observe_records turn (rb_records batch) ev) (\<lambda>(v, ev').
     case v of
       Some b \<Rightarrow> Inr b
     | None \<Rightarrow>
         if deadline - now \<le> 0 then Inr False
         else wait_for_native_goal_turn lm decode p turn deadline rounds (rb_cursor batch) ev'))"

definition require_native_goal_turn :: "exn + bool \<Rightarrow> exn + unit" where
  "require_native_goal_turn verified =
     (case verified of
        Inl e \<Rightarrow> Inl (if os_error e \<or> value_error e then GoalControlError ''goal_turn_source_unverified'' else e)
      | Inr v \<Rightarrow> require v (GoalControlError ''goal_turn_source_unverified''))"

section \<open>Lemmas\<close>

lemma policy_refuses [simp]:
  "sbind policy f s = (Inl (GoalControlError ''goal_companion_atomic_update_unavailable''), s)"
  "sbind (slift (enforce_goal_companion_policy True)) g s =
     (Inl (GoalControlError ''goal_companion_atomic_update_unavailable''), s)"
  by (simp_all add: policy_def enforce_goal_companion_policy_def require_def step_defs)

text \<open>While the policy holds, every operation on a Goal is refused before it does anything.\<close>

lemma goal_operations_refused:
  "set_goal_status M thread status c = (Inl (GoalControlError ''goal_companion_atomic_update_unavailable''), c)"
  "guard_initialize M H recorder s =
     (Inl (GoalControlError ''goal_companion_atomic_update_unavailable''), s)"
  "activate_for_handoff M g = (Inl (GoalControlError ''goal_companion_atomic_update_unavailable''), g)"
  "pause_for_interrupt M g = (Inl (GoalControlError ''goal_companion_atomic_update_unavailable''), g)"
  "restore_initial_active M g = (Inl (GoalControlError ''goal_companion_atomic_update_unavailable''), g)"
  "keep_paused_on_exit g = (Inl (GoalControlError ''goal_companion_atomic_update_unavailable''), g)"
  "status_after_turn M g = (Inl (GoalControlError ''goal_companion_atomic_update_unavailable''), g)"
  by (simp_all add: set_goal_status_def guard_initialize_def activate_for_handoff_def
      pause_for_interrupt_def restore_initial_active_def keep_paused_on_exit_def status_after_turn_def)

lemma fence_refused [simp]:
  "fence_goal_handoff M thread turn s =
     (Inl (GoalControlError ''goal_companion_atomic_update_unavailable''), s)"
  unfolding fence_goal_handoff_def by (subst sbind_def) (simp add: goal_operations_refused)

section \<open>Evidence\<close>

definition event_of :: "dict \<Rightarrow> dict option" where
  "event_of r = (case dget r ''payload'' of
     JObj p \<Rightarrow> if dget r ''type'' = JStr ''event_msg'' then Some p else None | _ \<Rightarrow> None)"

definition item_of :: "dict \<Rightarrow> dict option" where
  "item_of r = (case dget r ''payload'' of
     JObj p \<Rightarrow> if dget r ''type'' = JStr ''event_msg'' then None else Some p | _ \<Rightarrow> None)"

definition starts_turn :: "string \<Rightarrow> dict \<Rightarrow> bool" where
  "starts_turn turn r \<longleftrightarrow> (\<exists>p. event_of r = Some p \<and> dget p ''type'' = JStr ''task_started'' \<and>
     dget p ''turn_id'' = JStr turn)"

definition marks_goal :: "string \<Rightarrow> dict \<Rightarrow> bool" where
  "marks_goal turn r \<longleftrightarrow> (\<exists>p. item_of r = Some p \<and> is_goal_marker p turn)"

definition executes_turn :: "string \<Rightarrow> dict \<Rightarrow> bool" where
  "executes_turn turn r \<longleftrightarrow> (\<exists>p. event_of r = Some p \<and> dget p ''type'' = JStr ''agent_message'') \<or>
     (\<exists>p. item_of r = Some p \<and> is_model_execution p turn = Inr True)"

text \<open>A record that neither starts a turn, nor is visible user input, nor ends the turn.\<close>

definition quiet_record :: "string \<Rightarrow> dict \<Rightarrow> bool" where
  "quiet_record turn r \<longleftrightarrow> (\<forall>p. event_of r = Some p \<longrightarrow>
     dget p ''type'' \<notin> {JStr ''task_started'', JStr ''user_message''} \<and>
     \<not> (dget p ''type'' \<in> {JStr ''task_complete'', JStr ''turn_aborted''} \<and> dget p ''turn_id'' = JStr turn))"

definition executed :: "string \<Rightarrow> dict list \<Rightarrow> bool" where
  "executed turn rs \<longleftrightarrow> (\<exists>post e rest. rs = post @ e # rest \<and> list_all (quiet_record turn) post \<and>
     executes_turn turn e)"

definition marked :: "string \<Rightarrow> dict list \<Rightarrow> bool" where
  "marked turn rs \<longleftrightarrow> (\<exists>mid m rest. rs = mid @ m # rest \<and> list_all (quiet_record turn) mid \<and>
     marks_goal turn m \<and> executed turn rest)"

definition proven :: "string \<Rightarrow> dict list \<Rightarrow> bool" where
  "proven turn rs \<longleftrightarrow> (\<exists>pre s rest. rs = pre @ s # rest \<and> starts_turn turn s \<and> marked turn rest)"

lemma executed_Cons: "executes_turn turn r \<or> quiet_record turn r \<and> executed turn rs \<Longrightarrow> executed turn (r # rs)"
proof (elim disjE conjE)
  assume "executes_turn turn r"
  then show ?thesis unfolding executed_def by (intro exI [of _ "[]"] exI [of _ r] exI [of _ rs]) simp
next
  assume q: "quiet_record turn r" and "executed turn rs"
  then obtain post e rest where "rs = post @ e # rest" "list_all (quiet_record turn) post" "executes_turn turn e"
    unfolding executed_def by blast
  with q show ?thesis
    unfolding executed_def by (intro exI [of _ "r # post"] exI [of _ e] exI [of _ rest]) simp
qed

lemma marked_Cons:
  "marks_goal turn r \<and> executed turn rs \<or> quiet_record turn r \<and> marked turn rs \<Longrightarrow> marked turn (r # rs)"
proof (elim disjE conjE)
  assume "marks_goal turn r" "executed turn rs"
  then show ?thesis unfolding marked_def by (intro exI [of _ "[]"] exI [of _ r] exI [of _ rs]) simp
next
  assume q: "quiet_record turn r" and "marked turn rs"
  then obtain mid m rest where "rs = mid @ m # rest" "list_all (quiet_record turn) mid" "marks_goal turn m"
    "executed turn rest" unfolding marked_def by blast
  with q show ?thesis
    unfolding marked_def by (intro exI [of _ "r # mid"] exI [of _ m] exI [of _ rest]) simp
qed

lemma proven_Cons: "starts_turn turn r \<and> marked turn rs \<or> proven turn rs \<Longrightarrow> proven turn (r # rs)"
  unfolding proven_def by (metis append_Cons append_Nil)

text \<open>One record, and what it makes of the evidence.\<close>

lemma observe_cases:
  assumes "observe_record turn r ev = Inr (v, ev')" and "v \<noteq> Some False"
  shows "(v = None \<and> ev' = ev \<and> (te_in_target ev \<longrightarrow> quiet_record turn r)) \<or>
    (v = None \<and> starts_turn turn r \<and> ev' = \<lparr>te_in_target = True, te_marker_seen = False\<rparr>) \<or>
    (v = None \<and> te_in_target ev \<and> quiet_record turn r \<and> marks_goal turn r \<and> ev' = ev\<lparr>te_marker_seen := True\<rparr>) \<or>
    (v = Some True \<and> te_in_target ev \<and> te_marker_seen ev \<and> executes_turn turn r)"
proof (cases "dget r ''payload''")
  case (JObj p)
  show ?thesis
  proof (cases "dget r ''type'' = JStr ''event_msg''")
    case True
    with JObj have e: "event_of r = Some p" by (simp add: event_of_def)
    have "event_verdict turn p ev = Inr (v, ev')" using assms(1) JObj True by (simp add: observe_record_def)
    then show ?thesis
      using e assms(2)
      by (auto simp: event_verdict_def in_texts_def starts_turn_def quiet_record_def executes_turn_def err_simps
          split: if_splits json.splits)
  next
    case False
    with JObj have "item_of r = Some p" "quiet_record turn r"
      by (simp_all add: event_of_def item_of_def quiet_record_def)
    with assms JObj False show ?thesis
      by (auto simp: observe_record_def marks_goal_def executes_turn_def err_simps split: if_splits)
  qed
qed (use assms in \<open>auto simp: observe_record_def quiet_record_def event_of_def\<close>)

lemma observe_proves:
  "observe_records turn rs ev = Inr (Some True, ev') \<Longrightarrow>
   proven turn rs \<or> te_in_target ev \<and> (marked turn rs \<or> te_marker_seen ev \<and> executed turn rs)"
proof (induction rs arbitrary: ev)
  case (Cons r rs)
  then obtain v ev1 where r: "observe_record turn r ev = Inr (v, ev1)"
    and rest: "(case v of Some b \<Rightarrow> Inr (Some b, ev1) | None \<Rightarrow> observe_records turn rs ev1) = Inr (Some True, ev')"
    by (auto simp: err_simps)
  then have "v \<noteq> Some False" by (auto split: option.splits)
  note c = observe_cases [OF r this]
  show ?case
  proof (cases v)
    case (Some b)
    with c show ?thesis by (auto intro: executed_Cons)
  next
    case None
    with rest have "observe_records turn rs ev1 = Inr (Some True, ev')" by simp
    from Cons.IH [OF this] c None show ?thesis
      by (auto intro: executed_Cons marked_Cons proven_Cons)
  qed
qed simp

section \<open>Properties\<close>

text \<open>
  C21: a turn is accepted as a native Goal continuation only on evidence in its rollout: a record that
  starts exactly this turn, later the internal Goal message of the turn, later an execution by the
  model, and no visible user input, no other start and no end of the turn in between.
\<close>

theorem native_goal_turn_proven:
  assumes "observe_records turn records no_evidence = Inr (Some True, ev)"
  shows "\<exists>pre s mid m post e rest. records = pre @ s # mid @ m # post @ e # rest \<and>
    starts_turn turn s \<and> marks_goal turn m \<and> executes_turn turn e \<and>
    list_all (quiet_record turn) (mid @ post)"
  using observe_proves [OF assms]
  by (force simp: no_evidence_def proven_def marked_def executed_def)

definition ex_goal_records :: "dict list" where
  "ex_goal_records =
     [[(''type'', JStr ''event_msg''), (''payload'', JObj [(''type'', JStr ''task_started''),
        (''turn_id'', JStr ''t'')])],
      [(''type'', JStr ''response_item''), (''payload'', JObj [(''type'', JStr ''message''),
        (''role'', JStr ''user''),
        (''internal_chat_message_metadata_passthrough'', JObj [(''turn_id'', JStr ''t'')]),
        (''content'', JList [JObj [(''type'', JStr ''input_text''),
          (''text'', JStr (goal_context_start @ ''go'' @ goal_context_end))]])])],
      [(''type'', JStr ''event_msg''), (''payload'', JObj [(''type'', JStr ''agent_message'')])]]"

theorem native_goal_turn_proven_witness:
  "\<exists>pre s mid m post e rest. ex_goal_records = pre @ s # mid @ m # post @ e # rest \<and>
     starts_turn ''t'' s \<and> marks_goal ''t'' m \<and> executes_turn ''t'' e \<and>
     list_all (quiet_record ''t'') (mid @ post)"
proof -
  have "goal_text (JObj [(''type'', JStr ''input_text''),
      (''text'', JStr (goal_context_start @ ''go'' @ goal_context_end))])"
    by code_simp
  then have "observe_records ''t'' ex_goal_records no_evidence =
      Inr (Some True, \<lparr>te_in_target = True, te_marker_seen = True\<rparr>)"
    by (simp add: ex_goal_records_def observe_record_def event_verdict_def no_evidence_def in_texts_def
        is_goal_marker_def turn_metadata_def)
  from native_goal_turn_proven [OF this] show ?thesis .
qed

section \<open>What the interface promises\<close>

text \<open>
  The messages an operation writes to the app server: a connection is initialised with two fixed
  messages; a request writes itself at most once, and when its turn cannot be tracked it interrupts
  the turn it has just started; nothing else is ever written.
\<close>

type_synonym sent_message = "string \<times> dict"

definition handshake :: "sent_message \<Rightarrow> bool" where
  "handshake m \<longleftrightarrow> fst m \<in> {''initialize'', ''initialized''}"

definition interrupt_params :: "string \<Rightarrow> string \<Rightarrow> dict" where
  "interrupt_params thread turn = [(''threadId'', JStr thread), (''turnId'', JStr turn)]"

definition request_messages :: "string \<Rightarrow> dict \<Rightarrow> sent_message list \<Rightarrow> bool" where
  "request_messages meth params ms \<longleftrightarrow>
     ms = [] \<or> ms = [(meth, params)] \<or>
     (meth = ''turn/start'' \<and> (\<exists>thread turn. dget params ''threadId'' = JStr thread \<and>
        ms = [(meth, params), (''turn/interrupt'', interrupt_params thread turn)]))"

text \<open>The messages between two states of a client, without the handshakes.\<close>

definition wrote :: "('c \<Rightarrow> sent_message list) \<Rightarrow> 'c \<Rightarrow> 'c \<Rightarrow> sent_message list \<Rightarrow> bool" where
  "wrote sent c c' ms \<longleftrightarrow>
     (\<exists>new. sent c' = sent c @ new \<and> filter (\<lambda>m. \<not> handshake m) new = ms)"

lemma wrote_refl [simp, intro]: "wrote sent c c []"
  by (simp add: wrote_def)

lemma wrote_trans: "wrote sent c c1 xs \<Longrightarrow> wrote sent c1 c2 ys \<Longrightarrow> wrote sent c c2 (xs @ ys)"
  by (force simp: wrote_def)

locale managed_app_server =
  fixes M :: "'c managed_server" and sent :: "'c \<Rightarrow> sent_message list"
  assumes start_writes: "wrote sent c (snd (ms_start M c)) []"
    and request_writes: "\<not> handshake (meth, params) \<Longrightarrow>
      \<exists>ms. wrote sent c (snd (ms_request M meth params t c)) ms \<and> request_messages meth params ms"
    and request_accepted: "\<not> handshake (meth, params) \<Longrightarrow> ms_request M meth params t c = (Inr r, c') \<Longrightarrow>
      wrote sent c c' [(meth, params)]"
    and pending_writes: "wrote sent c (snd (ms_pending M c)) []"
    and active_writes: "wrote sent c (snd (ms_active M thread c)) []"
    and completed_writes: "wrote sent c (snd (ms_completed M turn c)) []"
    and outcome_writes: "wrote sent c (snd (ms_outcome M turn c)) []"
    and latest_writes: "wrote sent c (snd (ms_latest M thread c)) []"
    and wait_started_writes: "wrote sent c (snd (ms_wait_started M thread turn c)) []"
    and wait_completed_writes: "wrote sent c (snd (ms_wait_completed M turn c)) []"
    and wait_next_writes: "wrote sent c (snd (ms_wait_next M thread previous c)) []"

end
