(* ===== verification/AppServerClient.thy ===== *)
theory AppServerClient
  imports GoalControl
begin

text \<open>
  \<open>scripts/app_server_client.py\<close>: the resident client of one app-server process, on the protocol state
  of AppServerEvents. The reader threads and the clock are a schedule: at each acquisition of the
  condition the next arrival brings the events read since, the time and whether the child still runs.
  Everything written to the child is kept in \<open>rs_sent\<close>, which no operation of the code reads.
\<close>

section \<open>The client\<close>

record arrival =
  ar_events :: "stream_event list"
  ar_clock :: real
  ar_running :: bool

record app_client =
  rs_process :: "bool option"
  rs_stream :: activity_stream
  rs_sent :: "dict list"
  rs_drawn :: nat
  rs_clock :: real
  rs_future :: "arrival list"

text \<open>
  Outside: the resolution of the executable, whether the child can be started, the random request
  identifiers and \<open>str\<close> of a JSON value.
\<close>

record client_env =
  cn_executable :: "exn + unit"
  cn_spawn :: bool
  cn_uuid :: "nat \<Rightarrow> string"
  cn_str :: "json \<Rightarrow> string"

definition new_client :: "real \<Rightarrow> arrival list \<Rightarrow> app_client" where
  "new_client now future = \<lparr>rs_process = None, rs_stream = new_stream, rs_sent = [], rs_drawn = 0,
     rs_clock = now, rs_future = future\<rparr>"

abbreviation rs_events :: "app_client \<Rightarrow> event_state" where
  "rs_events c \<equiv> as_events (rs_stream c)"

definition running :: "app_client \<Rightarrow> bool" where
  "running c \<longleftrightarrow> rs_process c = Some True"

definition arrive :: "app_client \<Rightarrow> app_client" where
  "arrive c =
     (case rs_future c of
        [] \<Rightarrow> c
      | a # later \<Rightarrow> c\<lparr>rs_stream := snd (run_stream (ar_events a) (rs_stream c)), rs_clock := ar_clock a,
          rs_process := map_option (\<lambda>alive. alive \<and> ar_running a) (rs_process c),
          rs_future := later\<rparr>)"

definition on_events :: "(exn, event_state, 'a) step \<Rightarrow> (exn, app_client, 'a) step" where
  "on_events m c = (case m (rs_events c) of
     (r, s) \<Rightarrow> (r, c\<lparr>rs_stream := (rs_stream c)\<lparr>as_events := s\<rparr>\<rparr>))"

text \<open>\<open>_write\<close>: a pipe whose reader has died raises \<open>OSError\<close>.\<close>

definition write_message :: "dict \<Rightarrow> (exn, app_client, unit) step" where
  "write_message payload c =
     (case rs_process c of
        None \<Rightarrow> (Inl (AppServerErr ''resident_app_server_stdin_unavailable''), c)
      | Some False \<Rightarrow> (Inl OSErr, c)
      | Some True \<Rightarrow> (Inr (), c\<lparr>rs_sent := rs_sent c @ [payload]\<rparr>))"

definition notify :: "string \<Rightarrow> dict \<Rightarrow> (exn, app_client, unit) step" where
  "notify meth params = write_message [(''method'', JStr meth), (''params'', JObj params)]"

definition raise_if_closed :: "string \<Rightarrow> app_client \<Rightarrow> exn + unit" where
  "raise_if_closed label c =
     (case as_closed_error (rs_stream c) of
        Some err \<Rightarrow> if running c then Inr () else Inl (AppServerErr (label @ ''_failed:'' @ err))
      | None \<Rightarrow> Inr ())"

text \<open>
  The loops of \<open>_wait_for\<close> and \<open>_request_started\<close>: probe, fail when the connection is closed, give up
  (\<open>None\<close>) at the deadline, otherwise wait for the next arrival. When nothing more arrives the wait
  ends at its deadline.
\<close>

function wait_loop ::
  "(event_state \<Rightarrow> 'a option \<times> event_state) \<Rightarrow> string \<Rightarrow> real \<Rightarrow> (exn, app_client, 'a option) step" where
  "wait_loop probe label deadline c0 =
     (let c = arrive c0; (found, s) = probe (rs_events c);
          c1 = c\<lparr>rs_stream := (rs_stream c)\<lparr>as_events := s\<rparr>\<rparr>
      in case found of
           Some x \<Rightarrow> (Inr (Some x), c1)
         | None \<Rightarrow>
             (case raise_if_closed label c1 of
                Inl e \<Rightarrow> (Inl e, c1)
              | Inr _ \<Rightarrow>
                  if deadline - rs_clock c1 \<le> 0 \<or> rs_future c0 = [] then (Inr None, c1)
                  else wait_loop probe label deadline c1))"
  by pat_completeness auto
termination
  by (relation "measure (\<lambda>(probe, label, deadline, c). length (rs_future c))")
    (auto simp: arrive_def split: list.splits)

declare wait_loop.simps [simp del]

definition wait_for :: "(event_state \<Rightarrow> bool) \<Rightarrow> real \<Rightarrow> (exn, app_client, bool) step" where
  "wait_for P timeout c =
     (case wait_loop (\<lambda>s. (if P s then Some () else None, s)) ''notification'' (rs_clock c + timeout) c of
        (Inl e, c') \<Rightarrow> (Inl e, c') | (Inr r, c') \<Rightarrow> (Inr (r \<noteq> None), c'))"

section \<open>Requests\<close>

definition result_turn_id :: "dict \<Rightarrow> string option" where
  "result_turn_id result =
     (case dget result ''turn'' of
        JObj turn \<Rightarrow> (case dget turn ''id'' of JStr s \<Rightarrow> if s = [] then None else Some s | _ \<Rightarrow> None)
      | _ \<Rightarrow> None)"


definition correlate_start_response :: "string \<Rightarrow> dict \<Rightarrow> dict \<Rightarrow> (exn, app_client, unit) step" where
  "correlate_start_response meth params result c =
     (if meth \<noteq> ''turn/start'' then (Inr (), c)
      else case (text_field params ''threadId'', result_turn_id result) of
          (Some thread, Some turn) \<Rightarrow>
            (case on_events (correlate_turn (rs_clock c) thread turn) c of
               (Inl (AppServerProtocolError m), c1) \<Rightarrow>
                 sbind (write_message [(''method'', JStr ''turn/interrupt''),
                     (''params'', JObj (interrupt_params thread turn))])
                   (\<lambda>_. slift (Inl (AppServerProtocolError m))) c1
             | r \<Rightarrow> r)
        | _ \<Rightarrow> (Inr (), c))"

definition request_started ::
  "client_env \<Rightarrow> string \<Rightarrow> dict \<Rightarrow> time \<Rightarrow> (exn, app_client, dict) step" where
  "request_started N meth params timeout c0 =
     (let rid = cn_uuid N (rs_drawn c0); c = c0\<lparr>rs_drawn := rs_drawn c0 + 1\<rparr>
      in case write_message [(''id'', JStr rid), (''method'', JStr meth), (''params'', JObj params)] c of
         (Inl e, c1) \<Rightarrow> (Inl e, c1)
       | (Inr _, c1) \<Rightarrow>
           (case wait_loop (take_response rid) meth (rs_clock c1 + timeout) c1 of
              (Inl e, c2) \<Rightarrow> (Inl e, c2)
            | (Inr None, c2) \<Rightarrow> (Inl (AppServerErr (meth @ ''_response_timeout'')), c2)
            | (Inr (Some response), c2) \<Rightarrow>
                sbind (slift (response_result (cn_str N) meth response)) (\<lambda>result.
                sbind (correlate_start_response meth params result) (\<lambda>_.
                sret result)) c2))"

definition close_client :: "app_client \<Rightarrow> app_client" where
  "close_client c =
     (if rs_process c = None then c
      else c\<lparr>rs_process := None,
             rs_stream := snd (mark_closed ''resident_app_server_closed'' None (rs_stream c))\<rparr>)"

definition initialize_params :: dict where
  "initialize_params =
     [(''clientInfo'', JObj [(''name'', JStr ''codex-must-work''), (''title'', JStr ''Codex Must Work''),
        (''version'', JStr ''0.1.0'')]), (''capabilities'', JObj [(''experimentalApi'', JBool True)])]"

text \<open>Only \<open>AppServerError\<close> closes the process again; its base class does not.\<close>

definition start_client :: "client_env \<Rightarrow> (exn, app_client, unit) step" where
  "start_client N c =
     (if running c then (Inr (), c)
      else case cn_executable N of
          Inl e \<Rightarrow> (Inl e, c)
        | Inr _ \<Rightarrow>
            if \<not> cn_spawn N then (Inl (AppServerErr ''resident_app_server_start_failed''), c)
            else
              (case sbind (request_started N ''initialize'' initialize_params 8) (\<lambda>_.
                    notify ''initialized'' [])
                  (c\<lparr>rs_stream := reset_stream (rs_stream c), rs_process := Some True\<rparr>) of
                 (Inl (AppServerErr m), c1) \<Rightarrow> (Inl (AppServerErr m), close_client c1)
               | r \<Rightarrow> r))"

definition request :: "client_env \<Rightarrow> string \<Rightarrow> dict \<Rightarrow> time \<Rightarrow> (exn, app_client, dict) step" where
  "request N meth params timeout =
     sbind (start_client N) (\<lambda>_. request_started N meth params timeout)"

section \<open>Observations\<close>

definition seeing :: "(event_state \<Rightarrow> 'a) \<Rightarrow> (exn, app_client, 'a) step" where
  "seeing f c = (Inr (f (rs_events (arrive c))), arrive c)"

definition wait_turn_started :: "string \<Rightarrow> string \<Rightarrow> (exn, app_client, bool) step" where
  "wait_turn_started thread turn =
     sbind (wait_for (\<lambda>s. was_started s turn \<or> was_completed s turn) 12) (\<lambda>seen.
     if \<not> seen then sret False
     else (\<lambda>c. on_events (bind_started_turn (rs_clock (arrive c)) thread turn) (arrive c)))"

definition wait_turn_completed :: "string \<Rightarrow> (exn, app_client, bool) step" where
  "wait_turn_completed turn = wait_for (\<lambda>s. was_completed s turn) 15"

definition wait_next_turn_started :: "string \<Rightarrow> string option \<Rightarrow> (exn, app_client, string option) step" where
  "wait_next_turn_started thread previous =
     sbind (wait_for (\<lambda>s. latest_started_turn s thread \<noteq> previous) 12) (\<lambda>seen.
     if \<not> seen then sret None else seeing (\<lambda>s. latest_started_turn s thread))"

definition resident_app_server :: "client_env \<Rightarrow> app_client managed_server" where
  "resident_app_server N =
     \<lparr>ms_pending = seeing ev_server_request, ms_start = start_client N, ms_request = request N,
      ms_active = (\<lambda>thread. seeing (\<lambda>s. active_turn s thread)),
      ms_completed = (\<lambda>turn. seeing (\<lambda>s. was_completed s turn)),
      ms_outcome = (\<lambda>turn. seeing (\<lambda>s. turn_outcome_in s turn)),
      ms_latest = (\<lambda>thread. seeing (\<lambda>s. latest_started_turn s thread)),
      ms_wait_started = wait_turn_started, ms_wait_completed = wait_turn_completed,
      ms_wait_next = wait_next_turn_started\<rparr>"

section \<open>Lemmas: what is written\<close>

definition message_of :: "dict \<Rightarrow> sent_message" where
  "message_of d = (case dget d ''method'' of JStr m \<Rightarrow> m | _ \<Rightarrow> [],
     case dget d ''params'' of JObj p \<Rightarrow> p | _ \<Rightarrow> [])"

definition sent_messages :: "app_client \<Rightarrow> sent_message list" where
  "sent_messages c = map message_of (rs_sent c)"

lemma arrive_sent [simp]: "rs_sent (arrive c) = rs_sent c" "rs_drawn (arrive c) = rs_drawn c"
  by (auto simp: arrive_def split: list.splits)

lemma wait_loop_sent [simp]: "rs_sent (snd (wait_loop probe label deadline c)) = rs_sent c"
proof (induction probe label deadline c rule: wait_loop.induct)
  case (1 probe label deadline c0)
  obtain found s where p: "probe (rs_events (arrive c0)) = (found, s)" by fastforce
  show ?case
  proof (cases found)
    case (Some x)
    with p show ?thesis by (subst wait_loop.simps) (simp add: Let_def)
  next
    case None
    let ?c = "arrive c0\<lparr>rs_stream := (rs_stream (arrive c0))\<lparr>as_events := s\<rparr>\<rparr>"
    show ?thesis
    proof (cases "raise_if_closed label ?c")
      case (Inl e)
      with p None show ?thesis by (subst wait_loop.simps) (simp add: Let_def)
    next
      case (Inr u)
      with p None "1.IH" [OF refl refl p [symmetric] refl None Inr] show ?thesis
        by (subst wait_loop.simps) (auto simp: Let_def)
    qed
  qed
qed

lemma wait_loop_eq_sent: "wait_loop probe label deadline c = (r, c') \<Longrightarrow> rs_sent c' = rs_sent c"
  by (metis snd_conv wait_loop_sent)

lemma wait_for_sent [simp]: "rs_sent (snd (wait_for P t c)) = rs_sent c"
  by (auto simp: wait_for_def wait_loop_eq_sent split: prod.splits sum.splits)

lemma on_events_sent [simp]: "rs_sent (snd (on_events m c)) = rs_sent c"
  by (simp add: on_events_def split: prod.splits)

lemma close_sent [simp]: "rs_sent (close_client c) = rs_sent c"
  by (simp add: close_client_def)

lemma write_sent:
  "rs_sent (snd (write_message d c)) = rs_sent c @ (if running c then [d] else [])"
  "fst (write_message d c) = Inr () \<longleftrightarrow> running c"
  by (auto simp: write_message_def running_def split: option.splits bool.splits)

text \<open>Exactly the messages an operation appends.\<close>

definition appends :: "app_client \<Rightarrow> app_client \<Rightarrow> dict list \<Rightarrow> bool" where
  "appends c c' ds \<longleftrightarrow> rs_sent c' = rs_sent c @ ds"

definition request_message :: "string \<Rightarrow> string \<Rightarrow> dict \<Rightarrow> dict" where
  "request_message rid meth params = [(''id'', JStr rid), (''method'', JStr meth), (''params'', JObj params)]"

definition interrupt_message :: "string \<Rightarrow> string \<Rightarrow> dict" where
  "interrupt_message thread turn =
     [(''method'', JStr ''turn/interrupt''), (''params'', JObj (interrupt_params thread turn))]"

lemma correlate_sent:
  "\<exists>ds. appends c (snd (correlate_start_response meth params result c)) ds \<and>
     (ds = [] \<or> meth = ''turn/start'' \<and> fst (correlate_start_response meth params result c) \<noteq> Inr () \<and>
        (\<exists>thread turn. text_field params ''threadId'' = Some thread \<and> ds = [interrupt_message thread turn]))"
proof -
  have "rs_sent (snd (on_events (correlate_turn (rs_clock c) thread turn) c)) = rs_sent c" for thread turn
    by simp
  then have e: "on_events (correlate_turn (rs_clock c) thread turn) c = (r, c') \<Longrightarrow> rs_sent c' = rs_sent c" for thread turn r c'
    by (metis snd_conv)
  show ?thesis
    by (auto simp: correlate_start_response_def appends_def sbind_def slift_def interrupt_message_def
        write_message_def split: option.split sum.split prod.split exn.split bool.split dest!: e)
qed

lemma request_started_sent:
  "\<exists>ds. appends c (snd (request_started N meth params t c)) ds \<and>
     (ds = [] \<or> (\<exists>rid. ds = [request_message rid meth params]) \<or>
      meth = ''turn/start'' \<and> (\<exists>rid thread turn. text_field params ''threadId'' = Some thread \<and>
        ds = [request_message rid meth params, interrupt_message thread turn])) \<and>
     (\<forall>r. fst (request_started N meth params t c) = Inr r \<longrightarrow> (\<exists>rid. ds = [request_message rid meth params]))"
proof -
  let ?rid = "cn_uuid N (rs_drawn c)" and ?c = "c\<lparr>rs_drawn := rs_drawn c + 1\<rparr>"
  let ?m = "request_message ?rid meth params"
  obtain w c1 where w: "write_message ?m ?c = (w, c1)" by fastforce
  show ?thesis
  proof (cases w)
    case (Inl e)
    then have "\<not> running ?c" using w write_sent(2) [of ?m ?c] by auto
    then have "rs_sent c1 = rs_sent c" using w write_sent(1) [of ?m ?c] by simp
    then show ?thesis
      using w Inl by (intro exI [of _ "[]"]) (simp add: request_started_def request_message_def appends_def)
  next
    case (Inr u)
    then have "running ?c" using w write_sent(2) [of ?m ?c] by simp
    then have s1: "rs_sent c1 = rs_sent c @ [?m]" using w write_sent(1) [of ?m ?c] by simp
    obtain f c2 where f: "wait_loop (take_response ?rid) meth (rs_clock c1 + t) c1 = (f, c2)" by fastforce
    then have s2: "rs_sent c2 = rs_sent c @ [?m]" using s1 by (simp add: wait_loop_eq_sent)
    show ?thesis
    proof (cases "\<exists>response result. f = Inr (Some response) \<and> response_result (cn_str N) meth response = Inr result")
      case True
      then obtain response result where fr: "f = Inr (Some response)"
        "response_result (cn_str N) meth response = Inr result" by blast
      obtain ds where ds: "appends c2 (snd (correlate_start_response meth params result c2)) ds"
        and d: "ds = [] \<or> meth = ''turn/start'' \<and> fst (correlate_start_response meth params result c2) \<noteq> Inr () \<and>
          (\<exists>thread turn. text_field params ''threadId'' = Some thread \<and> ds = [interrupt_message thread turn])"
        using correlate_sent by blast
      have "snd (request_started N meth params t c) = snd (correlate_start_response meth params result c2)"
        "fst (request_started N meth params t c) =
          (case fst (correlate_start_response meth params result c2) of Inl e \<Rightarrow> Inl e | Inr _ \<Rightarrow> Inr result)"
        using w Inr f fr by (auto simp: request_started_def request_message_def Let_def sbind_def slift_def
            sret_def split: prod.split sum.split)
      with ds d s2 show ?thesis
        by (intro exI [of _ "?m # ds"]) (auto simp: appends_def split: sum.splits)
    next
      case False
      then have "snd (request_started N meth params t c) = c2"
        "\<forall>r. fst (request_started N meth params t c) \<noteq> Inr r"
        using w Inr f by (auto simp: request_started_def request_message_def Let_def sbind_def slift_def
            split: prod.split sum.split option.split)
      with s2 show ?thesis by (intro exI [of _ "[?m]"]) (auto simp: appends_def)
    qed
  qed
qed

lemma message_of_simps [simp]:
  "message_of (request_message rid meth params) = (meth, params)"
  "message_of (interrupt_message thread turn) = (''turn/interrupt'', interrupt_params thread turn)"
  "message_of [(''method'', JStr meth), (''params'', JObj params)] = (meth, params)"
  by (simp_all add: message_of_def request_message_def interrupt_message_def)

lemma appends_wrote:
  "appends c c' ds \<Longrightarrow> wrote sent_messages c c' (filter (\<lambda>m. \<not> handshake m) (map message_of ds))"
  by (auto simp: appends_def wrote_def sent_messages_def)

lemma same_sent_wrote: "rs_sent c' = rs_sent c \<Longrightarrow> wrote sent_messages c c' []"
  using appends_wrote [of c c' "[]"] by (simp add: appends_def)

lemma start_sent: "\<exists>ds. appends c (snd (start_client N c)) ds \<and> list_all (\<lambda>d. handshake (message_of d)) ds"
proof (cases "running c \<or> (\<exists>e. cn_executable N = Inl e) \<or> \<not> cn_spawn N")
  case True
  then have "snd (start_client N c) = c" by (auto simp: start_client_def split: sum.splits)
  then show ?thesis by (intro exI [of _ "[]"]) (simp add: appends_def)
next
  case False
  then obtain u where ok: "\<not> running c" "cn_executable N = Inr u" "cn_spawn N"
    by (cases "cn_executable N") auto
  let ?c = "c\<lparr>rs_stream := reset_stream (rs_stream c), rs_process := Some True\<rparr>"
  obtain r c1 where r: "request_started N ''initialize'' initialize_params 8 ?c = (r, c1)" by fastforce
  obtain ds where ds: "appends ?c c1 ds" "list_all (\<lambda>d. handshake (message_of d)) ds"
    using request_started_sent [of ?c N "''initialize''" initialize_params 8] r
    by (auto simp: handshake_def)
  show ?thesis
  proof (cases r)
    case (Inl e)
    then have "rs_sent (snd (start_client N c)) = rs_sent c1"
      using ok r by (auto simp: start_client_def sbind_def split: exn.split)
    with ds show ?thesis by (intro exI [of _ ds]) (simp add: appends_def)
  next
    case (Inr u)
    let ?n = "[(''method'', JStr ''initialized''), (''params'', JObj [])]"
    have "rs_sent (snd (start_client N c)) = rs_sent (snd (write_message ?n c1))"
      using ok r Inr by (auto simp: start_client_def sbind_def notify_def split: exn.split sum.split prod.split)
    then have "rs_sent (snd (start_client N c)) = rs_sent c1 @ (if running c1 then [?n] else [])"
      by (simp add: write_sent)
    with ds show ?thesis
      by (intro exI [of _ "ds @ (if running c1 then [?n] else [])"]) (simp add: appends_def handshake_def)
  qed
qed

lemma filter_handshakes:
  "list_all (\<lambda>d. handshake (message_of d)) ds \<Longrightarrow> filter (\<lambda>m. \<not> handshake m) (map message_of ds) = []"
  by (auto simp: list_all_iff filter_empty_conv)

lemma text_field_dget: "text_field d k = Some s \<Longrightarrow> dget d k = JStr s"
  by (auto simp: text_field_def split: json.splits if_splits)

lemma request_wrote:
  assumes "\<not> handshake (meth, params)"
  shows "\<exists>ms. wrote sent_messages c (snd (request N meth params t c)) ms \<and> request_messages meth params ms \<and>
    (\<forall>r. fst (request N meth params t c) = Inr r \<longrightarrow> ms = [(meth, params)])"
proof -
  obtain r c1 where r: "start_client N c = (r, c1)" by fastforce
  obtain ds0 where "appends c c1 ds0" "list_all (\<lambda>d. handshake (message_of d)) ds0"
    using start_sent [of c N] r by auto
  then have w0: "wrote sent_messages c c1 []" using appends_wrote filter_handshakes by metis
  show ?thesis
  proof (cases r)
    case (Inl e)
    with r w0 show ?thesis by (intro exI [of _ "[]"]) (simp add: request_def sbind_def request_messages_def)
  next
    case (Inr u)
    then have q: "request N meth params t c = request_started N meth params t c1"
      using r by (simp add: request_def sbind_def)
    from request_started_sent [of c1 N meth params t, folded q]
    obtain ds where ds: "appends c1 (snd (request N meth params t c)) ds"
      and d: "ds = [] \<or> (\<exists>rid. ds = [request_message rid meth params]) \<or>
        meth = ''turn/start'' \<and> (\<exists>rid thread turn. text_field params ''threadId'' = Some thread \<and>
          ds = [request_message rid meth params, interrupt_message thread turn])"
      and ok: "\<forall>r. fst (request N meth params t c) = Inr r \<longrightarrow> (\<exists>rid. ds = [request_message rid meth params])"
      by (elim exE conjE)
    have "wrote sent_messages c (snd (request N meth params t c)) (filter (\<lambda>m. \<not> handshake m) (map message_of ds))"
      using wrote_trans [OF w0 appends_wrote [OF ds]] by (simp only: append_Nil)
    moreover have "request_messages meth params (filter (\<lambda>m. \<not> handshake m) (map message_of ds))"
    proof -
      from d consider "ds = []" | rid where "ds = [request_message rid meth params]"
        | rid thread turn where "meth = ''turn/start''" "text_field params ''threadId'' = Some thread"
          "ds = [request_message rid meth params, interrupt_message thread turn]"
        by blast
      then show ?thesis
      proof cases
        case 3
        then have "filter (\<lambda>m. \<not> handshake m) (map message_of ds) =
            [(meth, params), (''turn/interrupt'', interrupt_params thread turn)]"
          by (simp add: handshake_def)
        with 3(1) text_field_dget [OF 3(2)] show ?thesis unfolding request_messages_def by blast
      qed (use assms in \<open>simp_all add: request_messages_def\<close>)
    qed
    moreover have "filter (\<lambda>m. \<not> handshake m) (map message_of ds) = [(meth, params)]"
      if ret: "fst (request N meth params t c) = Inr r" for r
    proof -
      from ok ret obtain rid where "ds = [request_message rid meth params]" by blast
      with assms show ?thesis by simp
    qed
    ultimately show ?thesis by blast
  qed
qed

lemma seeing_wrote: "wrote sent_messages c (snd (seeing f c)) []"
  by (simp add: seeing_def same_sent_wrote)

lemma sbind_sent:
  assumes "\<And>c. rs_sent (snd (m c)) = rs_sent c" and "\<And>a c. rs_sent (snd (f a c)) = rs_sent c"
  shows "rs_sent (snd (sbind m f c)) = rs_sent c"
  using assms(1) [of c] assms(2) by (auto simp: sbind_def split: prod.split sum.split)

interpretation resident: managed_app_server "resident_app_server N" sent_messages
proof
  show "wrote sent_messages c (snd (ms_start (resident_app_server N) c)) []" for c
    using start_sent [of c N] appends_wrote filter_handshakes unfolding resident_app_server_def by force
  show "\<exists>ms. wrote sent_messages c (snd (ms_request (resident_app_server N) meth params t c)) ms \<and>
      request_messages meth params ms" if "\<not> handshake (meth, params)" for meth params c t
    using request_wrote [OF that, of c N t] by (simp add: resident_app_server_def) blast
  show "wrote sent_messages c c' [(meth, params)]"
    if "\<not> handshake (meth, params)" "ms_request (resident_app_server N) meth params t c = (Inr r, c')"
    for meth params t c r c'
    using request_wrote [OF that(1), of c N t] that(2) unfolding resident_app_server_def by fastforce
  show "wrote sent_messages c (snd (ms_wait_started (resident_app_server N) thread turn c)) []" for thread turn c
    unfolding resident_app_server_def
    by (simp add: wait_turn_started_def sret_def same_sent_wrote sbind_sent)
  show "wrote sent_messages c (snd (ms_wait_completed (resident_app_server N) turn c)) []" for turn c
    by (simp add: resident_app_server_def wait_turn_completed_def same_sent_wrote)
  show "wrote sent_messages c (snd (ms_wait_next (resident_app_server N) thread previous c)) []"
    for thread previous c
    unfolding resident_app_server_def
    by (simp add: wait_next_turn_started_def sret_def seeing_def same_sent_wrote sbind_sent)
qed (simp_all add: resident_app_server_def seeing_wrote)

end
