(* ===== verification/RestartGuard.thy ===== *)
theory RestartGuard
  imports ManagerState WatcherProgress WatcherSource Silence
begin

text \<open>
  \<open>scripts/manager_restart_guard.py\<close> with the managed view of \<open>scripts/watcher_state.py\<close> and
  \<open>watcher_models.py\<close>: the manager claims a restart request under the document lock, after it has
  read the document and the unread rollout records again. The clock of a claim is an argument.
\<close>

section \<open>The managed view of a session\<close>

record managed_target =
  wt_session :: string
  wt_file :: path
  wt_rollout :: path
  wt_parent_turn :: "string option"
  wt_parent_complete :: bool
  wt_observe_only :: bool
  wt_managed_mode :: bool
  wt_manager_ready :: bool
  wt_managed_turn :: "string option"
  wt_thresholds :: restart_thresholds
  wt_auto_restart :: bool
  wt_activity :: int
  wt_revision :: int
  wt_parent :: "monitor_target option"
  wt_children :: "monitor_target list"

definition managed_targets :: "managed_target \<Rightarrow> monitor_target list" where
  "managed_targets t = (case wt_parent t of None \<Rightarrow> wt_children t | Some m \<Rightarrow> m # wt_children t)"

definition get_optional_boolean :: "dict \<Rightarrow> string \<Rightarrow> path \<Rightarrow> bool \<Rightarrow> exn + bool" where
  "get_optional_boolean values key p dflt =
     (case dget_or values key (JBool dflt) of JBool b \<Rightarrow> Inr b | _ \<Rightarrow> Inl (bad_value p))"

definition managed_thresholds :: "int \<Rightarrow> int \<Rightarrow> path \<Rightarrow> exn + restart_thresholds" where
  "managed_thresholds w c p =
     (case mk_restart_thresholds (Fin (of_int w / 1000)) (Fin (of_int c / 1000)) of
        Inl _ \<Rightarrow> Inl (bad_value p) | Inr th \<Rightarrow> Inr th)"

definition managed_target_from_values ::
  "pylib \<Rightarrow> fs_env \<Rightarrow> path \<Rightarrow> path \<Rightarrow> dict \<Rightarrow> exn + managed_target" where
  "managed_target_from_values lib env home p values =
     ebind (get_string values ''session_id'' p) (\<lambda>sid.
     if runtime_path (sha lib) home sid \<noteq> p then Inl (bad_value p)
     else
       ebind (get_string values ''transcript_path'' p) (\<lambda>transcript.
       ebind (optional_string_value values ''parent_turn_id'' p) (\<lambda>turn.
       ebind (get_integer values ''warning_after_ms'' p 1) (\<lambda>w.
       ebind (get_integer values ''restart_after_ms'' p 1) (\<lambda>c.
       ebind (managed_thresholds w c p) (\<lambda>th.
       ebind (resolve_rollout_path env home transcript) (\<lambda>rollout.
       ebind (get_boolean values ''parent_complete'' p) (\<lambda>complete.
       ebind (get_boolean values ''observe_only'' p) (\<lambda>observe.
       ebind (get_optional_boolean values ''managed_mode'' p False) (\<lambda>managed.
       ebind (get_optional_boolean values ''manager_ready'' p False) (\<lambda>ready.
       ebind (optional_string_value values ''managed_turn_id'' p) (\<lambda>managed_turn.
       ebind (get_boolean values ''auto_restart_requested_by_user'' p) (\<lambda>auto_restart.
       ebind (get_optional_integer values ''turn_activity_epoch'' p 0) (\<lambda>activity.
       ebind (get_optional_integer values ''revision'' p 0) (\<lambda>rev.
       ebind (target_parent lib values p) (\<lambda>parent.
       ebind (target_children lib values p) (\<lambda>kids.
       Inr \<lparr>wt_session = sid, wt_file = p, wt_rollout = rollout, wt_parent_turn = turn,
            wt_parent_complete = complete, wt_observe_only = observe, wt_managed_mode = managed,
            wt_manager_ready = ready, wt_managed_turn = managed_turn, wt_thresholds = th,
            wt_auto_restart = auto_restart, wt_activity = activity, wt_revision = rev,
            wt_parent = parent, wt_children = kids\<rparr>)))))))))))))))))"

section \<open>Claims\<close>

datatype interrupt_claim = CLAIM_MATCHED | CLAIM_UNCLAIMED | CLAIM_EXPIRED | CLAIM_MISMATCH

definition classify_interrupt_claim :: "manager_runtime \<Rightarrow> string \<Rightarrow> time \<Rightarrow> interrupt_claim" where
  "classify_interrupt_claim rt turn now =
     (if \<not> mr_claimed rt then CLAIM_UNCLAIMED
      else case (mr_request rt, mr_claimed_at rt) of
          (Some request, Some claimed_at) \<Rightarrow>
            if rq_turn request \<noteq> turn then CLAIM_MISMATCH
            else if \<not> restart_claim_is_current claimed_at now then CLAIM_EXPIRED
            else CLAIM_MATCHED
        | _ \<Rightarrow> CLAIM_MISMATCH)"

definition monitor_requested :: "restart_request \<Rightarrow> monitor_target \<Rightarrow> bool" where
  "monitor_requested request m \<longleftrightarrow>
     target_id m = rq_target request \<and> generation m = rq_generation request"

definition ownership_matches :: "managed_target \<Rightarrow> restart_request \<Rightarrow> bool" where
  "ownership_matches t request \<longleftrightarrow>
     wt_managed_mode t \<and> wt_manager_ready t \<and> wt_managed_turn t = Some (rq_turn request) \<and>
     wt_parent_turn t = Some (rq_turn request) \<and> wt_activity t = rq_activity request \<and>
     list_ex (\<lambda>m. monitor_requested request m \<and> progress_epoch m = rq_progress request \<and>
       \<not> mt_terminal m) (managed_targets t)"

definition requested_monitor :: "managed_target \<Rightarrow> restart_request \<Rightarrow> monitor_target option" where
  "requested_monitor t request = List.find (monitor_requested request) (managed_targets t)"

definition clear_request :: "path \<Rightarrow> dict \<Rightarrow> exn + dict" where
  "clear_request p values = bump_revision p (release_claim values)"

definition validated_target ::
  "manager_env \<Rightarrow> manager_runtime \<Rightarrow> restart_request \<Rightarrow> dict \<Rightarrow> exn + managed_target option \<times> dict" where
  "validated_target E rt request values =
     ebind (restart_request_from_values values (mr_file rt)) (\<lambda>current.
     if current \<noteq> Some request then Inr (None, values)
     else
       ebind (managed_target_from_values (mg_lib E) (mg_fs E) (mg_home E) (mr_file rt) values) (\<lambda>t.
       if ownership_matches t request then Inr (Some t, values)
       else ebind (clear_request (mr_file rt) values) (\<lambda>v. Inr (None, v))))"

text \<open>
  \<open>_request_is_fresh\<close>; a stale request is cleared in the values, which the caller's transaction
  writes also when the answer is no. The cursor is read from the store \<open>st\<close> as it is then.
\<close>

definition request_is_fresh ::
  "manager_env \<Rightarrow> source_env \<Rightarrow> store \<Rightarrow> manager_runtime \<Rightarrow> dict \<Rightarrow> exn + bool \<times> dict" where
  "request_is_fresh E so st rt values =
     (case mr_request rt of
        None \<Rightarrow> Inr (False, values)
      | Some request \<Rightarrow>
          ebind (validated_target E rt request values) (\<lambda>(validated, values1).
          case validated of
            None \<Rightarrow> Inr (False, values1)
          | Some t \<Rightarrow>
              ebind (runtime_target_from_values (mg_lib E) (mg_fs E) (mg_home E) (mr_file rt) values1) (\<lambda>passive.
              ebind (read_target_batch so (mg_lib E) (mg_fs E) (mg_home E) passive st) (\<lambda>batch.
              if previous_cursor batch = None \<or> requested_monitor t request = None \<or>
                 list_ex (\<lambda>e. event_is_turn_activity e passive) (batch_events batch)
              then ebind (clear_request (mr_file rt) values1) (\<lambda>v. Inr (False, v))
              else Inr (True, values1)))))"

definition claim_values ::
  "manager_env \<Rightarrow> source_env \<Rightarrow> store \<Rightarrow> time \<Rightarrow> manager_runtime \<Rightarrow> dict \<Rightarrow> exn + bool \<times> dict" where
  "claim_values E so st now rt values =
     (if dget values ''restart_claimed'' \<noteq> JBool False then Inr (False, values)
      else ebind (request_is_fresh E so st rt values) (\<lambda>(fresh, values1).
        if \<not> fresh then Inr (False, values1)
        else ebind (bump_revision (mr_file rt) (dsets [(''restart_claimed'', JBool True),
               (''restart_claimed_at'', JStr (toiso (mg_lib E) now))] values1)) (\<lambda>v. Inr (True, v))))"

definition claim_restart_request ::
  "manager_env \<Rightarrow> source_env \<Rightarrow> time \<Rightarrow> manager_runtime \<Rightarrow> store \<Rightarrow> (exn + bool) \<times> store" where
  "claim_restart_request E so now rt st =
     (if mr_request rt = None \<or> mr_claimed rt then (Inr False, st)
      else is_true (manager_update E (mr_file rt) (claim_values E so st now rt) st))"

definition restart_request_is_fresh ::
  "manager_env \<Rightarrow> source_env \<Rightarrow> manager_runtime \<Rightarrow> store \<Rightarrow> (exn + bool) \<times> store" where
  "restart_request_is_fresh E so rt st =
     (if mr_request rt = None then (Inr False, st)
      else is_true (manager_update E (mr_file rt) (request_is_fresh E so st rt) st))"

definition clear_values :: "manager_runtime \<Rightarrow> restart_request \<Rightarrow> dict \<Rightarrow> exn + unit \<times> dict" where
  "clear_values rt request values =
     ebind (restart_request_from_values values (mr_file rt)) (\<lambda>current.
     if current = Some request then done_with (clear_request (mr_file rt) values)
     else Inr ((), values))"

definition clear_restart_request ::
  "manager_env \<Rightarrow> manager_runtime \<Rightarrow> store \<Rightarrow> (exn + unit option) \<times> store" where
  "clear_restart_request E rt st =
     (case mr_request rt of
        None \<Rightarrow> (Inr (Some ()), st)
      | Some request \<Rightarrow> manager_update E (mr_file rt) (clear_values rt request) st)"

section \<open>Lemmas\<close>

text \<open>What fresh evidence is, as a predicate on the document and the unread events.\<close>

definition fresh_evidence ::
  "manager_env \<Rightarrow> source_env \<Rightarrow> store \<Rightarrow> path \<Rightarrow> restart_request \<Rightarrow> dict \<Rightarrow> bool" where
  "fresh_evidence E so st p request values \<longleftrightarrow>
     restart_request_from_values values p = Inr (Some request) \<and>
     (\<exists>t passive batch.
        managed_target_from_values (mg_lib E) (mg_fs E) (mg_home E) p values = Inr t \<and>
        ownership_matches t request \<and>
        runtime_target_from_values (mg_lib E) (mg_fs E) (mg_home E) p values = Inr passive \<and>
        read_target_batch so (mg_lib E) (mg_fs E) (mg_home E) passive st = Inr batch \<and>
        previous_cursor batch \<noteq> None \<and>
        \<not> list_ex (\<lambda>e. event_is_turn_activity e passive) (batch_events batch))"

lemma ownership_has_monitor: "ownership_matches t request \<Longrightarrow> requested_monitor t request \<noteq> None"
  by (auto simp: ownership_matches_def requested_monitor_def find_None_iff list_ex_iff)

lemma request_is_fresh_True:
  "request_is_fresh E so st rt values = Inr (True, v) \<longleftrightarrow>
     v = values \<and> (\<exists>request. mr_request rt = Some request \<and>
       fresh_evidence E so st (mr_file rt) request values)"
proof
  assume "request_is_fresh E so st rt values = Inr (True, v)"
  then show "v = values \<and> (\<exists>request. mr_request rt = Some request \<and>
      fresh_evidence E so st (mr_file rt) request values)"
    by (auto simp: request_is_fresh_def validated_target_def fresh_evidence_def err_simps
        split: if_splits option.splits)
next
  assume "v = values \<and> (\<exists>request. mr_request rt = Some request \<and>
      fresh_evidence E so st (mr_file rt) request values)"
  then obtain request where v: "v = values" and r: "mr_request rt = Some request"
    and f: "fresh_evidence E so st (mr_file rt) request values" by blast
  from f obtain t view batch where *:
    "restart_request_from_values values (mr_file rt) = Inr (Some request)"
    "managed_target_from_values (mg_lib E) (mg_fs E) (mg_home E) (mr_file rt) values = Inr t"
    "ownership_matches t request"
    "runtime_target_from_values (mg_lib E) (mg_fs E) (mg_home E) (mr_file rt) values = Inr view"
    "read_target_batch so (mg_lib E) (mg_fs E) (mg_home E) view st = Inr batch"
    "previous_cursor batch \<noteq> None"
    "\<not> list_ex (\<lambda>e. event_is_turn_activity e view) (batch_events batch)"
    unfolding fresh_evidence_def by blast
  with ownership_has_monitor [OF *(3)] r v show "request_is_fresh E so st rt values = Inr (True, v)"
    by (simp add: request_is_fresh_def validated_target_def) auto
qed

lemma request_is_fresh_False:
  assumes "request_is_fresh E so st rt values = Inr (False, v)"
  shows "v = values \<or> clear_request (mr_file rt) values = Inr v"
  using assms by (auto simp: request_is_fresh_def validated_target_def err_simps
      split: if_splits option.splits)

lemma clear_request_Inr:
  "clear_request p values = Inr v \<Longrightarrow> dget v ''restart_request'' = JNull \<and>
     dget v ''restart_claimed'' = JBool False \<and> dget v ''restart_claimed_at'' = JNull \<and>
     owner_of v = owner_of values"
  by (auto simp: clear_request_def release_claim_def err_simps owner_of_def)
    (auto split: json.splits)

text \<open>The result of a locked update, and the document it leaves.\<close>

lemma manager_update_Inr:
  assumes "manager_update E p f st = (Inr (Some r), st')" and "load_state (mg_fs E) (mg_home E) p st = Inr vals"
    and "wf_json (JObj vals)"
  shows "\<exists>vals'. f vals = Inr (r, vals') \<and>
    (dict_eq vals' vals \<and> st' = st \<or> st' = atomic_json_write (abspath p) SCHEMA_VERSION vals' st)"
proof -
  from load_state_safe [OF assms(2)] obtain r' where
    "safe_absolute_path (mg_fs E) (mg_home E) p = Inr (r', abspath p)"
    and "load_state (mg_fs E) r' (abspath p) st = Inr vals" by blast
  with assms(1) show ?thesis
    by (auto simp: manager_update_def locked_update_def mutate_existing_state_def Let_def
        simp del: py_eq.simps split: if_splits sum.splits)
qed

lemma loaded_no_schema: "load_state env home p st = Inr vals \<Longrightarrow> \<not> dhas vals ''schema_version''"
proof -
  assume "load_state env home p st = Inr vals"
  then have "\<exists>d. vals = filter (\<lambda>(k, _). k \<noteq> ''schema_version'') d"
    unfolding load_state_def ebind_eq_Inr
    by (fastforce simp: err_simps split: option.split_asm disk_file.split_asm json.split_asm)
  then show ?thesis by (auto simp: map_of_filter_key)
qed

lemma written_claim:
  assumes "load_state (mg_fs E) (mg_home E) p st = Inr vals" and "wf_json (JObj vals')"
    and "\<not> dhas vals' ''schema_version''"
  shows "\<exists>d. load_state (mg_fs E) (mg_home E) p (atomic_json_write (abspath p) SCHEMA_VERSION vals' st) = Inr d \<and>
    (\<forall>k. map_of d k = map_option jsort (map_of vals' k))"
proof -
  from load_state_safe [OF assms(1)] obtain r' where
    "safe_absolute_path (mg_fs E) (mg_home E) p = Inr (r', abspath p)" by blast
  from load_after_write_eq [OF this assms(2,3), of st] show ?thesis by blast
qed

lemma claim_values_True:
  assumes "claim_values E so st now rt vals = Inr (True, vals')"
  shows "\<exists>request. mr_request rt = Some request \<and> fresh_evidence E so st (mr_file rt) request vals \<and>
    owner_of vals = Owned (rq_turn request) \<and>
    bump_revision (mr_file rt) (dsets [(''restart_claimed'', JBool True),
      (''restart_claimed_at'', JStr (toiso (mg_lib E) now))] vals) = Inr vals'"
proof -
  from assms have "request_is_fresh E so st rt vals = Inr (True, vals)"
    and b: "bump_revision (mr_file rt) (dsets [(''restart_claimed'', JBool True),
      (''restart_claimed_at'', JStr (toiso (mg_lib E) now))] vals) = Inr vals'"
    by (auto simp: claim_values_def err_simps request_is_fresh_True split: if_splits)
  then obtain request where r: "mr_request rt = Some request"
    and f: "fresh_evidence E so st (mr_file rt) request vals" unfolding request_is_fresh_True by blast
  from f obtain t where t: "managed_target_from_values (mg_lib E) (mg_fs E) (mg_home E) (mr_file rt) vals = Inr t"
    "ownership_matches t request" unfolding fresh_evidence_def by blast
  then have "wt_managed_turn t = Some (rq_turn request)" by (simp add: ownership_matches_def)
  moreover from t(1) have "optional_string_value vals ''managed_turn_id'' (mr_file rt) = Inr (wt_managed_turn t)"
    by (auto simp: managed_target_from_values_def err_simps split: if_splits)
  ultimately have "dget vals ''managed_turn_id'' = JStr (rq_turn request)"
    by (auto simp: optional_string_value_def split: json.splits)
  then show ?thesis using r f b by (auto simp: owner_of_def)
qed

section \<open>Properties\<close>

text \<open>
  C8: a restart is claimed once and on fresh evidence: a claim succeeds only when the document still
  holds the request the manager read, the managed turn and the monitored generation are the ones it
  names, the monitor is alive at the recorded epochs and the unread rollout shows no activity; and
  after it no manager can claim again, whatever it has read.
\<close>

theorem restart_claimed_once_on_fresh_evidence:
  assumes "claim_restart_request E so now rt st = (Inr True, st')"
    and "load_state (mg_fs E) (mg_home E) (mr_file rt) st = Inr vals" and "wf_json (JObj vals)"
  shows "\<exists>request. mr_request rt = Some request \<and> fresh_evidence E so st (mr_file rt) request vals \<and>
    owner_of vals = Owned (rq_turn request) \<and>
    (\<forall>so' later rt'. mr_file rt' = mr_file rt \<longrightarrow>
       fst (claim_restart_request E so' later rt' st') \<noteq> Inr True)"
proof -
  from assms(1) have u: "manager_update E (mr_file rt) (claim_values E so st now rt) st = (Inr (Some True), st')"
    by (auto simp: claim_restart_request_def is_true_def split: if_splits prod.splits sum.splits)
  from manager_update_Inr [OF this assms(2,3)] obtain vals' where
    c: "claim_values E so st now rt vals = Inr (True, vals')"
    and st': "dict_eq vals' vals \<and> st' = st \<or>
      st' = atomic_json_write (abspath (mr_file rt)) SCHEMA_VERSION vals' st" by blast
  from claim_values_True [OF c] obtain request where r: "mr_request rt = Some request"
    "fresh_evidence E so st (mr_file rt) request vals" "owner_of vals = Owned (rq_turn request)"
    and b: "bump_revision (mr_file rt) (dsets [(''restart_claimed'', JBool True),
      (''restart_claimed_at'', JStr (toiso (mg_lib E) now))] vals) = Inr vals'" by blast
  from b obtain n where n: "get_optional_integer (dsets [(''restart_claimed'', JBool True),
      (''restart_claimed_at'', JStr (toiso (mg_lib E) now))] vals) ''revision'' (mr_file rt) 0 = Inr n"
    and v': "vals' = dset ''revision'' (JInt (n + 1)) (dsets [(''restart_claimed'', JBool True),
      (''restart_claimed_at'', JStr (toiso (mg_lib E) now))] vals)" by (auto simp: bump_revision_Inr)
  have "get_optional_integer vals ''revision'' (mr_file rt) 0 = Inr n"
    using n by (simp add: get_optional_integer_def)
  then have "\<not> dict_eq vals' vals" unfolding v' by (rule bumped_revision_differs)
  with st' have st': "st' = atomic_json_write (abspath (mr_file rt)) SCHEMA_VERSION vals' st" by blast
  have "wf_json (JObj vals')" unfolding v' using assms(3)
    by (simp del: wf_json.simps(2)) (intro wf_json_dset wf_json.simps(3-) TrueI, simp_all)
  moreover have "\<not> dhas vals' ''schema_version''" unfolding v' using loaded_no_schema [OF assms(2)] by simp
  ultimately obtain d where d: "load_state (mg_fs E) (mg_home E) (mr_file rt) st' = Inr d"
    "\<forall>k. map_of d k = map_option jsort (map_of vals' k)"
    using written_claim [OF assms(2)] unfolding st' by blast
  have "dget d ''restart_claimed'' = JBool True" using d(2) by (simp add: dget_def v')
  then have no: "claim_values E so' st' later rt' d = Inr (False, d)" for so' later rt'
    by (simp add: claim_values_def)
  have "fst (claim_restart_request E so' later rt' st') \<noteq> Inr True" if "mr_file rt' = mr_file rt" for so' later rt'
  proof -
    from load_state_safe [OF d(1)] obtain r' where
      "safe_absolute_path (mg_fs E) (mg_home E) (mr_file rt) = Inr (r', abspath (mr_file rt))"
      and "load_state (mg_fs E) r' (abspath (mr_file rt)) st' = Inr d" by blast
    with no that show ?thesis
      by (auto simp: claim_restart_request_def is_true_def manager_update_def locked_update_def
          mutate_existing_state_def Let_def simp del: py_eq.simps)
  qed
  with r show ?thesis by blast
qed

section \<open>A claimed restart\<close>

definition ex_request :: restart_request where
  "ex_request = \<lparr>rq_id = ''r'', rq_turn = ''u'', rq_target = None, rq_generation = 1,
     rq_progress = 0, rq_activity = 0\<rparr>"

definition ex_guarded :: dict where
  "ex_guarded = [(''observe_only'', JBool False), (''managed_mode'', JBool True),
     (''manager_ready'', JBool True), (''managed_turn_id'', JStr ''u''),
     (''restart_after_ms'', JInt 600000), (''auto_restart_requested_by_user'', JBool True),
     (''restart_claimed'', JBool False), (''restart_request'', JObj [(''request_id'', JStr ''r''),
        (''turn_id'', JStr ''u''), (''target_id'', JNull), (''target_generation'', JInt 1),
        (''progress_epoch'', JInt 0)])] @ ex_values"

definition ex_guarded_runtime :: manager_runtime where
  "ex_guarded_runtime = \<lparr>mr_file = ex_runtime_file, mr_rollout = [''h'', ''t.jsonl''],
     mr_session = ''s'', mr_preset = ''a'', mr_executable = ''e'', mr_request = Some ex_request,
     mr_claimed = False, mr_claimed_at = None, mr_view = undefined, mr_ready = True,
     mr_pid = None, mr_shutdown_requested = False, mr_shutdown_interrupt = False,
     mr_error = None, mr_parent_turn = Some ''u'', mr_goal = None, mr_pending_turn = None,
     mr_pending_timed_out_at = None\<rparr>"

definition ex_quiet :: source_env where
  "ex_quiet = \<lparr>so_limits = rollout_limits, so_decode = ex_decode,
     so_rollouts = [[''h'', ''t.jsonl''] \<mapsto> ex_rollout []]\<rparr>"

definition ex_guarded_store :: store where
  "ex_guarded_store =
     [ex_runtime_file \<mapsto> Regular (Some (JObj ((''schema_version'', JInt 1) # ex_guarded))),
      [''h'', ''p'', ''cursors'', ''s.json''] \<mapsto> Regular (Some (JObj [(''schema_version'', JInt 1),
        (''device'', JInt 1), (''file_id'', JInt 2), (''offset'', JInt 0)]))]"


lemma ex_guarded_loads:
  "load_state ex_env [''h'', ''p''] ex_runtime_file ex_guarded_store = Inr ex_guarded"
  "load_state ex_env [''h'', ''p''] [''h'', ''p'', ''cursors'', ''s.json''] ex_guarded_store =
     Inr [(''device'', JInt 1), (''file_id'', JInt 2), (''offset'', JInt 0)]"
proof -
  have d: "ensure_existing_components_are_direct ex_env h p = Inr ()" for h p
    by (rule no_redirects) (simp add: ex_env_def)
  have c: "safe_absolute_path ex_env [''h'', ''p''] [''h'', ''p'', ''cursors'', ''s.json''] =
      Inr ([''h'', ''p''], [''h'', ''p'', ''cursors'', ''s.json''])"
    by (simp add: safe_absolute_path_Inr no_redirects ex_env_def abspath_def strictly_below_def)
  show "load_state ex_env [''h'', ''p''] ex_runtime_file ex_guarded_store = Inr ex_guarded"
    using d ex_safe by (simp add: load_state_def ensure_direct_regular_file_def ex_guarded_store_def
        check_schema_def SCHEMA_VERSION_def ex_runtime_file_def)
      (simp add: ex_guarded_def ex_values_def)
  show "load_state ex_env [''h'', ''p''] [''h'', ''p'', ''cursors'', ''s.json''] ex_guarded_store =
     Inr [(''device'', JInt 1), (''file_id'', JInt 2), (''offset'', JInt 0)]"
    using d c by (simp add: load_state_def ensure_direct_regular_file_def ex_guarded_store_def
        check_schema_def SCHEMA_VERSION_def ex_runtime_file_def)
qed

lemmas ex_guarded_fields = ex_guarded_def ex_values_def get_string_def get_integer_def get_boolean_def
  get_optional_boolean_def get_optional_integer_def optional_string_value_def parse_parent_turn_def
  critical_ms_def parse_thresholds_def mk_thresholds_def managed_thresholds_def
  mk_restart_thresholds_def target_parent_def target_children_def target_child_def ex_monitor_parse
  runtime_path_def session_filename_def resolve_rollout_path_def is_absolute_def abspath_def
  posix_parts_def strictly_below_def components_from_def Let_def

lemma ex_guarded_passive:
  "runtime_target_from_values ex_lib ex_env [''h'', ''p''] ex_runtime_file ex_guarded = Inr ex_target"
  unfolding runtime_target_iff ex_runtime_file_def
  by (simp add: ex_guarded_fields ex_target_def ex_env_def) (simp add: ex_lib_def)

lemma ex_guarded_owned:
  "\<exists>t. managed_target_from_values ex_lib ex_env [''h'', ''p''] ex_runtime_file ex_guarded = Inr t \<and>
     ownership_matches t ex_request"
  by (simp add: managed_target_from_values_def ex_guarded_fields ex_runtime_file_def ex_env_def)
    (simp add: ex_lib_def ownership_matches_def ex_request_def managed_targets_def monitor_requested_def
      ex_target_monitor_def)

lemma ex_guarded_batch:
  "\<exists>b. read_target_batch ex_quiet ex_lib ex_env [''h'', ''p''] ex_target ex_guarded_store = Inr b \<and>
     previous_cursor b = Some ex_cursor \<and> batch_events b = []"
proof -
  have p: "cursor_path (sha ex_lib) [''h'', ''p''] ''s'' = [''h'', ''p'', ''cursors'', ''s.json'']"
    by (simp add: cursor_path_def session_filename_def ex_lib_def)
  have "load_cursor (sha ex_lib) ex_env [''h'', ''p''] ''s'' ex_guarded_store = Inr (Some ex_cursor)"
    by (simp add: load_cursor_def p Let_def ex_guarded_loads is_file_def abspath_def ex_cursor_def)
      (simp add: ex_guarded_store_def ex_runtime_file_def)
  then show ?thesis
    by (simp add: read_target_batch_def ex_target_def ex_quiet_def read_new_records_def ex_cursor_def
        ex_rollout_def read_loop.simps readline_def rollout_limits_def)
qed

theorem restart_claimed_once_on_fresh_evidence_witness:
  "\<exists>st'. claim_restart_request ex_manager_env ex_quiet 5 ex_guarded_runtime ex_guarded_store =
       (Inr True, st') \<and>
     fst (claim_restart_request ex_manager_env ex_quiet 6 ex_guarded_runtime st') \<noteq> Inr True"
proof -
  have wf: "wf_json (JObj ex_guarded)"
    by (simp add: ex_guarded_def ex_values_def ex_monitor_def ddistinct_def)
  have env: "mg_fs ex_manager_env = ex_env" "mg_home ex_manager_env = [''h'', ''p'']"
    "mg_lib ex_manager_env = ex_lib" by (simp_all add: ex_manager_env_def)
  have rt: "mr_file ex_guarded_runtime = ex_runtime_file" "mr_request ex_guarded_runtime = Some ex_request"
    "\<not> mr_claimed ex_guarded_runtime" by (simp_all add: ex_guarded_runtime_def)
  have path: "abspath ex_runtime_file = ex_runtime_file" by (simp add: abspath_def ex_runtime_file_def)
  have there: "is_file ex_guarded_store ex_runtime_file" "\<not> lock_busy ex_env ex_runtime_file"
    by (simp_all add: is_file_def ex_guarded_store_def ex_env_def)
  have "restart_request_from_values ex_guarded ex_runtime_file = Inr (Some ex_request)"
    by (simp add: restart_request_from_values_def ex_guarded_fields ex_request_def)
  then have "fresh_evidence ex_manager_env ex_quiet ex_guarded_store ex_runtime_file ex_request ex_guarded"
    using ex_guarded_passive ex_guarded_owned ex_guarded_batch
    unfolding fresh_evidence_def env by fastforce
  then have "request_is_fresh ex_manager_env ex_quiet ex_guarded_store ex_guarded_runtime ex_guarded =
      Inr (True, ex_guarded)"
    unfolding request_is_fresh_True rt by blast
  moreover have g: "dget ex_guarded ''restart_claimed'' = JBool False" "dget ex_guarded ''revision'' = JInt 3"
    by (simp_all add: ex_guarded_def ex_values_def)
  moreover have n: "get_optional_integer ex_guarded ''revision'' ex_runtime_file 0 = Inr 3"
    by (simp add: get_optional_integer_def ex_guarded_def ex_values_def)
  ultimately obtain v where v: "claim_values ex_manager_env ex_quiet ex_guarded_store 5
      ex_guarded_runtime ex_guarded = Inr (True, v)" "\<not> dict_eq v ex_guarded"
    using bumped_revision_differs [OF n] n
    by (simp add: claim_values_def rt bump_revision_def get_optional_integer_def del: py_eq.simps)
  have "\<exists>st'. claim_restart_request ex_manager_env ex_quiet 5 ex_guarded_runtime ex_guarded_store =
       (Inr True, st')"
    using v ex_safe ex_guarded_loads(1) there
    by (simp add: claim_restart_request_def rt is_true_def manager_update_def locked_update_def
        mutate_existing_state_def env path Let_def del: py_eq.simps)
  then obtain st' where st': "claim_restart_request ex_manager_env ex_quiet 5 ex_guarded_runtime
      ex_guarded_store = (Inr True, st')" by blast
  from restart_claimed_once_on_fresh_evidence [OF st', unfolded env rt, OF ex_guarded_loads(1) wf] st'
  show ?thesis using rt(1) by blast
qed

end
