(* ===== verification/ManagerEngine.thy ===== *)
theory ManagerEngine
  imports AppServerClient RestartGuard
begin

text \<open>
  The resident manager: \<open>scripts/manager_engine.py\<close>, \<open>manager_interrupt.py\<close>, \<open>manager_outcome.py\<close>,
  \<open>manager_shutdown.py\<close>, \<open>manager_messages.py\<close> and \<open>manager.py\<close>, over any app server that keeps the
  contract of the locale \<open>managed_app_server\<close>. Clock readings, the start of the watcher process and
  the verifier of native Goal turns are parameters of a tick.
\<close>

section \<open>State\<close>

record 'c engine =
  en_client :: 'c
  en_disk :: manager_disk
  en_loaded :: bool
  en_restarted :: bool
  en_guard :: "goal_guard option"
  en_accepted :: "(string \<times> string) list"

record tick_env =
  tk_setup :: setup_env
  tk_source :: source_env
  tk_name :: string
  tk_pid :: int
  tk_launch :: "exn + unit"
  tk_verify :: "path \<Rightarrow> rollout_cursor \<Rightarrow> string \<Rightarrow> exn + bool"
  tk_now :: time
  tk_monotonic :: real
  tk_fresh :: string
  tk_stamp :: string

abbreviation tk_manager :: "tick_env \<Rightarrow> manager_env" where
  "tk_manager T \<equiv> su_manager (tk_setup T)"

type_synonym ('c, 'a) engine_step = "(exn, 'c engine, 'a) step"

definition new_engine :: "'c \<Rightarrow> manager_disk \<Rightarrow> 'c engine" where
  "new_engine c disk = \<lparr>en_client = c, en_disk = disk, en_loaded = False, en_restarted = False,
     en_guard = None, en_accepted = []\<rparr>"

text \<open>Steps of the parts, as steps of the engine.\<close>

definition client_do :: "(exn, 'c, 'a) step \<Rightarrow> ('c, 'a) engine_step" where
  "client_do m en = (case m (en_client en) of (r, c) \<Rightarrow> (r, en\<lparr>en_client := c\<rparr>))"

definition disk_do :: "(exn, manager_disk, 'a) step \<Rightarrow> ('c, 'a) engine_step" where
  "disk_do m en = (case m (en_disk en) of (r, d) \<Rightarrow> (r, en\<lparr>en_disk := d\<rparr>))"

definition store_do :: "(exn, store, 'a) step \<Rightarrow> ('c, 'a) engine_step" where
  "store_do m = disk_do (\<lambda>(st, lg). case m st of (r, st') \<Rightarrow> (r, (st', lg)))"

definition guard_do :: "(exn, 'c guarded, 'a) step \<Rightarrow> ('c, 'a) engine_step" where
  "guard_do m en =
     (case en_guard en of
        None \<Rightarrow> (Inl (GoalControlError ''goal_identity_missing''), en)
      | Some g \<Rightarrow> (case m (en_client en, g) of
          (r, (c, g')) \<Rightarrow> (r, en\<lparr>en_client := c, en_guard := Some g'\<rparr>)))"

definition load_runtime :: "tick_env \<Rightarrow> ('c, manager_runtime option) engine_step" where
  "load_runtime T en = (load_manager_runtime (tk_manager T) (tk_name T) (fst (en_disk en)), en)"

definition set_restarted :: "bool \<Rightarrow> ('c, unit) engine_step" where
  "set_restarted b = smodify (\<lambda>en. en\<lparr>en_restarted := b\<rparr>)"

section \<open>Messages\<close>

definition continuation_prompt :: "string \<Rightarrow> bool \<Rightarrow> string" where
  "continuation_prompt preset restarted =
     (if restarted
      then ''The previous managed turn had no observable progress and was interrupted. '' else []) @
     (if preset = ''cleanup''
      then ''Check whether task-owned runtime processes are merely left open, clean them up safely, ''
      else []) @
     ''continue the same opted-in task until every success criterion is verified. '' @
     ''When it is genuinely complete, invoke $work-off as a verified-completion shutdown '' @
     ''before the final answer.''"

definition prompt_input :: "string \<Rightarrow> bool \<Rightarrow> json" where
  "prompt_input preset restarted =
     JList [JObj [(''type'', JStr ''text''), (''text'', JStr (continuation_prompt preset restarted)),
       (''text_elements'', JList [])]]"

definition thread_params :: "string \<Rightarrow> dict" where
  "thread_params session = [(''threadId'', JStr session)]"

definition start_params :: "manager_runtime \<Rightarrow> bool \<Rightarrow> dict" where
  "start_params rt restarted =
     [(''threadId'', JStr (mr_session rt)), (''input'', prompt_input (mr_preset rt) restarted)]"

definition send :: "'c managed_server \<Rightarrow> string \<Rightarrow> dict \<Rightarrow> time \<Rightarrow> ('c, dict) engine_step" where
  "send M meth params timeout = client_do (ms_request M meth params timeout)"

definition send_interrupt :: "'c managed_server \<Rightarrow> manager_runtime \<Rightarrow> string \<Rightarrow> ('c, unit) engine_step" where
  "send_interrupt M rt turn =
     sbind (send M ''turn/interrupt'' (interrupt_params (mr_session rt) turn) 10) (\<lambda>_. sret ())"

definition send_cleanup :: "'c managed_server \<Rightarrow> manager_runtime \<Rightarrow> ('c, unit) engine_step" where
  "send_cleanup M rt =
     (if mr_preset rt = ''cleanup''
      then sbind (send M ''thread/backgroundTerminals/clean'' (thread_params (mr_session rt)) 10) (\<lambda>_. sret ())
      else sret ())"

section \<open>Interrupts\<close>

record interrupt_result =
  ir_restarted :: bool
  ir_failure :: "string option"

definition interrupt_ok :: "bool \<Rightarrow> interrupt_result" where
  "interrupt_ok b = \<lparr>ir_restarted = b, ir_failure = None\<rparr>"

definition interrupt_failed :: "string \<Rightarrow> interrupt_result" where
  "interrupt_failed why = \<lparr>ir_restarted = False, ir_failure = Some why\<rparr>"

definition cancel_interrupt ::
  "'c managed_server \<Rightarrow> tick_env \<Rightarrow> manager_runtime \<Rightarrow> string \<Rightarrow> ('c, interrupt_result) engine_step" where
  "cancel_interrupt M T rt turn =
     sbind (client_do (ms_completed M turn)) (\<lambda>completed.
     sbind (if completed then store_do (record_turn_finished (tk_manager T) (mr_file rt) turn)
            else store_do (clear_restart_request (tk_manager T) rt)) (\<lambda>_.
     sret (interrupt_ok False)))"

definition finish_interrupt ::
  "'c managed_server \<Rightarrow> tick_env \<Rightarrow> manager_runtime \<Rightarrow> string \<Rightarrow> ('c, interrupt_result) engine_step" where
  "finish_interrupt M T rt turn =
     sbind (client_do (ms_outcome M turn)) (\<lambda>outcome.
     case outcome of
       Some OUT_FAILED \<Rightarrow> sret (interrupt_failed ''turn_failed'')
     | Some OUT_COMPLETED \<Rightarrow> sret (interrupt_ok False)
     | Some OUT_IN_PROGRESS \<Rightarrow> sret (interrupt_failed ''turn_status_invalid'')
     | Some OUT_INVALID \<Rightarrow> sret (interrupt_failed ''turn_status_invalid'')
     | None \<Rightarrow> sret (interrupt_failed ''turn_interrupted_external'')
     | Some OUT_INTERRUPTED \<Rightarrow>
         sbind (send_cleanup M rt) (\<lambda>_.
         sbind (disk_do (record_restart_performed (tk_manager T) (mr_file rt) turn (tk_now T))) (\<lambda>_.
         sret (interrupt_ok True))))"

definition execute_interrupt ::
  "'c managed_server \<Rightarrow> tick_env \<Rightarrow> manager_runtime \<Rightarrow> string \<Rightarrow> bool \<Rightarrow> ('c, interrupt_result) engine_step" where
  "execute_interrupt M T rt turn with_goal =
     sbind (store_do (claim_restart_request (tk_manager T) (tk_source T) (tk_now T) rt)) (\<lambda>claimed.
     if \<not> claimed then sret (interrupt_ok False)
     else
       sbind (if with_goal then guard_do (pause_for_interrupt M) else sret ()) (\<lambda>_.
       sbind (store_do (restart_request_is_fresh (tk_manager T) (tk_source T) rt)) (\<lambda>fresh.
       if \<not> fresh then cancel_interrupt M T rt turn
       else
         sbind (client_do (ms_active M (mr_session rt))) (\<lambda>active.
         if active = None then cancel_interrupt M T rt turn
         else if active \<noteq> Some turn then sret (interrupt_failed ''active_turn_mismatch'')
         else
           sbind (send_interrupt M rt turn) (\<lambda>_.
           sbind (client_do (ms_wait_completed M turn)) (\<lambda>completed.
           if \<not> completed then sret (interrupt_failed ''interrupt_timeout'')
           else finish_interrupt M T rt turn))))))"

definition expire_pending ::
  "'c managed_server \<Rightarrow> tick_env \<Rightarrow> manager_runtime \<Rightarrow> string \<Rightarrow> ('c, unit) engine_step" where
  "expire_pending M T rt turn =
     sbind (store_do (clear_pending_turn (tk_manager T) (mr_file rt) turn)) (\<lambda>cleared.
     if \<not> cleared then sret () else send_interrupt M rt turn)"

definition interrupt_unowned_accepted ::
  "'c managed_server \<Rightarrow> manager_runtime \<Rightarrow> string \<Rightarrow> ('c, unit) engine_step" where
  "interrupt_unowned_accepted M rt turn en =
     (if (mr_session rt, turn) \<in> set (en_accepted en) then (Inr (), en)
      else send_interrupt M rt turn (en\<lparr>en_accepted := (mr_session rt, turn) # en_accepted en\<rparr>))"

section \<open>Outcomes\<close>

record turn_resolution =
  tr_keep_running :: bool
  tr_prompt :: bool
  tr_failure :: "string option"

definition resolution :: "bool \<Rightarrow> bool \<Rightarrow> string option \<Rightarrow> turn_resolution" where
  "resolution k p f = \<lparr>tr_keep_running = k, tr_prompt = p, tr_failure = f\<rparr>"

definition finish_and :: "tick_env \<Rightarrow> manager_runtime \<Rightarrow> string \<Rightarrow> ('c, 'a) engine_step \<Rightarrow> ('c, 'a) engine_step" where
  "finish_and T rt turn m =
     sbind (store_do (record_turn_finished (tk_manager T) (mr_file rt) turn)) (\<lambda>_. m)"

definition complete_goal :: "tick_env \<Rightarrow> manager_runtime \<Rightarrow> string \<Rightarrow> ('c, turn_resolution) engine_step" where
  "complete_goal T rt turn =
     finish_and T rt turn (sbind (disk_do (complete_session (tk_setup T) (mr_session rt) (tk_now T) True)) (\<lambda>_.
     sret (resolution False False None)))"

definition continue_active_goal ::
  "'c managed_server \<Rightarrow> tick_env \<Rightarrow> manager_runtime \<Rightarrow> string \<Rightarrow> ('c, turn_resolution) engine_step" where
  "continue_active_goal M T rt turn en =
     (case guard_do (pause_for_interrupt M) en of
        (Inl (GoalControlError why), en') \<Rightarrow>
          if why \<noteq> ''goal_complete'' then (Inl (GoalControlError why), en') else complete_goal T rt turn en'
      | (Inl e, en') \<Rightarrow> (Inl e, en')
      | (Inr _, en') \<Rightarrow> finish_and T rt turn (sret (resolution True False None)) en')"

definition resolve_completed ::
  "'c managed_server \<Rightarrow> tick_env \<Rightarrow> manager_runtime \<Rightarrow> string \<Rightarrow> ('c, turn_resolution) engine_step" where
  "resolve_completed M T rt turn en =
     (if \<not> mv_goal_companion (mr_view rt) then finish_and T rt turn (sret (resolution True False None)) en
      else if en_guard en = None then (Inr (resolution False False (Some ''goal_identity_missing'')), en)
      else sbind (guard_do (status_after_turn M)) (\<lambda>status.
        case status of
          GOAL_ACTIVE \<Rightarrow> continue_active_goal M T rt turn
        | GOAL_PAUSED \<Rightarrow> finish_and T rt turn (sret (resolution True False None))
        | GOAL_COMPLETE \<Rightarrow> complete_goal T rt turn
        | GOAL_BLOCKED \<Rightarrow> sret (resolution False False (Some ''goal_blocked''))
        | GOAL_USAGE_LIMITED \<Rightarrow> sret (resolution False False (Some ''goal_usage_limited''))
        | GOAL_BUDGET_LIMITED \<Rightarrow> sret (resolution False False (Some ''goal_budget_limited''))) en)"

definition resolve_interrupted ::
  "tick_env \<Rightarrow> manager_runtime \<Rightarrow> string \<Rightarrow> ('c, turn_resolution) engine_step" where
  "resolve_interrupted T rt turn =
     (case classify_interrupt_claim rt turn (tk_now T) of
        CLAIM_MATCHED \<Rightarrow>
          sbind (disk_do (record_restart_performed (tk_manager T) (mr_file rt) turn (tk_now T))) (\<lambda>_.
          sret (resolution True True None))
      | CLAIM_UNCLAIMED \<Rightarrow>
          if \<not> mv_goal_companion (mr_view rt) then
            if mr_shutdown_requested rt
            then sbind (store_do (disable_session (tk_setup T) (mr_session rt))) (\<lambda>_.
              sret (resolution False False None))
            else finish_and T rt turn (sret (resolution True False None))
          else sret (resolution False False (Some ''turn_interrupted_external''))
      | CLAIM_EXPIRED \<Rightarrow> sret (resolution False False (Some ''interrupt_claim_expired''))
      | CLAIM_MISMATCH \<Rightarrow> sret (resolution False False (Some ''interrupt_claim_mismatch'')))"

definition resolve_turn_outcome ::
  "'c managed_server \<Rightarrow> tick_env \<Rightarrow> manager_runtime \<Rightarrow> string \<Rightarrow> turn_outcome \<Rightarrow>
   ('c, turn_resolution) engine_step" where
  "resolve_turn_outcome M T rt turn outcome =
     (case outcome of
        OUT_COMPLETED \<Rightarrow>
          if mr_shutdown_requested rt then
            sbind (if mr_shutdown_interrupt rt
              then store_do (disable_session (tk_setup T) (mr_session rt))
              else disk_do (complete_session (tk_setup T) (mr_session rt) (tk_now T) True)) (\<lambda>_.
            sret (resolution False False None))
          else resolve_completed M T rt turn
      | OUT_INTERRUPTED \<Rightarrow> resolve_interrupted T rt turn
      | OUT_FAILED \<Rightarrow> sret (resolution False False (Some ''turn_failed''))
      | _ \<Rightarrow> sret (resolution False False (Some ''turn_status_invalid'')))"

section \<open>Closing and failing\<close>

definition close_engine :: "'c managed_server \<Rightarrow> tick_env \<Rightarrow> ('c, unit) engine_step" where
  "close_engine M T en =
     (if en_guard en = None then (Inr (), en)
      else sbind (load_runtime T) (\<lambda>loaded.
        sbind (case loaded of
            Some rt \<Rightarrow>
              if mv_goal_companion (mr_view rt) \<and> mv_managed_turn (mr_view rt) \<noteq> None \<and>
                 \<not> mr_shutdown_requested rt
              then guard_do keep_paused_on_exit else sret ()
          | None \<Rightarrow> sret ()) (\<lambda>_ en.
        case guard_do (restore_initial_active M) en of
          (Inl (GoalControlError why), en') \<Rightarrow>
            if why \<noteq> ''goal_identity_changed'' then (Inl (GoalControlError why), en') else (Inr (), en')
        | (Inl e, en') \<Rightarrow> (Inl e, en')
        | (Inr _, en') \<Rightarrow> (Inr (), en'))) en)"

definition fail :: "'c managed_server \<Rightarrow> tick_env \<Rightarrow> manager_runtime \<Rightarrow> string \<Rightarrow> ('c, bool) engine_step" where
  "fail M T rt why =
     sbind (close_engine M T) (\<lambda>_.
     sbind (disk_do (record_manager_failure (tk_manager T) (mr_file rt) why (tk_now T))) (\<lambda>_. sret False))"

definition handle_shutdown ::
  "'c managed_server \<Rightarrow> tick_env \<Rightarrow> manager_runtime \<Rightarrow> ('c, bool) engine_step" where
  "handle_shutdown M T rt =
     (case mv_managed_turn (mr_view rt) of
        None \<Rightarrow> sbind (store_do (disable_session (tk_setup T) (mr_session rt))) (\<lambda>_. sret False)
      | Some turn \<Rightarrow>
          if \<not> mr_shutdown_interrupt rt then sret True
          else
            sbind (client_do (ms_active M (mr_session rt))) (\<lambda>active.
            if active \<noteq> Some turn then fail M T rt ''active_turn_mismatch''
            else (\<lambda>en.
              if mv_goal_companion (mr_view rt) \<and> en_guard en = None
              then fail M T rt ''goal_identity_missing'' en
              else
                sbind (if mv_goal_companion (mr_view rt) then guard_do (pause_for_interrupt M) else sret ()) (\<lambda>_.
                sbind (send_interrupt M rt turn) (\<lambda>_.
                sbind (client_do (ms_wait_completed M turn)) (\<lambda>completed.
                if \<not> completed then fail M T rt ''interrupt_timeout''
                else sbind (send_cleanup M rt) (\<lambda>_.
                  sbind (store_do (disable_session (tk_setup T) (mr_session rt))) (\<lambda>_. sret False))))) en)))"

section \<open>Starting turns\<close>

definition load_thread :: "'c managed_server \<Rightarrow> manager_runtime \<Rightarrow> ('c, unit) engine_step" where
  "load_thread M rt en =
     (if en_loaded en then (Inr (), en)
      else sbind (send M ''thread/resume'' (thread_params (mr_session rt)) 10) (\<lambda>_.
        smodify (\<lambda>en. en\<lparr>en_loaded := True\<rparr>)) en)"

definition own_turn :: "tick_env \<Rightarrow> manager_runtime \<Rightarrow> string \<Rightarrow> ('c, unit) engine_step" where
  "own_turn T rt turn =
     sbind (store_do (record_turn_started (tk_manager T) (tk_fresh T) (tk_stamp T) (mr_file rt) turn)) (\<lambda>_.
     slift (tk_launch T))"

text \<open>
  \<open>_persist_accepted_turn\<close> and \<open>_recover_accepted_turn\<close>: after a failure the turn is interrupted
  unless the document names it; the failure is raised again whatever the recovery does.
\<close>

definition recover_accepted_turn ::
  "'c managed_server \<Rightarrow> tick_env \<Rightarrow> manager_runtime \<Rightarrow> string \<Rightarrow> 'c engine \<Rightarrow> 'c engine" where
  "recover_accepted_turn M T rt turn en =
     (case fst (load_runtime T en) of
        Inr (Some p) \<Rightarrow>
          if mr_pending_turn p = Some turn \<or> mv_managed_turn (mr_view p) = Some turn then en
          else snd (interrupt_unowned_accepted M rt turn en)
      | _ \<Rightarrow> snd (interrupt_unowned_accepted M rt turn en))"

definition persist_accepted_turn ::
  "'c managed_server \<Rightarrow> tick_env \<Rightarrow> manager_runtime \<Rightarrow> string \<Rightarrow> ('c, unit) engine_step" where
  "persist_accepted_turn M T rt turn en =
     (case store_do (record_pending_turn (tk_manager T) (mr_file rt) turn) en of
        (Inr _, en') \<Rightarrow> (Inr (), en')
      | (Inl e, en') \<Rightarrow> (Inl e, recover_accepted_turn M T rt turn en'))"

definition start_turn :: "'c managed_server \<Rightarrow> tick_env \<Rightarrow> manager_runtime \<Rightarrow> ('c, bool) engine_step" where
  "start_turn M T rt =
     sbind (load_thread M rt) (\<lambda>_.
     sbind (sget en_restarted) (\<lambda>restarted.
     sbind (send M ''turn/start'' (start_params rt restarted) 12) (\<lambda>result.
     case result_turn_id result of
       None \<Rightarrow> fail M T rt ''start_timeout''
     | Some turn \<Rightarrow>
         sbind (persist_accepted_turn M T rt turn) (\<lambda>_.
         sbind (client_do (ms_wait_started M (mr_session rt) turn)) (\<lambda>started.
         if \<not> started
         then sbind (store_do (mark_pending_turn_timed_out (tk_manager T) (mr_file rt) turn (tk_monotonic T))) (\<lambda>_.
           sret True)
         else
           sbind (own_turn T rt turn) (\<lambda>_.
           sbind (set_restarted False) (\<lambda>_. sret True)))))))"

definition PENDING_RECONCILIATION_GRACE_SECONDS :: real where
  "PENDING_RECONCILIATION_GRACE_SECONDS = 60"

definition reconcile_pending_turn ::
  "'c managed_server \<Rightarrow> tick_env \<Rightarrow> manager_runtime \<Rightarrow> ('c, bool) engine_step" where
  "reconcile_pending_turn M T rt =
     (case mr_pending_turn rt of
        None \<Rightarrow> sret True
      | Some turn \<Rightarrow>
          if (case mr_pending_timed_out_at rt of None \<Rightarrow> False
              | Some since \<Rightarrow> tk_monotonic T - since > PENDING_RECONCILIATION_GRACE_SECONDS)
          then sbind (expire_pending M T rt turn) (\<lambda>_. fail M T rt ''start_timeout'')
          else
            sbind (client_do (ms_active M (mr_session rt))) (\<lambda>active.
            sbind (if active = Some turn then sret True
                   else sbind (client_do (ms_outcome M turn)) (\<lambda>r. sret (r \<noteq> None))) (\<lambda>known.
            if known
            then sbind (own_turn T rt turn) (\<lambda>_. sbind (set_restarted False) (\<lambda>_. sret True))
            else sret True)))"

section \<open>Resuming a Goal\<close>

definition require_goal_guard :: "('c, unit) engine_step" where
  "require_goal_guard en =
     (if en_guard en = None then (Inl (GoalControlError ''goal_identity_missing''), en) else (Inr (), en))"

definition adopt_turn ::
  "'c managed_server \<Rightarrow> tick_env \<Rightarrow> manager_runtime \<Rightarrow> string \<Rightarrow> rollout_cursor \<Rightarrow> ('c, bool) engine_step" where
  "adopt_turn M T rt seen_turn cursor =
     sbind (slift (require_native_goal_turn (tk_verify T (mr_rollout rt) cursor seen_turn))) (\<lambda>_.
     sbind require_goal_guard (\<lambda>_.
     sbind (guard_do (fence_goal_handoff M (mr_session rt) seen_turn)) (\<lambda>turn.
     sbind (if turn \<noteq> seen_turn
            then slift (require_native_goal_turn (tk_verify T (mr_rollout rt) cursor turn)) else sret ()) (\<lambda>_.
     sbind (own_turn T rt turn) (\<lambda>_.
     sbind (client_do (ms_outcome M turn)) (\<lambda>outcome.
     sbind (sget en_restarted) (\<lambda>restarted.
     sbind (if outcome = None \<and> restarted
            then sbind (send M ''turn/steer'' [(''threadId'', JStr (mr_session rt)),
                (''expectedTurnId'', JStr turn), (''input'', prompt_input (mr_preset rt) True)] 10)
              (\<lambda>_. sret ())
            else sret ()) (\<lambda>_.
     sbind (set_restarted False) (\<lambda>_. sret True)))))))))"

definition resume_goal :: "'c managed_server \<Rightarrow> tick_env \<Rightarrow> manager_runtime \<Rightarrow> ('c, bool) engine_step" where
  "resume_goal M T rt =
     sbind require_goal_guard (\<lambda>_.
     sbind (client_do (ms_active M (mr_session rt))) (\<lambda>active.
     if active \<noteq> None then fail M T rt ''unexpected_active_turn''
     else
       sbind (client_do (ms_latest M (mr_session rt))) (\<lambda>previous.
       sbind (slift (initial_cursor (mr_rollout rt) (so_rollouts (tk_source T) (mr_rollout rt)))) (\<lambda>cursor.
       sbind (guard_do (activate_for_handoff M)) (\<lambda>_.
       sbind (client_do (ms_wait_next M (mr_session rt) previous)) (\<lambda>turn.
       case turn of
         Some t \<Rightarrow> adopt_turn M T rt t cursor
       | None \<Rightarrow> sbind (guard_do (pause_for_interrupt M)) (\<lambda>_. fail M T rt ''goal_resume_timeout'')))))))"

section \<open>Ticks\<close>

definition interrupt_turn ::
  "'c managed_server \<Rightarrow> tick_env \<Rightarrow> manager_runtime \<Rightarrow> string \<Rightarrow> ('c, bool) engine_step" where
  "interrupt_turn M T rt turn =
     sbind (if mv_goal_companion (mr_view rt) then require_goal_guard else sret ()) (\<lambda>_.
     sbind (execute_interrupt M T rt turn (mv_goal_companion (mr_view rt))) (\<lambda>r.
     case ir_failure r of
       Some why \<Rightarrow> fail M T rt why
     | None \<Rightarrow> sbind (if ir_restarted r then set_restarted True else sret ()) (\<lambda>_. sret True)))"

definition execute_decision :: "'c managed_server \<Rightarrow> tick_env \<Rightarrow> manager_runtime \<Rightarrow> ('c, bool) engine_step" where
  "execute_decision M T rt =
     sbind (client_do (ms_active M (mr_session rt))) (\<lambda>active.
     let d = decide_manager_action (mr_view rt) active
     in case md_action d of
          ACT_START \<Rightarrow> start_turn M T rt
        | ACT_RESUME_GOAL \<Rightarrow> resume_goal M T rt
        | ACT_INTERRUPT \<Rightarrow>
            (case md_turn d of None \<Rightarrow> fail M T rt ''app_server_failed'' | Some turn \<Rightarrow> interrupt_turn M T rt turn)
        | ACT_FAIL_CLOSED \<Rightarrow>
            fail M T rt (case md_reason d of
              None \<Rightarrow> ''app_server_failed'' | Some why \<Rightarrow> if why = [] then ''app_server_failed'' else why)
        | ACT_WAIT \<Rightarrow> sret True
        | ACT_STOP \<Rightarrow> sret False)"

definition resolve_owned ::
  "'c managed_server \<Rightarrow> tick_env \<Rightarrow> manager_runtime \<Rightarrow> string \<Rightarrow> turn_outcome \<Rightarrow> ('c, bool) engine_step" where
  "resolve_owned M T rt turn outcome =
     sbind (resolve_turn_outcome M T rt turn outcome) (\<lambda>r.
     case tr_failure r of
       Some why \<Rightarrow> fail M T rt why
     | None \<Rightarrow> sbind (set_restarted (tr_prompt r)) (\<lambda>_. sret (tr_keep_running r)))"

definition tick_body :: "'c managed_server \<Rightarrow> tick_env \<Rightarrow> manager_runtime \<Rightarrow> ('c, bool) engine_step" where
  "tick_body M T rt =
     sbind (client_do (ms_pending M)) (\<lambda>pending.
     if pending \<noteq> None then fail M T rt ''server_request_unhandled''
     else if mr_pending_turn rt \<noteq> None then reconcile_pending_turn M T rt
     else
       sbind (case mv_managed_turn (mr_view rt) of
           None \<Rightarrow> sret None
         | Some turn \<Rightarrow> sbind (client_do (ms_outcome M turn)) (\<lambda>r. sret (map_option (Pair turn) r))) (\<lambda>outcome.
       case outcome of
         Some (turn, r) \<Rightarrow> resolve_owned M T rt turn r
       | None \<Rightarrow>
           if mr_shutdown_requested rt
           then sbind (if mv_managed_turn (mr_view rt) = None then close_engine M T else sret ()) (\<lambda>_.
             handle_shutdown M T rt)
           else execute_decision M T rt))"

definition tick_runtime :: "'c managed_server \<Rightarrow> tick_env \<Rightarrow> manager_runtime \<Rightarrow> ('c, bool) engine_step" where
  "tick_runtime M T rt en =
     (case tick_body M T rt en of
        (Inl (GoalControlError why), en') \<Rightarrow>
          if why = ''goal_complete''
          then sbind (store_do (disable_session (tk_setup T) (mr_session rt))) (\<lambda>_. sret False) en'
          else fail M T rt why en'
      | r \<Rightarrow> r)"

definition tick :: "'c managed_server \<Rightarrow> tick_env \<Rightarrow> ('c, bool) engine_step" where
  "tick M T =
     sbind (load_runtime T) (\<lambda>loaded.
     case loaded of None \<Rightarrow> sret False | Some rt \<Rightarrow> tick_runtime M T rt)"

definition initialize_engine :: "'c managed_server \<Rightarrow> tick_env \<Rightarrow> ('c, unit) engine_step" where
  "initialize_engine M T =
     sbind (load_runtime T) (\<lambda>loaded.
     case loaded of
       None \<Rightarrow> sret ()
     | Some rt \<Rightarrow>
         sbind (slift (enforce_goal_companion_policy (mv_goal_companion (mr_view rt)))) (\<lambda>_ en.
         case (sbind (client_do (ms_start M)) (\<lambda>_.
               sbind (if mv_goal_companion (mr_view rt)
                      then sbind (load_thread M rt) (\<lambda>_ en.
                        case guard_initialize M (sha (mg_lib (tk_manager T)))
                            (\<lambda>fp st. case record_goal_fingerprint (tk_manager T) (mr_file rt) fp st of
                               (Inl e, st') \<Rightarrow> (Inl e, st') | (Inr _, st') \<Rightarrow> (Inr (), st'))
                            ((en_client en, new_guard rt), fst (en_disk en)) of
                          (r, ((c, g), st)) \<Rightarrow>
                            (r, en\<lparr>en_client := c, en_guard := Some g, en_disk := (st, snd (en_disk en))\<rparr>))
                      else sret ()) (\<lambda>_.
               sbind (store_do (mark_manager_ready (tk_manager T) (mr_file rt) (tk_pid T))) (\<lambda>_. sret ()))) en) of
           (Inr _, en') \<Rightarrow> (Inr (), en')
         | (Inl e, en') \<Rightarrow>
             (case close_engine M T en' of (Inl e', en'') \<Rightarrow> (Inl e', en'') | (Inr _, en'') \<Rightarrow> (Inl e, en''))))"

section \<open>The manager process\<close>

fun manager_handled :: "exn \<Rightarrow> bool" where
  "manager_handled (AppServerProtocolError _) = True"
| "manager_handled (AppServerErr _) = True"
| "manager_handled (GoalControlError _) = True"
| "manager_handled (ManagerRuntimeError _) = True"
| "manager_handled e = (os_error e \<or> state_error e \<or> value_error e)"

fun failure_reason :: "exn \<Rightarrow> string" where
  "failure_reason (CodexExecutableError why) = why"
| "failure_reason (GoalControlError why) = why"
| "failure_reason (ManagerRuntimeError why) = why"
| "failure_reason _ = ''app_server_failed''"

definition record_failure_if_present ::
  "tick_env \<Rightarrow> exn \<Rightarrow> (exn, manager_disk, unit) step" where
  "record_failure_if_present T e disk =
     (case load_manager_runtime (tk_manager T) (tk_name T) (fst disk) of
        Inl e' \<Rightarrow> (Inl e', disk)
      | Inr None \<Rightarrow> (Inr (), disk)
      | Inr (Some rt) \<Rightarrow> record_manager_failure (tk_manager T) (mr_file rt) (failure_reason e) (tk_now T) disk)"

definition mark_stopped_if_present :: "tick_env \<Rightarrow> (exn, manager_disk, unit) step" where
  "mark_stopped_if_present T = (\<lambda>(st, lg).
     case load_manager_runtime (tk_manager T) (tk_name T) st of
       Inl e' \<Rightarrow> (Inl e', (st, lg))
     | Inr None \<Rightarrow> (Inr (), (st, lg))
     | Inr (Some rt) \<Rightarrow> (case mark_manager_stopped (tk_manager T) (mr_file rt) st of
         (Inl e, st') \<Rightarrow> (Inl e, (st', lg)) | (Inr _, st') \<Rightarrow> (Inr (), (st', lg))))"

text \<open>The tick loop, over the environments of its rounds; \<open>True\<close>: the rounds are used up.\<close>

fun run_ticks :: "'c managed_server \<Rightarrow> tick_env list \<Rightarrow> ('c, bool) engine_step" where
  "run_ticks M [] en = (Inr True, en)"
| "run_ticks M (T # Ts) en =
     (case tick M T en of
        (Inr True, en') \<Rightarrow> run_ticks M Ts en'
      | (Inr False, en') \<Rightarrow> (Inr False, en')
      | (Inl e, en') \<Rightarrow> (Inl e, en'))"

text \<open>
  The process state adds the lease. \<open>_capture_cleanup_error\<close> collects handled errors (\<open>snd\<close> of the
  accumulator); another one is raised after the remaining cleanups, the last one winning.
\<close>

record 'c process =
  pc_engine :: "'c engine"
  pc_leases :: lease_disk

type_synonym cleanup = "exn option \<times> exn list"

definition captured :: "exn + 'a \<Rightarrow> cleanup \<Rightarrow> cleanup" where
  "captured r acc =
     (case r of
        Inr _ \<Rightarrow> acc
      | Inl e \<Rightarrow> if manager_handled e then (fst acc, snd acc @ [e]) else (Some e, snd acc))"

definition cleanup_process ::
  "'c managed_server \<Rightarrow> ('c \<Rightarrow> 'c) \<Rightarrow> tick_env \<Rightarrow> bool \<Rightarrow> 'c process \<Rightarrow> cleanup \<times> 'c process" where
  "cleanup_process M close T started s =
     (let (r1, en1) = (if started then close_engine M T (pc_engine s) else (Inr (), pc_engine s));
          (r2, en2) = disk_do (mark_stopped_if_present T) en1;
          en3 = (if started then en2\<lparr>en_client := close (en_client en2)\<rparr> else en2)
      in (captured r2 (captured r1 (None, [])),
          \<lparr>pc_engine = en3, pc_leases = release_manager_lease (tk_name T) (pc_leases s)\<rparr>))"

text \<open>
  \<open>run_manager\<close> after the lease was acquired: what the body returned or raised, the record of its
  failure, the cleanup and the record of the first cleanup error; the exit code, or an exception.
\<close>

definition finish_process ::
  "'c managed_server \<Rightarrow> ('c \<Rightarrow> 'c) \<Rightarrow> tick_env \<Rightarrow> bool \<Rightarrow> exn + unit \<Rightarrow> 'c process \<Rightarrow>
   (exn + int) \<times> 'c process" where
  "finish_process M close T started body s =
     (let (escaping, s1) =
            (case body of
               Inr _ \<Rightarrow> (None, s)
             | Inl e \<Rightarrow>
                 if \<not> manager_handled e then (Some e, s)
                 else (case disk_do (record_failure_if_present T e) (pc_engine s) of
                   (Inl e', en) \<Rightarrow> (Some e', s\<lparr>pc_engine := en\<rparr>)
                 | (Inr _, en) \<Rightarrow> (None, s\<lparr>pc_engine := en\<rparr>)));
          ((unhandled, errors), s2) = cleanup_process M close T started s1
      in case unhandled of
           Some e \<Rightarrow> (Inl e, s2)
         | None \<Rightarrow>
             let (late, s3) =
                   (case errors of
                      [] \<Rightarrow> (None, s2)
                    | e # _ \<Rightarrow> (case disk_do (record_failure_if_present T e) (pc_engine s2) of
                        (Inl e', en) \<Rightarrow> (if manager_handled e' then None else Some e', s2\<lparr>pc_engine := en\<rparr>)
                      | (Inr _, en) \<Rightarrow> (None, s2\<lparr>pc_engine := en\<rparr>)))
             in case (late, escaping) of
                  (Some e, _) \<Rightarrow> (Inl e, s3)
                | (None, Some e) \<Rightarrow> (Inl e, s3)
                | (None, None) \<Rightarrow> (Inr (if errors = [] \<and> body = Inr () then 0 else 1), s3))"

definition run_manager ::
  "'c managed_server \<Rightarrow> ('c \<Rightarrow> 'c) \<Rightarrow> tick_env \<Rightarrow> tick_env list \<Rightarrow> 'c process \<Rightarrow> (exn + int) \<times> 'c process" where
  "run_manager M close T Ts s =
     (case su_private (tk_setup T) of
        Inl e \<Rightarrow> (Inl e, s)
      | Inr _ \<Rightarrow>
     (case load_manager_runtime (tk_manager T) (tk_name T) (fst (en_disk (pc_engine s))) of
        Inl e \<Rightarrow> (Inl e, s)
      | Inr initial \<Rightarrow>
          if (case initial of None \<Rightarrow> False | Some rt \<Rightarrow> mv_goal_companion (mr_view rt))
          then (case disk_do (record_failure_if_present T
                  (GoalControlError ''goal_companion_atomic_update_unavailable'')) (pc_engine s) of
                 (Inl e, en) \<Rightarrow> (Inl e, s\<lparr>pc_engine := en\<rparr>)
               | (Inr _, en) \<Rightarrow> (Inr 1, s\<lparr>pc_engine := en\<rparr>))
          else
            (case acquire_manager_lease (su_lease (tk_setup T)) (tk_pid T) (tk_name T) (pc_leases s) of
               (Inl e, d) \<Rightarrow> (Inl e, s\<lparr>pc_leases := d\<rparr>)
             | (Inr False, d) \<Rightarrow> (Inr 0, s\<lparr>pc_leases := d\<rparr>)
             | (Inr True, d) \<Rightarrow>
                 let (body, en) =
                   (if initial = None then (Inr (), pc_engine s)
                    else sbind (initialize_engine M T) (\<lambda>_. sbind (run_ticks M Ts) (\<lambda>_. sret ())) (pc_engine s))
                 in finish_process M close T (initial \<noteq> None) body \<lparr>pc_engine = en, pc_leases = d\<rparr>)))"

end
