(* ===== verification/ManagerMessages.thy ===== *)
theory ManagerMessages
  imports ManagerEngine
begin

text \<open>
  What the resident manager writes to the app server and what it leaves behind: the messages of every
  step, of a tick and of a whole run, the fate of an accepted turn and the cleanup of the process.
\<close>

section \<open>What a step writes\<close>

text \<open>
  \<open>emits sent m P\<close>: run without a Goal guard, \<open>m\<close> writes messages of which \<open>P\<close> holds, whether it
  returns or raises, and no guard appears.
\<close>

definition emits :: "('c \<Rightarrow> sent_message list) \<Rightarrow> ('c, 'a) engine_step \<Rightarrow> (sent_message list \<Rightarrow> bool) \<Rightarrow> bool" where
  "emits sent m P \<longleftrightarrow> (\<forall>en. en_guard en = None \<longrightarrow> en_guard (snd (m en)) = None \<and>
     (\<exists>ms. wrote sent (en_client en) (en_client (snd (m en))) ms \<and> P ms))"

abbreviation silent :: "('c \<Rightarrow> sent_message list) \<Rightarrow> ('c, 'a) engine_step \<Rightarrow> bool" where
  "silent sent m \<equiv> emits sent m (\<lambda>ms. ms = [])"

named_theorems emits_intros \<open>what the steps of the engine write\<close>

lemma emits_weaken: "emits sent m P \<Longrightarrow> (\<And>ms. P ms \<Longrightarrow> Q ms) \<Longrightarrow> emits sent m Q"
  unfolding emits_def by blast

lemma emits_silent: "silent sent m \<Longrightarrow> P [] \<Longrightarrow> emits sent m P"
  by (erule emits_weaken) simp

lemma silent_pure [emits_intros]:
  "silent sent (sret a)" "silent sent (slift r)" "silent sent (sget f)" "silent sent (set_restarted b)"
  "silent sent (load_runtime T)" "silent sent require_goal_guard"
  by (auto simp: emits_def step_defs set_restarted_def load_runtime_def require_goal_guard_def)

lemma silent_disk [emits_intros]: "silent sent (disk_do m)" "silent sent (store_do n)"
  by (auto simp: emits_def disk_do_def store_do_def split: prod.split)

lemma silent_guard [emits_intros]: "silent sent (guard_do m)"
  by (auto simp: emits_def guard_do_def)

lemma emits_client:
  assumes "\<And>c. \<exists>ms. wrote sent c (snd (m c)) ms \<and> P ms"
  shows "emits sent (client_do m) P"
proof -
  have "en_guard (snd (client_do m en)) = en_guard en" "en_client (snd (client_do m en)) = snd (m (en_client en))"
    for en by (simp_all add: client_do_def split: prod.split)
  with assms show ?thesis unfolding emits_def by metis
qed

lemma silent_client: "(\<And>c. wrote sent c (snd (m c)) []) \<Longrightarrow> silent sent (client_do m)"
  by (rule emits_client) blast

text \<open>Sequencing: after the first step raised, nothing more is written.\<close>

lemma emits_bind:
  assumes "emits sent m P" and "\<And>a en en'. m en = (Inr a, en') \<Longrightarrow> emits sent (f a) Q"
    and "\<And>xs. P xs \<Longrightarrow> R xs" and "\<And>xs ys. P xs \<Longrightarrow> Q ys \<Longrightarrow> R (xs @ ys)"
  shows "emits sent (sbind m f) R"
  unfolding emits_def
proof (intro allI impI)
  fix en :: "'a engine" assume g: "en_guard en = None"
  obtain r en1 where m: "m en = (r, en1)" by fastforce
  from assms(1) g m obtain xs where xs: "en_guard en1 = None" "wrote sent (en_client en) (en_client en1) xs" "P xs"
    unfolding emits_def by (metis snd_conv)
  show "en_guard (snd (sbind m f en)) = None \<and>
      (\<exists>ms. wrote sent (en_client en) (en_client (snd (sbind m f en))) ms \<and> R ms)"
  proof (cases r)
    case (Inl e)
    with m xs assms(3) show ?thesis by (auto simp: sbind_def)
  next
    case (Inr a)
    from assms(2) [OF m [unfolded Inr]] xs(1) obtain ys where
      "en_guard (snd (f a en1)) = None" "wrote sent (en_client en1) (en_client (snd (f a en1))) ys" "Q ys"
      unfolding emits_def by metis
    from wrote_trans [OF xs(2) this(2)] assms(4) [OF xs(3) this(3)] this(1) m Inr show ?thesis
      by (auto simp: sbind_def)
  qed
qed

lemma emits_silent_bind:
  assumes "silent sent m" and "P []" and "\<And>a en en'. m en = (Inr a, en') \<Longrightarrow> emits sent (f a) P"
  shows "emits sent (sbind m f) P"
  by (rule emits_bind [OF assms(1,3)]) (use assms(2) in auto)

lemma emits_bind_silent:
  assumes "emits sent m P" and "\<And>a en en'. m en = (Inr a, en') \<Longrightarrow> silent sent (f a)"
  shows "emits sent (sbind m f) P"
  by (rule emits_bind [OF assms]) auto

lemma silent_bind [emits_intros]:
  assumes "silent sent m" and "\<And>a. silent sent (f a)"
  shows "silent sent (sbind m f)"
  by (rule emits_silent_bind [OF assms(1) refl assms(2)])

lemma emits_if [emits_intros]:
  "(c \<Longrightarrow> emits sent a P) \<Longrightarrow> (\<not> c \<Longrightarrow> emits sent b P) \<Longrightarrow> emits sent (if c then a else b) P"
  by simp

lemma emits_cases [emits_intros]:
  "(x = None \<Longrightarrow> emits sent a P) \<Longrightarrow> (\<And>y. x = Some y \<Longrightarrow> emits sent (b y) P) \<Longrightarrow>
   emits sent (case x of None \<Rightarrow> a | Some y \<Rightarrow> b y) P"
  by (cases x) simp_all

lemma emits_pair [emits_intros]: "(\<And>a b. emits sent (f a b) P) \<Longrightarrow> emits sent (case p of (a, b) \<Rightarrow> f a b) P"
  by (cases p) simp

text \<open>A step given by cases on its state.\<close>

lemma emits_when:
  "(\<And>en. en_guard en = None \<Longrightarrow> \<exists>n. m en = n en \<and> emits sent n P) \<Longrightarrow> emits sent m P"
  unfolding emits_def by metis

section \<open>The messages of a tick\<close>

definition resume_message :: "manager_runtime \<Rightarrow> sent_message" where
  "resume_message rt = (''thread/resume'', thread_params (mr_session rt))"

definition start_message :: "manager_runtime \<Rightarrow> bool \<Rightarrow> sent_message" where
  "start_message rt restarted = (''turn/start'', start_params rt restarted)"

definition interrupt_of :: "manager_runtime \<Rightarrow> string \<Rightarrow> sent_message" where
  "interrupt_of rt turn = (''turn/interrupt'', interrupt_params (mr_session rt) turn)"

definition clean_message :: "manager_runtime \<Rightarrow> sent_message" where
  "clean_message rt = (''thread/backgroundTerminals/clean'', thread_params (mr_session rt))"

text \<open>An interrupt of \<open>turn\<close>, with the cleanup that may follow it.\<close>

definition interrupts :: "manager_runtime \<Rightarrow> string \<Rightarrow> sent_message list \<Rightarrow> bool" where
  "interrupts rt turn ms \<longleftrightarrow> ms \<in> {[], [interrupt_of rt turn], [interrupt_of rt turn, clean_message rt]}"

text \<open>A start, with the interrupt of the turn when it can be neither tracked nor persisted.\<close>

definition starts :: "manager_runtime \<Rightarrow> sent_message list \<Rightarrow> bool" where
  "starts rt ms \<longleftrightarrow> (\<exists>pre restarted turn. pre \<in> {[], [resume_message rt]} \<and>
     ms \<in> {pre, pre @ [start_message rt restarted], pre @ [start_message rt restarted, interrupt_of rt turn]})"

definition tick_messages :: "manager_runtime \<Rightarrow> sent_message list \<Rightarrow> bool" where
  "tick_messages rt ms \<longleftrightarrow>
     ms = [] \<or>
     (\<exists>turn. interrupts rt turn ms \<and> mv_managed_turn (mr_view rt) = Some turn \<and>
        (mr_shutdown_requested rt \<and> mr_shutdown_interrupt rt \<or>
         mv_restart_turn (mr_view rt) = Some turn \<and> mr_request rt \<noteq> None)) \<or>
     (\<exists>turn. ms = [interrupt_of rt turn] \<and> mr_pending_turn rt = Some turn \<and> mr_pending_timed_out_at rt \<noteq> None) \<or>
     (starts rt ms \<and> mv_enabled (mr_view rt) \<and> mv_handoff_requested (mr_view rt) \<and>
        mv_managed_turn (mr_view rt) = None \<and> mr_pending_turn rt = None \<and> \<not> mr_shutdown_requested rt \<and>
        \<not> mv_goal_companion (mr_view rt))"

lemma tick_messages_Nil [simp]: "tick_messages rt []"
  by (simp add: tick_messages_def)

section \<open>Clients of the interface\<close>

lemma require_goal_guard_bind:
  "en_guard en = None \<Longrightarrow> sbind require_goal_guard f en = (Inl (GoalControlError ''goal_identity_missing''), en)"
  by (simp add: require_goal_guard_def sbind_def)

lemma guard_do_missing:
  "en_guard en = None \<Longrightarrow> guard_do m en = (Inl (GoalControlError ''goal_identity_missing''), en)"
  by (simp add: guard_do_def)

lemma silent_raises:
  "(\<And>en. en_guard en = None \<Longrightarrow> m en = (Inl e, en)) \<Longrightarrow> silent sent m"
  by (simp add: emits_def)

lemma silent_close [emits_intros]: "silent sent (close_engine M T)"
  by (simp add: emits_def close_engine_def)

lemma silent_fail [emits_intros]: "silent sent (fail M T rt why)"
  unfolding fail_def by (intro emits_intros)

lemma silent_finish_and [emits_intros]: "silent sent m \<Longrightarrow> silent sent (finish_and T rt turn m)"
  unfolding finish_and_def by (intro emits_intros)

lemma silent_own_turn [emits_intros]: "silent sent (own_turn T rt turn)"
  unfolding own_turn_def by (intro emits_intros)

lemma silent_resume_goal [emits_intros]: "silent sent (resume_goal M T rt)"
  unfolding resume_goal_def by (rule silent_raises) (rule require_goal_guard_bind)

lemma silent_resolve_completed [emits_intros]: "silent sent (resolve_completed M T rt turn)"
proof (rule emits_when)
  fix en :: "'a engine" assume "en_guard en = None"
  then have "resolve_completed M T rt turn en =
      (if \<not> mv_goal_companion (mr_view rt) then finish_and T rt turn (sret (resolution True False None))
       else sret (resolution False False (Some ''goal_identity_missing''))) en"
    by (simp add: resolve_completed_def sret_def)
  moreover have "silent sent (if \<not> mv_goal_companion (mr_view rt)
      then finish_and T rt turn (sret (resolution True False None))
      else sret (resolution False False (Some ''goal_identity_missing'')))"
    by (intro emits_intros)
  ultimately show "\<exists>n. resolve_completed M T rt turn en = n en \<and> silent sent n" by blast
qed

lemma silent_resolve [emits_intros]: "silent sent (resolve_turn_outcome M T rt turn outcome)"
proof -
  have "silent sent (resolve_interrupted T rt turn)"
    unfolding resolve_interrupted_def
    by (cases "classify_interrupt_claim rt turn (tk_now T)"; simp split del: if_split; intro emits_intros)
  then show ?thesis
    unfolding resolve_turn_outcome_def by (cases outcome; simp split del: if_split; intro emits_intros)
qed

lemma silent_resolve_owned [emits_intros]: "silent sent (resolve_owned M T rt turn outcome)"
  unfolding resolve_owned_def by (intro emits_intros)

context managed_app_server
begin

lemma silent_reads [emits_intros]:
  "silent sent (client_do (ms_pending M))" "silent sent (client_do (ms_active M thread))"
  "silent sent (client_do (ms_completed M turn))" "silent sent (client_do (ms_outcome M turn))"
  "silent sent (client_do (ms_latest M thread))" "silent sent (client_do (ms_wait_started M thread turn))"
  "silent sent (client_do (ms_wait_completed M turn))"
  "silent sent (client_do (ms_wait_next M thread previous))" "silent sent (client_do (ms_start M))"
  by (rule silent_client, rule pending_writes active_writes completed_writes outcome_writes latest_writes
      wait_started_writes wait_completed_writes wait_next_writes start_writes)+

text \<open>A request that is answered has written itself and nothing else.\<close>

lemma emits_send_bind:
  assumes nh: "\<not> handshake (meth, params)" and f: "\<And>r. emits sent (f r) Q"
    and fails: "\<And>ms. request_messages meth params ms \<Longrightarrow> R ms"
    and answered: "\<And>ys. Q ys \<Longrightarrow> R ((meth, params) # ys)"
  shows "emits sent (sbind (send M meth params t) f) R"
  unfolding emits_def
proof (intro allI impI)
  fix en :: "'c engine" assume g: "en_guard en = None"
  obtain r c where m: "ms_request M meth params t (en_client en) = (r, c)" by fastforce
  show "en_guard (snd (sbind (send M meth params t) f en)) = None \<and>
      (\<exists>ms. wrote sent (en_client en) (en_client (snd (sbind (send M meth params t) f en))) ms \<and> R ms)"
  proof (cases r)
    case (Inl e)
    then show ?thesis
      using m g fails request_writes [OF nh, of "en_client en" t]
      by (auto simp: sbind_def send_def client_do_def)
  next
    case (Inr a)
    let ?en = "en\<lparr>en_client := c\<rparr>"
    from g have "en_guard ?en = None" by simp
    with f [of a] obtain ys where ys: "en_guard (snd (f a ?en)) = None"
      "wrote sent c (en_client (snd (f a ?en))) ys" "Q ys"
      unfolding emits_def by (metis engine.select_convs(1) engine.surjective engine.update_convs(1))
    from wrote_trans [OF request_accepted [OF nh m [unfolded Inr]] ys(2)] answered [OF ys(3)] ys(1) m Inr
    show ?thesis by (auto simp: sbind_def send_def client_do_def)
  qed
qed

lemma send_interrupt_emits: "emits sent (send_interrupt M rt turn) (\<lambda>ms. ms \<in> {[], [interrupt_of rt turn]})"
  unfolding send_interrupt_def
  by (rule emits_send_bind [where Q = "\<lambda>ms. ms = []"])
     (auto simp: handshake_def request_messages_def interrupt_of_def intro: emits_intros)

lemma send_cleanup_emits: "emits sent (send_cleanup M rt) (\<lambda>ms. ms \<in> {[], [clean_message rt]})"
  unfolding send_cleanup_def
  by (rule emits_if, rule emits_send_bind [where Q = "\<lambda>ms. ms = []"])
     (auto simp: handshake_def request_messages_def clean_message_def intro: emits_intros emits_silent)

end

context managed_app_server
begin

text \<open>An interrupt, followed by the cleanup.\<close>

lemma emits_interrupt_bind:
  assumes "\<And>r. emits sent (f r) (\<lambda>ms. ms \<in> {[], [clean_message rt]})"
  shows "emits sent (sbind (send_interrupt M rt turn) f) (interrupts rt turn)"
proof -
  have "emits sent (sbind (send M ''turn/interrupt'' (interrupt_params (mr_session rt) turn) 10) (\<lambda>_. f ()))
      (interrupts rt turn)"
    by (rule emits_send_bind [OF _ assms])
       (auto simp: handshake_def request_messages_def interrupts_def interrupt_of_def)
  moreover have "sbind (send_interrupt M rt turn) f =
      sbind (send M ''turn/interrupt'' (interrupt_params (mr_session rt) turn) 10) (\<lambda>_. f ())"
    by (simp add: send_interrupt_def step_defs fun_eq_iff split: prod.split sum.split)
  ultimately show ?thesis by simp
qed

lemma finish_interrupt_emits: "emits sent (finish_interrupt M T rt turn) (\<lambda>ms. ms \<in> {[], [clean_message rt]})"
  unfolding finish_interrupt_def
proof (rule emits_silent_bind)
  fix outcome
  have "emits sent (sbind (send_cleanup M rt) (\<lambda>_.
      sbind (disk_do (record_restart_performed (tk_manager T) (mr_file rt) turn (tk_now T))) (\<lambda>_.
      sret (interrupt_ok True)))) (\<lambda>ms. ms \<in> {[], [clean_message rt]})"
    by (intro emits_bind_silent [OF send_cleanup_emits] emits_intros)
  then show "emits sent (case outcome of
       Some OUT_FAILED \<Rightarrow> sret (interrupt_failed ''turn_failed'')
     | Some OUT_COMPLETED \<Rightarrow> sret (interrupt_ok False)
     | Some OUT_IN_PROGRESS \<Rightarrow> sret (interrupt_failed ''turn_status_invalid'')
     | Some OUT_INVALID \<Rightarrow> sret (interrupt_failed ''turn_status_invalid'')
     | None \<Rightarrow> sret (interrupt_failed ''turn_interrupted_external'')
     | Some OUT_INTERRUPTED \<Rightarrow>
         sbind (send_cleanup M rt) (\<lambda>_.
         sbind (disk_do (record_restart_performed (tk_manager T) (mr_file rt) turn (tk_now T))) (\<lambda>_.
         sret (interrupt_ok True)))) (\<lambda>ms. ms \<in> {[], [clean_message rt]})"
    by (auto split: option.split turn_outcome.split intro: emits_silent emits_intros)
qed (auto intro: emits_intros)

lemma silent_cancel [emits_intros]: "silent sent (cancel_interrupt M T rt turn)"
  unfolding cancel_interrupt_def by (intro emits_intros)

lemma interrupts_Nil [simp]: "interrupts rt turn []"
  by (simp add: interrupts_def)

text \<open>Without a request that is still unclaimed there is no interrupt.\<close>

lemma execute_interrupt_emits:
  "emits sent (execute_interrupt M T rt turn False) (\<lambda>ms. interrupts rt turn ms \<and> (ms \<noteq> [] \<longrightarrow> mr_request rt \<noteq> None))"
proof (cases "mr_request rt")
  case None
  then have "store_do (claim_restart_request (tk_manager T) (tk_source T) (tk_now T) rt) en = (Inr False, en)"
    for en :: "'c engine"
    by (simp add: store_do_def disk_do_def claim_restart_request_def split: prod.split)
  then have "execute_interrupt M T rt turn False en = sret (interrupt_ok False) en" for en :: "'c engine"
    by (simp add: execute_interrupt_def sbind_def sret_def)
  then have eq: "execute_interrupt M T rt turn False = sret (interrupt_ok False)" by (rule ext)
  show ?thesis unfolding eq by (rule emits_silent [OF silent_pure(1)]) simp
next
  case (Some request)
  have sent: "emits sent (sbind (send_interrupt M rt turn) (\<lambda>_.
      sbind (client_do (ms_wait_completed M turn)) (\<lambda>completed.
      if \<not> completed then sret (interrupt_failed ''interrupt_timeout'')
      else finish_interrupt M T rt turn))) (interrupts rt turn)"
    by ((rule emits_interrupt_bind finish_interrupt_emits emits_intros | rule emits_silent_bind | rule emits_silent | simp)+)
  have "emits sent (execute_interrupt M T rt turn False) (interrupts rt turn)"
    unfolding execute_interrupt_def
    by ((rule sent emits_intros | rule emits_silent_bind | rule emits_silent | simp)+)
  with Some show ?thesis by simp
qed

lemma expire_pending_emits: "emits sent (expire_pending M T rt turn) (\<lambda>ms. ms \<in> {[], [interrupt_of rt turn]})"
  unfolding expire_pending_def
  by ((rule send_interrupt_emits emits_intros | rule emits_silent_bind | rule emits_silent | simp)+)

lemma interrupt_unowned_emits:
  "emits sent (interrupt_unowned_accepted M rt turn) (\<lambda>ms. ms \<in> {[], [interrupt_of rt turn]})"
  unfolding emits_def
proof (intro allI impI)
  fix en :: "'c engine" assume g: "en_guard en = None"
  let ?en = "en\<lparr>en_accepted := (mr_session rt, turn) # en_accepted en\<rparr>"
  have "en_guard ?en = None" "en_client ?en = en_client en" using g by simp_all
  with send_interrupt_emits [of rt turn, unfolded emits_def, rule_format, of ?en]
  show "en_guard (snd (interrupt_unowned_accepted M rt turn en)) = None \<and>
    (\<exists>ms. wrote sent (en_client en) (en_client (snd (interrupt_unowned_accepted M rt turn en))) ms \<and>
       ms \<in> {[], [interrupt_of rt turn]})"
    using g unfolding interrupt_unowned_accepted_def by auto
qed

lemma persist_emits: "emits sent (persist_accepted_turn M T rt turn) (\<lambda>ms. ms \<in> {[], [interrupt_of rt turn]})"
  unfolding emits_def
proof (intro allI impI)
  fix en :: "'c engine" assume g: "en_guard en = None"
  obtain r en1 where s: "store_do (record_pending_turn (tk_manager T) (mr_file rt) turn) en = (r, en1)" by fastforce
  then have same: "en_guard en1 = None" "en_client en1 = en_client en"
    using g by (auto simp: store_do_def disk_do_def split: prod.splits)
  have u: "en_guard (snd (interrupt_unowned_accepted M rt turn en1)) = None \<and>
    (\<exists>ms. wrote sent (en_client en) (en_client (snd (interrupt_unowned_accepted M rt turn en1))) ms \<and>
       ms \<in> {[], [interrupt_of rt turn]})"
    using interrupt_unowned_emits [of rt turn, unfolded emits_def, rule_format, OF same(1)] same(2) by simp
  show "en_guard (snd (persist_accepted_turn M T rt turn en)) = None \<and>
    (\<exists>ms. wrote sent (en_client en) (en_client (snd (persist_accepted_turn M T rt turn en))) ms \<and>
       ms \<in> {[], [interrupt_of rt turn]})"
  proof (cases r)
    case (Inr a)
    with s same show ?thesis by (auto simp: persist_accepted_turn_def)
  next
    case (Inl e)
    then have p: "snd (persist_accepted_turn M T rt turn en) = recover_accepted_turn M T rt turn en1"
      using s by (simp add: persist_accepted_turn_def)
    have "recover_accepted_turn M T rt turn en1 \<in> {en1, snd (interrupt_unowned_accepted M rt turn en1)}"
      by (auto simp: recover_accepted_turn_def split: sum.split option.split)
    then consider "recover_accepted_turn M T rt turn en1 = en1"
      | "recover_accepted_turn M T rt turn en1 = snd (interrupt_unowned_accepted M rt turn en1)" by blast
    then show ?thesis
    proof cases
      case 1
      with same show ?thesis unfolding p by auto
    next
      case 2
      with u show ?thesis unfolding p by simp
    qed
  qed
qed

end

context managed_app_server
begin

lemma load_thread_emits: "emits sent (load_thread M rt) (\<lambda>ms. ms \<in> {[], [resume_message rt]})"
proof (rule emits_when)
  fix en :: "'c engine"
  have "emits sent (sbind (send M ''thread/resume'' (thread_params (mr_session rt)) 10) (\<lambda>_.
      smodify (\<lambda>en. en\<lparr>en_loaded := True\<rparr>))) (\<lambda>ms. ms \<in> {[], [resume_message rt]})"
    by (rule emits_send_bind [where Q = "\<lambda>ms. ms = []"])
       (auto simp: handshake_def request_messages_def resume_message_def emits_def step_defs)
  moreover have "emits sent (sret ()) (\<lambda>ms. ms \<in> {[], [resume_message rt]})"
    by (rule emits_silent [OF silent_pure(1)]) simp
  ultimately show "\<exists>n. load_thread M rt en = n en \<and> emits sent n (\<lambda>ms. ms \<in> {[], [resume_message rt]})"
    unfolding load_thread_def by (cases "en_loaded en") (auto simp: sret_def)
qed

lemma after_start_emits:
  "emits sent (case result_turn_id result of
     None \<Rightarrow> fail M T rt ''start_timeout''
   | Some turn \<Rightarrow>
       sbind (persist_accepted_turn M T rt turn) (\<lambda>_.
       sbind (client_do (ms_wait_started M (mr_session rt) turn)) (\<lambda>started.
       if \<not> started
       then sbind (store_do (mark_pending_turn_timed_out (tk_manager T) (mr_file rt) turn (tk_monotonic T))) (\<lambda>_.
         sret True)
       else
         sbind (own_turn T rt turn) (\<lambda>_.
         sbind (set_restarted False) (\<lambda>_. sret True)))))
     (\<lambda>ms. ms = [] \<or> (\<exists>turn. ms = [interrupt_of rt turn]))"
proof (rule emits_cases)
  fix turn
  show "emits sent (sbind (persist_accepted_turn M T rt turn) (\<lambda>_.
       sbind (client_do (ms_wait_started M (mr_session rt) turn)) (\<lambda>started.
       if \<not> started
       then sbind (store_do (mark_pending_turn_timed_out (tk_manager T) (mr_file rt) turn (tk_monotonic T))) (\<lambda>_.
         sret True)
       else
         sbind (own_turn T rt turn) (\<lambda>_.
         sbind (set_restarted False) (\<lambda>_. sret True)))))
     (\<lambda>ms. ms = [] \<or> (\<exists>turn. ms = [interrupt_of rt turn]))"
    by (rule emits_bind_silent [OF emits_weaken [OF persist_emits]], blast, intro emits_intros)
qed (auto intro: emits_silent emits_intros)

lemma start_turn_emits: "emits sent (start_turn M T rt) (starts rt)"
  unfolding start_turn_def
proof (rule emits_bind [OF load_thread_emits])
  show "emits sent (sbind (sget en_restarted) (\<lambda>restarted.
      sbind (send M ''turn/start'' (start_params rt restarted) 12) (\<lambda>result.
      case result_turn_id result of
       None \<Rightarrow> fail M T rt ''start_timeout''
     | Some turn \<Rightarrow>
         sbind (persist_accepted_turn M T rt turn) (\<lambda>_.
         sbind (client_do (ms_wait_started M (mr_session rt) turn)) (\<lambda>started.
         if \<not> started
         then sbind (store_do (mark_pending_turn_timed_out (tk_manager T) (mr_file rt) turn (tk_monotonic T))) (\<lambda>_.
           sret True)
         else
           sbind (own_turn T rt turn) (\<lambda>_.
           sbind (set_restarted False) (\<lambda>_. sret True)))))))
      (\<lambda>ms. \<exists>restarted turn.
         ms \<in> {[], [start_message rt restarted], [start_message rt restarted, interrupt_of rt turn]})"
  proof (rule emits_silent_bind [OF silent_pure(3)], blast, rule emits_send_bind [OF _ after_start_emits])
    fix restarted ms assume "request_messages ''turn/start'' (start_params rt restarted) ms"
    then show "\<exists>restarted turn.
        ms \<in> {[], [start_message rt restarted], [start_message rt restarted, interrupt_of rt turn]}"
      by (auto simp: request_messages_def start_message_def interrupt_of_def start_params_def)
  qed (auto simp: handshake_def start_message_def)
qed (auto simp: starts_def)

lemma reconcile_emits:
  assumes "mr_pending_turn rt = Some turn"
  shows "emits sent (reconcile_pending_turn M T rt)
    (\<lambda>ms. ms = [] \<or> ms = [interrupt_of rt turn] \<and> mr_pending_timed_out_at rt \<noteq> None)"
proof -
  have expired: "emits sent (sbind (expire_pending M T rt turn) (\<lambda>_. fail M T rt ''start_timeout''))
      (\<lambda>ms. ms \<in> {[], [interrupt_of rt turn]})"
    by (rule emits_bind_silent [OF expire_pending_emits]) (intro emits_intros)
  show ?thesis
    unfolding reconcile_pending_turn_def assms option.case
    by (rule emits_if, rule emits_weaken [OF expired], force split: option.splits,
        rule emits_silent, (intro emits_intros)[1], simp)
qed

lemma shutdown_emits:
  "emits sent (handle_shutdown M T rt)
     (\<lambda>ms. ms = [] \<or> mr_shutdown_interrupt rt \<and> (\<exists>turn. mv_managed_turn (mr_view rt) = Some turn \<and> interrupts rt turn ms))"
  (is "emits sent _ ?P")
proof (cases "mv_managed_turn (mr_view rt)")
  case None
  then show ?thesis unfolding handle_shutdown_def by (auto intro: emits_silent emits_intros)
next
  case (Some turn)
  define guarded_step where "guarded_step en =
    (if mv_goal_companion (mr_view rt) \<and> en_guard en = None
     then fail M T rt ''goal_identity_missing'' en
     else
       sbind (if mv_goal_companion (mr_view rt) then guard_do (pause_for_interrupt M) else sret ()) (\<lambda>_.
       sbind (send_interrupt M rt turn) (\<lambda>_.
       sbind (client_do (ms_wait_completed M turn)) (\<lambda>completed.
       if \<not> completed then fail M T rt ''interrupt_timeout''
       else sbind (send_cleanup M rt) (\<lambda>_.
         sbind (store_do (disable_session (tk_setup T) (mr_session rt))) (\<lambda>_. sret False))))) en)"
    for en :: "'c engine"
  have clean: "emits sent (sbind (send_cleanup M rt) (\<lambda>_.
      sbind (store_do (disable_session (tk_setup T) (mr_session rt))) (\<lambda>_. sret False)))
      (\<lambda>ms. ms \<in> {[], [clean_message rt]})"
    by (rule emits_bind_silent [OF send_cleanup_emits]) (intro emits_intros)
  have body: "emits sent (sbind (sret ()) (\<lambda>_. sbind (send_interrupt M rt turn) (\<lambda>_.
      sbind (client_do (ms_wait_completed M turn)) (\<lambda>completed.
      if \<not> completed then fail M T rt ''interrupt_timeout''
      else sbind (send_cleanup M rt) (\<lambda>_.
        sbind (store_do (disable_session (tk_setup T) (mr_session rt))) (\<lambda>_. sret False)))))) (interrupts rt turn)"
    by ((rule clean emits_interrupt_bind emits_intros | rule emits_silent_bind | rule emits_silent | simp)+)
  have "emits sent guarded_step (interrupts rt turn)"
  proof (rule emits_when)
    fix en :: "'c engine" assume g: "en_guard en = None"
    show "\<exists>n. guarded_step en = n en \<and> emits sent n (interrupts rt turn)"
    proof (cases "mv_goal_companion (mr_view rt)")
      case True
      then have "guarded_step en = fail M T rt ''goal_identity_missing'' en"
        using g by (simp add: guarded_step_def)
      then show ?thesis using emits_silent [OF silent_fail] interrupts_Nil by blast
    next
      case False
      then show ?thesis using body unfolding guarded_step_def by auto
    qed
  qed
  then have step: "mr_shutdown_interrupt rt \<Longrightarrow> emits sent guarded_step ?P"
    by (rule emits_weaken) (use Some in auto)
  have "handle_shutdown M T rt = (if \<not> mr_shutdown_interrupt rt then sret True
     else sbind (client_do (ms_active M (mr_session rt))) (\<lambda>active.
       if active \<noteq> Some turn then fail M T rt ''active_turn_mismatch'' else guarded_step))"
    unfolding handle_shutdown_def Some guarded_step_def by simp
  then show ?thesis
    by (simp only:) ((rule step emits_intros | rule emits_silent_bind | rule emits_silent | simp)+)
qed

end

lemma decision_start:
  "md_action (decide_manager_action v a) = ACT_START \<Longrightarrow> mv_enabled v \<and> mv_handoff_requested v \<and>
     mv_managed_turn v = None \<and> \<not> mv_goal_companion v"
  "md_action (decide_manager_action v a) = ACT_INTERRUPT \<Longrightarrow> md_turn (decide_manager_action v a) = Some turn \<Longrightarrow>
     mv_managed_turn v = Some turn \<and> mv_restart_turn v = Some turn"
  by (auto simp: decide_manager_action_def restart_decision_def handoff_decision_def decision_def
      fail_decision_def Let_def split: if_splits)

lemma restarted_step_silent [emits_intros]: "silent sent (if b then set_restarted True else sret ())"
  by (intro emits_intros)

context managed_app_server
begin

lemma interrupt_turn_emits:
  "emits sent (interrupt_turn M T rt turn) (\<lambda>ms. interrupts rt turn ms \<and> (ms \<noteq> [] \<longrightarrow> mr_request rt \<noteq> None))"
  (is "emits sent _ ?P")
proof (cases "mv_goal_companion (mr_view rt)")
  case True
  then have "silent sent (interrupt_turn M T rt turn)"
    unfolding interrupt_turn_def by (intro silent_raises) (simp add: require_goal_guard_bind)
  then show ?thesis by (rule emits_silent) simp
next
  case False
  have "emits sent (sbind (execute_interrupt M T rt turn False) (\<lambda>r.
     case ir_failure r of
       Some why \<Rightarrow> fail M T rt why
     | None \<Rightarrow> sbind (if ir_restarted r then set_restarted True else sret ()) (\<lambda>_. sret True))) ?P"
    by (rule emits_bind_silent [OF execute_interrupt_emits]) (intro emits_intros)
  with False show ?thesis
    unfolding interrupt_turn_def by (simp del: not_None_eq) (rule emits_silent_bind [OF silent_pure(1)], simp_all)
qed

lemma decision_emits:
  assumes "\<not> mr_shutdown_requested rt" and "mr_pending_turn rt = None"
  shows "emits sent (execute_decision M T rt) (tick_messages rt)"
  unfolding execute_decision_def Let_def
proof (rule emits_silent_bind [OF silent_reads(2)], rule tick_messages_Nil)
  fix active
  let ?d = "decide_manager_action (mr_view rt) active"
  show "emits sent (case md_action ?d of
          ACT_START \<Rightarrow> start_turn M T rt
        | ACT_RESUME_GOAL \<Rightarrow> resume_goal M T rt
        | ACT_INTERRUPT \<Rightarrow>
            (case md_turn ?d of None \<Rightarrow> fail M T rt ''app_server_failed'' | Some turn \<Rightarrow> interrupt_turn M T rt turn)
        | ACT_FAIL_CLOSED \<Rightarrow>
            fail M T rt (case md_reason ?d of
              None \<Rightarrow> ''app_server_failed'' | Some why \<Rightarrow> if why = [] then ''app_server_failed'' else why)
        | ACT_WAIT \<Rightarrow> sret True
        | ACT_STOP \<Rightarrow> sret False) (tick_messages rt)"
  proof (cases "md_action ?d")
    case ACT_START
    from decision_start(1) [OF this] assms have "starts rt ms \<Longrightarrow> tick_messages rt ms" for ms
      by (auto simp: tick_messages_def)
    with ACT_START show ?thesis by (simp add: emits_weaken [OF start_turn_emits])
  next
    case ACT_INTERRUPT
    show ?thesis
    proof (cases "md_turn ?d")
      case None
      with ACT_INTERRUPT show ?thesis by (simp add: emits_silent [OF silent_fail])
    next
      case (Some turn)
      from decision_start(2) [OF ACT_INTERRUPT Some]
      have "emits sent (interrupt_turn M T rt turn) (tick_messages rt)"
        by (intro emits_weaken [OF interrupt_turn_emits]) (auto simp: tick_messages_def)
      with ACT_INTERRUPT Some show ?thesis by simp
    qed
  qed (simp_all add: emits_silent [OF silent_fail] emits_silent [OF silent_pure(1)]
      emits_silent [OF silent_resume_goal])
qed

lemma tick_body_emits: "emits sent (tick_body M T rt) (tick_messages rt)"
proof -
  have shutdown: "mr_shutdown_requested rt \<Longrightarrow> emits sent (handle_shutdown M T rt) (tick_messages rt)"
    by (rule emits_weaken [OF shutdown_emits]) (auto simp: tick_messages_def)
  have pending: "mr_pending_turn rt \<noteq> None \<Longrightarrow> emits sent (reconcile_pending_turn M T rt) (tick_messages rt)"
    by (elim not_None_eq [THEN iffD1, elim_format] exE, rule emits_weaken [OF reconcile_emits])
       (auto simp: tick_messages_def)
  have owned: "emits sent (resolve_owned M T rt turn r) (tick_messages rt)" for turn r
    by (rule emits_silent [OF silent_resolve_owned]) simp
  show ?thesis
    unfolding tick_body_def
    by ((assumption | rule pending decision_emits shutdown owned emits_intros | rule emits_silent_bind
        | rule emits_silent | simp)+)
qed

end

text \<open>A step whose error is handled by a silent step.\<close>

lemma emits_then_silent:
  assumes "emits sent m P" and "\<And>r. silent sent (h r)"
  shows "emits sent (\<lambda>en. case m en of (r, en') \<Rightarrow> h r en') P"
  unfolding emits_def
proof (intro allI impI)
  fix en :: "'a engine" assume g: "en_guard en = None"
  obtain r en1 where m: "m en = (r, en1)" by fastforce
  from assms(1) g m obtain ms where ms: "en_guard en1 = None" "wrote sent (en_client en) (en_client en1) ms" "P ms"
    unfolding emits_def by (metis snd_conv)
  from assms(2) [of r] ms(1) have "en_guard (snd (h r en1)) = None"
    and "wrote sent (en_client en1) (en_client (snd (h r en1))) []" unfolding emits_def by auto
  with wrote_trans [OF ms(2) this(2)] ms(3) m
  show "en_guard (snd (case m en of (r, en') \<Rightarrow> h r en')) = None \<and>
      (\<exists>ms. wrote sent (en_client en) (en_client (snd (case m en of (r, en') \<Rightarrow> h r en'))) ms \<and> P ms)"
    by auto
qed

text \<open>What \<open>_tick_runtime\<close> makes of a result of its body.\<close>

definition settle_tick ::
  "'c managed_server \<Rightarrow> tick_env \<Rightarrow> manager_runtime \<Rightarrow> exn + bool \<Rightarrow> ('c, bool) engine_step" where
  "settle_tick M T rt r =
     (case r of
        Inl (GoalControlError why) \<Rightarrow>
          if why = ''goal_complete''
          then sbind (store_do (disable_session (tk_setup T) (mr_session rt))) (\<lambda>_. sret False)
          else fail M T rt why
      | _ \<Rightarrow> slift r)"

lemma tick_runtime_eq: "tick_runtime M T rt = (\<lambda>en. case tick_body M T rt en of (r, en') \<Rightarrow> settle_tick M T rt r en')"
  unfolding tick_runtime_def settle_tick_def fun_eq_iff
  by (auto simp: slift_def split: prod.split sum.split exn.split)

lemma silent_settle [emits_intros]: "silent sent (settle_tick M T rt r)"
  unfolding settle_tick_def by (auto split: sum.split exn.split intro: emits_intros)

text \<open>The methods of the messages of a whole run.\<close>

definition ordinary_methods :: "string set" where
  "ordinary_methods = {''thread/resume'', ''turn/start'', ''turn/interrupt'', ''thread/backgroundTerminals/clean''}"

abbreviation ordinary :: "sent_message list \<Rightarrow> bool" where
  "ordinary ms \<equiv> fst ` set ms \<subseteq> ordinary_methods"

context managed_app_server
begin

lemma tick_runtime_emits: "emits sent (tick_runtime M T rt) (tick_messages rt)"
  unfolding tick_runtime_eq by (rule emits_then_silent [OF tick_body_emits silent_settle])

lemma tick_writes:
  assumes "en_guard en = None"
    and "load_manager_runtime (tk_manager T) (tk_name T) (fst (en_disk en)) = Inr (Some rt)"
  shows "\<exists>ms. wrote sent (en_client en) (en_client (snd (tick M T en))) ms \<and> tick_messages rt ms \<and>
    en_guard (snd (tick M T en)) = None"
proof -
  have "tick M T en = tick_runtime M T rt en"
    using assms(2) by (simp add: tick_def load_runtime_def sbind_def)
  with tick_runtime_emits [of T rt] assms(1) show ?thesis unfolding emits_def by auto
qed

lemma tick_ordinary: "emits sent (tick M T) ordinary"
proof -
  have "tick_messages rt ms \<Longrightarrow> ordinary ms" for rt ms
    by (auto simp: tick_messages_def starts_def interrupts_def ordinary_methods_def resume_message_def
        start_message_def interrupt_of_def clean_message_def)
  then have "emits sent (tick_runtime M T rt) ordinary" for rt
    by (rule emits_weaken [OF tick_runtime_emits])
  then show ?thesis
    unfolding tick_def
    by (rule_tac emits_silent_bind) (auto intro!: emits_cases emits_silent [OF silent_pure(1)] intro: emits_intros)
qed

lemma run_ticks_ordinary: "emits sent (run_ticks M Ts) ordinary"
proof (induction Ts)
  case Nil
  show ?case by (simp add: emits_def) (auto intro: exI [of _ "[]"])
next
  case (Cons T Ts)
  have "run_ticks M (T # Ts) = sbind (tick M T) (\<lambda>go. if go then run_ticks M Ts else sret False)"
    by (rule ext) (simp add: sbind_def sret_def split: prod.split sum.split bool.split)
  moreover have "emits sent (sbind (tick M T) (\<lambda>go. if go then run_ticks M Ts else sret False)) ordinary"
    by (rule emits_bind [OF tick_ordinary, where Q = ordinary])
       (auto intro: Cons.IH emits_silent [OF silent_pure(1)] intro!: emits_if)
  ultimately show ?case by simp
qed

end

lemma step_with_policy:
  "sbind (slift (enforce_goal_companion_policy False)) f = f ()"
  by (simp add: fun_eq_iff enforce_goal_companion_policy_def require_def sbind_def slift_def)

context managed_app_server
begin

lemma initialize_silent: "silent sent (initialize_engine M T)"
  unfolding initialize_engine_def
proof (rule emits_silent_bind [OF silent_pure(5)], simp, rule emits_cases)
  fix rt :: manager_runtime
  define start where "start =
    sbind (client_do (ms_start M)) (\<lambda>_.
    sbind (sret ()) (\<lambda>_.
    sbind (store_do (mark_manager_ready (tk_manager T) (mr_file rt) (tk_pid T))) (\<lambda>_. sret ())))"
  define settle where "settle r =
    (case r of Inr _ \<Rightarrow> sret () | Inl e \<Rightarrow> sbind (close_engine M T) (\<lambda>_. slift (Inl e)))"
    for r :: "exn + unit"
  have "silent sent start" unfolding start_def by (intro emits_intros)
  moreover have "silent sent (settle r)" for r
    unfolding settle_def by (cases r) (simp, intro emits_intros, simp, intro emits_intros)
  ultimately have body: "silent sent (\<lambda>en. case start en of (r, en') \<Rightarrow> settle r en')"
    by (rule emits_then_silent)
  let ?init = "sbind (slift (enforce_goal_companion_policy (mv_goal_companion (mr_view rt)))) (\<lambda>_ en.
         case (sbind (client_do (ms_start M)) (\<lambda>_.
               sbind (if mv_goal_companion (mr_view rt)
                      then sbind (load_thread M rt) (\<lambda>_ en.
                        case guard_initialize M (sha (mg_lib (tk_manager T)))
                            (\<lambda>fp st. case record_goal_fingerprint (tk_manager T) (mr_file rt) fp st of
                               (Inl e, st') \<Rightarrow> (Inl e, st') | (Inr _, st') \<Rightarrow> (Inr (), st'))
                            ((en_client en, new_guard rt), fst (en_disk en)) of
                          (r, ((c, g), st)) \<Rightarrow>
                            (r, en\<lparr>en_client := c, en_guard := Some g, en_disk := (st, snd (en_disk en))\<rparr>))
                      else sret ()) (\<lambda>_.
               sbind (store_do (mark_manager_ready (tk_manager T) (mr_file rt) (tk_pid T))) (\<lambda>_. sret ()))) en) of
           (Inr _, en') \<Rightarrow> (Inr (), en')
         | (Inl e, en') \<Rightarrow>
             (case close_engine M T en' of (Inl e', en'') \<Rightarrow> (Inl e', en'') | (Inr _, en'') \<Rightarrow> (Inl e, en'')))"
  show "silent sent ?init"
  proof (cases "mv_goal_companion (mr_view rt)")
    case True
    then show ?thesis by (intro silent_raises) simp
  next
    case False
    then have "?init = (\<lambda>en. case start en of (r, en') \<Rightarrow> settle r en')"
      unfolding start_def settle_def
      by (simp add: step_with_policy fun_eq_iff)
         (auto simp: sret_def slift_def sbind_def split: prod.split sum.split)
    with body show ?thesis by simp
  qed
qed (intro emits_intros)

lemma run_body_ordinary:
  "emits sent (sbind (initialize_engine M T) (\<lambda>_. sbind (run_ticks M Ts) (\<lambda>_. sret ()))) ordinary"
  by (rule emits_silent_bind [OF initialize_silent], simp,
      rule emits_bind_silent [OF run_ticks_ordinary], intro emits_intros)

end

text \<open>The cleanup writes nothing when closing the client writes nothing.\<close>

lemma disk_do_client [simp]:
  "en_client (snd (disk_do m en)) = en_client en" "en_guard (snd (disk_do m en)) = en_guard en"
  by (simp_all add: disk_do_def split: prod.split)

lemma close_unguarded: "en_guard en = None \<Longrightarrow> close_engine M T en = (Inr (), en)"
  by (simp add: close_engine_def)

lemma cleanup_engine:
  assumes "en_guard (pc_engine s) = None"
  shows "en_client (pc_engine (snd (cleanup_process M close T started s))) =
      (if started then close (en_client (pc_engine s)) else en_client (pc_engine s)) \<and>
    pc_leases (snd (cleanup_process M close T started s)) = release_manager_lease (tk_name T) (pc_leases s)"
  using assms by (simp add: cleanup_process_def close_unguarded split: prod.split)
    (metis disk_do_client(1) snd_conv)

lemma finish_engine:
  assumes "en_guard (pc_engine s) = None"
  shows "en_client (pc_engine (snd (finish_process M close T started body s))) =
      (if started then close (en_client (pc_engine s)) else en_client (pc_engine s)) \<and>
    pc_leases (snd (finish_process M close T started body s)) = release_manager_lease (tk_name T) (pc_leases s)"
proof -
  define s1 where "s1 = (case body of Inr _ \<Rightarrow> s
    | Inl e \<Rightarrow> if \<not> manager_handled e then s
        else s\<lparr>pc_engine := snd (disk_do (record_failure_if_present T e) (pc_engine s))\<rparr>)"
  have s1: "en_guard (pc_engine s1) = None" "en_client (pc_engine s1) = en_client (pc_engine s)"
    "pc_leases s1 = pc_leases s"
    using assms by (auto simp: s1_def split: sum.split)
  obtain u es s2 where c: "cleanup_process M close T started s1 = ((u, es), s2)" by (metis prod.collapse)
  define s3 where "s3 = (case es of [] \<Rightarrow> s2
    | e # _ \<Rightarrow> s2\<lparr>pc_engine := snd (disk_do (record_failure_if_present T e) (pc_engine s2))\<rparr>)"
  have "snd (finish_process M close T started body s) \<in> {s2, s3}"
  proof (cases body)
    case (Inl e)
    with c show ?thesis
      unfolding finish_process_def Let_def s1_def s3_def
      by (cases "manager_handled e"; cases es; cases u) (auto split: prod.splits sum.splits option.splits)
  next
    case (Inr a)
    with c show ?thesis
      unfolding finish_process_def Let_def s1_def s3_def
      by (cases es; cases u) (auto split: prod.splits sum.splits option.splits)
  qed
  moreover have "en_client (pc_engine s3) = en_client (pc_engine s2) \<and> pc_leases s3 = pc_leases s2"
    by (simp add: s3_def split: list.split)
  ultimately show ?thesis using cleanup_engine [OF s1(1), of M close T started] s1 c by auto
qed

section \<open>Properties\<close>

definition resident_run ::
  "client_env \<Rightarrow> tick_env \<Rightarrow> tick_env list \<Rightarrow> app_client \<Rightarrow> manager_disk \<Rightarrow> lease_disk \<Rightarrow>
   (exn + int) \<times> app_client process" where
  "resident_run N T Ts c disk leases =
     run_manager (resident_app_server N) close_client T Ts \<lparr>pc_engine = new_engine c disk, pc_leases = leases\<rparr>"

lemma lock_restored:
  "lf_holder (ld_files (case acquire_manager_lease L pid name d of
       (Inr True, d') \<Rightarrow> release_manager_lease name d' | (_, d') \<Rightarrow> d') name) = lf_holder (ld_files d name)"
  by (auto simp: acquire_manager_lease_def sbind_def slift_def prepare_lease_directory_def lock_enter_def
      write_private_text_def release_manager_lease_def lock_exit_def Let_def
      split: prod.split sum.split exn.split bool.split)

lemma run_cases:
  fixes N T Ts c disk leases
  defines "en \<equiv> new_engine c disk" and "s \<equiv> snd (resident_run N T Ts c disk leases)"
  obtains (early) m :: "(exn, manager_disk, unit) step" where "pc_engine s = snd (disk_do m en)" "pc_leases s = leases"
  | (refused) "pc_engine s = en" "fst (acquire_manager_lease (su_lease (tk_setup T)) (tk_pid T) (tk_name T) leases) \<noteq> Inr True"
      "pc_leases s = snd (acquire_manager_lease (su_lease (tk_setup T)) (tk_pid T) (tk_name T) leases)"
  | (run) d body en1 started where
      "acquire_manager_lease (su_lease (tk_setup T)) (tk_pid T) (tk_name T) leases = (Inr True, d)"
      "(body, en1) = (if started then sbind (initialize_engine (resident_app_server N) T)
         (\<lambda>_. sbind (run_ticks (resident_app_server N) Ts) (\<lambda>_. sret ())) en else (Inr (), en))"
      "s = snd (finish_process (resident_app_server N) close_client T started body
         \<lparr>pc_engine = en1, pc_leases = d\<rparr>)"
proof -
  show ?thesis
  proof (cases "su_private (tk_setup T)")
    case (Inl e)
    then have "pc_engine s = en" "pc_leases s = leases"
      by (simp_all add: s_def en_def resident_run_def run_manager_def)
    then show ?thesis by (intro early [of "slift (Inr ())"]) (simp_all add: disk_do_def slift_def)
  next
    case (Inr u)
    note ok = Inr
    show ?thesis
    proof (cases "load_manager_runtime (tk_manager T) (tk_name T) (fst disk)")
      case (Inl e)
      with ok have "pc_engine s = en" "pc_leases s = leases"
        by (simp_all add: s_def en_def resident_run_def run_manager_def new_engine_def)
      then show ?thesis by (intro early [of "slift (Inr ())"]) (simp_all add: disk_do_def slift_def)
    next
      case (Inr initial)
      show ?thesis
      proof (cases "case initial of None \<Rightarrow> False | Some rt \<Rightarrow> mv_goal_companion (mr_view rt)")
        case True
        have "pc_engine s = snd (disk_do (record_failure_if_present T
            (GoalControlError ''goal_companion_atomic_update_unavailable'')) en)" "pc_leases s = leases"
          using ok Inr True
          by (simp_all add: s_def en_def resident_run_def run_manager_def new_engine_def split: prod.split sum.split)
        then show ?thesis by (rule early)
      next
        case False
        obtain r d where a: "acquire_manager_lease (su_lease (tk_setup T)) (tk_pid T) (tk_name T) leases = (r, d)"
          by fastforce
        show ?thesis
        proof (cases "r = Inr True")
          case True
          obtain body en1 where b: "(body, en1) = (if initial \<noteq> None then sbind (initialize_engine (resident_app_server N) T)
             (\<lambda>_. sbind (run_ticks (resident_app_server N) Ts) (\<lambda>_. sret ())) en else (Inr (), en))"
            by (metis surj_pair)
          have "s = snd (finish_process (resident_app_server N) close_client T (initial \<noteq> None) body
              \<lparr>pc_engine = en1, pc_leases = d\<rparr>)"
            using ok Inr False True a b
            by (auto simp: s_def en_def resident_run_def run_manager_def new_engine_def Let_def split: if_splits)
              (metis (no_types, lifting) case_prod_conv)+
          with a b True show ?thesis by (intro run) auto
        next
          case no: False
          then have "pc_engine s = en" "pc_leases s = d"
            using ok Inr False a
            by (auto simp: s_def en_def resident_run_def run_manager_def new_engine_def split: sum.splits bool.splits)
          with a no show ?thesis by (intro refused) simp_all
        qed
      qed
    qed
  qed
qed


text \<open>
  C12: over its whole life, from the start of the connection through any number of ticks to the
  cleanup, a manager process asks the app server only to resume its thread, to start a turn, to
  interrupt one and to clean background terminals: the status of a Goal is never set and no turn is
  steered, whatever the documents, the app server and the clocks do.
\<close>

theorem manager_never_drives_goals:
  "\<exists>ms. wrote sent_messages c (en_client (pc_engine (snd (resident_run N T Ts c disk leases)))) ms \<and>
     fst ` set ms \<subseteq> {''thread/resume'', ''turn/start'', ''turn/interrupt'', ''thread/backgroundTerminals/clean''}"
proof -
  have same: "\<exists>ms. wrote sent_messages c c' ms \<and> fst ` set ms \<subseteq> ordinary_methods" if "c' = c" for c'
    using that by (intro exI [of _ "[]"]) simp
  have "\<exists>ms. wrote sent_messages c (en_client (pc_engine (snd (resident_run N T Ts c disk leases)))) ms \<and>
      fst ` set ms \<subseteq> ordinary_methods"
  proof (cases rule: run_cases [of N T Ts c disk leases])
    case (early m)
    then show ?thesis by (intro same) (simp add: new_engine_def)
  next
    case refused
    then show ?thesis by (intro same) (simp add: new_engine_def)
  next
    case (run d body en1 started)
    have "en_guard (new_engine c disk) = None" "en_client (new_engine c disk) = c"
      by (simp_all add: new_engine_def)
    with run(2) resident.run_body_ordinary [of N T Ts, unfolded emits_def, rule_format, of "new_engine c disk"]
    have en1: "en_guard en1 = None" "\<exists>ms. wrote sent_messages c (en_client en1) ms \<and> fst ` set ms \<subseteq> ordinary_methods"
      by (auto split: if_splits dest: sym) (metis snd_conv)+
    then have "rs_sent (en_client (pc_engine (snd (resident_run N T Ts c disk leases)))) = rs_sent (en_client en1)"
      using finish_engine [of "\<lparr>pc_engine = en1, pc_leases = d\<rparr>" "resident_app_server N" close_client T started body]
        run(3) by simp
    with en1(2) show ?thesis by (simp add: wrote_def sent_messages_def)
  qed
  then show ?thesis unfolding ordinary_methods_def .
qed



end
