(* ===== verification/ClientPool.thy ===== *)
theory ClientPool
  imports AppServerClient
begin

text \<open>
  \<open>scripts/daemon_client_pool.py\<close> with the close gate of \<open>daemon_client_close.py\<close>: the daemon's tasks share one app-server client. A client and
  a reference are identified by a number. Creation and close of a client are parameters; a section
  under the pool's lock is one step, and any steps of other threads may come in between.
\<close>

section \<open>The close gate\<close>

text \<open>
  The gate keeps the outcome of the last attempt; an attempt runs to its end in a thread of its own,
  and callers wait for it. Without an interrupt of the caller no outcome is left over.
\<close>

record close_gate =
  cg_succeeded :: bool
  cg_error :: "exn option"

definition new_gate :: close_gate where
  "new_gate = \<lparr>cg_succeeded = False, cg_error = None\<rparr>"

definition close_attempt :: "(exn, 'w, unit) step \<Rightarrow> close_gate \<times> 'w \<Rightarrow> close_gate \<times> 'w" where
  "close_attempt close = (\<lambda>(g, w).
     case close w of
       (Inl e, w') \<Rightarrow> (g\<lparr>cg_error := Some e\<rparr>, w')
     | (Inr _, w') \<Rightarrow> (\<lparr>cg_succeeded = True, cg_error = None\<rparr>, w'))"

definition gate_finish :: "(exn, 'w, unit) step \<Rightarrow> (exn, close_gate \<times> 'w, unit) step" where
  "gate_finish close = (\<lambda>(g, w).
     if cg_succeeded g then (Inr (), (g, w))
     else
       let (g', w') = (if cg_error g = None then close_attempt close (g, w) else (g, w))
       in case cg_error g' of
            None \<Rightarrow> (Inr (), (g', w'))
          | Some e \<Rightarrow> (Inl e, (g'\<lparr>cg_error := None\<rparr>, w')))"

section \<open>The pool\<close>

datatype reference_state = REF_BORROWED | REF_INSTALLED | REF_CLOSING

record reference_record =
  rr_client :: nat
  rr_state :: reference_state
  rr_gate :: close_gate

record 'w client_pool =
  cp_pooled :: "(nat \<times> string) option"
  cp_references :: "(nat \<times> reference_record) list"
  cp_next :: nat
  cp_world :: 'w

record 'w client_ops =
  co_create :: "string \<Rightarrow> (exn, 'w, nat) step"
  co_close :: "nat \<Rightarrow> (exn, 'w, unit) step"

type_synonym ('w, 'a) pool_op = "(exn, 'w client_pool, 'a) step"

definition new_pool :: "'w \<Rightarrow> 'w client_pool" where
  "new_pool w = \<lparr>cp_pooled = None, cp_references = [], cp_next = 0, cp_world = w\<rparr>"

definition closing :: "reference_record \<Rightarrow> bool" where
  "closing r \<longleftrightarrow> rr_state r = REF_CLOSING"

abbreviation reference :: "'w client_pool \<Rightarrow> nat \<Rightarrow> reference_record option" where
  "reference s \<equiv> map_of (cp_references s)"

definition put_reference :: "nat \<Rightarrow> reference_record \<Rightarrow> 'w client_pool \<Rightarrow> 'w client_pool" where
  "put_reference k r s = s\<lparr>cp_references := AList.update k r (cp_references s)\<rparr>"

definition drop_reference :: "nat \<Rightarrow> 'w client_pool \<Rightarrow> 'w client_pool" where
  "drop_reference k s = s\<lparr>cp_references := AList.delete k (cp_references s)\<rparr>"

section \<open>Sections under the lock\<close>

definition retain :: "nat \<Rightarrow> 'w client_pool \<Rightarrow> nat \<times> 'w client_pool" where
  "retain c s = (cp_next s,
     put_reference (cp_next s) \<lparr>rr_client = c, rr_state = REF_BORROWED, rr_gate = new_gate\<rparr>
       (s\<lparr>cp_next := cp_next s + 1\<rparr>))"

text \<open>The shared client for a fingerprint, if there is one.\<close>

definition borrow_pooled :: "string \<Rightarrow> ('w, (nat \<times> nat) option) pool_op" where
  "borrow_pooled fingerprint s =
     (case cp_pooled s of
        None \<Rightarrow> (Inr None, s)
      | Some (c, f) \<Rightarrow>
          if f \<noteq> fingerprint then (Inl (DaemonServiceError ''codex_executable_changed''), s)
          else (case retain c s of (k, s') \<Rightarrow> (Inr (Some (k, c)), s')))"

definition install_client :: "nat \<Rightarrow> string \<Rightarrow> 'w client_pool \<Rightarrow> nat \<times> 'w client_pool" where
  "install_client c fingerprint s = retain c (s\<lparr>cp_pooled := Some (c, fingerprint)\<rparr>)"

definition commit_reference :: "nat \<Rightarrow> ('w, unit) pool_op" where
  "commit_reference k s =
     (case reference s k of
        None \<Rightarrow> (Inl (RuntimeErr ''client_borrow_already_released''), s)
      | Some r \<Rightarrow>
          if rr_state r = REF_INSTALLED then (Inl (RuntimeErr ''client_borrow_already_committed''), s)
          else (Inr (), put_reference k (r\<lparr>rr_state := REF_INSTALLED\<rparr>) s))"

definition others_active :: "nat set \<Rightarrow> 'w client_pool \<Rightarrow> bool" where
  "others_active ks s \<longleftrightarrow> list_ex (\<lambda>(k, r). k \<notin> ks \<and> \<not> closing r) (cp_references s)"

text \<open>The last active reference takes over the duty to close the client.\<close>

definition hand_over_close :: "nat \<Rightarrow> reference_record \<Rightarrow> 'w client_pool \<Rightarrow> 'w client_pool" where
  "hand_over_close k r s =
     (case cp_pooled s of
        None \<Rightarrow> drop_reference k s
      | Some (c, f) \<Rightarrow>
          (put_reference k \<lparr>rr_client = c, rr_state = REF_CLOSING, rr_gate = rr_gate r\<rparr> s)\<lparr>cp_pooled := None\<rparr>)"

definition release_active :: "nat \<Rightarrow> reference_record \<Rightarrow> 'w client_pool \<Rightarrow> 'w client_pool" where
  "release_active k r s = (if others_active {k} s then drop_reference k s else hand_over_close k r s)"

definition begin_release :: "nat \<Rightarrow> 'w client_pool \<Rightarrow> 'w client_pool" where
  "begin_release k s =
     (case reference s k of None \<Rightarrow> s | Some r \<Rightarrow> if closing r then s else release_active k r s)"

fun drop_references :: "nat list \<Rightarrow> 'w client_pool \<Rightarrow> 'w client_pool" where
  "drop_references [] s = s"
| "drop_references (k # ks) s = drop_references ks (drop_reference k s)"

definition installed_references :: "'w client_pool \<Rightarrow> nat list" where
  "installed_references s = map fst (filter (\<lambda>(k, r). rr_state r = REF_INSTALLED) (cp_references s))"

definition begin_release_installed :: "int \<Rightarrow> ('w, unit) pool_op" where
  "begin_release_installed n s =
     (let installed = installed_references s; selected = take (nat n) installed
      in if n < 0 \<or> n > int (length installed)
         then (Inl (RuntimeErr ''client_install_underflow''), s)
         else if selected \<noteq> [] \<and> \<not> others_active (set selected) s
         then (case reference s (last selected) of
             None \<Rightarrow> (Inl KeyErr, s)
           | Some r \<Rightarrow> (Inr (), hand_over_close (last selected) r (drop_references (butlast selected) s)))
         else (Inr (), drop_references selected s))"

definition close_duties :: "'w client_pool \<Rightarrow> nat list" where
  "close_duties s = map fst (filter (\<lambda>(k, r). closing r) (cp_references s))"

text \<open>\<open>_finish_close\<close>: the two sections, and the gate between them.\<close>

definition forget_client :: "nat \<Rightarrow> 'w client_pool \<Rightarrow> 'w client_pool" where
  "forget_client c s =
     (case cp_pooled s of Some (c', f) \<Rightarrow> if c' = c then s\<lparr>cp_pooled := None\<rparr> else s | None \<Rightarrow> s)"

definition run_gate :: "'w client_ops \<Rightarrow> nat \<Rightarrow> ('w, unit) pool_op" where
  "run_gate K k s =
     (case reference s k of
        None \<Rightarrow> (Inr (), s)
      | Some r \<Rightarrow>
          (case gate_finish (co_close K (rr_client r)) (rr_gate r, cp_world s) of
             (res, (g, w)) \<Rightarrow> (res, (put_reference k (r\<lparr>rr_gate := g\<rparr>) s)\<lparr>cp_world := w\<rparr>)))"

definition finish_close :: "'w client_ops \<Rightarrow> nat \<Rightarrow> ('w, unit) pool_op" where
  "finish_close K k s =
     (case reference s k of
        None \<Rightarrow> (Inr (), s)
      | Some r \<Rightarrow>
          if \<not> closing r then (Inr (), s)
          else sbind (run_gate K k) (\<lambda>_. smodify (drop_reference k)) (forget_client (rr_client r) s))"

fun finish_obligations :: "'w client_ops \<Rightarrow> nat list \<Rightarrow> ('w, unit) pool_op" where
  "finish_obligations K [] s = (Inr (), s)"
| "finish_obligations K (k # ks) s =
     (case finish_close K k s of
        (Inr _, s') \<Rightarrow> finish_obligations K ks s'
      | (Inl e, s') \<Rightarrow> (Inl e, snd (finish_obligations K ks s')))"

section \<open>Operations\<close>

text \<open>\<open>borrow\<close>; the client of a factory that raises \<open>OSError\<close> was never pooled.\<close>

definition abandon_borrow :: "'w client_ops \<Rightarrow> exn \<Rightarrow> ('w, nat \<times> nat) pool_op" where
  "abandon_borrow K e s =
     (case cp_pooled s of
        None \<Rightarrow> (Inl e, s)
      | Some (c, f) \<Rightarrow>
          (case co_close K c (cp_world s) of
             (Inl e', w) \<Rightarrow> (Inl e', s\<lparr>cp_pooled := None, cp_world := w\<rparr>)
           | (Inr _, w) \<Rightarrow> (Inl e, s\<lparr>cp_pooled := None, cp_world := w\<rparr>)))"

definition borrow_client :: "'w client_ops \<Rightarrow> string \<Rightarrow> ('w, nat \<times> nat) pool_op" where
  "borrow_client K fingerprint s =
     (case borrow_pooled fingerprint s of
        (Inl e, s1) \<Rightarrow> (Inl e, s1)
      | (Inr (Some kc), s1) \<Rightarrow> (Inr kc, s1)
      | (Inr None, s1) \<Rightarrow>
          (case co_create K fingerprint (cp_world s1) of
             (Inl e, w) \<Rightarrow>
               if e = OSErr then abandon_borrow K e (s1\<lparr>cp_world := w\<rparr>) else (Inl e, s1\<lparr>cp_world := w\<rparr>)
           | (Inr c, w) \<Rightarrow>
               (case install_client c fingerprint (s1\<lparr>cp_world := w\<rparr>) of (k, s2) \<Rightarrow> (Inr (k, c), s2))))"

definition release_client :: "'w client_ops \<Rightarrow> nat \<Rightarrow> ('w, unit) pool_op" where
  "release_client K k s = finish_close K k (begin_release k s)"

definition release_installed :: "'w client_ops \<Rightarrow> int \<Rightarrow> ('w, unit) pool_op" where
  "release_installed K n =
     sbind (begin_release_installed n) (\<lambda>_ s. finish_obligations K (close_duties s) s)"

definition get_existing :: "'w client_pool \<Rightarrow> nat option" where
  "get_existing s = map_option fst (cp_pooled s)"

definition reference_counts :: "'w client_pool \<Rightarrow> nat \<times> nat \<times> nat" where
  "reference_counts s =
     (let states = map (rr_state \<circ> snd) (cp_references s)
      in (count_list states REF_BORROWED, count_list states REF_INSTALLED, count_list states REF_CLOSING))"

section \<open>Ownership of clients\<close>

text \<open>
  The clients of a world: \<open>issued\<close> ones have been created, \<open>owned\<close> ones have a running process. Creation
  returns a new client, a close that returns leaves no process, one that raises may leave it.
\<close>

locale client_owner =
  fixes K :: "'w client_ops" and issued :: "'w \<Rightarrow> nat set" and owned :: "'w \<Rightarrow> nat set"
  assumes created: "co_create K fp w = (Inr c, w') \<Longrightarrow>
      c \<notin> issued w \<and> issued w' = insert c (issued w) \<and> owned w' \<subseteq> insert c (owned w)"
    and not_created: "co_create K fp w = (Inl e, w') \<Longrightarrow> issued w' = issued w \<and> owned w' \<subseteq> owned w"
    and closed: "co_close K c w = (Inr u, w') \<Longrightarrow> issued w' = issued w \<and> owned w' \<subseteq> owned w - {c}"
    and not_closed: "co_close K c w = (Inl e, w') \<Longrightarrow> issued w' = issued w \<and> owned w' \<subseteq> owned w"

text \<open>
  The invariant of the pool: active references hold the pooled client, a pooled client is held, a
  client that waits for its close is not pooled and waits once, no outcome of a close is left over,
  and every process belongs to the pooled client or to one that waits for its close.
\<close>

definition held_ok :: "(nat \<rightharpoonup> reference_record) \<Rightarrow> nat option \<Rightarrow> nat \<Rightarrow> nat set \<Rightarrow> bool" where
  "held_ok m pooled limit ids \<longleftrightarrow>
     (\<forall>k r. m k = Some r \<longrightarrow> k < limit \<and> rr_client r \<in> ids \<and> cg_error (rr_gate r) = None \<and>
        (if closing r then pooled \<noteq> Some (rr_client r)
         else pooled = Some (rr_client r) \<and> \<not> cg_succeeded (rr_gate r)))"

definition waits_once :: "(nat \<rightharpoonup> reference_record) \<Rightarrow> bool" where
  "waits_once m \<longleftrightarrow>
     (\<forall>k r k' r'. m k = Some r \<longrightarrow> m k' = Some r' \<longrightarrow> closing r \<longrightarrow> closing r' \<longrightarrow>
        rr_client r = rr_client r' \<longrightarrow> k = k')"

definition some_active :: "(nat \<rightharpoonup> reference_record) \<Rightarrow> bool" where
  "some_active m \<longleftrightarrow> (\<exists>k r. m k = Some r \<and> \<not> closing r)"

definition waiting :: "(nat \<rightharpoonup> reference_record) \<Rightarrow> nat set" where
  "waiting m = {c. \<exists>k r. m k = Some r \<and> closing r \<and> \<not> cg_succeeded (rr_gate r) \<and> rr_client r = c}"

definition view_ok ::
  "(nat \<rightharpoonup> reference_record) \<Rightarrow> nat option \<Rightarrow> nat \<Rightarrow> nat set \<Rightarrow> nat set \<Rightarrow> bool" where
  "view_ok m pooled limit ids procs \<longleftrightarrow> held_ok m pooled limit ids \<and> waits_once m \<and>
     (pooled \<noteq> None \<longrightarrow> some_active m) \<and> procs \<subseteq> set_option pooled \<union> waiting m"

lemmas view_defs = view_ok_def held_ok_def waits_once_def some_active_def waiting_def

lemma waitingI: "m k = Some r \<Longrightarrow> closing r \<Longrightarrow> \<not> cg_succeeded (rr_gate r) \<Longrightarrow> rr_client r \<in> waiting m"
  unfolding waiting_def by blast

lemma waitingE:
  assumes "c \<in> waiting m"
  obtains k r where "m k = Some r" and "closing r" and "\<not> cg_succeeded (rr_gate r)" and "rr_client r = c"
  using assms unfolding waiting_def by blast

lemma waiting_mono:
  assumes "\<And>k r. m k = Some r \<Longrightarrow> closing r \<Longrightarrow> \<not> cg_succeeded (rr_gate r) \<Longrightarrow>
      \<exists>k' r'. m' k' = Some r' \<and> closing r' \<and> \<not> cg_succeeded (rr_gate r') \<and> rr_client r' = rr_client r"
  shows "waiting m \<subseteq> waiting m'"
  using assms by (metis waitingE waitingI subsetI)

lemma waiting_new: "m k = None \<Longrightarrow> waiting m \<subseteq> waiting (m(k \<mapsto> r))"
  by (rule waiting_mono) (metis fun_upd_other option.distinct(1))

lemma view_ref:
  assumes "view_ok m pooled limit ids procs" and "m k = Some r"
  shows "k < limit" and "rr_client r \<in> ids" and "cg_error (rr_gate r) = None"
    and "closing r \<Longrightarrow> pooled \<noteq> Some (rr_client r)"
    and "\<not> closing r \<Longrightarrow> pooled = Some (rr_client r) \<and> \<not> cg_succeeded (rr_gate r)"
  using assms unfolding view_ok_def held_ok_def by metis+

lemma view_once:
  assumes "view_ok m pooled limit ids procs" and "m k = Some r" and "m k' = Some r'"
    and "closing r" and "closing r'" and "rr_client r = rr_client r'"
  shows "k = k'"
  using assms unfolding view_ok_def waits_once_def by blast

lemma view_procs: "view_ok m pooled limit ids procs \<Longrightarrow> procs' \<subseteq> procs \<Longrightarrow> view_ok m pooled limit ids procs'"
  by (auto simp: view_ok_def)

lemma view_retain:
  assumes "view_ok m pooled limit ids procs" and "pooled = Some c"
  shows "view_ok (m(limit \<mapsto> \<lparr>rr_client = c, rr_state = REF_BORROWED, rr_gate = new_gate\<rparr>)) pooled (limit + 1) ids procs"
proof -
  let ?r = "\<lparr>rr_client = c, rr_state = REF_BORROWED, rr_gate = new_gate\<rparr>"
  have r: "\<not> closing ?r" by (simp add: closing_def)
  have new: "m limit = None"
    using assms(1) by (cases "m limit") (auto simp: view_ok_def held_ok_def)
  obtain k0 r0 where k0: "m k0 = Some r0" "\<not> closing r0"
    using assms by (auto simp: view_ok_def some_active_def)
  have "rr_client r0 = c" "c \<in> ids"
    using view_ref(2,5) [OF assms(1) k0(1)] assms(2) k0(2) by auto
  then have "held_ok (m(limit \<mapsto> ?r)) pooled (limit + 1) ids"
    using assms r by (auto simp: view_ok_def held_ok_def new_gate_def less_Suc_eq split: if_splits)
  moreover have "waits_once (m(limit \<mapsto> ?r))"
    using assms(1) r by (auto simp: view_ok_def waits_once_def split: if_splits)
  moreover have "waiting m \<subseteq> waiting (m(limit \<mapsto> ?r))"
    using new by (rule waiting_new)
  moreover have "some_active (m(limit \<mapsto> ?r))" using r by (auto simp: some_active_def)
  ultimately show ?thesis using assms(1) by (auto simp: view_ok_def)
qed

lemma view_install:
  assumes "view_ok m None limit ids procs" and "c \<notin> ids" and "procs' \<subseteq> insert c procs"
  shows "view_ok (m(limit \<mapsto> \<lparr>rr_client = c, rr_state = REF_BORROWED, rr_gate = new_gate\<rparr>)) (Some c) (limit + 1)
    (insert c ids) procs'"
proof -
  let ?r = "\<lparr>rr_client = c, rr_state = REF_BORROWED, rr_gate = new_gate\<rparr>"
  have r: "\<not> closing ?r" by (simp add: closing_def)
  have m: "closing r \<and> k < limit \<and> rr_client r \<in> ids \<and> cg_error (rr_gate r) = None" if "m k = Some r" for k r
    using view_ref [OF assms(1) that] by auto
  have new: "m limit = None" using m by (cases "m limit") auto
  have "held_ok (m(limit \<mapsto> ?r)) (Some c) (limit + 1) (insert c ids)"
    using m r assms(2) by (fastforce simp: held_ok_def new_gate_def split: if_splits)
  moreover have "waits_once (m(limit \<mapsto> ?r))"
    using assms(1) r by (auto simp: view_ok_def waits_once_def split: if_splits)
  moreover have "waiting m \<subseteq> waiting (m(limit \<mapsto> ?r))" using new by (rule waiting_new)
  moreover have "some_active (m(limit \<mapsto> ?r))" using r by (auto simp: some_active_def)
  ultimately show ?thesis using assms(1,3) by (auto simp: view_ok_def)
qed

text \<open>A change that keeps the client of a reference, its kind and its close.\<close>

lemma view_same:
  assumes "view_ok m pooled limit ids procs" and "m k = Some r" and "rr_client r' = rr_client r"
    and "closing r' = closing r" and "rr_gate r' = rr_gate r"
  shows "view_ok (m(k \<mapsto> r')) pooled limit ids procs"
proof -
  have "held_ok (m(k \<mapsto> r')) pooled limit ids"
    using assms by (auto simp: view_ok_def held_ok_def)
  moreover have "waits_once (m(k \<mapsto> r'))"
    using assms unfolding view_ok_def waits_once_def by (metis fun_upd_other fun_upd_same option.inject)
  moreover have "waiting m \<subseteq> waiting (m(k \<mapsto> r'))"
    by (rule waiting_mono) (metis assms(2-5) fun_upd_other fun_upd_same option.inject)
  moreover have "some_active m \<longrightarrow> some_active (m(k \<mapsto> r'))"
    using assms(2-) unfolding some_active_def by (metis fun_upd_other fun_upd_same option.inject)
  ultimately show ?thesis using assms(1) by (auto simp: view_ok_def)
qed

lemma view_drop:
  assumes "view_ok m pooled limit ids procs" and "some_active (m |` (- ks)) \<or> pooled = None"
    and "\<And>k r. k \<in> ks \<Longrightarrow> m k = Some r \<Longrightarrow> closing r \<Longrightarrow> cg_succeeded (rr_gate r)"
  shows "view_ok (m |` (- ks)) pooled limit ids procs"
proof -
  have sub: "m k = Some r \<and> k \<notin> ks" if "(m |` (- ks)) k = Some r" for k r
    using that by (auto simp: restrict_map_def split: if_splits)
  have "held_ok (m |` (- ks)) pooled limit ids"
    using assms(1) sub unfolding view_ok_def held_ok_def by blast
  moreover have "waits_once (m |` (- ks))"
    using assms(1) sub unfolding view_ok_def waits_once_def by blast
  moreover have "waiting m \<subseteq> waiting (m |` (- ks))"
    by (rule waiting_mono) (metis assms(3) ComplI restrict_in)
  ultimately show ?thesis using assms(1,2) by (auto simp: view_ok_def)
qed

text \<open>The last active references are released: one keeps the duty to close the pooled client.\<close>

lemma view_hand_over:
  assumes "view_ok m (Some c) limit ids procs" and "m k = Some r" and "\<not> closing r"
    and "\<And>k' r'. m k' = Some r' \<Longrightarrow> \<not> closing r' \<Longrightarrow> k' \<in> ks" and "k \<in> ks"
    and "\<And>k' r'. m k' = Some r' \<Longrightarrow> k' \<in> ks \<Longrightarrow> \<not> closing r'"
  shows "view_ok ((m |` (- ks))(k \<mapsto> \<lparr>rr_client = c, rr_state = REF_CLOSING, rr_gate = rr_gate r\<rparr>)) None limit ids procs"
proof -
  let ?r = "\<lparr>rr_client = c, rr_state = REF_CLOSING, rr_gate = rr_gate r\<rparr>"
  let ?m = "(m |` (- ks))(k \<mapsto> ?r)"
  have r: "closing ?r" "rr_client r = c" "cg_error (rr_gate r) = None" "\<not> cg_succeeded (rr_gate r)" "k < limit" "c \<in> ids"
    using view_ref [OF assms(1,2)] assms(3) by (auto simp: closing_def)
  have sub: "k' = k \<and> r' = ?r \<or> m k' = Some r' \<and> k' \<notin> ks \<and> closing r'" if "?m k' = Some r'" for k' r'
    using that assms(4) by (auto simp: restrict_map_def split: if_splits)
  have other: "rr_client r' \<noteq> c" if "m k' = Some r'" "closing r'" for k' r'
    using view_ref(4) [OF assms(1) that(1)] that(2) by auto
  have held: "k' < limit \<and> rr_client r' \<in> ids \<and> cg_error (rr_gate r') = None" if "m k' = Some r'" for k' r'
    using view_ref [OF assms(1) that] by simp
  have "held_ok ?m None limit ids"
    unfolding held_ok_def using sub r held by (metis (no_types, lifting) option.distinct(1) reference_record.select_convs(1,3))
  moreover have "waits_once ?m"
    unfolding waits_once_def
  proof (intro allI impI)
    fix k1 r1 k2 r2
    assume "?m k1 = Some r1" "?m k2 = Some r2" "rr_client r1 = rr_client r2"
    moreover have "k1 = k2" if "m k1 = Some r1" "m k2 = Some r2" "closing r1" "closing r2" "rr_client r1 = rr_client r2"
      using view_once [OF assms(1) that(1,2) that(3-5)] .
    ultimately show "k1 = k2" using sub [of k1 r1] sub [of k2 r2] other by fastforce
  qed
  moreover have "insert c (waiting m) \<subseteq> waiting ?m"
  proof
    fix d assume "d \<in> insert c (waiting m)"
    then show "d \<in> waiting ?m"
    proof
      assume "d = c"
      then show ?thesis using r waitingI [of ?m k ?r] by simp
    next
      assume "d \<in> waiting m"
      then obtain k' r' where k': "m k' = Some r'" "closing r'" "\<not> cg_succeeded (rr_gate r')" "rr_client r' = d"
        by (rule waitingE)
      then have "k' \<notin> ks" using assms(6) by blast
      then have "?m k' = Some r'" using k'(1) assms(5) by (auto simp: restrict_map_def)
      with k' show ?thesis by (metis waitingI)
    qed
  qed
  ultimately show ?thesis using assms(1) by (auto simp: view_ok_def)
qed

lemma view_gate:
  assumes "view_ok m pooled limit ids procs" and "m k = Some r" and "closing r" and "cg_error g = None"
    and "procs' \<subseteq> procs" and "if cg_succeeded g \<and> \<not> cg_succeeded (rr_gate r) then rr_client r \<notin> procs'
      else cg_succeeded g = cg_succeeded (rr_gate r)"
  shows "view_ok (m(k \<mapsto> r\<lparr>rr_gate := g\<rparr>)) pooled limit ids procs'"
proof -
  let ?m = "m(k \<mapsto> r\<lparr>rr_gate := g\<rparr>)"
  have c: "closing (r\<lparr>rr_gate := g\<rparr>)" using assms(3) by (simp add: closing_def)
  have "held_ok ?m pooled limit ids"
    using assms(1-4) c by (auto simp: view_ok_def held_ok_def)
  moreover have "waits_once ?m"
    using assms(1-3) c unfolding view_ok_def waits_once_def
    by (metis (no_types, lifting) fun_upd_other fun_upd_same option.inject reference_record.surjective
        reference_record.update_convs(3) reference_record.select_convs(1))
  moreover have "waiting m - {rr_client r} \<subseteq> waiting ?m"
  proof
    fix d assume "d \<in> waiting m - {rr_client r}"
    then obtain k' r' where "m k' = Some r'" "closing r'" "\<not> cg_succeeded (rr_gate r')" "rr_client r' = d" "d \<noteq> rr_client r"
      by (auto elim: waitingE)
    moreover from this have "k' \<noteq> k" using assms(2) by auto
    ultimately show "d \<in> waiting ?m" using waitingI [of ?m k' r'] by simp
  qed
  moreover have "rr_client r \<in> waiting ?m" if "rr_client r \<in> procs'"
  proof -
    have "rr_client r \<in> waiting m"
      using assms(1,5) that view_ref(4) [OF assms(1-3)] unfolding view_ok_def by auto
    then obtain k' r' where k': "m k' = Some r'" "closing r'" "\<not> cg_succeeded (rr_gate r')" "rr_client r' = rr_client r"
      by (rule waitingE)
    then have "k' = k" using view_once [OF assms(1) k'(1) assms(2) k'(2) assms(3) k'(4)] by simp
    then have "\<not> cg_succeeded g" using k'(1,3) assms(2,6) that by (auto split: if_splits)
    then show ?thesis using c waitingI [of ?m k "r\<lparr>rr_gate := g\<rparr>"] by simp
  qed
  moreover have "some_active m \<longrightarrow> some_active ?m"
    using assms(2,3) unfolding some_active_def by (metis fun_upd_other option.inject)
  ultimately show ?thesis using assms(1,5) unfolding view_ok_def by blast
qed

section \<open>Steps of the threads\<close>

text \<open>
  What the threads of the daemon do to the pool between two sections, in any order. A client is
  created and pooled in one step, since the reservation keeps every other creation out.
\<close>

inductive pool_step ::
  "'w client_ops \<Rightarrow> ('w \<Rightarrow> nat set) \<Rightarrow> ('w \<Rightarrow> nat set) \<Rightarrow> 'w client_pool \<Rightarrow> 'w client_pool \<Rightarrow> bool"
  for K issued owned where
  borrowed: "borrow_client K fp s = (res, s') \<Longrightarrow> pool_step K issued owned s s'"
| committed: "reference s k = Some r \<Longrightarrow> \<not> closing r \<Longrightarrow> commit_reference k s = (res, s') \<Longrightarrow>
    pool_step K issued owned s s'"
| released: "pool_step K issued owned s (begin_release k s)"
| released_installed: "begin_release_installed n s = (res, s') \<Longrightarrow> pool_step K issued owned s s'"
| closing: "reference s k = Some r \<Longrightarrow> closing r \<Longrightarrow>
    run_gate K k (forget_client (rr_client r) s) = (res, s') \<Longrightarrow> pool_step K issued owned s s'"
| closed: "reference s k = Some r \<Longrightarrow> closing r \<Longrightarrow> cg_succeeded (rr_gate r) \<Longrightarrow>
    pool_step K issued owned s (drop_reference k s)"
| used: "reference s k = Some r \<Longrightarrow> \<not> closing r \<Longrightarrow> issued w = issued (cp_world s) \<Longrightarrow>
    owned w \<subseteq> insert (rr_client r) (owned (cp_world s)) \<Longrightarrow> pool_step K issued owned s (s\<lparr>cp_world := w\<rparr>)"

inductive pool_reachable ::
  "'w client_ops \<Rightarrow> ('w \<Rightarrow> nat set) \<Rightarrow> ('w \<Rightarrow> nat set) \<Rightarrow> 'w client_pool \<Rightarrow> bool"
  for K issued owned where
  initial: "owned w = {} \<Longrightarrow> pool_reachable K issued owned (new_pool w)"
| step: "pool_reachable K issued owned s \<Longrightarrow> pool_step K issued owned s s' \<Longrightarrow>
    pool_reachable K issued owned s'"

text \<open>A borrower starts the process of its client.\<close>

lemma view_used:
  assumes "view_ok m pooled limit ids procs" and "m k = Some r" and "\<not> closing r"
    and "procs' \<subseteq> insert (rr_client r) procs"
  shows "view_ok m pooled limit ids procs'"
  using view_ref(5) [OF assms(1-3)] assms(1,4) by (auto simp: view_ok_def)

definition pooled_client :: "'w client_pool \<Rightarrow> nat option" where
  "pooled_client s = map_option fst (cp_pooled s)"

lemma pooled_client_simps [simp]:
  "pooled_client (put_reference k r s) = pooled_client s"
  "pooled_client (drop_reference k s) = pooled_client s"
  "pooled_client (s\<lparr>cp_pooled := p\<rparr>) = map_option fst p"
  "pooled_client (s\<lparr>cp_world := w\<rparr>) = pooled_client s"
  "pooled_client (s\<lparr>cp_next := n\<rparr>) = pooled_client s"
  by (simp_all add: pooled_client_def put_reference_def drop_reference_def)

lemma reference_simps [simp]:
  "reference (put_reference k r s) = (reference s)(k \<mapsto> r)"
  "reference (drop_reference k s) = (reference s)(k := None)"
  "cp_pooled (put_reference k r s) = cp_pooled s" "cp_pooled (drop_reference k s) = cp_pooled s"
  "cp_next (put_reference k r s) = cp_next s" "cp_next (drop_reference k s) = cp_next s"
  "cp_world (put_reference k r s) = cp_world s" "cp_world (drop_reference k s) = cp_world s"
  "ddistinct (cp_references s) \<Longrightarrow> ddistinct (cp_references (put_reference k r s))"
  "ddistinct (cp_references s) \<Longrightarrow> ddistinct (cp_references (drop_reference k s))"
  by (simp_all add: put_reference_def drop_reference_def)

lemma drop_references_simps [simp]:
  "reference (drop_references ks s) = reference s |` (- set ks)"
  "pooled_client (drop_references ks s) = pooled_client s" "cp_pooled (drop_references ks s) = cp_pooled s"
  "cp_next (drop_references ks s) = cp_next s" "cp_world (drop_references ks s) = cp_world s"
  "ddistinct (cp_references s) \<Longrightarrow> ddistinct (cp_references (drop_references ks s))"
  by (induction ks arbitrary: s) (auto simp: restrict_map_def fun_eq_iff)

lemma others_active_iff:
  "ddistinct (cp_references s) \<Longrightarrow>
   others_active ks s \<longleftrightarrow> (\<exists>k r. reference s k = Some r \<and> k \<notin> ks \<and> \<not> closing r)"
  unfolding others_active_def list_ex_iff
  by (auto simp: map_of_distinct_SomeI dest: map_of_SomeD intro: map_of_distinct_SomeI)

context client_owner
begin

definition pool_ok :: "'w client_pool \<Rightarrow> bool" where
  "pool_ok s \<longleftrightarrow> ddistinct (cp_references s) \<and>
     view_ok (reference s) (pooled_client s) (cp_next s) (issued (cp_world s)) (owned (cp_world s))"

lemma pool_ok_new: "owned w = {} \<Longrightarrow> pool_ok (new_pool w)"
  by (simp add: pool_ok_def new_pool_def pooled_client_def view_defs)

lemma pool_ok_world:
  "pool_ok s \<Longrightarrow> issued w = issued (cp_world s) \<Longrightarrow> owned w \<subseteq> owned (cp_world s) \<Longrightarrow>
   pool_ok (s\<lparr>cp_world := w\<rparr>)"
  using view_procs by (auto simp: pool_ok_def)

lemma pool_ok_retain: "pool_ok s \<Longrightarrow> pooled_client s = Some c \<Longrightarrow> pool_ok (snd (retain c s))"
  using view_retain [of "reference s" "pooled_client s" "cp_next s"]
  by (simp add: pool_ok_def retain_def)

lemma pool_ok_install:
  assumes "pool_ok s" and "cp_pooled s = None" and "co_create K fp (cp_world s) = (Inr c, w)"
  shows "pool_ok (snd (install_client c fp (s\<lparr>cp_world := w\<rparr>)))"
  using assms created [OF assms(3)]
    view_install [of "reference s" "cp_next s" "issued (cp_world s)" "owned (cp_world s)" c "owned w"]
  by (simp add: pool_ok_def install_client_def retain_def pooled_client_def)

lemma pool_ok_borrow:
  assumes "pool_ok s"
  shows "pool_ok (snd (borrow_client K fp s))"
proof (cases "cp_pooled s")
  case None
  show ?thesis
  proof (cases "co_create K fp (cp_world s)")
    case (Pair r w)
    show ?thesis
    proof (cases r)
      case (Inl e)
      then show ?thesis
        using Pair None assms not_created [of fp "cp_world s" e w]
        by (simp add: borrow_client_def borrow_pooled_def abandon_borrow_def pool_ok_world)
    next
      case (Inr c)
      then show ?thesis
        using Pair None pool_ok_install [OF assms None, of fp c w]
        by (cases "install_client c fp (s\<lparr>cp_world := w\<rparr>)") (simp add: borrow_client_def borrow_pooled_def)
    qed
  qed
next
  case (Some cf)
  then show ?thesis
    using assms pool_ok_retain [OF assms, of "fst cf"]
    by (cases cf) (auto simp: borrow_client_def borrow_pooled_def pooled_client_def split: prod.splits)
qed

lemma pool_ok_commit:
  assumes "pool_ok s" and "reference s k = Some r" and "\<not> closing r"
  shows "pool_ok (snd (commit_reference k s))"
  using assms view_same [of "reference s" _ _ _ _ k r "r\<lparr>rr_state := REF_INSTALLED\<rparr>"]
  by (auto simp: pool_ok_def commit_reference_def closing_def)

lemma pool_ok_drop:
  assumes "pool_ok s" and "some_active (reference s |` (- set ks)) \<or> cp_pooled s = None"
    and "\<And>k r. k \<in> set ks \<Longrightarrow> reference s k = Some r \<Longrightarrow> closing r \<Longrightarrow> cg_succeeded (rr_gate r)"
  shows "pool_ok (drop_references ks s)"
  using assms view_drop [of "reference s" "pooled_client s" "cp_next s" _ _ "set ks"]
  by (auto simp: pool_ok_def pooled_client_def)

lemma pool_ok_hand_over:
  assumes ok: "pool_ok s" and r: "reference s k = Some r" "\<not> closing r" and "k \<in> ks"
    and all: "\<And>k' r'. reference s k' = Some r' \<Longrightarrow> \<not> closing r' \<Longrightarrow> k' \<in> ks"
    and active: "\<And>k' r'. reference s k' = Some r' \<Longrightarrow> k' \<in> ks \<Longrightarrow> \<not> closing r'"
    and s': "reference s' = reference s |` (- (ks - {k}))" "cp_pooled s' = cp_pooled s" "cp_next s' = cp_next s"
      "cp_world s' = cp_world s" "ddistinct (cp_references s')"
  shows "pool_ok (hand_over_close k r s')"
proof -
  have v: "view_ok (reference s) (pooled_client s) (cp_next s) (issued (cp_world s)) (owned (cp_world s))"
    using ok by (simp add: pool_ok_def)
  obtain c f where c: "cp_pooled s = Some (c, f)"
    using view_ref(5) [OF v r] by (auto simp: pooled_client_def)
  have m: "(reference s')(k \<mapsto> x) = (reference s |` (- ks))(k \<mapsto> x)" for x
    unfolding s'(1) using \<open>k \<in> ks\<close> by (auto simp: restrict_map_def fun_eq_iff)
  have "view_ok ((reference s |` (- ks))(k \<mapsto> \<lparr>rr_client = c, rr_state = REF_CLOSING, rr_gate = rr_gate r\<rparr>))
      None (cp_next s) (issued (cp_world s)) (owned (cp_world s))"
  proof (rule view_hand_over)
    show "view_ok (reference s) (Some c) (cp_next s) (issued (cp_world s)) (owned (cp_world s))"
      using v c by (simp add: pooled_client_def)
  qed (use r all active \<open>k \<in> ks\<close> in auto)
  then show ?thesis
    using c s'(2-5) by (simp add: pool_ok_def hand_over_close_def pooled_client_def flip: m)
qed

lemma pool_ok_begin_release: "pool_ok s \<Longrightarrow> pool_ok (begin_release k s)"
proof (cases "reference s k")
  case (Some r)
  assume ok: "pool_ok s"
  then have d: "ddistinct (cp_references s)" by (simp add: pool_ok_def)
  show ?thesis
  proof (cases "closing r \<or> \<not> others_active {k} s")
    case True
    moreover have "pool_ok (hand_over_close k r s)" if "\<not> closing r" "\<not> others_active {k} s"
      by (rule pool_ok_hand_over [OF ok Some that(1), of "{k}"])
        (use that d Some others_active_iff [OF d, of "{k}"] in auto)
    ultimately show ?thesis using ok Some by (auto simp: begin_release_def release_active_def)
  next
    case False
    then have "pool_ok (drop_references [k] s)"
      using others_active_iff [OF d, of "{k}"] Some ok
      by (intro pool_ok_drop) (auto simp: some_active_def restrict_map_def)
    with False Some show ?thesis by (simp add: begin_release_def release_active_def)
  qed
qed (simp add: begin_release_def)

lemma installed_active:
  "ddistinct (cp_references s) \<Longrightarrow> k \<in> set (installed_references s) \<Longrightarrow>
   \<exists>r. reference s k = Some r \<and> \<not> closing r"
  by (auto simp: installed_references_def closing_def map_of_distinct_SomeI)

lemma pool_ok_begin_release_installed: "pool_ok s \<Longrightarrow> pool_ok (snd (begin_release_installed n s))"
proof -
  assume ok: "pool_ok s"
  then have d: "ddistinct (cp_references s)" by (simp add: pool_ok_def)
  define ks where "ks = take (nat n) (installed_references s)"
  have ks: "\<exists>r. reference s k = Some r \<and> \<not> closing r" if "k \<in> set ks" for k
    using installed_active [OF d] that set_take_subset unfolding ks_def by fast
  have dis: "distinct ks"
    using d by (auto simp: ks_def installed_references_def ddistinct_def distinct_map_filter intro!: distinct_take)
  show ?thesis
  proof (cases "ks \<noteq> [] \<and> \<not> others_active (set ks) s")
    case True
    then have last: "last ks \<in> set ks" by simp
    then obtain r where r: "reference s (last ks) = Some r" "\<not> closing r" using ks by blast
    have b: "set (butlast ks) = set ks - {last ks}"
      using True dis by (cases ks rule: rev_cases) auto
    have "pool_ok (hand_over_close (last ks) r (drop_references (butlast ks) s))"
      by (rule pool_ok_hand_over [OF ok r last])
        (use True others_active_iff [OF d] ks b d in \<open>fastforce+\<close>)
    with ok True r show ?thesis
      by (auto simp: begin_release_installed_def Let_def simp flip: ks_def)
  next
    case False
    have "some_active (reference s |` (- set ks)) \<or> cp_pooled s = None \<or> ks = []"
      using False others_active_iff [OF d, of "set ks"] by (auto simp: some_active_def restrict_map_def)
    then have "pool_ok (drop_references ks s)"
      using ok ks by (cases "ks = []") (auto intro!: pool_ok_drop dest: ks)
    with False ok show ?thesis
      by (auto simp: begin_release_installed_def Let_def simp flip: ks_def)
  qed
qed

lemma gate_result:
  assumes "gate_finish (co_close K c) (g, w) = (res, (g', w'))" and "cg_error g = None"
  shows "cg_error g' = None \<and> issued w' = issued w \<and> owned w' \<subseteq> owned w \<and>
    (if cg_succeeded g' \<and> \<not> cg_succeeded g then c \<notin> owned w' else cg_succeeded g' = cg_succeeded g)"
proof (cases "co_close K c w")
  case (Pair r w1)
  then show ?thesis
    using assms closed [of c w _ w1] not_closed [of c w _ w1]
    by (cases r) (auto simp: gate_finish_def close_attempt_def split: if_splits)
qed

lemma forget_closing:
  assumes "pool_ok s" and "reference s k = Some r" and "closing r"
  shows "forget_client (rr_client r) s = s"
  using assms view_ref(4) [of "reference s" "pooled_client s" _ _ _ k r]
  by (auto simp: pool_ok_def forget_client_def pooled_client_def split: option.split)

lemma pool_ok_gate:
  assumes ok: "pool_ok s" and r: "reference s k = Some r" "closing r"
  shows "pool_ok (snd (run_gate K k s))"
proof -
  have v: "view_ok (reference s) (pooled_client s) (cp_next s) (issued (cp_world s)) (owned (cp_world s))"
    using ok by (simp add: pool_ok_def)
  obtain res g w where g: "gate_finish (co_close K (rr_client r)) (rr_gate r, cp_world s) = (res, (g, w))"
    by (metis prod_cases3)
  note gate_result [OF g view_ref(3) [OF v r(1)]]
  with view_gate [OF v r, of g "owned w"] show ?thesis
    using ok r g by (simp add: pool_ok_def run_gate_def)
qed

lemma pool_ok_dropped:
  "pool_ok s \<Longrightarrow> reference s k = Some r \<Longrightarrow> closing r \<Longrightarrow> cg_succeeded (rr_gate r) \<Longrightarrow>
   pool_ok (drop_reference k s)"
proof -
  assume a: "pool_ok s" "reference s k = Some r" "closing r" "cg_succeeded (rr_gate r)"
  then have "some_active (reference s |` (- set [k])) \<or> cp_pooled s = None"
    by (auto simp: pool_ok_def view_ok_def pooled_client_def some_active_def restrict_map_def)
  with a have "pool_ok (drop_references [k] s)" by (intro pool_ok_drop) auto
  then show ?thesis by simp
qed

lemma pool_ok_step: "pool_step K issued owned s s' \<Longrightarrow> pool_ok s \<Longrightarrow> pool_ok s'"
proof (induction rule: pool_step.cases)
  case (borrowed fp s res s')
  then show ?case using pool_ok_borrow [of s fp] by simp
next
  case (committed s k r res s')
  then show ?case using pool_ok_commit [of s k r] by simp
next
  case (released_installed n s res s')
  then show ?case using pool_ok_begin_release_installed [of s n] by simp
next
  case (closing s k r res s')
  then show ?case using pool_ok_gate [of s k r] by (simp add: forget_closing)
next
  case (used s k r w)
  then show ?case by (simp add: pool_ok_def) (blast intro: view_used)
qed (simp_all add: pool_ok_begin_release pool_ok_dropped)

lemma pool_ok_reachable: "pool_reachable K issued owned s \<Longrightarrow> pool_ok s"
  by (induction rule: pool_reachable.induct) (auto intro: pool_ok_new pool_ok_step)

end

section \<open>The resident clients\<close>

text \<open>
  The clients that \<open>resident_client\<close> of \<open>daemon_factory.py\<close> has created, the children that run, and
  the clients whose pipe breaks when it is closed: the client then has forgotten its child already.
\<close>

record resident_world =
  rw_clients :: "app_client list"
  rw_children :: "nat set"
  rw_broken :: "nat set"

definition resident_clients :: "(nat \<Rightarrow> real \<times> arrival list) \<Rightarrow> resident_world client_ops" where
  "resident_clients plan =
     \<lparr>co_create = (\<lambda>fingerprint w.
        let n = length (rw_clients w); (now, future) = plan n
        in (Inr n, w\<lparr>rw_clients := rw_clients w @ [new_client now future]\<rparr>)),
      co_close = (\<lambda>c w.
        if c \<ge> length (rw_clients w) \<or> rs_process (rw_clients w ! c) = None then (Inr (), w)
        else
          let w' = w\<lparr>rw_clients := (rw_clients w)[c := close_client (rw_clients w ! c)]\<rparr>
          in if c \<in> rw_broken w then (Inl OSErr, w')
             else (Inr (), w'\<lparr>rw_children := rw_children w - {c}\<rparr>))\<rparr>"

definition created_clients :: "resident_world \<Rightarrow> nat set" where
  "created_clients w = {..<length (rw_clients w)}"

definition held_processes :: "resident_world \<Rightarrow> nat set" where
  "held_processes w = {c. c < length (rw_clients w) \<and> rs_process (rw_clients w ! c) \<noteq> None}"

lemma closed_process: "rs_process (close_client c) = None"
  by (simp add: close_client_def)

interpretation residents: client_owner "resident_clients plan" created_clients held_processes
proof
  fix fp w c w'
  assume "co_create (resident_clients plan) fp w = (Inr c, w')"
  then show "c \<notin> created_clients w \<and> created_clients w' = insert c (created_clients w) \<and>
      held_processes w' \<subseteq> insert c (held_processes w)"
    by (auto simp: resident_clients_def created_clients_def held_processes_def Let_def nth_append
        split: prod.splits if_splits)
qed (auto simp: resident_clients_def created_clients_def held_processes_def Let_def closed_process nth_list_update
    split: prod.splits if_splits)

abbreviation resident_pool :: "(nat \<Rightarrow> real \<times> arrival list) \<Rightarrow> resident_world client_pool \<Rightarrow> bool" where
  "resident_pool plan \<equiv> pool_reachable (resident_clients plan) created_clients held_processes"

lemma resident_view:
  "resident_pool plan s \<Longrightarrow> ddistinct (cp_references s) \<and> view_ok (reference s) (pooled_client s) (cp_next s)
     (created_clients (cp_world s)) (held_processes (cp_world s))"
  using residents.pool_ok_reachable by (simp add: residents.pool_ok_def)

section \<open>Properties\<close>


text \<open>A client that is borrowed, started and committed.\<close>

definition ex_plan :: "nat \<Rightarrow> real \<times> arrival list" where
  "ex_plan n = (0, [])"

definition ex_residents :: resident_world where
  "ex_residents = \<lparr>rw_clients = [], rw_children = {}, rw_broken = {}\<rparr>"

definition ex_started :: "nat set \<Rightarrow> resident_world" where
  "ex_started broken = \<lparr>rw_clients = [(new_client 0 [])\<lparr>rs_process := Some True\<rparr>], rw_children = {0}, rw_broken = broken\<rparr>"

definition ex_shared :: "reference_state \<Rightarrow> nat set \<Rightarrow> resident_world client_pool" where
  "ex_shared state broken = \<lparr>cp_pooled = Some (0, ''f''),
     cp_references = [(0, \<lparr>rr_client = 0, rr_state = state, rr_gate = new_gate\<rparr>)], cp_next = 1,
     cp_world = ex_started broken\<rparr>"

lemma ex_shared_reachable: "resident_pool ex_plan (ex_shared REF_INSTALLED broken)"
proof -
  let ?w = "\<lparr>rw_clients = [new_client 0 []], rw_children = {}, rw_broken = {}\<rparr>"
  let ?s = "(ex_shared REF_BORROWED {})\<lparr>cp_world := ?w\<rparr>"
  have "resident_pool ex_plan (new_pool ex_residents)"
    by (rule pool_reachable.initial) (simp add: held_processes_def ex_residents_def)
  moreover have "borrow_client (resident_clients ex_plan) ''f'' (new_pool ex_residents) = (Inr (0, 0), ?s)"
    by (simp add: borrow_client_def borrow_pooled_def new_pool_def resident_clients_def ex_residents_def
        ex_plan_def install_client_def retain_def put_reference_def ex_shared_def)
  ultimately have "resident_pool ex_plan ?s"
    by (blast intro: pool_reachable.step pool_step.borrowed)
  moreover have "pool_step (resident_clients ex_plan) created_clients held_processes ?s
      (?s\<lparr>cp_world := ex_started broken\<rparr>)"
    by (rule pool_step.used [of _ 0 "\<lparr>rr_client = 0, rr_state = REF_BORROWED, rr_gate = new_gate\<rparr>"])
      (auto simp: ex_shared_def closing_def created_clients_def held_processes_def ex_started_def)
  moreover have "?s\<lparr>cp_world := ex_started broken\<rparr> = ex_shared REF_BORROWED broken" by (simp add: ex_shared_def)
  ultimately have "resident_pool ex_plan (ex_shared REF_BORROWED broken)"
    by (metis pool_reachable.step)
  moreover have "commit_reference 0 (ex_shared REF_BORROWED broken) = (Inr (), ex_shared REF_INSTALLED broken)"
    by (simp add: commit_reference_def ex_shared_def put_reference_def)
  moreover have "reference (ex_shared REF_BORROWED broken) 0 =
      Some \<lparr>rr_client = 0, rr_state = REF_BORROWED, rr_gate = new_gate\<rparr>"
    by (simp add: ex_shared_def)
  ultimately have "pool_step (resident_clients ex_plan) created_clients held_processes
      (ex_shared REF_BORROWED broken) (ex_shared REF_INSTALLED broken)"
    by (intro pool_step.committed [of _ _ "\<lparr>rr_client = 0, rr_state = REF_BORROWED, rr_gate = new_gate\<rparr>"])
      (simp_all add: closing_def)
  with \<open>resident_pool ex_plan (ex_shared REF_BORROWED broken)\<close> show ?thesis by (rule pool_reachable.step)
qed


text \<open>
  Releasing a reference touches nothing but the reference while another task holds the client; the
  release of the last one ends the process of the client and leaves an empty pool.
\<close>

theorem last_release_closes_client:
  assumes "resident_pool plan s" and "reference s k = Some r" and "\<not> closing r"
    and "rr_client r \<notin> rw_broken (cp_world s)"
  shows "\<exists>s'. release_client (resident_clients plan) k s = (Inr (), s') \<and>
    reference s' = (reference s)(k := None) \<and>
    (if \<exists>k' r'. reference s k' = Some r' \<and> k' \<noteq> k \<and> \<not> closing r'
     then get_existing s' = get_existing s \<and> cp_world s' = cp_world s
     else get_existing s' = None \<and> rr_client r \<notin> held_processes (cp_world s') \<and>
       (rr_client r \<in> held_processes (cp_world s) \<longrightarrow> rr_client r \<notin> rw_children (cp_world s')))"
proof -
  have v: "view_ok (reference s) (pooled_client s) (cp_next s) (created_clients (cp_world s)) (held_processes (cp_world s))"
    and d: "ddistinct (cp_references s)"
    using resident_view [OF assms(1)] by simp_all
  obtain f where pooled: "cp_pooled s = Some (rr_client r, f)" and gate: "\<not> cg_succeeded (rr_gate r)"
    using view_ref(5) [OF v assms(2,3)] by (auto simp: pooled_client_def)
  have err: "cg_error (rr_gate r) = None" using view_ref(3) [OF v assms(2)] .
  have others: "others_active {k} s \<longleftrightarrow> (\<exists>k' r'. reference s k' = Some r' \<and> k' \<noteq> k \<and> \<not> closing r')"
    using others_active_iff [OF d, of "{k}"] by simp
  show ?thesis
  proof (cases "others_active {k} s")
    case True
    then have "release_client (resident_clients plan) k s = (Inr (), drop_reference k s)"
      using assms(2,3) by (simp add: release_client_def begin_release_def release_active_def finish_close_def)
    with True others show ?thesis by (simp add: get_existing_def)
  next
    case False
    define r1 where "r1 = \<lparr>rr_client = rr_client r, rr_state = REF_CLOSING, rr_gate = rr_gate r\<rparr>"
    have b: "begin_release k s = (put_reference k r1 s)\<lparr>cp_pooled := None\<rparr>"
      using False assms(2,3) pooled
      by (simp add: begin_release_def release_active_def hand_over_close_def r1_def)
    have c: "closing r1" "rr_client r1 = rr_client r" "rr_gate r1 = rr_gate r" by (simp_all add: r1_def closing_def)
    have "\<exists>w. co_close (resident_clients plan) (rr_client r) (cp_world s) = (Inr (), w) \<and>
        (rr_client r \<in> held_processes (cp_world s) \<longrightarrow> rr_client r \<notin> rw_children w)"
      using assms(4) by (cases "rr_client r \<in> held_processes (cp_world s)")
        (auto simp: resident_clients_def Let_def held_processes_def)
    then obtain w where w: "co_close (resident_clients plan) (rr_client r) (cp_world s) = (Inr (), w)"
      "rr_client r \<in> held_processes (cp_world s) \<longrightarrow> rr_client r \<notin> rw_children w" by blast
    have "rr_client r \<notin> held_processes w" using residents.closed [OF w(1)] by blast
    moreover have "\<exists>s'. release_client (resident_clients plan) k s = (Inr (), s') \<and>
        reference s' = (reference s)(k := None) \<and> get_existing s' = None \<and> cp_world s' = w"
      using w(1) c gate err
      by (simp add: release_client_def b finish_close_def forget_client_def run_gate_def gate_finish_def
          close_attempt_def sbind_def smodify_def get_existing_def)
    ultimately show ?thesis using False others w(2) by auto
  qed
qed

theorem last_release_closes_client_witness:
  "\<exists>s'. release_client (resident_clients ex_plan) 0 (ex_shared REF_INSTALLED {}) = (Inr (), s') \<and>
     get_existing s' = None \<and> 0 \<notin> rw_children (cp_world s')"
proof -
  let ?s = "ex_shared REF_INSTALLED {}" and ?r = "\<lparr>rr_client = 0, rr_state = REF_INSTALLED, rr_gate = new_gate\<rparr>"
  have r: "reference ?s 0 = Some ?r" "\<not> closing ?r" "rr_client ?r \<notin> rw_broken (cp_world ?s)"
    "rr_client ?r \<in> held_processes (cp_world ?s)"
    by (auto simp: ex_shared_def closing_def ex_started_def held_processes_def)
  moreover have "\<not> (\<exists>k' r'. reference ?s k' = Some r' \<and> k' \<noteq> 0 \<and> \<not> closing r')"
    by (simp add: ex_shared_def)
  ultimately show ?thesis
    using last_release_closes_client [OF ex_shared_reachable, of "{}" 0 ?r] by (auto simp only: if_False reference_record.select_convs)
qed

text \<open>
  A close that fails has already forgotten its child, so that the retry the gate is made for ends
  at once and the child runs on.
\<close>

lemma retried_close_leaves_child:
  "fst (release_client (resident_clients ex_plan) 0 (ex_shared REF_INSTALLED {0})) = Inl OSErr"
  "fst (release_client (resident_clients ex_plan) 0
     (snd (release_client (resident_clients ex_plan) 0 (ex_shared REF_INSTALLED {0})))) = Inr ()"
  "rw_children (cp_world (snd (release_client (resident_clients ex_plan) 0
     (snd (release_client (resident_clients ex_plan) 0 (ex_shared REF_INSTALLED {0})))))) = {0}"
  by (simp_all add: release_client_def ex_shared_def begin_release_def closing_def release_active_def
      others_active_def hand_over_close_def put_reference_def finish_close_def forget_client_def run_gate_def
      gate_finish_def close_attempt_def resident_clients_def ex_started_def sbind_def smodify_def
      close_client_def new_client_def new_gate_def drop_reference_def Let_def)

text \<open>A reference whose release is pending can be committed again; its client is no longer pooled.\<close>

lemma commit_revives_closing:
  "let s = snd (release_client (resident_clients ex_plan) 0 (ex_shared REF_INSTALLED {0}))
   in fst (commit_reference 0 s) = Inr () \<and> get_existing s = None \<and>
     reference_counts (snd (commit_reference 0 s)) = (0, 1, 0)"
  by (simp add: release_client_def ex_shared_def begin_release_def closing_def release_active_def
      others_active_def hand_over_close_def put_reference_def finish_close_def forget_client_def run_gate_def
      gate_finish_def close_attempt_def resident_clients_def ex_started_def sbind_def smodify_def
      close_client_def new_client_def new_gate_def drop_reference_def Let_def commit_reference_def
      get_existing_def reference_counts_def)

end
