(* ===== verification/ActivationFence.thy ===== *)
theory ActivationFence
  imports SessionSetup RestartGuard
begin

text \<open>
  \<open>scripts/activation_fence.py\<close>, \<open>daemon_activation_fence.py\<close> and \<open>daemon_recovery.py\<close>: the daemon
  hands a session over only after the user's turn that activated it has ended. The fence names this
  turn and the next unread byte of the rollout. A rollout is read as it is at the time of the call.
\<close>

section \<open>The fence\<close>

datatype fence_status = FENCE_PENDING | FENCE_COMPLETED | FENCE_ABORTED | FENCE_SUPERSEDED

record activation_fence =
  af_turn :: string
  af_cursor :: rollout_cursor

record fence_limits =
  fl_scan :: nat
  fl_line :: nat

definition fence_limits_of_code :: fence_limits where
  "fence_limits_of_code = \<lparr>fl_scan = 16 * 1048576, fl_line = 8 * 1048576\<rparr>"

text \<open>The loop of \<open>poll\<close> over the parsed records; it stops at the first decisive event.\<close>

fun poll_status :: "string \<Rightarrow> observed_event option list \<Rightarrow> fence_status" where
  "poll_status turn [] = FENCE_PENDING"
| "poll_status turn (None # es) = poll_status turn es"
| "poll_status turn (Some e # es) =
     (if ev_child_id e \<noteq> None then poll_status turn es
      else if kind e = TURN_STARTED \<and> ev_turn_id e \<noteq> Some turn then FENCE_SUPERSEDED
      else if ev_turn_id e \<noteq> Some turn then poll_status turn es
      else if kind e = TURN_COMPLETED then FENCE_COMPLETED
      else if kind e = TURN_ABORTED then FENCE_ABORTED
      else poll_status turn es)"

definition fence_poll ::
  "pylib \<Rightarrow> source_env \<Rightarrow> path \<Rightarrow> activation_fence \<Rightarrow> exn + fence_status \<times> activation_fence" where
  "fence_poll lib so p f =
     ebind (read_new_records (so_limits so) (so_decode so) p (so_rollouts so p) (af_cursor f)) (\<lambda>batch.
     Inr (poll_status (af_turn f) (map (parse_rollout_event (fromiso lib)) (rb_records batch)),
          f\<lparr>af_cursor := rb_cursor batch\<rparr>))"

section \<open>The tail of a rollout\<close>

definition fence_record :: "decoder \<Rightarrow> string \<Rightarrow> exn + dict" where
  "fence_record decode line =
     (case decode line of Some (JObj d) \<Rightarrow> Inr d | _ \<Rightarrow> Inl (ActivationFenceError ''activation_rollout_invalid''))"

function tail_records :: "nat \<Rightarrow> decoder \<Rightarrow> string \<Rightarrow> nat \<Rightarrow> exn + dict list \<times> nat" where
  "tail_records limit decode rest pos =
     (let line = readline (limit + 1) rest
      in if line = [] \<or> length line > limit \<or> last line \<noteq> newline then Inr ([], pos)
         else
           ebind (fence_record decode line) (\<lambda>r.
           ebind (tail_records limit decode (drop (length line) rest) (pos + length line)) (\<lambda>(rs, q).
           Inr (r # rs, q))))"
  by pat_completeness auto
termination
  by (relation "measure (\<lambda>(limit, decode, rest, pos). length rest)")
    (auto simp: readline_def Let_def intro!: diff_less)

declare tail_records.simps [simp del]

definition snapshot_tail ::
  "fence_limits \<Rightarrow> decoder \<Rightarrow> path \<Rightarrow> rollout option \<Rightarrow> exn + rollout_cursor \<times> dict list" where
  "snapshot_tail fl decode p file =
     (case file of
        None \<Rightarrow> Inl (FileNotFoundError p)
      | Some f \<Rightarrow>
          let start = length (ro_bytes f) - fl_scan fl;
              rest = drop start (ro_bytes f);
              skip = (if start = 0 then 0 else length (readline (fl_line fl + 1) rest))
          in ebind (tail_records (fl_line fl) decode (drop skip rest) (start + skip)) (\<lambda>(records, q).
             Inr (\<lparr>cu_device = st_dev f, cu_file_id = st_ino f, cu_offset = q\<rparr>, records)))"

section \<open>Capture and recovery\<close>

definition open_step :: "string list \<Rightarrow> observed_event option \<Rightarrow> string list" where
  "open_step turns oe =
     (case oe of
        None \<Rightarrow> turns
      | Some e \<Rightarrow>
          (case (ev_child_id e, ev_turn_id e) of
             (None, Some t) \<Rightarrow>
               if kind e = TURN_STARTED then (if t \<in> set turns then turns else turns @ [t])
               else if kind e = TURN_COMPLETED \<or> kind e = TURN_ABORTED then removeAll t turns
               else turns
           | _ \<Rightarrow> turns))"

definition capture_activation_fence ::
  "fence_limits \<Rightarrow> pylib \<Rightarrow> source_env \<Rightarrow> path \<Rightarrow> exn + activation_fence" where
  "capture_activation_fence fl lib so p =
     ebind (snapshot_tail fl (so_decode so) p (so_rollouts so p)) (\<lambda>(cursor, records).
     case foldl open_step [] (map (parse_rollout_event (fromiso lib)) records) of
       [] \<Rightarrow> Inl (ActivationFenceError ''activation_turn_not_observable'')
     | [t] \<Rightarrow> Inr \<lparr>af_turn = t, af_cursor = cursor\<rparr>
     | _ \<Rightarrow> Inl (ActivationFenceError ''activation_turn_ambiguous''))"

definition recover_step :: "string \<Rightarrow> bool \<times> fence_status \<Rightarrow> observed_event option \<Rightarrow> bool \<times> fence_status" where
  "recover_step turn = (\<lambda>(seen, status) oe.
     case oe of
       None \<Rightarrow> (seen, status)
     | Some e \<Rightarrow>
         if ev_child_id e \<noteq> None then (seen, status)
         else if kind e = TURN_STARTED then
           (if ev_turn_id e = Some turn then (True, FENCE_PENDING)
            else (seen, if seen \<and> status = FENCE_PENDING then FENCE_SUPERSEDED else status))
         else if ev_turn_id e = Some turn \<and> kind e = TURN_COMPLETED then (seen, FENCE_COMPLETED)
         else if ev_turn_id e = Some turn \<and> kind e = TURN_ABORTED then (seen, FENCE_ABORTED)
         else (seen, status))"

definition recover_activation_fence ::
  "fence_limits \<Rightarrow> pylib \<Rightarrow> source_env \<Rightarrow> path \<Rightarrow> string \<Rightarrow> exn + fence_status \<times> activation_fence" where
  "recover_activation_fence fl lib so p turn =
     ebind (snapshot_tail fl (so_decode so) p (so_rollouts so p)) (\<lambda>(cursor, records).
     case foldl (recover_step turn) (False, FENCE_PENDING) (map (parse_rollout_event (fromiso lib)) records) of
       (seen, status) \<Rightarrow>
         if \<not> seen then Inl (ActivationFenceError ''activation_turn_not_observable'')
         else Inr (status, \<lparr>af_turn = turn, af_cursor = cursor\<rparr>))"

section \<open>The fences of the daemon\<close>

record pending_activation =
  pa_rollout :: path
  pa_fence :: activation_fence

type_synonym fences = "string \<rightharpoonup> pending_activation"

type_synonym 'a fence_step = "(exn, fences \<times> store, 'a) step"

record fence_env =
  fe_setup :: setup_env
  fe_source :: source_env
  fe_fresh :: string
  fe_stamp :: string

abbreviation fe_manager :: "fence_env \<Rightarrow> manager_env" where
  "fe_manager F \<equiv> su_manager (fe_setup F)"

abbreviation fe_lib :: "fence_env \<Rightarrow> pylib" where
  "fe_lib F \<equiv> mg_lib (fe_manager F)"

definition on_store :: "(exn, store, 'a) step \<Rightarrow> 'a fence_step" where
  "on_store m = (\<lambda>(fs, st). case m st of (r, st') \<Rightarrow> (r, (fs, st')))"

definition put_fence :: "string \<Rightarrow> pending_activation option \<Rightarrow> unit fence_step" where
  "put_fence sid pa = smodify (\<lambda>(fs, st). (fs(sid := pa), st))"

definition require_fence :: "string \<Rightarrow> pending_activation fence_step" where
  "require_fence sid = (\<lambda>(fs, st).
     (case fs sid of None \<Rightarrow> Inl (DaemonServiceError ''activation_fence_missing'') | Some pa \<Rightarrow> Inr pa, (fs, st)))"

definition store_cursor :: "fence_env \<Rightarrow> string \<Rightarrow> rollout_cursor \<Rightarrow> unit fence_step" where
  "store_cursor F sid c = on_store (\<lambda>st.
     case save_cursor (sha (fe_lib F)) (mg_fs (fe_manager F)) (mg_home (fe_manager F)) sid c st of
       Inl e \<Rightarrow> (Inl e, st) | Inr st' \<Rightarrow> (Inr (), st'))"

definition capture_fence :: "fence_env \<Rightarrow> path \<Rightarrow> exn + pending_activation" where
  "capture_fence F p =
     ebind (capture_activation_fence fence_limits_of_code (fe_lib F) (fe_source F) p) (\<lambda>f.
     Inr \<lparr>pa_rollout = p, pa_fence = f\<rparr>)"

definition bind_values :: "fence_env \<Rightarrow> path \<Rightarrow> string \<Rightarrow> dict \<Rightarrow> exn + unit \<times> dict" where
  "bind_values F p turn values =
     ebind (start_managed_parent (fe_fresh F) (fe_stamp F) values turn p) (\<lambda>v. done_with (bump_revision p v))"

definition bind_fence :: "fence_env \<Rightarrow> string \<Rightarrow> pending_activation \<Rightarrow> path \<Rightarrow> unit fence_step" where
  "bind_fence F sid pa p =
     sbind (on_store (manager_update (fe_manager F) p (bind_values F p (af_turn (pa_fence pa))))) (\<lambda>_.
     sbind (store_cursor F sid (af_cursor (pa_fence pa))) (\<lambda>_. put_fence sid (Some pa)))"

definition recover_fence :: "fence_env \<Rightarrow> string \<Rightarrow> path \<Rightarrow> string \<Rightarrow> fence_status fence_step" where
  "recover_fence F sid p turn =
     sbind (slift (recover_activation_fence fence_limits_of_code (fe_lib F) (fe_source F) p turn)) (\<lambda>(status, f).
     sbind (put_fence sid (Some \<lparr>pa_rollout = p, pa_fence = f\<rparr>)) (\<lambda>_. sret status))"

definition poll_fence :: "fence_env \<Rightarrow> string \<Rightarrow> fence_status fence_step" where
  "poll_fence F sid =
     sbind (require_fence sid) (\<lambda>pa.
     sbind (slift (fence_poll (fe_lib F) (fe_source F) (pa_rollout pa) (pa_fence pa))) (\<lambda>(status, f).
     sbind (put_fence sid (Some (pa\<lparr>pa_fence := f\<rparr>))) (\<lambda>_. sret status)))"

definition complete_values :: "path \<Rightarrow> string \<Rightarrow> dict \<Rightarrow> exn + unit \<times> dict" where
  "complete_values p turn values =
     (if dget values ''parent_turn_id'' \<noteq> JStr turn \<or> dget values ''managed_turn_id'' \<noteq> JNull
      then Inl (DaemonServiceError ''activation_turn_ownership_changed'')
      else
        ebind (mark_target_terminal values None p) (\<lambda>(b, v).
        done_with (bump_revision p (dsets [(''handoff_requested'', JBool True), (''parent_complete'', JBool False)] v))))"

definition complete_fence :: "fence_env \<Rightarrow> string \<Rightarrow> unit fence_step" where
  "complete_fence F sid =
     (let p = setup_runtime (fe_setup F) sid
      in sbind (require_fence sid) (\<lambda>pa.
         sbind (store_cursor F sid (af_cursor (pa_fence pa))) (\<lambda>_.
         sbind (on_store (manager_update (fe_manager F) p (complete_values p (af_turn (pa_fence pa))))) (\<lambda>_.
         put_fence sid None))))"

definition adopt_values :: "fence_env \<Rightarrow> path \<Rightarrow> string \<Rightarrow> dict \<Rightarrow> exn + bool \<times> dict" where
  "adopt_values F p turn values =
     (if dget values ''enabled'' \<noteq> JBool True \<or> dget values ''managed_mode'' \<noteq> JBool True \<or>
         dget values ''goal_companion'' = JBool True \<or> dget values ''shutdown_requested'' = JBool True \<or>
         dget values ''handoff_requested'' \<noteq> JBool True \<or> dget values ''managed_turn_id'' \<noteq> JNull \<or>
         dget values ''pending_turn_id'' \<noteq> JNull
      then Inr (False, values)
      else
        ebind (start_managed_parent (fe_fresh F) (fe_stamp F) values turn p) (\<lambda>v.
        ebind (advance_turn_activity_epoch v p) (\<lambda>v.
        ebind (bump_revision p (dset ''handoff_requested'' (JBool False) v)) (\<lambda>v. Inr (True, v)))))"

definition adopt_started :: "fence_env \<Rightarrow> string \<Rightarrow> path \<Rightarrow> string \<Rightarrow> bool fence_step" where
  "adopt_started F sid rollout turn =
     (let p = setup_runtime (fe_setup F) sid
      in sbind (slift (initial_cursor rollout (so_rollouts (fe_source F) rollout))) (\<lambda>c.
         sbind (on_store (\<lambda>st. is_true (manager_update (fe_manager F) p (adopt_values F p turn) st))) (\<lambda>adopted.
         if adopted
         then sbind (put_fence sid (Some \<lparr>pa_rollout = rollout, pa_fence = \<lparr>af_turn = turn, af_cursor = c\<rparr>\<rparr>)) (\<lambda>_.
           sret True)
         else sret False)))"

definition is_pending :: "fences \<Rightarrow> string \<Rightarrow> bool" where
  "is_pending fs sid \<longleftrightarrow> fs sid \<noteq> None"

definition fence_turn_id :: "fences \<Rightarrow> string \<Rightarrow> string option" where
  "fence_turn_id fs sid = map_option (\<lambda>pa. af_turn (pa_fence pa)) (fs sid)"

definition discard_fence :: "string \<Rightarrow> unit fence_step" where
  "discard_fence sid = put_fence sid None"

section \<open>Recovery of a session\<close>

record persisted_task =
  pt_session :: string
  pt_runtime :: string
  pt_executable :: string
  pt_thresholds :: restart_thresholds
  pt_managed :: bool
  pt_rollout :: path
  pt_generation :: int
  pt_transcript :: string
  pt_pending :: bool
  pt_turn :: "string option"

text \<open>The tasks of the files that \<open>runtime/*.json\<close> lists; the first unreadable document ends the discovery.\<close>

definition persisted_task_of :: "manager_env \<Rightarrow> store \<Rightarrow> path \<Rightarrow> exn + persisted_task option" where
  "persisted_task_of E st p =
     ebind (load_state (mg_fs E) (mg_home E) p st) (\<lambda>values.
     if dget values ''enabled'' \<noteq> JBool True then Inr None
     else
       ebind (managed_target_from_values (mg_lib E) (mg_fs E) (mg_home E) p values) (\<lambda>t.
       ebind (load_manager_runtime E (last p) st) (\<lambda>rt.
       if (case rt of None \<Rightarrow> False | Some r \<Rightarrow> mr_error r \<noteq> None) then Inr None
       else
         let pending = wt_managed_mode t \<and>
               (case rt of
                  None \<Rightarrow> False
                | Some r \<Rightarrow> \<not> mv_handoff_requested (mr_view r) \<and> mv_managed_turn (mr_view r) = None)
         in
         ebind (get_string values ''executable_sha256'' p) (\<lambda>executable.
         ebind (get_integer values ''revision'' p 0) (\<lambda>generation.
         ebind (get_string values ''transcript_path'' p) (\<lambda>transcript.
         Inr (Some \<lparr>pt_session = wt_session t, pt_runtime = last p, pt_executable = executable,
                    pt_thresholds = wt_thresholds t, pt_managed = wt_managed_mode t,
                    pt_rollout = wt_rollout t, pt_generation = generation, pt_transcript = transcript,
                    pt_pending = pending, pt_turn = (if pending then wt_parent_turn t else None)\<rparr>)))))))"

definition discover_persisted_tasks :: "manager_env \<Rightarrow> store \<Rightarrow> path list \<Rightarrow> exn + persisted_task list" where
  "discover_persisted_tasks E st listing =
     ebind (emap (persisted_task_of E st) (sort listing)) (\<lambda>ts. Inr (List.map_filter id ts))"

definition recover_session_fence :: "fence_env \<Rightarrow> persisted_task \<Rightarrow> bool fence_step" where
  "recover_session_fence F saved =
     (let disable = on_store (disable_session (fe_setup F) (pt_session saved))
      in if \<not> pt_pending saved then sret True
         else case pt_turn saved of
             None \<Rightarrow> sbind disable (\<lambda>_. sret False)
           | Some turn \<Rightarrow>
               sbind (recover_fence F (pt_session saved) (pt_rollout saved) turn) (\<lambda>status.
               case status of
                 FENCE_SUPERSEDED \<Rightarrow>
                   sbind (discard_fence (pt_session saved)) (\<lambda>_. sbind disable (\<lambda>_. sret False))
               | FENCE_PENDING \<Rightarrow> sret True
               | _ \<Rightarrow> sbind (complete_fence F (pt_session saved)) (\<lambda>_. sret True)))"

section \<open>Lemmas: classification\<close>

abbreviation main_turn :: "string \<Rightarrow> observed_event \<Rightarrow> bool" where
  "main_turn turn e \<equiv> ev_child_id e = None \<and> ev_turn_id e = Some turn"

definition turn_end :: "string \<Rightarrow> observed_event \<Rightarrow> bool" where
  "turn_end turn e \<longleftrightarrow> main_turn turn e \<and> kind e \<in> {TURN_COMPLETED, TURN_ABORTED}"

definition turn_begin :: "string \<Rightarrow> observed_event \<Rightarrow> bool" where
  "turn_begin turn e \<longleftrightarrow> main_turn turn e \<and> kind e = TURN_STARTED"

lemma poll_append:
  "poll_status turn (es @ es') =
     (if poll_status turn es = FENCE_PENDING then poll_status turn es' else poll_status turn es)"
  by (induction turn es rule: poll_status.induct) auto

lemma recover_step_seen [simp]: "fst (recover_step turn s oe) \<longleftrightarrow> fst s \<or> (\<exists>e. oe = Some e \<and> turn_begin turn e)"
  by (cases s) (auto simp: recover_step_def turn_begin_def split: option.split)

lemma recover_seen:
  "fst (foldl (recover_step turn) s es) \<longleftrightarrow> fst s \<or> (\<exists>e. Some e \<in> set es \<and> turn_begin turn e)"
  by (induction es arbitrary: s) auto

lemma recover_pending:
  "poll_status turn es = FENCE_PENDING \<Longrightarrow>
   foldl (recover_step turn) (True, FENCE_PENDING) es = (True, FENCE_PENDING)"
  by (induction turn es rule: poll_status.induct) (auto simp: recover_step_def split: if_splits)

lemma recover_quiet_step:
  "(\<forall>e. oe = Some e \<longrightarrow> \<not> turn_begin turn e \<and> \<not> turn_end turn e) \<Longrightarrow> status \<noteq> FENCE_PENDING \<Longrightarrow>
   recover_step turn (seen, status) oe = (seen, status)"
  by (auto simp: recover_step_def turn_begin_def turn_end_def split: option.split)

lemma recover_quiet:
  "(\<forall>e. Some e \<in> set es \<longrightarrow> \<not> turn_begin turn e \<and> \<not> turn_end turn e) \<Longrightarrow> status \<noteq> FENCE_PENDING \<Longrightarrow>
   foldl (recover_step turn) (seen, status) es = (seen, status)"
  by (induction es) (auto simp: recover_quiet_step)

lemma recover_decides:
  "poll_status turn [oe] \<noteq> FENCE_PENDING \<Longrightarrow>
   recover_step turn (True, FENCE_PENDING) oe = (True, poll_status turn [oe])"
  by (cases oe) (auto simp: recover_step_def split: if_splits)

lemma recover_ended:
  assumes "snd (foldl (recover_step turn) s es) \<in> {FENCE_COMPLETED, FENCE_ABORTED}"
  shows "(\<exists>pre e post. es = pre @ Some e # post \<and> turn_end turn e \<and>
      (\<forall>x. Some x \<in> set post \<longrightarrow> \<not> turn_begin turn x)) \<or>
    snd s \<in> {FENCE_COMPLETED, FENCE_ABORTED} \<and> (\<forall>x. Some x \<in> set es \<longrightarrow> \<not> turn_begin turn x)"
  using assms
proof (induction es arbitrary: s)
  case (Cons oe es)
  have "snd (foldl (recover_step turn) (recover_step turn s oe) es) \<in> {FENCE_COMPLETED, FENCE_ABORTED}"
    using Cons.prems by (simp only: foldl_Cons)
  from Cons.IH [OF this] show ?case
  proof (elim disjE exE conjE)
    fix pre e post
    assume "es = pre @ Some e # post" "turn_end turn e" "\<forall>x. Some x \<in> set post \<longrightarrow> \<not> turn_begin turn x"
    then show ?thesis by (metis append_Cons)
  next
    assume step: "snd (recover_step turn s oe) \<in> {FENCE_COMPLETED, FENCE_ABORTED}"
      and quiet: "\<forall>x. Some x \<in> set es \<longrightarrow> \<not> turn_begin turn x"
    show ?thesis
    proof (cases "\<exists>e. oe = Some e \<and> turn_end turn e")
      case True
      with quiet show ?thesis by (metis append_Nil)
    next
      case False
      with step have "snd s \<in> {FENCE_COMPLETED, FENCE_ABORTED} \<and> (\<forall>e. oe = Some e \<longrightarrow> \<not> turn_begin turn e)"
        by (cases s) (auto simp: recover_step_def turn_begin_def turn_end_def split: option.splits if_splits)
      with quiet show ?thesis by auto
    qed
  qed
qed simp

lemma recover_ended_seen:
  assumes "foldl (recover_step turn) (False, FENCE_PENDING) es = (True, status)"
    and "status \<in> {FENCE_COMPLETED, FENCE_ABORTED}"
  shows "\<exists>pre s mid e post. es = pre @ Some s # mid @ Some e # post \<and> turn_begin turn s \<and>
    turn_end turn e \<and> (\<forall>x. Some x \<in> set post \<longrightarrow> \<not> turn_begin turn x)"
proof -
  obtain pre e post where e: "es = pre @ Some e # post" "turn_end turn e"
    "\<forall>x. Some x \<in> set post \<longrightarrow> \<not> turn_begin turn x"
    using recover_ended [of turn "(False, FENCE_PENDING)" es] assms by auto
  have "\<exists>b. Some b \<in> set es \<and> turn_begin turn b"
    using recover_seen [of turn "(False, FENCE_PENDING)" es] assms(1) by simp
  then obtain b where b: "Some b \<in> set es" "turn_begin turn b" by blast
  moreover have "b \<noteq> e" using b(2) e(2) by (auto simp: turn_begin_def turn_end_def)
  ultimately have "Some b \<in> set pre" using e by auto
  then obtain pre' mid where "pre = pre' @ Some b # mid" by (meson split_list)
  with e(1) have "es = pre' @ Some b # mid @ Some e # post" by simp
  with b(2) e(2,3) show ?thesis by blast
qed

text \<open>A turn is open when it began and has not ended since.\<close>

definition turn_open :: "string \<Rightarrow> observed_event option list \<Rightarrow> bool" where
  "turn_open turn es \<longleftrightarrow> (\<exists>pre b post. es = pre @ Some b # post \<and> turn_begin turn b \<and>
     (\<forall>x. Some x \<in> set post \<longrightarrow> \<not> turn_end turn x))"

lemma begin_not_end: "turn_begin turn b \<Longrightarrow> \<not> turn_end turn b"
  by (auto simp: turn_begin_def turn_end_def)

lemma turn_open_snoc:
  "turn_open turn (es @ [oe]) \<longleftrightarrow>
     (\<exists>b. oe = Some b \<and> turn_begin turn b) \<or> turn_open turn es \<and> (\<forall>x. oe = Some x \<longrightarrow> \<not> turn_end turn x)"
  (is "?l \<longleftrightarrow> ?r")
proof
  assume ?l
  then obtain pre b post where s: "es @ [oe] = pre @ Some b # post" "turn_begin turn b"
    "\<forall>x. Some x \<in> set post \<longrightarrow> \<not> turn_end turn x" unfolding turn_open_def by blast
  show ?r
  proof (cases post rule: rev_cases)
    case (snoc post' y)
    with s(1) have "es = pre @ Some b # post'" "oe = y" by simp_all
    moreover have "\<forall>x. Some x \<in> set post' \<longrightarrow> \<not> turn_end turn x"
      and "\<forall>x. y = Some x \<longrightarrow> \<not> turn_end turn x"
      using s(3) snoc by auto
    ultimately show ?thesis using s(2) unfolding turn_open_def by blast
  next
    case Nil
    with s(1,2) show ?thesis by simp
  qed
next
  assume ?r
  then show ?l
  proof (elim disjE exE conjE)
    fix b assume "oe = Some b" "turn_begin turn b"
    then show ?l unfolding turn_open_def by (intro exI [of _ es] exI [of _ b] exI [of _ "[]"]) simp
  next
    assume "turn_open turn es" and q: "\<forall>x. oe = Some x \<longrightarrow> \<not> turn_end turn x"
    then obtain pre b post where s: "es = pre @ Some b # post" "turn_begin turn b"
      "\<forall>x. Some x \<in> set post \<longrightarrow> \<not> turn_end turn x" unfolding turn_open_def by blast
    with q show ?l unfolding turn_open_def
      by (intro exI [of _ pre] exI [of _ b] exI [of _ "post @ [oe]"]) auto
  qed
qed

lemma open_step_set:
  "turn \<in> set (open_step turns oe) \<longleftrightarrow>
     (\<exists>b. oe = Some b \<and> turn_begin turn b) \<or> turn \<in> set turns \<and> (\<forall>x. oe = Some x \<longrightarrow> \<not> turn_end turn x)"
  by (auto simp: open_step_def turn_begin_def turn_end_def split: option.splits)

lemma open_turns: "set (foldl open_step [] es) = {turn. turn_open turn es}"
proof (induction es rule: rev_induct)
  case Nil
  then show ?case by (simp add: turn_open_def)
next
  case (snoc oe es)
  show ?case
  proof (rule set_eqI)
    fix turn
    show "turn \<in> set (foldl open_step [] (es @ [oe])) \<longleftrightarrow> turn \<in> {turn. turn_open turn (es @ [oe])}"
      using snoc by (simp add: open_step_set turn_open_snoc)
  qed
qed

lemma open_distinct: "distinct turns \<Longrightarrow> distinct (foldl open_step turns es)"
  by (induction es arbitrary: turns)
    (simp_all add: open_step_def distinct_removeAll split: option.split)

lemma distinct_singleton: "distinct xs \<Longrightarrow> set xs = {x} \<longleftrightarrow> xs = [x]"
  by (cases xs; cases "tl xs") (auto simp: insert_eq_iff)

text \<open>Nothing of the turn follows its first decisive event.\<close>

fun settles_once :: "string \<Rightarrow> observed_event option list \<Rightarrow> bool" where
  "settles_once turn [] = True"
| "settles_once turn (oe # es) =
     (if poll_status turn [oe] = FENCE_PENDING then settles_once turn es
      else \<forall>x \<in> set es. case x of None \<Rightarrow> True | Some e \<Rightarrow> \<not> turn_begin turn e \<and> \<not> turn_end turn e)"

lemma recover_settled:
  "settles_once turn es \<Longrightarrow>
   foldl (recover_step turn) (True, FENCE_PENDING) es = (True, poll_status turn es)"
proof (induction es)
  case (Cons oe es)
  show ?case
  proof (cases "poll_status turn [oe] = FENCE_PENDING")
    case True
    with Cons poll_append [of turn "[oe]" es] recover_pending [OF True] show ?thesis by simp
  next
    case False
    with Cons.prems have "foldl (recover_step turn) (True, poll_status turn [oe]) es = (True, poll_status turn [oe])"
      by (intro recover_quiet) (auto split: option.splits)
    with False poll_append [of turn "[oe]" es] recover_decides [OF False] show ?thesis by simp
  qed
qed simp

section \<open>Lemmas: ownership\<close>

lemma put_target_frame:
  "k \<notin> {''parent'', ''children''} \<Longrightarrow> dget (put_target v tid m) k = dget v k"
  by (simp add: put_target_def split: option.split json.split)

lemma mark_target_terminal_frame:
  "mark_target_terminal v tid p = Inr (b, v') \<Longrightarrow> k \<notin> {''parent'', ''children''} \<Longrightarrow> dget v' k = dget v k"
  by (auto simp: mark_target_terminal_def err_simps put_target_frame split: if_splits)

lemmas parent_frame = start_managed_parent_Inr(2)

lemma bind_values_frame:
  assumes "bind_values F p turn v = Inr ((), v')"
    and "k \<notin> {''parent'', ''parent_turn_id'', ''parent_complete'', ''children'', ''revision''}"
  shows "dget v' k = dget v k"
  using assms by (auto simp: bind_values_def err_simps parent_frame [where k = k])

lemma complete_values_Inr:
  assumes "complete_values p turn v = Inr ((), v')"
  shows "dget v ''parent_turn_id'' = JStr turn" and "dget v ''managed_turn_id'' = JNull"
    and "handoff_of v'" and "dget v' ''parent_complete'' = JBool False"
    and "k \<notin> {''parent'', ''handoff_requested'', ''parent_complete'', ''children'', ''revision''} \<Longrightarrow>
      dget v' k = dget v k"
  using assms
  by (auto simp: complete_values_def err_simps handoff_of_def mark_target_terminal_frame [where k = k]
      split: if_splits)

lemma adopt_values_Inr:
  assumes "adopt_values F p turn v = Inr (b, v')"
  shows "b \<or> v' = v"
    and "b \<Longrightarrow> handoff_of v \<and> owner_of v = Nobody \<and> \<not> handoff_of v' \<and> dget v' ''parent_turn_id'' = JStr turn"
    and "k \<notin> {''parent'', ''parent_turn_id'', ''parent_complete'', ''children'', ''revision'',
      ''handoff_requested'', ''turn_activity_epoch''} \<Longrightarrow> dget v' k = dget v k"
  using assms
  by (auto simp: adopt_values_def advance_turn_activity_epoch_def err_simps handoff_of_def owner_values
      start_managed_parent_Inr(1) parent_frame [where k = k] split: if_splits)

lemma recovered_fence:
  "recover_activation_fence fl lib so p turn = Inr (status, f) \<longleftrightarrow>
     (\<exists>cursor records. snapshot_tail fl (so_decode so) p (so_rollouts so p) = Inr (cursor, records) \<and>
        foldl (recover_step turn) (False, FENCE_PENDING) (map (parse_rollout_event (fromiso lib)) records) =
          (True, status) \<and> f = \<lparr>af_turn = turn, af_cursor = cursor\<rparr>)"
  by (cases "snapshot_tail fl (so_decode so) p (so_rollouts so p)")
    (auto simp: recover_activation_fence_def split: prod.split)

section \<open>Properties\<close>

text \<open>
  Activation succeeds on exactly the rollouts whose tail shows one open turn of the main
  thread: the fence names that turn and continues where the tail ends.
\<close>

theorem capture_needs_one_open_turn:
  "capture_activation_fence fl lib so p = Inr f \<longleftrightarrow>
     (\<exists>cursor records. snapshot_tail fl (so_decode so) p (so_rollouts so p) = Inr (cursor, records) \<and>
        {turn. turn_open turn (map (parse_rollout_event (fromiso lib)) records)} = {af_turn f} \<and>
        f = \<lparr>af_turn = af_turn f, af_cursor = cursor\<rparr>)"
proof (cases "snapshot_tail fl (so_decode so) p (so_rollouts so p)")
  case (Inr cr)
  obtain cursor records where cr: "cr = (cursor, records)" by fastforce
  let ?ts = "foldl open_step [] (map (parse_rollout_event (fromiso lib)) records)"
  have d: "set ?ts = {t} \<longleftrightarrow> ?ts = [t]" for t
    by (rule distinct_singleton) (simp add: open_distinct)
  have "capture_activation_fence fl lib so p = Inr f \<longleftrightarrow>
      ?ts = [af_turn f] \<and> f = \<lparr>af_turn = af_turn f, af_cursor = cursor\<rparr>"
    using Inr cr by (cases f) (auto simp: capture_activation_fence_def split: list.split)
  then show ?thesis using Inr cr by (simp add: open_turns [symmetric] d)
qed (simp add: capture_activation_fence_def)

text \<open>
  Recovery after a restart of the daemon and the incremental polling of a running one classify a
  turn alike, whatever batches the polls see, as long as nothing of the turn follows the first
  event that decides its fate.
\<close>

theorem recovery_agrees_with_polling:
  assumes "turn_begin turn b" and "settles_once turn (es @ es')"
  shows "foldl (recover_step turn) (False, FENCE_PENDING) (pre @ Some b # es @ es') =
    (True, if poll_status turn es = FENCE_PENDING then poll_status turn es' else poll_status turn es)"
proof -
  have "recover_step turn s (Some b) = (True, FENCE_PENDING)" for s
    using assms(1) by (cases s) (simp add: recover_step_def turn_begin_def)
  then show ?thesis using recover_settled [OF assms(2)] by (simp add: poll_append)
qed

definition ex_turn_event :: "event_kind \<Rightarrow> string \<Rightarrow> observed_event" where
  "ex_turn_event k turn = observed k 0 [(''turn_id'', JStr turn)] False"

lemma ex_turn_event_simps [simp]:
  "kind (ex_turn_event k turn) = k" "ev_child_id (ex_turn_event k turn) = None"
  "turn \<noteq> [] \<Longrightarrow> ev_turn_id (ex_turn_event k turn) = Some turn"
  by (simp_all add: ex_turn_event_def observed_def text_of_def text_or_def)

theorem recovery_agrees_with_polling_witness:
  "foldl (recover_step ''t'') (False, FENCE_PENDING)
     (map Some [ex_turn_event TURN_STARTED ''t'', ex_turn_event TURN_COMPLETED ''t'',
        ex_turn_event TURN_STARTED ''u'']) = (True, FENCE_COMPLETED)"
  using recovery_agrees_with_polling [of "''t''" "ex_turn_event TURN_STARTED ''t''"
      "[Some (ex_turn_event TURN_COMPLETED ''t'')]" "[Some (ex_turn_event TURN_STARTED ''u'')]" "[]"]
  by (simp add: turn_begin_def turn_end_def)

text \<open>Without the condition they differ: a poll keeps a superseded turn superseded, recovery does not.\<close>

lemma recovery_forgets_superseded:
  "poll_status ''t'' [Some (ex_turn_event TURN_STARTED ''u''), Some (ex_turn_event TURN_COMPLETED ''t'')] =
     FENCE_SUPERSEDED"
  "foldl (recover_step ''t'') (False, FENCE_PENDING)
     (map Some [ex_turn_event TURN_STARTED ''t'', ex_turn_event TURN_STARTED ''u'',
        ex_turn_event TURN_COMPLETED ''t'']) = (True, FENCE_COMPLETED)"
  by (simp_all add: recover_step_def)



text \<open>
  C14: when the daemon comes back up, the recovery of a session changes its document and keeps the
  session only when the fenced turn has begun and then ended in the rollout, and has not begun
  again since.
\<close>

theorem recovery_waits_for_turn_end:
  assumes "recover_session_fence F saved (fs, st) = (Inr True, (fs', st'))" and "st' \<noteq> st"
  shows "\<exists>turn cursor records pre b mid e post. pt_turn saved = Some turn \<and>
    snapshot_tail fence_limits_of_code (so_decode (fe_source F)) (pt_rollout saved)
      (so_rollouts (fe_source F) (pt_rollout saved)) = Inr (cursor, records) \<and>
    map (parse_rollout_event (fromiso (fe_lib F))) records = pre @ Some b # mid @ Some e # post \<and>
    turn_begin turn b \<and> turn_end turn e \<and> (\<forall>x. Some x \<in> set post \<longrightarrow> \<not> turn_begin turn x) \<and>
    fs' (pt_session saved) = None"
proof -
  have pending: "pt_pending saved"
    using assms by (auto simp: recover_session_fence_def sret_def Let_def split: if_splits)
  obtain turn where turn: "pt_turn saved = Some turn"
    using assms(1) pending
    by (cases "pt_turn saved")
      (auto simp: recover_session_fence_def sbind_def sret_def Let_def split: prod.splits sum.splits)
  define es where "es records = map (parse_rollout_event (fromiso (fe_lib F))) records" for records
  let ?sid = "pt_session saved"
  obtain status f where rec: "recover_activation_fence fence_limits_of_code (fe_lib F) (fe_source F)
      (pt_rollout saved) turn = Inr (status, f)"
    using assms(1) pending turn
    by (cases "recover_activation_fence fence_limits_of_code (fe_lib F) (fe_source F) (pt_rollout saved) turn")
      (auto simp: recover_session_fence_def recover_fence_def sbind_def slift_def Let_def)
  then obtain cursor records where snap: "snapshot_tail fence_limits_of_code (so_decode (fe_source F))
      (pt_rollout saved) (so_rollouts (fe_source F) (pt_rollout saved)) = Inr (cursor, records)"
    and fold: "foldl (recover_step turn) (False, FENCE_PENDING) (es records) = (True, status)"
    by (auto simp: recovered_fence es_def)
  have run: "recover_session_fence F saved (fs, st) =
      (case status of
         FENCE_SUPERSEDED \<Rightarrow> sbind (discard_fence ?sid) (\<lambda>_. sbind (on_store (disable_session (fe_setup F) ?sid))
           (\<lambda>_. sret False))
       | FENCE_PENDING \<Rightarrow> sret True
       | _ \<Rightarrow> sbind (complete_fence F ?sid) (\<lambda>_. sret True))
        (fs(?sid := Some \<lparr>pa_rollout = pt_rollout saved, pa_fence = f\<rparr>), st)"
    using rec pending turn
    by (cases status) (simp_all add: recover_session_fence_def recover_fence_def sbind_def slift_def
        sret_def put_fence_def smodify_def Let_def)
  have status: "status \<in> {FENCE_COMPLETED, FENCE_ABORTED}"
    using assms run by (cases status) (auto simp: sret_def sbind_def split: prod.splits sum.splits)
  then have "recover_session_fence F saved (fs, st) = sbind (complete_fence F ?sid) (\<lambda>_. sret True)
      (fs(?sid := Some \<lparr>pa_rollout = pt_rollout saved, pa_fence = f\<rparr>), st)"
    using run by auto
  then have "fs' ?sid = None"
    using assms(1) by (auto simp: complete_fence_def sbind_def sret_def put_fence_def smodify_def Let_def
        split: prod.splits sum.splits)
  with recover_ended_seen [OF fold status] snap turn show ?thesis by (auto simp: es_def)
qed

text \<open>A session whose activation turn has ended while the daemon was down.\<close>

definition ex_turn_record :: "string \<Rightarrow> dict" where
  "ex_turn_record type = [(''type'', JStr ''event_msg''), (''timestamp'', JStr ''1Z''),
     (''payload'', JObj [(''type'', JStr type), (''turn_id'', JStr ''t'')])]"

definition ex_fences :: fence_env where
  "ex_fences = \<lparr>fe_setup = ex_setup\<lparr>su_manager := ex_manager_env\<lparr>mg_lib := ex_lib\<lparr>fromiso := (\<lambda>_. Some 0)\<rparr>\<rparr>\<rparr>,
     fe_source = \<lparr>so_limits = rollout_limits,
       so_decode = (\<lambda>l. Some (JObj (ex_turn_record (if l = ''s\<newline>'' then ''task_started'' else ''task_complete'')))),
       so_rollouts = [[''h'', ''t.jsonl''] \<mapsto> ex_rollout ''s\<newline>c\<newline>'']\<rparr>,
     fe_fresh = ''f'', fe_stamp = ''now''\<rparr>"

definition ex_saved_task :: persisted_task where
  "ex_saved_task = \<lparr>pt_session = ''s'', pt_runtime = ''s.json'', pt_executable = ''e'',
     pt_thresholds = \<lparr>r_warning = 300, r_restart = 600\<rparr>, pt_managed = True, pt_rollout = [''h'', ''t.jsonl''],
     pt_generation = 1, pt_transcript = ''/h/t.jsonl'', pt_pending = True, pt_turn = Some ''t''\<rparr>"

definition ex_fenced :: dict where
  "ex_fenced = [(''session_id'', JStr ''s''), (''parent_turn_id'', JStr ''t''),
     (''parent'', JObj [(''status'', JStr ''running'')]), (''revision'', JInt 1)]"

definition ex_fenced_store :: store where
  "ex_fenced_store = [ex_runtime_file \<mapsto> Regular (Some (JObj ((''schema_version'', JInt 1) # ex_fenced)))]"

abbreviation ex_fence_cursor :: rollout_cursor where
  "ex_fence_cursor \<equiv> \<lparr>cu_device = 1, cu_file_id = 2, cu_offset = 4\<rparr>"

lemma ex_turns_parse:
  "parse_rollout_event (\<lambda>_. Some 0) (ex_turn_record ''task_started'') =
     Some (observed TURN_STARTED 0 [(''type'', JStr ''task_started''), (''turn_id'', JStr ''t'')] False)"
  "parse_rollout_event (\<lambda>_. Some 0) (ex_turn_record ''task_complete'') =
     Some (observed TURN_COMPLETED 0 [(''type'', JStr ''task_complete''), (''turn_id'', JStr ''t'')] False)"
  by (simp_all add: ex_turn_record_def parse_rollout_event_def payload_of_def timestamp_of_def text_of_def
      event_message_kind_def)

lemma ex_fence_recovered:
  "recover_activation_fence fence_limits_of_code (fe_lib ex_fences) (fe_source ex_fences) [''h'', ''t.jsonl''] ''t'' =
     Inr (FENCE_COMPLETED, \<lparr>af_turn = ''t'', af_cursor = ex_fence_cursor\<rparr>)"
proof -
  have "snapshot_tail fence_limits_of_code (so_decode (fe_source ex_fences)) [''h'', ''t.jsonl'']
      (so_rollouts (fe_source ex_fences) [''h'', ''t.jsonl'']) =
      Inr (ex_fence_cursor, [ex_turn_record ''task_started'', ex_turn_record ''task_complete''])"
    by (simp add: snapshot_tail_def ex_fences_def ex_rollout_def tail_records.simps readline_def
        fence_limits_of_code_def fence_record_def Let_def)
  then show ?thesis
    by (simp add: recovered_fence ex_fences_def ex_setup_def ex_turns_parse recover_step_def observed_def
        text_of_def text_or_def)
qed

lemma ex_fence_paths:
  "setup_runtime (fe_setup ex_fences) ''s'' = ex_runtime_file" "abspath ex_runtime_file = ex_runtime_file"
  "fe_manager ex_fences = ex_manager_env\<lparr>mg_lib := ex_lib\<lparr>fromiso := (\<lambda>_. Some 0)\<rparr>\<rparr>"
  "cursor_path (sha (fe_lib ex_fences)) (mg_home (fe_manager ex_fences)) ''s'' =
     [''h'', ''p'', ''cursors'', ''s.json'']"
  by (simp_all add: ex_fences_def ex_setup_def ex_manager_env_def ex_lib_def setup_runtime_def runtime_path_def
      cursor_path_def session_filename_def ex_runtime_file_def abspath_def)

lemma ex_fence_completed:
  assumes "v = [(''session_id'', JStr ''s''), (''parent_turn_id'', JStr ''t''),
     (''parent'', JObj [(''status'', JStr ''terminal'')]), (''revision'', JInt 2),
     (''handoff_requested'', JBool True), (''parent_complete'', JBool False)]"
  obtains cursors where "complete_fence ex_fences ''s''
      ([''s'' \<mapsto> \<lparr>pa_rollout = r, pa_fence = \<lparr>af_turn = ''t'', af_cursor = c\<rparr>\<rparr>], ex_fenced_store) =
    (Inr (), (Map.empty, atomic_json_write ex_runtime_file SCHEMA_VERSION v cursors))"
proof -
  let ?c = "[''h'', ''p'', ''cursors'', ''s.json'']"
  let ?vals = "[(''device'', JInt (cu_device c)), (''file_id'', JInt (cu_file_id c)),
    (''offset'', JInt (int (cu_offset c)))]"
  define st1 where "st1 = atomic_json_write ?c SCHEMA_VERSION ?vals ex_fenced_store"
  have "save_cursor (sha (fe_lib ex_fences)) (mg_fs (fe_manager ex_fences)) (mg_home (fe_manager ex_fences)) ''s''
      c ex_fenced_store = Inr st1"
    using ex_save [where p = ?c and q = "[''cursors'', ''s.json'']" and st = ex_fenced_store and vals = ?vals]
    unfolding save_cursor_def ex_fence_paths(4) st1_def
    by (simp add: ex_fence_paths(3) ex_manager_env_def ex_fenced_store_def ex_runtime_file_def)
  moreover have doc: "st1 ex_runtime_file = Some (Regular (Some (JObj ((''schema_version'', JInt 1) # ex_fenced))))"
    by (simp add: st1_def atomic_json_write_def ex_fenced_store_def ex_runtime_file_def)
  then have load: "load_state ex_env [''h'', ''p''] ex_runtime_file st1 = Inr ex_fenced"
    using ex_safe by (simp add: load_state_def ensure_direct_regular_file_def check_schema_def
        SCHEMA_VERSION_def) (simp add: ex_fenced_def)
  have "complete_values ex_runtime_file ''t'' ex_fenced = Inr ((), v)"
    by (simp add: assms complete_values_def ex_fenced_def mark_target_terminal_def raw_target_def put_target_def
        done_with_def bump_revision_def get_optional_integer_def)
  moreover have "bump_revision ex_runtime_file (dset ''revision'' (JInt 1) v) = Inr v"
    "dget_or (dset ''revision'' (JInt 1) v) ''revision'' (JInt 0) = dget_or ex_fenced ''revision'' (JInt 0)"
    by (simp_all add: assms bump_revision_def get_optional_integer_def ex_fenced_def)
  ultimately have "manager_update (fe_manager ex_fences) ex_runtime_file (complete_values ex_runtime_file ''t'') st1 =
      (Inr (Some ()), atomic_json_write ex_runtime_file SCHEMA_VERSION v st1)"
    using bumped_commit [where E = "fe_manager ex_fences" and p = ex_runtime_file and st = st1 and v = ex_fenced
        and f = "complete_values ex_runtime_file ''t''" and v' = v and r = "()"] load doc
    by (simp add: ex_fence_paths ex_manager_env_def is_file_def ex_env_def)
  with \<open>save_cursor _ _ _ _ _ _ = _\<close> show thesis
    by (intro that [of st1]) (simp add: complete_fence_def ex_fence_paths(1) sbind_def require_fence_def
        store_cursor_def on_store_def put_fence_def smodify_def fun_eq_iff)
qed

theorem recovery_waits_for_turn_end_witness:
  "\<exists>fs' st' e. recover_session_fence ex_fences ex_saved_task (Map.empty, ex_fenced_store) =
      (Inr True, (fs', st')) \<and> fs' ''s'' = None \<and> turn_end ''t'' e"
proof -
  define v where "v = [(''session_id'', JStr ''s''), (''parent_turn_id'', JStr ''t''),
     (''parent'', JObj [(''status'', JStr ''terminal'')]), (''revision'', JInt 2),
     (''handoff_requested'', JBool True), (''parent_complete'', JBool False)]"
  obtain cursors where fin: "complete_fence ex_fences ''s''
      ([''s'' \<mapsto> \<lparr>pa_rollout = [''h'', ''t.jsonl''], pa_fence = \<lparr>af_turn = ''t'', af_cursor = ex_fence_cursor\<rparr>\<rparr>],
        ex_fenced_store) =
    (Inr (), (Map.empty, atomic_json_write ex_runtime_file SCHEMA_VERSION v cursors))"
    by (rule ex_fence_completed [OF v_def])
  let ?st = "atomic_json_write ex_runtime_file SCHEMA_VERSION v cursors"
  have run: "recover_session_fence ex_fences ex_saved_task (Map.empty, ex_fenced_store) = (Inr True, (Map.empty, ?st))"
    using ex_fence_recovered fin
    by (simp add: recover_session_fence_def ex_saved_task_def recover_fence_def sbind_def slift_def sret_def
        put_fence_def smodify_def Let_def)
  have "?st ex_runtime_file \<noteq> ex_fenced_store ex_runtime_file"
    by (simp add: atomic_json_write_def ex_fenced_store_def v_def ex_fenced_def SCHEMA_VERSION_def sort_dict_def)
  then have "?st \<noteq> ex_fenced_store" by metis
  from recovery_waits_for_turn_end [OF run this] run show ?thesis
    by (fastforce simp: ex_saved_task_def)
qed

end
