(* ===== verification/DaemonTask.thy ===== *)
theory DaemonTask
  imports ManagerMessages ClientPool ActivationFence
begin

text \<open>
  \<open>scripts/daemon_task.py\<close>: one session inside the daemon, the manager engine over the shared client
  together with the threshold deadlines of the session. The shared state of a task is the world of the
  clients, the documents with the log, and the leases.
\<close>

section \<open>State\<close>

datatype deadline_kind = DL_WARNING | DL_RESTART | DL_HEARTBEAT

record task_deadline =
  td_at :: real
  td_kind :: deadline_kind

text \<open>What a manager engine remembers, and the number of its client.\<close>

record engine_memory =
  em_client :: nat
  em_loaded :: bool
  em_restarted :: bool
  em_guard :: "goal_guard option"
  em_accepted :: "(string \<times> string) list"

record daemon_task =
  dt_session :: string
  dt_name :: string
  dt_pid :: int
  dt_warning :: real
  dt_restart :: real
  dt_silence :: real
  dt_kind :: deadline_kind
  dt_engine :: "engine_memory option"
  dt_initialized :: bool
  dt_closed :: bool
  dt_lease :: bool

record task_config =
  tf_name :: string
  tf_session :: string
  tf_pid :: int
  tf_warning :: real
  tf_restart :: real
  tf_now :: real

definition new_task :: "task_config \<Rightarrow> nat option \<Rightarrow> bool \<Rightarrow> daemon_task" where
  "new_task cf client lease =
     \<lparr>dt_session = tf_session cf, dt_name = tf_name cf, dt_pid = tf_pid cf, dt_warning = tf_warning cf,
      dt_restart = tf_restart cf, dt_silence = tf_now cf, dt_kind = DL_WARNING,
      dt_engine = map_option (\<lambda>c. \<lparr>em_client = c, em_loaded = False, em_restarted = False,
        em_guard = None, em_accepted = []\<rparr>) client,
      dt_initialized = False, dt_closed = False, dt_lease = lease\<rparr>"

definition managed :: "daemon_task \<Rightarrow> bool" where
  "managed t \<longleftrightarrow> dt_engine t \<noteq> None"

section \<open>Deadlines\<close>

definition record_activity :: "real \<Rightarrow> daemon_task \<Rightarrow> daemon_task" where
  "record_activity now t = (if now < dt_silence t then t else t\<lparr>dt_silence := now, dt_kind := DL_WARNING\<rparr>)"

definition next_deadline :: "daemon_task \<Rightarrow> task_deadline" where
  "next_deadline t =
     \<lparr>td_at = dt_silence t +
        (case dt_kind t of DL_WARNING \<Rightarrow> dt_warning t | DL_RESTART \<Rightarrow> dt_restart t | DL_HEARTBEAT \<Rightarrow> dt_warning t),
      td_kind = dt_kind t\<rparr>"

definition advance_deadline :: "task_deadline \<Rightarrow> real \<Rightarrow> daemon_task \<Rightarrow> bool \<times> daemon_task" where
  "advance_deadline expected now t =
     (if next_deadline t \<noteq> expected then (False, t)
      else case td_kind expected of
          DL_WARNING \<Rightarrow> (True, t\<lparr>dt_kind := DL_RESTART\<rparr>)
        | _ \<Rightarrow> (True, t\<lparr>dt_kind := DL_HEARTBEAT, dt_silence := now\<rparr>))"

section \<open>The engine of a task\<close>

text \<open>The shared clients: the operations of the pool and the app-server interface of a client.\<close>

record 'w task_clients =
  tc_ops :: "'w client_ops"
  tc_server :: "nat \<Rightarrow> 'w managed_server"

record 'w task_state =
  ts_task :: daemon_task
  ts_world :: 'w
  ts_disk :: manager_disk
  ts_leases :: lease_disk

type_synonym ('w, 'a) task_step = "(exn, 'w task_state, 'a) step"

text \<open>The environment of a tick for a task: the daemon starts no watcher process.\<close>

definition task_env :: "tick_env \<Rightarrow> daemon_task \<Rightarrow> tick_env" where
  "task_env T t = T\<lparr>tk_name := dt_name t, tk_pid := dt_pid t, tk_launch := Inr ()\<rparr>"

definition on_engine ::
  "'w task_clients \<Rightarrow> tick_env \<Rightarrow> engine_memory \<Rightarrow>
   ('w managed_server \<Rightarrow> tick_env \<Rightarrow> ('w, 'a) engine_step) \<Rightarrow> ('w, 'a) task_step" where
  "on_engine C T em m s =
     (case m (tc_server C (em_client em)) (task_env T (ts_task s))
        \<lparr>en_client = ts_world s, en_disk = ts_disk s, en_loaded = em_loaded em,
         en_restarted = em_restarted em, en_guard = em_guard em, en_accepted = em_accepted em\<rparr> of
        (r, en) \<Rightarrow> (r, s\<lparr>ts_world := en_client en, ts_disk := en_disk en,
          ts_task := (ts_task s)\<lparr>dt_engine := Some (em\<lparr>em_loaded := en_loaded en,
            em_restarted := en_restarted en, em_guard := en_guard en, em_accepted := en_accepted en\<rparr>)\<rparr>\<rparr>))"

definition on_task :: "(daemon_task \<Rightarrow> daemon_task) \<Rightarrow> ('w, unit) task_step" where
  "on_task f = smodify (\<lambda>s. s\<lparr>ts_task := f (ts_task s)\<rparr>)"

definition on_leases :: "(exn, lease_disk, 'a) step \<Rightarrow> ('w, 'a) task_step" where
  "on_leases m s = (case m (ts_leases s) of (r, d) \<Rightarrow> (r, s\<lparr>ts_leases := d\<rparr>))"

definition release_lease :: "('w, unit) task_step" where
  "release_lease s =
     (if dt_lease (ts_task s)
      then (Inr (), s\<lparr>ts_task := (ts_task s)\<lparr>dt_lease := False\<rparr>,
             ts_leases := release_manager_lease (dt_name (ts_task s)) (ts_leases s)\<rparr>)
      else (Inr (), s))"

text \<open>\<open>try \<dots> finally\<close>: an exception of the second step replaces the result of the first.\<close>

definition finally_do :: "('e, 's, 'a) step \<Rightarrow> ('e, 's, unit) step \<Rightarrow> ('e, 's, 'a) step" where
  "finally_do m clean s =
     (case m s of (r, s1) \<Rightarrow> (case clean s1 of (Inl e, s2) \<Rightarrow> (Inl e, s2) | (Inr _, s2) \<Rightarrow> (r, s2)))"

definition initialize_task :: "'w task_clients \<Rightarrow> tick_env \<Rightarrow> ('w, unit) task_step" where
  "initialize_task C T s =
     (case dt_engine (ts_task s) of
        None \<Rightarrow> on_task (\<lambda>t. t\<lparr>dt_initialized := True\<rparr>) s
      | Some em \<Rightarrow>
          if dt_initialized (ts_task s) then (Inr (), s)
          else
            sbind (if dt_lease (ts_task s) then sret ()
                   else sbind (on_leases (acquire_manager_lease (su_lease (tk_setup T)) (dt_pid (ts_task s))
                          (dt_name (ts_task s)))) (\<lambda>acquired.
                        if \<not> acquired then slift (Inl (DaemonServiceError ''session_manager_still_running''))
                        else on_task (\<lambda>t. t\<lparr>dt_lease := True\<rparr>))) (\<lambda>_ s1.
            case on_engine C T em initialize_engine s1 of
              (Inl e, s2) \<Rightarrow> (Inl e, snd (release_lease s2))
            | (Inr _, s2) \<Rightarrow> on_task (\<lambda>t. t\<lparr>dt_initialized := True\<rparr>) s2) s)"

definition task_file :: "tick_env \<Rightarrow> daemon_task \<Rightarrow> path" where
  "task_file T t = mg_home (tk_manager T) @ [''runtime'', dt_name t]"

definition drive_task :: "'w task_clients \<Rightarrow> tick_env \<Rightarrow> ('w, bool) task_step" where
  "drive_task C T s =
     (if dt_closed (ts_task s) then (Inr False, s)
      else case dt_engine (ts_task s) of
          None \<Rightarrow> (Inr (is_file (fst (ts_disk s)) (abspath (task_file T (ts_task s)))), s)
        | Some em \<Rightarrow> on_engine C T em tick s)"

definition stopped_if_owned :: "int \<Rightarrow> path \<Rightarrow> dict \<Rightarrow> exn + unit \<times> dict" where
  "stopped_if_owned pid p values =
     (if \<not> py_eq (dget values ''manager_pid'') (JInt pid) then Inr ((), values)
      else done_with (bump_revision p (dsets [(''manager_ready'', JBool False), (''manager_pid'', JNull)] values)))"

definition mark_stopped_if_owned :: "tick_env \<Rightarrow> ('w, unit) task_step" where
  "mark_stopped_if_owned T s =
     (let p = task_file T (ts_task s)
      in case manager_update (tk_manager T) p (stopped_if_owned (dt_pid (ts_task s)) p) (fst (ts_disk s)) of
           (r, st) \<Rightarrow> (case r of Inl e \<Rightarrow> Inl e | Inr _ \<Rightarrow> Inr (), s\<lparr>ts_disk := (st, snd (ts_disk s))\<rparr>))"

definition close_task :: "'w task_clients \<Rightarrow> tick_env \<Rightarrow> ('w, unit) task_step" where
  "close_task C T s =
     (if dt_closed (ts_task s) then (Inr (), s)
      else
        finally_do
          (sbind (case dt_engine (ts_task s) of
                    None \<Rightarrow> sret () | Some em \<Rightarrow> on_engine C T em close_engine) (\<lambda>_.
             mark_stopped_if_owned T))
          release_lease (s\<lparr>ts_task := (ts_task s)\<lparr>dt_closed := True\<rparr>\<rparr>))"

text \<open>\<open>status\<close>: the public view of a task.\<close>

record task_status =
  tv_status :: string
  tv_enabled :: bool
  tv_managed :: bool
  tv_manager_ready :: "bool option"
  tv_managed_turn :: "string option"
  tv_shutdown :: "bool option"
  tv_manager_error :: "string option"

definition active_word :: "bool \<Rightarrow> string" where
  "active_word b = (if b then ''active'' else ''inactive'')"

definition status_of_task :: "tick_env \<Rightarrow> daemon_task \<Rightarrow> store \<Rightarrow> exn + task_status" where
  "status_of_task T t st =
     ebind (if managed t then load_manager_runtime (tk_manager T) (dt_name t) st else Inr None) (\<lambda>loaded.
     case loaded of
       None \<Rightarrow>
         let enabled = is_file st (abspath (task_file T t))
         in Inr \<lparr>tv_status = active_word enabled, tv_enabled = enabled, tv_managed = False,
                 tv_manager_ready = None, tv_managed_turn = None, tv_shutdown = None, tv_manager_error = None\<rparr>
     | Some rt \<Rightarrow>
         Inr \<lparr>tv_status = active_word (mv_enabled (mr_view rt)), tv_enabled = mv_enabled (mr_view rt),
              tv_managed = True, tv_manager_ready = Some (mr_ready rt),
              tv_managed_turn = mv_managed_turn (mr_view rt), tv_shutdown = Some (mr_shutdown_requested rt),
              tv_manager_error = mr_error rt\<rparr>)"

section \<open>Lemmas\<close>

lemma engine_frame:
  "dt_lease (ts_task (snd (on_engine C T em m s))) = dt_lease (ts_task s)"
  "dt_name (ts_task (snd (on_engine C T em m s))) = dt_name (ts_task s)"
  "dt_closed (ts_task (snd (on_engine C T em m s))) = dt_closed (ts_task s)"
  "ts_leases (snd (on_engine C T em m s)) = ts_leases s"
  by (simp_all add: on_engine_def split: prod.split)

lemma stopped_frame:
  "ts_task (snd (mark_stopped_if_owned T s)) = ts_task s"
  "ts_leases (snd (mark_stopped_if_owned T s)) = ts_leases s"
  by (simp_all add: mark_stopped_if_owned_def Let_def split: prod.split)

definition lease_held :: "'w task_state \<Rightarrow> int option" where
  "lease_held s = lf_holder (ld_files (ts_leases s) (dt_name (ts_task s)))"

lemma release_lease_frame:
  "\<not> dt_lease (ts_task (snd (release_lease s)))"
  "lease_held (snd (release_lease s)) = (if dt_lease (ts_task s) then None else lease_held s)"
  "dt_name (ts_task (snd (release_lease s))) = dt_name (ts_task s)"
  "dt_closed (ts_task (snd (release_lease s))) = dt_closed (ts_task s)"
  "fst (release_lease s) = Inr ()"
  by (auto simp: release_lease_def lease_held_def release_manager_lease_def lock_exit_def set_file_def)

lemma drive_frame:
  "dt_lease (ts_task (snd (drive_task C T s))) = dt_lease (ts_task s)"
  "lease_held (snd (drive_task C T s)) = lease_held s"
  "dt_closed (ts_task (snd (drive_task C T s))) = dt_closed (ts_task s)"
  by (auto simp: drive_task_def engine_frame lease_held_def split: option.split)

lemma close_frame:
  assumes "\<not> dt_closed (ts_task s)"
  shows "\<not> dt_lease (ts_task (snd (close_task C T s))) \<and>
    lease_held (snd (close_task C T s)) = (if dt_lease (ts_task s) then None else lease_held s)"
proof -
  define keeps_lease :: "'a task_state \<Rightarrow> bool" where
    "keeps_lease s' \<longleftrightarrow> dt_lease (ts_task s') = dt_lease (ts_task s) \<and> lease_held s' = lease_held s" for s'
  define s0 where "s0 = s\<lparr>ts_task := (ts_task s)\<lparr>dt_closed := True\<rparr>\<rparr>"
  define body where "body = sbind (case dt_engine (ts_task s) of None \<Rightarrow> sret () | Some em \<Rightarrow> on_engine C T em close_engine)
    (\<lambda>_. mark_stopped_if_owned T)"
  have "keeps keeps_lease (on_engine C T em close_engine)" for em
    by (simp add: keeps_def keeps_lease_def engine_frame lease_held_def)
  then have "keeps keeps_lease body" unfolding body_def
    by (intro keeps_sbind) (auto simp: keeps_def sret_def keeps_lease_def stopped_frame lease_held_def
        split: option.split)
  then have "keeps_lease (snd (body s0))"
    by (rule keepsD) (simp add: keeps_lease_def s0_def lease_held_def)
  moreover have "snd (close_task C T s) = snd (release_lease (snd (body s0)))"
    using assms release_lease_frame(5) [of "snd (body s0)"]
    by (auto simp: close_task_def finally_do_def s0_def body_def split: prod.split sum.split)
  ultimately show ?thesis by (simp add: keeps_lease_def release_lease_frame)
qed

definition take_lease :: "tick_env \<Rightarrow> ('w, unit) task_step" where
  "take_lease T s = sbind (if dt_lease (ts_task s) then sret ()
     else sbind (on_leases (acquire_manager_lease (su_lease (tk_setup T)) (dt_pid (ts_task s))
            (dt_name (ts_task s)))) (\<lambda>acquired.
          if \<not> acquired then slift (Inl (DaemonServiceError ''session_manager_still_running''))
          else on_task (\<lambda>t. t\<lparr>dt_lease := True\<rparr>))) sret s"

lemma take_lease_cases:
  obtains (held) "dt_lease (ts_task s)" "take_lease T s = (Inr (), s)"
  | (taken) s' where "\<not> dt_lease (ts_task s)" "take_lease T s = (Inr (), s')" "dt_lease (ts_task s')"
      "ts_task s' = (ts_task s)\<lparr>dt_lease := True\<rparr>" "lease_held s = None"
  | (refused) e s' where "\<not> dt_lease (ts_task s)" "take_lease T s = (Inl e, s')" "ts_task s' = ts_task s"
      "lease_held s' = lease_held s"
proof -
  obtain r d where a: "acquire_manager_lease (su_lease (tk_setup T)) (dt_pid (ts_task s)) (dt_name (ts_task s))
      (ts_leases s) = (r, d)" by fastforce
  note lock = lock_restored [of "dt_name (ts_task s)" "su_lease (tk_setup T)" "dt_pid (ts_task s)" "ts_leases s"]
  note defs = take_lease_def sbind_def sret_def slift_def on_leases_def on_task_def smodify_def
  show thesis
  proof (cases "dt_lease (ts_task s)")
    case True
    then show ?thesis by (intro held) (simp_all add: defs)
  next
    case False
    show ?thesis
    proof (cases "r = Inr True")
      case True
      then show ?thesis
        using False a lock
        by (intro taken [of "s\<lparr>ts_leases := d, ts_task := (ts_task s)\<lparr>dt_lease := True\<rparr>\<rparr>"])
          (simp_all add: defs lease_held_def release_manager_lease_def lock_exit_def set_file_def)
    next
      case other: False
      then have "lf_holder (ld_files d (dt_name (ts_task s))) = lease_held s"
        using a lock by (auto simp: lease_held_def split: sum.splits bool.splits)
      moreover obtain e where e: "take_lease T s = (Inl e, s\<lparr>ts_leases := d\<rparr>)"
        using False other a by (cases r) (auto simp: defs)
      ultimately show ?thesis by (intro refused [OF False e]) (simp_all add: lease_held_def)
    qed
  qed
qed

lemma initialize_eq:
  assumes "dt_engine (ts_task s) = Some em" and "\<not> dt_initialized (ts_task s)"
  shows "initialize_task C T s = sbind (take_lease T) (\<lambda>_ s1.
    case on_engine C T em initialize_engine s1 of
      (Inl e, s2) \<Rightarrow> (Inl e, snd (release_lease s2))
    | (Inr _, s2) \<Rightarrow> on_task (\<lambda>t. t\<lparr>dt_initialized := True\<rparr>) s2) s"
  using assms by (simp add: initialize_task_def take_lease_def sbind_def sret_def split: prod.split sum.split)


lemma initialize_frame:
  assumes "\<not> dt_initialized (ts_task s)"
  shows "case initialize_task C T s of (r, s') \<Rightarrow>
    dt_closed (ts_task s') = dt_closed (ts_task s) \<and>
    (case r of
       Inl e \<Rightarrow> \<not> dt_lease (ts_task s') \<and> lease_held s' = (if dt_lease (ts_task s) then None else lease_held s)
     | Inr _ \<Rightarrow> (if managed (ts_task s)
         then dt_lease (ts_task s') \<and> (dt_lease (ts_task s) \<or> lease_held s = None)
         else dt_lease (ts_task s') = dt_lease (ts_task s) \<and> lease_held s' = lease_held s))"
proof (cases "dt_engine (ts_task s)")
  case None
  then show ?thesis
    by (simp add: initialize_task_def on_task_def smodify_def managed_def lease_held_def)
next
  case (Some em)
  let ?init = "\<lambda>s1. case on_engine C T em initialize_engine s1 of
      (Inl e, s2) \<Rightarrow> (Inl e, snd (release_lease s2))
    | (Inr _, s2) \<Rightarrow> on_task (\<lambda>t. t\<lparr>dt_initialized := True\<rparr>) s2"
  have init: "case ?init s1 of (r, s') \<Rightarrow> dt_closed (ts_task s') = dt_closed (ts_task s1) \<and>
      (case r of Inl e \<Rightarrow> \<not> dt_lease (ts_task s') \<and> lease_held s' = (if dt_lease (ts_task s1) then None else lease_held s1)
       | Inr _ \<Rightarrow> dt_lease (ts_task s') = dt_lease (ts_task s1))" for s1
    using engine_frame [of C T em initialize_engine s1]
      release_lease_frame [of "snd (on_engine C T em initialize_engine s1)"]
    by (cases "on_engine C T em initialize_engine s1")
      (auto simp: on_task_def smodify_def lease_held_def split: sum.split)
  show ?thesis
  proof (cases rule: take_lease_cases [of s T])
    case held
    then show ?thesis
      using init [of s] Some assms by (auto simp: initialize_eq sbind_def managed_def split: prod.splits sum.splits)
  next
    case (taken s1)
    then show ?thesis
      using init [of s1] Some assms by (auto simp: initialize_eq sbind_def managed_def split: prod.splits sum.splits)
  next
    case (refused e s1)
    then show ?thesis
      using Some assms by (auto simp: initialize_eq sbind_def managed_def)
  qed
qed

section \<open>Properties\<close>

text \<open>
  A threshold callback acts at most once on the deadline it was scheduled for, and not at all when
  the session has shown activity since: the warning precedes the restart boundary, after which only
  heartbeats follow until the next activity.
\<close>

theorem stale_deadlines_are_ignored:
  assumes "dt_silence t < now"
  shows "advance_deadline (next_deadline t) later (record_activity now t) = (False, record_activity now t) \<and>
    (case advance_deadline (next_deadline t) now t of (fired, t') \<Rightarrow>
       fired \<and> advance_deadline (next_deadline t) later t' = (False, t') \<and>
       dt_kind t' = (if dt_kind t = DL_WARNING then DL_RESTART else DL_HEARTBEAT)) \<and>
    next_deadline (record_activity now t) = \<lparr>td_at = now + dt_warning t, td_kind = DL_WARNING\<rparr>"
  using assms by (cases "dt_kind t") (simp_all add: advance_deadline_def next_deadline_def record_activity_def)

definition ex_task :: daemon_task where
  "ex_task = new_task \<lparr>tf_name = ex_runtime_name, tf_session = ''s'', tf_pid = 1, tf_warning = 300,
     tf_restart = 600, tf_now = 0\<rparr> (Some 0) False"

theorem stale_deadlines_are_ignored_witness:
  "next_deadline ex_task = \<lparr>td_at = 300, td_kind = DL_WARNING\<rparr> \<and>
   advance_deadline (next_deadline ex_task) 300 (record_activity 7 ex_task) = (False, record_activity 7 ex_task)"
  using stale_deadlines_are_ignored [of ex_task 7 300]
  by (simp add: ex_task_def new_task_def next_deadline_def)

text \<open>
  C20: a task takes the lease of its session when it is initialised and gives it up however it ends: when
  the initialisation fails, and when the task is closed, also if closing raises; the lock is then as it
  was before, or free if the task had come with the lease.
\<close>

theorem task_lease_ends_with_task:
  assumes "\<not> dt_initialized (ts_task s)" and "\<not> dt_closed (ts_task s)"
  shows "case initialize_task C T s of (r, s1) \<Rightarrow>
    case fold (\<lambda>T s. snd (drive_task C T s)) Ts s1 of s2 \<Rightarrow>
    case snd (close_task C T' s2) of s3 \<Rightarrow>
      (r \<in> range Inl \<longrightarrow> \<not> dt_lease (ts_task s1)) \<and>
      (r \<in> range Inr \<and> managed (ts_task s) \<longrightarrow> dt_lease (ts_task s2)) \<and>
      \<not> dt_lease (ts_task s3) \<and> lease_held s3 = (if dt_lease (ts_task s) then None else lease_held s)"
proof -
  obtain r s1 where init: "initialize_task C T s = (r, s1)" by fastforce
  define s2 where "s2 = fold (\<lambda>T s. snd (drive_task C T s)) Ts s1"
  have "dt_lease (ts_task (fold (\<lambda>T s. snd (drive_task C T s)) Ts a)) = dt_lease (ts_task a) \<and>
      lease_held (fold (\<lambda>T s. snd (drive_task C T s)) Ts a) = lease_held a \<and>
      dt_closed (ts_task (fold (\<lambda>T s. snd (drive_task C T s)) Ts a)) = dt_closed (ts_task a)" for a
    by (induction Ts arbitrary: a) (simp_all add: drive_frame)
  note drives = this [of s1, folded s2_def]
  have "\<not> dt_closed (ts_task s2)"
    using drives initialize_frame [OF assms(1), of C T] assms(2) init by (auto split: sum.splits)
  note closed = close_frame [OF this, of C T']
  have "(r \<in> range Inl \<longrightarrow> \<not> dt_lease (ts_task s1)) \<and> (r \<in> range Inr \<and> managed (ts_task s) \<longrightarrow> dt_lease (ts_task s2)) \<and>
      \<not> dt_lease (ts_task (snd (close_task C T' s2))) \<and>
      lease_held (snd (close_task C T' s2)) = (if dt_lease (ts_task s) then None else lease_held s)"
    using initialize_frame [OF assms(1), of C T] closed drives init by (cases r) (auto split: if_splits)
  then show ?thesis using init by (simp flip: s2_def)
qed

text \<open>A task whose document does not exist yet takes the lease.\<close>

definition ex_tick :: tick_env where
  "ex_tick = \<lparr>tk_setup = ex_setup, tk_source = ex_quiet, tk_name = [], tk_pid = 1, tk_launch = Inr (),
     tk_verify = (\<lambda>_ _ _. Inr True), tk_now = 0, tk_monotonic = 0, tk_fresh = ''f'', tk_stamp = ''now''\<rparr>"

definition ex_task_state :: "app_client task_state" where
  "ex_task_state = \<lparr>ts_task = ex_task, ts_world = new_client 0 [],
     ts_disk = (Map.empty, \<lparr>log_current = None, log_1 = None, log_2 = None\<rparr>), ts_leases = ex_no_leases\<rparr>"

definition ex_clients :: "app_client task_clients" where
  "ex_clients = \<lparr>tc_ops = \<lparr>co_create = (\<lambda>_. sret 0), co_close = (\<lambda>_. smodify close_client)\<rparr>,
     tc_server = (\<lambda>_. resident_app_server \<lparr>cn_executable = Inr (), cn_spawn = True,
       cn_uuid = (\<lambda>n. replicate n CHR ''u''), cn_str = (\<lambda>_. [])\<rparr>)\<rparr>"

theorem task_lease_ends_with_task_witness:
  "\<exists>s1. initialize_task ex_clients ex_tick ex_task_state = (Inr (), s1) \<and> dt_lease (ts_task s1) \<and>
     lease_held (snd (close_task ex_clients ex_tick s1)) = None"
proof -
  have "manager_file [''h'', ''p''] ex_runtime_name = Inr [''h'', ''p'', ''runtime'', ex_runtime_name]"
    using ex_leases_ok(2) by (simp add: ex_leases_def)
  then have "fst (on_engine ex_clients ex_tick em initialize_engine s) = Inr ()"
    if "fst (ts_disk s) = Map.empty" "dt_name (ts_task s) = ex_runtime_name" for em and s :: "app_client task_state"
    using that by (simp add: on_engine_def initialize_engine_def load_runtime_def load_manager_runtime_def
        task_env_def ex_tick_def ex_setup_def ex_manager_env_def sbind_def sret_def is_file_def)
  note engine = this
  have "\<exists>d. acquire_manager_lease ex_leases 1 ex_runtime_name ex_no_leases = (Inr True, d)"
    using acquire_free [OF ex_leases_ok, of ex_no_leases 1] by (simp add: ex_no_leases_def)
  then obtain d where "acquire_manager_lease ex_leases 1 ex_runtime_name ex_no_leases = (Inr True, d)" ..
  then have take: "take_lease ex_tick ex_task_state = (Inr (), ex_task_state\<lparr>ts_leases := d, ts_task := ex_task\<lparr>dt_lease := True\<rparr>\<rparr>)"
    by (simp add: take_lease_def sbind_def sret_def slift_def on_leases_def on_task_def smodify_def
        ex_task_state_def ex_task_def new_task_def ex_tick_def ex_setup_def)
  have t: "dt_engine (ts_task ex_task_state) = Some \<lparr>em_client = 0, em_loaded = False,
      em_restarted = False, em_guard = None, em_accepted = []\<rparr>" "\<not> dt_initialized (ts_task ex_task_state)"
      "\<not> dt_closed (ts_task ex_task_state)" "\<not> dt_lease (ts_task ex_task_state)"
      "dt_name (ts_task ex_task_state) = ex_runtime_name" "managed (ts_task ex_task_state)"
      "lease_held ex_task_state = None"
    by (simp_all add: ex_task_state_def ex_task_def new_task_def managed_def lease_held_def ex_no_leases_def)
  define em where "em = \<lparr>em_client = 0, em_loaded = False, em_restarted = False, em_guard = None, em_accepted = []\<rparr>"
  define s0 where "s0 = ex_task_state\<lparr>ts_leases := d, ts_task := ex_task\<lparr>dt_lease := True\<rparr>\<rparr>"
  have "fst (on_engine ex_clients ex_tick em initialize_engine s0) = Inr ()"
    by (rule engine) (simp_all add: s0_def ex_task_state_def ex_task_def new_task_def)
  moreover have "initialize_task ex_clients ex_tick ex_task_state = (case on_engine ex_clients ex_tick em initialize_engine s0 of
      (Inl e, s2) \<Rightarrow> (Inl e, snd (release_lease s2))
    | (Inr _, s2) \<Rightarrow> on_task (\<lambda>t. t\<lparr>dt_initialized := True\<rparr>) s2)"
    unfolding initialize_eq [OF t(1,2)] sbind_def take s0_def em_def by simp
  ultimately have "fst (initialize_task ex_clients ex_tick ex_task_state) = Inr ()"
    by (cases "on_engine ex_clients ex_tick em initialize_engine s0") (simp add: on_task_def smodify_def)
  then obtain s1 where "initialize_task ex_clients ex_tick ex_task_state = (Inr (), s1)" by (metis prod.collapse)
  with task_lease_ends_with_task [OF t(2,3), where C = ex_clients and T = ex_tick and Ts = "[]" and T' = ex_tick] t(4,6,7) show ?thesis by auto
qed

end
