(* ===== verification/DaemonRouting.thy ===== *)
theory DaemonRouting
  imports DaemonTask
begin

text \<open>
  The state of \<open>scripts/daemon_registry.py\<close> and its routing of app-server activity: \<open>selected\<close> gives the
  tasks an activity belongs to and interrupts a started turn that no session owns. Task objects live in a
  heap, so that two of them are the same object exactly when their numbers agree.
\<close>

section \<open>State\<close>

record 'w registry =
  rg_heap :: "nat \<rightharpoonup> daemon_task"
  rg_next :: nat
  rg_index :: "(string \<times> nat) list"
  rg_fences :: fences
  rg_owners :: "(string \<times> nat option) list"
  rg_interrupted :: "(string \<times> real) list"
  rg_attempts :: "string list"
  rg_diagnostics :: "string list"
  rg_pool :: "'w client_pool"
  rg_disk :: manager_disk
  rg_leases :: lease_disk

type_synonym ('w, 'a) registry_step = "(exn, 'w registry, 'a) step"

text \<open>
  The environment of one call: the clients, the environment of the task operations, the private root
  and two readings of the clock, the second one after a request to the app server.
\<close>

record 'w registry_env =
  re_clients :: "'w task_clients"
  re_tick :: tick_env
  re_root :: "exn + unit"
  re_clock :: real
  re_later :: real

abbreviation re_setup :: "'w registry_env \<Rightarrow> setup_env" where
  "re_setup E \<equiv> tk_setup (re_tick E)"

abbreviation re_manager :: "'w registry_env \<Rightarrow> manager_env" where
  "re_manager E \<equiv> su_manager (re_setup E)"

definition re_fences :: "'w registry_env \<Rightarrow> fence_env" where
  "re_fences E = \<lparr>fe_setup = re_setup E, fe_source = tk_source (re_tick E),
     fe_fresh = tk_fresh (re_tick E), fe_stamp = tk_stamp (re_tick E)\<rparr>"

definition REGISTRY_CORRELATIONS :: nat where "REGISTRY_CORRELATIONS = 2048"

definition CORRELATION_EXPIRY_SECONDS :: real where "CORRELATION_EXPIRY_SECONDS = 600"

definition PENDING_GRACE_SECONDS :: real where "PENDING_GRACE_SECONDS = 60"

definition MAX_ROUTING_DIAGNOSTICS :: nat where "MAX_ROUTING_DIAGNOSTICS = 20"

definition new_registry :: "'w \<Rightarrow> manager_disk \<Rightarrow> lease_disk \<Rightarrow> 'w registry" where
  "new_registry w disk leases =
     \<lparr>rg_heap = Map.empty, rg_next = 0, rg_index = [], rg_fences = Map.empty, rg_owners = [],
      rg_interrupted = [], rg_attempts = [], rg_diagnostics = [], rg_pool = new_pool w,
      rg_disk = disk, rg_leases = leases\<rparr>"

text \<open>Operations of the parts as operations of the registry.\<close>

definition on_docs :: "(exn, store, 'a) step \<Rightarrow> ('w, 'a) registry_step" where
  "on_docs m s = (case m (fst (rg_disk s)) of (r, st) \<Rightarrow> (r, s\<lparr>rg_disk := (st, snd (rg_disk s))\<rparr>))"

definition on_fences :: "'a fence_step \<Rightarrow> ('w, 'a) registry_step" where
  "on_fences m s = (case m (rg_fences s, fst (rg_disk s)) of
     (r, (fs, st)) \<Rightarrow> (r, s\<lparr>rg_fences := fs, rg_disk := (st, snd (rg_disk s))\<rparr>))"

definition on_pool :: "('w, 'a) pool_op \<Rightarrow> ('w, 'a) registry_step" where
  "on_pool m s = (case m (rg_pool s) of (r, p) \<Rightarrow> (r, s\<lparr>rg_pool := p\<rparr>))"

definition on_world :: "(exn, 'w, 'a) step \<Rightarrow> ('w, 'a) registry_step" where
  "on_world m = on_pool (\<lambda>p. case m (cp_world p) of (r, w) \<Rightarrow> (r, p\<lparr>cp_world := w\<rparr>))"

definition diagnose :: "string \<Rightarrow> ('w, unit) registry_step" where
  "diagnose code = smodify (\<lambda>s.
     let ds = rg_diagnostics s @ [code]
     in s\<lparr>rg_diagnostics := drop (length ds - MAX_ROUTING_DIAGNOSTICS) ds\<rparr>)"

section \<open>Owners of turns\<close>

text \<open>A turn that two tasks name belongs to none.\<close>

definition add_owner :: "nat \<Rightarrow> string option \<Rightarrow> (string \<times> nat option) list \<Rightarrow> (string \<times> nat option) list" where
  "add_owner i turn owners =
     (case turn of
        None \<Rightarrow> owners
      | Some t \<Rightarrow> AList.update t (if map_of owners t = None then Some i else None) owners)"

fun collect_owners ::
  "manager_env \<Rightarrow> store \<Rightarrow> (nat \<rightharpoonup> daemon_task) \<Rightarrow> (string \<times> nat) list \<Rightarrow> (string \<times> nat option) list \<Rightarrow>
   exn + (string \<times> nat option) list" where
  "collect_owners E st heap [] owners = Inr owners"
| "collect_owners E st heap ((sid, i) # index) owners =
     (case heap i of
        None \<Rightarrow> collect_owners E st heap index owners
      | Some t \<Rightarrow>
          if \<not> managed t then collect_owners E st heap index owners
          else
            ebind (load_manager_runtime E (dt_name t) st) (\<lambda>loaded.
            case loaded of
              None \<Rightarrow> collect_owners E st heap index owners
            | Some rt \<Rightarrow> collect_owners E st heap index
                (add_owner i (mv_managed_turn (mr_view rt)) (add_owner i (mr_pending_turn rt) owners))))"

definition document_owners :: "'w registry_env \<Rightarrow> 'w registry \<Rightarrow> exn + (string \<times> nat option) list" where
  "document_owners E s = collect_owners (re_manager E) (fst (rg_disk s)) (rg_heap s) (rg_index s) []"

definition refresh_turn_owners :: "'w registry_env \<Rightarrow> ('w, unit) registry_step" where
  "refresh_turn_owners E s =
     (case document_owners E s of
        Inl e \<Rightarrow> (Inl e, s)
      | Inr owners \<Rightarrow>
          if length owners > REGISTRY_CORRELATIONS
          then (Inl (DaemonServiceError ''app_server_correlation_capacity''), s)
          else (Inr (), s\<lparr>rg_owners := owners\<rparr>))"

definition turn_owner_of :: "'w registry \<Rightarrow> string \<Rightarrow> nat option" where
  "turn_owner_of s turn = Option.bind (map_of (rg_owners s) turn) id"

definition set_owner :: "string \<Rightarrow> nat \<Rightarrow> ('w, unit) registry_step" where
  "set_owner turn i = smodify (\<lambda>s. s\<lparr>rg_owners := AList.update turn (Some i) (rg_owners s)\<rparr>)"

section \<open>Started turns\<close>

type_synonym interrupt_order = "(string option \<times> string) option"

definition expire_pending_turn ::
  "'w registry_env \<Rightarrow> nat \<Rightarrow> daemon_task \<Rightarrow> path \<Rightarrow> string \<Rightarrow> ('w, nat option \<times> interrupt_order) registry_step" where
  "expire_pending_turn E i t p turn =
     sbind (on_docs (clear_pending_turn (re_manager E) p turn)) (\<lambda>cleared.
     if cleared
     then sbind (smodify (\<lambda>s. s\<lparr>rg_owners := AList.delete turn (rg_owners s)\<rparr>)) (\<lambda>_.
       sret (None, Some (Some (dt_session t), turn)))
     else sbind (refresh_turn_owners E) (\<lambda>_ s.
       case map_of (rg_owners s) turn of
         Some owner \<Rightarrow> (Inr (owner, None), s)
       | None \<Rightarrow> (Inr (None, Some (Some (dt_session t), turn)), s)))"

text \<open>A turn the task does not own yet: fenced, adopted, foreign, expired or accepted.\<close>

definition adopts :: "manager_runtime \<Rightarrow> bool" where
  "adopts rt \<longleftrightarrow> mv_enabled (mr_view rt) \<and> \<not> mv_goal_companion (mr_view rt) \<and>
     mv_handoff_requested (mr_view rt) \<and> mr_pending_turn rt = None \<and> \<not> mr_shutdown_requested rt"

definition claim_unowned ::
  "'w registry_env \<Rightarrow> nat \<Rightarrow> daemon_task \<Rightarrow> manager_runtime \<Rightarrow> string option \<Rightarrow> string \<Rightarrow>
   ('w, nat option \<times> interrupt_order) registry_step" where
  "claim_unowned E i t rt thread turn s =
     sbind (if fence_turn_id (rg_fences s) (dt_session t) = Some turn then sret True
            else if adopts rt
            then on_fences (adopt_started (re_fences E) (dt_session t) (mr_rollout rt) turn)
            else sret False) (\<lambda>mine.
     if mine then sbind (set_owner turn i) (\<lambda>_. sret (Some i, None))
     else if mr_pending_turn rt \<noteq> Some turn
     then sret (None, Some (Some (case thread of Some h \<Rightarrow> if h = [] then dt_session t else h
                                  | None \<Rightarrow> dt_session t), turn))
     else if (case mr_pending_timed_out_at rt of
                None \<Rightarrow> False | Some since \<Rightarrow> re_clock E - since > PENDING_GRACE_SECONDS)
     then expire_pending_turn E i t (mr_file rt) turn
     else
       sbind (on_docs (record_turn_started (re_manager E) (tk_fresh (re_tick E)) (tk_stamp (re_tick E))
         (mr_file rt) turn)) (\<lambda>_.
       sbind (set_owner turn i) (\<lambda>_. sret (Some i, None)))) s"

definition claim_started ::
  "'w registry_env \<Rightarrow> nat option \<Rightarrow> activity \<Rightarrow> ('w, nat option \<times> interrupt_order) registry_step" where
  "claim_started E task a s =
     (case ac_turn a of
        None \<Rightarrow> sbind (diagnose ''app_server_started_turn_missing'') (\<lambda>_. sret (None, None)) s
      | Some turn \<Rightarrow>
          (case Option.bind task (\<lambda>i. map_option (Pair i) (rg_heap s i)) of
             None \<Rightarrow> (Inr (None, Some (ac_thread a, turn)), s)
           | Some (i, t) \<Rightarrow>
               (case load_manager_runtime (re_manager E) (dt_name t) (fst (rg_disk s)) of
                  Inl e \<Rightarrow> (Inl e, s)
                | Inr None \<Rightarrow> (Inr (None, Some (ac_thread a, turn)), s)
                | Inr (Some rt) \<Rightarrow>
                    if mv_managed_turn (mr_view rt) = Some turn then (Inr (Some i, None), s)
                    else claim_unowned E i t rt (ac_thread a) turn s)))"

section \<open>Interrupts\<close>

datatype attempt_claim = ATTEMPT_DONE | ATTEMPT_WAIT | ATTEMPT_MINE

definition unexpired :: "real \<Rightarrow> (string \<times> real) list \<Rightarrow> (string \<times> real) list" where
  "unexpired now = filter (\<lambda>(turn, since). \<not> now - since > CORRELATION_EXPIRY_SECONDS)"

definition claim_interrupt_attempt :: "real \<Rightarrow> string \<Rightarrow> ('w, attempt_claim) registry_step" where
  "claim_interrupt_attempt now turn s =
     (let s1 = s\<lparr>rg_interrupted := unexpired now (rg_interrupted s)\<rparr>
      in if turn \<in> fst ` set (rg_interrupted s1) then (Inr ATTEMPT_DONE, s1)
         else if turn \<in> set (rg_attempts s1) then (Inr ATTEMPT_WAIT, s1)
         else if length (rg_interrupted s1) + length (rg_attempts s1) \<ge> REGISTRY_CORRELATIONS
         then (Inl (DaemonServiceError ''app_server_correlation_capacity''), s1)
         else (Inr ATTEMPT_MINE, s1\<lparr>rg_attempts := rg_attempts s1 @ [turn]\<rparr>))"

definition finish_interrupt_attempt :: "real \<Rightarrow> bool \<Rightarrow> string \<Rightarrow> 'w registry \<Rightarrow> 'w registry" where
  "finish_interrupt_attempt now succeeded turn s =
     (if turn \<in> set (rg_attempts s)
      then s\<lparr>rg_interrupted := (if succeeded then AList.update turn now (rg_interrupted s) else rg_interrupted s),
             rg_attempts := remove1 turn (rg_attempts s)\<rparr>
      else s)"

definition turn_interrupt_params :: "string option \<Rightarrow> string \<Rightarrow> dict" where
  "turn_interrupt_params thread turn =
     (''turnId'', JStr turn) # (case thread of None \<Rightarrow> [] | Some h \<Rightarrow> [(''threadId'', JStr h)])"

definition send_turn_interrupt :: "'w registry_env \<Rightarrow> string option \<Rightarrow> string \<Rightarrow> ('w, dict) registry_step" where
  "send_turn_interrupt E thread turn s =
     (case get_existing (rg_pool s) of
        None \<Rightarrow> (Inl (DaemonServiceError ''app_server_unavailable''), s)
      | Some c \<Rightarrow> on_world (ms_request (tc_server (re_clients E) c) ''turn/interrupt''
          (turn_interrupt_params thread turn) 10) s)"

text \<open>
  \<open>_interrupt_once\<close> until it returns, raises, or waits for the attempt of another thread (\<open>None\<close>).
\<close>

definition interrupt_once ::
  "'w registry_env \<Rightarrow> string option \<Rightarrow> string \<Rightarrow> ('w, nat option option) registry_step" where
  "interrupt_once E thread turn =
     sbind (refresh_turn_owners E) (\<lambda>_ s.
     case map_of (rg_owners s) turn of
       Some owner \<Rightarrow> (Inr (Some owner), s)
     | None \<Rightarrow>
         sbind (claim_interrupt_attempt (re_clock E) turn) (\<lambda>claim.
         case claim of
           ATTEMPT_DONE \<Rightarrow> sret (Some None)
         | ATTEMPT_WAIT \<Rightarrow> sret None
         | ATTEMPT_MINE \<Rightarrow> (\<lambda>s1.
             case send_turn_interrupt E thread turn s1 of
               (Inl e, s2) \<Rightarrow> (Inl e, finish_interrupt_attempt (re_later E) False turn s2)
             | (Inr _, s2) \<Rightarrow>
                 sbind (refresh_turn_owners E) (\<lambda>_ s3. (Inr (Some (turn_owner_of s3 turn)), s3))
                   (finish_interrupt_attempt (re_later E) True turn s2))) s)"

section \<open>Routing\<close>

definition route_activity ::
  "'w registry_env \<Rightarrow> activity \<Rightarrow> ('w, nat option \<times> interrupt_order) registry_step" where
  "route_activity E a s =
     (case (ac_thread a, ac_turn a) of
        (Some thread, _) \<Rightarrow>
          if ac_kind a = AppServerEvents.TURN_STARTED then claim_started E (map_of (rg_index s) thread) a s
          else (Inr (map_of (rg_index s) thread, None), s)
      | (None, Some turn) \<Rightarrow>
          if ac_kind a = AppServerEvents.TURN_STARTED then claim_started E (turn_owner_of s turn) a s
          else sbind (if turn_owner_of s turn = None then diagnose ''app_server_turn_unowned'' else sret ()) (\<lambda>_.
            sret (turn_owner_of s turn, None)) s
      | (None, None) \<Rightarrow>
          sbind (diagnose ''app_server_activity_identity_missing'') (\<lambda>_. sret (None, None)) s)"

definition task_tuple :: "nat option \<Rightarrow> nat list" where
  "task_tuple task = (case task of None \<Rightarrow> [] | Some i \<Rightarrow> [i])"

text \<open>\<open>selected\<close>; \<open>None\<close>: the call waits for the attempt of another thread.\<close>

definition selected :: "'w registry_env \<Rightarrow> activity \<Rightarrow> ('w, nat list option) registry_step" where
  "selected E a =
     sbind (refresh_turn_owners E) (\<lambda>_.
     sbind (route_activity E a) (\<lambda>(task, order).
     case order of
       None \<Rightarrow> sret (Some (task_tuple task))
     | Some (thread, turn) \<Rightarrow>
         sbind (interrupt_once E thread turn) (\<lambda>owner.
         sret (map_option (\<lambda>o'. if o' = None then task_tuple task else task_tuple o') owner))))"

section \<open>Lemmas: what a step leaves alone\<close>

text \<open>Only the fences, the documents, the owners and the diagnostics may differ.\<close>

definition routed_alike :: "'w registry \<Rightarrow> 'w registry \<Rightarrow> bool" where
  "routed_alike s s' \<longleftrightarrow> rg_pool s' = rg_pool s \<and> rg_index s' = rg_index s \<and> rg_heap s' = rg_heap s \<and>
     rg_interrupted s' = rg_interrupted s \<and> rg_attempts s' = rg_attempts s \<and> rg_leases s' = rg_leases s"

lemma routed_alike_refl [simp]: "routed_alike s s"
  by (simp add: routed_alike_def)

lemma alike_docs: "keeps (routed_alike s0) (on_docs m)"
  by (auto simp: keeps_def on_docs_def routed_alike_def split: prod.split)

lemma alike_fences: "keeps (routed_alike s0) (on_fences m)"
  by (auto simp: keeps_def on_fences_def routed_alike_def split: prod.split)

lemma alike_owners: "keeps (routed_alike s0) (set_owner turn i)"
    "keeps (routed_alike s0) (smodify (\<lambda>s. s\<lparr>rg_owners := f s\<rparr>))" "keeps (routed_alike s0) (diagnose code)"
  by (simp_all add: keeps_def set_owner_def diagnose_def smodify_def routed_alike_def Let_def)

lemma alike_refresh: "keeps (routed_alike s0) (refresh_turn_owners E)"
  by (auto simp: keeps_def refresh_turn_owners_def routed_alike_def split: sum.split)

lemmas alike_intros = keeps_sbind keeps_pure keeps_if alike_docs alike_fences alike_owners alike_refresh

lemma alike_expire: "keeps (routed_alike s0) (expire_pending_turn E i t p turn)"
  unfolding expire_pending_turn_def
  by (intro alike_intros) (auto simp: keeps_def split: option.split)

lemma sret_run [simp]: "sbind (sret x) f = f x" "sret x s = (Inr x, s)"
  by (simp_all add: sbind_def sret_def)

lemma keeps_here: "(\<And>s0. keeps P (m s0)) \<Longrightarrow> keeps P (\<lambda>s. m s s)"
  by (simp add: keeps_def)

lemma alike_claim_unowned: "keeps (routed_alike s0) (claim_unowned E i t rt thread turn)"
  unfolding claim_unowned_def by (rule keeps_here) (intro alike_intros alike_expire)

lemma alike_diagnosed:
  "keeps (routed_alike s0) (sbind (diagnose code) (\<lambda>_. sret (x :: nat option \<times> interrupt_order)))"
  by (intro alike_intros)

lemma alike_claim: "keeps (routed_alike s0) (claim_started E task a)"
  unfolding keeps_def
proof (intro allI impI)
  fix s :: "'a registry" assume "routed_alike s0 s"
  then show "routed_alike s0 (snd (claim_started E task a s))"
    using keepsD [OF alike_claim_unowned [of s0 E]] keepsD [OF alike_diagnosed [of s0]]
    by (simp add: claim_started_def split: option.split sum.split prod.split)
qed

lemma alike_route: "keeps (routed_alike s0) (route_activity E a)"
  unfolding keeps_def
proof (intro allI impI)
  fix s :: "'a registry" assume "routed_alike s0 s"
  then show "routed_alike s0 (snd (route_activity E a s))"
    using keepsD [OF alike_claim [of s0 E]] keepsD [OF alike_diagnosed [of s0]]
    by (simp add: route_activity_def split: option.split)
qed

lemma refresh_result:
  "fst (refresh_turn_owners E s) = Inr () \<longleftrightarrow>
     (\<exists>owners. document_owners E s = Inr owners \<and> length owners \<le> REGISTRY_CORRELATIONS)"
  "refresh_turn_owners E s = (Inr (), s') \<Longrightarrow>
     document_owners E s = Inr (rg_owners s') \<and> s' = s\<lparr>rg_owners := rg_owners s'\<rparr>"
  by (auto simp: refresh_turn_owners_def split: sum.splits if_splits)

lemma document_owners_cong:
  "fst (rg_disk s') = fst (rg_disk s) \<Longrightarrow> rg_heap s' = rg_heap s \<Longrightarrow> rg_index s' = rg_index s \<Longrightarrow>
   document_owners E s' = document_owners E s"
  by (simp add: document_owners_def)

lemma claim_attempt_cases:
  obtains (busy) r where "claim_interrupt_attempt now turn s = (r, s\<lparr>rg_interrupted := unexpired now (rg_interrupted s)\<rparr>)"
      "r \<noteq> Inr ATTEMPT_MINE"
  | (mine) "claim_interrupt_attempt now turn s = (Inr ATTEMPT_MINE, s\<lparr>rg_interrupted := unexpired now (rg_interrupted s),
        rg_attempts := rg_attempts s @ [turn]\<rparr>)"
      "turn \<notin> fst ` set (unexpired now (rg_interrupted s))" "turn \<notin> set (rg_attempts s)"
      "length (unexpired now (rg_interrupted s)) + length (rg_attempts s) < REGISTRY_CORRELATIONS"
proof -
  define u where "u = unexpired now (rg_interrupted s)"
  define s1 where "s1 = s\<lparr>rg_interrupted := u\<rparr>"
  have "claim_interrupt_attempt now turn s =
      (if turn \<in> fst ` set u then (Inr ATTEMPT_DONE, s1)
       else if turn \<in> set (rg_attempts s) then (Inr ATTEMPT_WAIT, s1)
       else if REGISTRY_CORRELATIONS \<le> length u + length (rg_attempts s)
       then (Inl (DaemonServiceError ''app_server_correlation_capacity''), s1)
       else (Inr ATTEMPT_MINE, s1\<lparr>rg_attempts := rg_attempts s @ [turn]\<rparr>))"
    by (simp add: claim_interrupt_attempt_def Let_def u_def s1_def)
  then show thesis
    using busy [folded u_def, folded s1_def] mine [folded u_def, folded s1_def]
    by (simp add: s1_def not_le split: if_splits)
qed

definition interrupt_request :: "'w registry_env \<Rightarrow> nat \<Rightarrow> string option \<Rightarrow> string \<Rightarrow> (exn, 'w, dict) step" where
  "interrupt_request E c thread turn =
     ms_request (tc_server (re_clients E) c) ''turn/interrupt'' (turn_interrupt_params thread turn) 10"

text \<open>The three ways of \<open>interrupt_once\<close>: no request, a failed one, a successful one.\<close>

lemma interrupt_once_cases:
  assumes "interrupt_once E thread turn s = (r, s')"
  obtains (quiet) "rg_pool s' = rg_pool s" "rg_attempts s' = rg_attempts s"
      "rg_interrupted s' = rg_interrupted s \<or> rg_interrupted s' = unexpired (re_clock E) (rg_interrupted s)"
      "fst (rg_disk s') = fst (rg_disk s)" "rg_heap s' = rg_heap s" "rg_index s' = rg_index s"
      "rg_diagnostics s' = rg_diagnostics s" "rg_fences s' = rg_fences s"
  | (sent) c owners res w where "get_existing (rg_pool s) = Some c" "document_owners E s = Inr owners"
      "map_of owners turn = None" "turn \<notin> fst ` set (unexpired (re_clock E) (rg_interrupted s))"
      "turn \<notin> set (rg_attempts s)"
      "length (unexpired (re_clock E) (rg_interrupted s)) + length (rg_attempts s) < REGISTRY_CORRELATIONS"
      "interrupt_request E c thread turn (cp_world (rg_pool s)) = (res, w)"
      "rg_pool s' = (rg_pool s)\<lparr>cp_world := w\<rparr>" "rg_attempts s' = rg_attempts s"
      "rg_interrupted s' = (if res \<in> range Inr
         then AList.update turn (re_later E) (unexpired (re_clock E) (rg_interrupted s))
         else unexpired (re_clock E) (rg_interrupted s))"
      "r \<in> range Inr \<longrightarrow> res \<in> range Inr"
      "fst (rg_disk s') = fst (rg_disk s)" "rg_heap s' = rg_heap s" "rg_index s' = rg_index s"
      "rg_diagnostics s' = rg_diagnostics s" "rg_fences s' = rg_fences s"
proof -
  obtain r0 s0 where s0: "refresh_turn_owners E s = (r0, s0)" by fastforce
  show thesis
  proof (cases r0)
    case (Inl e)
    with s0 have "s0 = s" by (auto simp: refresh_turn_owners_def split: sum.splits if_splits)
    with Inl s0 assms have "s' = s" by (simp add: interrupt_once_def sbind_def)
    then show thesis by (intro quiet) simp_all
  next
    case (Inr u)
    define owners where "owners = rg_owners s0"
    have docs: "document_owners E s = Inr owners" and s0': "s0 = s\<lparr>rg_owners := owners\<rparr>"
      using refresh_result(2) [of E s s0] s0 Inr by (simp_all add: owners_def)
    let ?now = "re_clock E" and ?later = "re_later E"
    define live where "live = unexpired ?now (rg_interrupted s)"
    define s1 where "s1 = s0\<lparr>rg_interrupted := live\<rparr>"
    define rest where "rest = (\<lambda>claim. case claim of
        ATTEMPT_DONE \<Rightarrow> sret (Some None)
      | ATTEMPT_WAIT \<Rightarrow> sret None
      | ATTEMPT_MINE \<Rightarrow> (\<lambda>s1. case send_turn_interrupt E thread turn s1 of
            (Inl e, s2) \<Rightarrow> (Inl e, finish_interrupt_attempt ?later False turn s2)
          | (Inr _, s2) \<Rightarrow> sbind (refresh_turn_owners E) (\<lambda>_ s3. (Inr (Some (turn_owner_of s3 turn)), s3))
              (finish_interrupt_attempt ?later True turn s2)))"
    have eq: "(r, s') = (case map_of owners turn of Some owner \<Rightarrow> (Inr (Some owner), s0)
        | None \<Rightarrow> sbind (claim_interrupt_attempt ?now turn) rest s0)"
      using assms s0 Inr by (simp add: interrupt_once_def sbind_def owners_def rest_def split: option.splits)
    show thesis
    proof (cases "map_of owners turn")
      case (Some owner)
      with eq s0' show thesis by (intro quiet) simp_all
    next
      case none: None
      show thesis
      proof (cases rule: claim_attempt_cases [of ?now turn s0])
        case (busy r1)
        then have "s' = s1" using eq none s0'
          by (cases r1) (auto simp: sbind_def rest_def s1_def live_def split: attempt_claim.splits)
        with s0' show thesis by (intro quiet) (simp_all add: s1_def live_def)
      next
        case mine
        define s2 where "s2 = s1\<lparr>rg_attempts := rg_attempts s @ [turn]\<rparr>"
        have fresh: "turn \<notin> set (rg_attempts s)" using mine(3) s0' by simp
        have run: "(r, s') = rest ATTEMPT_MINE s2"
          using eq none mine(1) s0' by (simp add: sbind_def s2_def s1_def live_def)
        show thesis
        proof (cases "get_existing (rg_pool s)")
          case None
          then have "s' = finish_interrupt_attempt ?later False turn s2"
            using run s0' by (simp add: rest_def send_turn_interrupt_def s2_def s1_def)
          then show thesis using fresh s0'
            by (intro quiet) (simp_all add: finish_interrupt_attempt_def s2_def s1_def live_def remove1_append)
        next
          case (Some c)
          obtain res w where res: "interrupt_request E c thread turn (cp_world (rg_pool s)) = (res, w)" by fastforce
          define s3 where "s3 = s2\<lparr>rg_pool := (rg_pool s)\<lparr>cp_world := w\<rparr>\<rparr>"
          have "send_turn_interrupt E thread turn s2 = (res, s3)"
            using Some res s0' by (simp add: send_turn_interrupt_def interrupt_request_def on_world_def on_pool_def
                s3_def s2_def s1_def)
          moreover define s4 where "s4 = finish_interrupt_attempt ?later (res \<in> range Inr) turn s3"
          ultimately have last: "\<exists>os. s' = s4\<lparr>rg_owners := os\<rparr>" and ok: "r \<in> range Inr \<longrightarrow> res \<in> range Inr"
          proof -
            have id: "\<exists>os. s4 = s4\<lparr>rg_owners := os\<rparr>" by (rule exI [of _ "rg_owners s4"]) simp
            show "\<exists>os. s' = s4\<lparr>rg_owners := os\<rparr>"
            proof (cases res)
              case (Inl e)
              then have "res \<notin> range Inr" by auto
              then have "s4 = finish_interrupt_attempt ?later False turn s3" by (simp add: s4_def)
              with Inl run \<open>send_turn_interrupt E thread turn s2 = (res, s3)\<close> id show ?thesis by (simp add: rest_def)
            next
              case (Inr x)
              then have "res \<in> range Inr" by blast
              then have "s4 = finish_interrupt_attempt ?later True turn s3" by (simp add: s4_def)
              with Inr run \<open>send_turn_interrupt E thread turn s2 = (res, s3)\<close> id show ?thesis
                by (auto simp: rest_def sbind_def refresh_turn_owners_def split: sum.splits if_splits)
            qed
            show "r \<in> range Inr \<longrightarrow> res \<in> range Inr"
              using run \<open>send_turn_interrupt E thread turn s2 = (res, s3)\<close> by (cases res) (auto simp: rest_def)
          qed
          have s4: "s4 = s3\<lparr>rg_interrupted := (if res \<in> range Inr then AList.update turn ?later live else live),
              rg_attempts := rg_attempts s\<rparr>"
            using fresh by (simp add: s4_def finish_interrupt_attempt_def s3_def s2_def s1_def remove1_append)
          from last obtain os where "s' = s4\<lparr>rg_owners := os\<rparr>" ..
          then show thesis using mine(2-4) s0' ok
            by (intro sent [OF Some docs none _ _ _ res])
              (simp_all add: s4 s3_def s2_def s1_def live_def)
        qed
      qed
    qed
  qed
qed

text \<open>An interrupt is ordered for a started turn only, and not for the turn the fence of its session names.\<close>

lemma expire_order:
  "expire_pending_turn E i t p turn s = (Inr (task, Some (thread, turn')), s') \<Longrightarrow> turn' = turn \<and> task = None"
  by (auto simp: expire_pending_turn_def sbind_def sret_def split: prod.splits sum.splits if_splits option.splits)

lemma claim_unowned_order:
  assumes "claim_unowned E i t rt thread turn s = (Inr (task, Some (h, turn')), s')"
  shows "turn' = turn \<and> task = None \<and> fence_turn_id (rg_fences s) (dt_session t) \<noteq> Some turn"
  using assms
  by (auto simp: claim_unowned_def sbind_def sret_def set_owner_def smodify_def dest: expire_order
      split: prod.splits sum.splits if_splits)

lemma claim_started_order:
  assumes "claim_started E task a s = (Inr (task', Some (h, turn)), s')"
  shows "ac_turn a = Some turn \<and> task' = None \<and>
    (\<forall>i t rt. task = Some i \<longrightarrow> rg_heap s i = Some t \<longrightarrow>
       load_manager_runtime (re_manager E) (dt_name t) (fst (rg_disk s)) = Inr (Some rt) \<longrightarrow>
       fence_turn_id (rg_fences s) (dt_session t) \<noteq> Some turn)"
proof (cases "ac_turn a")
  case None
  with assms show ?thesis by (simp add: claim_started_def sbind_def diagnose_def smodify_def)
next
  case (Some u)
  with assms show ?thesis
    by (auto simp: claim_started_def dest!: claim_unowned_order
        split: option.splits sum.splits if_splits Option.bind_splits)
qed

lemma route_order:
  assumes "route_activity E a s = (Inr (task, Some (h, turn)), s')"
  shows "ac_kind a = AppServerEvents.TURN_STARTED \<and> ac_turn a = Some turn \<and> task = None \<and>
    (\<forall>thread i t rt. ac_thread a = Some thread \<longrightarrow> map_of (rg_index s) thread = Some i \<longrightarrow> rg_heap s i = Some t \<longrightarrow>
       load_manager_runtime (re_manager E) (dt_name t) (fst (rg_disk s)) = Inr (Some rt) \<longrightarrow>
       fence_turn_id (rg_fences s) (dt_session t) \<noteq> Some turn)"
proof (cases "ac_thread a")
  case None
  with assms show ?thesis
    by (auto simp: route_activity_def sbind_def sret_def diagnose_def smodify_def dest!: claim_started_order
        split: option.splits if_splits)
next
  case (Some thread)
  with assms have "ac_kind a = AppServerEvents.TURN_STARTED"
    "claim_started E (map_of (rg_index s) thread) a s = (Inr (task, Some (h, turn)), s')"
    by (auto simp: route_activity_def split: if_splits)
  with claim_started_order [OF this(2)] Some show ?thesis by simp
qed

lemma selected_cases:
  assumes "selected E a s = (r, s')"
  obtains (quiet) "rg_pool s' = rg_pool s" "rg_attempts s' = rg_attempts s"
      "rg_interrupted s' = rg_interrupted s \<or> rg_interrupted s' = unexpired (re_clock E) (rg_interrupted s)"
  | (sent) thread turn c owners res w where "ac_kind a = AppServerEvents.TURN_STARTED" "ac_turn a = Some turn"
      "\<And>h i t rt. ac_thread a = Some h \<Longrightarrow> map_of (rg_index s) h = Some i \<Longrightarrow> rg_heap s i = Some t \<Longrightarrow>
         load_manager_runtime (re_manager E) (dt_name t) (fst (rg_disk s)) = Inr (Some rt) \<Longrightarrow>
         fence_turn_id (rg_fences s) (dt_session t) \<noteq> Some turn"
      "get_existing (rg_pool s) = Some c" "document_owners E s' = Inr owners" "map_of owners turn = None"
      "turn \<notin> fst ` set (unexpired (re_clock E) (rg_interrupted s))" "turn \<notin> set (rg_attempts s)"
      "length (unexpired (re_clock E) (rg_interrupted s)) + length (rg_attempts s) < REGISTRY_CORRELATIONS"
      "interrupt_request E c thread turn (cp_world (rg_pool s)) = (res, w)"
      "rg_pool s' = (rg_pool s)\<lparr>cp_world := w\<rparr>" "rg_attempts s' = rg_attempts s"
      "rg_interrupted s' = (if res \<in> range Inr
         then AList.update turn (re_later E) (unexpired (re_clock E) (rg_interrupted s))
         else unexpired (re_clock E) (rg_interrupted s))"
      "r \<in> range Inr \<longrightarrow> res \<in> range Inr"
proof -
  obtain r0 s0 where s0: "refresh_turn_owners E s = (r0, s0)" by fastforce
  obtain r1 s1 where s1: "route_activity E a s0 = (r1, s1)" by fastforce
  have a0: "routed_alike s s0" using keepsD [OF alike_refresh [of s E], of s] s0 by simp
  then have a1: "routed_alike s s1" using keepsD [OF alike_route [of s E a], of s0] s1 by simp
  have quiet': thesis if "s' = s0 \<or> s' = s1"
    using that a0 a1 by (intro quiet) (auto simp: routed_alike_def)
  show thesis
  proof (cases "\<exists>thread turn task. r0 = Inr () \<and> r1 = Inr (task, Some (thread, turn))")
    case False
    then have "s' = s0 \<or> s' = s1"
      using assms s0 s1 by (auto simp: selected_def sbind_def split: sum.splits option.splits)
    then show thesis by (rule quiet')
  next
    case True
    then obtain thread turn task where order: "r0 = Inr ()" "r1 = Inr (task, Some (thread, turn))" by blast
    have same: "rg_fences s0 = rg_fences s" "rg_disk s0 = rg_disk s"
      using s0 by (auto simp: refresh_turn_owners_def split: sum.splits if_splits)
    have facts: "ac_kind a = AppServerEvents.TURN_STARTED" "ac_turn a = Some turn"
      "\<And>h i t rt. ac_thread a = Some h \<Longrightarrow> map_of (rg_index s) h = Some i \<Longrightarrow> rg_heap s i = Some t \<Longrightarrow>
         load_manager_runtime (re_manager E) (dt_name t) (fst (rg_disk s)) = Inr (Some rt) \<Longrightarrow>
         fence_turn_id (rg_fences s) (dt_session t) \<noteq> Some turn"
      using route_order [of E a s0 task thread turn s1] s1 order a0 same by (auto simp: routed_alike_def)
    obtain r2 where s2: "interrupt_once E thread turn s1 = (r2, s')" and r2: "r \<in> range Inr \<longrightarrow> r2 \<in> range Inr"
      using assms s0 s1 order by (cases "interrupt_once E thread turn s1")
        (auto simp: selected_def sbind_def split: sum.splits)
    show thesis
    proof (cases rule: interrupt_once_cases [OF s2])
      case 1
      then show thesis using a1 by (intro quiet) (auto simp: routed_alike_def)
    next
      case (2 c owners res w)
      have "document_owners E s' = Inr owners"
        using 2 document_owners_cong [of s' s1 E] by simp
      then show thesis
        using 2 a1 r2 facts
        by (intro sent [where turn = turn and c = c and owners = owners and thread = thread and res = res and w = w])
          (auto simp: routed_alike_def)
    qed
  qed
qed

section \<open>Properties\<close>

text \<open>
  C35: routing talks to the app server only to interrupt the turn whose start is announced, with at
  most one request, and only when no document names the turn as owned or accepted (read again just
  before), the fence of its session does not wait for it, and no interrupt of it is under way or has
  succeeded within the expiry time.
\<close>

theorem only_unowned_turns_interrupted:
  assumes "selected E a s = (r, s')" and "rg_pool s' \<noteq> rg_pool s"
  shows "\<exists>thread turn c owners. ac_kind a = AppServerEvents.TURN_STARTED \<and> ac_turn a = Some turn \<and>
    document_owners E s' = Inr owners \<and> map_of owners turn = None \<and>
    (\<forall>h i t rt. ac_thread a = Some h \<and> map_of (rg_index s) h = Some i \<and> rg_heap s i = Some t \<and>
       load_manager_runtime (re_manager E) (dt_name t) (fst (rg_disk s)) = Inr (Some rt) \<longrightarrow>
       fence_turn_id (rg_fences s) (dt_session t) \<noteq> Some turn) \<and>
    turn \<notin> set (rg_attempts s) \<and> turn \<notin> fst ` set (unexpired (re_clock E) (rg_interrupted s)) \<and>
    get_existing (rg_pool s) = Some c \<and>
    rg_pool s' = (rg_pool s)\<lparr>cp_world := snd (interrupt_request E c thread turn (cp_world (rg_pool s)))\<rparr>"
proof (cases rule: selected_cases [OF assms(1)])
  case 1
  with assms(2) show ?thesis by simp
next
  case (2 thread turn c owners res w)
  then show ?thesis
    by (intro exI [of _ thread] exI [of _ turn] exI [of _ c] exI [of _ owners]) auto
qed

fun run_selected :: "('w registry_env \<times> activity) list \<Rightarrow> 'w registry \<Rightarrow> 'w registry" where
  "run_selected [] s = s"
| "run_selected ((E, a) # cs) s = run_selected cs (snd (selected E a s))"

lemma unexpired_keeps:
  "map_of xs turn = Some since \<Longrightarrow> \<not> now - since > CORRELATION_EXPIRY_SECONDS \<Longrightarrow>
   map_of (unexpired now xs) turn = Some since"
  by (induction xs) (auto simp: unexpired_def split: if_splits)

lemma selected_remembers:
  assumes "map_of (rg_interrupted s) turn = Some since" and "\<not> re_clock E - since > CORRELATION_EXPIRY_SECONDS"
  shows "map_of (rg_interrupted (snd (selected E a s))) turn = Some since"
proof -
  obtain r s' where s': "selected E a s = (r, s')" by fastforce
  note kept = unexpired_keeps [OF assms]
  have "map_of (rg_interrupted s') turn = Some since"
  proof (cases rule: selected_cases [OF s'])
    case 1
    then show ?thesis using assms(1) kept by auto
  next
    case (2 thread turn' c owners res w)
    have "turn' \<noteq> turn"
    proof
      assume "turn' = turn"
      with map_of_SomeD [OF kept] have "turn' \<in> fst ` set (unexpired (re_clock E) (rg_interrupted s))" by force
      with 2(7) show False by blast
    qed
    then have "map_of (AList.update turn' (re_later E) (unexpired (re_clock E) (rg_interrupted s))) turn = Some since"
      using kept by (simp add: update_conv')
    with kept show ?thesis by (simp add: 2(13))
  qed
  with s' show ?thesis by simp
qed

lemma run_selected_remembers:
  assumes "map_of (rg_interrupted s) turn = Some since"
    and "\<forall>(E, a) \<in> set cs. re_clock E - since \<le> CORRELATION_EXPIRY_SECONDS"
  shows "map_of (rg_interrupted (run_selected cs s)) turn = Some since"
  using assms
proof (induction cs arbitrary: s)
  case (Cons ea cs)
  obtain E a where ea: "ea = (E, a)" by fastforce
  have live: "\<not> re_clock E - since > CORRELATION_EXPIRY_SECONDS"
    and rest: "\<forall>(E, a) \<in> set cs. re_clock E - since \<le> CORRELATION_EXPIRY_SECONDS"
    using Cons.prems(2) ea by simp_all
  show ?case
    using Cons.IH [OF selected_remembers [OF Cons.prems(1) live] rest] by (simp add: ea)
qed simp

text \<open>
  A turn that was interrupted successfully is not interrupted again while the memory of it lasts,
  whatever activity arrives in between.
\<close>

theorem turn_interrupted_once:
  assumes "selected E a s = (Inr r, s1)" and "rg_pool s1 \<noteq> rg_pool s"
    and "\<forall>(E', a') \<in> set cs. re_clock E' - re_later E \<le> CORRELATION_EXPIRY_SECONDS"
    and "ac_turn a' = ac_turn a" and "re_clock E' - re_later E \<le> CORRELATION_EXPIRY_SECONDS"
  shows "rg_pool (snd (selected E' a' (run_selected cs s1))) = rg_pool (run_selected cs s1)"
proof -
  obtain r' s' where s': "selected E' a' (run_selected cs s1) = (r', s')" by fastforce
  show ?thesis
  proof (cases rule: selected_cases [OF assms(1)])
    case 1
    with assms(2) show ?thesis by simp
  next
    case (2 thread turn c owners res w)
    then have "map_of (rg_interrupted s1) turn = Some (re_later E)" by auto
    then have m: "map_of (rg_interrupted (run_selected cs s1)) turn = Some (re_later E)"
      by (rule run_selected_remembers) (use assms(3) in auto)
    have "map_of (unexpired (re_clock E') (rg_interrupted (run_selected cs s1))) turn = Some (re_later E)"
      by (rule unexpired_keeps [OF m]) (use assms(5) in simp)
    then have again: "turn \<in> fst ` set (unexpired (re_clock E') (rg_interrupted (run_selected cs s1)))"
      by (force dest: map_of_SomeD)
    show ?thesis
      using s' by (cases rule: selected_cases [OF s']) (use again 2(2) assms(4) in auto)
  qed
qed

text \<open>
  The memory of the routing is bounded: at most 2048 turns are remembered or being interrupted and
  at most 20 diagnostics are kept, whatever activity arrives.
\<close>

definition routing_bounded :: "'w registry \<Rightarrow> bool" where
  "routing_bounded s \<longleftrightarrow> length (rg_interrupted s) + length (rg_attempts s) \<le> REGISTRY_CORRELATIONS \<and>
     length (rg_diagnostics s) \<le> MAX_ROUTING_DIAGNOSTICS"

lemma bounded_diagnostics:
  fixes s :: "'w registry"
  assumes "length (rg_diagnostics s) \<le> MAX_ROUTING_DIAGNOSTICS"
  shows "length (rg_diagnostics (snd (selected E a s))) \<le> MAX_ROUTING_DIAGNOSTICS"
proof -
  let ?P = "\<lambda>s :: 'w registry. length (rg_diagnostics s) \<le> MAX_ROUTING_DIAGNOSTICS"
  have docs: "keeps ?P (on_docs m)" for m :: "(exn, store, 'b) step"
    by (auto simp: keeps_def on_docs_def split: prod.split)
  have fences: "keeps ?P (on_fences m)" for m :: "bool fence_step"
    by (auto simp: keeps_def on_fences_def split: prod.split)
  have owners: "keeps ?P (set_owner turn i)" "keeps ?P (smodify (\<lambda>s. s\<lparr>rg_owners := f s\<rparr>))"
    "keeps ?P (refresh_turn_owners E)" for turn i f
    by (auto simp: keeps_def set_owner_def smodify_def refresh_turn_owners_def split: sum.split)
  have diag: "keeps ?P (diagnose code)" for code
    by (auto simp: keeps_def diagnose_def smodify_def Let_def MAX_ROUTING_DIAGNOSTICS_def)
  note intros = keeps_sbind keeps_pure keeps_if docs fences owners diag
  have expire: "keeps ?P (expire_pending_turn E i t p turn)" for i t p turn
    unfolding expire_pending_turn_def by (intro intros) (auto simp: keeps_def split: option.split)
  have unowned: "keeps ?P (claim_unowned E i t rt thread turn)" for i t rt thread turn
    unfolding claim_unowned_def by (rule keeps_here) (intro intros expire)
  have diagnosed: "keeps ?P (sbind (diagnose code) (\<lambda>_. sret (x :: nat option \<times> interrupt_order)))" for code x
    by (intro intros)
  have started: "keeps ?P (claim_started E task a)" for task
    unfolding keeps_def
    using keepsD [OF unowned] keepsD [OF diagnosed]
    by (auto simp: claim_started_def split: option.split sum.split prod.split)
  have route: "keeps ?P (route_activity E a)"
    unfolding keeps_def
    using keepsD [OF started] keepsD [OF diagnosed]
    by (auto simp: route_activity_def split: option.split)
  have once: "keeps ?P (interrupt_once E thread turn)" for thread turn
    unfolding keeps_def
  proof (intro allI impI)
    fix s :: "'w registry" assume ok: "?P s"
    obtain r s' where run: "interrupt_once E thread turn s = (r, s')" by fastforce
    show "?P (snd (interrupt_once E thread turn s))"
      by (cases rule: interrupt_once_cases [OF run]) (use ok run in simp_all)
  qed
  have "keeps ?P (selected E a)"
    unfolding selected_def by (intro intros route) (auto split: prod.split option.split intro!: intros once)
  then show ?thesis using assms by (rule keepsD)
qed

lemma bounded_step: "routing_bounded s \<Longrightarrow> routing_bounded (snd (selected E a s))"
proof -
  assume ok: "routing_bounded s"
  obtain r s' where s': "selected E a s = (r, s')" by fastforce
  have u: "length (unexpired now xs) \<le> length xs" for now xs by (simp add: unexpired_def)
  have up: "length (AList.update k v xs) \<le> length xs + 1" for k :: string and v :: real and xs
    by (induction xs) auto
  have "length (rg_interrupted s') + length (rg_attempts s') \<le> REGISTRY_CORRELATIONS"
  proof (cases rule: selected_cases [OF s'])
    case 1
    then show ?thesis
      using ok u [of "re_clock E" "rg_interrupted s"] by (auto simp: routing_bounded_def)
  next
    case (2 thread turn c owners res w)
    then show ?thesis
      using ok u [of "re_clock E" "rg_interrupted s"] up [of turn "re_later E" "unexpired (re_clock E) (rg_interrupted s)"]
      by (auto simp: routing_bounded_def)
  qed
  then show ?thesis using bounded_diagnostics [of s E a] ok s' by (simp add: routing_bounded_def)
qed

theorem routing_memory_bounded: "routing_bounded s \<Longrightarrow> routing_bounded (run_selected cs s)"
  by (induction cs s rule: run_selected.induct) (simp_all add: bounded_step)

text \<open>A server that answers every request and lists them.\<close>

definition ex_listing_server :: "(string \<times> dict) list managed_server" where
  "ex_listing_server = \<lparr>ms_pending = sret None, ms_start = sret (),
     ms_request = (\<lambda>meth params _ w. (Inr [], w @ [(meth, params)])), ms_active = (\<lambda>_. sret None),
     ms_completed = (\<lambda>_. sret False), ms_outcome = (\<lambda>_. sret None), ms_latest = (\<lambda>_. sret None),
     ms_wait_started = (\<lambda>_ _. sret False), ms_wait_completed = (\<lambda>_. sret False),
     ms_wait_next = (\<lambda>_ _. sret None)\<rparr>"

definition ex_registry_env :: "real \<Rightarrow> (string \<times> dict) list registry_env" where
  "ex_registry_env now = \<lparr>re_clients = \<lparr>tc_ops = \<lparr>co_create = (\<lambda>_. sret 0), co_close = (\<lambda>_. sret ())\<rparr>,
     tc_server = (\<lambda>_. ex_listing_server)\<rparr>, re_tick = ex_tick, re_root = Inr (), re_clock = now, re_later = now\<rparr>"

definition ex_registry :: "(string \<times> dict) list registry" where
  "ex_registry = (new_registry [] (Map.empty, \<lparr>log_current = None, log_1 = None, log_2 = None\<rparr>) ex_no_leases)
     \<lparr>rg_pool := (new_pool [])\<lparr>cp_pooled := Some (0, ''f'')\<rparr>\<rparr>"

definition ex_announced :: activity where
  "ex_announced = \<lparr>ac_kind = AppServerEvents.TURN_STARTED, ac_thread = Some ''h'', ac_turn = Some ''t'', ac_outcome = None\<rparr>"

lemmas ex_registry_defs = ex_registry_def ex_registry_env_def ex_announced_def ex_listing_server_def new_registry_def new_pool_def

lemma ex_announced_interrupts:
  "\<exists>s'. selected (ex_registry_env 0) ex_announced ex_registry = (Inr (Some []), s') \<and>
     rg_pool s' = (rg_pool ex_registry)\<lparr>cp_world := [(''turn/interrupt'', turn_interrupt_params (Some ''h'') ''t'')]\<rparr>"
  by (simp add: ex_registry_defs selected_def sbind_def sret_def refresh_turn_owners_def document_owners_def
      route_activity_def claim_started_def interrupt_once_def claim_interrupt_attempt_def Let_def
      unexpired_def send_turn_interrupt_def get_existing_def on_world_def on_pool_def
      finish_interrupt_attempt_def turn_owner_of_def task_tuple_def REGISTRY_CORRELATIONS_def)

theorem only_unowned_turns_interrupted_witness:
  "\<exists>s'. selected (ex_registry_env 0) ex_announced ex_registry = (Inr (Some []), s') \<and>
     (\<exists>turn owners. ac_turn ex_announced = Some turn \<and> document_owners (ex_registry_env 0) s' = Inr owners \<and>
        map_of owners turn = None)"
proof -
  obtain s' where s': "selected (ex_registry_env 0) ex_announced ex_registry = (Inr (Some []), s')"
      "rg_pool s' = (rg_pool ex_registry)\<lparr>cp_world := [(''turn/interrupt'', turn_interrupt_params (Some ''h'') ''t'')]\<rparr>"
    using ex_announced_interrupts by blast
  then have "rg_pool s' \<noteq> rg_pool ex_registry" by (simp add: ex_registry_defs)
  from only_unowned_turns_interrupted [OF s'(1) this] s'(1) show ?thesis by blast
qed

theorem turn_interrupted_once_witness:
  "\<exists>s1. selected (ex_registry_env 0) ex_announced ex_registry = (Inr (Some []), s1) \<and>
     cp_world (rg_pool s1) = [(''turn/interrupt'', turn_interrupt_params (Some ''h'') ''t'')] \<and>
     rg_pool (snd (selected (ex_registry_env 600) ex_announced
       (run_selected [(ex_registry_env 300, ex_announced)] s1))) =
     rg_pool (run_selected [(ex_registry_env 300, ex_announced)] s1)"
proof -
  obtain s1 where s1: "selected (ex_registry_env 0) ex_announced ex_registry = (Inr (Some []), s1)"
      "rg_pool s1 = (rg_pool ex_registry)\<lparr>cp_world := [(''turn/interrupt'', turn_interrupt_params (Some ''h'') ''t'')]\<rparr>"
    using ex_announced_interrupts by blast
  then have "rg_pool s1 \<noteq> rg_pool ex_registry" by (simp add: ex_registry_defs)
  note once = turn_interrupted_once [OF s1(1) this, of "[(ex_registry_env 300, ex_announced)]" ex_announced "ex_registry_env 600"]
  have "rg_pool (snd (selected (ex_registry_env 600) ex_announced
       (run_selected [(ex_registry_env 300, ex_announced)] s1))) =
     rg_pool (run_selected [(ex_registry_env 300, ex_announced)] s1)"
    by (rule once) (simp_all add: ex_registry_env_def CORRELATION_EXPIRY_SECONDS_def)
  with s1 show ?thesis by simp
qed

theorem routing_memory_bounded_witness:
  "routing_bounded (run_selected [(ex_registry_env 0, ex_announced), (ex_registry_env 300, ex_announced)] ex_registry)"
  by (rule routing_memory_bounded) (simp add: routing_bounded_def ex_registry_defs)

end
