(* ===== verification/TomlHeaders.thy ===== *)
theory TomlHeaders
  imports SessionIdentity
begin

text \<open>
  \<open>scripts/toml_lexical_headers.py\<close>: the table headers of a TOML text, found by one forward scan that
  does not enter strings or comments. The loader \<open>tomllib.loads\<close>, which decides whether a header line
  is well formed, is the parameter \<open>valid\<close>.
\<close>

section \<open>The scanner\<close>

datatype header_kind = TABLE | ARRAY_TABLE

datatype lex_state = NORMAL | COMMENT | BASIC | LITERAL | MULTILINE_BASIC | MULTILINE_LITERAL

record toml_header =
  th_text :: string
  th_start :: nat
  th_body :: nat
  th_kind :: header_kind

record scanner =
  sn_headers :: "toml_header list"
  sn_state :: lex_state
  sn_line :: nat
  sn_fresh :: bool

abbreviation NL :: char where "NL \<equiv> CHR 0x0A"

abbreviation quotation :: char where "quotation \<equiv> CHR 0x22"

abbreviation apostrophe :: char where "apostrophe \<equiv> CHR 0x27"

abbreviation backslash :: char where "backslash \<equiv> CHR 0x5C"

definition blank_char :: "char \<Rightarrow> bool" where
  "blank_char c \<longleftrightarrow> c = CHR '' '' \<or> c = CHR 0x09"

definition new_scanner :: scanner where
  "new_scanner = \<lparr>sn_headers = [], sn_state = NORMAL, sn_line = 0, sn_fresh = True\<rparr>"

definition quote_run :: "string \<Rightarrow> nat \<Rightarrow> char \<Rightarrow> nat" where
  "quote_run src i q = length (takeWhile ((=) q) (drop i src))"

text \<open>The end of the line of \<open>i\<close>, with its newline.\<close>

definition line_end :: "string \<Rightarrow> nat \<Rightarrow> nat" where
  "line_end src i =
     (let j = i + length (takeWhile ((\<noteq>) NL) (drop i src)) in if j < length src then j + 1 else length src)"

text \<open>What follows the closing bracket of a header, if there is one outside its quoted keys.\<close>

fun header_suffix :: "bool \<Rightarrow> string \<Rightarrow> char option \<Rightarrow> bool \<Rightarrow> string option" where
  "header_suffix array [] inside escaped = None"
| "header_suffix array (c # cs) (Some q) escaped =
     (if q = quotation \<and> c = backslash \<and> \<not> escaped then header_suffix array cs (Some q) True
      else if c = q \<and> \<not> escaped then header_suffix array cs None escaped
      else header_suffix array cs (Some q) False)"
| "header_suffix array (c # cs) None escaped =
     (if c = quotation \<or> c = apostrophe then header_suffix array cs (Some c) escaped
      else if array \<and> prefix '']]'' (c # cs) then Some (tl cs)
      else if \<not> array \<and> c = CHR '']'' then Some cs
      else header_suffix array cs None escaped)"

definition header_kind_of :: "(string \<Rightarrow> bool) \<Rightarrow> string \<Rightarrow> header_kind option" where
  "header_kind_of valid txt =
     (let array = prefix ''[['' txt
      in case header_suffix array (drop (if array then 2 else 1) txt) None False of
           None \<Rightarrow> None
         | Some rest \<Rightarrow>
             let s = dropWhile py_space rest
             in if (s = [] \<or> hd s = CHR ''#'') \<and> valid txt
                then Some (if array then ARRAY_TABLE else TABLE) else None)"

definition on_newline :: "nat \<Rightarrow> scanner \<Rightarrow> scanner" where
  "on_newline i sc = sc\<lparr>sn_line := i + 1, sn_fresh := True\<rparr>"

definition escape_step :: "string \<Rightarrow> nat \<Rightarrow> scanner \<Rightarrow> lex_state + scanner \<times> nat" where
  "escape_step src i sc =
     (if i + 1 \<ge> length src then Inl (sn_state sc)
      else Inr (if src ! (i + 1) = NL then on_newline (i + 1) sc else sc, i + 2))"

definition open_string :: "string \<Rightarrow> nat \<Rightarrow> char \<Rightarrow> scanner \<Rightarrow> scanner \<times> nat" where
  "open_string src i q sc =
     (let multi = quote_run src i q \<ge> 3
      in (sc\<lparr>sn_state :=
            if q = quotation then if multi then MULTILINE_BASIC else BASIC
            else if multi then MULTILINE_LITERAL else LITERAL\<rparr>,
          i + (if multi then 3 else 1)))"

definition found_header :: "(string \<Rightarrow> bool) \<Rightarrow> string \<Rightarrow> nat \<Rightarrow> scanner \<Rightarrow> scanner" where
  "found_header valid src i sc =
     (let b = line_end src i;
          txt = strip_set py_space (take (b - sn_line sc) (drop (sn_line sc) src))
      in case header_kind_of valid txt of
           None \<Rightarrow> sc
         | Some k \<Rightarrow> sc\<lparr>sn_headers := sn_headers sc @
             [\<lparr>th_text = txt, th_start = sn_line sc, th_body = b, th_kind = k\<rparr>]\<rparr>)"

definition normal_step :: "(string \<Rightarrow> bool) \<Rightarrow> string \<Rightarrow> nat \<Rightarrow> scanner \<Rightarrow> scanner \<times> nat" where
  "normal_step valid src i sc =
     (let c = src ! i
      in if c = NL then (on_newline i sc, i + 1)
         else if sn_fresh sc \<and> blank_char c then (sc, i + 1)
         else
           let sc1 = (if sn_fresh sc \<and> c = CHR ''['' then found_header valid src i sc else sc)\<lparr>sn_fresh := False\<rparr>
           in if c = CHR ''#'' then (sc1\<lparr>sn_state := COMMENT\<rparr>, i + 1)
              else if c = quotation \<or> c = apostrophe then open_string src i c sc1
              else (sc1, i + 1))"

definition comment_step :: "string \<Rightarrow> nat \<Rightarrow> scanner \<Rightarrow> scanner \<times> nat" where
  "comment_step src i sc =
     (if src ! i = NL then on_newline i (sc\<lparr>sn_state := NORMAL\<rparr>) else sc, i + 1)"

definition single_step :: "string \<Rightarrow> nat \<Rightarrow> char \<Rightarrow> scanner \<Rightarrow> lex_state + scanner \<times> nat" where
  "single_step src i q sc =
     (let c = src ! i
      in if sn_state sc = BASIC \<and> c = backslash then escape_step src i sc
         else if c = q then Inr (sc\<lparr>sn_state := NORMAL\<rparr>, i + 1)
         else if c = NL then Inl (sn_state sc)
         else Inr (sc, i + 1))"

definition multiline_step :: "string \<Rightarrow> nat \<Rightarrow> char \<Rightarrow> scanner \<Rightarrow> lex_state + scanner \<times> nat" where
  "multiline_step src i q sc =
     (let c = src ! i
      in if sn_state sc = MULTILINE_BASIC \<and> c = backslash then escape_step src i sc
         else if c = q then
           let run = quote_run src i q; sc1 = sc\<lparr>sn_fresh := False\<rparr>
           in Inr (if run \<ge> 3 then sc1\<lparr>sn_state := NORMAL\<rparr> else sc1, i + run)
         else if c = NL then Inr (on_newline i sc, i + 1)
         else if \<not> blank_char c then Inr (sc\<lparr>sn_fresh := False\<rparr>, i + 1)
         else Inr (sc, i + 1))"

definition scan_step :: "(string \<Rightarrow> bool) \<Rightarrow> string \<Rightarrow> nat \<Rightarrow> scanner \<Rightarrow> lex_state + scanner \<times> nat" where
  "scan_step valid src i sc =
     (case sn_state sc of
        NORMAL \<Rightarrow> Inr (normal_step valid src i sc)
      | COMMENT \<Rightarrow> Inr (comment_step src i sc)
      | BASIC \<Rightarrow> single_step src i quotation sc
      | LITERAL \<Rightarrow> single_step src i apostrophe sc
      | MULTILINE_BASIC \<Rightarrow> multiline_step src i quotation sc
      | MULTILINE_LITERAL \<Rightarrow> multiline_step src i apostrophe sc)"

lemma quote_run_pos: "i < length src \<Longrightarrow> src ! i = q \<Longrightarrow> 0 < quote_run src i q"
  by (simp add: quote_run_def Cons_nth_drop_Suc [symmetric])

text \<open>Every step advances, so the scan ends.\<close>

lemma scan_step_advances:
  assumes "scan_step valid src i sc = Inr (sc', j)" and "i < length src"
  shows "i < j"
  using assms quote_run_pos [OF assms(2)]
  by (auto simp: scan_step_def normal_step_def comment_step_def single_step_def multiline_step_def
      escape_step_def open_string_def Let_def split: lex_state.splits if_splits)

function scan_from :: "(string \<Rightarrow> bool) \<Rightarrow> string \<Rightarrow> nat \<Rightarrow> scanner \<Rightarrow> lex_state + scanner" where
  "scan_from valid src i sc =
     (if i < length src
      then case scan_step valid src i sc of
             Inl e \<Rightarrow> Inl e
           | Inr (sc', j) \<Rightarrow> scan_from valid src j sc'
      else Inr sc)"
  by pat_completeness auto
termination
  by (relation "measure (\<lambda>(valid, src, i, sc). length src - i)") (auto dest: scan_step_advances)

declare scan_from.simps [simp del]

definition scan_table_headers :: "(string \<Rightarrow> bool) \<Rightarrow> string \<Rightarrow> lex_state + toml_header list" where
  "scan_table_headers valid src =
     (case scan_from valid src 0 new_scanner of
        Inl e \<Rightarrow> Inl e
      | Inr sc \<Rightarrow> if sn_state sc \<notin> {NORMAL, COMMENT} then Inl (sn_state sc) else Inr (sn_headers sc))"

section \<open>Lines\<close>

definition line_clear :: "string \<Rightarrow> nat \<Rightarrow> nat \<Rightarrow> bool" where
  "line_clear src a b \<longleftrightarrow> NL \<notin> set (take (b - a) (drop a src))"

lemma line_clear_refl [simp]: "line_clear src a a"
  by (simp add: line_clear_def)

lemma line_clear_extend:
  assumes "line_clear src a b" and "a \<le> b" and "b \<le> c" and "NL \<notin> set (take (c - b) (drop b src))"
  shows "line_clear src a c"
proof -
  have "take (c - a) (drop a src) = take (b - a) (drop a src) @ take (c - b) (drop b src)"
    using assms(2,3) take_add [of "b - a" "c - b" "drop a src"] by simp
  with assms(1,4) show ?thesis by (simp add: line_clear_def)
qed

lemma line_clear_Suc: "line_clear src a i \<Longrightarrow> a \<le> i \<Longrightarrow> i < length src \<Longrightarrow> src ! i \<noteq> NL \<Longrightarrow> line_clear src a (i + 1)"
  by (erule line_clear_extend) (simp_all add: take_Suc_conv_app_nth)

lemma line_end_bounds: "a < length src \<Longrightarrow> a < line_end src a \<and> line_end src a \<le> length src"
  by (auto simp: line_end_def Let_def)

lemma line_end_move:
  assumes "line_clear src a i" and "a \<le> i" and "i \<le> length src"
  shows "line_end src i = line_end src a"
proof -
  define xs where "xs = take (i - a) (drop a src)"
  have d: "drop a src = xs @ drop i src"
    using assms(2) append_take_drop_id [of "i - a" "drop a src"] by (simp add: xs_def)
  have "NL \<notin> set xs" using assms(1) by (simp add: line_clear_def xs_def)
  then have "takeWhile ((\<noteq>) NL) (drop a src) = xs @ takeWhile ((\<noteq>) NL) (drop i src)"
    unfolding d by (intro takeWhile_append2) auto
  moreover have "length xs = i - a" using assms(2,3) by (simp add: xs_def)
  ultimately have "length (takeWhile ((\<noteq>) NL) (drop a src)) = i - a + length (takeWhile ((\<noteq>) NL) (drop i src))"
    by simp
  with assms(2) show ?thesis unfolding line_end_def Let_def by simp
qed

lemma line_end_newline: "i < length src \<Longrightarrow> src ! i = NL \<Longrightarrow> line_end src i = i + 1"
  by (simp add: line_end_def Cons_nth_drop_Suc [symmetric])

lemma quote_run_clear:
  assumes "q \<noteq> NL" and "n \<le> quote_run src i q"
  shows "NL \<notin> set (take n (drop i src))" and "i + n \<le> length src \<or> n = 0"
proof -
  have "take n (takeWhile ((=) q) (drop i src) @ dropWhile ((=) q) (drop i src)) = take n (takeWhile ((=) q) (drop i src))"
    using assms(2) by (simp add: quote_run_def del: takeWhile_dropWhile_id)
  then have "take n (drop i src) = take n (takeWhile ((=) q) (drop i src))"
    by (simp only: takeWhile_dropWhile_id)
  then show "NL \<notin> set (take n (drop i src))"
    using assms(1) by (metis in_set_takeD set_takeWhileD)
  have "quote_run src i q \<le> length src - i" unfolding quote_run_def by (metis length_drop length_takeWhile_le)
  with assms(2) show "i + n \<le> length src \<or> n = 0" by linarith
qed

section \<open>The headers of a scan\<close>

text \<open>
  The invariant of the scan at index \<open>i\<close>: \<open>sn_line\<close> is the start of the line of \<open>i\<close>; every header is a
  whole line, before this line unless the rest of this line is being read, and the headers are in order.
\<close>

definition header_line :: "string \<Rightarrow> toml_header \<Rightarrow> bool" where
  "header_line src h \<longleftrightarrow> th_start h < length src \<and> (th_start h = 0 \<or> src ! (th_start h - 1) = NL) \<and>
     th_body h = line_end src (th_start h) \<and>
     th_text h = strip_set py_space (take (th_body h - th_start h) (drop (th_start h) src))"

definition scan_ok :: "string \<Rightarrow> nat \<Rightarrow> scanner \<Rightarrow> bool" where
  "scan_ok src i sc \<longleftrightarrow>
     sn_line sc \<le> i \<and> i \<le> length src \<and> (sn_line sc = 0 \<or> src ! (sn_line sc - 1) = NL) \<and>
     line_clear src (sn_line sc) i \<and> sorted_wrt (\<lambda>g h. th_body g \<le> th_start h) (sn_headers sc) \<and>
     (\<forall>h\<in>set (sn_headers sc). header_line src h \<and>
        (th_body h \<le> sn_line sc \<or> th_start h = sn_line sc \<and> \<not> sn_fresh sc))"

lemma scan_ok_new: "scan_ok src 0 new_scanner"
  by (simp add: scan_ok_def new_scanner_def)

lemma scan_ok_state [simp]: "scan_ok src i (sc\<lparr>sn_state := s\<rparr>) = scan_ok src i sc"
  by (simp add: scan_ok_def)

lemma scan_ok_dull: "scan_ok src i sc \<Longrightarrow> scan_ok src i (sc\<lparr>sn_fresh := False\<rparr>)"
  by (auto simp: scan_ok_def)

lemma scan_ok_advance:
  assumes "scan_ok src i sc" and "i \<le> j" and "j \<le> length src" and "NL \<notin> set (take (j - i) (drop i src))"
  shows "scan_ok src j sc"
  using assms line_clear_extend [of src "sn_line sc" i j] by (auto simp: scan_ok_def)

lemma scan_ok_char: "scan_ok src i sc \<Longrightarrow> i < length src \<Longrightarrow> src ! i \<noteq> NL \<Longrightarrow> scan_ok src (Suc i) sc"
  by (erule scan_ok_advance) (simp_all add: take_Suc_conv_app_nth)

lemma scan_ok_newline:
  assumes "scan_ok src i sc" and "i < length src" and "src ! i = NL"
  shows "scan_ok src (Suc i) (on_newline i sc)"
proof -
  have "line_end src (sn_line sc) = i + 1"
    using assms line_end_move [of src "sn_line sc" i] line_end_newline [of i src] by (simp add: scan_ok_def)
  moreover have "sn_line sc \<le> i" using assms(1) by (simp add: scan_ok_def)
  ultimately show ?thesis
    using assms by (fastforce simp: scan_ok_def on_newline_def header_line_def)
qed

lemma scan_ok_found:
  assumes "scan_ok src i sc" and "i < length src" and "sn_fresh sc"
  shows "scan_ok src i ((found_header valid src i sc)\<lparr>sn_fresh := False\<rparr>)"
proof -
  have "line_end src i = line_end src (sn_line sc)"
    using assms line_end_move [of src "sn_line sc" i] by (simp add: scan_ok_def)
  with assms show ?thesis
    by (auto simp: scan_ok_def found_header_def header_line_def Let_def sorted_wrt_append split: option.split)
qed

lemma scan_ok_escape:
  assumes "escape_step src i sc = Inr (sc', j)" and "scan_ok src i sc" and "i < length src" and "src ! i = backslash"
  shows "scan_ok src j sc'"
proof -
  have *: "scan_ok src (Suc i) sc" using assms(2-4) by (simp add: scan_ok_char)
  with assms(1) scan_ok_newline [OF *] scan_ok_char [OF *] show ?thesis
    by (auto simp: escape_step_def split: if_splits)
qed

lemma scan_ok_quotes:
  assumes "scan_ok src i sc" and "n \<le> quote_run src i q" and "q \<noteq> NL"
  shows "scan_ok src (i + n) sc"
proof -
  have "i \<le> length src" using assms(1) by (simp add: scan_ok_def)
  with quote_run_clear [OF assms(3,2)] show ?thesis
    using scan_ok_advance [OF assms(1), of "i + n"] by auto
qed

lemma scan_ok_open:
  assumes "scan_ok src i sc" and "i < length src" and "src ! i = q" and "q = quotation \<or> q = apostrophe"
  shows "scan_ok src (snd (open_string src i q sc)) (fst (open_string src i q sc))"
proof -
  have q: "q \<noteq> NL" using assms(4) by auto
  have "1 \<le> quote_run src i q" using quote_run_pos [OF assms(2,3)] by simp
  then show ?thesis
    using scan_ok_quotes [OF assms(1) _ q] by (auto simp: open_string_def Let_def)
qed

lemma scan_ok_normal:
  assumes "scan_ok src i sc" and "i < length src"
  shows "scan_ok src (snd (normal_step valid src i sc)) (fst (normal_step valid src i sc))"
proof -
  define sc1 where "sc1 = (if sn_fresh sc \<and> src ! i = CHR ''['' then found_header valid src i sc else sc)\<lparr>sn_fresh := False\<rparr>"
  have "scan_ok src i sc1"
    using assms scan_ok_found scan_ok_dull by (auto simp: sc1_def)
  then show ?thesis
    using assms scan_ok_newline scan_ok_char scan_ok_open [of src i sc1]
    by (auto simp: normal_step_def Let_def simp flip: sc1_def)
qed

lemma scan_ok_comment:
  assumes "scan_ok src i sc" and "i < length src"
  shows "scan_ok src (snd (comment_step src i sc)) (fst (comment_step src i sc))"
  using assms scan_ok_newline [of src i "sc\<lparr>sn_state := NORMAL\<rparr>"] scan_ok_char
  by (auto simp: comment_step_def)

lemma scan_ok_single:
  assumes "single_step src i q sc = Inr (sc', j)" and "scan_ok src i sc" and "i < length src" and "q \<noteq> NL"
  shows "scan_ok src j sc'"
  using assms scan_ok_escape scan_ok_char
  by (auto simp: single_step_def Let_def split: if_splits)

lemma scan_ok_multiline:
  assumes "multiline_step src i q sc = Inr (sc', j)" and "scan_ok src i sc" and "i < length src" and "q \<noteq> NL"
  shows "scan_ok src j sc'"
  using assms scan_ok_escape scan_ok_newline scan_ok_char scan_ok_dull
    scan_ok_quotes [OF scan_ok_dull [OF assms(2)] order_refl assms(4)]
  by (auto simp: multiline_step_def Let_def split: if_splits)

lemma scan_ok_step:
  assumes "scan_step valid src i sc = Inr (sc', j)" and "scan_ok src i sc" and "i < length src"
  shows "scan_ok src j sc'"
proof (cases "sn_state sc")
  case NORMAL
  with assms scan_ok_normal [OF assms(2,3), of valid] show ?thesis by (simp add: scan_step_def)
next
  case COMMENT
  with assms scan_ok_comment [OF assms(2,3)] show ?thesis by (simp add: scan_step_def)
qed (use assms scan_ok_single scan_ok_multiline in \<open>fastforce simp: scan_step_def\<close>)+

lemma scan_ok_from:
  "scan_from valid src i sc = Inr sc' \<Longrightarrow> scan_ok src i sc \<Longrightarrow> scan_ok src (length src) sc'"
proof (induction valid src i sc rule: scan_from.induct)
  case (1 valid src i sc)
  show ?case
  proof (cases "i < length src")
    case False
    moreover from this 1(3) have "i = length src" by (simp add: scan_ok_def)
    ultimately show ?thesis using 1(2,3) by (simp add: scan_from.simps)
  next
    case True
    with 1(2) obtain sc1 j where s: "scan_step valid src i sc = Inr (sc1, j)"
      and r: "scan_from valid src j sc1 = Inr sc'"
      by (subst (asm) scan_from.simps) (auto split: sum.splits prod.splits)
    from 1(1) [OF True s refl r scan_ok_step [OF s 1(3) True]] show ?thesis .
  qed
qed

section \<open>Scanning in pieces\<close>

text \<open>
  A closed piece of text ends where a fresh line begins in the normal state. What follows it is
  scanned as if it stood alone.
\<close>

definition closed_piece :: "(string \<Rightarrow> bool) \<Rightarrow> string \<Rightarrow> bool" where
  "closed_piece valid a \<longleftrightarrow>
     (case scan_from valid a 0 new_scanner of
        Inl e \<Rightarrow> False
      | Inr sc \<Rightarrow> sn_state sc = NORMAL \<and> sn_fresh sc \<and> sn_line sc = length a)"

definition shifted :: "nat \<Rightarrow> toml_header \<Rightarrow> toml_header" where
  "shifted k h = h\<lparr>th_start := k + th_start h, th_body := k + th_body h\<rparr>"

definition after :: "nat \<Rightarrow> toml_header list \<Rightarrow> scanner \<Rightarrow> scanner" where
  "after k hs sc = sc\<lparr>sn_headers := hs @ map (shifted k) (sn_headers sc), sn_line := k + sn_line sc\<rparr>"

lemma after_simps [simp]:
  "sn_state (after k hs sc) = sn_state sc" "sn_fresh (after k hs sc) = sn_fresh sc"
  "sn_line (after k hs sc) = k + sn_line sc" "sn_headers (after k hs sc) = hs @ map (shifted k) (sn_headers sc)"
  "after k hs (sc\<lparr>sn_state := s\<rparr>) = (after k hs sc)\<lparr>sn_state := s\<rparr>"
  "after k hs (sc\<lparr>sn_fresh := b\<rparr>) = (after k hs sc)\<lparr>sn_fresh := b\<rparr>"
  "on_newline (k + i) (after k hs sc) = after k hs (on_newline i sc)"
  "on_newline i (sc\<lparr>sn_state := s\<rparr>) = (on_newline i sc)\<lparr>sn_state := s\<rparr>"
  by (simp_all add: after_def on_newline_def)

lemma quote_run_after [simp]: "quote_run (a @ b) (length a + i) q = quote_run b i q"
  by (simp add: quote_run_def)

lemma line_end_after [simp]: "line_end (a @ b) (length a + i) = length a + line_end b i"
  by (simp add: line_end_def Let_def)

lemma found_header_after:
  "sn_line sc \<le> line_end b i \<Longrightarrow>
   found_header valid (a @ b) (length a + i) (after (length a) hs sc) = after (length a) hs (found_header valid b i sc)"
  by (simp add: found_header_def Let_def after_def shifted_def split: option.split)

definition moved :: "nat \<Rightarrow> toml_header list \<Rightarrow> lex_state + scanner \<times> nat \<Rightarrow> lex_state + scanner \<times> nat" where
  "moved k hs r = (case r of Inl e \<Rightarrow> Inl e | Inr (sc, j) \<Rightarrow> Inr (after k hs sc, k + j))"

lemma step_after:
  assumes "scan_ok b i sc" and "i < length b"
  shows "scan_step valid (a @ b) (length a + i) (after (length a) hs sc) = moved (length a) hs (scan_step valid b i sc)"
proof -
  have le: "sn_line sc \<le> line_end b i"
    using assms line_end_bounds [of i b] by (simp add: scan_ok_def)
  have nth: "(a @ b) ! (length a + i) = b ! i" "(a @ b) ! (length a + i + 1) = b ! (i + 1)"
    by (simp_all add: nth_append)
  have nl: "on_newline (length a + i + 1) (after (length a) hs s) = after (length a) hs (on_newline (i + 1) s)" for s
    using after_simps(7) [of "length a" "i + 1"] by (simp add: add.assoc)
  have "escape_step (a @ b) (length a + i) (after (length a) hs sc) = moved (length a) hs (escape_step b i sc)"
    using nth(2) nl by (auto simp: escape_step_def moved_def)
  then show ?thesis
    using nth(1) found_header_after [OF le, of valid a hs]
    by (auto simp: scan_step_def normal_step_def comment_step_def single_step_def multiline_step_def open_string_def
        moved_def Let_def split: lex_state.split)
qed

lemma scan_after:
  "scan_ok b i sc \<Longrightarrow>
   scan_from valid (a @ b) (length a + i) (after (length a) hs sc) =
     (case scan_from valid b i sc of Inl e \<Rightarrow> Inl e | Inr f \<Rightarrow> Inr (after (length a) hs f))"
proof (induction valid b i sc rule: scan_from.induct)
  case (1 valid b i sc)
  show ?case
  proof (cases "i < length b")
    case False
    then show ?thesis by (simp add: scan_from.simps)
  next
    case True
    show ?thesis
    proof (cases "scan_step valid b i sc")
      case (Inl e)
      with True step_after [OF 1(2) True, of valid a hs] show ?thesis
        by (simp add: moved_def scan_from.simps [of valid "a @ b"] scan_from.simps [of valid b])
    next
      case (Inr r)
      obtain sc1 j where r: "r = (sc1, j)" by fastforce
      note IH = 1(1) [OF True Inr r [symmetric] scan_ok_step [OF Inr [unfolded r] 1(2) True]]
      with True Inr r step_after [OF 1(2) True, of valid a hs] show ?thesis
        by (simp add: moved_def scan_from.simps [of valid "a @ b" "length a + i"] scan_from.simps [of valid b i])
    qed
  qed
qed

lemma newline_ahead: "a \<noteq> [] \<Longrightarrow> last a = NL \<Longrightarrow> i < length a \<Longrightarrow> NL \<in> set (drop i a)"
  by (metis drop_eq_Nil last_drop last_in_set not_less)

lemma quote_run_before:
  assumes "a \<noteq> []" "last a = NL" "i < length a" "q \<noteq> NL"
  shows "quote_run (a @ b) i q = quote_run a i q"
  using newline_ahead [OF assms(1-3)] assms(3,4) unfolding quote_run_def by (simp add: takeWhile_append1)

lemma takeWhile_stops: "x \<in> set xs \<Longrightarrow> \<not> P x \<Longrightarrow> length (takeWhile P xs) < length xs"
  by (induction xs) auto

lemma line_end_before:
  assumes "a \<noteq> []" "last a = NL" "i < length a"
  shows "line_end (a @ b) i = line_end a i"
proof -
  have n: "NL \<in> set (drop i a)" by (rule newline_ahead [OF assms])
  then have "length (takeWhile ((\<noteq>) NL) (drop i a)) < length (drop i a)"
    by (rule takeWhile_stops) simp
  then have "i + length (takeWhile ((\<noteq>) NL) (drop i a)) < length a" using assms(3) by simp
  with n show ?thesis by (simp add: line_end_def Let_def takeWhile_append1)
qed

lemma step_before:
  assumes "a \<noteq> []" "last a = NL" "i < length a" "scan_ok a i sc"
  shows "scan_step valid (a @ b) i sc = scan_step valid a i sc"
proof -
  have nth: "(a @ b) ! i = a ! i" using assms(3) by (simp add: nth_append)
  have esc: "escape_step (a @ b) i sc = escape_step a i sc" if "a ! i = backslash"
  proof -
    have "a ! (length a - 1) = NL" using assms(1,2) by (simp add: last_conv_nth)
    with that assms(3) have "i + 1 < length a" by (cases "i = length a - 1") auto
    then show ?thesis by (simp add: escape_step_def nth_append)
  qed
  have "line_end a i \<le> length a" "sn_line sc \<le> line_end a i"
    using line_end_bounds [OF assms(3)] assms(4) by (simp_all add: scan_ok_def)
  then have "found_header valid (a @ b) i sc = found_header valid a i sc"
    using line_end_before [OF assms(1-3)] by (simp add: found_header_def)
  then show ?thesis
    using nth esc quote_run_before [OF assms(1-3)]
    by (simp add: scan_step_def normal_step_def comment_step_def single_step_def multiline_step_def open_string_def
        Let_def split: lex_state.split)
qed

lemma scan_before:
  assumes "a \<noteq> []" "last a = NL"
  shows "scan_ok a i sc \<Longrightarrow> scan_from valid (a @ b) i sc =
    (case scan_from valid a i sc of Inl e \<Rightarrow> Inl e | Inr f \<Rightarrow> scan_from valid (a @ b) (length a) f)"
proof (induction "length a - i" arbitrary: i sc rule: less_induct)
  case less
  show ?case
  proof (cases "i < length a")
    case False
    with less(2) have "i = length a" by (simp add: scan_ok_def)
    then show ?thesis by (simp add: scan_from.simps [of valid a])
  next
    case True
    note same = step_before [OF assms True less(2), of valid b]
    show ?thesis
    proof (cases "scan_step valid a i sc")
      case (Inl e)
      with True same show ?thesis
        by (simp add: scan_from.simps [of valid "a @ b" i] scan_from.simps [of valid a])
    next
      case (Inr r)
      obtain sc1 j where r: "r = (sc1, j)" by fastforce
      have "length a - j < length a - i" using scan_step_advances [OF Inr [unfolded r] True] True by simp
      note IH = less(1) [OF this scan_ok_step [OF Inr [unfolded r] less(2) True]]
      with True same Inr r show ?thesis
        by (simp add: scan_from.simps [of valid "a @ b" i] scan_from.simps [of valid a i])
    qed
  qed
qed

text \<open>The scan of a closed piece ends with a scanner that is new but for its position and its headers.\<close>

lemma closed_piece_scan:
  assumes "closed_piece valid a" and "scan_table_headers valid a = Inr ha"
  shows "scan_from valid a 0 new_scanner = Inr (after (length a) ha new_scanner)" and "a = [] \<or> last a = NL"
proof -
  obtain sc where sc: "scan_from valid a 0 new_scanner = Inr sc" "sn_state sc = NORMAL" "sn_fresh sc" "sn_line sc = length a"
    using assms(1) by (auto simp: closed_piece_def split: sum.splits)
  with assms(2) have "sn_headers sc = ha" by (simp add: scan_table_headers_def)
  with sc show "scan_from valid a 0 new_scanner = Inr (after (length a) ha new_scanner)"
    by (simp add: after_def new_scanner_def)
  from scan_ok_from [OF sc(1) scan_ok_new] sc(4) show "a = [] \<or> last a = NL"
    by (cases "a = []") (auto simp: scan_ok_def last_conv_nth)
qed

lemma headers_ordered:
  assumes "scan_table_headers valid src = Inr hs"
  shows "sorted_wrt (\<lambda>g h. th_body g \<le> th_start h) hs \<and> list_all (header_line src) hs"
proof -
  from assms obtain sc where "scan_from valid src 0 new_scanner = Inr sc" "sn_headers sc = hs"
    by (auto simp: scan_table_headers_def split: sum.splits if_splits)
  with scan_ok_from [OF _ scan_ok_new] show ?thesis by (auto simp: scan_ok_def list_all_iff)
qed

section \<open>Properties\<close>

text \<open>
  The headers the scan reports are whole lines of the text in their order: each begins at a line
  start, its body begins where its line ends, its text is the line without surrounding blanks, and
  the next header begins at or after the body of the one before.
\<close>

theorem headers_are_ordered_lines:
  assumes "scan_table_headers valid src = Inr hs"
  shows "sorted_wrt (\<lambda>g h. th_body g \<le> th_start h) hs \<and> list_all (header_line src) hs"
  by (rule headers_ordered [OF assms])

text \<open>
  The scan can resume at a fresh line: when a piece of text ends where a line begins outside
  strings, the headers of the piece followed by any text are the headers of the piece and, moved by
  its length, those of the rest, and the scan fails exactly when that of the rest does. So a table
  that is cut out from one such line to another takes no other header with it and uncovers none.
\<close>

theorem scan_resumes_at_fresh_line:
  assumes "closed_piece valid a" and "scan_table_headers valid a = Inr ha"
  shows "scan_table_headers valid (a @ b) =
    (case scan_table_headers valid b of Inl e \<Rightarrow> Inl e | Inr hb \<Rightarrow> Inr (ha @ map (shifted (length a)) hb))"
proof -
  note c = closed_piece_scan [OF assms]
  have "scan_from valid (a @ b) 0 new_scanner = scan_from valid (a @ b) (length a + 0) (after (length a) ha new_scanner)"
  proof (cases "a = []")
    case True
    with c(1) show ?thesis by (simp add: scan_from.simps [of valid "[]"])
  next
    case False
    with c scan_before [OF False _ scan_ok_new, of valid b] show ?thesis by simp
  qed
  then show ?thesis
    using scan_after [OF scan_ok_new, of valid a b ha]
    by (auto simp: scan_table_headers_def split: sum.split)
qed

theorem headers_are_ordered_lines_witness:
  "\<exists>hs. scan_table_headers (\<lambda>_. True) ''[a] # x'' = Inr hs \<and>
     sorted_wrt (\<lambda>g h. th_body g \<le> th_start h) hs \<and> list_all (header_line ''[a] # x'') hs"
proof -
  have "scan_table_headers (\<lambda>_. True) ''[a] # x'' =
      Inr [\<lparr>th_text = ''[a] # x'', th_start = 0, th_body = 7, th_kind = TABLE\<rparr>]" by code_simp
  with headers_are_ordered_lines [OF this] show ?thesis by blast
qed

theorem scan_resumes_at_fresh_line_witness:
  "scan_table_headers (\<lambda>_. True) ((''[a]'' @ [NL]) @ ''[b]'') =
     (case scan_table_headers (\<lambda>_. True) ''[b]'' of Inl e \<Rightarrow> Inl e | Inr hb \<Rightarrow>
        Inr ([\<lparr>th_text = ''[a]'', th_start = 0, th_body = 4, th_kind = TABLE\<rparr>] @ map (shifted 4) hb))"
proof -
  have "closed_piece (\<lambda>_. True) (''[a]'' @ [NL])" by code_simp
  moreover have "scan_table_headers (\<lambda>_. True) (''[a]'' @ [NL]) =
      Inr [\<lparr>th_text = ''[a]'', th_start = 0, th_body = 4, th_kind = TABLE\<rparr>]" by code_simp
  moreover have "length (''[a]'' @ [NL]) = 4" by simp
  ultimately show ?thesis by (metis scan_resumes_at_fresh_line)
qed

end
