(* ===== verification/ConfigRemoval.thy ===== *)
theory ConfigRemoval
  imports TomlHeaders
begin

text \<open>
  \<open>scripts/uninstall_config.py\<close>: the removal of the plugin's own tables from \<open>config.toml\<close>. The UTF-8
  codec and \<open>tomllib.loads\<close> are parameters (\<open>toml_env\<close>); a failure is the reason code of the
  \<open>InstallPluginError\<close>. Python compares booleans with numbers, which \<open>toml_is\<close> keeps.
\<close>

section \<open>TOML trees\<close>

datatype toml =
  TomlStr string
| TomlInt int
| TomlFloat real
| TomlBool bool
| TomlTime string
| TomlArray "toml list"
| TomlTable "(string \<times> toml) list"

type_synonym toml_table = "(string \<times> toml) list"

record toml_env =
  tl_decode :: "string \<Rightarrow> string option"
  tl_encode :: "string \<Rightarrow> string"
  tl_load :: "string \<Rightarrow> toml_table option"

text \<open>\<open>tomllib.loads(text)\<close> succeeds.\<close>

definition toml_valid :: "toml_env \<Rightarrow> string \<Rightarrow> bool" where
  "toml_valid V s \<longleftrightarrow> tl_load V s \<noteq> None"

definition table_at :: "toml_table \<Rightarrow> string \<Rightarrow> toml_table option" where
  "table_at t key = (case map_of t key of Some (TomlTable d) \<Rightarrow> Some d | _ \<Rightarrow> None)"

text \<open>Equality with a string or a boolean, and of a table with one of such values.\<close>

fun toml_is :: "toml \<Rightarrow> toml \<Rightarrow> bool" where
  "toml_is (TomlStr s) v = (v = TomlStr s)"
| "toml_is (TomlBool b) v = (v \<in> {TomlBool b, TomlInt (of_bool b), TomlFloat (of_bool b)})"
| "toml_is w v = False"

definition table_is :: "toml_table \<Rightarrow> toml_table \<Rightarrow> bool" where
  "table_is expected t \<longleftrightarrow> fst ` set t = fst ` set expected \<and>
     list_all (\<lambda>(k, w). case map_of t k of None \<Rightarrow> False | Some v \<Rightarrow> toml_is w v) expected"

section \<open>Identities\<close>

definition MARKETPLACE_NAME :: string where "MARKETPLACE_NAME = ''simdorei''"

definition LEGACY_MARKETPLACE_NAME :: string where "LEGACY_MARKETPLACE_NAME = ''codex-must-work-local''"

definition PLUGIN_ID :: string where "PLUGIN_ID = ''codex-must-work@'' @ MARKETPLACE_NAME"

definition LEGACY_PLUGIN_ID :: string where "LEGACY_PLUGIN_ID = ''codex-must-work@'' @ LEGACY_MARKETPLACE_NAME"

definition hook_prefixes :: "string list" where
  "hook_prefixes = [PLUGIN_ID @ '':hooks/hooks.json:'', LEGACY_PLUGIN_ID @ '':hooks/hooks.json:'']"

definition owned_hook :: "string \<Rightarrow> bool" where
  "owned_hook key \<longleftrightarrow> list_ex (\<lambda>p. prefix p key) hook_prefixes"

text \<open>Evidence of an installation (\<open>uninstall_evidence.py\<close>); a trusted hook is its key and its hash.\<close>

record install_evidence =
  iv_marketplace :: string
  iv_plugin :: string
  iv_source_type :: string
  iv_source :: string
  iv_reference :: "string option"
  iv_hooks :: "(string \<times> string) list"

section \<open>Parsing\<close>

fun without_crlf :: "string \<Rightarrow> string" where
  "without_crlf (a # b # cs) =
     (if a = CHR 0x0D \<and> b = NL then without_crlf cs else a # without_crlf (b # cs))"
| "without_crlf cs = cs"

definition parse_config :: "toml_env \<Rightarrow> bool \<Rightarrow> string \<Rightarrow> string + toml_table \<times> string" where
  "parse_config V post_edit data =
     (if prefix [CHR 0xEF, CHR 0xBB, CHR 0xBF] data then Inl ''codex_config_bom''
      else case tl_decode V data of
          None \<Rightarrow> Inl ''codex_config_malformed''
        | Some txt \<Rightarrow>
            let lone = without_crlf txt
            in if CHR 0x0D \<in> set lone \<or> lone \<noteq> txt \<and> NL \<in> set lone
               then Inl ''codex_config_unsupported_syntax''
               else case tl_load V txt of
                   None \<Rightarrow> Inl (if post_edit then ''codex_config_post_edit_invalid'' else ''codex_config_malformed'')
                 | Some tree \<Rightarrow> Inr (tree, txt))"

section \<open>Blocks\<close>

record config_block =
  cb_header :: string
  cb_start :: nat
  cb_body :: nat
  cb_end :: nat
  cb_kind :: header_kind

text \<open>Lines with their newlines; the last one may have none.\<close>

fun lines_of :: "string \<Rightarrow> string list" where
  "lines_of [] = []"
| "lines_of (c # cs) =
     (if c = NL then [c] # lines_of cs
      else case lines_of cs of [] \<Rightarrow> [[c]] | l # ls \<Rightarrow> (c # l) # ls)"

text \<open>A line of \<open>^[ \t]*(?:#.*)?(?:\r?\n|$)\<close>.\<close>

definition filler_line :: "string \<Rightarrow> bool" where
  "filler_line l \<longleftrightarrow>
     (let s = dropWhile blank_char l
      in s = [] \<or> hd s = CHR ''#'' \<or> s = [NL] \<or> s = [CHR 0x0D, NL])"

text \<open>The start of the longest tail of such lines, which the search finds leftmost.\<close>

definition body_end :: "string \<Rightarrow> nat" where
  "body_end body = length body - length (concat (takeWhile filler_line (rev (lines_of body))))"

fun blocks_of :: "string \<Rightarrow> toml_header list \<Rightarrow> config_block list" where
  "blocks_of txt [] = []"
| "blocks_of txt (h # hs) =
     (let limit = (case hs of [] \<Rightarrow> length txt | g # _ \<Rightarrow> th_start g);
          body = take (limit - th_body h) (drop (th_body h) txt)
      in \<lparr>cb_header = th_text h, cb_start = th_start h, cb_body = th_body h,
           cb_end = th_body h + body_end body, cb_kind = th_kind h\<rparr> # blocks_of txt hs)"

definition config_blocks :: "toml_env \<Rightarrow> string \<Rightarrow> string + config_block list" where
  "config_blocks V txt =
     (case scan_table_headers (toml_valid V) txt of
        Inl e \<Rightarrow> Inl ''codex_config_unsupported_syntax''
      | Inr hs \<Rightarrow> Inr (blocks_of txt hs))"

section \<open>Ownership\<close>

type_synonym toml_path = "string list"

definition hook_header_key :: "string \<Rightarrow> string option" where
  "hook_header_key h =
     (let opening = ''[hooks.state.'' @ [quotation]; closing = [quotation, CHR '']'']; n = length opening;
          key = take (length h - n - 2) (drop n h)
      in if prefix opening h \<and> h = opening @ key @ closing \<and> key \<noteq> [] \<and> quotation \<notin> set key
         then Some key else None)"

definition plugin_header :: "string \<Rightarrow> string" where
  "plugin_header i = ''[plugins.'' @ [quotation] @ i @ [quotation, CHR '']'']"

definition owned_path :: "config_block \<Rightarrow> toml_path option" where
  "owned_path b =
     (if cb_kind b \<noteq> TABLE then None
      else if cb_header b = ''[marketplaces.'' @ MARKETPLACE_NAME @ '']'' then Some [''marketplaces'', MARKETPLACE_NAME]
      else if cb_header b = ''[marketplaces.'' @ LEGACY_MARKETPLACE_NAME @ '']''
      then Some [''marketplaces'', LEGACY_MARKETPLACE_NAME]
      else if cb_header b = plugin_header PLUGIN_ID then Some [''plugins'', PLUGIN_ID]
      else if cb_header b = plugin_header LEGACY_PLUGIN_ID then Some [''plugins'', LEGACY_PLUGIN_ID]
      else case hook_header_key (cb_header b) of
          Some key \<Rightarrow> if owned_hook key then Some [''hooks'', ''state'', key] else None
        | None \<Rightarrow> None)"

definition target_paths :: "toml_table \<Rightarrow> toml_path list" where
  "target_paths tree =
     (case table_at tree ''marketplaces'' of None \<Rightarrow> []
      | Some m \<Rightarrow> map (\<lambda>n. [''marketplaces'', n])
          (filter (\<lambda>n. map_of m n \<noteq> None) [MARKETPLACE_NAME, LEGACY_MARKETPLACE_NAME])) @
     (case table_at tree ''plugins'' of None \<Rightarrow> []
      | Some p \<Rightarrow> map (\<lambda>n. [''plugins'', n]) (filter (\<lambda>n. map_of p n \<noteq> None) [PLUGIN_ID, LEGACY_PLUGIN_ID])) @
     (case table_at tree ''hooks'' of None \<Rightarrow> []
      | Some hooks \<Rightarrow>
          (case table_at hooks ''state'' of None \<Rightarrow> []
           | Some state \<Rightarrow> map (\<lambda>k. [''hooks'', ''state'', k]) (filter owned_hook (map fst state))))"

definition require_canonical_targets :: "toml_table \<Rightarrow> config_block list \<Rightarrow> string + unit" where
  "require_canonical_targets tree bs =
     (let canonical = List.map_filter owned_path bs
      in require (distinct canonical \<and> set (target_paths tree) = set canonical) ''codex_config_unsupported_syntax'')"

definition evidence_for_path :: "toml_path \<Rightarrow> install_evidence list \<Rightarrow> string + install_evidence list" where
  "evidence_for_path p evidence =
     (let found = filter (\<lambda>i.
            if hd p = ''marketplaces'' then iv_marketplace i = p ! 1
            else if hd p = ''plugins'' then iv_plugin i = p ! 1
            else last p \<in> fst ` set (iv_hooks i)) evidence
      in if found = [] then Inl ''uninstall_config_ownership_unknown'' else Inr found)"

definition expected_marketplace :: "install_evidence \<Rightarrow> toml_table" where
  "expected_marketplace i =
     [(''source_type'', TomlStr (iv_source_type i)), (''source'', TomlStr (iv_source i))] @
     (case iv_reference i of None \<Rightarrow> [] | Some r \<Rightarrow> [(''ref'', TomlStr r)])"

fun table_path :: "toml_table \<Rightarrow> toml_path \<Rightarrow> toml_table option" where
  "table_path t [] = Some t"
| "table_path t (k # ks) = (case table_at t k of None \<Rightarrow> None | Some d \<Rightarrow> table_path d ks)"

definition owned_table_ok :: "toml_path \<Rightarrow> toml_table \<Rightarrow> install_evidence list \<Rightarrow> bool" where
  "owned_table_ok p t candidates \<longleftrightarrow>
     (if hd p = ''marketplaces'' then list_ex (\<lambda>i. table_is (expected_marketplace i) t) candidates
      else if hd p = ''plugins'' then
        fst ` set t = {''enabled''} \<and> (case map_of t ''enabled'' of Some (TomlBool b) \<Rightarrow> True | _ \<Rightarrow> False)
      else list_ex (\<lambda>i. list_ex (\<lambda>(key, hash). key = last p \<and>
          table_is [(''enabled'', TomlBool True), (''trusted_hash'', TomlStr hash)] t) (iv_hooks i)) candidates)"

definition require_owned_table :: "toml_table \<Rightarrow> toml_path \<Rightarrow> install_evidence list \<Rightarrow> string + unit" where
  "require_owned_table tree p evidence =
     (case table_path tree p of
        None \<Rightarrow> Inl ''uninstall_config_ownership_unknown''
      | Some t \<Rightarrow>
          ebind (evidence_for_path p evidence) (\<lambda>candidates.
          require (owned_table_ok p t candidates) ''uninstall_config_ownership_unknown''))"

definition marketplace_is_shared :: "toml_table \<Rightarrow> string \<Rightarrow> bool" where
  "marketplace_is_shared tree marketplace \<longleftrightarrow>
     (case table_at tree ''plugins'' of
        None \<Rightarrow> False
      | Some p \<Rightarrow> list_ex (\<lambda>key. key \<notin> {PLUGIN_ID, LEGACY_PLUGIN_ID} \<and>
          suffix (CHR ''@'' # marketplace) key) (map fst p))"

definition kept_path :: "toml_table \<Rightarrow> toml_path \<Rightarrow> bool" where
  "kept_path tree p \<longleftrightarrow> hd p = ''marketplaces'' \<and> marketplace_is_shared tree (p ! 1)"

definition require_targets_absent :: "toml_table \<Rightarrow> string + unit" where
  "require_targets_absent tree =
     require (list_all (kept_path tree) (target_paths tree)) ''codex_config_post_edit_invalid''"

section \<open>Removal\<close>

fun removal_spans :: "toml_table \<Rightarrow> install_evidence list \<Rightarrow> config_block list \<Rightarrow> string + (nat \<times> nat) list" where
  "removal_spans tree evidence [] = Inr []"
| "removal_spans tree evidence (b # bs) =
     (case owned_path b of
        None \<Rightarrow> removal_spans tree evidence bs
      | Some p \<Rightarrow>
          ebind (require_owned_table tree p evidence) (\<lambda>_.
          if kept_path tree p then removal_spans tree evidence bs
          else ebind (removal_spans tree evidence bs) (\<lambda>spans. Inr ((cb_start b, cb_end b) # spans))))"

definition cut_out :: "nat \<times> nat \<Rightarrow> string \<Rightarrow> string" where
  "cut_out se txt = take (fst se) txt @ drop (snd se) txt"

definition render_config_removal :: "toml_env \<Rightarrow> string \<Rightarrow> install_evidence list \<Rightarrow> string + string" where
  "render_config_removal V data evidence =
     (if data = [] then Inr data
      else
        ebind (parse_config V False data) (\<lambda>(tree, txt).
        ebind (config_blocks V txt) (\<lambda>bs.
        ebind (require_canonical_targets tree bs) (\<lambda>_.
        ebind (removal_spans tree evidence bs) (\<lambda>spans.
        let rendered = foldr cut_out spans txt
        in ebind (parse_config V True (tl_encode V rendered)) (\<lambda>(parsed, again).
           ebind (require_targets_absent parsed) (\<lambda>_. Inr (tl_encode V rendered))))))))"

definition has_uninstall_targets :: "toml_env \<Rightarrow> string \<Rightarrow> string + bool" where
  "has_uninstall_targets V data =
     (if data = [] then Inr False
      else ebind (parse_config V False data) (\<lambda>(tree, txt). Inr (target_paths tree \<noteq> [])))"

section \<open>Lemmas\<close>

text \<open>The text outside of spans, read forward from a position.\<close>

fun outside :: "nat \<Rightarrow> (nat \<times> nat) list \<Rightarrow> string \<Rightarrow> string" where
  "outside pos [] src = drop pos src"
| "outside pos ((s, e) # spans) src = take (s - pos) (drop pos src) @ outside e spans src"

fun spans_ordered :: "nat \<Rightarrow> (nat \<times> nat) list \<Rightarrow> nat \<Rightarrow> bool" where
  "spans_ordered pos [] n = (pos \<le> n)"
| "spans_ordered pos ((s, e) # spans) n = (pos \<le> s \<and> s \<le> e \<and> spans_ordered e spans n)"

lemma spans_ordered_le: "spans_ordered pos spans n \<Longrightarrow> pos \<le> n"
  by (induction pos spans n rule: spans_ordered.induct) auto

lemma spans_ordered_mono: "spans_ordered pos spans n \<Longrightarrow> q \<le> pos \<Longrightarrow> spans_ordered q spans n"
  by (cases "(pos, spans, n)" rule: spans_ordered.cases) auto

lemma foldr_cut_out: "spans_ordered pos spans (length src) \<Longrightarrow> foldr cut_out spans src = take pos src @ outside pos spans src"
proof (induction spans arbitrary: pos)
  case Nil
  show ?case by simp
next
  case (Cons se spans)
  obtain s e where se: "se = (s, e)" by fastforce
  with Cons.prems have le: "pos \<le> s" "s \<le> e" "spans_ordered e spans (length src)" by simp_all
  with spans_ordered_le have "e \<le> length src" by blast
  moreover have "take s src = take pos src @ take (s - pos) (drop pos src)"
    using le(1) take_add [of pos "s - pos" src] by simp
  ultimately show ?case using Cons.IH [OF le(3)] le(2) by (simp add: se cut_out_def)
qed

lemma body_end_le: "body_end body \<le> length body"
  by (simp add: body_end_def)

lemma blocks_ordered:
  assumes "sorted_wrt (\<lambda>g h. th_body g \<le> th_start h) hs" and "list_all (header_line src) hs"
    and "case hs of [] \<Rightarrow> pos \<le> length src | h # _ \<Rightarrow> pos \<le> th_start h"
  shows "spans_ordered pos (map (\<lambda>b. (cb_start b, cb_end b)) (blocks_of src hs)) (length src)"
  using assms
proof (induction src hs arbitrary: pos rule: blocks_of.induct)
  case (2 src h hs)
  define limit where "limit = (case hs of [] \<Rightarrow> length src | g # _ \<Rightarrow> th_start g)"
  define body where "body = take (limit - th_body h) (drop (th_body h) src)"
  have h: "th_start h < th_body h" "th_body h \<le> length src"
    using 2(3) line_end_bounds [of "th_start h" src] by (simp_all add: header_line_def)
  then have "th_body h \<le> limit" using 2(2) by (cases hs) (simp_all add: limit_def)
  moreover have "body_end body \<le> limit - th_body h" using body_end_le [of body] by (simp add: body_def)
  ultimately have "th_body h + body_end body \<le> limit" by simp
  then have "spans_ordered (th_body h + body_end body)
      (map (\<lambda>b. (cb_start b, cb_end b)) (blocks_of src hs)) (length src)"
    using 2(2,3) by (intro 2(1) [OF refl refl]) (simp_all add: limit_def split: list.splits)
  with h 2(4) show ?case by (simp add: Let_def flip: limit_def body_def)
qed simp

lemma spans_ordered_subset:
  "spans_ordered pos (map f bs) n \<Longrightarrow> spans_ordered pos (map f (filter P bs)) n"
proof (induction bs arbitrary: pos)
  case (Cons b bs)
  obtain s e where "f b = (s, e)" by fastforce
  with Cons spans_ordered_mono show ?case by fastforce
qed simp

definition removable :: "toml_table \<Rightarrow> config_block \<Rightarrow> bool" where
  "removable tree b \<longleftrightarrow> (case owned_path b of None \<Rightarrow> False | Some p \<Rightarrow> \<not> kept_path tree p)"

text \<open>What a removed block must be: an owned table that equals what the evidence records.\<close>

definition proven_owned :: "toml_table \<Rightarrow> install_evidence list \<Rightarrow> config_block \<Rightarrow> bool" where
  "proven_owned tree evidence b \<longleftrightarrow>
     (\<exists>p t. owned_path b = Some p \<and> table_path tree p = Some t \<and>
        (\<exists>candidates. set candidates \<subseteq> set evidence \<and> owned_table_ok p t candidates))"

lemma evidence_subset: "evidence_for_path p evidence = Inr found \<Longrightarrow> set found \<subseteq> set evidence"
  by (auto simp: evidence_for_path_def Let_def split: if_splits)

lemma require_owned_proven:
  assumes "require_owned_table tree p evidence = Inr u" and "owned_path b = Some p"
  shows "proven_owned tree evidence b"
proof -
  from assms(1) obtain t found where "table_path tree p = Some t" "evidence_for_path p evidence = Inr found"
    "owned_table_ok p t found"
    by (auto simp: require_owned_table_def err_simps split: option.splits)
  with evidence_subset assms(2) show ?thesis unfolding proven_owned_def by blast
qed

lemma removal_spans_Inr:
  "removal_spans tree evidence bs = Inr spans \<Longrightarrow>
   spans = map (\<lambda>b. (cb_start b, cb_end b)) (filter (removable tree) bs) \<and>
   list_all (proven_owned tree evidence) (filter (removable tree) bs)"
proof (induction bs arbitrary: spans)
  case (Cons b bs)
  show ?case
  proof (cases "owned_path b")
    case None
    with Cons show ?thesis by (simp add: removable_def)
  next
    case (Some p)
    with Cons.prems obtain u where u: "require_owned_table tree p evidence = Inr u" by (auto simp: err_simps)
    note owned = require_owned_proven [OF u Some]
    show ?thesis
    proof (cases "kept_path tree p")
      case True
      with Cons Some u show ?thesis by (simp add: removable_def)
    next
      case False
      with Cons.prems Some u obtain rest where "removal_spans tree evidence bs = Inr rest"
        "spans = (cb_start b, cb_end b) # rest" by (auto simp: err_simps)
      with Cons.IH [OF this(1)] False Some owned show ?thesis by (simp add: removable_def)
    qed
  qed
qed simp

section \<open>Properties\<close>

text \<open>
  C31: a successful removal cuts exactly the plugin's own tables out of the text, except a marketplace
  another plugin uses: every byte outside of them stays, in its place in the order, and of the tables
  cut out each one is in the configuration what an installation recorded. The result is again a
  configuration, in which no table of the plugin is left.
\<close>

theorem removal_is_exact:
  assumes "render_config_removal V data evidence = Inr out" and "data \<noteq> []"
  shows "\<exists>tree src bs parsed again. parse_config V False data = Inr (tree, src) \<and> config_blocks V src = Inr bs \<and>
    out = tl_encode V (outside 0 (map (\<lambda>b. (cb_start b, cb_end b)) (filter (removable tree) bs)) src) \<and>
    list_all (proven_owned tree evidence) (filter (removable tree) bs) \<and>
    parse_config V True out = Inr (parsed, again) \<and> list_all (kept_path parsed) (target_paths parsed)"
proof -
  from assms obtain tree src bs spans parsed again where
    p: "parse_config V False data = Inr (tree, src)" and b: "config_blocks V src = Inr bs"
    and s: "removal_spans tree evidence bs = Inr spans" and out: "out = tl_encode V (foldr cut_out spans src)"
    and again: "parse_config V True out = Inr (parsed, again)" "require_targets_absent parsed = Inr ()"
    by (auto simp: render_config_removal_def err_simps Let_def)
  from b obtain hs where hs: "scan_table_headers (toml_valid V) src = Inr hs" "bs = blocks_of src hs"
    by (auto simp: config_blocks_def split: sum.splits)
  have "spans_ordered 0 (map (\<lambda>b. (cb_start b, cb_end b)) bs) (length src)"
    using headers_ordered [OF hs(1)] unfolding hs(2) by (intro blocks_ordered) (auto split: list.split)
  then have "spans_ordered 0 spans (length src)"
    using removal_spans_Inr [OF s] spans_ordered_subset by simp
  then have "foldr cut_out spans src = outside 0 spans src" using foldr_cut_out by fastforce
  with p b removal_spans_Inr [OF s] out again show ?thesis
    by (auto simp: require_targets_absent_def err_simps)
qed

definition ex_config :: string where
  "ex_config = ''[a]'' @ [NL] @ ''[marketplaces.simdorei]'' @ [NL] @ ''source_type='' @ [quotation] @ ''git'' @
     [quotation, NL] @ ''source='' @ [quotation] @ ''s'' @ [quotation, NL]"

definition ex_toml :: toml_env where
  "ex_toml = \<lparr>tl_decode = Some, tl_encode = (\<lambda>s. s),
     tl_load = (\<lambda>s. if s = ex_config
       then Some [(''a'', TomlTable []), (''marketplaces'', TomlTable [(''simdorei'',
         TomlTable [(''source_type'', TomlStr ''git''), (''source'', TomlStr ''s'')])])]
       else Some [(''a'', TomlTable [])])\<rparr>"

definition ex_evidence :: install_evidence where
  "ex_evidence = \<lparr>iv_marketplace = ''simdorei'', iv_plugin = PLUGIN_ID, iv_source_type = ''git'',
     iv_source = ''s'', iv_reference = None, iv_hooks = []\<rparr>"

theorem removal_is_exact_witness:
  "\<exists>tree txt bs. parse_config ex_toml False ex_config = Inr (tree, txt) \<and> config_blocks ex_toml txt = Inr bs \<and>
     ''[a]'' @ [NL] = outside 0 (map (\<lambda>b. (cb_start b, cb_end b)) (filter (removable tree) bs)) txt"
proof -
  have "render_config_removal ex_toml ex_config [ex_evidence] = Inr (''[a]'' @ [NL])" by code_simp
  moreover have "ex_config \<noteq> []" by (simp add: ex_config_def)
  ultimately have "\<exists>tree txt bs parsed again. parse_config ex_toml False ex_config = Inr (tree, txt) \<and>
    config_blocks ex_toml txt = Inr bs \<and>
    ''[a]'' @ [NL] = tl_encode ex_toml (outside 0 (map (\<lambda>b. (cb_start b, cb_end b)) (filter (removable tree) bs)) txt) \<and>
    list_all (proven_owned tree [ex_evidence]) (filter (removable tree) bs) \<and>
    parse_config ex_toml True (''[a]'' @ [NL]) = Inr (parsed, again) \<and> list_all (kept_path parsed) (target_paths parsed)"
    by (rule removal_is_exact)
  moreover have "tl_encode ex_toml s = s" for s by (simp add: ex_toml_def)
  ultimately show ?thesis by (elim exE conjE) (metis (no_types))
qed

end
