(* ===== verification/Spec2Isabelle.thy ===== *)
theory Spec2Isabelle
  imports Durations StallDetector Silence EventSource MonitorState Diagnostics WatcherCompletion Scheduler
    HookEvent CacheSemver McpServer DaemonRouting ConfigRemoval
begin

text \<open>
  Codex Must Work is a plugin that watches the sessions of a coding agent and reports when one of
  them has gone silent. This library models its core, the Python modules of \<open>src/scripts/\<close>.

  How the parts work together. The agent writes one rollout file of JSON lines per thread. A client
  starts the MCP server (\<open>mcp_server.py\<close>) and, after the user typed the invocation, calls
  \<open>cmw.work_on\<close>; the hook of that prompt has issued a single-use ticket, the server consumes it and
  starts a session: a JSON document under \<open>runtime/\<close> of the private state root. A scheduled callback
  ticks the watcher engine once a second: for every document it reads the new records of the rollout
  from a persisted cursor, turns them into progress events, advances the stall detector of every
  monitored turn, writes the detector's transitions back, logs a diagnostic and sends a notification,
  each at most once. Hooks of the agent change the same documents concurrently, under a file lock; a
  revision counter tells a writer that its snapshot is stale. The older active path (a resident
  manager that interrupts and restarts a stalled turn) keeps its handshake in the same documents.

  Theories, in the order of their imports:
  \<^item> Prelude: exceptions as sums (\<open>ebind\<close>), state-and-exception steps (\<open>sbind\<close>, \<open>keeps\<close>), dictionaries
    as association lists, the shared collections. Json: JSON values, Python's equality on them.
  \<^item> OncePerInterval: the locale of detectors that alert at most once per silent interval, interpreted
    by StallDetector (\<open>stall_detector.py\<close>) and by Silence (\<open>silence.py\<close>).
  \<^item> StateStore (\<open>state.py\<close>, \<open>state_io.py\<close>): the file store, path containment, load, save and locked
    update of documents; all exceptions of the program are the datatype \<open>exn\<close>.
  \<^item> MonitorState (\<open>monitor_state.py\<close>, \<open>monitor_target.py\<close>, \<open>activity_epoch.py\<close>) and SessionView: the
    session document and its typed view; updates of the document refine updates of the view.
  \<^item> Durations (\<open>durations.py\<close>), EventSource (\<open>event_source.py\<close>), Diagnostics
    (\<open>monitor_diagnostics.py\<close>, \<open>watcher_diagnostics.py\<close>), WatcherNotifications (\<open>notifications.py\<close>,
    \<open>watcher_notifications.py\<close>), WatcherSource (\<open>watcher_source.py\<close>, \<open>watcher_batch.py\<close>),
    WatcherProgress (\<open>watcher_events.py\<close>, \<open>watcher_progress.py\<close>, \<open>watcher_recovery.py\<close>), WatcherEngine
    and WatcherCompletion (\<open>watcher_engine.py\<close>, \<open>watcher_runtime.py\<close>, \<open>watcher_commit.py\<close>,
    \<open>watcher_completion.py\<close>, \<open>watcher_heartbeat.py\<close>, \<open>watcher_failure.py\<close>): the watcher, bottom up.
  \<^item> Scheduler (\<open>daemon_scheduler.py\<close>) and NotificationDaemon (\<open>notification_daemon.py\<close>,
    \<open>notification_session.py\<close>): keyed deadlines and the resident service over the watcher engine.
  \<^item> ActivationTickets (\<open>work_on_*.py\<close>, the capability functions of \<open>control_capability.py\<close>),
    Calibration (\<open>calibration*.py\<close>), ThresholdSettings (\<open>threshold_settings.py\<close>), McpProtocol
    (\<open>mcp_limits.py\<close>, \<open>mcp_protocol.py\<close>, \<open>mcp_stdio.py\<close>) and McpServer (\<open>mcp_arguments.py\<close>,
    \<open>mcp_server_tools.py\<close>, \<open>mcp_threshold_settings.py\<close>, \<open>mcp_dispatch.py\<close>): the server, whose
    interface to the daemon is the locale \<open>daemon_protocol\<close>, interpreted by the notification daemon.
  \<^item> HookState and HookEvent (\<open>hook_payload.py\<close>, \<open>hook_state.py\<close>, \<open>hook_event.py\<close>): the hooks' updates
    of the session document.
  \<^item> ManagerState (\<open>manager_runtime.py\<close> and its neighbours) and AppServerEvents
    (\<open>app_server_protocol.py\<close>, \<open>app_server_activity.py\<close>): the manager's persisted handshake and the
    state it keeps of the app-server connection.
  \<^item> RestartGuard (\<open>manager_restart_guard.py\<close>, \<open>watcher_state.py\<close>): the claim of a restart request on
    evidence read again. SessionIdentity (\<open>session_identity.py\<close>), ManagerLease (\<open>manager_lease.py\<close>,
    \<open>state_text.py\<close>, the readiness checks of \<open>manager_launch.py\<close>) and SessionSetup (\<open>setup.py\<close>,
    \<open>setup_cli.py\<close>, \<open>control.py\<close>, \<open>activation_validation.py\<close>, \<open>manager_reuse.py\<close>,
    \<open>daemon_activation.py\<close>): who owns a session and how it is switched on and off.
  \<^item> GoalControl (\<open>goal_control.py\<close>, \<open>goal_policy.py\<close>, \<open>manager_goal.py\<close>, \<open>goal_turn_source.py\<close>): native
    Goals and the locale \<open>managed_app_server\<close>, the manager's view of the app server, which
    AppServerClient (\<open>app_server_client.py\<close>) interprets over a schedule of arrivals.
  \<^item> ManagerEngine (\<open>manager_engine.py\<close>, \<open>manager_interrupt.py\<close>, \<open>manager_outcome.py\<close>,
    \<open>manager_shutdown.py\<close>, \<open>manager_messages.py\<close>, \<open>manager.py\<close>) and ManagerMessages: the resident manager,
    one tick and the whole process, and what it writes and leaves behind.
  \<^item> ActivationFence (\<open>activation_fence.py\<close>, \<open>daemon_activation_fence.py\<close>, \<open>daemon_recovery.py\<close>): the
    daemon hands a session over only after the turn that activated it has ended.
  \<^item> ClientPool (\<open>daemon_client_pool.py\<close>, \<open>daemon_client_close.py\<close>): the app-server client all tasks of
    the daemon share, under the locale \<open>client_owner\<close>, which the resident clients interpret. DaemonTask
    (\<open>daemon_task.py\<close>): one session inside the daemon. DaemonRouting (\<open>daemon_registry.py\<close>): which task an
    announcement of the app server belongs to, and the interrupt of a turn nobody owns.
  \<^item> TomlHeaders (\<open>toml_lexical_headers.py\<close>) and ConfigRemoval (\<open>uninstall_config.py\<close>): the removal of the
    plugin's tables from the configuration of the agent. CacheSemver (\<open>cache_semver.py\<close>): safe names and the version order of the plugin cache.

  Conventions. A function that raises returns \<open>exn + 'a\<close>, one that also changes state is a step
  \<open>'s \<Rightarrow> (exn + 'a) \<times> 's\<close>; the state an exception leaves behind is part of the result. A file is a
  parsed document, a text or a directory; a write of \<open>os.replace\<close> is atomic, as the code relies on.
  Locks serialise the operations that hold them, so an operation under a lock is one step and
  concurrent processes are interleavings of such steps; a lock that stays busy is an exception.
  Clock readings, directory listings, \<open>hashlib\<close>, \<open>hmac\<close>, the JSON scanner, \<open>json.dumps\<close> and the date
  functions are parameters, with what the code relies on stated as hypotheses (\<open>pylib\<close>, \<open>crypto\<close>,
  \<open>resolves\<close>). Times in seconds are rationals or reals: rounding of Python floats is not modelled.
  Python's integers are \<open>int\<close>; strings are lists of 8-bit characters.

  Limits. The byte, record, depth and size limits are those of the code (\<open>rollout_limits\<close>,
  \<open>MAX_LOG_BYTES\<close>, \<open>MAX_RAW_LINE_BYTES\<close>, \<dots>). Every loop is a total function: structural recursion, or
  \<open>function\<close> with a measure (the work list of \<open>validate_structure\<close>, the token search, the tail read);
  no fuel is used.

  What the lemmas show: the invariants of each state record, the exact effect of each operation with
  its error branches, and for the documents the refinement of a typed view. The properties that
  span components are stated in the theory that joins the components (WatcherEngine,
  WatcherCompletion, NotificationDaemon, McpServer, ManagerMessages).

  Not modelled: process creation, threads, pipes and sockets (the code around them is a step per
  operation, what a reader thread delivers is a schedule), file modes and access control lists, the
  HTTP page of the setup, the installer and the packaging scripts, and the daemon registry of the
  older active path.
\<close>

end
